(* ===== verification/Prelude.thy ===== *)
theory Prelude
  imports Complex_Main "HOL-Library.AList" "HOL-Library.Multiset" "HOL-Library.Sublist"
    "HOL-Library.List_Lexorder" "HOL-Library.Char_ord" "HOL-Library.Option_ord"
begin

text \<open>
  Shared vocabulary of the development: Python values, dictionaries, sets, strings and
  exceptions as HOL types, the lemma collections the component theories use, and the
  two generic interfaces (a key-value store, a component with an invariant).

  \<^item> a Python dict is an association list in insertion order with distinct keys:
    assignment to a known key keeps its position, a new key is appended;
  \<^item> a Python set is a duplicate-free list where its iteration order can reach a
    result, and only its membership matters to the theorems (the order CPython picks is
    not specified);
  \<^item> an operation that can raise returns \<open>py_error + 'a\<close>, with \<open>Inl\<close> for the exception;
  \<^item> a UID is a Python \<open>str | None\<close>, hence a string option.
\<close>

section \<open>Exceptions\<close>

datatype py_error =
    KeyError | IndexError | ValueError | TypeError | AttributeError | RuntimeError
  | OSError | ZeroDivisionError | UnicodeError
  | DbInterfaceError | PluginInitException | QueryConversionException | GenericException

type_synonym 'a result = "py_error + 'a"

definition bind_r :: "'a result \<Rightarrow> ('a \<Rightarrow> 'b result) \<Rightarrow> 'b result" where
  "bind_r r f = (case r of Inl e \<Rightarrow> Inl e | Inr x \<Rightarrow> f x)"

definition map_r :: "('a \<Rightarrow> 'b) \<Rightarrow> 'a result \<Rightarrow> 'b result" where
  "map_r f r = (case r of Inl e \<Rightarrow> Inl e | Inr x \<Rightarrow> Inr (f x))"

fun mapM_r :: "('a \<Rightarrow> 'b result) \<Rightarrow> 'a list \<Rightarrow> 'b list result" where
  "mapM_r f [] = Inr []"
| "mapM_r f (x # xs) = bind_r (f x) (\<lambda>y. bind_r (mapM_r f xs) (\<lambda>ys. Inr (y # ys)))"

fun foldM_r :: "('a \<Rightarrow> 's \<Rightarrow> 's result) \<Rightarrow> 'a list \<Rightarrow> 's \<Rightarrow> 's result" where
  "foldM_r f [] s = Inr s"
| "foldM_r f (x # xs) s = bind_r (f x s) (foldM_r f xs)"

named_theorems result_simps

lemma bind_r_simps [simp, result_simps]:
  "bind_r (Inl e) f = Inl e"
  "bind_r (Inr x) f = f x"
  by (simp_all add: bind_r_def)

lemma map_r_simps [simp, result_simps]:
  "map_r f (Inl e) = Inl e"
  "map_r f (Inr x) = Inr (f x)"
  by (simp_all add: map_r_def)

lemma bind_r_Inr_iff [result_simps]:
  "bind_r r f = Inr y \<longleftrightarrow> (\<exists>x. r = Inr x \<and> f x = Inr y)"
  by (cases r) auto

lemma bind_r_Inl_iff [result_simps]:
  "bind_r r f = Inl e \<longleftrightarrow> r = Inl e \<or> (\<exists>x. r = Inr x \<and> f x = Inl e)"
  by (cases r) auto

lemma map_r_Inr_iff [result_simps]: "map_r f r = Inr y \<longleftrightarrow> (\<exists>x. r = Inr x \<and> y = f x)"
  by (cases r) auto

lemma map_r_Inl_iff [result_simps]: "map_r f r = Inl e \<longleftrightarrow> r = Inl e"
  by (cases r) auto

lemma bind_r_cong [fundef_cong]:
  "r = r' \<Longrightarrow> (\<And>x. r' = Inr x \<Longrightarrow> f x = f' x) \<Longrightarrow> bind_r r f = bind_r r' f'"
  by (cases r') auto

lemma mapM_r_Cons_Inr [result_simps]:
  "mapM_r f (x # xs) = Inr ds \<longleftrightarrow> (\<exists>y ys. f x = Inr y \<and> mapM_r f xs = Inr ys \<and> ds = y # ys)"
  by (auto simp: bind_r_Inr_iff)

lemma mapM_r_ok: "\<forall>x \<in> set xs. \<exists>y. f x = Inr y \<Longrightarrow> \<exists>ys. mapM_r f xs = Inr ys"
  by (induction xs) (auto simp: result_simps)

lemma mapM_r_Inr_list_all2: "mapM_r f xs = Inr ys \<longleftrightarrow> list_all2 (\<lambda>x y. f x = Inr y) xs ys"
  by (induction xs arbitrary: ys) (auto simp: result_simps list_all2_Cons1)

lemma foldM_r_append: "foldM_r f (xs @ ys) s = bind_r (foldM_r f xs s) (foldM_r f ys)"
proof (induction xs arbitrary: s)
  case Nil
  then show ?case by simp
next
  case (Cons x xs)
  then show ?case by (cases "f x s") simp_all
qed

text \<open>An invariant every successful step of a fold keeps is kept by the fold.\<close>

lemma foldM_r_inv:
  assumes "foldM_r f xs s = Inr s'" and "P s"
    and "\<And>x s s'. x \<in> set xs \<Longrightarrow> f x s = Inr s' \<Longrightarrow> P s \<Longrightarrow> P s'"
  shows "P s'"
  using assms
proof (induction xs arbitrary: s)
  case Nil
  then show ?case by simp
next
  case (Cons x xs)
  then obtain t where t: "f x s = Inr t" "foldM_r f xs t = Inr s'"
    by (auto simp: result_simps)
  have "P t" using Cons.prems(3)[OF _ t(1) Cons.prems(2)] by simp
  with t(2) show ?case
    by (rule Cons.IH) (use Cons.prems(3) in auto)
qed

text \<open>\<open>any(...)\<close> stops at the first hit.\<close>

fun any_r :: "('a \<Rightarrow> bool result) \<Rightarrow> 'a list \<Rightarrow> bool result" where
  "any_r P [] = Inr False"
| "any_r P (x # xs) = bind_r (P x) (\<lambda>b. if b then Inr True else any_r P xs)"

lemma any_r_pure: "(\<And>x. x \<in> set xs \<Longrightarrow> P x = Inr (Q x)) \<Longrightarrow> any_r P xs = Inr (\<exists>x \<in> set xs. Q x)"
  by (induction xs) auto

lemma foldM_r_pure: "(\<And>x s. x \<in> set xs \<Longrightarrow> f x s = Inr (g x s)) \<Longrightarrow> foldM_r f xs s = Inr (fold g xs s)"
  by (induction xs arbitrary: s) auto

section \<open>UIDs, f-strings and Python values\<close>

type_synonym uid = "string option"

type_synonym py_float = real

text \<open>\<open>str(x)\<close> (and \<open>f'{x}'\<close>) of a \<open>str | None\<close>.\<close>

definition fstr :: "string option \<Rightarrow> string" where
  "fstr x = (case x of None \<Rightarrow> ''None'' | Some s \<Rightarrow> s)"

lemma fstr_simps [simp]: "fstr None = ''None''" "fstr (Some s) = s"
  by (simp_all add: fstr_def)

type_synonym ('k, 'v) dict = "('k \<times> 'v) list"

datatype pyval =
    PNone | PBool bool | PInt int | PFloat real | PStr string | PBytes "nat list"
  | PList "pyval list" | PSet "pyval list" | PDict "(string \<times> pyval) list"

type_synonym analysis_result = "(string, pyval) dict"

text \<open>Python truth value of an \<open>Optional[str]\<close>.\<close>

definition truthy_str :: "string option \<Rightarrow> bool" where
  "truthy_str x = (case x of None \<Rightarrow> False | Some s \<Rightarrow> s \<noteq> [])"

lemma truthy_str_simps [simp]: "truthy_str None = False" "truthy_str (Some s) = (s \<noteq> [])"
  by (simp_all add: truthy_str_def)

section \<open>Dictionaries\<close>

abbreviation dget :: "('k, 'v) dict \<Rightarrow> 'k \<Rightarrow> 'v option" where
  "dget d k \<equiv> map_of d k"

abbreviation dput :: "'k \<Rightarrow> 'v \<Rightarrow> ('k, 'v) dict \<Rightarrow> ('k, 'v) dict" where
  "dput k v d \<equiv> AList.update k v d"

abbreviation ddel :: "'k \<Rightarrow> ('k, 'v) dict \<Rightarrow> ('k, 'v) dict" where
  "ddel k d \<equiv> AList.delete k d"

definition dkeys :: "('k, 'v) dict \<Rightarrow> 'k list" where
  "dkeys d = map fst d"

definition dvalues :: "('k, 'v) dict \<Rightarrow> 'v list" where
  "dvalues d = map snd d"

definition dmem :: "'k \<Rightarrow> ('k, 'v) dict \<Rightarrow> bool" where
  "dmem k d = (map_of d k \<noteq> None)"

definition dict_ok :: "('k, 'v) dict \<Rightarrow> bool" where
  "dict_ok d = distinct (map fst d)"

text \<open>\<open>d[k]\<close>, which raises \<open>KeyError\<close>, and \<open>d.update(e)\<close>.\<close>

definition dlookup :: "('k, 'v) dict \<Rightarrow> 'k \<Rightarrow> 'v result" where
  "dlookup d k = (case map_of d k of None \<Rightarrow> Inl KeyError | Some v \<Rightarrow> Inr v)"

definition dupdate :: "('k, 'v) dict \<Rightarrow> ('k, 'v) dict \<Rightarrow> ('k, 'v) dict" where
  "dupdate d e = fold (\<lambda>(k, v). AList.update k v) e d"

text \<open>\<open>d.setdefault(k, []).append(v)\<close>.\<close>

definition dappend :: "'k \<Rightarrow> 'v \<Rightarrow> ('k, 'v list) dict \<Rightarrow> ('k, 'v list) dict" where
  "dappend k v d = AList.update k ((case map_of d k of None \<Rightarrow> [] | Some vs \<Rightarrow> vs) @ [v]) d"

named_theorems dict_simps

lemma dget_dput [simp, dict_simps]: "map_of (AList.update k v d) = (map_of d)(k \<mapsto> v)"
  by (rule AList.update_conv')

lemma dget_ddel [simp, dict_simps]: "map_of (AList.delete k d) = (map_of d)(k := None)"
  by (rule AList.delete_conv')

lemma dmem_iff [dict_simps]: "dmem k d \<longleftrightarrow> k \<in> set (dkeys d)"
  by (simp add: dmem_def dkeys_def map_of_eq_None_iff)

lemma dput_new: "k \<notin> set (dkeys d) \<Longrightarrow> dput k v d = d @ [(k, v)]"
  by (induction d) (auto simp: dkeys_def)

lemma set_dkeys_dput [simp, dict_simps]: "set (dkeys (AList.update k v d)) = insert k (set (dkeys d))"
  using AList.dom_update[of k v d] by (simp add: dkeys_def)

lemma set_dkeys_ddel [simp, dict_simps]: "set (dkeys (AList.delete k d)) = set (dkeys d) - {k}"
  by (simp add: dkeys_def AList.delete_keys)

lemma dkeys_simps [simp, dict_simps]: "dkeys [] = []" "dkeys ((k, v) # d) = k # dkeys d"
  by (simp_all add: dkeys_def)

lemma dict_ok_Nil [simp, intro]: "dict_ok []"
  by (simp add: dict_ok_def)

lemma dict_ok_dput [simp, intro]: "dict_ok d \<Longrightarrow> dict_ok (AList.update k v d)"
  by (simp add: dict_ok_def AList.distinct_update)

lemma dict_ok_ddel [simp, intro]: "dict_ok d \<Longrightarrow> dict_ok (AList.delete k d)"
  by (simp add: dict_ok_def AList.distinct_delete)

lemma dict_ok_filter [simp, intro]: "dict_ok d \<Longrightarrow> dict_ok (filter P d)"
  by (simp add: dict_ok_def distinct_map_filter)

lemma dlookup_Inr_iff [simp, dict_simps]: "dlookup d k = Inr v \<longleftrightarrow> map_of d k = Some v"
  by (simp add: dlookup_def split: option.splits)

lemma dlookup_Inl_iff [simp, dict_simps]: "dlookup d k = Inl e \<longleftrightarrow> map_of d k = None \<and> e = KeyError"
  by (auto simp add: dlookup_def split: option.splits)

lemma dict_ok_dupdate: "dict_ok d \<Longrightarrow> dict_ok (dupdate d e)"
  unfolding dupdate_def by (induction e arbitrary: d) auto

lemma dget_dupdate:
  "dict_ok e \<Longrightarrow> map_of (dupdate d e) k = (case map_of e k of None \<Rightarrow> map_of d k | Some v \<Rightarrow> Some v)"
  unfolding dupdate_def
proof (induction e arbitrary: d)
  case Nil
  then show ?case by simp
next
  case (Cons kv e)
  obtain k' v where kv: "kv = (k', v)" by force
  from Cons.prems kv have "k' \<notin> dom (map_of e)" "dict_ok e"
    by (auto simp: dict_ok_def dom_map_of_conv_image_fst)
  then show ?case using Cons.IH[of "AList.update k' v d"] kv
    by (auto split: option.splits)
qed

lemma dget_dappend [dict_simps]:
  "map_of (dappend k v d) = (map_of d)(k \<mapsto> (case map_of d k of None \<Rightarrow> [] | Some vs \<Rightarrow> vs) @ [v])"
  by (simp add: dappend_def)

lemma dict_ok_dappend [simp, intro]: "dict_ok d \<Longrightarrow> dict_ok (dappend k v d)"
  by (simp add: dappend_def)

lemma dget_in_dvalues: "map_of d k = Some v \<Longrightarrow> v \<in> set (dvalues d)"
  by (force simp: dvalues_def dest: map_of_SomeD)

lemma dvalues_dget: "dict_ok d \<Longrightarrow> v \<in> set (dvalues d) \<Longrightarrow> \<exists>k. map_of d k = Some v"
  by (force simp: dvalues_def dict_ok_def)

section \<open>Sets and list operations\<close>

text \<open>\<open>set(xs)\<close> and \<open>list(set(xs))\<close>; the order is that of the first occurrences.\<close>

definition py_set :: "'a list \<Rightarrow> 'a list" where
  "py_set xs = rev (remdups (rev xs))"

lemma set_py_set [simp]: "set (py_set xs) = set xs"
  by (simp add: py_set_def)

lemma distinct_py_set [simp, intro]: "distinct (py_set xs)"
  by (simp add: py_set_def)

lemma py_set_Nil [simp]: "py_set [] = []"
  by (simp add: py_set_def)

lemma py_set_distinct [simp]: "distinct xs \<Longrightarrow> py_set xs = xs"
  by (simp add: py_set_def distinct_remdups_id)

lemma py_set_empty_iff [simp]: "py_set xs = [] \<longleftrightarrow> xs = []"
  by (metis set_empty set_py_set)

lemma length_py_set: "length (py_set xs) = card (set xs)"
  by (simp add: py_set_def length_remdups_card_conv)

text \<open>\<open>s.add(x)\<close>, \<open>s.union(t)\<close>, \<open>s - t\<close>, \<open>s.intersection(t)\<close>.\<close>

definition set_add :: "'a \<Rightarrow> 'a list \<Rightarrow> 'a list" where
  "set_add x s = (if x \<in> set s then s else s @ [x])"

definition set_union :: "'a list \<Rightarrow> 'a list \<Rightarrow> 'a list" where
  "set_union s t = py_set (s @ t)"

definition set_minus :: "'a list \<Rightarrow> 'a list \<Rightarrow> 'a list" where
  "set_minus s t = filter (\<lambda>x. x \<notin> set t) s"

definition set_inter :: "'a list \<Rightarrow> 'a list \<Rightarrow> 'a list" where
  "set_inter s t = filter (\<lambda>x. x \<in> set t) s"

lemma set_set_ops [simp]:
  "set (set_add x s) = insert x (set s)"
  "set (set_union s t) = set s \<union> set t"
  "set (set_minus s t) = set s - set t"
  "set (set_inter s t) = set s \<inter> set t"
  by (auto simp: set_add_def set_union_def set_minus_def set_inter_def)

lemma distinct_set_ops [simp, intro]:
  "distinct s \<Longrightarrow> distinct (set_add x s)"
  "distinct (set_union s t)"
  "distinct s \<Longrightarrow> distinct (set_minus s t)"
  "distinct s \<Longrightarrow> distinct (set_inter s t)"
  by (auto simp: set_add_def set_union_def set_minus_def set_inter_def)

lemma distinct_card_length: "distinct xs \<Longrightarrow> distinct ys \<Longrightarrow> set xs = set ys \<Longrightarrow> length xs = length ys"
  by (metis distinct_card)

lemma length_remove1_mem: "x \<in> set xs \<Longrightarrow> length xs = Suc (length (remove1 x xs))"
  using length_pos_if_in_set[of x xs] by (simp add: length_remove1)

text \<open>\<open>xs.sort(key=f)\<close> and \<open>xs.sort(key=f, reverse=True)\<close> are stable.\<close>

definition py_sort_rev :: "('a \<Rightarrow> 'b::linorder) \<Rightarrow> 'a list \<Rightarrow> 'a list" where
  "py_sort_rev f xs = rev (sort_key f (rev xs))"

lemma set_py_sort_rev [simp]: "set (py_sort_rev f xs) = set xs"
  by (simp add: py_sort_rev_def)

lemma mset_py_sort_rev [simp]: "mset (py_sort_rev f xs) = mset xs"
  by (simp add: py_sort_rev_def)

section \<open>Strings\<close>

text \<open>\<open>s.split(c)\<close> and \<open>sep.join(xs)\<close>.\<close>

fun split_on :: "char \<Rightarrow> string \<Rightarrow> string list" where
  "split_on c [] = [[]]"
| "split_on c (x # xs) =
     (if x = c then [] # split_on c xs
      else case split_on c xs of [] \<Rightarrow> [[x]] | y # ys \<Rightarrow> (x # y) # ys)"

fun join_with :: "string \<Rightarrow> string list \<Rightarrow> string" where
  "join_with sep [] = []"
| "join_with sep [x] = x"
| "join_with sep (x # y # ys) = x @ sep @ join_with sep (y # ys)"

lemma split_on_nonempty [simp]: "split_on c s \<noteq> []"
  by (cases s) (auto split: list.splits)

lemma join_with_Cons: "xs \<noteq> [] \<Longrightarrow> join_with sep (x # xs) = x @ sep @ join_with sep xs"
  by (cases xs) auto

lemma join_split [simp]: "join_with [c] (split_on c s) = s"
proof (induction s)
  case Nil
  then show ?case by simp
next
  case (Cons x s)
  obtain y ys where "split_on c s = y # ys" by (cases "split_on c s") auto
  with Cons show ?case by (cases ys) auto
qed

lemma split_on_notin: "c \<notin> set s \<Longrightarrow> split_on c s = [s]"
  by (induction s) auto

lemma split_on_sep: "split_on c (s @ c # t) = split_on c s @ split_on c t"
proof (induction s)
  case (Cons x s)
  obtain y ys where "split_on c s = y # ys" by (cases "split_on c s") auto
  with Cons show ?case by simp
qed simp

lemma split_on_append: "c \<notin> set s \<Longrightarrow> split_on c (s @ c # t) = s # split_on c t"
  by (induction s) auto

lemma split_join [simp]:
  "xs \<noteq> [] \<Longrightarrow> \<forall>x \<in> set xs. c \<notin> set x \<Longrightarrow> split_on c (join_with [c] xs) = xs"
proof (induction xs)
  case Nil
  then show ?case by simp
next
  case (Cons x xs)
  show ?case
  proof (cases xs)
    case Nil
    then show ?thesis using Cons.prems by (simp add: split_on_notin)
  next
    case (Cons y ys)
    then show ?thesis
      using Cons.prems Cons.IH split_on_append[of c x "join_with [c] xs"]
      by (simp add: join_with_Cons)
  qed
qed

lemma split_on_elems: "x \<in> set (split_on c s) \<Longrightarrow> c \<notin> set x"
  by (induction s arbitrary: x) (auto split: list.splits if_splits)

text \<open>\<open>s.replace(old, new)\<close>; with an empty \<open>old\<close> Python inserts \<open>new\<close> around every
  character.\<close>

function replace_str :: "string \<Rightarrow> string \<Rightarrow> string \<Rightarrow> string" where
  "replace_str old new s =
     (if old = [] then new @ concat (map (\<lambda>c. c # new) s)
      else case s of [] \<Rightarrow> []
        | c # cs \<Rightarrow> if prefix old s then new @ replace_str old new (drop (length old) s)
                  else c # replace_str old new cs)"
  by pat_completeness auto
termination
  by (relation "measure (\<lambda>(old, new, s). length s)") auto

declare replace_str.simps [simp del]

definition replace_char :: "char \<Rightarrow> string \<Rightarrow> string \<Rightarrow> string" where
  "replace_char c new s = concat (map (\<lambda>x. if x = c then new else [x]) s)"

lemma replace_char_simps [simp]:
  "replace_char c new [] = []"
  "replace_char c new (x # s) = (if x = c then new else [x]) @ replace_char c new s"
  by (simp_all add: replace_char_def)

lemma replace_char_notin: "c \<notin> set s \<Longrightarrow> replace_char c new s = s"
  by (induction s) auto

lemma set_replace_char: "c \<notin> set new \<Longrightarrow> c \<notin> set (replace_char c new s)"
  by (induction s) auto

lemma replace_str_single: "replace_str [c] new s = replace_char c new s"
proof (induction s)
  case Nil
  show ?case by (simp add: replace_str.simps[of "[c]" new "[]"])
next
  case (Cons x s)
  then show ?case by (auto simp add: replace_str.simps[of "[c]" new "x # s"])
qed

text \<open>\<open>s.lower()\<close> on ASCII, \<open>s.startswith(p)\<close>, \<open>sub in s\<close>, \<open>s.lstrip(c)\<close>.\<close>

definition lower_char :: "char \<Rightarrow> char" where
  "lower_char c = (let n = (of_char c :: nat) in if 65 \<le> n \<and> n \<le> 90 then char_of (n + 32) else c)"

definition lower :: "string \<Rightarrow> string" where
  "lower s = map lower_char s"

abbreviation startswith :: "string \<Rightarrow> string \<Rightarrow> bool" where
  "startswith s p \<equiv> prefix p s"

abbreviation substr_in :: "string \<Rightarrow> string \<Rightarrow> bool" where
  "substr_in p s \<equiv> sublist p s"

definition lstrip :: "char \<Rightarrow> string \<Rightarrow> string" where
  "lstrip c s = dropWhile (\<lambda>x. x = c) s"

text \<open>\<open>str(n)\<close> of an int.\<close>

fun digits_of :: "nat \<Rightarrow> string" where
  "digits_of n = (if n < 10 then [char_of (48 + n)] else digits_of (n div 10) @ [char_of (48 + n mod 10)])"

declare digits_of.simps [simp del]

definition str_nat :: "nat \<Rightarrow> string" where
  "str_nat n = digits_of n"

definition str_int :: "int \<Rightarrow> string" where
  "str_int i = (if i < 0 then ''-'' @ digits_of (nat (- i)) else digits_of (nat i))"

definition is_digit :: "char \<Rightarrow> bool" where
  "is_digit c = (let n = (of_char c :: nat) in 48 \<le> n \<and> n \<le> 57)"

lemma digits_of_nonempty [simp]: "digits_of n \<noteq> []"
  by (subst digits_of.simps) simp

lemma digits_of_digits: "\<forall>c \<in> set (digits_of n). is_digit c"
proof (induction n rule: digits_of.induct)
  case (1 n)
  show ?case
  proof (cases "n < 10")
    case True
    then show ?thesis by (subst digits_of.simps) (simp add: is_digit_def)
  next
    case False
    with 1 show ?thesis by (subst digits_of.simps) (auto simp: is_digit_def)
  qed
qed

section \<open>Interfaces\<close>

text \<open>
  A key-value store with an abstraction to maps: the dictionaries of the multiprocessing
  managers and the Redis keyspace are used through it.
\<close>

locale kv_store =
  fixes empty_s :: "'s"
    and get_s :: "'s \<Rightarrow> 'k \<Rightarrow> 'v option"
    and put_s :: "'k \<Rightarrow> 'v \<Rightarrow> 's \<Rightarrow> 's"
    and del_s :: "'k \<Rightarrow> 's \<Rightarrow> 's"
    and inv_s :: "'s \<Rightarrow> bool"
  assumes get_empty: "get_s empty_s k = None"
    and get_put: "inv_s s \<Longrightarrow> get_s (put_s k v s) k' = (if k' = k then Some v else get_s s k')"
    and get_del: "inv_s s \<Longrightarrow> get_s (del_s k s) k' = (if k' = k then None else get_s s k')"
    and inv_empty: "inv_s empty_s"
    and inv_put: "inv_s s \<Longrightarrow> inv_s (put_s k v s)"
    and inv_del: "inv_s s \<Longrightarrow> inv_s (del_s k s)"
begin

text \<open>Writing and then reading a list of keys, each once, yields the values written.\<close>

lemma inv_puts: "inv_s s \<Longrightarrow> inv_s (fold (\<lambda>(k, v). put_s k v) kvs s)"
  by (induction kvs arbitrary: s) (auto intro: inv_put)

lemma get_puts_other:
  "inv_s s \<Longrightarrow> k \<notin> fst ` set kvs \<Longrightarrow> get_s (fold (\<lambda>(k, v). put_s k v) kvs s) k = get_s s k"
  by (induction kvs arbitrary: s) (auto simp: get_put inv_put)

lemma get_puts:
  "inv_s s \<Longrightarrow> distinct (map fst kvs) \<Longrightarrow> (k, v) \<in> set kvs \<Longrightarrow>
   get_s (fold (\<lambda>(k, v). put_s k v) kvs s) k = Some v"
proof (induction kvs arbitrary: s)
  case Nil
  then show ?case by simp
next
  case (Cons kv kvs)
  obtain k' v' where kv: "kv = (k', v')" by force
  show ?case
  proof (cases "(k, v) \<in> set kvs")
    case True
    with Cons kv show ?thesis by (auto simp: inv_put)
  next
    case False
    with Cons.prems kv have "k = k'" "v = v'" "k \<notin> fst ` set kvs" by auto
    with Cons.prems kv show ?thesis
      by (simp add: get_puts_other get_put inv_put)
  qed
qed

lemma inv_dels: "inv_s s \<Longrightarrow> inv_s (fold del_s ks s)"
  by (induction ks arbitrary: s) (auto intro: inv_del)

lemma get_dels: "inv_s s \<Longrightarrow> get_s (fold del_s ks s) k = (if k \<in> set ks then None else get_s s k)"
  by (induction ks arbitrary: s) (auto simp: get_del inv_del)

lemma put_del_cancel: "inv_s s \<Longrightarrow> get_s s k = None \<Longrightarrow> get_s (del_s k (put_s k v s)) k' = get_s s k'"
  by (simp add: get_del get_put inv_put)

end

interpretation dict_kv: kv_store "[]" map_of AList.update AList.delete dict_ok
  by unfold_locales auto

text \<open>
  A component whose operations are given as events: an initial state, a step that may
  refuse an event (an exception before any change), and an invariant every step keeps.
\<close>

locale component =
  fixes step :: "'e \<Rightarrow> 's \<Rightarrow> 's"
    and ok :: "'e \<Rightarrow> 's \<Rightarrow> bool"
    and inv :: "'s \<Rightarrow> bool"
  assumes step_inv: "inv s \<Longrightarrow> ok e s \<Longrightarrow> inv (step e s)"
begin

fun run :: "'e list \<Rightarrow> 's \<Rightarrow> 's" where
  "run [] s = s"
| "run (e # es) s = run es (step e s)"

fun run_ok :: "'e list \<Rightarrow> 's \<Rightarrow> bool" where
  "run_ok [] s = True"
| "run_ok (e # es) s = (ok e s \<and> run_ok es (step e s))"

lemma run_inv: "inv s \<Longrightarrow> run_ok es s \<Longrightarrow> inv (run es s)"
  by (induction es arbitrary: s) (auto intro: step_inv)

lemma run_fold: "run es s = fold step es s"
  by (induction es arbitrary: s) auto

end

end
