(* ===== verification/Conversion.thy ===== *)
theory Conversion
  imports Prelude
begin

text \<open>
  The small helpers every component uses: \<open>helperFunctions/data_conversion.py\<close>,
  \<open>uid.py\<close>, \<open>compare_sets.py\<close>, \<open>merge_generators.py\<close> and \<open>tag.py\<close>. The hash function
  is a parameter (\<open>hashlib\<close>); strings are Python strings over the code points below 256.
\<close>

section \<open>Bytes and UIDs\<close>

type_synonym bytes = "nat list"

datatype raw_data = RBytes bytes | RStr string | RInts "int list"

text \<open>UTF-8 of a code point below 256.\<close>

definition utf8_char :: "char \<Rightarrow> bytes" where
  "utf8_char c = (let n = of_char c in if n < 128 then [n] else [192 + n div 64, 128 + n mod 64])"

definition utf8_encode :: "string \<Rightarrow> bytes" where
  "utf8_encode s = concat (map utf8_char s)"

definition make_bytes :: "raw_data \<Rightarrow> bytes result" where
  "make_bytes data = (case data of
      RBytes b \<Rightarrow> Inr b
    | RStr s \<Rightarrow> Inr (utf8_encode s)
    | RInts is \<Rightarrow> if list_all (\<lambda>i. 0 \<le> i \<and> i < 256) is then Inr (map nat is) else Inl ValueError)"

definition get_sha256 :: "(bytes \<Rightarrow> string) \<Rightarrow> raw_data \<Rightarrow> string result" where
  "get_sha256 sha code = map_r sha (make_bytes code)"

definition create_uid :: "(bytes \<Rightarrow> string) \<Rightarrow> raw_data \<Rightarrow> string result" where
  "create_uid sha input_data =
     bind_r (get_sha256 sha input_data) (\<lambda>hash_value.
       map_r (\<lambda>b. hash_value @ ''_'' @ str_nat (length b)) (make_bytes input_data))"

definition is_hex :: "char \<Rightarrow> bool" where
  "is_hex c = (is_digit c \<or> (let n = (of_char c :: nat) in 97 \<le> n \<and> n \<le> 102))"

text \<open>\<open>UID_REGEX.match\<close>: the prefix matched by \<open>[a-f0-9]{64}_[0-9]+\<close> (greedy).\<close>

definition uid_match :: "string \<Rightarrow> string option" where
  "uid_match s =
     (let h = take 64 s; r = drop 64 s in
      if length h = 64 \<and> list_all is_hex h \<and> r \<noteq> [] \<and> hd r = CHR ''_'' then
        (let ds = takeWhile is_digit (tl r) in if ds = [] then None else Some (h @ ''_'' @ ds))
      else None)"

definition is_uid :: "pyval \<Rightarrow> bool" where
  "is_uid v = (case v of
      PStr s \<Rightarrow> (case uid_match s of None \<Rightarrow> False | Some m \<Rightarrow> m = s)
    | _ \<Rightarrow> False)"

definition is_list_of_uids :: "pyval \<Rightarrow> bool" where
  "is_list_of_uids v = (case v of
      PSet xs \<Rightarrow> xs \<noteq> [] \<and> list_all is_uid xs
    | PList xs \<Rightarrow> xs \<noteq> [] \<and> list_all is_uid xs
    | _ \<Rightarrow> False)"

text \<open>What \<open>is_uid\<close> accepts, written out.\<close>

lemma is_uid_iff:
  "is_uid (PStr s) \<longleftrightarrow>
     (\<exists>h ds. s = h @ ''_'' @ ds \<and> length h = 64 \<and> (\<forall>c \<in> set h. is_hex c) \<and>
             ds \<noteq> [] \<and> (\<forall>c \<in> set ds. is_digit c))"
proof
  assume "is_uid (PStr s)"
  then have m: "uid_match s = Some s"
    by (auto simp: is_uid_def split: option.splits)
  then have h: "length (take 64 s) = 64" "list_all is_hex (take 64 s)"
    and ds: "takeWhile is_digit (tl (drop 64 s)) \<noteq> []"
    and s: "s = take 64 s @ ''_'' @ takeWhile is_digit (tl (drop 64 s))"
    by (auto simp: uid_match_def Let_def split: if_splits)
  have "\<forall>c \<in> set (takeWhile is_digit (tl (drop 64 s))). is_digit c"
    by (auto dest: set_takeWhileD)
  then show "\<exists>h ds. s = h @ ''_'' @ ds \<and> length h = 64 \<and> (\<forall>c \<in> set h. is_hex c) \<and>
             ds \<noteq> [] \<and> (\<forall>c \<in> set ds. is_digit c)"
    using h ds s unfolding list_all_iff by blast
next
  assume "\<exists>h ds. s = h @ ''_'' @ ds \<and> length h = 64 \<and> (\<forall>c \<in> set h. is_hex c) \<and>
             ds \<noteq> [] \<and> (\<forall>c \<in> set ds. is_digit c)"
  then obtain h ds where s: "s = h @ ''_'' @ ds" "length h = 64" "\<forall>c \<in> set h. is_hex c"
    "ds \<noteq> []" "\<forall>c \<in> set ds. is_digit c" by blast
  then have tw: "takeWhile is_digit ds = ds" by (simp add: takeWhile_eq_all_conv)
  show "is_uid (PStr s)"
    using s(2-4) by (simp add: s(1) is_uid_def uid_match_def Let_def list_all_iff tw)
qed

lemma create_uid_Inr:
  "create_uid sha d = Inr u \<longleftrightarrow> (\<exists>b. make_bytes d = Inr b \<and> u = sha b @ ''_'' @ str_nat (length b))"
  by (auto simp: create_uid_def get_sha256_def result_simps)

lemma create_uid_is_uid_aux:
  assumes "\<And>b. length (sha b) = 64 \<and> (\<forall>c \<in> set (sha b). is_hex c)" and "create_uid sha d = Inr u"
  shows "is_uid (PStr u)"
proof -
  from assms(2) obtain b where b: "u = sha b @ ''_'' @ digits_of (length b)"
    by (auto simp: create_uid_Inr str_nat_def)
  have "length (sha b) = 64" "\<forall>c \<in> set (sha b). is_hex c" using assms(1)[of b] by auto
  then show ?thesis
    unfolding b is_uid_iff using digits_of_digits[of "length b"] digits_of_nonempty by blast
qed

section \<open>Compare IDs\<close>

definition convert_uid_list_to_compare_id :: "string list \<Rightarrow> string" where
  "convert_uid_list_to_compare_id uid_list = join_with '';'' (sort uid_list)"

definition convert_compare_id_to_list :: "string \<Rightarrow> string list" where
  "convert_compare_id_to_list compare_id = split_on (CHR '';'') compare_id"

definition normalize_compare_id :: "string \<Rightarrow> string" where
  "normalize_compare_id compare_id =
     (let uids = convert_compare_id_to_list compare_id in convert_uid_list_to_compare_id uids)"

lemma sort_sort_eq: "sort (sort xs) = sort (xs :: 'a::linorder list)"
  by (simp add: sorted_sort_id)

lemma compare_id_roundtrip:
  assumes "xs \<noteq> []" and "\<forall>u \<in> set xs. CHR '';'' \<notin> set u"
  shows "convert_compare_id_to_list (convert_uid_list_to_compare_id xs) = sort xs"
proof -
  have "sort xs \<noteq> []" using assms(1) by (metis mset_sort mset_zero_iff)
  moreover have "\<forall>u \<in> set (sort xs). CHR '';'' \<notin> set u" using assms(2) by simp
  ultimately show ?thesis
    by (simp add: convert_compare_id_to_list_def convert_uid_list_to_compare_id_def)
qed

lemma sort_eq_iff_mset: "sort xs = sort (ys :: 'a::linorder list) \<longleftrightarrow> mset xs = mset ys"
  by (metis mset_sort properties_for_sort sorted_sort)

lemma normalize_compare_id_idem: "normalize_compare_id (normalize_compare_id c) = normalize_compare_id c"
proof -
  let ?xs = "convert_compare_id_to_list c"
  have "?xs \<noteq> []" "\<forall>u \<in> set ?xs. CHR '';'' \<notin> set u"
    by (auto simp: convert_compare_id_to_list_def dest: split_on_elems)
  then show ?thesis
    by (simp add: normalize_compare_id_def Let_def compare_id_roundtrip)
       (simp add: convert_uid_list_to_compare_id_def sort_sort_eq)
qed

text \<open>Two compare IDs denote the same comparison exactly if they list the same UIDs.\<close>

lemma normalize_compare_id_eq_iff:
  "normalize_compare_id c = normalize_compare_id d \<longleftrightarrow>
   mset (convert_compare_id_to_list c) = mset (convert_compare_id_to_list d)"
proof
  let ?f = convert_compare_id_to_list
  assume "normalize_compare_id c = normalize_compare_id d"
  then have "?f (convert_uid_list_to_compare_id (?f c)) = ?f (convert_uid_list_to_compare_id (?f d))"
    by (simp add: normalize_compare_id_def Let_def)
  moreover have "?f x \<noteq> [] \<and> (\<forall>u \<in> set (?f x). CHR '';'' \<notin> set u)" for x
    by (auto simp: convert_compare_id_to_list_def dest: split_on_elems)
  ultimately show "mset (?f c) = mset (?f d)"
    by (simp add: compare_id_roundtrip sort_eq_iff_mset)
next
  assume "mset (convert_compare_id_to_list c) = mset (convert_compare_id_to_list d)"
  then show "normalize_compare_id c = normalize_compare_id d"
    by (simp add: normalize_compare_id_def Let_def convert_uid_list_to_compare_id_def
        sort_eq_iff_mset [symmetric])
qed

section \<open>Other conversions\<close>

text \<open>\<open>sorted\<close> of the keys raises when \<open>None\<close> is compared with a string.\<close>

definition get_value_of_first_key :: "(uid, 'v) dict \<Rightarrow> 'v option result" where
  "get_value_of_first_key input_dict =
     (if input_dict = [] then Inr None
      else if None \<in> set (dkeys input_dict) \<and> length input_dict > 1 then Inl TypeError
      else Inr (map_of input_dict (hd (sort (dkeys input_dict)))))"

definition none_to_none :: "string option \<Rightarrow> string option" where
  "none_to_none input_data = (if input_data = Some ''None'' then None else input_data)"

datatype time_obj = DateObj nat nat nat | TimeStr string | OtherObj

definition pad2 :: "nat \<Rightarrow> string" where
  "pad2 n = (if n < 10 then ''0'' @ str_nat n else str_nat n)"

definition convert_time_to_str :: "time_obj \<Rightarrow> string" where
  "convert_time_to_str t = (case t of
      DateObj y m d \<Rightarrow> str_nat y @ ''-'' @ pad2 m @ ''-'' @ pad2 d
    | TimeStr s \<Rightarrow> s
    | OtherObj \<Rightarrow> ''1970-01-01'')"

definition convert_str_to_bool :: "pyval \<Rightarrow> bool result" where
  "convert_str_to_bool v = (case v of
      PStr string \<Rightarrow>
        (let l = lower string in
         if l \<in> set [''1'', ''true'', ''t'', ''yes'', ''y''] then Inr True
         else if l \<in> set [''0'', ''false'', ''f'', ''no'', ''n''] then Inr False
         else Inl ValueError)
    | _ \<Rightarrow> Inl ValueError)"

section \<open>Sets and sequences\<close>

fun remove_duplicates_unhashable :: "'a list \<Rightarrow> 'a list \<Rightarrow> 'a list" where
  "remove_duplicates_unhashable result [] = result"
| "remove_duplicates_unhashable result (x # xs) =
     remove_duplicates_unhashable (if x \<in> set result then result else result @ [x]) xs"

fun hashable :: "pyval \<Rightarrow> bool" where
  "hashable (PList _) = False"
| "hashable (PSet _) = False"
| "hashable (PDict _) = False"
| "hashable _ = True"

definition remove_duplicates_from_list :: "pyval list \<Rightarrow> pyval list" where
  "remove_duplicates_from_list xs =
     (if list_all hashable xs then py_set xs else remove_duplicates_unhashable [] xs)"

definition substring_is_in_list :: "string \<Rightarrow> string list \<Rightarrow> bool" where
  "substring_is_in_list string substring_list = list_ex (\<lambda>sub. substr_in sub string) substring_list"

definition iter_element_and_rest :: "'a list \<Rightarrow> ('a \<times> 'a list) list" where
  "iter_element_and_rest xs = map (\<lambda>x. (x, filter (\<lambda>e. e \<noteq> x) xs)) xs"

lemma remove_duplicates_unhashable_spec:
  "distinct r \<Longrightarrow> distinct (remove_duplicates_unhashable r xs) \<and>
   set (remove_duplicates_unhashable r xs) = set r \<union> set xs"
  by (induction r xs rule: remove_duplicates_unhashable.induct) auto

lemma remove_duplicates_from_list_spec:
  "distinct (remove_duplicates_from_list xs) \<and> set (remove_duplicates_from_list xs) = set xs"
  using remove_duplicates_unhashable_spec[of "[]" xs]
  by (simp add: remove_duplicates_from_list_def)

definition avg :: "real list \<Rightarrow> real" where
  "avg seq = (if length seq = 0 then 0 else sum_list seq / real (length seq))"

text \<open>
  \<open>random.sample(xs, len(xs))\<close>: CPython draws \<open>j\<close> below the size of the remaining pool
  and moves the pool's last element into the hole. The draws are the parameter \<open>rnd\<close>.
\<close>

function sample_pool :: "(nat \<Rightarrow> nat) \<Rightarrow> nat \<Rightarrow> 'a list \<Rightarrow> 'a list" where
  "sample_pool rnd i pool =
     (if pool = [] then []
      else let j = rnd i mod length pool
           in pool ! j # sample_pool rnd (Suc i) (butlast (pool[j := last pool])))"
  by pat_completeness auto
termination
  by (relation "measure (\<lambda>(rnd, i, pool). length pool)") auto

declare sample_pool.simps [simp del]

definition shuffled :: "(nat \<Rightarrow> nat) \<Rightarrow> 'a list \<Rightarrow> 'a list" where
  "shuffled rnd sequence = sample_pool rnd 0 sequence"

lemma mset_pool_step:
  assumes "j < length pool"
  shows "add_mset (pool ! j) (mset (butlast (pool[j := last pool]))) = mset pool"
proof (cases "j = length pool - 1")
  case True
  with assms have ne: "pool \<noteq> []" by auto
  then have "pool[j := last pool] = pool" "pool ! j = last pool"
    using True by (auto simp: last_conv_nth)
  then show ?thesis
    using ne by (metis append_butlast_last_id mset.simps(2) mset_append union_mset_add_mset_right
        add.right_neutral mset.simps(1))
next
  case False
  with assms have j: "j < length (butlast pool)" and ne: "pool \<noteq> []" by auto
  have b: "butlast (pool[j := last pool]) = (butlast pool)[j := last pool]"
    using False assms by (simp add: butlast_list_update)
  have "mset ((butlast pool)[j := last pool]) =
      add_mset (last pool) (mset (butlast pool) - {#butlast pool ! j#})"
    using j by (rule mset_update)
  moreover have "butlast pool ! j = pool ! j" using j by (simp add: nth_butlast)
  moreover have "pool ! j \<in># mset (butlast pool)"
    using j by (metis nth_butlast nth_mem set_mset_mset)
  moreover have "mset pool = add_mset (last pool) (mset (butlast pool))"
    using ne by (metis append_butlast_last_id mset.simps mset_append union_mset_add_mset_right
        add.right_neutral)
  ultimately show ?thesis using b by simp
qed

lemma mset_sample_pool: "mset (sample_pool rnd i pool) = mset pool"
proof (induction rnd i pool rule: sample_pool.induct)
  case (1 rnd i pool)
  show ?case
  proof (cases "pool = []")
    case True
    then show ?thesis by (simp add: sample_pool.simps)
  next
    case False
    let ?j = "rnd i mod length pool"
    have "?j < length pool" using False by simp
    with "1.IH"[OF False refl] False show ?thesis
      by (subst sample_pool.simps) (simp add: Let_def mset_pool_step)
  qed
qed

lemma mset_shuffled [simp]: "mset (shuffled rnd xs) = mset xs"
  by (simp add: shuffled_def mset_sample_pool)

lemma set_shuffled [simp]: "set (shuffled rnd xs) = set xs"
  by (metis mset_shuffled set_mset_mset)

lemma distinct_shuffled [simp]: "distinct (shuffled rnd xs) = distinct xs"
  by (rule mset_eq_imp_distinct_iff) simp

section \<open>Tag colours\<close>

datatype tag_color = GRAY | BLUE | GREEN | LIGHT_BLUE | ORANGE | RED | LIGHT | DARK

fun tag_value :: "tag_color \<Rightarrow> string" where
  "tag_value GRAY = ''secondary''"
| "tag_value BLUE = ''primary''"
| "tag_value GREEN = ''success''"
| "tag_value LIGHT_BLUE = ''info''"
| "tag_value ORANGE = ''warning''"
| "tag_value RED = ''danger''"
| "tag_value LIGHT = ''light''"
| "tag_value DARK = ''dark''"

text \<open>The colours in the order of \<open>TagColor.ALL\<close>.\<close>

instantiation tag_color :: enum
begin

definition enum_tag_color :: "tag_color list" where
  "enum_tag_color = [GRAY, BLUE, GREEN, LIGHT_BLUE, ORANGE, RED, LIGHT, DARK]"

definition enum_all_tag_color :: "(tag_color \<Rightarrow> bool) \<Rightarrow> bool" where
  "enum_all_tag_color P = list_all P [GRAY, BLUE, GREEN, LIGHT_BLUE, ORANGE, RED, LIGHT, DARK]"

definition enum_ex_tag_color :: "(tag_color \<Rightarrow> bool) \<Rightarrow> bool" where
  "enum_ex_tag_color P = list_ex P [GRAY, BLUE, GREEN, LIGHT_BLUE, ORANGE, RED, LIGHT, DARK]"

instance
proof
  have cases: "c \<in> {GRAY, BLUE, GREEN, LIGHT_BLUE, ORANGE, RED, LIGHT, DARK}" for c :: tag_color by (cases c) auto
  show "(UNIV :: tag_color set) = set enum_class.enum" using cases by (auto simp: enum_tag_color_def)
  show "distinct (enum_class.enum :: tag_color list)" by (simp add: enum_tag_color_def)
  show "enum_class.enum_all P = Ball (UNIV :: tag_color set) P" for P by (simp add: enum_all_tag_color_def) (metis tag_color.exhaust)
  show "enum_class.enum_ex P = Bex (UNIV :: tag_color set) P" for P by (simp add: enum_ex_tag_color_def) (metis tag_color.exhaust)
qed

end

definition all_tag_colors :: "string list" where
  "all_tag_colors = map tag_value enum_class.enum"

lemma set_all_tag_colors: "set all_tag_colors = range tag_value"
  by (simp add: all_tag_colors_def enum_UNIV)

end
