(* ===== verification/VirtualPath.thy ===== *)
theory VirtualPath
  imports Conversion
begin

text \<open>
  Virtual file paths (\<open>helperFunctions/virtual_file_path.py\<close>): the path of a file inside
  a firmware, with \<open>|\<close> between extraction levels. The lemmas give the join/split round
  trip and what merging the path lists of an update keeps and replaces.
\<close>

type_synonym vfp_dict = "(uid, string list) dict"

definition split_virtual_path :: "string \<Rightarrow> string list" where
  "split_virtual_path virtual_path = filter (\<lambda>e. e \<noteq> []) (split_on (CHR ''|'') virtual_path)"

definition join_virtual_path :: "string list \<Rightarrow> string" where
  "join_virtual_path elements = join_with ''|'' elements"

definition get_base_of_virtual_path :: "string \<Rightarrow> string" where
  "get_base_of_virtual_path virtual_path = join_virtual_path (butlast (split_virtual_path virtual_path))"

definition get_top_of_virtual_path :: "string \<Rightarrow> string result" where
  "get_top_of_virtual_path virtual_path =
     (if virtual_path = [] then Inr []
      else let es = split_virtual_path virtual_path in
        if es = [] then Inl IndexError else Inr (last es))"

definition split_vfp_list_by_base :: "string list \<Rightarrow> (string, string list) dict" where
  "split_vfp_list_by_base vfp_list =
     fold (\<lambda>path d. dappend (get_base_of_virtual_path path) path d) vfp_list []"

definition merge_vfp_lists :: "string list \<Rightarrow> string list \<Rightarrow> string list" where
  "merge_vfp_lists old_vfp_list new_vfp_list =
     (let old_vfp_by_base = split_vfp_list_by_base old_vfp_list;
          new_vfp_by_base = split_vfp_list_by_base new_vfp_list
      in concat (dvalues (fold (\<lambda>(base, vfps) d. dput base vfps d) new_vfp_by_base old_vfp_by_base)))"

text \<open>The second last element of each path; an \<open>IndexError\<close> is suppressed.\<close>

definition get_parent_uids_from_virtual_path :: "vfp_dict \<Rightarrow> string list" where
  "get_parent_uids_from_virtual_path vfp =
     py_set (concat (map (\<lambda>path_list. concat (map (\<lambda>virtual_path.
        let es = split_virtual_path virtual_path in
        if length es < 2 then [] else [es ! (length es - 2)]) path_list)) (dvalues vfp)))"

definition get_uids_from_virtual_path :: "string \<Rightarrow> string list" where
  "get_uids_from_virtual_path virtual_path =
     (let parts = split_virtual_path virtual_path in
      if length parts = 1 then parts else butlast parts)"

definition update_virtual_file_path :: "vfp_dict \<Rightarrow> vfp_dict \<Rightarrow> vfp_dict" where
  "update_virtual_file_path new_vfp old_vfp =
     fold (\<lambda>(key, vfps) old. case map_of old key of
         Some old_list \<Rightarrow> dput key (merge_vfp_lists old_list vfps) old
       | None \<Rightarrow> dput key vfps old) new_vfp old_vfp"

section \<open>Joining and splitting\<close>

definition vfp_element :: "string \<Rightarrow> bool" where
  "vfp_element e \<longleftrightarrow> e \<noteq> [] \<and> CHR ''|'' \<notin> set e"

lemma split_join_virtual_path:
  assumes "\<forall>e \<in> set es. vfp_element e"
  shows "split_virtual_path (join_virtual_path es) = es"
proof (cases "es = []")
  case True
  then show ?thesis by (simp add: split_virtual_path_def join_virtual_path_def)
next
  case False
  then show ?thesis using assms
    by (auto simp: split_virtual_path_def join_virtual_path_def vfp_element_def filter_id_conv)
qed

lemma split_virtual_path_elements: "\<forall>e \<in> set (split_virtual_path p). vfp_element e"
  by (auto simp: split_virtual_path_def vfp_element_def dest: split_on_elems)

lemma split_base [simp]: "split_virtual_path (get_base_of_virtual_path p) = butlast (split_virtual_path p)"
  unfolding get_base_of_virtual_path_def
  by (rule split_join_virtual_path)
     (use split_virtual_path_elements[of p] in \<open>auto dest: in_set_butlastD\<close>)

lemma split_virtual_path_sep:
  assumes "CHR ''|'' \<notin> set t"
  shows "split_virtual_path (s @ CHR ''|'' # t) = split_virtual_path s @ (if t = [] then [] else [t])"
proof -
  have "split_on (CHR ''|'') (s @ CHR ''|'' # t) = split_on (CHR ''|'') s @ [t]"
    using assms by (induction s) (auto simp: split_on_notin split: list.splits)
  then show ?thesis by (simp add: split_virtual_path_def)
qed

lemma base_nonempty_iff: "get_base_of_virtual_path p = [] \<longleftrightarrow> butlast (split_virtual_path p) = []"
proof
  assume "get_base_of_virtual_path p = []"
  then have "split_virtual_path (get_base_of_virtual_path p) = split_virtual_path []" by (rule arg_cong)
  also have "split_virtual_path [] = []" by (simp add: split_virtual_path_def)
  finally show "butlast (split_virtual_path p) = []" by (simp only: split_base)
qed (simp add: get_base_of_virtual_path_def join_virtual_path_def)

section \<open>Merging path lists\<close>

lemma split_by_base_fold:
  assumes "dict_ok d"
  shows "dict_ok (fold (\<lambda>p d. dappend (f p) p d) ps d) \<and>
    map_of (fold (\<lambda>p d. dappend (f p) p d) ps d) b =
      (if \<exists>p \<in> set ps. f p = b
       then Some ((case map_of d b of None \<Rightarrow> [] | Some vs \<Rightarrow> vs) @ filter (\<lambda>p. f p = b) ps)
       else map_of d b)"
  using assms
proof (induction ps arbitrary: d)
  case Nil
  then show ?case by simp
next
  case (Cons p ps)
  have "dict_ok (dappend (f p) p d)" using Cons.prems by simp
  from Cons.IH[OF this] show ?case
    by (auto simp: dget_dappend split: option.splits)
qed

lemma split_by_base:
  "dict_ok (split_vfp_list_by_base ps)"
  "map_of (split_vfp_list_by_base ps) b =
     (if \<exists>p \<in> set ps. get_base_of_virtual_path p = b
      then Some (filter (\<lambda>p. get_base_of_virtual_path p = b) ps) else None)"
  using split_by_base_fold[of "[]" get_base_of_virtual_path ps b]
  by (auto simp: split_vfp_list_by_base_def)

text \<open>Filtering the concatenated values of a dictionary keyed by \<open>f\<close>.\<close>

lemma filter_concat_dvalues:
  assumes "dict_ok d" and "\<And>k v x. map_of d k = Some v \<Longrightarrow> x \<in> set v \<Longrightarrow> f x = k"
  shows "filter (\<lambda>x. f x = b) (concat (dvalues d)) = (case map_of d b of None \<Rightarrow> [] | Some v \<Rightarrow> v)"
  using assms
proof (induction d)
  case Nil
  then show ?case by (simp add: dvalues_def)
next
  case (Cons kv d)
  obtain k v where kv: "kv = (k, v)" by force
  have d: "dict_ok d" and k: "map_of d k = None"
    using Cons.prems(1) kv by (auto simp: dict_ok_def map_of_eq_None_iff)
  have "\<And>k' v' x. map_of d k' = Some v' \<Longrightarrow> x \<in> set v' \<Longrightarrow> f x = k'"
    using Cons.prems(2) kv k by (metis map_of_Cons_code(2) option.distinct(1))
  from Cons.IH[OF d this]
  have IH: "filter (\<lambda>x. f x = b) (concat (dvalues d)) = (case map_of d b of None \<Rightarrow> [] | Some v \<Rightarrow> v)" .
  have "\<forall>x \<in> set v. f x = k" using Cons.prems(2)[of k v] kv by auto
  then have "filter (\<lambda>x. f x = b) v = (if b = k then v else [])"
    by (auto simp: filter_id_conv filter_empty_conv)
  with IH k show ?case by (simp add: kv dvalues_def)
qed

lemma merge_vfp_lists_by_base:
  "filter (\<lambda>p. get_base_of_virtual_path p = b) (merge_vfp_lists old new) =
     (if \<exists>p \<in> set new. get_base_of_virtual_path p = b
      then filter (\<lambda>p. get_base_of_virtual_path p = b) new
      else filter (\<lambda>p. get_base_of_virtual_path p = b) old)"
proof -
  let ?B = get_base_of_virtual_path
  let ?O = "split_vfp_list_by_base old" and ?N = "split_vfp_list_by_base new"
  let ?M = "fold (\<lambda>(base, vfps) d. dput base vfps d) ?N ?O"
  have M: "?M = dupdate ?O ?N" by (simp add: dupdate_def)
  have ok: "dict_ok ?M" by (simp add: M dict_ok_dupdate split_by_base)
  have get: "map_of ?M k = (case map_of ?N k of None \<Rightarrow> map_of ?O k | Some v \<Rightarrow> Some v)" for k
    by (simp add: M dget_dupdate split_by_base(1))
  have keyed: "?B x = k" if "map_of ?M k = Some v" "x \<in> set v" for k v x
    using that by (auto simp: get split_by_base(2) split: if_splits)
  have "filter (\<lambda>p. ?B p = b) (merge_vfp_lists old new) =
      (case map_of ?M b of None \<Rightarrow> [] | Some v \<Rightarrow> v)"
    unfolding merge_vfp_lists_def Let_def using ok keyed by (rule filter_concat_dvalues)
  also have "\<dots> = (if \<exists>p \<in> set new. ?B p = b then filter (\<lambda>p. ?B p = b) new
      else filter (\<lambda>p. ?B p = b) old)"
    by (auto simp: get split_by_base(2) filter_empty_conv split: option.splits)
  finally show ?thesis .
qed

lemma set_merge_vfp_lists:
  "set (merge_vfp_lists old new) =
     set new \<union> {p \<in> set old. \<forall>q \<in> set new. get_base_of_virtual_path q \<noteq> get_base_of_virtual_path p}"
proof (rule set_eqI)
  fix p
  have "p \<in> set (merge_vfp_lists old new) \<longleftrightarrow>
      p \<in> set (filter (\<lambda>q. get_base_of_virtual_path q = get_base_of_virtual_path p) (merge_vfp_lists old new))"
    by simp
  then show "p \<in> set (merge_vfp_lists old new) \<longleftrightarrow> p \<in> set new \<union>
      {p \<in> set old. \<forall>q \<in> set new. get_base_of_virtual_path q \<noteq> get_base_of_virtual_path p}"
    by (auto simp: merge_vfp_lists_by_base)
qed

lemma update_virtual_file_path_get:
  assumes "dict_ok new"
  shows "map_of (update_virtual_file_path new old) k =
    (case map_of new k of
       None \<Rightarrow> map_of old k
     | Some vfps \<Rightarrow> (case map_of old k of None \<Rightarrow> Some vfps | Some l \<Rightarrow> Some (merge_vfp_lists l vfps)))"
  using assms unfolding update_virtual_file_path_def
proof (induction new arbitrary: old)
  case Nil
  then show ?case by simp
next
  case (Cons kv new)
  obtain k' v where kv: "kv = (k', v)" by force
  have ok: "dict_ok new" and k': "map_of new k' = None"
    using Cons.prems kv by (auto simp: dict_ok_def map_of_eq_None_iff)
  show ?case using Cons.IH[OF ok] k' kv by (auto split: option.splits)
qed

lemma dict_ok_update_virtual_file_path:
  "dict_ok old \<Longrightarrow> dict_ok (update_virtual_file_path new old)"
  unfolding update_virtual_file_path_def
  by (induction new arbitrary: old) (auto split: option.splits)

end
