(* ===== verification/FileObj.thy ===== *)
theory FileObj
  imports VirtualPath
begin

text \<open>
  The primary data structure: \<open>objects/file.py\<close> (\<open>FileObject\<close>) and
  \<open>objects/firmware.py\<close> (\<open>Firmware\<close>). A firmware is a file object whose \<open>fw\<close> field holds
  the device data, so \<open>isinstance(x, Firmware)\<close> is \<open>is_firmware x\<close>. The hash functions and
  the file system (reading a path) are parameters.
\<close>

record firmware_data =
  device_name :: "string option"
  fw_version :: "string option"
  device_class :: "string option"
  vendor :: "string option"
  part :: string
  release_date :: "string option"
  fw_tags :: "(string, string) dict"
  md5 :: "string option"

record file_object =
  fo_uid :: uid
  files_included :: "uid list"
  list_of_all_included_files :: "uid list option"
  parents :: "uid list"
  root_uid :: uid
  depth :: int
  processed_analysis :: "(string, analysis_result) dict"
  scheduled_analysis :: "string list option"
  comments :: "pyval list"
  parent_firmware_uids :: "uid list"
  temporary_data :: "(string, pyval) dict"
  analysis_tags :: "(string, pyval) dict"
  analysis_exception :: "(string \<times> string) option"
  binary :: "bytes option"
  sha256 :: "string option"
  fsize :: "int option"
  file_name :: "string option"
  file_path :: "string option"
  virtual_file_path :: vfp_dict
  force_update :: bool
  fw :: "firmware_data option"

definition is_firmware :: "file_object \<Rightarrow> bool" where
  "is_firmware fo = (fw fo \<noteq> None)"

section \<open>Construction\<close>

definition bytes_uid :: "(bytes \<Rightarrow> string) \<Rightarrow> bytes \<Rightarrow> string" where
  "bytes_uid sha b = sha b @ ''_'' @ str_nat (length b)"

lemma create_uid_bytes: "create_uid sha (RBytes b) = Inr (bytes_uid sha b)"
  by (simp add: create_uid_def get_sha256_def make_bytes_def bytes_uid_def)

text \<open>The last component of a path (\<open>Path(p).name\<close>).\<close>

definition path_name :: "string \<Rightarrow> string" where
  "path_name p = (let es = filter (\<lambda>e. e \<noteq> [] \<and> e \<noteq> ''.'') (split_on (CHR ''/'') p)
                  in if es = [] then [] else last es)"

text \<open>The \<open>uid\<close> property: computed from the binary when it is not set.\<close>

definition get_uid :: "(bytes \<Rightarrow> string) \<Rightarrow> file_object \<Rightarrow> uid" where
  "get_uid sha fo = (case fo_uid fo of
      Some u \<Rightarrow> Some u
    | None \<Rightarrow> map_option (bytes_uid sha) (binary fo))"

definition set_uid :: "uid \<Rightarrow> file_object \<Rightarrow> file_object" where
  "set_uid new_uid fo = fo\<lparr>fo_uid := new_uid\<rparr>"

definition set_binary_fo :: "(bytes \<Rightarrow> string) \<Rightarrow> bytes \<Rightarrow> file_object \<Rightarrow> file_object" where
  "set_binary_fo sha b fo =
     fo\<lparr>binary := Some b, sha256 := Some (sha b), fsize := Some (int (length b)),
        fo_uid := Some (bytes_uid sha b)\<rparr>"

definition update_root_id_and_virtual_path :: "(bytes \<Rightarrow> string) \<Rightarrow> file_object \<Rightarrow> file_object" where
  "update_root_id_and_virtual_path sha fo =
     (let u = get_uid sha fo in fo\<lparr>root_uid := u, virtual_file_path := [(u, [fstr u])]\<rparr>)"

text \<open>\<open>set_binary\<close> as dispatched: \<open>Firmware\<close> overrides it.\<close>

definition set_binary :: "(bytes \<Rightarrow> string) \<Rightarrow> (bytes \<Rightarrow> string) \<Rightarrow> bytes \<Rightarrow> file_object \<Rightarrow> file_object" where
  "set_binary sha md b fo =
     (let fo1 = set_binary_fo sha b fo in
      case fw fo of
        None \<Rightarrow> fo1
      | Some d \<Rightarrow> (update_root_id_and_virtual_path sha fo1)\<lparr>fw := Some (d\<lparr>md5 := Some (md b)\<rparr>)\<rparr>)"

text \<open>
  \<open>create_binary_from_path\<close>: reading the file sets the binary and calls it again, which
  then only fills in the file name.
\<close>

definition create_binary_from_path ::
  "(bytes \<Rightarrow> string) \<Rightarrow> (bytes \<Rightarrow> string) \<Rightarrow> (string \<Rightarrow> bytes) \<Rightarrow> file_object \<Rightarrow> file_object" where
  "create_binary_from_path sha md read fo = (case file_path fo of
      None \<Rightarrow> fo
    | Some p \<Rightarrow>
        (let fo1 = (if binary fo = None then set_binary sha md (read p) fo else fo)
         in if file_name fo1 = None then fo1\<lparr>file_name := Some (path_name p)\<rparr> else fo1))"

definition blank_fo :: "firmware_data option \<Rightarrow> file_object" where
  "blank_fo d =
    \<lparr>fo_uid = None, files_included = [], list_of_all_included_files = None, parents = [],
     root_uid = None, depth = 0, processed_analysis = [], scheduled_analysis = None,
     comments = [], parent_firmware_uids = [], temporary_data = [], analysis_tags = [],
     analysis_exception = None, binary = None, sha256 = None, fsize = None, file_name = None,
     file_path = None, virtual_file_path = [], force_update = False, fw = d\<rparr>"

definition file_object_init ::
  "(bytes \<Rightarrow> string) \<Rightarrow> (bytes \<Rightarrow> string) \<Rightarrow> (string \<Rightarrow> bytes) \<Rightarrow> firmware_data option \<Rightarrow>
   bytes option \<Rightarrow> string option \<Rightarrow> string option \<Rightarrow> string list option \<Rightarrow> file_object" where
  "file_object_init sha md read d bin name path sched =
     (let fo0 = (blank_fo d)\<lparr>scheduled_analysis := sched\<rparr>;
          fo1 = (case bin of None \<Rightarrow> fo0 | Some b \<Rightarrow> set_binary sha md b fo0);
          fo2 = create_binary_from_path sha md read (fo1\<lparr>file_name := name, file_path := path\<rparr>)
      in fo2\<lparr>virtual_file_path := []\<rparr>)"

definition blank_firmware_data :: firmware_data where
  "blank_firmware_data =
    \<lparr>device_name = None, fw_version = None, device_class = None, vendor = None, part = [],
     release_date = None, fw_tags = [], md5 = None\<rparr>"

definition firmware_init ::
  "(bytes \<Rightarrow> string) \<Rightarrow> (bytes \<Rightarrow> string) \<Rightarrow> (string \<Rightarrow> bytes) \<Rightarrow>
   bytes option \<Rightarrow> string option \<Rightarrow> string option \<Rightarrow> string list option \<Rightarrow> file_object" where
  "firmware_init sha md read bin name path sched =
     update_root_id_and_virtual_path sha
       (file_object_init sha md read (Some blank_firmware_data) bin name path sched)"

definition set_part_name :: "string \<Rightarrow> firmware_data \<Rightarrow> firmware_data" where
  "set_part_name p d = (if p = ''complete'' then d\<lparr>part := []\<rparr> else d\<lparr>part := p\<rparr>)"

definition set_tag :: "string \<Rightarrow> firmware_data \<Rightarrow> firmware_data" where
  "set_tag tag d = d\<lparr>fw_tags := dput tag (tag_value GRAY) (fw_tags d)\<rparr>"

section \<open>Virtual paths and identifiers\<close>

definition get_virtual_file_paths :: "(bytes \<Rightarrow> string) \<Rightarrow> file_object \<Rightarrow> vfp_dict" where
  "get_virtual_file_paths sha fo =
     (if virtual_file_path fo \<noteq> [] then virtual_file_path fo
      else [(get_uid sha fo, [fstr (get_uid sha fo)])])"

definition get_root_uid :: "(bytes \<Rightarrow> string) \<Rightarrow> file_object \<Rightarrow> uid" where
  "get_root_uid sha fo =
     (if root_uid fo \<noteq> None then root_uid fo else hd (dkeys (get_virtual_file_paths sha fo)))"

definition get_virtual_paths_for_one_uid ::
  "(bytes \<Rightarrow> string) \<Rightarrow> uid \<Rightarrow> file_object \<Rightarrow> string list result" where
  "get_virtual_paths_for_one_uid sha rt fo =
     (let file_paths = get_virtual_file_paths sha fo;
          req_root_uid = (if truthy_str rt then rt else root_uid fo)
      in case map_of file_paths req_root_uid of
           Some ps \<Rightarrow> Inr ps
         | None \<Rightarrow> bind_r (get_value_of_first_key file_paths)
             (\<lambda>v. case v of Some ps \<Rightarrow> Inr ps | None \<Rightarrow> Inl TypeError))"

definition get_virtual_paths_for_all_uids :: "(bytes \<Rightarrow> string) \<Rightarrow> file_object \<Rightarrow> string list" where
  "get_virtual_paths_for_all_uids sha fo = concat (dvalues (get_virtual_file_paths sha fo))"

definition fo_get_hid :: "(bytes \<Rightarrow> string) \<Rightarrow> uid \<Rightarrow> file_object \<Rightarrow> string result" where
  "fo_get_hid sha rt fo =
     (let r = (if rt = None then get_root_uid sha fo else rt) in
      bind_r (get_virtual_paths_for_one_uid sha r fo) (\<lambda>ps.
        case ps of [] \<Rightarrow> Inl IndexError | p # _ \<Rightarrow> get_top_of_virtual_path p))"

definition firmware_get_hid :: "firmware_data \<Rightarrow> string" where
  "firmware_get_hid d =
     (let p = (if part d \<noteq> [] then '' - '' @ part d else [])
      in fstr (vendor d) @ '' '' @ fstr (device_name d) @ p @ '' v. '' @ fstr (fw_version d))"

definition get_hid :: "(bytes \<Rightarrow> string) \<Rightarrow> uid \<Rightarrow> file_object \<Rightarrow> string result" where
  "get_hid sha rt fo = (case fw fo of
      Some d \<Rightarrow> Inr (firmware_get_hid d)
    | None \<Rightarrow> fo_get_hid sha rt fo)"

section \<open>Included files\<close>

definition add_virtual_file_path_if_none_exists :: "string list \<Rightarrow> uid \<Rightarrow> file_object \<Rightarrow> file_object" where
  "add_virtual_file_path_if_none_exists parent_paths parent_uid fo =
     (if dmem (root_uid fo) (virtual_file_path fo) then fo
      else fo\<lparr>virtual_file_path := dput (root_uid fo)
        (map (\<lambda>item.
           let base = get_base_of_virtual_path item;
               base_path = (if base \<noteq> [] then base @ ''|'' else base)
           in base_path @ fstr parent_uid @ ''|'' @ fstr (file_path fo)) parent_paths)
        (virtual_file_path fo)\<rparr>)"

definition add_included_file ::
  "(bytes \<Rightarrow> string) \<Rightarrow> file_object \<Rightarrow> file_object \<Rightarrow> (file_object \<times> file_object) result" where
  "add_included_file sha self child =
     (let self_uid = get_uid sha self;
          c1 = child\<lparr>parents := parents child @ [self_uid], root_uid := root_uid self\<rparr>
      in bind_r (get_virtual_paths_for_one_uid sha (root_uid self) self) (\<lambda>ps.
           let c2 = add_virtual_file_path_if_none_exists ps self_uid c1;
               c3 = c2\<lparr>depth := depth self + 1, scheduled_analysis := scheduled_analysis self\<rparr>
           in Inr (self\<lparr>files_included := set_add (get_uid sha c3) (files_included self)\<rparr>, c3)))"

section \<open>Lemmas\<close>

lemma get_uid_simps [simp]:
  "fo_uid fo = Some u \<Longrightarrow> get_uid sha fo = Some u"
  by (simp add: get_uid_def)

lemma get_uid_cong: "fo_uid fo = fo_uid fo' \<Longrightarrow> binary fo = binary fo' \<Longrightarrow> get_uid sha fo = get_uid sha fo'"
  by (simp add: get_uid_def split: option.split)

lemma get_virtual_file_paths_nonempty [simp]: "get_virtual_file_paths sha fo \<noteq> []"
  by (simp add: get_virtual_file_paths_def)

text \<open>Setting the binary keeps hash, size and UID consistent.\<close>

definition binary_consistent :: "(bytes \<Rightarrow> string) \<Rightarrow> file_object \<Rightarrow> bool" where
  "binary_consistent sha fo \<longleftrightarrow> (\<forall>b. binary fo = Some b \<longrightarrow>
     sha256 fo = Some (sha b) \<and> fsize fo = Some (int (length b)) \<and> fo_uid fo = Some (bytes_uid sha b))"

lemma set_binary_consistent: "binary_consistent sha (set_binary sha md b fo)"
  by (auto simp: binary_consistent_def set_binary_def set_binary_fo_def
      update_root_id_and_virtual_path_def Let_def split: option.splits)

lemma create_binary_from_path_consistent:
  "binary_consistent sha fo \<Longrightarrow> binary_consistent sha (create_binary_from_path sha md read fo)"
  using set_binary_consistent[of sha md]
  by (auto simp: create_binary_from_path_def binary_consistent_def Let_def split: option.splits)

lemma file_object_init_consistent: "binary_consistent sha (file_object_init sha md read d bin name path sched)"
proof -
  let ?fo1 = "case bin of None \<Rightarrow> (blank_fo d)\<lparr>scheduled_analysis := sched\<rparr>
    | Some b \<Rightarrow> set_binary sha md b ((blank_fo d)\<lparr>scheduled_analysis := sched\<rparr>)"
  have "binary_consistent sha (?fo1\<lparr>file_name := name, file_path := path\<rparr>)"
    using set_binary_consistent[of sha md]
    by (auto simp: binary_consistent_def blank_fo_def split: option.splits)
  from create_binary_from_path_consistent[OF this, of md read]
  show ?thesis by (simp add: file_object_init_def Let_def binary_consistent_def)
qed

lemma firmware_init_binary:
  "binary_consistent sha (firmware_init sha md read (Some b) name path sched) \<and>
   root_uid (firmware_init sha md read (Some b) name path sched) = Some (bytes_uid sha b) \<and>
   virtual_file_path (firmware_init sha md read (Some b) name path sched) =
     [(Some (bytes_uid sha b), [bytes_uid sha b])]"
proof -
  let ?f = "file_object_init sha md read (Some blank_firmware_data) (Some b) name path sched"
  have "fo_uid ?f = Some (bytes_uid sha b)"
    by (auto simp: file_object_init_def create_binary_from_path_def set_binary_def set_binary_fo_def
        update_root_id_and_virtual_path_def blank_fo_def Let_def split: option.splits)
  with file_object_init_consistent[of sha md read "Some blank_firmware_data" "Some b" name path sched]
  show ?thesis
    by (simp add: firmware_init_def update_root_id_and_virtual_path_def Let_def binary_consistent_def)
qed

text \<open>The path a child gets below a parent path: the parent's containers, the parent, the file.\<close>

definition child_path :: "string \<Rightarrow> uid \<Rightarrow> string option \<Rightarrow> string" where
  "child_path item parent_uid path =
     (let base = get_base_of_virtual_path item;
          base_path = (if base \<noteq> [] then base @ ''|'' else base)
      in base_path @ fstr parent_uid @ ''|'' @ fstr path)"

lemma split_child_path:
  assumes "vfp_element (fstr u)" and "vfp_element (fstr path)"
  shows "split_virtual_path (child_path item u path) = butlast (split_virtual_path item) @ [fstr u, fstr path]"
proof -
  let ?b = "get_base_of_virtual_path item"
  have u: "fstr u \<noteq> []" "CHR ''|'' \<notin> set (fstr u)" and p: "fstr path \<noteq> []" "CHR ''|'' \<notin> set (fstr path)"
    using assms by (auto simp: vfp_element_def)
  have one: "split_virtual_path (fstr u) = [fstr u]"
    using u by (simp add: split_virtual_path_def split_on_notin)
  show ?thesis
  proof (cases "?b = []")
    case True
    then have "butlast (split_virtual_path item) = []" by (simp add: base_nonempty_iff)
    with True show ?thesis
      using split_virtual_path_sep[OF p(2), of "fstr u"] one p
      by (simp add: child_path_def)
  next
    case False
    have "split_virtual_path (?b @ CHR ''|'' # fstr u) = butlast (split_virtual_path item) @ [fstr u]"
      using split_virtual_path_sep[OF u(2), of ?b] u by simp
    with False show ?thesis
      using split_virtual_path_sep[OF p(2), of "?b @ CHR ''|'' # fstr u"] p
      by (simp add: child_path_def)
  qed
qed

lemma add_included_file_result:
  assumes "add_included_file sha self child = Inr (self', c)"
  shows "depth c = depth self + 1" "scheduled_analysis c = scheduled_analysis self"
    "root_uid c = root_uid self" "parents c = parents child @ [get_uid sha self]"
    "get_uid sha c = get_uid sha child" "set (files_included self') = insert (get_uid sha child) (set (files_included self))"
    "\<not> dmem (root_uid self) (virtual_file_path child) \<Longrightarrow>
      (\<exists>ps. get_virtual_paths_for_one_uid sha (root_uid self) self = Inr ps \<and>
        map_of (virtual_file_path c) (root_uid self) =
          Some (map (\<lambda>item. child_path item (get_uid sha self) (file_path child)) ps))"
    "dmem (root_uid self) (virtual_file_path child) \<Longrightarrow> virtual_file_path c = virtual_file_path child"
  using assms
  by (auto simp: add_included_file_def add_virtual_file_path_if_none_exists_def result_simps Let_def
      child_path_def get_uid_def cong: option.case_cong)

end
