(* ===== verification/AnalysisPlugin.thy ===== *)
theory AnalysisPlugin
  imports FileObj
begin

text \<open>
  The analysis plugin base class (\<open>analysis/PluginBase.py\<close>): the attribute checks of the
  constructor, the admission of a job, the result bookkeeping of a worker and the ring
  buffer of run times. The analysis itself, the version parser and the clock are
  parameters; a worker's run ends in one of the three ways of \<open>run_outcome\<close>.
\<close>

record plugin =
  p_file :: "string option"
  p_name :: "string option"
  p_description :: "string option"
  p_version :: "string option"
  p_dependencies :: "string list"
  p_recursive :: bool
  p_system_version :: "string option"
  p_mime_blacklist :: "string list"
  p_mime_whitelist :: "string list"
  in_queue :: "file_object list"
  out_queue :: "file_object list"
  thread_count :: nat
  active :: "nat list"
  stats :: "real list"
  stats_count :: nat
  stats_index :: nat

type_synonym plugins = "(string, plugin) dict"

definition ANALYSIS_STATS_LIMIT :: nat where
  "ANALYSIS_STATS_LIMIT = 1000"

section \<open>Initialisation\<close>

definition check_version :: "(string \<Rightarrow> bool) \<Rightarrow> string \<Rightarrow> unit result" where
  "check_version valid_version v = (if valid_version v then Inr () else Inl PluginInitException)"

definition check_plugin_attributes :: "(string \<Rightarrow> bool) \<Rightarrow> plugin \<Rightarrow> unit result" where
  "check_plugin_attributes valid_version p =
     (case (p_file p, p_name p, p_version p) of
        (Some _, Some _, Some v) \<Rightarrow>
          bind_r (check_version valid_version v) (\<lambda>_.
            if truthy_str (p_system_version p)
            then check_version valid_version (fstr (p_system_version p)) else Inr ())
      | _ \<Rightarrow> Inl PluginInitException)"

text \<open>The thread count of the plugin's config section, else the default.\<close>

definition get_thread_count :: "(string, nat) dict \<Rightarrow> nat \<Rightarrow> string \<Rightarrow> nat" where
  "get_thread_count cfg_threads default_threads name =
     (case map_of cfg_threads name of Some n \<Rightarrow> n | None \<Rightarrow> default_threads)"

definition init_plugin ::
  "(string \<Rightarrow> bool) \<Rightarrow> (string, nat) dict \<Rightarrow> nat \<Rightarrow> bool \<Rightarrow> plugin \<Rightarrow> plugin result" where
  "init_plugin valid_version cfg_threads default_threads no_multithread p =
     bind_r (check_plugin_attributes valid_version p) (\<lambda>_.
       let n = (if no_multithread then 1
                else get_thread_count cfg_threads default_threads (fstr (p_name p)))
       in Inr (p\<lparr>in_queue := [], out_queue := [], thread_count := n, active := replicate n 0,
                 stats := replicate ANALYSIS_STATS_LIMIT 0, stats_count := 0, stats_index := 0\<rparr>))"

section \<open>Admission of a job\<close>

definition dependencies_are_unfulfilled :: "plugin \<Rightarrow> file_object \<Rightarrow> bool" where
  "dependencies_are_unfulfilled p fo = list_ex (\<lambda>dep. \<not> dmem dep (processed_analysis fo)) (p_dependencies p)"

definition analysis_depth_not_reached_yet :: "plugin \<Rightarrow> file_object \<Rightarrow> bool" where
  "analysis_depth_not_reached_yet p fo = (p_recursive p \<or> depth fo = 0)"

definition add_job :: "file_object \<Rightarrow> plugin \<Rightarrow> plugin" where
  "add_job fo p =
     (if dependencies_are_unfulfilled p fo then p\<lparr>out_queue := out_queue p @ [fo]\<rparr>
      else if analysis_depth_not_reached_yet p fo then p\<lparr>in_queue := in_queue p @ [fo]\<rparr>
      else p\<lparr>out_queue := out_queue p @ [fo]\<rparr>)"

section \<open>Results\<close>

definition init_dict :: "real \<Rightarrow> plugin \<Rightarrow> analysis_result" where
  "init_dict now p =
     dupdate [(''analysis_date'', PFloat now), (''plugin_version'', PStr (fstr (p_version p)))]
       (if truthy_str (p_system_version p)
        then [(''system_version'', PStr (fstr (p_system_version p)))] else [])"

definition add_plugin_version_and_timestamp :: "real \<Rightarrow> plugin \<Rightarrow> file_object \<Rightarrow> file_object result" where
  "add_plugin_version_and_timestamp now p fo =
     (let name = fstr (p_name p) in
      map_r (\<lambda>res. fo\<lparr>processed_analysis := dput name (dupdate res (init_dict now p)) (processed_analysis fo)\<rparr>)
        (dlookup (processed_analysis fo) name))"

definition analyze_file ::
  "(file_object \<Rightarrow> file_object result) \<Rightarrow> real \<Rightarrow> plugin \<Rightarrow> file_object \<Rightarrow> file_object result" where
  "analyze_file process_object now p fo =
     bind_r (process_object fo) (add_plugin_version_and_timestamp now p)"

definition process_next_object ::
  "(file_object \<Rightarrow> file_object result) \<Rightarrow> real \<Rightarrow> plugin \<Rightarrow> file_object \<Rightarrow> file_object result" where
  "process_next_object process_object now p task =
     analyze_file process_object now p
       (task\<lparr>processed_analysis := dput (fstr (p_name p)) [] (processed_analysis task)\<rparr>)"

definition pstr_opt :: "string option \<Rightarrow> pyval" where
  "pstr_opt x = (case x of None \<Rightarrow> PNone | Some s \<Rightarrow> PStr s)"

text \<open>The tag dict of the plugin's result gets the tag and the root UID; \<open>tags\<close> must be a dict.\<close>

definition add_analysis_tag ::
  "(bytes \<Rightarrow> string) \<Rightarrow> plugin \<Rightarrow> string \<Rightarrow> pyval \<Rightarrow> string \<Rightarrow> bool \<Rightarrow> file_object \<Rightarrow> file_object result" where
  "add_analysis_tag sha p tag_name value color propagate fo =
     (let name = fstr (p_name p);
          new_tag = dput ''root_uid'' (pstr_opt (get_root_uid sha fo))
            [(tag_name, PDict [(''value'', value), (''color'', PStr color), (''propagate'', PBool propagate)])]
      in bind_r (dlookup (processed_analysis fo) name) (\<lambda>res.
        case map_of res ''tags'' of
          None \<Rightarrow> Inr (fo\<lparr>processed_analysis :=
                     dput name (dput ''tags'' (PDict new_tag) res) (processed_analysis fo)\<rparr>)
        | Some (PDict old) \<Rightarrow> Inr (fo\<lparr>processed_analysis :=
                     dput name (dput ''tags'' (PDict (dupdate old new_tag)) res) (processed_analysis fo)\<rparr>)
        | Some _ \<Rightarrow> Inl AttributeError))"

section \<open>The ring buffer of run times\<close>

definition update_duration_stats :: "real \<Rightarrow> plugin \<Rightarrow> plugin" where
  "update_duration_stats duration p =
     (let p1 = p\<lparr>stats := (stats p)[stats_index p := duration]\<rparr>;
          p2 = p1\<lparr>stats_index := stats_index p1 + 1\<rparr>;
          p3 = (if ANALYSIS_STATS_LIMIT \<le> stats_index p2 then p2\<lparr>stats_index := 0\<rparr> else p2)
      in if stats_count p3 < ANALYSIS_STATS_LIMIT then p3\<lparr>stats_count := stats_count p3 + 1\<rparr> else p3)"

text \<open>The values \<open>get_plugin_stats\<close> aggregates: the used part of the array.\<close>

definition plugin_stats_values :: "plugin \<Rightarrow> real list" where
  "plugin_stats_values p =
     (if stats_count p < ANALYSIS_STATS_LIMIT then take (stats_count p) (stats p) else stats p)"

text \<open>Minimum, maximum, mean and count; an empty array raises in NumPy and yields \<open>None\<close>.\<close>

definition get_plugin_stats :: "plugin \<Rightarrow> (real \<times> real \<times> real \<times> nat) option" where
  "get_plugin_stats p =
     (let xs = plugin_stats_values p in
      if xs = [] then None else Some (Min (set xs), Max (set xs), avg xs, stats_count p))"

section \<open>The worker\<close>

datatype run_outcome = RunTimeout | RunException | RunFinished file_object

definition handle_failed_analysis :: "string \<Rightarrow> file_object \<Rightarrow> plugin \<Rightarrow> plugin" where
  "handle_failed_analysis cause fo p =
     p\<lparr>out_queue := out_queue p @
        [fo\<lparr>analysis_exception := Some (fstr (p_name p), cause @ '' occurred during analysis'')\<rparr>]\<rparr>"

definition worker_processing_with_timeout :: "real \<Rightarrow> run_outcome \<Rightarrow> file_object \<Rightarrow> plugin \<Rightarrow> plugin" where
  "worker_processing_with_timeout duration outcome next_task p =
     (let p1 = update_duration_stats duration p in
      case outcome of
        RunTimeout \<Rightarrow> handle_failed_analysis ''Timeout'' next_task p1
      | RunException \<Rightarrow> handle_failed_analysis ''Exception'' next_task p1
      | RunFinished fo \<Rightarrow> p1\<lparr>out_queue := out_queue p1 @ [fo]\<rparr>)"

text \<open>One iteration of the worker loop; an empty queue marks the worker as idle.\<close>

definition worker :: "nat \<Rightarrow> real \<Rightarrow> (file_object \<Rightarrow> run_outcome) \<Rightarrow> plugin \<Rightarrow> plugin" where
  "worker worker_id duration run p =
     (case in_queue p of
        [] \<Rightarrow> p\<lparr>active := (active p)[worker_id := 0]\<rparr>
      | next_task # rest \<Rightarrow>
          (let task = next_task\<lparr>processed_analysis :=
                 dput (fstr (p_name p)) [] (processed_analysis next_task)\<rparr>
           in worker_processing_with_timeout duration (run task) task
                (p\<lparr>in_queue := rest, active := (active p)[worker_id := 1]\<rparr>)))"

section \<open>Lemmas\<close>

lemma init_dict_get:
  "map_of (init_dict now p) k =
    (if k = ''system_version'' \<and> truthy_str (p_system_version p) then Some (PStr (fstr (p_system_version p)))
     else if k = ''plugin_version'' then Some (PStr (fstr (p_version p)))
     else if k = ''analysis_date'' then Some (PFloat now) else None)"
  by (auto simp: init_dict_def dupdate_def)

lemma add_job_queues:
  "length (in_queue (add_job fo p)) + length (out_queue (add_job fo p)) =
   Suc (length (in_queue p) + length (out_queue p))"
  by (simp add: add_job_def)

lemma add_job_in_iff:
  "in_queue (add_job fo p) = in_queue p @ [fo] \<longleftrightarrow>
   (\<forall>dep \<in> set (p_dependencies p). dmem dep (processed_analysis fo)) \<and> (p_recursive p \<or> depth fo = 0)"
  by (auto simp: add_job_def dependencies_are_unfulfilled_def analysis_depth_not_reached_yet_def list_ex_iff)

lemma add_job_cases:
  "add_job fo p = p\<lparr>in_queue := in_queue p @ [fo]\<rparr> \<or> add_job fo p = p\<lparr>out_queue := out_queue p @ [fo]\<rparr>"
  by (simp add: add_job_def)

text \<open>
  The ring buffer after the run times \<open>ds\<close>: the slot \<open>j mod limit\<close> holds the \<open>j\<close>-th run
  time, for the last \<open>limit\<close> of them.
\<close>

definition stats_inv :: "real list \<Rightarrow> plugin \<Rightarrow> bool" where
  "stats_inv ds p \<longleftrightarrow>
     length (stats p) = ANALYSIS_STATS_LIMIT \<and>
     stats_index p = length ds mod ANALYSIS_STATS_LIMIT \<and>
     stats_count p = min (length ds) ANALYSIS_STATS_LIMIT \<and>
     (\<forall>j < length ds. length ds \<le> j + ANALYSIS_STATS_LIMIT \<longrightarrow>
        stats p ! (j mod ANALYSIS_STATS_LIMIT) = ds ! j)"

lemma mod_Suc_limit:
  "0 < (L::nat) \<Longrightarrow> Suc n mod L = (if L \<le> n mod L + 1 then 0 else n mod L + 1)"
  using mod_less_divisor[of L n] by (simp add: mod_Suc, linarith)

lemma window_mod_neq:
  assumes "(j::nat) < n" "n < j + L"
  shows "j mod L \<noteq> n mod L"
proof
  assume "j mod L = n mod L"
  then obtain q where "n = j + L * q"
    using assms(1) by (metis mod_eq_nat1E nat_less_le)
  with assms show False by (cases q) auto
qed

lemma stats_inv_step:
  assumes "stats_inv ds p"
  shows "stats_inv (ds @ [d]) (update_duration_stats d p)"
proof -
  let ?L = ANALYSIS_STATS_LIMIT and ?n = "length ds" and ?q = "update_duration_stats d p"
  have L: "0 < ?L" by (simp add: ANALYSIS_STATS_LIMIT_def)
  have i: "stats_index p = ?n mod ?L" and len: "length (stats p) = ?L"
    and c: "stats_count p = min ?n ?L"
    and w: "\<And>j. j < ?n \<Longrightarrow> ?n \<le> j + ?L \<Longrightarrow> stats p ! (j mod ?L) = ds ! j"
    using assms by (auto simp: stats_inv_def)
  have s: "stats ?q = (stats p)[?n mod ?L := d]"
    and idx: "stats_index ?q = Suc ?n mod ?L"
    and cnt: "stats_count ?q = min (Suc ?n) ?L"
    using i c mod_Suc_limit[OF L, of ?n] by (auto simp: update_duration_stats_def Let_def)
  have "stats ?q ! (j mod ?L) = (ds @ [d]) ! j" if j: "j < Suc ?n" "Suc ?n \<le> j + ?L" for j
  proof (cases "j = ?n")
    case True
    then show ?thesis using L len by (simp add: s)
  next
    case False
    with j have "j < ?n" "?n < j + ?L" by auto
    then have "j mod ?L \<noteq> ?n mod ?L" by (rule window_mod_neq)
    then show ?thesis using w[of j] \<open>j < ?n\<close> \<open>?n < j + ?L\<close> by (simp add: s nth_append)
  qed
  then show ?thesis
    using len by (simp add: stats_inv_def s idx cnt)
qed

lemma stats_inv_init:
  "init_plugin vv ct dt nm p = Inr p' \<Longrightarrow> stats_inv [] p'"
  by (auto simp: init_plugin_def stats_inv_def result_simps Let_def)

lemma stats_inv_run: "stats_inv ds p \<Longrightarrow> stats_inv (ds @ es) (fold update_duration_stats es p)"
proof (induction es arbitrary: ds p)
  case Nil
  then show ?case by simp
next
  case (Cons e es)
  from stats_inv_step[OF Cons.prems, of e] Cons.IH[of "ds @ [e]"] show ?case by simp
qed

text \<open>What is aggregated: exactly the last \<open>min (length ds) limit\<close> run times, rotated.\<close>

lemma stats_inv_values:
  assumes "stats_inv ds p"
  shows "set (plugin_stats_values p) = set (drop (length ds - ANALYSIS_STATS_LIMIT) ds) \<and>
         length (plugin_stats_values p) = min (length ds) ANALYSIS_STATS_LIMIT"
proof -
  let ?L = ANALYSIS_STATS_LIMIT and ?n = "length ds"
  have L: "0 < ?L" by (simp add: ANALYSIS_STATS_LIMIT_def)
  have len: "length (stats p) = ?L" and c: "stats_count p = min ?n ?L"
    and w: "\<And>j. j < ?n \<Longrightarrow> ?n \<le> j + ?L \<Longrightarrow> stats p ! (j mod ?L) = ds ! j"
    using assms by (auto simp: stats_inv_def)
  show ?thesis
  proof (cases "?n < ?L")
    case True
    then have "take ?n (stats p) = ds"
      using len w by (intro nth_equalityI) auto
    with True c len show ?thesis by (simp add: plugin_stats_values_def)
  next
    case False
    then have v: "plugin_stats_values p = stats p" using c by (simp add: plugin_stats_values_def)
    have "set (stats p) = set (drop (?n - ?L) ds)"
    proof (rule set_eqI, rule iffI)
      fix x assume "x \<in> set (stats p)"
      then obtain i where i: "i < ?L" "x = stats p ! i" using len by (metis in_set_conv_nth)
      define m where "m = ?n - ?L"
      define j where "j = m + (i + (?L - m mod ?L)) mod ?L"
      have n: "?n = m + ?L" using False by (simp add: m_def)
      have "m mod ?L \<le> ?L" using mod_less_divisor[OF L, of m] by simp
      then have "m mod ?L + (i + (?L - m mod ?L)) = i + ?L" by simp
      moreover have "j mod ?L = (m mod ?L + (i + (?L - m mod ?L))) mod ?L"
        by (simp add: j_def mod_simps)
      ultimately have jm: "j mod ?L = i" using i(1) by simp
      have "j < ?n" "?n \<le> j + ?L" "?n - ?L \<le> j"
        using mod_less_divisor[OF L, of "i + (?L - m mod ?L)"] by (auto simp: j_def n)
      then have "x = ds ! j" using w[of j] jm i(2) by simp
      then show "x \<in> set (drop (?n - ?L) ds)"
        using \<open>j < ?n\<close> \<open>?n - ?L \<le> j\<close> by (auto simp: in_set_conv_nth intro!: exI[of _ "j - (?n - ?L)"])
    next
      fix x assume "x \<in> set (drop (?n - ?L) ds)"
      then obtain k where "k < ?n - (?n - ?L)" "x = ds ! (?n - ?L + k)"
        by (auto simp: in_set_conv_nth)
      then show "x \<in> set (stats p)" using w[of "?n - ?L + k"] False len L
        by (metis (no_types, lifting) add.commute add_less_cancel_right le_add_diff_inverse2
            less_diff_conv mod_less_divisor not_less nth_mem le_add1 add.assoc)
    qed
    with v False len show ?thesis by simp
  qed
qed

end
