(* ===== verification/TaskScheduler.thy ===== *)
theory TaskScheduler
  imports AnalysisPlugin
begin

text \<open>
  The order of a file's analyses (\<open>scheduler/task_scheduler.py\<close>): the dependency closure of
  the selected plugins, the dependency-preserving shuffle, and what a failed analysis does
  to the plugins that depend on it. The list is consumed from its end, so "executed before"
  is "later in the list". An unknown plugin name raises \<open>KeyError\<close>.
\<close>

definition MANDATORY_PLUGINS :: "string list" where
  "MANDATORY_PLUGINS = [''file_type'', ''file_hashes'']"

definition dependencies_of :: "plugins \<Rightarrow> string \<Rightarrow> string list result" where
  "dependencies_of plugins p = map_r p_dependencies (dlookup plugins p)"

definition get_cumulative_remaining_dependencies :: "plugins \<Rightarrow> string list \<Rightarrow> string list result" where
  "get_cumulative_remaining_dependencies plugins scheduled =
     map_r (\<lambda>deps. set_minus (py_set (concat deps)) scheduled) (mapM_r (dependencies_of plugins) scheduled)"

text \<open>The dependency relation of the loaded plugins.\<close>

definition dep_set :: "plugins \<Rightarrow> string \<Rightarrow> string set" where
  "dep_set plugins p = (case map_of plugins p of None \<Rightarrow> {} | Some pl \<Rightarrow> set (p_dependencies pl))"

definition all_deps :: "plugins \<Rightarrow> string set" where
  "all_deps plugins = (\<Union>pl \<in> snd ` set plugins. set (p_dependencies pl))"

lemma finite_all_deps [simp]: "finite (all_deps plugins)"
  by (simp add: all_deps_def)

lemma dep_set_subset: "dep_set plugins p \<subseteq> all_deps plugins"
  by (force simp: dep_set_def all_deps_def split: option.splits dest: map_of_SomeD)

lemma dependencies_of_Inr:
  "dependencies_of plugins x = Inr ds \<Longrightarrow> set ds = dep_set plugins x \<and> dmem x plugins"
  by (auto simp: dependencies_of_def dep_set_def dmem_def result_simps)

lemma dependencies_of_ok: "dmem x plugins \<Longrightarrow> \<exists>ds. dependencies_of plugins x = Inr ds"
  by (auto simp: dependencies_of_def dmem_def result_simps)

lemma mapM_dependencies_Inr:
  "mapM_r (dependencies_of plugins) xs = Inr ds \<Longrightarrow>
   (\<forall>x \<in> set xs. dmem x plugins) \<and> set (concat ds) = (\<Union>x \<in> set xs. dep_set plugins x)"
proof (induction xs arbitrary: ds)
  case Nil
  then show ?case by simp
next
  case (Cons x xs)
  then obtain y ys where "dependencies_of plugins x = Inr y" "mapM_r (dependencies_of plugins) xs = Inr ys"
    "ds = y # ys" by (auto simp only: mapM_r_Cons_Inr)
  with Cons.IH[of ys] dependencies_of_Inr[of plugins x y] show ?case by simp
qed

lemma mapM_dependencies_ok:
  "\<forall>x \<in> set xs. dmem x plugins \<Longrightarrow> \<exists>ds. mapM_r (dependencies_of plugins) xs = Inr ds"
  using dependencies_of_ok by (intro mapM_r_ok) blast

lemma remaining_deps_Inr:
  assumes "get_cumulative_remaining_dependencies plugins s = Inr new"
  shows "set new = (\<Union>x \<in> set s. dep_set plugins x) - set s" "\<forall>x \<in> set s. dmem x plugins"
  using assms mapM_dependencies_Inr
  by (fastforce simp: get_cumulative_remaining_dependencies_def result_simps)+

text \<open>\<open>while True\<close>: each round adds at least one dependency that was missing.\<close>

function add_dependencies_loop :: "plugins \<Rightarrow> string list \<Rightarrow> string list result" where
  "add_dependencies_loop plugins s =
     (case get_cumulative_remaining_dependencies plugins s of
        Inl e \<Rightarrow> Inl e
      | Inr new \<Rightarrow> if new = [] then Inr s else add_dependencies_loop plugins (set_union s new))"
  by pat_completeness auto
termination
proof (relation "measure (\<lambda>(plugins, s). card (all_deps plugins - set s))")
  fix plugins :: plugins and s new
  assume new: "get_cumulative_remaining_dependencies plugins s = Inr new" and "new \<noteq> []"
  then obtain d where d: "d \<in> set new" by (cases new) auto
  have "d \<in> all_deps plugins" "d \<notin> set s"
    using d remaining_deps_Inr(1)[OF new] dep_set_subset by fastforce+
  then have "all_deps plugins - set (set_union s new) \<subset> all_deps plugins - set s"
    using d by auto
  then show "((plugins, set_union s new), plugins, s) \<in> measure (\<lambda>(plugins, s). card (all_deps plugins - set s))"
    by (simp add: psubset_card_mono)
qed simp

declare add_dependencies_loop.simps [simp del]

definition add_dependencies_recursively :: "plugins \<Rightarrow> string list \<Rightarrow> string list result" where
  "add_dependencies_recursively plugins scheduled_analyses =
     add_dependencies_loop plugins (py_set scheduled_analyses)"

definition get_plugins_with_met_dependencies :: "plugins \<Rightarrow> string list \<Rightarrow> string list \<Rightarrow> string list result" where
  "get_plugins_with_met_dependencies plugins remaining scheduled =
     map_r (\<lambda>ds. map fst (filter (\<lambda>(p, deps). list_all (\<lambda>d. d \<in> set scheduled) deps) (zip remaining ds)))
       (mapM_r (dependencies_of plugins) remaining)"

lemma filter_zip_length: "length (map fst (filter P (zip xs ys))) \<le> length xs"
  by (metis length_filter_le length_map length_zip le_trans min.cobounded1)

lemma met_dependencies_Inr:
  assumes "get_plugins_with_met_dependencies plugins remaining scheduled = Inr nxt"
  shows "nxt = filter (\<lambda>p. dep_set plugins p \<subseteq> set scheduled) remaining \<and> (\<forall>p \<in> set remaining. dmem p plugins)"
proof -
  from assms obtain ds where ds: "mapM_r (dependencies_of plugins) remaining = Inr ds"
    and nxt: "nxt = map fst (filter (\<lambda>(p, deps). list_all (\<lambda>d. d \<in> set scheduled) deps) (zip remaining ds))"
    by (auto simp: get_plugins_with_met_dependencies_def result_simps)
  have "map fst (filter (\<lambda>(p, deps). list_all (\<lambda>d. d \<in> set scheduled) deps) (zip remaining ds)) =
      filter (\<lambda>p. dep_set plugins p \<subseteq> set scheduled) remaining"
    using ds
  proof (induction remaining arbitrary: ds)
    case (Cons x xs)
    then obtain y ys where "dependencies_of plugins x = Inr y" "mapM_r (dependencies_of plugins) xs = Inr ys"
      "ds = y # ys" by (auto simp only: mapM_r_Cons_Inr)
    with Cons.IH[of ys] dependencies_of_Inr[of plugins x y] show ?case
      by (simp add: list_all_iff subset_iff)
  qed simp
  with nxt mapM_dependencies_Inr[OF ds] show ?thesis by simp
qed

text \<open>
  The loop of \<open>_smart_shuffle\<close>. The draws of round \<open>i\<close> are \<open>rnd i\<close>; when no plugin can be
  scheduled the loop breaks and the remaining ones are dropped (an error is logged).
\<close>

function smart_shuffle_loop ::
  "(nat \<Rightarrow> nat \<Rightarrow> nat) \<Rightarrow> nat \<Rightarrow> plugins \<Rightarrow> string list \<Rightarrow> string list \<Rightarrow> string list result" where
  "smart_shuffle_loop rnd i plugins scheduled remaining =
     (if remaining = [] then Inr scheduled
      else case get_plugins_with_met_dependencies plugins remaining scheduled of
        Inl e \<Rightarrow> Inl e
      | Inr nxt \<Rightarrow>
          if nxt = [] then Inr scheduled
          else smart_shuffle_loop rnd (Suc i) plugins (shuffled (rnd i) nxt @ scheduled)
                 (set_minus remaining nxt))"
  by pat_completeness auto
termination
proof (relation "measure (\<lambda>(rnd, i, plugins, scheduled, remaining). length remaining)")
  fix rnd :: "nat \<Rightarrow> nat \<Rightarrow> nat" and i plugins scheduled remaining nxt
  assume "get_plugins_with_met_dependencies plugins remaining scheduled = Inr nxt" and ne: "nxt \<noteq> []"
  then have "nxt = filter (\<lambda>p. dep_set plugins p \<subseteq> set scheduled) remaining"
    using met_dependencies_Inr by blast
  then obtain x where "x \<in> set remaining" "x \<in> set nxt"
    using ne by (metis filter_is_subset list.set_intros(1) neq_Nil_conv subset_iff)
  then show "((rnd, Suc i, plugins, shuffled (rnd i) nxt @ scheduled, set_minus remaining nxt),
      rnd, i, plugins, scheduled, remaining)
      \<in> measure (\<lambda>(rnd, i, plugins, scheduled, remaining). length remaining)"
    by (auto simp: set_minus_def intro!: length_filter_less)
qed simp

declare smart_shuffle_loop.simps [simp del]

text \<open>File type is moved to the end of the list (it runs first), for the blacklists.\<close>

definition file_type_first :: "string list \<Rightarrow> string list" where
  "file_type_first scheduled =
     (if ''file_type'' \<in> set scheduled \<and> last scheduled \<noteq> ''file_type''
      then remove1 ''file_type'' scheduled @ [''file_type''] else scheduled)"

definition smart_shuffle :: "(nat \<Rightarrow> nat \<Rightarrow> nat) \<Rightarrow> plugins \<Rightarrow> string list \<Rightarrow> string list result" where
  "smart_shuffle rnd plugins plugin_list =
     map_r file_type_first (smart_shuffle_loop rnd 0 plugins [] (py_set plugin_list))"

definition schedule_analysis_tasks ::
  "(nat \<Rightarrow> nat \<Rightarrow> nat) \<Rightarrow> plugins \<Rightarrow> file_object \<Rightarrow> string list option \<Rightarrow> bool \<Rightarrow> file_object result" where
  "schedule_analysis_tasks rnd plugins fo scheduled mandatory =
     bind_r (add_dependencies_recursively plugins (case scheduled of None \<Rightarrow> [] | Some xs \<Rightarrow> xs)) (\<lambda>s.
       map_r (\<lambda>l. fo\<lparr>scheduled_analysis := Some l\<rparr>)
         (smart_shuffle rnd plugins (if mandatory then s @ MANDATORY_PLUGINS else s)))"

section \<open>Failed analyses\<close>

definition get_failed_analysis_result :: "real \<Rightarrow> plugins \<Rightarrow> string \<Rightarrow> string \<Rightarrow> analysis_result result" where
  "get_failed_analysis_result now plugins cause plugin =
     map_r (\<lambda>pl. [(''failed'', PStr cause), (''plugin_version'', pstr_opt (p_version pl)),
                   (''analysis_date'', PFloat now)]) (dlookup plugins plugin)"

definition scheduled_list :: "file_object \<Rightarrow> string list" where
  "scheduled_list fo = (case scheduled_analysis fo of None \<Rightarrow> [] | Some xs \<Rightarrow> xs)"

definition unschedule_dependent ::
  "real \<Rightarrow> plugins \<Rightarrow> string \<Rightarrow> string \<Rightarrow> file_object \<Rightarrow> file_object result" where
  "unschedule_dependent now plugins failed_plugin plugin fo =
     bind_r (dependencies_of plugins plugin) (\<lambda>deps.
       if failed_plugin \<in> set deps then
         map_r (\<lambda>res. fo\<lparr>scheduled_analysis := Some (remove1 plugin (scheduled_list fo)),
                          processed_analysis := dput plugin res (processed_analysis fo)\<rparr>)
           (get_failed_analysis_result now plugins
              (''Analysis of dependency '' @ failed_plugin @ '' failed'') plugin)
       else Inr fo)"

definition reschedule_failed_analysis_task :: "real \<Rightarrow> plugins \<Rightarrow> file_object \<Rightarrow> file_object result" where
  "reschedule_failed_analysis_task now plugins fo = (case analysis_exception fo of
      None \<Rightarrow> Inl TypeError
    | Some (failed_plugin, cause) \<Rightarrow>
        bind_r (get_failed_analysis_result now plugins cause failed_plugin) (\<lambda>res.
          let fo1 = fo\<lparr>processed_analysis := dput failed_plugin res (processed_analysis fo)\<rparr> in
          map_r (\<lambda>fo2. fo2\<lparr>analysis_exception := None\<rparr>)
            (foldM_r (unschedule_dependent now plugins failed_plugin) (scheduled_list fo1) fo1)))"

section \<open>The dependency closure\<close>

text \<open>The plugins reachable from the selection along dependencies.\<close>

inductive needed :: "plugins \<Rightarrow> string set \<Rightarrow> string \<Rightarrow> bool" for plugins selected where
  needed_selected: "p \<in> selected \<Longrightarrow> needed plugins selected p"
| needed_dep: "needed plugins selected p \<Longrightarrow> d \<in> dep_set plugins p \<Longrightarrow> needed plugins selected d"

lemma needed_mono:
  assumes "needed plugins A p" and "\<And>q. q \<in> A \<Longrightarrow> needed plugins B q"
  shows "needed plugins B p"
  using assms by (induction rule: needed.induct) (auto intro: needed_dep)

lemma add_dependencies_loop_spec:
  assumes "add_dependencies_loop plugins s = Inr ys" and "distinct s"
  shows "distinct ys \<and> set ys = {p. needed plugins (set s) p} \<and> (\<forall>p \<in> set ys. dmem p plugins)"
  using assms
proof (induction plugins s arbitrary: ys rule: add_dependencies_loop.induct)
  case (1 plugins s)
  from "1.prems"(1) obtain new where new: "get_cumulative_remaining_dependencies plugins s = Inr new"
    by (subst (asm) add_dependencies_loop.simps) (auto split: sum.splits)
  show ?case
  proof (cases "new = []")
    case True
    with new "1.prems"(1) have ys: "ys = s"
      by (subst (asm) add_dependencies_loop.simps) simp
    have closed: "dep_set plugins p \<subseteq> set s" if "p \<in> set s" for p
      using remaining_deps_Inr(1)[OF new] True that by auto
    have "needed plugins (set s) p \<Longrightarrow> p \<in> set s" for p
      by (induction rule: needed.induct) (use closed in auto)
    then show ?thesis
      using ys "1.prems"(2) remaining_deps_Inr(2)[OF new] by (auto intro: needed_selected)
  next
    case False
    from new False "1.prems"(1) have rec: "add_dependencies_loop plugins (set_union s new) = Inr ys"
      by (subst (asm) add_dependencies_loop.simps) simp
    note IH = "1.IH"[OF new False rec]
    have "needed plugins (set s) q" if "q \<in> set s \<union> set new" for q
      using that remaining_deps_Inr(1)[OF new] by (auto intro: needed_selected needed_dep)
    then have "needed plugins (set (set_union s new)) p = needed plugins (set s) p" for p
      by (auto elim!: needed_mono intro: needed_selected)
    with IH show ?thesis by auto
  qed
qed

text \<open>The loop fails exactly if a needed plugin is not loaded.\<close>

lemma add_dependencies_loop_ok:
  assumes "\<And>p. needed plugins (set s) p \<Longrightarrow> dmem p plugins"
  shows "\<exists>ys. add_dependencies_loop plugins s = Inr ys"
  using assms
proof (induction plugins s rule: add_dependencies_loop.induct)
  case (1 plugins s)
  have "\<forall>x \<in> set s. dmem x plugins" using "1.prems" by (auto intro: needed_selected)
  then obtain new where new: "get_cumulative_remaining_dependencies plugins s = Inr new"
    using mapM_dependencies_ok[of s plugins]
    by (auto simp: get_cumulative_remaining_dependencies_def)
  show ?case
  proof (cases "new = []")
    case True
    with new show ?thesis by (subst add_dependencies_loop.simps) simp
  next
    case False
    have "needed plugins (set s) q" if "q \<in> set (set_union s new)" for q
      using that remaining_deps_Inr(1)[OF new] by (auto intro: needed_selected needed_dep)
    then have "dmem p plugins" if "needed plugins (set (set_union s new)) p" for p
      using that "1.prems" needed_mono by blast
    from "1.IH"[OF new False this] new False show ?thesis
      by (subst add_dependencies_loop.simps) simp
  qed
qed

section \<open>The execution order\<close>

text \<open>Every dependency of a plugin comes later in the list, that is, runs before it.\<close>

fun deps_later :: "plugins \<Rightarrow> string list \<Rightarrow> bool" where
  "deps_later plugins [] = True"
| "deps_later plugins (p # ps) = (dep_set plugins p \<subseteq> set ps \<and> deps_later plugins ps)"

lemma deps_later_append:
  "\<forall>p \<in> set xs. dep_set plugins p \<subseteq> set ys \<Longrightarrow> deps_later plugins ys \<Longrightarrow> deps_later plugins (xs @ ys)"
  by (induction xs) auto

lemma deps_later_nth:
  "deps_later plugins ps \<Longrightarrow> i < length ps \<Longrightarrow> d \<in> dep_set plugins (ps ! i) \<Longrightarrow>
   \<exists>j. i < j \<and> j < length ps \<and> ps ! j = d"
proof (induction ps arbitrary: i)
  case Nil
  then show ?case by simp
next
  case (Cons p ps)
  show ?case
  proof (cases i)
    case 0
    with Cons.prems have "d \<in> set ps" by auto
    then obtain j where "j < length ps" "ps ! j = d" by (metis in_set_conv_nth)
    then show ?thesis using 0 by (intro exI[of _ "Suc j"]) auto
  next
    case (Suc k)
    with Cons.prems have "deps_later plugins ps" "k < length ps" "d \<in> dep_set plugins (ps ! k)" by auto
    from Cons.IH[OF this] obtain j where "k < j" "j < length ps" "ps ! j = d" by blast
    then show ?thesis using Suc by (intro exI[of _ "Suc j"]) auto
  qed
qed

lemma smart_shuffle_loop_spec:
  assumes "smart_shuffle_loop rnd i plugins sch rem = Inr ys"
    and "distinct (sch @ rem)" and "deps_later plugins sch"
  shows "distinct ys \<and> deps_later plugins ys \<and> set sch \<subseteq> set ys \<and> set ys \<subseteq> set sch \<union> set rem \<and>
         (\<forall>p \<in> set sch \<union> set rem. p \<notin> set ys \<longrightarrow> \<not> dep_set plugins p \<subseteq> set ys)"
  using assms
proof (induction rnd i plugins sch rem arbitrary: ys rule: smart_shuffle_loop.induct)
  case (1 rnd i plugins sch rem)
  show ?case
  proof (cases "rem = []")
    case True
    with "1.prems" show ?thesis by (subst (asm) smart_shuffle_loop.simps) auto
  next
    case False
    with "1.prems"(1) obtain nxt where nxt: "get_plugins_with_met_dependencies plugins rem sch = Inr nxt"
      by (subst (asm) smart_shuffle_loop.simps) (auto split: sum.splits)
    have n: "nxt = filter (\<lambda>p. dep_set plugins p \<subseteq> set sch) rem"
      using met_dependencies_Inr[OF nxt] by blast
    show ?thesis
    proof (cases "nxt = []")
      case True
      with False nxt "1.prems"(1) have "ys = sch"
        by (subst (asm) smart_shuffle_loop.simps) simp
      with True n "1.prems"(2,3) show ?thesis by (auto simp: filter_empty_conv)
    next
      case ne: False
      let ?sch = "shuffled (rnd i) nxt @ sch" and ?rem = "set_minus rem nxt"
      from False nxt ne "1.prems"(1) have rec: "smart_shuffle_loop rnd (Suc i) plugins ?sch ?rem = Inr ys"
        by (subst (asm) smart_shuffle_loop.simps) simp
      have d: "distinct (?sch @ ?rem)" using "1.prems"(2) n by auto
      have l: "deps_later plugins ?sch"
        using "1.prems"(3) by (intro deps_later_append) (auto simp: n)
      have "set ?sch \<union> set ?rem = set sch \<union> set rem" using n by auto
      with "1.IH"[OF False nxt ne rec d l] show ?thesis by auto
    qed
  qed
qed

lemma smart_shuffle_loop_ok:
  assumes "\<forall>p \<in> set rem. dmem p plugins"
  shows "\<exists>ys. smart_shuffle_loop rnd i plugins sch rem = Inr ys"
  using assms
proof (induction rnd i plugins sch rem rule: smart_shuffle_loop.induct)
  case (1 rnd i plugins sch rem)
  show ?case
  proof (cases "rem = []")
    case True
    then show ?thesis by (subst smart_shuffle_loop.simps) simp
  next
    case False
    obtain nxt where nxt: "get_plugins_with_met_dependencies plugins rem sch = Inr nxt"
      using mapM_dependencies_ok[OF "1.prems"] by (auto simp: get_plugins_with_met_dependencies_def)
    show ?thesis
    proof (cases "nxt = []")
      case True
      with False nxt show ?thesis by (subst smart_shuffle_loop.simps) simp
    next
      case ne: False
      from "1.IH"[OF False nxt ne] "1.prems" False nxt ne show ?thesis
        by (subst smart_shuffle_loop.simps) simp
    qed
  qed
qed

lemma deps_later_snoc: "deps_later plugins ps \<Longrightarrow> dep_set plugins f = {} \<Longrightarrow> deps_later plugins (ps @ [f])"
  by (induction ps) auto

lemma subset_remove1: "set (remove1 x xs) \<union> {x} \<supseteq> set xs"
  by (induction xs) auto

lemma deps_later_move_end:
  assumes "deps_later plugins ps" and "dep_set plugins f = {}" and "f \<in> set ps"
  shows "deps_later plugins (remove1 f ps @ [f])"
proof -
  have "deps_later plugins (remove1 f qs @ [f])" if "deps_later plugins qs" for qs
    using that
  proof (induction qs)
    case Nil
    with assms(2) show ?case by simp
  next
    case (Cons q qs)
    then show ?case
      using assms(2) deps_later_snoc[of plugins qs f] subset_remove1[of qs f] by auto
  qed
  with assms(1) show ?thesis by blast
qed

lemma file_type_first_spec:
  assumes "distinct ps" and "deps_later plugins ps" and "dep_set plugins ''file_type'' = {}"
  shows "distinct (file_type_first ps) \<and> set (file_type_first ps) = set ps \<and>
    deps_later plugins (file_type_first ps) \<and>
    (''file_type'' \<in> set ps \<longrightarrow> last (file_type_first ps) = ''file_type'')"
  using assms deps_later_move_end[OF assms(2,3)]
  by (auto simp: file_type_first_def)

text \<open>If the dependencies are acyclic and closed, nothing is dropped.\<close>

lemma acyclic_all_scheduled:
  assumes rank: "\<And>p d. p \<in> X \<Longrightarrow> d \<in> dep_set plugins p \<Longrightarrow> rank d < (rank p :: nat)"
    and closed: "\<And>p. p \<in> X \<Longrightarrow> dep_set plugins p \<subseteq> X"
    and stuck: "\<And>p. p \<in> X \<Longrightarrow> p \<notin> Y \<Longrightarrow> \<not> dep_set plugins p \<subseteq> Y"
  shows "X \<subseteq> Y"
proof
  fix p assume "p \<in> X"
  then show "p \<in> Y"
  proof (induction "rank p" arbitrary: p rule: less_induct)
    case less
    have "dep_set plugins p \<subseteq> Y" using less rank closed by blast
    with less.prems stuck show ?case by blast
  qed
qed

lemma smart_shuffle_spec:
  assumes "smart_shuffle rnd plugins xs = Inr ys" and "dep_set plugins ''file_type'' = {}"
  shows "distinct ys" "deps_later plugins ys" "set ys \<subseteq> set xs"
    "''file_type'' \<in> set ys \<Longrightarrow> last ys = ''file_type''"
    "\<And>p. p \<in> set xs \<Longrightarrow> p \<notin> set ys \<Longrightarrow> \<not> dep_set plugins p \<subseteq> set ys"
proof -
  from assms(1) obtain zs where zs: "smart_shuffle_loop rnd 0 plugins [] (py_set xs) = Inr zs"
    and ys: "ys = file_type_first zs"
    by (auto simp: smart_shuffle_def result_simps)
  have z: "distinct zs" "deps_later plugins zs" "set zs \<subseteq> set xs"
    "\<forall>p \<in> set xs. p \<notin> set zs \<longrightarrow> \<not> dep_set plugins p \<subseteq> set zs"
    using smart_shuffle_loop_spec[OF zs] by auto
  from file_type_first_spec[OF z(1,2) assms(2)] z(3,4)
  show "distinct ys" "deps_later plugins ys" "set ys \<subseteq> set xs"
    "''file_type'' \<in> set ys \<Longrightarrow> last ys = ''file_type''"
    "\<And>p. p \<in> set xs \<Longrightarrow> p \<notin> set ys \<Longrightarrow> \<not> dep_set plugins p \<subseteq> set ys"
    by (auto simp: ys)
qed

lemma smart_shuffle_ok: "\<forall>p \<in> set xs. dmem p plugins \<Longrightarrow> \<exists>ys. smart_shuffle rnd plugins xs = Inr ys"
  using smart_shuffle_loop_ok[of "py_set xs" plugins rnd 0 "[]"]
  by (auto simp: smart_shuffle_def)

section \<open>After a failure\<close>

lemma unschedule_dependent_Inr:
  assumes "unschedule_dependent now plugins f p fo = Inr fo'"
  shows "scheduled_list fo' = (if f \<in> dep_set plugins p then remove1 p (scheduled_list fo) else scheduled_list fo)"
    and "f \<in> dep_set plugins p \<Longrightarrow> \<exists>res. map_of (processed_analysis fo') p = Some res \<and> dmem ''failed'' res"
    and "q \<noteq> p \<Longrightarrow> map_of (processed_analysis fo') q = map_of (processed_analysis fo) q"
    and "dmem p plugins"
proof -
  from assms obtain ds where ds: "dependencies_of plugins p = Inr ds"
    by (auto simp: unschedule_dependent_def result_simps)
  note d = dependencies_of_Inr[OF ds]
  show "scheduled_list fo' = (if f \<in> dep_set plugins p then remove1 p (scheduled_list fo) else scheduled_list fo)"
    "f \<in> dep_set plugins p \<Longrightarrow> \<exists>res. map_of (processed_analysis fo') p = Some res \<and> dmem ''failed'' res"
    "q \<noteq> p \<Longrightarrow> map_of (processed_analysis fo') q = map_of (processed_analysis fo) q" "dmem p plugins"
    using assms ds d
    by (auto simp: unschedule_dependent_def get_failed_analysis_result_def result_simps
        scheduled_list_def dmem_def split: if_splits)
qed

text \<open>
  The loop runs over a copy of the schedule: an occurrence is removed for every occurrence
  of a dependent plugin, the others keep their order.
\<close>

lemma unschedule_loop:
  assumes "foldM_r (unschedule_dependent now plugins f) xs fo = Inr fo'"
    and "scheduled_list fo = pre @ xs" and "\<forall>p \<in> set pre. f \<notin> dep_set plugins p"
  shows "scheduled_list fo' = pre @ filter (\<lambda>p. f \<notin> dep_set plugins p) xs \<and>
    (\<forall>p \<in> set xs. f \<in> dep_set plugins p \<longrightarrow>
       (\<exists>res. map_of (processed_analysis fo') p = Some res \<and> dmem ''failed'' res)) \<and>
    (\<forall>q. (\<forall>p \<in> set xs. f \<in> dep_set plugins p \<longrightarrow> p \<noteq> q) \<longrightarrow>
       map_of (processed_analysis fo') q = map_of (processed_analysis fo) q)"
  using assms
proof (induction xs arbitrary: fo pre)
  case Nil
  then show ?case by simp
next
  case (Cons x xs)
  from Cons.prems(1) obtain fo1 where s1: "unschedule_dependent now plugins f x fo = Inr fo1"
    and s2: "foldM_r (unschedule_dependent now plugins f) xs fo1 = Inr fo'"
    by (auto simp: result_simps)
  note u = unschedule_dependent_Inr[OF s1]
  show ?case
  proof (cases "f \<in> dep_set plugins x")
    case True
    then have "x \<notin> set pre" using Cons.prems(3) by auto
    then have "scheduled_list fo1 = pre @ xs"
      using u(1) True Cons.prems(2) by (simp add: remove1_append)
    note IH = Cons.IH[OF s2 this Cons.prems(3)]
    have "\<exists>res. map_of (processed_analysis fo') x = Some res \<and> dmem ''failed'' res"
    proof (cases "x \<in> set xs")
      case True
      with IH \<open>f \<in> dep_set plugins x\<close> show ?thesis by blast
    next
      case False
      then have "map_of (processed_analysis fo') x = map_of (processed_analysis fo1) x"
        using IH by blast
      with u(2)[OF True] show ?thesis by simp
    qed
    moreover have "map_of (processed_analysis fo') q = map_of (processed_analysis fo) q"
      if "\<forall>p \<in> set (x # xs). f \<in> dep_set plugins p \<longrightarrow> p \<noteq> q" for q
    proof -
      have "q \<noteq> x" "\<forall>p \<in> set xs. f \<in> dep_set plugins p \<longrightarrow> p \<noteq> q" using that True by auto
      with IH u(3) show ?thesis by simp
    qed
    ultimately show ?thesis using IH True by simp
  next
    case False
    then have "scheduled_list fo1 = (pre @ [x]) @ xs" using u(1) Cons.prems(2) by simp
    moreover have "\<forall>p \<in> set (pre @ [x]). f \<notin> dep_set plugins p" using False Cons.prems(3) by auto
    moreover have "fo1 = fo"
      using s1 False dependencies_of_Inr by (auto simp: unschedule_dependent_def result_simps split: if_splits)
    ultimately show ?thesis using Cons.IH[OF s2, of "pre @ [x]"] False by auto
  qed
qed

lemma reschedule_failed_spec:
  assumes "reschedule_failed_analysis_task now plugins fo = Inr fo'" and "analysis_exception fo = Some (f, cause)"
  shows "scheduled_list fo' = filter (\<lambda>p. f \<notin> dep_set plugins p) (scheduled_list fo)"
    "analysis_exception fo' = None"
    "\<And>p. p \<in> set (scheduled_list fo) \<Longrightarrow> f \<in> dep_set plugins p \<Longrightarrow>
       \<exists>res. map_of (processed_analysis fo') p = Some res \<and> dmem ''failed'' res"
    "f \<notin> set (scheduled_list fo) \<Longrightarrow>
       \<exists>res. map_of (processed_analysis fo') f = Some res \<and> map_of res ''failed'' = Some (PStr cause)"
proof -
  from assms obtain res fo2 where
    r: "get_failed_analysis_result now plugins cause f = Inr res" and
    fo2: "foldM_r (unschedule_dependent now plugins f) (scheduled_list fo)
        (fo\<lparr>processed_analysis := dput f res (processed_analysis fo)\<rparr>) = Inr fo2" and
    fo': "fo' = fo2\<lparr>analysis_exception := None\<rparr>"
    by (auto simp: reschedule_failed_analysis_task_def result_simps Let_def scheduled_list_def)
  have s: "scheduled_list fo' = scheduled_list fo2" "processed_analysis fo' = processed_analysis fo2"
    "analysis_exception fo' = None"
    by (simp_all add: fo' scheduled_list_def)
  have "scheduled_list (fo\<lparr>processed_analysis := dput f res (processed_analysis fo)\<rparr>) = [] @ scheduled_list fo"
    by (simp add: scheduled_list_def)
  note U = unschedule_loop[OF fo2 this]
  show "scheduled_list fo' = filter (\<lambda>p. f \<notin> dep_set plugins p) (scheduled_list fo)"
    "analysis_exception fo' = None"
    "\<And>p. p \<in> set (scheduled_list fo) \<Longrightarrow> f \<in> dep_set plugins p \<Longrightarrow>
       \<exists>res. map_of (processed_analysis fo') p = Some res \<and> dmem ''failed'' res"
    using U by (auto simp: s)
  show "\<exists>res. map_of (processed_analysis fo') f = Some res \<and> map_of res ''failed'' = Some (PStr cause)"
    if "f \<notin> set (scheduled_list fo)"
  proof -
    have "map_of (processed_analysis fo2) f = Some res" using U that by auto
    moreover have "map_of res ''failed'' = Some (PStr cause)"
      using r by (auto simp: get_failed_analysis_result_def result_simps)
    ultimately show ?thesis by (simp add: s)
  qed
qed

section \<open>Properties\<close>

definition selected_list :: "string list option \<Rightarrow> string list" where
  "selected_list sel = (case sel of None \<Rightarrow> [] | Some xs \<Rightarrow> xs)"

definition mandatory_set :: "bool \<Rightarrow> string set" where
  "mandatory_set m = (if m then set MANDATORY_PLUGINS else {})"

lemma schedule_analysis_tasks_Inr:
  assumes "schedule_analysis_tasks rnd plugins fo sel m = Inr fo'"
  shows "\<exists>s l. add_dependencies_recursively plugins (selected_list sel) = Inr s \<and>
    set s = {p. needed plugins (set (selected_list sel)) p} \<and> (\<forall>p \<in> set s. dmem p plugins) \<and>
    smart_shuffle rnd plugins (if m then s @ MANDATORY_PLUGINS else s) = Inr l \<and>
    fo' = fo\<lparr>scheduled_analysis := Some l\<rparr>"
proof -
  from assms obtain s l where s: "add_dependencies_recursively plugins (selected_list sel) = Inr s"
    and l: "smart_shuffle rnd plugins (if m then s @ MANDATORY_PLUGINS else s) = Inr l"
      "fo' = fo\<lparr>scheduled_analysis := Some l\<rparr>"
    unfolding schedule_analysis_tasks_def selected_list_def bind_r_Inr_iff map_r_Inr_iff by blast
  have "set s = {p. needed plugins (set (selected_list sel)) p} \<and> (\<forall>p \<in> set s. dmem p plugins)"
    using add_dependencies_loop_spec[of plugins "py_set (selected_list sel)" s] s
    by (simp add: add_dependencies_recursively_def)
  with s l show ?thesis by blast
qed

text \<open>Example plugins: a chain of dependencies above the mandatory ones.\<close>

definition ex_plugin :: "string list \<Rightarrow> plugin" where
  "ex_plugin deps =
    \<lparr>p_file = Some ''f.py'', p_name = Some ''n'', p_description = None, p_version = Some ''1.0'',
     p_dependencies = deps, p_recursive = True, p_system_version = None, p_mime_blacklist = [],
     p_mime_whitelist = [], in_queue = [], out_queue = [], thread_count = 1, active = [0],
     stats = [], stats_count = 0, stats_index = 0\<rparr>"

definition ex_plugins :: plugins where
  "ex_plugins =
     [(''file_type'', ex_plugin []), (''file_hashes'', ex_plugin [''file_type'']),
      (''cpu'', ex_plugin [''file_type'']), (''exec'', ex_plugin [''cpu'', ''file_hashes''])]"

lemma ex_plugins_dep_set:
  "dep_set ex_plugins p =
     (if p = ''file_hashes'' \<or> p = ''cpu'' then {''file_type''}
      else if p = ''exec'' then {''cpu'', ''file_hashes''} else {})"
  by (auto simp: dep_set_def ex_plugins_def ex_plugin_def)

lemma ex_plugins_dmem:
  "dmem p ex_plugins \<longleftrightarrow> p \<in> {''file_type'', ''file_hashes'', ''cpu'', ''exec''}"
  by (auto simp: dmem_def ex_plugins_def)

text \<open>C1: the schedule of a file is duplicate-free, runs every dependency of a plugin before
  the plugin (the list is consumed from its end), runs file_type first, and contains only the
  selected plugins, their transitive dependencies and, if requested, the mandatory plugins.\<close>

theorem schedule_analysis_order:
  assumes "schedule_analysis_tasks rnd plugins fo sel mandatory = Inr fo'"
    and "dep_set plugins ''file_type'' = {}"
  shows "distinct (scheduled_list fo') \<and> deps_later plugins (scheduled_list fo') \<and>
    (''file_type'' \<in> set (scheduled_list fo') \<longrightarrow> last (scheduled_list fo') = ''file_type'') \<and>
    set (scheduled_list fo') \<subseteq> {p. needed plugins (set (selected_list sel)) p} \<union> mandatory_set mandatory"
proof -
  from schedule_analysis_tasks_Inr[OF assms(1)] obtain s l where
    s: "set s = {p. needed plugins (set (selected_list sel)) p}" and
    l: "smart_shuffle rnd plugins (if mandatory then s @ MANDATORY_PLUGINS else s) = Inr l" and
    fo': "fo' = fo\<lparr>scheduled_analysis := Some l\<rparr>" by blast
  note sp = smart_shuffle_spec[OF l assms(2)]
  have "set l \<subseteq> set s \<union> mandatory_set mandatory" using sp(3) by (auto simp: mandatory_set_def split: if_splits)
  with sp s show ?thesis by (auto simp: fo' scheduled_list_def)
qed

theorem schedule_analysis_order_witness:
  "\<exists>fo'. schedule_analysis_tasks (\<lambda>_ _. 0) ex_plugins (blank_fo None) (Some [''exec'']) True = Inr fo' \<and>
     scheduled_list fo' = [''exec'', ''cpu'', ''file_hashes'', ''file_type''] \<and>
     deps_later ex_plugins (scheduled_list fo')"
proof -
  let ?fo = "(blank_fo None)\<lparr>scheduled_analysis := Some [''exec'', ''cpu'', ''file_hashes'', ''file_type'']\<rparr>"
  have run: "schedule_analysis_tasks (\<lambda>_ _. 0) ex_plugins (blank_fo None) (Some [''exec'']) True = Inr ?fo"
    by code_simp
  have d: "dep_set ex_plugins ''file_type'' = {}" by (simp add: ex_plugins_dep_set)
  have l: "scheduled_list ?fo = [''exec'', ''cpu'', ''file_hashes'', ''file_type'']"
    by (simp add: scheduled_list_def)
  have "deps_later ex_plugins (scheduled_list ?fo)"
    using schedule_analysis_order[OF run d] by blast
  with run l show ?thesis by blast
qed

text \<open>C2: if all needed plugins are loaded and the dependencies are acyclic, scheduling succeeds
  (both loops end) and drops nothing: exactly the selected plugins, their transitive
  dependencies and the mandatory plugins are scheduled.\<close>

theorem schedule_analysis_complete:
  assumes loaded: "\<And>p. needed plugins (set (selected_list sel)) p \<or> p \<in> mandatory_set mandatory \<Longrightarrow> dmem p plugins"
    and acyclic: "\<And>p d. d \<in> dep_set plugins p \<Longrightarrow> rank d < (rank p :: nat)"
    and ft: "dep_set plugins ''file_type'' = {}" and fh: "dep_set plugins ''file_hashes'' \<subseteq> {''file_type''}"
  shows "\<exists>fo'. schedule_analysis_tasks rnd plugins fo sel mandatory = Inr fo' \<and>
    set (scheduled_list fo') = {p. needed plugins (set (selected_list sel)) p} \<union> mandatory_set mandatory"
proof -
  let ?N = "{p. needed plugins (set (selected_list sel)) p}"
  let ?X = "?N \<union> mandatory_set mandatory"
  obtain s where s: "add_dependencies_loop plugins (py_set (selected_list sel)) = Inr s"
    using add_dependencies_loop_ok[of plugins "py_set (selected_list sel)"] loaded by auto
  have set_s: "set s = ?N" using add_dependencies_loop_spec[OF s] by simp
  let ?xs = "if mandatory then s @ MANDATORY_PLUGINS else s"
  have xs: "set ?xs = ?X" using set_s by (auto simp: mandatory_set_def)
  obtain l where l: "smart_shuffle rnd plugins ?xs = Inr l"
    using smart_shuffle_ok[of ?xs plugins rnd] loaded xs by blast
  note sp = smart_shuffle_spec[OF l ft]
  have "dep_set plugins p \<subseteq> ?X" if "p \<in> ?X" for p
    using that ft fh by (auto simp: mandatory_set_def MANDATORY_PLUGINS_def intro: needed_dep split: if_splits)
  then have "?X \<subseteq> set l"
    using acyclic_all_scheduled[of ?X plugins rank "set l"] acyclic sp(5) xs by blast
  with sp(3) xs have "set l = ?X" by blast
  moreover have "schedule_analysis_tasks rnd plugins fo sel mandatory = Inr (fo\<lparr>scheduled_analysis := Some l\<rparr>)"
    using s l by (simp add: schedule_analysis_tasks_def add_dependencies_recursively_def selected_list_def)
  ultimately show ?thesis by (auto simp: scheduled_list_def)
qed

theorem schedule_analysis_complete_witness:
  "\<exists>fo'. schedule_analysis_tasks (\<lambda>_ _. 7) ex_plugins (blank_fo None) (Some [''exec'']) True = Inr fo' \<and>
    set (scheduled_list fo') = {p. needed ex_plugins (set (selected_list (Some [''exec'']))) p} \<union> mandatory_set True"
proof (rule schedule_analysis_complete[where rank = "\<lambda>p. if p = ''exec'' then 2 else if p = ''file_type'' then 0 else 1"])
  fix p
  have "needed ex_plugins (set (selected_list (Some [''exec'']))) p \<Longrightarrow> dmem p ex_plugins"
    by (induction rule: needed.induct)
       (auto simp: selected_list_def ex_plugins_dep_set ex_plugins_dmem split: if_splits)
  then show "needed ex_plugins (set (selected_list (Some [''exec'']))) p \<or> p \<in> mandatory_set True \<Longrightarrow> dmem p ex_plugins"
    by (auto simp: mandatory_set_def MANDATORY_PLUGINS_def ex_plugins_dmem)
qed (auto simp: ex_plugins_dep_set split: if_splits)

text \<open>after a failed analysis has been rescheduled, exactly the plugins that depend directly
  on the failed one are gone from the schedule (the others keep their order), each of them has
  a result with the key failed, and the exception is cleared.\<close>

theorem reschedule_failed_removes_dependents:
  assumes "reschedule_failed_analysis_task now plugins fo = Inr fo'"
    and "analysis_exception fo = Some (f, cause)"
  shows "scheduled_list fo' = filter (\<lambda>p. f \<notin> dep_set plugins p) (scheduled_list fo) \<and>
    analysis_exception fo' = None \<and>
    (\<forall>p \<in> set (scheduled_list fo). f \<in> dep_set plugins p \<longrightarrow>
       (\<exists>res. map_of (processed_analysis fo') p = Some res \<and> dmem ''failed'' res))"
  using reschedule_failed_spec[OF assms] by blast

theorem reschedule_failed_removes_dependents_witness:
  "\<exists>fo'. reschedule_failed_analysis_task 5 ex_plugins
      ((blank_fo None)\<lparr>scheduled_analysis := Some [''exec'', ''file_hashes''],
        analysis_exception := Some (''cpu'', ''Timeout occurred during analysis'')\<rparr>) = Inr fo' \<and>
     scheduled_list fo' = [''file_hashes''] \<and> analysis_exception fo' = None"
proof -
  let ?fo = "(blank_fo None)\<lparr>scheduled_analysis := Some [''exec'', ''file_hashes''],
        analysis_exception := Some (''cpu'', ''Timeout occurred during analysis'')\<rparr>"
  have ex: "\<exists>fo'. reschedule_failed_analysis_task 5 ex_plugins ?fo = Inr fo'"
    by (simp add: reschedule_failed_analysis_task_def scheduled_list_def get_failed_analysis_result_def
        unschedule_dependent_def dependencies_of_def dlookup_def ex_plugins_def ex_plugin_def)
  then obtain fo' where run: "reschedule_failed_analysis_task 5 ex_plugins ?fo = Inr fo'" by blast
  have "analysis_exception ?fo = Some (''cpu'', ''Timeout occurred during analysis'')" by simp
  from reschedule_failed_removes_dependents[OF run this] run show ?thesis
    by (auto simp: scheduled_list_def ex_plugins_dep_set)
qed

end
