(* ===== verification/AnalysisStatus.thy ===== *)
theory AnalysisStatus
  imports FileObj
begin

text \<open>
  Progress bookkeeping of the running analyses (\<open>scheduler/analysis_status.py\<close>): the
  manager dicts, the lock, and the invariant that relates the counters to the lists of
  pending files. Calls to \<open>time()\<close> are the parameter \<open>now\<close>.
\<close>

record fw_status =
  files_to_unpack :: "uid list"
  files_to_analyze :: "uid list"
  start_time :: real
  unpacked_files_count :: int
  analyzed_files_count :: int
  total_files_count :: int
  st_hid :: string

record finished_status =
  duration :: real
  fin_total_files_count :: int
  time_finished :: real
  fin_hid :: string

record analysis_status =
  currently_running :: "(uid, fw_status) dict"
  recently_finished :: "(uid, finished_status) dict"
  running_lock :: bool

text \<open>
  An operation returns, raises (the state it leaves is kept), or blocks on the lock:
  \<open>acquire\<close> of a lock that is never released does not return.
\<close>

datatype 's outcome = Done 's | Raised py_error 's | Blocked

definition RECENTLY_FINISHED_DISPLAY_TIME_IN_SEC :: real where
  "RECENTLY_FINISHED_DISPLAY_TIME_IN_SEC = 300"

definition init_status :: analysis_status where
  "init_status = \<lparr>currently_running = [], recently_finished = [], running_lock = False\<rparr>"

definition find_currently_analyzed_parents :: "(bytes \<Rightarrow> string) \<Rightarrow> file_object \<Rightarrow> analysis_status \<Rightarrow> uid list" where
  "find_currently_analyzed_parents sha fo st =
     (let parent_uids = (if is_firmware fo then [get_uid sha fo] else parent_firmware_uids fo)
      in set_inter (dkeys (currently_running st)) parent_uids)"

definition init_current_analysis :: "(bytes \<Rightarrow> string) \<Rightarrow> real \<Rightarrow> firmware_data \<Rightarrow> file_object \<Rightarrow> fw_status" where
  "init_current_analysis sha now d fo =
    \<lparr>files_to_unpack = files_included fo, files_to_analyze = [get_uid sha fo], start_time = now,
     unpacked_files_count = 1, analyzed_files_count = 0,
     total_files_count = 1 + int (length (files_included fo)), st_hid = firmware_get_hid d\<rparr>"

text \<open>One parent in \<open>_update_current_analysis\<close>.\<close>

definition update_parent :: "(bytes \<Rightarrow> string) \<Rightarrow> file_object \<Rightarrow> fw_status \<Rightarrow> fw_status" where
  "update_parent sha fo d =
     (let new_files = set_minus (py_set (files_included fo))
            (set_union (files_to_unpack d) (files_to_analyze d));
          d1 = d\<lparr>total_files_count := total_files_count d + int (length new_files),
                 files_to_unpack := set_union (files_to_unpack d) new_files\<rparr>;
          u = get_uid sha fo
      in if u \<in> set (files_to_unpack d1)
         then d1\<lparr>files_to_unpack := remove1 u (files_to_unpack d1),
                 files_to_analyze := files_to_analyze d1 @ [u],
                 unpacked_files_count := unpacked_files_count d1 + 1\<rparr>
         else d1)"

definition update_running :: "(fw_status \<Rightarrow> fw_status) \<Rightarrow> uid \<Rightarrow> analysis_status \<Rightarrow> analysis_status" where
  "update_running f p st = (case map_of (currently_running st) p of
      None \<Rightarrow> st
    | Some d \<Rightarrow> st\<lparr>currently_running := dput p (f d) (currently_running st)\<rparr>)"

definition update_current_analysis :: "(bytes \<Rightarrow> string) \<Rightarrow> file_object \<Rightarrow> analysis_status \<Rightarrow> analysis_status" where
  "update_current_analysis sha fo st =
     fold (update_running (update_parent sha fo)) (find_currently_analyzed_parents sha fo st) st"

definition add_to_current_analyses ::
  "(bytes \<Rightarrow> string) \<Rightarrow> real \<Rightarrow> file_object \<Rightarrow> analysis_status \<Rightarrow> analysis_status outcome" where
  "add_to_current_analyses sha now fo st =
     (if running_lock st then Blocked
      else Done (case fw fo of
          Some d \<Rightarrow> st\<lparr>currently_running := dput (get_uid sha fo) (init_current_analysis sha now d fo) (currently_running st)\<rparr>
        | None \<Rightarrow> update_current_analysis sha fo st))"

text \<open>The lock is taken again and, on a \<open>KeyError\<close>, not released.\<close>

definition add_update_to_current_analyses ::
  "(bytes \<Rightarrow> string) \<Rightarrow> real \<Rightarrow> file_object \<Rightarrow> uid list \<Rightarrow> analysis_status \<Rightarrow> analysis_status outcome" where
  "add_update_to_current_analyses sha now fo included_files st =
     (case add_to_current_analyses sha now fo st of
        Done st1 \<Rightarrow>
          (let u = get_uid sha fo; n = int (length included_files) + 1 in
           case map_of (currently_running st1) u of
             None \<Rightarrow> Raised KeyError (st1\<lparr>running_lock := True\<rparr>)
           | Some d \<Rightarrow> Done (st1\<lparr>currently_running := dput u
               (d\<lparr>files_to_unpack := [], unpacked_files_count := n, total_files_count := n,
                  files_to_analyze := u # included_files\<rparr>) (currently_running st1)\<rparr>))
      | other \<Rightarrow> other)"

definition init_recently_finished :: "real \<Rightarrow> fw_status \<Rightarrow> finished_status" where
  "init_recently_finished now d =
    \<lparr>duration = now - start_time d, fin_total_files_count = total_files_count d,
     time_finished = now, fin_hid = st_hid d\<rparr>"

text \<open>One parent in \<open>remove_from_current_analyses\<close>.\<close>

definition remove_from_parent ::
  "(bytes \<Rightarrow> string) \<Rightarrow> real \<Rightarrow> file_object \<Rightarrow> uid \<Rightarrow> analysis_status \<Rightarrow> analysis_status" where
  "remove_from_parent sha now fo p st = (case map_of (currently_running st) p of
      None \<Rightarrow> st
    | Some d \<Rightarrow>
        (let u = get_uid sha fo in
         if u \<notin> set (files_to_analyze d) then st
         else let d1 = d\<lparr>files_to_analyze := set_minus (py_set (files_to_analyze d)) [u],
                         analyzed_files_count := analyzed_files_count d + 1\<rparr>
              in if length (files_to_unpack d1) = 0 \<and> length (files_to_analyze d1) = 0
                 then st\<lparr>recently_finished := dput p (init_recently_finished now d1) (recently_finished st),
                         currently_running := ddel p (currently_running st)\<rparr>
                 else st\<lparr>currently_running := dput p d1 (currently_running st)\<rparr>))"

definition remove_from_current_analyses ::
  "(bytes \<Rightarrow> string) \<Rightarrow> real \<Rightarrow> file_object \<Rightarrow> analysis_status \<Rightarrow> analysis_status outcome" where
  "remove_from_current_analyses sha now fo st =
     (if running_lock st then Blocked
      else Done (fold (remove_from_parent sha now fo) (find_currently_analyzed_parents sha fo st) st))"

definition clear_recently_finished :: "real \<Rightarrow> analysis_status \<Rightarrow> analysis_status outcome" where
  "clear_recently_finished now st =
     (if running_lock st then Blocked
      else Done (st\<lparr>recently_finished :=
        filter (\<lambda>(uid, stats). \<not> now - time_finished stats > RECENTLY_FINISHED_DISPLAY_TIME_IN_SEC)
          (recently_finished st)\<rparr>))"

definition get_current_analyses_stats :: "analysis_status \<Rightarrow> (uid, int \<times> int \<times> real \<times> int \<times> string) dict" where
  "get_current_analyses_stats st =
     map (\<lambda>(u, d). (u, (unpacked_files_count d, analyzed_files_count d, start_time d, total_files_count d, st_hid d)))
       (currently_running st)"

section \<open>The invariant\<close>

text \<open>
  For every running firmware: no file is pending twice, the counters are those of the
  lists, and something is still pending.
\<close>

definition fw_status_ok :: "fw_status \<Rightarrow> bool" where
  "fw_status_ok d \<longleftrightarrow>
     distinct (files_to_unpack d) \<and> distinct (files_to_analyze d) \<and>
     set (files_to_unpack d) \<inter> set (files_to_analyze d) = {} \<and>
     total_files_count d = unpacked_files_count d + int (length (files_to_unpack d)) \<and>
     unpacked_files_count d = analyzed_files_count d + int (length (files_to_analyze d)) \<and>
     0 \<le> analyzed_files_count d \<and> (files_to_unpack d \<noteq> [] \<or> files_to_analyze d \<noteq> [])"

definition status_inv :: "analysis_status \<Rightarrow> bool" where
  "status_inv st \<longleftrightarrow> dict_ok (currently_running st) \<and> dict_ok (recently_finished st) \<and>
     (\<forall>p d. map_of (currently_running st) p = Some d \<longrightarrow> fw_status_ok d)"

lemma status_inv_put:
  "status_inv st \<Longrightarrow> fw_status_ok d \<Longrightarrow> status_inv (st\<lparr>currently_running := dput p d (currently_running st)\<rparr>)"
  by (auto simp: status_inv_def)

lemma status_inv_del:
  "status_inv st \<Longrightarrow> status_inv (st\<lparr>recently_finished := dput p r (recently_finished st),
     currently_running := ddel p (currently_running st)\<rparr>)"
  by (auto simp: status_inv_def split: if_splits)

lemma update_parent_ok:
  assumes "fw_status_ok d"
  shows "fw_status_ok (update_parent sha fo d)"
proof -
  let ?new = "set_minus (py_set (files_included fo)) (set_union (files_to_unpack d) (files_to_analyze d))"
  let ?U = "set_union (files_to_unpack d) ?new" and ?u = "get_uid sha fo"
  have dU: "distinct (files_to_unpack d)" "distinct (files_to_analyze d)"
    and disj: "set (files_to_unpack d) \<inter> set (files_to_analyze d) = {}"
    using assms by (auto simp: fw_status_ok_def)
  have "distinct (files_to_unpack d @ ?new)" using dU by auto
  then have len: "length ?U = length (files_to_unpack d) + length ?new"
    by (metis length_append py_set_distinct set_union_def)
  have un: "set ?U \<inter> set (files_to_analyze d) = {}" using disj by auto
  show ?thesis
  proof (cases "?u \<in> set ?U")
    case True
    have l: "length ?U = Suc (length (remove1 ?u ?U))" using True by (rule length_remove1_mem)
    let ?d = "update_parent sha fo d"
    have fields: "files_to_unpack ?d = remove1 ?u ?U" "files_to_analyze ?d = files_to_analyze d @ [?u]"
      "unpacked_files_count ?d = unpacked_files_count d + 1"
      "analyzed_files_count ?d = analyzed_files_count d"
      "total_files_count ?d = total_files_count d + int (length ?new)"
      using True by (simp_all add: update_parent_def Let_def)
    have sets: "set (remove1 ?u ?U) = set ?U - {?u}" by (rule set_remove1_eq) simp
    have "?u \<notin> set (files_to_analyze d)" using True un by auto
    moreover have "total_files_count d = unpacked_files_count d + int (length (files_to_unpack d))"
      "unpacked_files_count d = analyzed_files_count d + int (length (files_to_analyze d))"
      "0 \<le> analyzed_files_count d" using assms by (simp_all add: fw_status_ok_def)
    moreover have "(set ?U - {?u}) \<inter> set (files_to_analyze d) = {}" using un by blast
    ultimately show ?thesis
      using len l dU unfolding fw_status_ok_def fields sets by simp
  next
    case False
    have "?U = [] \<Longrightarrow> files_to_unpack d = []" using len by auto
    with False show ?thesis using assms len un dU
      by (auto simp: fw_status_ok_def update_parent_def Let_def)
  qed
qed

lemma update_running_inv:
  assumes "\<And>d. fw_status_ok d \<Longrightarrow> fw_status_ok (f d)" and "status_inv st"
  shows "status_inv (update_running f p st)"
proof (cases "map_of (currently_running st) p")
  case None
  with assms(2) show ?thesis by (simp add: update_running_def)
next
  case (Some d)
  with assms have "fw_status_ok (f d)" by (auto simp: status_inv_def)
  with assms(2) Some show ?thesis by (simp add: update_running_def status_inv_put)
qed

lemma fold_inv: "(\<And>x s. P s \<Longrightarrow> P (f x s)) \<Longrightarrow> P s \<Longrightarrow> P (fold f xs s)"
  by (induction xs arbitrary: s) auto

lemma update_current_analysis_inv: "status_inv st \<Longrightarrow> status_inv (update_current_analysis sha fo st)"
  unfolding update_current_analysis_def
  by (rule fold_inv[where P = status_inv]) (auto intro: update_running_inv update_parent_ok)

text \<open>A file that can be added: it does not contain itself.\<close>

definition included_ok :: "uid \<Rightarrow> uid list \<Rightarrow> bool" where
  "included_ok u files \<longleftrightarrow> distinct files \<and> u \<notin> set files"

lemma init_current_analysis_ok:
  "included_ok (get_uid sha fo) (files_included fo) \<Longrightarrow> fw_status_ok (init_current_analysis sha now d fo)"
  by (simp add: fw_status_ok_def init_current_analysis_def included_ok_def)

lemma add_to_current_analyses_inv:
  assumes "add_to_current_analyses sha now fo st = Done st'" and "status_inv st"
    and "included_ok (get_uid sha fo) (files_included fo)"
  shows "status_inv st'"
proof (cases "fw fo")
  case None
  with assms show ?thesis
    by (auto simp: add_to_current_analyses_def update_current_analysis_inv split: if_splits)
next
  case (Some d)
  with assms show ?thesis
    by (auto simp: add_to_current_analyses_def intro!: status_inv_put init_current_analysis_ok split: if_splits)
qed

lemma running_entry_counts:
  assumes "fw_status_ok d" "included_ok u fs" "analyzed_files_count d = 0"
  shows "fw_status_ok (d\<lparr>files_to_unpack := [], unpacked_files_count := int (length fs) + 1,
      total_files_count := int (length fs) + 1, files_to_analyze := u # fs\<rparr>)"
  using assms by (auto simp: fw_status_ok_def included_ok_def)

lemma add_update_inv:
  assumes "add_update_to_current_analyses sha now fo fs st = Done st'" and "status_inv st"
    and "included_ok (get_uid sha fo) (files_included fo)" and "included_ok (get_uid sha fo) fs"
    and "is_firmware fo"
  shows "status_inv st'"
proof -
  from assms(5) obtain fd where fd: "fw fo = Some fd" by (auto simp: is_firmware_def)
  let ?d = "init_current_analysis sha now fd fo" and ?u = "get_uid sha fo"
  have unlocked: "\<not> running_lock st"
    using assms(1) by (auto simp: add_update_to_current_analyses_def add_to_current_analyses_def)
  let ?st1 = "st\<lparr>currently_running := dput ?u ?d (currently_running st)\<rparr>"
  have inv1: "status_inv ?st1"
    using assms(2,3) by (intro status_inv_put init_current_analysis_ok)
  have ok: "fw_status_ok (?d\<lparr>files_to_unpack := [], unpacked_files_count := int (length fs) + 1,
      total_files_count := int (length fs) + 1, files_to_analyze := ?u # fs\<rparr>)"
    using assms(3,4) by (intro running_entry_counts init_current_analysis_ok)
       (auto simp: init_current_analysis_def)
  show ?thesis
    using assms(1) status_inv_put[OF inv1 ok, of ?u] unlocked fd
    by (auto simp: add_update_to_current_analyses_def add_to_current_analyses_def Let_def)
qed

lemma remove_entry_ok:
  assumes "fw_status_ok d" and "u \<in> set (files_to_analyze d)"
    and "d1 = d\<lparr>files_to_analyze := set_minus (py_set (files_to_analyze d)) [u],
                analyzed_files_count := analyzed_files_count d + 1\<rparr>"
    and "\<not> (files_to_unpack d1 = [] \<and> files_to_analyze d1 = [])"
  shows "fw_status_ok d1"
proof -
  have d: "distinct (files_to_analyze d)" using assms(1) by (simp add: fw_status_ok_def)
  have "set_minus (py_set (files_to_analyze d)) [u] = remove1 u (files_to_analyze d)"
    using d by (simp add: set_minus_def distinct_remove1_removeAll removeAll_filter_not_eq)
       (metis (mono_tags, lifting) filter_cong)
  moreover have "int (length (files_to_analyze d)) = 1 + int (length (remove1 u (files_to_analyze d)))"
    using length_remove1_mem[OF assms(2)] by simp
  ultimately show ?thesis
    using assms d by (auto simp: fw_status_ok_def dest: notin_set_remove1)
qed

lemma remove_from_parent_inv: "status_inv st \<Longrightarrow> status_inv (remove_from_parent sha now fo p st)"
proof (cases "map_of (currently_running st) p")
  case None
  then show "status_inv st \<Longrightarrow> ?thesis" by (simp add: remove_from_parent_def)
next
  case (Some d)
  assume inv: "status_inv st"
  with Some have ok: "fw_status_ok d" by (auto simp: status_inv_def)
  let ?u = "get_uid sha fo"
  let ?d1 = "d\<lparr>files_to_analyze := set_minus (py_set (files_to_analyze d)) [?u],
               analyzed_files_count := analyzed_files_count d + 1\<rparr>"
  show ?thesis
  proof (cases "?u \<in> set (files_to_analyze d) \<and> \<not> (files_to_unpack ?d1 = [] \<and> files_to_analyze ?d1 = [])")
    case True
    then have "fw_status_ok ?d1" using remove_entry_ok[OF ok _ refl] by blast
    with True Some inv show ?thesis
      by (auto simp: remove_from_parent_def Let_def intro: status_inv_put)
  next
    case False
    with Some inv show ?thesis
      by (auto simp: remove_from_parent_def Let_def intro: status_inv_del)
  qed
qed

lemma remove_from_current_analyses_inv:
  "remove_from_current_analyses sha now fo st = Done st' \<Longrightarrow> status_inv st \<Longrightarrow> status_inv st'"
  by (auto simp: remove_from_current_analyses_def intro!: fold_inv[where P = status_inv]
      remove_from_parent_inv split: if_splits)

lemma clear_recently_finished_inv:
  "clear_recently_finished now st = Done st' \<Longrightarrow> status_inv st \<Longrightarrow> status_inv st'"
  by (auto simp: clear_recently_finished_def status_inv_def dict_ok_filter split: if_splits)

section \<open>Runs of the component\<close>

datatype status_event =
    AddFile file_object | AddUpdate file_object "uid list" | RemoveFile file_object | ClearFinished

definition status_step :: "(bytes \<Rightarrow> string) \<Rightarrow> real \<times> status_event \<Rightarrow> analysis_status \<Rightarrow> analysis_status" where
  "status_step sha e st =
     (case (case e of
          (now, AddFile fo) \<Rightarrow> add_to_current_analyses sha now fo st
        | (now, AddUpdate fo fs) \<Rightarrow> add_update_to_current_analyses sha now fo fs st
        | (now, RemoveFile fo) \<Rightarrow> remove_from_current_analyses sha now fo st
        | (now, ClearFinished) \<Rightarrow> clear_recently_finished now st) of
        Done st' \<Rightarrow> st' | Raised err st' \<Rightarrow> st' | Blocked \<Rightarrow> st)"

text \<open>The events of normal operation: files do not contain themselves, updates are of firmware.\<close>

definition status_ok :: "(bytes \<Rightarrow> string) \<Rightarrow> real \<times> status_event \<Rightarrow> analysis_status \<Rightarrow> bool" where
  "status_ok sha e st \<longleftrightarrow> (case snd e of
      AddFile fo \<Rightarrow> included_ok (get_uid sha fo) (files_included fo)
    | AddUpdate fo fs \<Rightarrow> is_firmware fo \<and> included_ok (get_uid sha fo) (files_included fo) \<and> included_ok (get_uid sha fo) fs
    | _ \<Rightarrow> True)"

definition status_good :: "analysis_status \<Rightarrow> bool" where
  "status_good st \<longleftrightarrow> status_inv st \<and> \<not> running_lock st"

lemma running_lock_fold:
  "running_lock (fold (update_running f) ps st) = running_lock st"
  "running_lock (fold (remove_from_parent sha now fo) ps st) = running_lock st"
  by (induction ps arbitrary: st)
     (auto simp: update_running_def remove_from_parent_def Let_def split: option.splits if_splits)

lemma status_step_good:
  assumes "status_good st" and "status_ok sha e st"
  shows "status_good (status_step sha e st)"
proof -
  obtain now ev where e: "e = (now, ev)" by force
  have inv: "status_inv st" and unlocked: "\<not> running_lock st" using assms by (auto simp: status_good_def)
  show ?thesis
  proof (cases ev)
    case (AddFile fo)
    then obtain st' where st': "add_to_current_analyses sha now fo st = Done st'"
      using unlocked by (simp add: add_to_current_analyses_def)
    then have "\<not> running_lock st'" using unlocked
      by (auto simp: add_to_current_analyses_def update_current_analysis_def running_lock_fold split: option.splits)
    then show ?thesis
      using AddFile e st' add_to_current_analyses_inv[OF st' inv] assms(2)
      by (simp add: status_step_def status_good_def status_ok_def)
  next
    case (AddUpdate fo fs)
    then have fwo: "is_firmware fo" using assms(2) e by (simp add: status_ok_def)
    then obtain st' where st': "add_update_to_current_analyses sha now fo fs st = Done st'" "\<not> running_lock st'"
      using unlocked
      by (auto simp: add_update_to_current_analyses_def add_to_current_analyses_def is_firmware_def Let_def)
    then show ?thesis
      using AddUpdate e add_update_inv[OF st'(1) inv] assms(2)
      by (simp add: status_step_def status_good_def status_ok_def)
  next
    case (RemoveFile fo)
    then obtain st' where st': "remove_from_current_analyses sha now fo st = Done st'" "\<not> running_lock st'"
      using unlocked by (auto simp: remove_from_current_analyses_def running_lock_fold)
    then show ?thesis
      using RemoveFile e remove_from_current_analyses_inv[OF st'(1) inv]
      by (simp add: status_step_def status_good_def)
  next
    case ClearFinished
    then obtain st' where st': "clear_recently_finished now st = Done st'" "\<not> running_lock st'"
      using unlocked by (auto simp: clear_recently_finished_def)
    then show ?thesis
      using ClearFinished e clear_recently_finished_inv[OF st'(1) inv]
      by (simp add: status_step_def status_good_def)
  qed
qed

interpretation status_runs: component "status_step sha" "status_ok sha" status_good
  for sha
  by unfold_locales (rule status_step_good)

lemma status_run_good:
  assumes "\<forall>e \<in> set es. status_ok sha e init_status"
  shows "status_good (fold (status_step sha) es init_status)"
proof -
  have "status_ok sha e st = status_ok sha e init_status" for e st by (simp add: status_ok_def)
  then have "status_runs.run_ok sha es st" for st
    using assms by (induction es arbitrary: st) auto
  moreover have "status_good init_status" by (simp add: status_good_def status_inv_def init_status_def)
  ultimately show ?thesis by (metis status_runs.run_fold status_runs.run_inv)
qed

text \<open>Frame facts of the two loops over the parents.\<close>

lemma update_running_dom: "set (dkeys (currently_running (update_running f p st))) = set (dkeys (currently_running st))"
  by (auto simp: update_running_def dmem_iff [symmetric] dmem_def split: option.splits)

lemma update_current_analysis_dom:
  "set (dkeys (currently_running (update_current_analysis sha fo st))) = set (dkeys (currently_running st))"
  unfolding update_current_analysis_def
  by (rule fold_inv[where P = "\<lambda>s. set (dkeys (currently_running s)) = set (dkeys (currently_running st))"])
     (simp_all add: update_running_dom)

lemma remove_from_parent_other:
  "q \<noteq> p \<Longrightarrow> map_of (currently_running (remove_from_parent sha now fo p st)) q = map_of (currently_running st) q \<and>
   map_of (recently_finished (remove_from_parent sha now fo p st)) q = map_of (recently_finished st) q"
  by (auto simp: remove_from_parent_def Let_def split: option.splits)

lemma remove_fold_other:
  "q \<notin> set ps \<Longrightarrow>
   map_of (currently_running (fold (remove_from_parent sha now fo) ps st)) q = map_of (currently_running st) q \<and>
   map_of (recently_finished (fold (remove_from_parent sha now fo) ps st)) q = map_of (recently_finished st) q"
  by (induction ps arbitrary: st) (auto simp: remove_from_parent_other)

lemma remove_from_parent_cong:
  "map_of (currently_running st) p = map_of (currently_running st') p \<Longrightarrow>
   map_of (currently_running (remove_from_parent sha now fo p st)) p = map_of (currently_running (remove_from_parent sha now fo p st')) p \<and>
   (map_of (recently_finished st) p = map_of (recently_finished st') p \<longrightarrow>
    map_of (recently_finished (remove_from_parent sha now fo p st)) p = map_of (recently_finished (remove_from_parent sha now fo p st')) p)"
  by (auto simp: remove_from_parent_def Let_def split: option.splits)

lemma remove_fold_at:
  assumes "distinct ps" "p \<in> set ps"
  shows "map_of (currently_running (fold (remove_from_parent sha now fo) ps st)) p =
      map_of (currently_running (remove_from_parent sha now fo p st)) p \<and>
    map_of (recently_finished (fold (remove_from_parent sha now fo) ps st)) p =
      map_of (recently_finished (remove_from_parent sha now fo p st)) p"
  using assms
proof (induction ps arbitrary: st)
  case Nil
  then show ?case by simp
next
  case (Cons q ps)
  show ?case
  proof (cases "q = p")
    case True
    with Cons.prems show ?thesis by (simp add: remove_fold_other)
  next
    case False
    then have m: "map_of (currently_running (remove_from_parent sha now fo q st)) p = map_of (currently_running st) p"
      "map_of (recently_finished (remove_from_parent sha now fo q st)) p = map_of (recently_finished st) p"
      using remove_from_parent_other[of p q] by auto
    from Cons False remove_from_parent_cong[OF m(1), of sha now fo] m(2) show ?thesis by simp
  qed
qed

section \<open>Properties\<close>


definition ex_sha :: "bytes \<Rightarrow> string" where
  "ex_sha b = ''hash''"

definition ex_fw :: file_object where
  "ex_fw = (blank_fo (Some blank_firmware_data))\<lparr>fo_uid := Some ''fw'', files_included := [Some ''a'', Some ''b'']\<rparr>"

definition ex_child :: "string \<Rightarrow> file_object" where
  "ex_child u = (blank_fo None)\<lparr>fo_uid := Some u, parent_firmware_uids := [Some ''fw'']\<rparr>"

definition ex_events :: "(real \<times> status_event) list" where
  "ex_events = [(0, AddFile ex_fw), (1, AddFile (ex_child ''a'')), (2, RemoveFile ex_fw)]"

lemma ex_uids [simp]: "get_uid ex_sha ex_fw = Some ''fw''" "get_uid ex_sha (ex_child u) = Some u"
  by (simp_all add: get_uid_def ex_fw_def ex_child_def)

lemma ex_run:
  "map (\<lambda>(p, d). (p, files_to_unpack d, files_to_analyze d, analyzed_files_count d, total_files_count d))
     (currently_running (fold (status_step ex_sha) ex_events init_status)) =
    [(Some ''fw'', [Some ''b''], [Some ''a''], 1, 3)]"
  by code_simp


text \<open>C4: removing a pending file of a running firmware finishes the firmware exactly if nothing
  else is pending; then it is moved to the recently finished ones with the total as count, and
  every file of that total had been analysed. Otherwise its analysed count grows by one.\<close>

theorem status_remove_finishes:
  assumes "status_inv st" and "\<not> running_lock st" and "map_of (currently_running st) p = Some d"
    and "p \<in> set (find_currently_analyzed_parents sha fo st)"
    and "get_uid sha fo \<in> set (files_to_analyze d)"
  shows "\<exists>st'. remove_from_current_analyses sha now fo st = Done st' \<and>
    (if files_to_unpack d = [] \<and> files_to_analyze d = [get_uid sha fo]
     then map_of (currently_running st') p = None \<and>
          map_of (recently_finished st') p = Some (init_recently_finished now d) \<and>
          analyzed_files_count d + 1 = total_files_count d
     else \<exists>d'. map_of (currently_running st') p = Some d' \<and>
          analyzed_files_count d' = analyzed_files_count d + 1 \<and>
          total_files_count d' = total_files_count d \<and>
          set (files_to_analyze d') = set (files_to_analyze d) - {get_uid sha fo})"
proof -
  let ?ps = "find_currently_analyzed_parents sha fo st" and ?u = "get_uid sha fo"
  let ?st' = "fold (remove_from_parent sha now fo) ?ps st"
  have ok: "fw_status_ok d" and "dict_ok (currently_running st)"
    using assms(1,3) by (auto simp: status_inv_def)
  then have "distinct ?ps"
    by (simp add: find_currently_analyzed_parents_def Let_def set_inter_def dict_ok_def dkeys_def)
  note at = remove_fold_at[OF this assms(4), of sha now fo st]
  have "set_minus (py_set (files_to_analyze d)) [?u] = [] \<longleftrightarrow> files_to_analyze d = [?u]"
  proof
    assume "set_minus (py_set (files_to_analyze d)) [?u] = []"
    then have "set (files_to_analyze d) \<subseteq> {?u}" by (auto simp: set_minus_def filter_empty_conv)
    moreover have "distinct (files_to_analyze d)" using ok by (simp add: fw_status_ok_def)
    ultimately show "files_to_analyze d = [?u]" using assms(5)
      by (cases "files_to_analyze d" rule: remdups_adj.cases) auto
  qed (simp add: set_minus_def py_set_def)
  then have "if files_to_unpack d = [] \<and> files_to_analyze d = [?u]
     then map_of (currently_running ?st') p = None \<and>
          map_of (recently_finished ?st') p = Some (init_recently_finished now d) \<and>
          analyzed_files_count d + 1 = total_files_count d
     else \<exists>d'. map_of (currently_running ?st') p = Some d' \<and>
          analyzed_files_count d' = analyzed_files_count d + 1 \<and>
          total_files_count d' = total_files_count d \<and>
          set (files_to_analyze d') = set (files_to_analyze d) - {?u}"
    using at assms(3,5) ok
    by (auto simp: remove_from_parent_def Let_def init_recently_finished_def fw_status_ok_def)
  then show ?thesis using assms(2) by (simp add: remove_from_current_analyses_def)
qed

definition ex_last :: analysis_status where
  "ex_last = \<lparr>currently_running = [(Some ''fw'',
      \<lparr>files_to_unpack = [], files_to_analyze = [Some ''a''], start_time = 0, unpacked_files_count = 3,
       analyzed_files_count = 2, total_files_count = 3, st_hid = ''x''\<rparr>)],
      recently_finished = [], running_lock = False\<rparr>"

theorem status_remove_finishes_witness:
  "\<exists>st'. remove_from_current_analyses ex_sha 9 (ex_child ''a'') ex_last = Done st' \<and>
     map_of (currently_running st') (Some ''fw'') = None \<and>
     fin_total_files_count (the (map_of (recently_finished st') (Some ''fw''))) = 3"
proof -
  let ?d = "\<lparr>files_to_unpack = [], files_to_analyze = [Some ''a''], start_time = 0, unpacked_files_count = 3,
       analyzed_files_count = 2, total_files_count = 3, st_hid = ''x''\<rparr> :: fw_status"
  have 1: "status_inv ex_last" by (auto simp: status_inv_def fw_status_ok_def ex_last_def dict_ok_def split: if_splits)
  have 2: "\<not> running_lock ex_last" by (simp add: ex_last_def)
  have 3: "map_of (currently_running ex_last) (Some ''fw'') = Some ?d" by (simp add: ex_last_def)
  have 4: "Some ''fw'' \<in> set (find_currently_analyzed_parents ex_sha (ex_child ''a'') ex_last)"
    by (simp add: find_currently_analyzed_parents_def is_firmware_def ex_child_def blank_fo_def ex_last_def)
  have 5: "get_uid ex_sha (ex_child ''a'') \<in> set (files_to_analyze ?d)" by simp
  show ?thesis
    using status_remove_finishes[OF 1 2 3 4 5, of 9] by (auto simp: init_recently_finished_def)
qed

text \<open>registering the update of a file object that is not a running firmware raises KeyError
  with the lock held, after which every operation of the status module blocks forever.\<close>

theorem update_of_file_object_leaks_lock:
  assumes "fw fo = None" and "\<not> running_lock st"
    and "map_of (currently_running st) (get_uid sha fo) = None"
  shows "\<exists>st'. add_update_to_current_analyses sha now fo fs st = Raised KeyError st' \<and>
    (\<forall>now' fo'. add_to_current_analyses sha now' fo' st' = Blocked \<and>
                remove_from_current_analyses sha now' fo' st' = Blocked \<and>
                clear_recently_finished now' st' = Blocked)"
proof -
  let ?st1 = "update_current_analysis sha fo st"
  have "get_uid sha fo \<notin> set (dkeys (currently_running ?st1))"
    using assms(3) by (simp add: update_current_analysis_dom dmem_iff [symmetric] dmem_def)
  then have "map_of (currently_running ?st1) (get_uid sha fo) = None"
    by (simp add: dmem_iff [symmetric] dmem_def)
  with assms(1,2) show ?thesis
    by (simp add: add_update_to_current_analyses_def add_to_current_analyses_def
        remove_from_current_analyses_def clear_recently_finished_def Let_def)
qed

theorem update_of_file_object_leaks_lock_witness:
  "\<exists>st'. add_update_to_current_analyses ex_sha 1 (ex_child ''x'') [] ex_last = Raised KeyError st' \<and>
     add_to_current_analyses ex_sha 2 ex_fw st' = Blocked"
proof -
  have "fw (ex_child ''x'') = None" "\<not> running_lock ex_last"
    "map_of (currently_running ex_last) (get_uid ex_sha (ex_child ''x'')) = None"
    by (simp_all add: ex_last_def) (simp add: ex_child_def blank_fo_def)
  from update_of_file_object_leaks_lock[OF this, of 1 "[]"] show ?thesis by blast
qed

end
