(* ===== verification/DbSchema.thy ===== *)
theory DbSchema
  imports FileObj
begin

text \<open>
  The database of \<open>storage/schema.py\<close>: one table per mapped class, the association tables
  \<open>included_files\<close>, \<open>fw_files\<close> and \<open>compared_files\<close>, the cascades the relationships declare
  and the event that deletes file objects without a parent. A table is a dict from its
  primary key; a session that is rolled back leaves the database as it was, so an
  operation that fails returns the error only.
\<close>

section \<open>Tables\<close>

record analysis_entry =
  an_plugin_version :: pyval
  an_system_version :: pyval
  an_date :: pyval
  an_summary :: pyval
  an_tags :: pyval
  an_result :: analysis_result

record fo_entry =
  fe_sha256 :: "string option"
  fe_file_name :: "string option"
  fe_depth :: int
  fe_size :: "int option"
  fe_comments :: "pyval list"
  fe_virtual_file_paths :: vfp_dict
  fe_is_firmware :: bool

type_synonym date = "nat \<times> nat \<times> nat"

record fw_entry =
  we_submission_date :: real
  we_release_date :: date
  we_version :: "string option"
  we_vendor :: "string option"
  we_device_name :: "string option"
  we_device_class :: "string option"
  we_device_part :: string
  we_firmware_tags :: "string list"

record comparison_entry =
  ce_submission_date :: real
  ce_data :: pyval

record search_cache_entry =
  sc_query :: string
  sc_yara_rule :: string

record db =
  file_tbl :: "(uid, fo_entry) dict"
  included_tbl :: "(uid \<times> uid) list"
  fw_files_tbl :: "(uid \<times> uid) list"
  analysis_tbl :: "(uid \<times> string, analysis_entry) dict"
  firmware_tbl :: "(uid, fw_entry) dict"
  comparison_tbl :: "(string, comparison_entry) dict"
  compared_tbl :: "(string \<times> uid) list"
  stats_tbl :: "(string, pyval) dict"
  search_cache_tbl :: "(string, search_cache_entry) dict"
  template_tbl :: "(string, bytes) dict"

definition empty_db :: db where
  "empty_db = \<lparr>file_tbl = [], included_tbl = [], fw_files_tbl = [], analysis_tbl = [], firmware_tbl = [],
     comparison_tbl = [], compared_tbl = [], stats_tbl = [], search_cache_tbl = [], template_tbl = []\<rparr>"

section \<open>Relationships\<close>

definition get_included_uids :: "db \<Rightarrow> uid \<Rightarrow> uid list" where
  "get_included_uids d u = py_set (map snd (filter (\<lambda>(p, c). p = u) (included_tbl d)))"

definition get_parent_uids :: "db \<Rightarrow> uid \<Rightarrow> uid list" where
  "get_parent_uids d u = py_set (map fst (filter (\<lambda>(p, c). c = u) (included_tbl d)))"

definition root_firmware :: "db \<Rightarrow> uid \<Rightarrow> uid list" where
  "root_firmware d u = map fst (filter (\<lambda>(r, f). f = u) (fw_files_tbl d))"

definition all_included_files :: "db \<Rightarrow> uid \<Rightarrow> uid list" where
  "all_included_files d u = map snd (filter (\<lambda>(r, f). r = u) (fw_files_tbl d))"

definition analyses_of :: "db \<Rightarrow> uid \<Rightarrow> (string, analysis_entry) dict" where
  "analyses_of d u = map (\<lambda>((_, p), e). (p, e)) (filter (\<lambda>((u', _), _). u' = u) (analysis_tbl d))"

definition comparisons_of :: "db \<Rightarrow> uid \<Rightarrow> string list" where
  "comparisons_of d u = map fst (filter (\<lambda>(_, f). f = u) (compared_tbl d))"

section \<open>Deleting with the declared cascades\<close>

definition delete_comparison_row :: "string \<Rightarrow> db \<Rightarrow> db" where
  "delete_comparison_row cid d = d\<lparr>comparison_tbl := ddel cid (comparison_tbl d),
     compared_tbl := filter (\<lambda>(c, _). c \<noteq> cid) (compared_tbl d)\<rparr>"

definition delete_fo_row :: "uid \<Rightarrow> db \<Rightarrow> db" where
  "delete_fo_row u d = fold delete_comparison_row (comparisons_of d u)
     (d\<lparr>file_tbl := ddel u (file_tbl d),
        included_tbl := filter (\<lambda>(p, c). p \<noteq> u \<and> c \<noteq> u) (included_tbl d),
        fw_files_tbl := filter (\<lambda>(r, f). r \<noteq> u \<and> f \<noteq> u) (fw_files_tbl d),
        analysis_tbl := filter (\<lambda>((u', _), _). u' \<noteq> u) (analysis_tbl d),
        firmware_tbl := ddel u (firmware_tbl d)\<rparr>)"

definition orphans :: "db \<Rightarrow> uid list" where
  "orphans d = map fst (filter (\<lambda>(u, e). get_parent_uids d u = [] \<and> \<not> fe_is_firmware e) (file_tbl d))"

lemma delete_comparison_row_simps [simp]:
  "file_tbl (delete_comparison_row c d) = file_tbl d"
  "included_tbl (delete_comparison_row c d) = included_tbl d"
  "fw_files_tbl (delete_comparison_row c d) = fw_files_tbl d"
  "analysis_tbl (delete_comparison_row c d) = analysis_tbl d"
  "firmware_tbl (delete_comparison_row c d) = firmware_tbl d"
  by (simp_all add: delete_comparison_row_def)

lemma fold_delete_comparison_row_simps [simp]:
  "file_tbl (fold delete_comparison_row cs d) = file_tbl d"
  "included_tbl (fold delete_comparison_row cs d) = included_tbl d"
  "fw_files_tbl (fold delete_comparison_row cs d) = fw_files_tbl d"
  "analysis_tbl (fold delete_comparison_row cs d) = analysis_tbl d"
  "firmware_tbl (fold delete_comparison_row cs d) = firmware_tbl d"
  by (induction cs arbitrary: d) simp_all

lemma fold_delete_comparison_row_comparisons:
  "map_of (comparison_tbl (fold delete_comparison_row cs d)) k =
     (if k \<in> set cs then None else map_of (comparison_tbl d) k)"
  "compared_tbl (fold delete_comparison_row cs d) = filter (\<lambda>(c, _). c \<notin> set cs) (compared_tbl d)"
  by (induction cs arbitrary: d) (auto simp: delete_comparison_row_def intro!: filter_cong)

lemma dict_ok_fold_delete_comparison_row:
  "dict_ok (comparison_tbl d) \<Longrightarrow> dict_ok (comparison_tbl (fold delete_comparison_row cs d))"
  by (induction cs arbitrary: d) (simp_all add: delete_comparison_row_def)

lemma delete_fo_row_simps [simp]:
  "file_tbl (delete_fo_row u d) = ddel u (file_tbl d)"
  "included_tbl (delete_fo_row u d) = filter (\<lambda>(p, c). p \<noteq> u \<and> c \<noteq> u) (included_tbl d)"
  "fw_files_tbl (delete_fo_row u d) = filter (\<lambda>(r, f). r \<noteq> u \<and> f \<noteq> u) (fw_files_tbl d)"
  "analysis_tbl (delete_fo_row u d) = filter (\<lambda>((u', _), _). u' \<noteq> u) (analysis_tbl d)"
  "firmware_tbl (delete_fo_row u d) = ddel u (firmware_tbl d)"
  by (simp_all add: delete_fo_row_def)

lemma length_ddel_mem: "u \<in> set (dkeys d) \<Longrightarrow> length (ddel u d) < length d"
  by (induction d) (auto simp: dkeys_def length_delete_le le_imp_less_Suc)

lemma length_fold_delete_le: "length (file_tbl (fold delete_fo_row us d)) \<le> length (file_tbl d)"
proof (induction us arbitrary: d)
  case Nil
  then show ?case by simp
next
  case (Cons u us)
  have "length (file_tbl (delete_fo_row u d)) \<le> length (file_tbl d)"
    by (simp add: length_delete_le)
  with Cons.IH[of "delete_fo_row u d"] show ?case by simp
qed

lemma orphans_in_files: "set (orphans d) \<subseteq> set (dkeys (file_tbl d))"
  by (auto simp: orphans_def dkeys_def)

lemma length_delete_orphans: "orphans d \<noteq> [] \<Longrightarrow>
  length (file_tbl (fold delete_fo_row (orphans d) d)) < length (file_tbl d)"
proof -
  assume "orphans d \<noteq> []"
  then obtain u us where us: "orphans d = u # us" by (cases "orphans d") auto
  then have "u \<in> set (dkeys (file_tbl d))" using orphans_in_files[of d] by auto
  then have "length (file_tbl (delete_fo_row u d)) < length (file_tbl d)"
    by (simp add: length_ddel_mem)
  moreover have "length (file_tbl (fold delete_fo_row us (delete_fo_row u d))) \<le> length (file_tbl (delete_fo_row u d))"
    by (rule length_fold_delete_le)
  ultimately show ?thesis by (simp add: us)
qed

text \<open>
  The deletions the event requests are flushed in their turn and fire the event again,
  until no file object without a parent is left.
\<close>

function delete_file_orphans :: "db \<Rightarrow> db" where
  "delete_file_orphans d =
     (if orphans d = [] then d else delete_file_orphans (fold delete_fo_row (orphans d) d))"
  by pat_completeness auto
termination
  by (relation "measure (\<lambda>d. length (file_tbl d))") (auto intro: length_delete_orphans)

declare delete_file_orphans.simps [simp del]

text \<open>\<open>session.delete(entry)\<close> followed by the commit.\<close>

definition session_delete_fo :: "uid \<Rightarrow> db \<Rightarrow> db" where
  "session_delete_fo u d = delete_file_orphans (delete_fo_row u d)"

section \<open>Referential integrity\<close>

definition db_ok :: "db \<Rightarrow> bool" where
  "db_ok d \<longleftrightarrow>
     dict_ok (file_tbl d) \<and> dict_ok (analysis_tbl d) \<and> dict_ok (firmware_tbl d) \<and> dict_ok (comparison_tbl d)
   \<and> distinct (included_tbl d) \<and> distinct (fw_files_tbl d)
   \<and> (\<forall>(p, c) \<in> set (included_tbl d). dmem p (file_tbl d) \<and> dmem c (file_tbl d))
   \<and> (\<forall>(r, f) \<in> set (fw_files_tbl d). dmem r (file_tbl d) \<and> dmem f (file_tbl d))
   \<and> (\<forall>(u, p) \<in> set (dkeys (analysis_tbl d)). dmem u (file_tbl d))
   \<and> (\<forall>u \<in> set (dkeys (firmware_tbl d)). dmem u (file_tbl d))
   \<and> (\<forall>(c, f) \<in> set (compared_tbl d). dmem c (comparison_tbl d) \<and> dmem f (file_tbl d))"

lemma db_ok_empty: "db_ok empty_db"
  by (simp add: db_ok_def empty_db_def)

lemma dmem_ddel [simp]: "dmem k (ddel u d) \<longleftrightarrow> k \<noteq> u \<and> dmem k d"
  by (simp add: dmem_def)

lemma db_ok_delete_fo_row:
  assumes "db_ok d" shows "db_ok (delete_fo_row u d)"
proof -
  let ?d = "d\<lparr>file_tbl := ddel u (file_tbl d),
        included_tbl := filter (\<lambda>(p, c). p \<noteq> u \<and> c \<noteq> u) (included_tbl d),
        fw_files_tbl := filter (\<lambda>(r, f). r \<noteq> u \<and> f \<noteq> u) (fw_files_tbl d),
        analysis_tbl := filter (\<lambda>((u', _), _). u' \<noteq> u) (analysis_tbl d),
        firmware_tbl := ddel u (firmware_tbl d)\<rparr>"
  have cmp: "dict_ok (comparison_tbl (delete_fo_row u d))"
    unfolding delete_fo_row_def by (rule dict_ok_fold_delete_comparison_row) (use assms in \<open>simp add: db_ok_def\<close>)
  have "\<forall>(c, f) \<in> set (compared_tbl (delete_fo_row u d)).
      dmem c (comparison_tbl (delete_fo_row u d)) \<and> dmem f (file_tbl (delete_fo_row u d))"
  proof (rule ballI, clarify)
    fix c f assume "(c, f) \<in> set (compared_tbl (delete_fo_row u d))"
    then have cf: "(c, f) \<in> set (compared_tbl d)" "c \<notin> set (comparisons_of d u)"
      unfolding delete_fo_row_def by (auto simp: fold_delete_comparison_row_comparisons)
    then have "f \<noteq> u" by (auto simp: comparisons_of_def image_iff)
    moreover have "dmem c (comparison_tbl d)" "dmem f (file_tbl d)" using assms cf by (auto simp: db_ok_def)
    ultimately show "dmem c (comparison_tbl (delete_fo_row u d)) \<and> dmem f (file_tbl (delete_fo_row u d))"
      using cf(2) unfolding delete_fo_row_def by (simp add: dmem_def fold_delete_comparison_row_comparisons)
  qed
  moreover have "\<forall>(u', p) \<in> set (dkeys (analysis_tbl (delete_fo_row u d))). dmem u' (file_tbl (delete_fo_row u d))"
    using assms by (force simp: db_ok_def dkeys_def)
  moreover have "\<forall>u' \<in> set (dkeys (firmware_tbl (delete_fo_row u d))). dmem u' (file_tbl (delete_fo_row u d))"
    using assms by (simp add: db_ok_def)
  ultimately show ?thesis using assms cmp
    unfolding db_ok_def by auto
qed

lemma db_ok_fold_delete: "db_ok d \<Longrightarrow> db_ok (fold delete_fo_row us d)"
  by (induction us arbitrary: d) (auto intro: db_ok_delete_fo_row)

lemma db_ok_delete_file_orphans: "db_ok d \<Longrightarrow> db_ok (delete_file_orphans d)"
proof (induction d rule: delete_file_orphans.induct)
  case (1 d)
  then show ?case by (subst delete_file_orphans.simps) (simp add: db_ok_fold_delete)
qed

lemma orphans_delete_file_orphans: "orphans (delete_file_orphans d) = []"
proof (induction d rule: delete_file_orphans.induct)
  case (1 d)
  then show ?case by (subst delete_file_orphans.simps) simp
qed

lemma set_get_parent_uids [simp]: "set (get_parent_uids d u) = {p. (p, u) \<in> set (included_tbl d)}"
  by (force simp: get_parent_uids_def)

lemma set_get_included_uids [simp]: "set (get_included_uids d u) = {c. (u, c) \<in> set (included_tbl d)}"
  by (force simp: get_included_uids_def)

text \<open>A chain of files, each included in the one before it.\<close>

fun file_chain :: "db \<Rightarrow> uid list \<Rightarrow> bool" where
  "file_chain d [] = False"
| "file_chain d [u] = (dmem u (file_tbl d))"
| "file_chain d (u # v # us) = (dmem u (file_tbl d) \<and> (u, v) \<in> set (included_tbl d) \<and> file_chain d (v # us))"

lemma file_chain_mem: "file_chain d us \<Longrightarrow> u \<in> set us \<Longrightarrow> dmem u (file_tbl d)"
  by (induction d us rule: file_chain.induct) auto

text \<open>A chain from a firmware contains no orphan, and deleting other files keeps it.\<close>

lemma file_chain_no_orphan:
  assumes "dict_ok (file_tbl d)" and "file_chain d us" "us \<noteq> []"
    and "\<exists>e. map_of (file_tbl d) (hd us) = Some e \<and> fe_is_firmware e"
  shows "set us \<inter> set (orphans d) = {}"
proof -
  have hd: "hd us \<notin> set (orphans d)"
  proof
    assume "hd us \<in> set (orphans d)"
    then obtain e where "(hd us, e) \<in> set (file_tbl d)" "\<not> fe_is_firmware e"
      by (auto simp: orphans_def)
    then show False using assms(1,4) by (auto simp: dict_ok_def)
  qed
  have tl: "file_chain d vs \<Longrightarrow> \<forall>v \<in> set (tl vs). get_parent_uids d v \<noteq> []" for vs
  proof (induction d vs rule: file_chain.induct)
    case (3 d u v us)
    then have "u \<in> set (get_parent_uids d v)" by simp
    with 3 show ?case by (cases us) (auto simp del: set_get_parent_uids)
  qed simp_all
  have "v \<notin> set (orphans d)" if "v \<in> set (tl us)" for v
    using tl[OF assms(2)] that by (auto simp: orphans_def)
  with hd assms(3) show ?thesis by (cases us) auto
qed

lemma file_chain_delete_fo_row:
  "file_chain d us \<Longrightarrow> u \<notin> set us \<Longrightarrow> file_chain (delete_fo_row u d) us"
  by (induction d us rule: file_chain.induct) auto

lemma file_chain_fold_delete:
  "file_chain d us \<Longrightarrow> set us \<inter> set vs = {} \<Longrightarrow> file_chain (fold delete_fo_row vs d) us"
  by (induction vs arbitrary: d) (auto intro: file_chain_delete_fo_row)

lemma file_entry_fold_delete:
  "u \<notin> set vs \<Longrightarrow> map_of (file_tbl (fold delete_fo_row vs d)) u = map_of (file_tbl d) u"
  by (induction vs arbitrary: d) auto

lemma file_chain_delete_file_orphans:
  assumes "db_ok d" "file_chain d us" "map_of (file_tbl d) (hd us) = Some e" "fe_is_firmware e"
  shows "file_chain (delete_file_orphans d) us \<and>
    (\<forall>u \<in> set us. map_of (file_tbl (delete_file_orphans d)) u = map_of (file_tbl d) u)"
  using assms
proof (induction d rule: delete_file_orphans.induct)
  case (1 d)
  show ?case
  proof (cases "orphans d = []")
    case True
    with 1 show ?thesis by (subst (1 2) delete_file_orphans.simps) simp
  next
    case False
    let ?d = "fold delete_fo_row (orphans d) d"
    have ne: "us \<noteq> []" using 1 by auto
    have disj: "set us \<inter> set (orphans d) = {}"
      by (rule file_chain_no_orphan) (use 1 ne in \<open>auto simp: db_ok_def\<close>)
    have same: "map_of (file_tbl ?d) u = map_of (file_tbl d) u" if "u \<in> set us" for u
      by (rule file_entry_fold_delete) (use disj that in auto)
    have "hd us \<in> set us" using ne by simp
    from 1(1)[OF False db_ok_fold_delete[OF 1(2)] file_chain_fold_delete[OF 1(3) disj]] same[OF this] 1 same
    have "file_chain (delete_file_orphans ?d) us \<and>
        (\<forall>u \<in> set us. map_of (file_tbl (delete_file_orphans ?d)) u = map_of (file_tbl d) u)"
      by simp
    moreover have "delete_file_orphans d = delete_file_orphans ?d"
      using False by (subst delete_file_orphans.simps) simp
    ultimately show ?thesis by simp
  qed
qed

end
