(* ===== verification/EntryConversion.thy ===== *)
theory EntryConversion
  imports DbSchema
begin

text \<open>
  \<open>storage/entry_conversion.py\<close>: file objects and analysis results to and from database
  entries, and the removal of NUL characters, which PostgreSQL refuses in JSON. The clock
  is a parameter. The in-place mutation of nested results is modelled by returning the
  changed value.
\<close>

definition META_KEYS :: "string list" where
  "META_KEYS = [''tags'', ''summary'', ''analysis_date'', ''plugin_version'', ''system_version'', ''file_system_flag'']"

section \<open>Sanitizing\<close>

abbreviation NUL :: char where
  "NUL \<equiv> CHR 0x00"

definition remove_nul :: "string \<Rightarrow> string" where
  "remove_nul s = replace_char NUL [] s"

definition sanitize_key :: "string \<Rightarrow> analysis_result \<Rightarrow> analysis_result" where
  "sanitize_key key d =
     (if NUL \<in> set key then
        (case dget d key of None \<Rightarrow> d | Some v \<Rightarrow> dput (remove_nul key) v (ddel key d))
      else d)"

text \<open>
  \<open>sanitize\<close> runs over a snapshot of the items; the value of the snapshot is mutated in
  place, which shows in the dictionary when it still is the one stored there.
\<close>

fun sanitize_val :: "pyval \<Rightarrow> pyval"
  and sanitize_loop :: "(string \<times> pyval) list \<Rightarrow> analysis_result \<Rightarrow> analysis_result"
  and sanitize_elems :: "pyval list \<Rightarrow> pyval list" where
  "sanitize_val (PDict d) = PDict (sanitize_loop d d)"
| "sanitize_val (PList l) = PList (sanitize_elems l)"
| "sanitize_val v = v"
| "sanitize_loop [] d = d"
| "sanitize_loop ((key, v) # items) d =
     (let w = sanitize_val v in
      sanitize_loop items (sanitize_key key
       (case v of
          PStr s \<Rightarrow> if NUL \<in> set s then dput key (PStr (remove_nul s)) d else d
        | _ \<Rightarrow> if dget d key = Some v then dput key w d else d)))"
| "sanitize_elems [] = []"
| "sanitize_elems (e # es) =
     (case e of PDict d \<Rightarrow> PDict (sanitize_loop d d)
        | PStr s \<Rightarrow> PStr (if NUL \<in> set s then remove_nul s else s)
        | _ \<Rightarrow> e) # sanitize_elems es"

definition sanitize :: "analysis_result \<Rightarrow> analysis_result" where
  "sanitize d = sanitize_loop d d"

text \<open>\<open>_sanitize_list\<close> called on whatever the analysis stored as its summary.\<close>

definition sanitize_list :: "pyval \<Rightarrow> pyval result" where
  "sanitize_list v = (case v of
      PList l \<Rightarrow> Inr (PList (sanitize_elems l))
    | PStr s \<Rightarrow> if NUL \<in> set s then Inl TypeError else Inr v
    | PBytes b \<Rightarrow> Inr v
    | PSet l \<Rightarrow> if \<exists>e \<in> set l. (case e of PStr s \<Rightarrow> NUL \<in> set s | _ \<Rightarrow> False) then Inl TypeError else Inr v
    | PDict d \<Rightarrow> if \<exists>k \<in> set (dkeys d). NUL \<in> set k then Inl RuntimeError else Inr v
    | _ \<Rightarrow> Inl TypeError)"

definition get_analysis_without_meta :: "analysis_result \<Rightarrow> analysis_result" where
  "get_analysis_without_meta analysis_data =
     sanitize (filter (\<lambda>(key, value). key \<notin> set META_KEYS) analysis_data)"

section \<open>Entries from objects\<close>

definition py_get :: "analysis_result \<Rightarrow> string \<Rightarrow> pyval \<Rightarrow> pyval" where
  "py_get d k v = (case dget d k of None \<Rightarrow> v | Some w \<Rightarrow> w)"

definition create_analysis_entry :: "string \<times> analysis_result \<Rightarrow> (string \<times> analysis_entry) result" where
  "create_analysis_entry = (\<lambda>(plugin_name, analysis_data).
     bind_r (sanitize_list (py_get analysis_data ''summary'' (PList []))) (\<lambda>summary.
       Inr (plugin_name,
        \<lparr>an_plugin_version = py_get analysis_data ''plugin_version'' PNone,
         an_system_version = py_get analysis_data ''system_version'' PNone,
         an_date = py_get analysis_data ''analysis_date'' PNone,
         an_summary = summary,
         an_tags = py_get analysis_data ''tags'' PNone,
         an_result = get_analysis_without_meta analysis_data\<rparr>)))"

definition create_analysis_entries :: "file_object \<Rightarrow> (string, analysis_entry) dict result" where
  "create_analysis_entries fo = mapM_r create_analysis_entry (processed_analysis fo)"

definition create_file_object_entry :: "file_object \<Rightarrow> fo_entry" where
  "create_file_object_entry fo =
     \<lparr>fe_sha256 = sha256 fo, fe_file_name = file_name fo, fe_depth = depth fo, fe_size = fsize fo,
      fe_comments = comments fo, fe_virtual_file_paths = virtual_file_path fo,
      fe_is_firmware = is_firmware fo\<rparr>"

text \<open>\<open>datetime.strptime(s, '%Y-%m-%d')\<close>: four digits, then one or two for month and day.\<close>

definition days_in_month :: "nat \<Rightarrow> nat \<Rightarrow> nat" where
  "days_in_month y m =
     (if m = 2 then if y mod 4 = 0 \<and> (y mod 100 \<noteq> 0 \<or> y mod 400 = 0) then 29 else 28
      else if m \<in> {4, 6, 9, 11} then 30 else 31)"

definition parse_nat :: "string \<Rightarrow> nat option" where
  "parse_nat s = (if s \<noteq> [] \<and> list_all is_digit s
     then Some (foldl (\<lambda>n c. n * 10 + (of_char c - 48)) 0 s) else None)"

definition strptime_date :: "string \<Rightarrow> date option" where
  "strptime_date s = (case split_on (CHR ''-'') s of
      [y, m, d] \<Rightarrow>
        (case (parse_nat y, parse_nat m, parse_nat d) of
           (Some yn, Some mn, Some dn) \<Rightarrow>
             if length y = 4 \<and> length m \<le> 2 \<and> length d \<le> 2
                \<and> 1 \<le> yn \<and> 1 \<le> mn \<and> mn \<le> 12 \<and> 1 \<le> dn \<and> dn \<le> days_in_month yn mn
             then Some (yn, mn, dn) else None
         | _ \<Rightarrow> None)
    | _ \<Rightarrow> None)"

definition create_firmware_entry :: "real \<Rightarrow> firmware_data \<Rightarrow> fw_entry result" where
  "create_firmware_entry now d =
     (case release_date d of
        None \<Rightarrow> Inl TypeError
      | Some s \<Rightarrow> (case strptime_date s of
          None \<Rightarrow> Inl ValueError
        | Some dt \<Rightarrow> Inr \<lparr>we_submission_date = now, we_release_date = dt, we_version = fw_version d,
            we_vendor = vendor d, we_device_name = device_name d, we_device_class = device_class d,
            we_device_part = part d, we_firmware_tags = dkeys (fw_tags d)\<rparr>))"

section \<open>Objects from entries\<close>

text \<open>Python truth value; \<open>x or y\<close>.\<close>

fun py_truthy :: "pyval \<Rightarrow> bool" where
  "py_truthy PNone = False"
| "py_truthy (PBool b) = b"
| "py_truthy (PInt i) = (i \<noteq> 0)"
| "py_truthy (PFloat f) = (f \<noteq> 0)"
| "py_truthy (PStr s) = (s \<noteq> [])"
| "py_truthy (PBytes b) = (b \<noteq> [])"
| "py_truthy (PList l) = (l \<noteq> [])"
| "py_truthy (PSet l) = (l \<noteq> [])"
| "py_truthy (PDict d) = (d \<noteq> [])"

definition py_or :: "pyval \<Rightarrow> pyval \<Rightarrow> pyval" where
  "py_or x y = (if py_truthy x then x else y)"

definition analysis_entry_to_dict :: "analysis_entry \<Rightarrow> analysis_result" where
  "analysis_entry_to_dict e = dupdate
     [(''analysis_date'', an_date e), (''plugin_version'', an_plugin_version e),
      (''system_version'', an_system_version e),
      (''summary'', py_or (an_summary e) (PList [])), (''tags'', py_or (an_tags e) (PDict []))]
     (an_result e)"

definition collect_analysis_tags :: "(string, analysis_result) dict \<Rightarrow> (string, pyval) dict" where
  "collect_analysis_tags analysis_dict =
     concat (map (\<lambda>(plugin, plugin_data). case dget plugin_data ''tags'' of
        None \<Rightarrow> [] | Some t \<Rightarrow> [(plugin, t)]) analysis_dict)"

definition populate_fo_data ::
  "db \<Rightarrow> uid \<Rightarrow> fo_entry \<Rightarrow> file_object \<Rightarrow> string list option \<Rightarrow> uid list option \<Rightarrow> uid list option \<Rightarrow> file_object" where
  "populate_fo_data d u e fo analysis_filter included_files ps =
     (let pa = map (\<lambda>(p, a). (p, analysis_entry_to_dict a))
            (filter (\<lambda>(p, a). case analysis_filter of None \<Rightarrow> True | Some f \<Rightarrow> p \<in> set f) (analyses_of d u))
      in fo\<lparr>fo_uid := u, fsize := fe_size e, file_name := fe_file_name e,
            virtual_file_path := fe_virtual_file_paths e, processed_analysis := pa,
            analysis_tags := collect_analysis_tags pa, comments := fe_comments e,
            parents := (case ps of None \<Rightarrow> get_parent_uids d u | Some p \<Rightarrow> p),
            files_included := (case included_files of None \<Rightarrow> get_included_uids d u | Some f \<Rightarrow> f),
            parent_firmware_uids := py_set (dkeys (fe_virtual_file_paths e))\<rparr>)"

definition file_object_from_entry ::
  "db \<Rightarrow> uid \<Rightarrow> fo_entry \<Rightarrow> string list option \<Rightarrow> uid list option \<Rightarrow> uid list option \<Rightarrow> file_object" where
  "file_object_from_entry d u e analysis_filter included_files ps =
     populate_fo_data d u e (blank_fo None) analysis_filter included_files ps"

text \<open>The root object of a firmware row is the file object row with the same UID.\<close>

definition firmware_from_entry ::
  "db \<Rightarrow> uid \<Rightarrow> fw_entry \<Rightarrow> fo_entry \<Rightarrow> string list option \<Rightarrow> file_object" where
  "firmware_from_entry d u w e analysis_filter =
     (let fo = populate_fo_data d u e
            (update_root_id_and_virtual_path (\<lambda>_. []) (blank_fo (Some blank_firmware_data))) analysis_filter None None;
          (y, m, dd) = we_release_date w
      in fo\<lparr>fw := Some (blank_firmware_data
              \<lparr>device_name := we_device_name w, device_class := we_device_class w,
               release_date := Some (convert_time_to_str (DateObj y m dd)),
               vendor := we_vendor w, fw_version := we_version w, part := we_device_part w,
               fw_tags := map (\<lambda>t. (t, ''secondary'')) (we_firmware_tags w)\<rparr>)\<rparr>)"

section \<open>No NUL character is stored\<close>

fun nul_free :: "pyval \<Rightarrow> bool" where
  "nul_free (PStr s) = (NUL \<notin> set s)"
| "nul_free (PList l) = list_all nul_free l"
| "nul_free (PSet l) = list_all nul_free l"
| "nul_free (PDict d) = list_all (\<lambda>(k, v). NUL \<notin> set k \<and> nul_free v) d"
| "nul_free _ = True"

text \<open>
  JSON data in which no list is an element of a list: the shape the sanitizer handles.
\<close>

fun storable :: "pyval \<Rightarrow> bool" where
  "storable (PList l) = list_all (\<lambda>v. storable v \<and> (case v of PList _ \<Rightarrow> False | _ \<Rightarrow> True)) l"
| "storable (PSet l) = False"
| "storable (PDict d) = (dict_ok d \<and> list_all (\<lambda>(k, v). storable v) d)"
| "storable _ = True"

lemma set_remove_nul [simp]: "NUL \<notin> set (remove_nul s)"
  by (simp add: remove_nul_def set_replace_char)

lemma remove_nul_id [simp]: "NUL \<notin> set s \<Longrightarrow> remove_nul s = s"
  by (simp add: remove_nul_def replace_char_notin)

text \<open>Every entry of the accumulator is clean or an item of the snapshot still to come.\<close>

definition clean_entry :: "string \<times> pyval \<Rightarrow> bool" where
  "clean_entry = (\<lambda>(k, v). NUL \<notin> set k \<and> nul_free v)"

definition loop_inv :: "(string \<times> pyval) list \<Rightarrow> analysis_result \<Rightarrow> bool" where
  "loop_inv items d \<longleftrightarrow> dict_ok d \<and> (\<forall>k v. dget d k = Some v \<longrightarrow> clean_entry (k, v) \<or> (k, v) \<in> set items)"

definition sanitize_item :: "string \<Rightarrow> pyval \<Rightarrow> analysis_result \<Rightarrow> analysis_result" where
  "sanitize_item key v d = (case v of
          PStr s \<Rightarrow> if NUL \<in> set s then dput key (PStr (remove_nul s)) d else d
        | _ \<Rightarrow> if dget d key = Some v then dput key (sanitize_val v) d else d)"

lemma sanitize_loop_Cons:
  "sanitize_loop ((key, v) # items) d = sanitize_loop items (sanitize_key key (sanitize_item key v d))"
  by (simp add: sanitize_item_def Let_def)

lemma sanitize_item_inv:
  assumes "loop_inv ((k, v) # items) d" "nul_free (sanitize_val v) \<or> (\<exists>s. v = PStr s)" "k \<notin> fst ` set items"
  shows "dict_ok (sanitize_item k v d)"
    "dget (sanitize_item k v d) k = Some w \<Longrightarrow> nul_free w"
    "k' \<noteq> k \<Longrightarrow> dget (sanitize_item k v d) k' = Some w \<Longrightarrow> clean_entry (k', w) \<or> (k', w) \<in> set items"
proof -
  have old: "nul_free x \<or> x = v" if "dget d k = Some x" for x
    using assms(1,3) that by (force simp: loop_inv_def clean_entry_def)
  show "dict_ok (sanitize_item k v d)"
    using assms(1) by (auto simp: sanitize_item_def loop_inv_def split: pyval.splits)
  show "nul_free w" if "dget (sanitize_item k v d) k = Some w"
  proof (cases "\<exists>s. v = PStr s")
    case True
    then obtain s where s: "v = PStr s" by blast
    show ?thesis using that old[of w] s by (auto simp: sanitize_item_def split: if_splits)
  next
    case False
    then have "sanitize_item k v d = (if dget d k = Some v then dput k (sanitize_val v) d else d)"
      by (cases v) (auto simp: sanitize_item_def)
    with that old[of w] assms(2) False show ?thesis by (auto split: if_splits)
  qed
  show "clean_entry (k', w) \<or> (k', w) \<in> set items" if "k' \<noteq> k" "dget (sanitize_item k v d) k' = Some w"
  proof -
    have "dget d k' = Some w" using that by (auto simp: sanitize_item_def split: pyval.splits if_splits)
    then show ?thesis using assms(1) that(1) by (auto simp: loop_inv_def)
  qed
qed

lemma sanitize_step_inv:
  assumes "loop_inv ((k, v) # items) d" "nul_free (sanitize_val v) \<or> (\<exists>s. v = PStr s)" "k \<notin> fst ` set items"
  shows "loop_inv items (sanitize_key k (sanitize_item k v d))"
proof -
  let ?d = "sanitize_item k v d"
  note inv = sanitize_item_inv[OF assms]
  show ?thesis
  proof (cases "NUL \<in> set k \<and> dget ?d k \<noteq> None")
    case True
    then obtain w where w: "dget ?d k = Some w" by auto
    with True have eq: "sanitize_key k ?d = dput (remove_nul k) w (ddel k ?d)"
      by (simp add: sanitize_key_def)
    have "clean_entry (x, y) \<or> (x, y) \<in> set items" if "dget (sanitize_key k ?d) x = Some y" for x y
      using that eq inv(2)[OF w] inv(3)[of x y] by (auto simp: clean_entry_def split: if_splits)
    then show ?thesis using inv(1) eq by (auto simp: loop_inv_def)
  next
    case False
    then have eq: "sanitize_key k ?d = ?d" by (auto simp: sanitize_key_def split: option.splits)
    have "clean_entry (x, y) \<or> (x, y) \<in> set items" if "dget ?d x = Some y" for x y
      using that False inv(2)[of y] inv(3)[of x y] by (cases "x = k") (auto simp: clean_entry_def)
    then show ?thesis using inv(1) eq by (auto simp: loop_inv_def)
  qed
qed

lemma loop_inv_clean: "loop_inv [] d \<Longrightarrow> nul_free (PDict d)"
  by (auto simp: loop_inv_def list_all_iff clean_entry_def dict_ok_def)

lemma sanitize_clean:
  shows "storable v \<Longrightarrow> nul_free (sanitize_val v) \<or> (\<exists>s. v = PStr s)"
    and "dict_ok items \<Longrightarrow> list_all (\<lambda>(k, v). storable v) items \<Longrightarrow> loop_inv items d \<Longrightarrow>
      loop_inv [] (sanitize_loop items d)"
    and "list_all (\<lambda>v. storable v \<and> (case v of PList _ \<Rightarrow> False | _ \<Rightarrow> True)) es \<Longrightarrow>
      list_all nul_free (sanitize_elems es)"
proof (induction v and items d and es rule: sanitize_val_sanitize_loop_sanitize_elems.induct)
  case (1 d)
  then have "loop_inv [] (sanitize_loop d d)" by (simp add: loop_inv_def map_of_SomeD)
  then show ?case using loop_inv_clean by simp
next
  case (5 key v items d)
  have "loop_inv items (sanitize_key key (sanitize_item key v d))"
    by (rule sanitize_step_inv) (use 5 in \<open>auto simp: dict_ok_def\<close>)
  with 5 show ?case unfolding sanitize_loop_Cons
    by (simp add: sanitize_item_def dict_ok_def)
next
  case (7 e es)
  show ?case
  proof (cases e)
    case (PDict d)
    then have "loop_inv [] (sanitize_loop d d)" using 7 by (simp add: loop_inv_def map_of_SomeD)
    with 7 PDict show ?thesis using loop_inv_clean by simp
  qed (use 7 in auto)
qed auto

lemma update_same: "map_of d k = Some v \<Longrightarrow> AList.update k v d = d"
  by (induction d) auto

lemma storable_entries:
  "storable (PDict d) \<Longrightarrow> (k, v) \<in> set d \<Longrightarrow> storable v \<and> map_of d k = Some v"
  by (auto simp: dict_ok_def list_all_iff)

text \<open>Clean data is left as it is.\<close>

lemma sanitize_id:
  shows "storable v \<Longrightarrow> nul_free v \<Longrightarrow> sanitize_val v = v"
    and "list_all (\<lambda>(k, v). storable v) items \<Longrightarrow> list_all (\<lambda>(k, v). NUL \<notin> set k \<and> nul_free v) items \<Longrightarrow>
      \<forall>(k, v) \<in> set items. map_of d k = Some v \<Longrightarrow> sanitize_loop items d = d"
    and "list_all (\<lambda>v. storable v \<and> (case v of PList _ \<Rightarrow> False | _ \<Rightarrow> True)) es \<Longrightarrow> list_all nul_free es \<Longrightarrow>
      sanitize_elems es = es"
proof (induction v and items d and es rule: sanitize_val_sanitize_loop_sanitize_elems.induct)
  case (1 d)
  then have "\<forall>(k, v) \<in> set d. map_of d k = Some v" by (auto simp: dict_ok_def)
  with 1 show ?case by simp
next
  case (5 key v items d)
  have "sanitize_key key (sanitize_item key v d) = d"
    using 5 by (auto simp: sanitize_item_def sanitize_key_def update_same split: pyval.split)
  with 5 show ?case unfolding sanitize_loop_Cons by (simp add: sanitize_item_def)
next
  case (7 e es)
  show ?case
  proof (cases e)
    case (PDict d)
    then have "\<forall>(k, v) \<in> set d. map_of d k = Some v" using 7 by (auto simp: dict_ok_def)
    with 7 PDict show ?thesis by simp
  qed (use 7 in auto)
qed auto

lemma storable_filter: "storable (PDict d) \<Longrightarrow> storable (PDict (filter P d))"
  by (auto simp: list_all_iff)

lemma nul_free_filter: "nul_free (PDict d) \<Longrightarrow> nul_free (PDict (filter P d))"
  by (auto simp: list_all_iff)

lemma sanitize_dict_id: "storable (PDict d) \<Longrightarrow> nul_free (PDict d) \<Longrightarrow> sanitize d = d"
  using sanitize_id(1)[of "PDict d"] by (simp add: sanitize_def)

lemma sanitize_list_clean:
  "storable (PList l) \<Longrightarrow> sanitize_list (PList l) = Inr (PList l') \<Longrightarrow> list_all nul_free l'"
  using sanitize_clean(3)[of l] by (auto simp: sanitize_list_def)

text \<open>A list directly inside a list is skipped: its NUL characters are stored.\<close>

lemma sanitize_misses_nested_list:
  "sanitize [(''a'', PList [PList [PStr [NUL]]])] = [(''a'', PList [PList [PStr [NUL]]])]"
  by (simp add: sanitize_def sanitize_key_def Let_def)


definition ex_dirty :: analysis_result where
  "ex_dirty = [(''tags'', PDict []), (''a'' @ [NUL], PStr ([NUL] @ ''x'')),
     (''l'', PList [PStr (''y'' @ [NUL]), PDict [(''k'' @ [NUL], PInt 1)]])]"


text \<open>What is read back from the database for an analysis is what the plugin returned: every
  key apart from the meta keys, with date, plugin version and system version, and summary and tags
  with an empty default in place of a falsy value; the file_system_flag of the old result is lost.\<close>

theorem stored_analysis_roundtrip:
  assumes "storable (PDict r)" "nul_free (PDict r)" "create_analysis_entry (p, r) = Inr (p', e)"
  shows "p' = p \<and> dget (analysis_entry_to_dict e) k =
    (if k = ''file_system_flag'' then None
     else if k \<in> set [''analysis_date'', ''plugin_version'', ''system_version''] then Some (py_get r k PNone)
     else if k = ''summary'' then Some (py_or (py_get r k (PList [])) (PList []))
     else if k = ''tags'' then Some (py_or (py_get r k PNone) (PDict []))
     else dget r k)"
proof -
  let ?res = "filter (\<lambda>(k, v). k \<notin> set META_KEYS) r"
  have res: "get_analysis_without_meta r = ?res"
    unfolding get_analysis_without_meta_def
    by (rule sanitize_dict_id[OF storable_filter[OF assms(1)] nul_free_filter[OF assms(2)]])
  have ok: "dict_ok ?res" using assms(1) by simp
  have get: "map_of ?res k = (if k \<in> set META_KEYS then None else map_of r k)" for k
    by (induction r) auto
  have summ: "sanitize_list (py_get r ''summary'' (PList [])) = Inr s \<Longrightarrow>
      s = py_get r ''summary'' (PList [])" for s
  proof -
    assume s: "sanitize_list (py_get r ''summary'' (PList [])) = Inr s"
    show ?thesis
    proof (cases "py_get r ''summary'' (PList [])")
      case (PList l)
      then have "storable (PList l) \<and> nul_free (PList l)"
        using assms(1,2) by (auto simp: py_get_def list_all_iff split: option.splits dest!: map_of_SomeD)
      with s PList sanitize_id(3)[of l] show ?thesis by (simp add: sanitize_list_def)
    qed (use s in \<open>auto simp: sanitize_list_def split: if_splits\<close>)
  qed
  from assms(3) obtain s where s: "sanitize_list (py_get r ''summary'' (PList [])) = Inr s"
    by (auto simp: create_analysis_entry_def result_simps)
  with assms(3) summ[OF s] have e: "p' = p" "an_summary e = py_get r ''summary'' (PList [])"
      "an_result e = ?res" "an_plugin_version e = py_get r ''plugin_version'' PNone"
      "an_system_version e = py_get r ''system_version'' PNone"
      "an_date e = py_get r ''analysis_date'' PNone" "an_tags e = py_get r ''tags'' PNone"
    by (auto simp: create_analysis_entry_def res)
  have rd: "dget (analysis_entry_to_dict e) k = (case map_of ?res k of
      None \<Rightarrow> map_of [(''analysis_date'', an_date e), (''plugin_version'', an_plugin_version e),
        (''system_version'', an_system_version e), (''summary'', py_or (an_summary e) (PList [])),
        (''tags'', py_or (an_tags e) (PDict []))] k | Some v \<Rightarrow> Some v)" for k
    unfolding analysis_entry_to_dict_def by (simp only: e(3) dget_dupdate[OF ok])
  show ?thesis
    using e(1) unfolding rd get e by (simp add: META_KEYS_def split: option.split)
qed

definition ex_clean :: analysis_result where
  "ex_clean = [(''plugin_version'', PStr ''1.0''), (''summary'', PList [PStr ''s'']), (''file_system_flag'', PBool True),
     (''n'', PInt 3)]"

theorem stored_analysis_roundtrip_witness:
  "\<exists>e. create_analysis_entry (''p'', ex_clean) = Inr (''p'', e) \<and>
     dget (analysis_entry_to_dict e) ''n'' = Some (PInt 3) \<and>
     dget (analysis_entry_to_dict e) ''summary'' = Some (PList [PStr ''s''])"
proof -
  obtain p e where e: "create_analysis_entry (''p'', ex_clean) = Inr (p, e)"
    by (auto simp: create_analysis_entry_def ex_clean_def py_get_def sanitize_list_def)
  have ok: "storable (PDict ex_clean)" "nul_free (PDict ex_clean)" by code_simp+
  show ?thesis
    using stored_analysis_roundtrip[OF ok e, of "''n''"] stored_analysis_roundtrip[OF ok e, of "''summary''"] e
    by (auto simp: ex_clean_def py_get_def py_or_def)
qed

end
