(* ===== verification/BackendDb.thy ===== *)
theory BackendDb
  imports EntryConversion
begin

text \<open>
  \<open>storage/db_interface_backend.py\<close>: inserting and updating objects and analysis results.
  A transaction is a function of the database that returns the exception or the new
  database; an operation of several transactions returns the state reached together with
  the exception. What the database server refuses beyond the \<open>NOT NULL\<close> and key constraints
  of the schema (encodings, lengths, types) is the parameter \<open>reject\<close>, with the exception
  the session raises.
\<close>

type_synonym reject = "analysis_entry \<Rightarrow> py_error option"

type_synonym outcome_db = "unit result \<times> db"

definition exists_obj :: "db \<Rightarrow> uid \<Rightarrow> bool" where
  "exists_obj d u = (truthy_str u \<and> dmem u (file_tbl d))"

definition is_firmware_uid :: "db \<Rightarrow> uid \<Rightarrow> bool" where
  "is_firmware_uid d u = (truthy_str u \<and> dmem u (firmware_tbl d))"

section \<open>Inserting\<close>

text \<open>\<open>_update_entries\<close>: the UIDs to append to a relationship with the given members.\<close>

definition update_entries :: "db \<Rightarrow> uid list \<Rightarrow> uid list \<Rightarrow> uid list result" where
  "update_entries d db_column uid_list =
     (if uid_list \<noteq> [] \<and> \<not> (\<exists>u \<in> set uid_list. dmem u (file_tbl d)) then Inl DbInterfaceError
      else Inr (fold (\<lambda>u column. if dmem u (file_tbl d) \<and> u \<notin> set column then column @ [u] else column)
        uid_list db_column))"

definition set_root_firmware :: "uid \<Rightarrow> uid list \<Rightarrow> db \<Rightarrow> db" where
  "set_root_firmware u roots d = d\<lparr>fw_files_tbl :=
     filter (\<lambda>(r, f). f \<noteq> u) (fw_files_tbl d) @ map (\<lambda>r. (r, u)) roots\<rparr>"

definition set_parent_files :: "uid \<Rightarrow> uid list \<Rightarrow> db \<Rightarrow> db" where
  "set_parent_files u ps d = d\<lparr>included_tbl :=
     filter (\<lambda>(p, c). c \<noteq> u) (included_tbl d) @ map (\<lambda>p. (p, u)) ps\<rparr>"

definition update_parents :: "uid list \<Rightarrow> uid list \<Rightarrow> uid \<Rightarrow> db \<Rightarrow> db result" where
  "update_parents root_fw_uids parent_uids u d =
     bind_r (update_entries d (root_firmware d u) root_fw_uids) (\<lambda>rs.
     bind_r (update_entries d (get_parent_uids d u) parent_uids) (\<lambda>ps.
       Inr (set_parent_files u ps (set_root_firmware u rs d))))"

text \<open>The \<open>NOT NULL\<close> and key constraints of the rows of a new object.\<close>

definition fo_entry_valid :: "uid \<Rightarrow> fo_entry \<Rightarrow> bool" where
  "fo_entry_valid u e = (u \<noteq> None \<and> fe_sha256 e \<noteq> None \<and> fe_file_name e \<noteq> None \<and> fe_size e \<noteq> None)"

definition fw_entry_valid :: "fw_entry \<Rightarrow> bool" where
  "fw_entry_valid w = (we_version w \<noteq> None \<and> we_vendor w \<noteq> None \<and> we_device_name w \<noteq> None \<and> we_device_class w \<noteq> None)"

definition analysis_reject :: "reject \<Rightarrow> reject" where
  "analysis_reject reject a =
     (if an_plugin_version a = PNone \<or> an_date a = PNone then Some DbInterfaceError else reject a)"

definition commit_analyses :: "reject \<Rightarrow> uid \<Rightarrow> (string, analysis_entry) dict \<Rightarrow> db \<Rightarrow> db result" where
  "commit_analyses reject u as d =
     foldM_r (\<lambda>(p, a) d. case analysis_reject reject a of
        Some e \<Rightarrow> Inl e
      | None \<Rightarrow> Inr (d\<lparr>analysis_tbl := dput (u, p) a (analysis_tbl d)\<rparr>)) as d"

definition commit_fo_entry :: "uid \<Rightarrow> fo_entry \<Rightarrow> db \<Rightarrow> db result" where
  "commit_fo_entry u e d =
     (if fo_entry_valid u e \<and> \<not> dmem u (file_tbl d) then Inr (d\<lparr>file_tbl := dput u e (file_tbl d)\<rparr>)
      else Inl DbInterfaceError)"

definition insert_file_object :: "reject \<Rightarrow> uid \<Rightarrow> file_object \<Rightarrow> db \<Rightarrow> db result" where
  "insert_file_object reject u fo d =
     bind_r (update_entries d [] (parent_firmware_uids fo)) (\<lambda>rs.
     bind_r (update_entries d [] (parents fo)) (\<lambda>ps.
     bind_r (create_analysis_entries fo) (\<lambda>as.
     bind_r (commit_fo_entry u (create_file_object_entry fo) d) (\<lambda>d1.
       commit_analyses reject u as (set_parent_files u ps (set_root_firmware u rs d1))))))"

definition insert_firmware :: "reject \<Rightarrow> real \<Rightarrow> uid \<Rightarrow> file_object \<Rightarrow> firmware_data \<Rightarrow> db \<Rightarrow> db result" where
  "insert_firmware reject now u fo fwd d =
     bind_r (create_firmware_entry now fwd) (\<lambda>w.
     bind_r (create_analysis_entries fo) (\<lambda>as.
     bind_r (commit_fo_entry u (create_file_object_entry fo) d) (\<lambda>d1.
       if fw_entry_valid w \<and> \<not> dmem u (firmware_tbl d1) then
         commit_analyses reject u as (d1\<lparr>firmware_tbl := dput u w (firmware_tbl d1)\<rparr>)
       else Inl DbInterfaceError)))"

definition insert_object :: "reject \<Rightarrow> real \<Rightarrow> uid \<Rightarrow> file_object \<Rightarrow> db \<Rightarrow> db result" where
  "insert_object reject now u fo d = (case fw fo of
      Some fwd \<Rightarrow> insert_firmware reject now u fo fwd d
    | None \<Rightarrow> insert_file_object reject u fo d)"

section \<open>Updating\<close>

text \<open>
  The release date is handed over as a string, for the server to parse: \<open>to_date\<close>.
\<close>

definition update_firmware ::
  "(string option \<Rightarrow> date option) \<Rightarrow> uid \<Rightarrow> firmware_data \<Rightarrow> db \<Rightarrow> db result" where
  "update_firmware to_date u fwd d = (case map_of (firmware_tbl d) u of
      None \<Rightarrow> Inl AttributeError
    | Some w \<Rightarrow> (case to_date (release_date fwd) of
        None \<Rightarrow> Inl DbInterfaceError
      | Some dt \<Rightarrow>
          (let w' = w\<lparr>we_release_date := dt, we_version := fw_version fwd, we_vendor := vendor fwd,
                we_device_name := device_name fwd, we_device_class := device_class fwd,
                we_device_part := part fwd, we_firmware_tags := dkeys (fw_tags fwd)\<rparr>
           in if fw_entry_valid w' then Inr (d\<lparr>firmware_tbl := dput u w' (firmware_tbl d)\<rparr>)
              else Inl DbInterfaceError)))"

definition update_file_object :: "uid \<Rightarrow> file_object \<Rightarrow> db \<Rightarrow> db result" where
  "update_file_object u fo d = (case map_of (file_tbl d) u of
      None \<Rightarrow> Inl AttributeError
    | Some e \<Rightarrow>
        (let e' = e\<lparr>fe_file_name := file_name fo, fe_depth := depth fo, fe_size := fsize fo,
              fe_comments := comments fo,
              fe_virtual_file_paths := update_virtual_file_path (virtual_file_path fo) (fe_virtual_file_paths e),
              fe_is_firmware := is_firmware fo\<rparr>
         in bind_r (update_parents (parent_firmware_uids fo) (parents fo) u d) (\<lambda>d1.
              if fo_entry_valid u e' then Inr (d1\<lparr>file_tbl := dput u e' (file_tbl d1)\<rparr>)
              else Inl DbInterfaceError)))"

text \<open>Two transactions: the first stays committed when the second fails.\<close>

definition run_txn :: "(db \<Rightarrow> db result) \<Rightarrow> db \<Rightarrow> outcome_db" where
  "run_txn t d = (case t d of Inl e \<Rightarrow> (Inl e, d) | Inr d' \<Rightarrow> (Inr (), d'))"

definition update_object ::
  "(string option \<Rightarrow> date option) \<Rightarrow> uid \<Rightarrow> file_object \<Rightarrow> db \<Rightarrow> outcome_db" where
  "update_object to_date u fo d =
     (case (case fw fo of None \<Rightarrow> (Inr (), d) | Some fwd \<Rightarrow> run_txn (update_firmware to_date u fwd) d) of
        (Inl e, d1) \<Rightarrow> (Inl e, d1)
      | (Inr _, d1) \<Rightarrow> run_txn (update_file_object u fo) d1)"

definition add_object ::
  "(bytes \<Rightarrow> string) \<Rightarrow> reject \<Rightarrow> (string option \<Rightarrow> date option) \<Rightarrow> real \<Rightarrow> file_object \<Rightarrow> db \<Rightarrow> outcome_db" where
  "add_object sha reject to_date now fo d =
     (let u = get_uid sha fo in
      if exists_obj d u then update_object to_date u fo d
      else run_txn (insert_object reject now u fo) d)"

definition update_file_object_parents :: "uid \<Rightarrow> uid \<Rightarrow> uid \<Rightarrow> db \<Rightarrow> db result" where
  "update_file_object_parents file_uid rt parent_uid d =
     (if dmem file_uid (file_tbl d) then update_parents [rt] [parent_uid] file_uid d else Inl AttributeError)"

section \<open>Analysis results\<close>

definition analysis_exists :: "db \<Rightarrow> uid \<Rightarrow> string \<Rightarrow> bool" where
  "analysis_exists d u p = (truthy_str u \<and> dmem (u, p) (analysis_tbl d))"

definition insert_analysis :: "reject \<Rightarrow> uid \<Rightarrow> string \<Rightarrow> analysis_result \<Rightarrow> db \<Rightarrow> db result" where
  "insert_analysis reject u p analysis_dict d =
     (if \<not> dmem u (file_tbl d) then Inl DbInterfaceError
      else if \<exists>item \<in> set [''plugin_version'', ''analysis_date'']. \<not> dmem item analysis_dict then Inl DbInterfaceError
      else commit_analyses reject u [(p,
        \<lparr>an_plugin_version = py_get analysis_dict ''plugin_version'' PNone,
         an_system_version = py_get analysis_dict ''system_version'' PNone,
         an_date = py_get analysis_dict ''analysis_date'' PNone,
         an_summary = py_get analysis_dict ''summary'' PNone,
         an_tags = py_get analysis_dict ''tags'' PNone,
         an_result = get_analysis_without_meta analysis_dict\<rparr>)] d)"

text \<open>\<open>update_analysis\<close> assigns every column but the system version.\<close>

definition update_analysis :: "reject \<Rightarrow> uid \<Rightarrow> string \<Rightarrow> analysis_result \<Rightarrow> db \<Rightarrow> db result" where
  "update_analysis reject u p analysis_data d = (case map_of (analysis_tbl d) (u, p) of
      None \<Rightarrow> Inl AttributeError
    | Some e \<Rightarrow>
        bind_r (dlookup analysis_data ''plugin_version'') (\<lambda>pv.
        bind_r (dlookup analysis_data ''analysis_date'') (\<lambda>date.
          commit_analyses reject u [(p, e\<lparr>an_plugin_version := pv, an_date := date,
            an_summary := py_get analysis_data ''summary'' PNone,
            an_tags := py_get analysis_data ''tags'' PNone,
            an_result := get_analysis_without_meta analysis_data\<rparr>)] d)))"

text \<open>A \<open>DbInterfaceError\<close> is logged only; any other exception reaches the caller.\<close>

definition add_analysis :: "reject \<Rightarrow> uid \<Rightarrow> string \<Rightarrow> analysis_result \<Rightarrow> db \<Rightarrow> outcome_db" where
  "add_analysis reject u p analysis_dict d =
     (case (if analysis_exists d u p then update_analysis reject u p analysis_dict d
            else insert_analysis reject u p analysis_dict d) of
        Inr d' \<Rightarrow> (Inr (), d')
      | Inl DbInterfaceError \<Rightarrow> (Inr (), d)
      | Inl e \<Rightarrow> (Inl e, d))"

section \<open>Integrity\<close>

named_theorems txn_defs

lemmas insert_defs [txn_defs] = insert_object_def insert_firmware_def insert_file_object_def commit_fo_entry_def

lemma update_entries_result:
  "update_entries d cs us = Inr cs' \<Longrightarrow>
     set cs' = set cs \<union> {u \<in> set us. dmem u (file_tbl d)} \<and> (distinct cs \<longrightarrow> distinct cs')
     \<and> (us = [] \<or> (\<exists>u \<in> set us. u \<in> set cs'))"
proof -
  let ?f = "\<lambda>u column. if dmem u (file_tbl d) \<and> u \<notin> set column then column @ [u] else column"
  have *: "set (fold ?f us cs) = set cs \<union> {u \<in> set us. dmem u (file_tbl d)}
      \<and> (distinct cs \<longrightarrow> distinct (fold ?f us cs))" for cs
    by (induction us arbitrary: cs) auto
  assume "update_entries d cs us = Inr cs'"
  then have "cs' = fold ?f us cs" "us = [] \<or> (\<exists>u \<in> set us. dmem u (file_tbl d))"
    by (auto simp: update_entries_def split: if_splits)
  with *[of cs] show ?thesis by auto
qed

lemma update_entries_error:
  "update_entries d cs us = Inl e \<longleftrightarrow> e = DbInterfaceError \<and> us \<noteq> [] \<and> (\<forall>u \<in> set us. \<not> dmem u (file_tbl d))"
  by (auto simp: update_entries_def)

lemma set_relations [simp]:
  "file_tbl (set_root_firmware u rs d) = file_tbl d" "file_tbl (set_parent_files u ps d) = file_tbl d"
  "analysis_tbl (set_root_firmware u rs d) = analysis_tbl d" "analysis_tbl (set_parent_files u ps d) = analysis_tbl d"
  "firmware_tbl (set_root_firmware u rs d) = firmware_tbl d" "firmware_tbl (set_parent_files u ps d) = firmware_tbl d"
  "included_tbl (set_root_firmware u rs d) = included_tbl d" "fw_files_tbl (set_parent_files u ps d) = fw_files_tbl d"
  by (simp_all add: set_root_firmware_def set_parent_files_def)

lemma db_ok_set_root_firmware:
  "db_ok d \<Longrightarrow> dmem u (file_tbl d) \<Longrightarrow> distinct rs \<Longrightarrow> \<forall>r \<in> set rs. dmem r (file_tbl d) \<Longrightarrow>
   db_ok (set_root_firmware u rs d)"
  by (auto simp: db_ok_def set_root_firmware_def distinct_map inj_on_def)

lemma db_ok_set_parent_files:
  "db_ok d \<Longrightarrow> dmem u (file_tbl d) \<Longrightarrow> distinct ps \<Longrightarrow> \<forall>p \<in> set ps. dmem p (file_tbl d) \<Longrightarrow>
   db_ok (set_parent_files u ps d)"
  by (auto simp: db_ok_def set_parent_files_def distinct_map inj_on_def)

lemma db_ok_put_file:
  assumes "db_ok d" shows "db_ok (d\<lparr>file_tbl := dput u e (file_tbl d)\<rparr>)"
proof -
  have m: "dmem x (dput u e (file_tbl d))" if "dmem x (file_tbl d)" for x
    using that by (simp add: dmem_def)
  show ?thesis using assms by (auto simp: db_ok_def m)
qed

lemma db_ok_put_analysis:
  "db_ok d \<Longrightarrow> dmem u (file_tbl d) \<Longrightarrow> db_ok (d\<lparr>analysis_tbl := dput (u, p) a (analysis_tbl d)\<rparr>)"
  by (auto simp: db_ok_def)

lemma db_ok_put_firmware:
  "db_ok d \<Longrightarrow> dmem u (file_tbl d) \<Longrightarrow> db_ok (d\<lparr>firmware_tbl := dput u w (firmware_tbl d)\<rparr>)"
  by (auto simp: db_ok_def)

lemma commit_analyses_frame:
  assumes "commit_analyses reject u as d = Inr d'"
  shows "file_tbl d' = file_tbl d \<and> included_tbl d' = included_tbl d \<and> fw_files_tbl d' = fw_files_tbl d \<and>
    firmware_tbl d' = firmware_tbl d \<and> comparison_tbl d' = comparison_tbl d"
  using assms unfolding commit_analyses_def
  by (rule foldM_r_inv) (auto split: option.splits prod.splits)

lemma db_ok_commit_analyses:
  assumes "commit_analyses reject u as d = Inr d'" "db_ok d" "dmem u (file_tbl d)"
  shows "db_ok d'"
proof -
  have "db_ok d' \<and> dmem u (file_tbl d')"
    using assms(1)[unfolded commit_analyses_def] conjI[OF assms(2,3)]
    by (rule foldM_r_inv) (auto split: option.splits prod.splits intro: db_ok_put_analysis)
  then show ?thesis by simp
qed

lemma commit_analyses_get:
  assumes "commit_analyses reject u as d = Inr d'" "dict_ok as"
  shows "map_of (analysis_tbl d') (u', p) =
    (if u' = u \<and> p \<in> set (dkeys as) then map_of as p else map_of (analysis_tbl d) (u', p))"
  using assms
proof (induction as arbitrary: d)
  case Nil
  then show ?case by (simp add: commit_analyses_def)
next
  case (Cons pa as)
  obtain q a where pa: "pa = (q, a)" by force
  with Cons.prems have q: "q \<notin> set (dkeys as)" "dict_ok as" by (auto simp: dict_ok_def dkeys_def)
  from Cons.prems(1) pa have "commit_analyses reject u as (d\<lparr>analysis_tbl := dput (u, q) a (analysis_tbl d)\<rparr>) = Inr d'"
    by (auto simp: commit_analyses_def split: option.splits)
  from Cons.IH[OF this q(2)] q(1) show ?case by (auto simp: pa)
qed

lemma dmem_dput [simp]: "dmem k (dput u e d) \<longleftrightarrow> k = u \<or> dmem k d"
  by (auto simp: dmem_def)

lemma commit_fo_entry_result:
  "commit_fo_entry u e d = Inr d1 \<longleftrightarrow>
     fo_entry_valid u e \<and> \<not> dmem u (file_tbl d) \<and> d1 = d\<lparr>file_tbl := dput u e (file_tbl d)\<rparr>"
  by (auto simp: commit_fo_entry_def)

lemma db_ok_insert_object:
  assumes "insert_object reject now u fo d = Inr d'" "db_ok d"
  shows "db_ok d'"
proof (cases "fw fo")
  case None
  with assms(1) obtain rs ps as where
    rs: "update_entries d [] (parent_firmware_uids fo) = Inr rs" and
    ps: "update_entries d [] (parents fo) = Inr ps" and
    c: "commit_analyses reject u as (set_parent_files u ps (set_root_firmware u rs
      (d\<lparr>file_tbl := dput u (create_file_object_entry fo) (file_tbl d)\<rparr>))) = Inr d'"
    by (auto simp: insert_object_def insert_file_object_def result_simps commit_fo_entry_result)
  show ?thesis
    by (rule db_ok_commit_analyses[OF c])
       (use update_entries_result[OF rs] update_entries_result[OF ps] assms(2) in
         \<open>auto intro!: db_ok_set_parent_files db_ok_set_root_firmware db_ok_put_file\<close>)
next
  case (Some fwd)
  with assms(1) obtain w as where
    c: "commit_analyses reject u as (d\<lparr>file_tbl := dput u (create_file_object_entry fo) (file_tbl d),
      firmware_tbl := dput u w (firmware_tbl d)\<rparr>) = Inr d'"
    by (auto simp: insert_object_def insert_firmware_def result_simps commit_fo_entry_result split: if_splits)
  have "db_ok ((d\<lparr>file_tbl := dput u (create_file_object_entry fo) (file_tbl d)\<rparr>)\<lparr>firmware_tbl :=
      dput u w (firmware_tbl (d\<lparr>file_tbl := dput u (create_file_object_entry fo) (file_tbl d)\<rparr>))\<rparr>)"
    by (rule db_ok_put_firmware) (use assms(2) in \<open>auto intro: db_ok_put_file\<close>)
  then show ?thesis by (intro db_ok_commit_analyses[OF c]) simp_all
qed

lemma update_parents_result:
  assumes "update_parents rs ps u d = Inr d'"
  shows "file_tbl d' = file_tbl d \<and> analysis_tbl d' = analysis_tbl d \<and> firmware_tbl d' = firmware_tbl d
    \<and> set (fw_files_tbl d') = set (fw_files_tbl d) \<union> {(r, u) |r. r \<in> set rs \<and> dmem r (file_tbl d)}
    \<and> set (included_tbl d') = set (included_tbl d) \<union> {(p, u) |p. p \<in> set ps \<and> dmem p (file_tbl d)}"
proof -
  from assms obtain rs' ps' where
    r: "update_entries d (root_firmware d u) rs = Inr rs'" and p: "update_entries d (get_parent_uids d u) ps = Inr ps'"
    and d': "d' = set_parent_files u ps' (set_root_firmware u rs' d)"
    by (auto simp: update_parents_def result_simps)
  have sr: "set (root_firmware d u) = {r. (r, u) \<in> set (fw_files_tbl d)}"
    by (force simp: root_firmware_def)
  show ?thesis
    using update_entries_result[OF r] update_entries_result[OF p] d' sr
    by (auto simp: set_parent_files_def set_root_firmware_def)
qed

lemma distinct_root_firmware: "db_ok d \<Longrightarrow> distinct (root_firmware d u)"
  by (auto simp: db_ok_def root_firmware_def distinct_map inj_on_def)

lemma db_ok_update_parents:
  assumes "update_parents rs ps u d = Inr d'" "db_ok d" "dmem u (file_tbl d)"
  shows "db_ok d'"
proof -
  from assms(1) obtain rs' ps' where
    r: "update_entries d (root_firmware d u) rs = Inr rs'" and p: "update_entries d (get_parent_uids d u) ps = Inr ps'"
    and d': "d' = set_parent_files u ps' (set_root_firmware u rs' d)"
    by (auto simp: update_parents_def result_simps)
  have "\<forall>r \<in> set (root_firmware d u). dmem r (file_tbl d)" "\<forall>p \<in> set (get_parent_uids d u). dmem p (file_tbl d)"
    using assms(2) by (auto simp: db_ok_def root_firmware_def)
  with update_entries_result[OF r] update_entries_result[OF p] distinct_root_firmware[OF assms(2)] assms
  show ?thesis unfolding d'
    by (intro db_ok_set_parent_files db_ok_set_root_firmware) (auto simp: get_parent_uids_def)
qed

lemma db_ok_update_file_object:
  assumes "update_file_object u fo d = Inr d'" "db_ok d"
  shows "db_ok d'"
proof -
  from assms(1) obtain e e' d1 where "map_of (file_tbl d) u = Some e"
    and d1: "update_parents (parent_firmware_uids fo) (parents fo) u d = Inr d1"
    and d': "d' = d1\<lparr>file_tbl := dput u e' (file_tbl d1)\<rparr>"
    by (auto simp: update_file_object_def Let_def result_simps split: option.splits if_splits)
  then have "db_ok d1" using assms(2) by (intro db_ok_update_parents[OF d1]) (auto simp: dmem_def)
  then show ?thesis unfolding d' by (rule db_ok_put_file)
qed

lemma db_ok_update_firmware:
  assumes "update_firmware td u fwd d = Inr d'" "db_ok d"
  shows "db_ok d'"
proof -
  from assms(1) obtain w w' where "map_of (firmware_tbl d) u = Some w"
    and d': "d' = d\<lparr>firmware_tbl := dput u w' (firmware_tbl d)\<rparr>"
    by (auto simp: update_firmware_def Let_def split: option.splits if_splits)
  then have "u \<in> set (dkeys (firmware_tbl d))" by (force simp: dkeys_def dest: map_of_SomeD)
  then have "dmem u (file_tbl d)" using assms(2) by (simp add: db_ok_def)
  then show ?thesis unfolding d' using assms(2) by (intro db_ok_put_firmware)
qed

lemma db_ok_add_analysis:
  assumes "db_ok d" shows "db_ok (snd (add_analysis reject u p r d))"
proof -
  have ins: "db_ok d'" if "insert_analysis reject u p r d = Inr d'" for d'
    using that assms by (auto simp: insert_analysis_def split: if_splits intro: db_ok_commit_analyses)
  have upd: "db_ok d'" if up: "update_analysis reject u p r d = Inr d'" for d'
  proof -
    from up obtain e as where e: "map_of (analysis_tbl d) (u, p) = Some e"
      and c: "commit_analyses reject u as d = Inr d'"
      by (auto simp: update_analysis_def result_simps split: option.splits)
    from e have "(u, p) \<in> set (dkeys (analysis_tbl d))" by (force simp: dkeys_def dest: map_of_SomeD)
    with assms have "dmem u (file_tbl d)" by (auto simp: db_ok_def)
    with c assms show ?thesis by (auto intro: db_ok_commit_analyses)
  qed
  show ?thesis
    using assms ins upd by (auto simp: add_analysis_def split: sum.split py_error.split)
qed

lemma db_ok_add_object:
  assumes "db_ok d" shows "db_ok (snd (add_object sha reject td now fo d))"
proof -
  have "db_ok (snd (update_object td u fo d))" for u
    using assms db_ok_update_firmware db_ok_update_file_object
    by (auto simp: update_object_def run_txn_def split: option.split sum.split)
  moreover have "db_ok (snd (run_txn (insert_object reject now u fo) d))" for u
    using assms db_ok_insert_object by (auto simp: run_txn_def split: sum.split)
  ultimately show ?thesis by (simp add: add_object_def Let_def)
qed

section \<open>Properties\<close>

definition ex_fo :: "string \<Rightarrow> uid list \<Rightarrow> uid list \<Rightarrow> vfp_dict \<Rightarrow> file_object" where
  "ex_fo u roots ps vfp = (blank_fo None)\<lparr>fo_uid := Some u, sha256 := Some ''s'', fsize := Some 1,
     file_name := Some ''f'', parent_firmware_uids := roots, parents := ps, virtual_file_path := vfp\<rparr>"

definition ex_fwo :: "string \<Rightarrow> file_object" where
  "ex_fwo u = (blank_fo (Some (blank_firmware_data\<lparr>device_name := Some ''d'', fw_version := Some ''1'',
       device_class := Some ''c'', vendor := Some ''v'', release_date := Some ''2020-01-31''\<rparr>)))
     \<lparr>fo_uid := Some u, sha256 := Some ''s'', fsize := Some 1, file_name := Some ''f'',
      virtual_file_path := [(Some u, [u])]\<rparr>"

definition ex_insert :: "file_object list \<Rightarrow> db" where
  "ex_insert fos = fold (\<lambda>fo d. snd (add_object (\<lambda>_. []) (\<lambda>_. None) (\<lambda>_. None) 0 fo d)) fos empty_db"

definition ex_db :: db where
  "ex_db = ex_insert [ex_fwo ''A'', ex_fo ''B'' [Some ''A''] [Some ''A''] [(Some ''A'', [''A|/b''])]]"

lemma db_ok_ex_insert: "db_ok (ex_insert fos)"
proof -
  have "db_ok (fold (\<lambda>fo d. snd (add_object (\<lambda>_. []) (\<lambda>_. None) (\<lambda>_. None) 0 fo d)) fos d)" if "db_ok d" for d
    using that by (induction fos arbitrary: d) (auto intro: db_ok_add_object)
  then show ?thesis by (simp add: ex_insert_def db_ok_empty)
qed

lemma db_ok_ex_db: "db_ok ex_db"
  unfolding ex_db_def by (rule db_ok_ex_insert)

text \<open>A file that is stored as part of some firmware and is then uploaded as a firmware of its own
  is never registered: add_object takes the update path, finds no firmware row, raises AttributeError
  and leaves the database unchanged.\<close>

theorem add_known_file_as_firmware_raises:
  assumes "fw fo = Some fwd" "dmem (get_uid sha fo) (file_tbl d)" "\<not> dmem (get_uid sha fo) (firmware_tbl d)"
    "truthy_str (get_uid sha fo)"
  shows "add_object sha reject td now fo d = (Inl AttributeError, d)"
  using assms by (simp add: add_object_def exists_obj_def update_object_def run_txn_def update_firmware_def dmem_def)

theorem add_known_file_as_firmware_raises_witness:
  "add_object (\<lambda>_. []) (\<lambda>_. None) (\<lambda>_. None) 0 (ex_fwo ''B'') ex_db = (Inl AttributeError, ex_db)
   \<and> dmem (Some ''B'') (file_tbl ex_db)"
proof -
  have ex: "dmem (Some ''B'') (file_tbl ex_db)" "\<not> dmem (Some ''B'') (firmware_tbl ex_db)" by code_simp+
  with add_known_file_as_firmware_raises[of "ex_fwo ''B''" _ "\<lambda>_. []" ex_db]
  show ?thesis by (simp add: ex_fwo_def blank_fo_def)
qed

text \<open>C8: An extracted file none of whose recorded parents or root firmware is in the database is
  refused with DbInterfaceError and nothing of it is stored, so no file object without a container
  enters the database; one known root and one known parent are enough for it to be stored, with
  exactly the known ones as its relations.\<close>

theorem insert_file_object_needs_parent:
  assumes "fw fo = None" "\<not> dmem (get_uid sha fo) (file_tbl d)" "parents fo \<noteq> []" "parent_firmware_uids fo \<noteq> []"
    "fo_entry_valid (get_uid sha fo) (create_file_object_entry fo)" "processed_analysis fo = []" "db_ok d"
  shows "if (\<forall>p \<in> set (parents fo). \<not> dmem p (file_tbl d)) \<or> (\<forall>r \<in> set (parent_firmware_uids fo). \<not> dmem r (file_tbl d))
    then add_object sha reject td now fo d = (Inl DbInterfaceError, d)
    else \<exists>d'. add_object sha reject td now fo d = (Inr (), d')
      \<and> set (get_parent_uids d' (get_uid sha fo)) = {p \<in> set (parents fo). dmem p (file_tbl d)}
      \<and> set (root_firmware d' (get_uid sha fo)) = {r \<in> set (parent_firmware_uids fo). dmem r (file_tbl d)}"
proof -
  let ?u = "get_uid sha fo"
  have add: "add_object sha reject td now fo d = run_txn (insert_file_object reject ?u fo) d"
    using assms by (simp add: add_object_def exists_obj_def insert_object_def run_txn_def)
  show ?thesis
  proof (cases "(\<forall>p \<in> set (parents fo). \<not> dmem p (file_tbl d)) \<or> (\<forall>r \<in> set (parent_firmware_uids fo). \<not> dmem r (file_tbl d))")
    case True
    then have "insert_file_object reject ?u fo d = Inl DbInterfaceError"
      using assms by (auto simp: insert_file_object_def bind_r_def update_entries_def split: sum.split)
    with add True show ?thesis by (simp add: run_txn_def)
  next
    case False
    then obtain rs ps where
      rs: "update_entries d [] (parent_firmware_uids fo) = Inr rs" and ps: "update_entries d [] (parents fo) = Inr ps"
      by (auto simp: update_entries_def)
    let ?d1 = "d\<lparr>file_tbl := dput ?u (create_file_object_entry fo) (file_tbl d)\<rparr>"
    have none: "(p, ?u) \<notin> set (included_tbl d)" "(p, ?u) \<notin> set (fw_files_tbl d)" for p
      using assms(2,7) by (auto simp: db_ok_def)
    have "insert_file_object reject ?u fo d = Inr (set_parent_files ?u ps (set_root_firmware ?u rs ?d1))"
      using assms rs ps
      by (simp add: insert_file_object_def commit_fo_entry_def create_analysis_entries_def commit_analyses_def)
    then have "add_object sha reject td now fo d = (Inr (), set_parent_files ?u ps (set_root_firmware ?u rs ?d1))"
      using add by (simp add: run_txn_def)
    then show ?thesis using False update_entries_result[OF rs] update_entries_result[OF ps] none
      by (auto simp: set_parent_files_def set_root_firmware_def root_firmware_def image_iff)
  qed
qed

theorem insert_file_object_needs_parent_witness:
  "\<exists>d'. add_object (\<lambda>_. []) (\<lambda>_. None) (\<lambda>_. None) 0
      (ex_fo ''C'' [Some ''A'', Some ''X''] [Some ''B'', Some ''Y''] [(Some ''A'', [''A|B|/c''])]) ex_db = (Inr (), d')
    \<and> set (get_parent_uids d' (Some ''C'')) = {Some ''B''}"
proof -
  let ?fo = "ex_fo ''C'' [Some ''A'', Some ''X''] [Some ''B'', Some ''Y''] [(Some ''A'', [''A|B|/c''])]"
  have u: "get_uid (\<lambda>_. []) ?fo = Some ''C''" by (simp add: ex_fo_def blank_fo_def)
  have files: "dmem (Some ''A'') (file_tbl ex_db)" "dmem (Some ''B'') (file_tbl ex_db)"
    "\<not> dmem (Some ''C'') (file_tbl ex_db)" "\<not> dmem (Some ''X'') (file_tbl ex_db)" "\<not> dmem (Some ''Y'') (file_tbl ex_db)"
    by code_simp+
  show ?thesis
    using insert_file_object_needs_parent[of ?fo "\<lambda>_. []" ex_db "\<lambda>_. None" "\<lambda>_. None" 0] db_ok_ex_db files
    unfolding u
    by (auto simp: ex_fo_def blank_fo_def fo_entry_valid_def create_file_object_entry_def)
qed



lemma add_analysis_store:
  assumes "db_ok d" "dmem u (file_tbl d)" "truthy_str u" "\<And>a. reject a = None"
    "dget r ''plugin_version'' = Some pv" "pv \<noteq> PNone" "dget r ''analysis_date'' = Some date" "date \<noteq> PNone"
  shows "\<exists>d' e. add_analysis reject u p r d = (Inr (), d') \<and> db_ok d' \<and>
    map_of (analysis_tbl d') (u, p) = Some e \<and> an_plugin_version e = pv \<and> an_date e = date \<and>
    an_summary e = py_get r ''summary'' PNone \<and> an_tags e = py_get r ''tags'' PNone \<and>
    an_result e = get_analysis_without_meta r \<and>
    an_system_version e = (case map_of (analysis_tbl d) (u, p) of
        None \<Rightarrow> py_get r ''system_version'' PNone | Some old \<Rightarrow> an_system_version old) \<and>
    file_tbl d' = file_tbl d \<and> (\<forall>k. k \<noteq> (u, p) \<longrightarrow> map_of (analysis_tbl d') k = map_of (analysis_tbl d) k)"
proof -
  define e where "e = \<lparr>an_plugin_version = pv,
      an_system_version = (case map_of (analysis_tbl d) (u, p) of
        None \<Rightarrow> py_get r ''system_version'' PNone | Some old \<Rightarrow> an_system_version old),
      an_date = date, an_summary = py_get r ''summary'' PNone, an_tags = py_get r ''tags'' PNone,
      an_result = get_analysis_without_meta r\<rparr>"
  have acc: "commit_analyses reject u [(p, e)] d = Inr (d\<lparr>analysis_tbl := dput (u, p) e (analysis_tbl d)\<rparr>)"
    using assms by (simp add: commit_analyses_def analysis_reject_def e_def)
  have add: "add_analysis reject u p r d = (Inr (), d\<lparr>analysis_tbl := dput (u, p) e (analysis_tbl d)\<rparr>)"
  proof (cases "map_of (analysis_tbl d) (u, p)")
    case None
    then have "insert_analysis reject u p r d = commit_analyses reject u [(p, e)] d"
      using assms by (simp add: insert_analysis_def dmem_def py_get_def e_def)
    with acc None show ?thesis by (simp add: add_analysis_def analysis_exists_def dmem_def)
  next
    case (Some old)
    then have "update_analysis reject u p r d = commit_analyses reject u [(p, e)] d"
      using assms by (cases old) (simp add: update_analysis_def dlookup_def e_def)
    with acc Some assms(3) show ?thesis by (simp add: add_analysis_def analysis_exists_def dmem_def)
  qed
  have "db_ok (snd (add_analysis reject u p r d))" by (rule db_ok_add_analysis[OF assms(1)])
  with add show ?thesis by (auto simp: e_def)
qed


definition ex_result :: "string \<Rightarrow> analysis_result" where
  "ex_result sv = [(''plugin_version'', PStr ''1.0''), (''system_version'', PStr sv), (''analysis_date'', PInt 5),
     (''n'', PInt 3)]"


end
