(* ===== verification/CommonDb.thy ===== *)
theory CommonDb
  imports BackendDb
begin

text \<open>
  \<open>storage/db_interface_common.py\<close>: reading objects, included files, summaries and tags.
  The order of the rows of a query is that of the tables. The walk over included files has
  no bound of its own, so it is a partial function; it ends when no file contains itself.
\<close>

definition all_uids_found_in_database :: "db \<Rightarrow> uid list \<Rightarrow> bool" where
  "all_uids_found_in_database d uid_list =
     (if uid_list = [] then True
      else length (filter (\<lambda>u. u \<in> set uid_list) (dkeys (file_tbl d))) \<ge> length uid_list)"

definition PLUGINS_WITH_TAG_PROPAGATION :: "string list" where
  "PLUGINS_WITH_TAG_PROPAGATION = [''crypto_material'', ''cve_lookup'', ''known_vulnerabilities'', ''qemu_exec'',
     ''software_components'', ''users_and_passwords'']"

section \<open>Tags\<close>

type_synonym tag_dict = "(string, (string, pyval) dict) dict"

text \<open>\<open>tag['propagate']\<close> as a condition.\<close>

definition tag_propagates :: "pyval \<Rightarrow> bool result" where
  "tag_propagates tag = (case tag of
      PDict t \<Rightarrow> map_r py_truthy (dlookup t ''propagate'')
    | _ \<Rightarrow> Inl TypeError)"

definition add_unique_tag :: "string \<Rightarrow> string \<times> pyval \<Rightarrow> tag_dict \<Rightarrow> tag_dict result" where
  "add_unique_tag plugin_name = (\<lambda>(tag_type, tag) unique_tags.
     if tag_type = ''root_uid'' then Inr unique_tags
     else bind_r (tag_propagates tag) (\<lambda>p.
       if \<not> p then Inr unique_tags
       else
         (let ts = (case dget unique_tags plugin_name of None \<Rightarrow> [] | Some ts \<Rightarrow> ts);
              key = (if dmem tag_type ts \<and> tag \<notin> set (dvalues ts)
                     then tag_type @ ''-'' @ str_nat (length ts) else tag_type)
          in Inr (dput plugin_name (dput key tag ts) unique_tags))))"

definition collect_analysis_tags_from_children :: "db \<Rightarrow> uid \<Rightarrow> tag_dict result" where
  "collect_analysis_tags_from_children d uid =
     foldM_r (\<lambda>((u, plugin_name), a) unique_tags.
        case an_tags a of
          PDict tags \<Rightarrow> foldM_r (add_unique_tag plugin_name) tags unique_tags
        | _ \<Rightarrow> Inl AttributeError)
       (filter (\<lambda>((u, plugin), a). (uid, u) \<in> set (fw_files_tbl d) \<and> an_tags a \<noteq> PNone
          \<and> plugin \<in> set PLUGINS_WITH_TAG_PROPAGATION) (analysis_tbl d)) []"

section \<open>Objects\<close>

definition get_file_object :: "db \<Rightarrow> uid \<Rightarrow> string list option \<Rightarrow> file_object option" where
  "get_file_object d u analysis_filter =
     map_option (\<lambda>e. file_object_from_entry d u e analysis_filter None None) (map_of (file_tbl d) u)"

definition tags_value :: "tag_dict \<Rightarrow> (string, pyval) dict" where
  "tags_value ts = map (\<lambda>(p, t). (p, PDict t)) ts"

definition firmware_from_entry_with_tags ::
  "db \<Rightarrow> uid \<Rightarrow> fw_entry \<Rightarrow> fo_entry \<Rightarrow> string list option \<Rightarrow> file_object result" where
  "firmware_from_entry_with_tags d u w e analysis_filter =
     bind_r (collect_analysis_tags_from_children d u) (\<lambda>ts.
       Inr ((firmware_from_entry d u w e analysis_filter)\<lparr>analysis_tags := tags_value ts\<rparr>))"

definition get_firmware :: "db \<Rightarrow> uid \<Rightarrow> string list option \<Rightarrow> file_object option result" where
  "get_firmware d u analysis_filter = (case (map_of (firmware_tbl d) u, map_of (file_tbl d) u) of
      (Some w, Some e) \<Rightarrow> map_r Some (firmware_from_entry_with_tags d u w e analysis_filter)
    | _ \<Rightarrow> Inr None)"

definition get_object :: "db \<Rightarrow> uid \<Rightarrow> string list option \<Rightarrow> file_object option result" where
  "get_object d u analysis_filter =
     (if is_firmware_uid d u then get_firmware d u analysis_filter
      else Inr (get_file_object d u analysis_filter))"

text \<open>The inner join with the children table drops the objects without a parent.\<close>

definition get_objects_by_uid_list :: "db \<Rightarrow> uid list \<Rightarrow> string list option \<Rightarrow> file_object list result" where
  "get_objects_by_uid_list d uid_list analysis_filter =
     (let file_objects = map (\<lambda>(u, e). file_object_from_entry d u e analysis_filter
              (Some (get_included_uids d u)) (Some (get_parent_uids d u)))
            (filter (\<lambda>(u, e). u \<in> set uid_list \<and> get_parent_uids d u \<noteq> []) (file_tbl d))
      in bind_r (mapM_r (\<lambda>(u, w). case map_of (file_tbl d) u of
             Some e \<Rightarrow> firmware_from_entry_with_tags d u w e None | None \<Rightarrow> Inl AttributeError)
           (filter (\<lambda>(u, w). u \<in> set uid_list) (firmware_tbl d)))
         (\<lambda>firmware. Inr (file_objects @ firmware)))"

definition get_analysis :: "db \<Rightarrow> uid \<Rightarrow> string \<Rightarrow> analysis_result option" where
  "get_analysis d u plugin = map_option analysis_entry_to_dict (map_of (analysis_tbl d) (u, plugin))"

section \<open>Included files\<close>

definition get_all_files_in_fw :: "db \<Rightarrow> uid \<Rightarrow> uid list" where
  "get_all_files_in_fw d fw_uid = py_set (all_included_files d fw_uid)"

definition included_step :: "db \<Rightarrow> uid list \<Rightarrow> uid list" where
  "included_step d uid_set = py_set (concat (map (get_included_uids d) (filter (\<lambda>u. u \<in> set uid_set) (dkeys (file_tbl d)))))"

partial_function (option) get_files_in_files :: "db \<Rightarrow> uid list \<Rightarrow> uid list option" where
  "get_files_in_files d uid_set =
     (if uid_set = [] then Some []
      else let included_files = included_step d uid_set in
        if included_files = [] then Some []
        else Option.bind (get_files_in_files d included_files)
          (\<lambda>deeper. Some (set_union included_files deeper)))"

declare get_files_in_files.simps [code]

definition get_all_files_in_fo :: "db \<Rightarrow> file_object \<Rightarrow> uid list option" where
  "get_all_files_in_fo d fo =
     map_option (\<lambda>us. set_union us (fo_uid fo # files_included fo)) (get_files_in_files d (files_included fo))"

definition get_list_of_all_included_files :: "db \<Rightarrow> file_object \<Rightarrow> uid list option" where
  "get_list_of_all_included_files d fo =
     (if is_firmware fo then Some (get_all_files_in_fw d (fo_uid fo)) else get_all_files_in_fo d fo)"

section \<open>Summaries\<close>

type_synonym summary = "(string, uid list) dict"

text \<open>The summary column is an array of strings.\<close>

definition summary_items :: "pyval \<Rightarrow> string list" where
  "summary_items v = (case v of
      PList l \<Rightarrow> py_set (concat (map (\<lambda>e. case e of PStr s \<Rightarrow> [s] | _ \<Rightarrow> []) l)) | _ \<Rightarrow> [])"

definition collect_summary_for_uid_list :: "db \<Rightarrow> uid list \<Rightarrow> string \<Rightarrow> summary" where
  "collect_summary_for_uid_list d uid_list plugin =
     fold (\<lambda>((u, p), a) s. fold (\<lambda>item. dappend item u) (summary_items (an_summary a)) s)
       (filter (\<lambda>((u, p), a). p = plugin \<and> u \<in> set uid_list) (analysis_tbl d)) []"

definition get_summary :: "db \<Rightarrow> file_object \<Rightarrow> string \<Rightarrow> summary option option" where
  "get_summary d fo selected_analysis = (case dget (processed_analysis fo) selected_analysis of
      None \<Rightarrow> Some None
    | Some r \<Rightarrow>
        if \<not> dmem ''summary'' r then Some None
        else if is_firmware fo then
          Some (Some (collect_summary_for_uid_list d
            (set_union (get_all_files_in_fw d (fo_uid fo)) [fo_uid fo]) selected_analysis))
        else
          map_option (\<lambda>included_files. Some (collect_summary_for_uid_list d included_files selected_analysis))
            (case list_of_all_included_files fo of
               Some (u # us) \<Rightarrow> Some (u # us)
             | _ \<Rightarrow> get_list_of_all_included_files d fo))"

definition summary_value :: "summary option \<Rightarrow> pyval" where
  "summary_value s = (case s of None \<Rightarrow> PNone
     | Some d \<Rightarrow> PDict (map (\<lambda>(k, us). (k, PList (map (\<lambda>u. PStr (fstr u)) us))) d))"

text \<open>\<open>get_complete_object_including_all_summaries\<close>; \<open>None\<close> if the walk does not end.\<close>

definition get_complete_object_including_all_summaries :: "db \<Rightarrow> uid \<Rightarrow> file_object result option" where
  "get_complete_object_including_all_summaries d u = (case get_object d u None of
      Inl e \<Rightarrow> Some (Inl e)
    | Inr None \<Rightarrow> Some (Inl GenericException)
    | Inr (Some fo) \<Rightarrow> (case get_list_of_all_included_files d fo of
        None \<Rightarrow> None
      | Some files \<Rightarrow>
          (let fo1 = fo\<lparr>list_of_all_included_files := Some files\<rparr> in
           map_option (\<lambda>pa. Inr (fo1\<lparr>processed_analysis := pa\<rparr>))
             (those (map (\<lambda>(plugin, r). map_option (\<lambda>s. (plugin, dput ''summary'' (summary_value s) r))
                (get_summary d fo1 plugin)) (processed_analysis fo1))))))"

section \<open>The walk over included files\<close>

abbreviation included_rel :: "db \<Rightarrow> (uid \<times> uid) set" where
  "included_rel d \<equiv> set (included_tbl d)"

lemma set_included_step:
  "db_ok d \<Longrightarrow> set (included_step d us) = {v. \<exists>u \<in> set us. (u, v) \<in> included_rel d}"
  by (auto simp: included_step_def db_ok_def dmem_iff)

definition file_rank :: "db \<Rightarrow> uid \<Rightarrow> nat" where
  "file_rank d u = card {v. (u, v) \<in> (included_rel d)\<^sup>+}"

lemma file_rank_less:
  assumes "acyclic (included_rel d)" "(p, c) \<in> included_rel d"
  shows "file_rank d c < file_rank d p"
  unfolding file_rank_def
proof (rule psubset_card_mono)
  have "{v. (p, v) \<in> (included_rel d)\<^sup>+} \<subseteq> Range ((included_rel d)\<^sup>+)" by blast
  moreover have "finite (Range ((included_rel d)\<^sup>+))" by (simp add: trancl_range finite_Range)
  ultimately show "finite {v. (p, v) \<in> (included_rel d)\<^sup>+}" by (rule finite_subset)
  have "c \<notin> {v. (c, v) \<in> (included_rel d)\<^sup>+}" using assms(1) by (simp add: acyclic_def)
  moreover have "c \<in> {v. (p, v) \<in> (included_rel d)\<^sup>+}" using assms(2) by auto
  moreover have "{v. (c, v) \<in> (included_rel d)\<^sup>+} \<subseteq> {v. (p, v) \<in> (included_rel d)\<^sup>+}"
    using assms(2) by (auto intro: trancl_into_trancl2)
  ultimately show "{v. (c, v) \<in> (included_rel d)\<^sup>+} \<subset> {v. (p, v) \<in> (included_rel d)\<^sup>+}" by blast
qed

lemma trancl_step_iff: "(u, v) \<in> R\<^sup>+ \<longleftrightarrow> (u, v) \<in> R \<or> (\<exists>w. (u, w) \<in> R \<and> (w, v) \<in> R\<^sup>+)"
proof
  assume "(u, v) \<in> R\<^sup>+"
  then show "(u, v) \<in> R \<or> (\<exists>w. (u, w) \<in> R \<and> (w, v) \<in> R\<^sup>+)" by (rule converse_tranclE) blast+
next
  assume "(u, v) \<in> R \<or> (\<exists>w. (u, w) \<in> R \<and> (w, v) \<in> R\<^sup>+)"
  then show "(u, v) \<in> R\<^sup>+" by (elim disjE exE conjE) (blast intro: trancl_into_trancl2)+
qed

lemma get_files_in_files_bounded:
  assumes "db_ok d" "acyclic (included_rel d)" "\<forall>u \<in> set us. file_rank d u < n"
  shows "\<exists>vs. get_files_in_files d us = Some vs \<and> set vs = {v. \<exists>u \<in> set us. (u, v) \<in> (included_rel d)\<^sup>+}"
  using assms(3)
proof (induction n arbitrary: us)
  case 0
  then have "us = []" by (cases us) auto
  then show ?case by (simp add: get_files_in_files.simps[of d "[]"])
next
  case (Suc n)
  let ?inc = "included_step d us"
  have inc: "set ?inc = {v. \<exists>u \<in> set us. (u, v) \<in> included_rel d}" by (rule set_included_step[OF assms(1)])
  show ?case
  proof (cases "us = [] \<or> ?inc = []")
    case True
    then have "{v. \<exists>u \<in> set us. (u, v) \<in> (included_rel d)\<^sup>+} = {}"
    proof
      assume "?inc = []"
      with inc have "{v. \<exists>u \<in> set us. (u, v) \<in> included_rel d} = {}" by simp
      then show ?thesis by (auto dest: tranclD)
    qed simp
    with True show ?thesis by (subst get_files_in_files.simps) auto
  next
    case False
    have "\<forall>v \<in> set ?inc. file_rank d v < n"
      using Suc.prems file_rank_less[OF assms(2)] unfolding inc by fastforce
    from Suc.IH[OF this] obtain vs where vs: "get_files_in_files d ?inc = Some vs"
      "set vs = {v. \<exists>u \<in> set ?inc. (u, v) \<in> (included_rel d)\<^sup>+}" by blast
    have "get_files_in_files d us = Some (set_union ?inc vs)"
      using False vs by (subst get_files_in_files.simps) (simp add: Let_def)
    moreover have "set (set_union ?inc vs) = {v. \<exists>u \<in> set us. (u, v) \<in> (included_rel d)\<^sup>+}"
      unfolding set_set_ops vs inc by (subst (2) trancl_step_iff) blast
    ultimately show ?thesis by blast
  qed
qed

lemma get_files_in_files_spec:
  assumes "db_ok d" "acyclic (included_rel d)"
  shows "\<exists>vs. get_files_in_files d us = Some vs \<and> set vs = {v. \<exists>u \<in> set us. (u, v) \<in> (included_rel d)\<^sup>+}"
proof -
  obtain n where "\<forall>u \<in> set us. file_rank d u < n"
    using finite_nat_set_iff_bounded[of "file_rank d ` set us"] by auto
  with get_files_in_files_bounded[OF assms] show ?thesis by blast
qed

section \<open>Properties\<close>

text \<open>For a file object the recursive query ends when no file (transitively) contains itself, and
  yields the file, its recorded included files and exactly the files the database lists below them.\<close>

theorem all_included_files_of_file:
  assumes "db_ok d" "acyclic (included_rel d)" "fw fo = None"
  shows "\<exists>vs. get_list_of_all_included_files d fo = Some vs \<and>
    set vs = insert (fo_uid fo) (set (files_included fo)) \<union>
      {v. \<exists>u \<in> set (files_included fo). (u, v) \<in> (included_rel d)\<^sup>+}"
  using get_files_in_files_spec[OF assms(1,2), of "files_included fo"] assms(3)
  by (auto simp: get_list_of_all_included_files_def is_firmware_def get_all_files_in_fo_def)

definition ex_db3 :: db where
  "ex_db3 = ex_insert [ex_fwo ''A'', ex_fo ''B'' [Some ''A''] [Some ''A''] [(Some ''A'', [''A|/b''])],
     ex_fo ''C'' [Some ''A''] [Some ''B''] [(Some ''A'', [''A|B|/c''])]]"

lemma db_ok_ex_db3: "db_ok ex_db3"
  unfolding ex_db3_def by (rule db_ok_ex_insert)

lemma included_ex_db3: "included_rel ex_db3 = {(Some ''A'', Some ''B''), (Some ''B'', Some ''C'')}"
proof -
  have "included_tbl ex_db3 = [(Some ''A'', Some ''B''), (Some ''B'', Some ''C'')]" by code_simp
  then show ?thesis by simp
qed

lemma acyclic_ex_db3: "acyclic (included_rel ex_db3)"
proof -
  have "wf ((included_rel ex_db3)\<inverse>)"
    by (rule wf_subset[OF wf_measure[of "\<lambda>u. if u = Some ''A'' then 2 else if u = Some ''B'' then 1 else 0"]])
       (auto simp: included_ex_db3)
  then show ?thesis by (metis acyclic_converse wf_acyclic)
qed

theorem all_included_files_of_file_witness:
  "\<exists>vs. get_list_of_all_included_files ex_db3 ((blank_fo None)\<lparr>fo_uid := Some ''A'', files_included := [Some ''B'']\<rparr>) = Some vs
     \<and> set vs \<supseteq> {Some ''A'', Some ''B'', Some ''C''}"
  using all_included_files_of_file[of ex_db3 "(blank_fo None)\<lparr>fo_uid := Some ''A'', files_included := [Some ''B'']\<rparr>"]
    acyclic_ex_db3 db_ok_ex_db3
  by (auto simp: blank_fo_def included_ex_db3)

lemma keys_analyses_of: "set (dkeys (analyses_of d u)) = {p. (u, p) \<in> set (dkeys (analysis_tbl d))}"
  by (force simp: analyses_of_def dkeys_def)

lemma create_analysis_entries_keys:
  "create_analysis_entries fo = Inr as \<Longrightarrow> dkeys as = dkeys (processed_analysis fo)"
  unfolding create_analysis_entries_def mapM_r_Inr_list_all2
  by (induction rule: list_all2_induct) (auto simp: create_analysis_entry_def result_simps)

lemma dkeys_map_value [simp]: "dkeys (map (\<lambda>(k, v). (k, f v)) d) = dkeys d"
  by (induction d) auto



end
