(* ===== verification/AdminDb.thy ===== *)
theory AdminDb
  imports CommonDb
begin

text \<open>
  \<open>storage/db_interface_admin.py\<close>: deleting objects, firmware and comparisons. Deleting a
  firmware walks over its files, drops the firmware from their virtual paths, and hands
  the files that belong to no other firmware to the back end for deletion; the rows
  disappear by the cascades of the schema. The walk is a partial function (a file that
  contains itself never lets it end).
\<close>

definition delete_object :: "uid \<Rightarrow> db \<Rightarrow> db" where
  "delete_object u d = (if dmem u (file_tbl d) then session_delete_fo u d else d)"

text \<open>Deleting an unknown comparison raises, which is caught and logged.\<close>

definition delete_comparison :: "string \<Rightarrow> db \<Rightarrow> db" where
  "delete_comparison cid d = (if dmem cid (comparison_tbl d) then delete_comparison_row cid d else d)"

definition has_other_root :: "uid \<Rightarrow> fo_entry \<Rightarrow> bool" where
  "has_other_root rt e = (\<exists>r \<in> set (dkeys (fe_virtual_file_paths e)). r \<noteq> rt)"

definition drop_root :: "uid \<Rightarrow> fo_entry \<Rightarrow> fo_entry" where
  "drop_root rt e = e\<lparr>fe_virtual_file_paths := filter (\<lambda>(u, path_list). u \<noteq> rt) (fe_virtual_file_paths e)\<rparr>"

text \<open>
  \<open>_remove_virtual_path_entries\<close> for a list of files, as its callers loop over it: the
  number of removed path entries, the files to delete, and the database.
\<close>

partial_function (option) remove_virtual_path_entries ::
  "uid \<Rightarrow> uid list \<Rightarrow> db \<Rightarrow> (nat \<times> uid list \<times> db) option" where
  "remove_virtual_path_entries rt fo_uids d = (case fo_uids of
      [] \<Rightarrow> Some (0, [], d)
    | f # rest \<Rightarrow>
        Option.bind
          (if dmem f (file_tbl d) then
             Option.bind (remove_virtual_path_entries rt (get_included_uids d f) d)
               (\<lambda>(removed_fp, uids_to_delete, d1). case map_of (file_tbl d1) f of
                  None \<Rightarrow> Some (removed_fp, uids_to_delete, d1)
                | Some fo_entry \<Rightarrow>
                    if has_other_root rt fo_entry then
                      Some (removed_fp + 1, uids_to_delete,
                        d1\<lparr>file_tbl := dput f (drop_root rt fo_entry) (file_tbl d1)\<rparr>)
                    else Some (removed_fp, set_add f uids_to_delete, d1))
           else Some (0, [], d))
          (\<lambda>(removed1, del1, d1). Option.bind (remove_virtual_path_entries rt rest d1)
             (\<lambda>(removed2, del2, d2). Some (removed1 + removed2, set_union del1 del2, d2))))"

declare remove_virtual_path_entries.simps [code]

text \<open>
  The result: the two numbers, the UIDs handed to \<open>intercom.delete_file\<close> (\<open>None\<close> if the
  firmware is unknown: nothing is sent), and the database.
\<close>

definition delete_firmware :: "uid \<Rightarrow> bool \<Rightarrow> db \<Rightarrow> (nat \<times> nat \<times> uid list option \<times> db) option" where
  "delete_firmware u delete_root_file d =
     (case map_of (file_tbl d) u of
        None \<Rightarrow> Some (0, 0, None, d)
      | Some e \<Rightarrow>
          if \<not> fe_is_firmware e then Some (0, 0, None, d)
          else map_option (\<lambda>(removed_fp, uids, d1).
                let uids_to_delete = (if delete_root_file then set_add u uids else uids)
                in (removed_fp, length uids_to_delete, Some uids_to_delete, delete_object u d1))
              (remove_virtual_path_entries u (get_included_uids d u) d))"

section \<open>The walk\<close>

definition clean_root :: "uid \<Rightarrow> fo_entry \<Rightarrow> fo_entry" where
  "clean_root rt e = (if has_other_root rt e then drop_root rt e else e)"

lemma dkeys_drop_root:
  "set (dkeys (fe_virtual_file_paths (drop_root rt e))) = set (dkeys (fe_virtual_file_paths e)) - {rt}"
  by (force simp: drop_root_def dkeys_def)

lemma has_other_root_drop [simp]: "has_other_root rt (drop_root rt e) = has_other_root rt e"
  by (force simp: has_other_root_def drop_root_def dkeys_def)

lemma clean_root_idem [simp]: "clean_root rt (clean_root rt e) = clean_root rt e"
  by (simp add: clean_root_def) (simp add: drop_root_def)

lemma has_other_root_clean [simp]: "has_other_root rt (clean_root rt e) = has_other_root rt e"
  by (simp add: clean_root_def)

text \<open>The database after the files in \<open>S\<close> were visited.\<close>

definition visited :: "uid \<Rightarrow> uid set \<Rightarrow> db \<Rightarrow> db \<Rightarrow> bool" where
  "visited rt S d d' \<longleftrightarrow> d' = d\<lparr>file_tbl := file_tbl d'\<rparr> \<and> dkeys (file_tbl d') = dkeys (file_tbl d) \<and>
     (\<forall>f. map_of (file_tbl d') f = map_option (\<lambda>e. if f \<in> S then clean_root rt e else e) (map_of (file_tbl d) f))"

definition to_delete :: "uid \<Rightarrow> uid set \<Rightarrow> db \<Rightarrow> uid set" where
  "to_delete rt S d = {f \<in> S. \<exists>e. map_of (file_tbl d) f = Some e \<and> \<not> has_other_root rt e}"

lemma visited_refl: "visited rt {} d d"
  by (simp add: visited_def option.map_ident)

lemma visited_trans:
  assumes "visited rt S d d1" "visited rt T d1 d2" shows "visited rt (S \<union> T) d d2"
proof -
  have "map_of (file_tbl d2) f = map_option (\<lambda>e. if f \<in> S \<union> T then clean_root rt e else e) (map_of (file_tbl d) f)" for f
    using assms by (cases "map_of (file_tbl d) f") (auto simp: visited_def)
  moreover have "d2 = d\<lparr>file_tbl := file_tbl d2\<rparr>"
  proof -
    have "d2 = d1\<lparr>file_tbl := file_tbl d2\<rparr>" "d1 = d\<lparr>file_tbl := file_tbl d1\<rparr>"
      using assms by (auto simp only: visited_def)
    then have "d2 = (d\<lparr>file_tbl := file_tbl d1\<rparr>)\<lparr>file_tbl := file_tbl d2\<rparr>" by metis
    then show ?thesis by simp
  qed
  ultimately show ?thesis using assms by (simp add: visited_def)
qed

lemma visited_same:
  assumes "visited rt S d d'"
  shows "included_tbl d' = included_tbl d \<and> fw_files_tbl d' = fw_files_tbl d \<and> analysis_tbl d' = analysis_tbl d \<and>
    firmware_tbl d' = firmware_tbl d \<and> comparison_tbl d' = comparison_tbl d \<and> compared_tbl d' = compared_tbl d \<and>
    dkeys (file_tbl d') = dkeys (file_tbl d)"
proof -
  have "d' = d\<lparr>file_tbl := file_tbl d'\<rparr>" "dkeys (file_tbl d') = dkeys (file_tbl d)"
    using assms by (auto simp only: visited_def)
  then show ?thesis by (cases d; cases d') auto
qed

lemma to_delete_visited: "visited rt S d d' \<Longrightarrow> to_delete rt T d' = to_delete rt T d"
  by (auto simp: to_delete_def visited_def split: if_splits) (metis has_other_root_clean)+

lemma to_delete_Un [simp]: "to_delete rt (S \<union> T) d = to_delete rt S d \<union> to_delete rt T d"
  by (auto simp: to_delete_def)

lemma get_included_uids_visited: "visited rt S d d' \<Longrightarrow> get_included_uids d' u = get_included_uids d u"
  by (simp add: get_included_uids_def visited_same)

lemma dkeys_dput_mem: "dmem k d \<Longrightarrow> dkeys (dput k v d) = dkeys d"
  by (induction d) (auto simp: dmem_def split: if_splits)

lemma remove_virtual_path_entries_Cons:
  "remove_virtual_path_entries rt (f # rest) d =
        Option.bind
          (if dmem f (file_tbl d) then
             Option.bind (remove_virtual_path_entries rt (get_included_uids d f) d)
               (\<lambda>(removed_fp, uids_to_delete, d1). case map_of (file_tbl d1) f of
                  None \<Rightarrow> Some (removed_fp, uids_to_delete, d1)
                | Some fo_entry \<Rightarrow>
                    if has_other_root rt fo_entry then
                      Some (removed_fp + 1, uids_to_delete,
                        d1\<lparr>file_tbl := dput f (drop_root rt fo_entry) (file_tbl d1)\<rparr>)
                    else Some (removed_fp, set_add f uids_to_delete, d1))
           else Some (0, [], d))
          (\<lambda>(removed1, del1, d1). Option.bind (remove_virtual_path_entries rt rest d1)
             (\<lambda>(removed2, del2, d2). Some (removed1 + removed2, set_union del1 del2, d2)))"
  by (subst remove_virtual_path_entries.simps) simp

lemma remove_virtual_path_entries_Nil [simp]: "remove_virtual_path_entries rt [] d = Some (0, [], d)"
  by (subst remove_virtual_path_entries.simps) simp

text \<open>Visiting one file after its included files.\<close>

lemma visit_one:
  assumes "visited rt S d d1" "map_of (file_tbl d) f = Some e"
  shows "\<exists>e1. map_of (file_tbl d1) f = Some e1 \<and> has_other_root rt e1 = has_other_root rt e \<and>
    (has_other_root rt e \<longrightarrow> visited rt (insert f S) d (d1\<lparr>file_tbl := dput f (drop_root rt e1) (file_tbl d1)\<rparr>)) \<and>
    (\<not> has_other_root rt e \<longrightarrow> visited rt (insert f S) d d1)"
proof -
  define e1 where "e1 = (if f \<in> S then clean_root rt e else e)"
  have e1: "map_of (file_tbl d1) f = Some e1" using assms by (auto simp: visited_def e1_def)
  have h: "has_other_root rt e1 = has_other_root rt e" by (simp add: e1_def)
  have "visited rt {f} d1 (d1\<lparr>file_tbl := dput f (drop_root rt e1) (file_tbl d1)\<rparr>)" if "has_other_root rt e"
    using that e1 h by (auto simp: visited_def clean_root_def dkeys_dput_mem dmem_def option.map_ident)
  moreover have "visited rt {f} d1 d1" if "\<not> has_other_root rt e"
  proof -
    have "map_of (file_tbl d1) g = map_option (\<lambda>e. if g \<in> {f} then clean_root rt e else e) (map_of (file_tbl d1) g)" for g
      using that e1 h by (cases "map_of (file_tbl d1) g") (auto simp: clean_root_def)
    then show ?thesis by (simp add: visited_def)
  qed
  ultimately show ?thesis using visited_trans[OF assms(1), of "{f}"] e1 h by auto
qed

lemma remove_virtual_path_entries_bounded:
  assumes "acyclic (included_rel d)" "\<forall>f \<in> set fs. file_rank d f < n" "db_ok d"
  shows "\<exists>k del d' S. remove_virtual_path_entries rt fs d = Some (k, del, d') \<and>
    S = {f. dmem f (file_tbl d) \<and> (\<exists>g \<in> set fs. (g, f) \<in> (included_rel d)\<^sup>*)} \<and>
    visited rt S d d' \<and> set del = to_delete rt S d"
  using assms
proof (induction n arbitrary: fs d)
  case 0
  then have "fs = []" by (cases fs) auto
  then show ?case by (simp add: visited_refl to_delete_def)
next
  case (Suc n)
  from Suc.prems show ?case
  proof (induction fs arbitrary: d)
    case Nil
    then show ?case by (simp add: visited_refl to_delete_def)
  next
    case (Cons f fs)
    let ?S = "\<lambda>us. {v. dmem v (file_tbl d) \<and> (\<exists>g \<in> set us. (g, v) \<in> (included_rel d)\<^sup>*)}"
    have rest: "\<exists>k del d'. remove_virtual_path_entries rt fs d1 = Some (k, del, d') \<and>
        visited rt (?S fs) d1 d' \<and> set del = to_delete rt (?S fs) d"
      if v: "visited rt T d d1" for T d1
    proof -
      have same: "included_rel d1 = included_rel d" "file_rank d1 = file_rank d" "\<And>x. dmem x (file_tbl d1) = dmem x (file_tbl d)"
        using visited_same[OF v] by (simp_all add: file_rank_def fun_eq_iff dmem_iff)
      have "db_ok d1" using Cons.prems(3) visited_same[OF v]
        by (auto simp: db_ok_def dmem_iff dict_ok_def dkeys_def)
      with Cons.IH[of d1] Cons.prems show ?thesis
        unfolding same by (auto simp: to_delete_visited[OF v])
    qed
    show ?case
    proof (cases "map_of (file_tbl d) f")
      case None
      have "f \<notin> Domain (included_rel d)" using Cons.prems(3) None by (auto simp: db_ok_def dmem_def)
      then have "(f, v) \<in> (included_rel d)\<^sup>* \<longleftrightarrow> v = f" for v
        by (metis Not_Domain_rtrancl)
      then have "?S (f # fs) = ?S fs" using None by (auto simp: dmem_def)
      with rest[OF visited_refl] None show ?thesis
        by (auto simp: remove_virtual_path_entries_Cons dmem_def)
    next
      case (Some e)
      let ?cs = "get_included_uids d f"
      have "\<forall>c \<in> set ?cs. file_rank d c < n"
        using Cons.prems(1,2) file_rank_less by fastforce
      from Suc.IH[OF Cons.prems(1) this Cons.prems(3)] obtain k1 del1 d1 where
        r1: "remove_virtual_path_entries rt ?cs d = Some (k1, del1, d1)" "visited rt (?S ?cs) d d1"
          "set del1 = to_delete rt (?S ?cs) d" by blast
      have S: "insert f (?S ?cs) = {v. dmem v (file_tbl d) \<and> (f, v) \<in> (included_rel d)\<^sup>*}"
        using Some by (auto simp: dmem_def intro: converse_rtrancl_into_rtrancl elim: converse_rtranclE)
      then have SS: "insert f (?S ?cs) \<union> ?S fs = ?S (f # fs)" by auto
      from visit_one[OF r1(2) Some] obtain e1 where e1: "map_of (file_tbl d1) f = Some e1"
        "has_other_root rt e1 = has_other_root rt e"
        "has_other_root rt e \<longrightarrow> visited rt (insert f (?S ?cs)) d (d1\<lparr>file_tbl := dput f (drop_root rt e1) (file_tbl d1)\<rparr>)"
        "\<not> has_other_root rt e \<longrightarrow> visited rt (insert f (?S ?cs)) d d1" by blast
      have td: "to_delete rt (insert f (?S ?cs)) d =
          (if has_other_root rt e then to_delete rt (?S ?cs) d else insert f (to_delete rt (?S ?cs) d))"
        using Some by (auto simp: to_delete_def)
      define d2 where "d2 = (if has_other_root rt e then d1\<lparr>file_tbl := dput f (drop_root rt e1) (file_tbl d1)\<rparr> else d1)"
      have v2: "visited rt (insert f (?S ?cs)) d d2" using e1(3,4) by (simp add: d2_def)
      from rest[OF v2] obtain k del d' where r2: "remove_virtual_path_entries rt fs d2 = Some (k, del, d')"
        "visited rt (?S fs) d2 d'" "set del = to_delete rt (?S fs) d" by blast
      have "\<exists>k' del'. remove_virtual_path_entries rt (f # fs) d = Some (k', del', d') \<and>
          set del' = to_delete rt (insert f (?S ?cs)) d \<union> to_delete rt (?S fs) d"
        using r1 r2 e1(1,2) Some td
        by (auto simp: remove_virtual_path_entries_Cons dmem_def d2_def split: if_splits)
      moreover have "visited rt (?S (f # fs)) d d'"
        using visited_trans[OF v2 r2(2)] unfolding SS .
      ultimately show ?thesis using SS[symmetric] by (metis (no_types, lifting) to_delete_Un)
    qed
  qed
qed

lemma remove_virtual_path_entries_spec:
  assumes "acyclic (included_rel d)" "db_ok d"
  shows "\<exists>k del d' S. remove_virtual_path_entries rt fs d = Some (k, del, d') \<and>
    S = {f. dmem f (file_tbl d) \<and> (\<exists>g \<in> set fs. (g, f) \<in> (included_rel d)\<^sup>*)} \<and>
    visited rt S d d' \<and> set del = to_delete rt S d"
proof -
  obtain n where "\<forall>f \<in> set fs. file_rank d f < n"
    using finite_nat_set_iff_bounded[of "file_rank d ` set fs"] by auto
  from remove_virtual_path_entries_bounded[OF assms(1) this assms(2)] show ?thesis .
qed

section \<open>What the cascades leave\<close>

definition restricted :: "db \<Rightarrow> db \<Rightarrow> bool" where
  "restricted d d' \<longleftrightarrow> (\<forall>f e. map_of (file_tbl d') f = Some e \<longrightarrow> map_of (file_tbl d) f = Some e) \<and>
     included_rel d' = {(p, c) \<in> included_rel d. dmem p (file_tbl d') \<and> dmem c (file_tbl d')}"

lemma restricted_refl: "db_ok d \<Longrightarrow> restricted d d"
  by (auto simp: restricted_def db_ok_def)

lemma restricted_dmem: "restricted d d' \<Longrightarrow> dmem f (file_tbl d') \<Longrightarrow> dmem f (file_tbl d)"
  by (auto simp: restricted_def dmem_def)

lemma restricted_trans: "restricted d d1 \<Longrightarrow> restricted d1 d2 \<Longrightarrow> restricted d d2"
  unfolding restricted_def dmem_def by auto

lemma restricted_delete_fo_row: "db_ok d \<Longrightarrow> restricted d (delete_fo_row u d)"
  by (auto simp: restricted_def db_ok_def split: if_splits)

lemma restricted_fold_delete: "db_ok d \<Longrightarrow> restricted d (fold delete_fo_row us d)"
proof (induction us arbitrary: d)
  case Nil
  then show ?case by (simp add: restricted_refl)
next
  case (Cons u us)
  then show ?case
    using restricted_trans[OF restricted_delete_fo_row Cons.IH[OF db_ok_delete_fo_row]] by simp
qed

lemma restricted_delete_file_orphans: "db_ok d \<Longrightarrow> restricted d (delete_file_orphans d)"
proof (induction d rule: delete_file_orphans.induct)
  case (1 d)
  show ?case
  proof (cases "orphans d = []")
    case True
    with 1 show ?thesis by (subst delete_file_orphans.simps) (simp add: restricted_refl)
  next
    case False
    with 1 have "restricted (fold delete_fo_row (orphans d) d) (delete_file_orphans (fold delete_fo_row (orphans d) d))"
      by (simp add: db_ok_fold_delete)
    with restricted_fold_delete[OF 1(2)] False show ?thesis
      by (subst delete_file_orphans.simps) (auto intro: restricted_trans)
  qed
qed

definition is_fw_row :: "db \<Rightarrow> uid \<Rightarrow> bool" where
  "is_fw_row d u = (\<exists>e. map_of (file_tbl d) u = Some e \<and> fe_is_firmware e)"

lemma is_fw_row_iff: "is_fw_row d u \<longleftrightarrow> map_option fe_is_firmware (map_of (file_tbl d) u) = Some True"
  by (auto simp: is_fw_row_def)

text \<open>The firmware a file is contained in, the file itself included.\<close>

definition roots_of :: "db \<Rightarrow> uid \<Rightarrow> uid set" where
  "roots_of d f = {r. is_fw_row d r \<and> (r, f) \<in> (included_rel d)\<^sup>*}"

lemma rtrancl_chain:
  "(r, f) \<in> R\<^sup>* \<Longrightarrow> \<exists>us. us \<noteq> [] \<and> hd us = r \<and> last us = f \<and> (\<forall>i. Suc i < length us \<longrightarrow> (us ! i, us ! Suc i) \<in> R)"
proof (induction rule: converse_rtrancl_induct)
  case base
  then show ?case by (intro exI[of _ "[f]"]) simp
next
  case (step y z)
  then obtain us where us: "us \<noteq> []" "hd us = z" "last us = f" "\<forall>i. Suc i < length us \<longrightarrow> (us ! i, us ! Suc i) \<in> R"
    by blast
  have "\<forall>i. Suc i < length (y # us) \<longrightarrow> ((y # us) ! i, (y # us) ! Suc i) \<in> R"
    using us step(1) by (auto simp: nth_Cons hd_conv_nth split: nat.split)
  with us show ?case by (intro exI[of _ "y # us"]) simp
qed

lemma file_chain_nth:
  "us \<noteq> [] \<Longrightarrow> \<forall>i. Suc i < length us \<longrightarrow> (us ! i, us ! Suc i) \<in> included_rel d \<Longrightarrow>
   \<forall>u \<in> set us. dmem u (file_tbl d) \<Longrightarrow> file_chain d us"
proof (induction d us rule: file_chain.induct)
  case (3 d u v us)
  have "(u, v) \<in> included_rel d" using 3(3)[rule_format, of 0] by simp
  moreover have "file_chain d (v # us)"
    by (rule 3(1)) (use 3(3,4) in \<open>force+\<close>)
  ultimately show ?case using 3(4) by simp
qed simp_all

lemma reachable_chain:
  assumes "db_ok d" "is_fw_row d r" "(r, f) \<in> (included_rel d)\<^sup>*"
  shows "\<exists>us. file_chain d us \<and> us \<noteq> [] \<and> hd us = r \<and> last us = f \<and> (\<forall>v \<in> set us. (r, v) \<in> (included_rel d)\<^sup>*)"
proof -
  from rtrancl_chain[OF assms(3)] obtain us where us: "us \<noteq> []" "hd us = r" "last us = f"
    "\<forall>i. Suc i < length us \<longrightarrow> (us ! i, us ! Suc i) \<in> included_rel d" by blast
  have reach: "(r, us ! i) \<in> (included_rel d)\<^sup>*" if "i < length us" for i
    using that
  proof (induction i)
    case 0
    then show ?case using us by (simp add: hd_conv_nth)
  next
    case (Suc i)
    then show ?case using us(4)[rule_format, of i] by (auto intro: rtrancl_into_rtrancl)
  qed
  have mem: "dmem v (file_tbl d)" if "(r, v) \<in> (included_rel d)\<^sup>*" for v
    using that assms(1,2) by (induction rule: rtrancl_induct) (auto simp: db_ok_def is_fw_row_def dmem_def)
  have "\<forall>v \<in> set us. (r, v) \<in> (included_rel d)\<^sup>*" using reach by (auto simp: in_set_conv_nth)
  moreover from this have "file_chain d us" by (intro file_chain_nth us) (use mem in auto)
  ultimately show ?thesis using us by blast
qed

text \<open>Without orphans and cycles every file is contained in a firmware.\<close>

lemma no_orphan_roots:
  assumes "db_ok d" "acyclic (included_rel d)" "orphans d = []" "dmem f (file_tbl d)"
  shows "roots_of d f \<noteq> {}"
proof -
  have "wf (included_rel d)" using assms(2) by (simp add: finite_acyclic_wf)
  then show ?thesis using assms(4)
  proof (induction f rule: wf_induct_rule)
    case (less f)
    show ?case
    proof (cases "is_fw_row d f")
      case True
      then show ?thesis by (auto simp: roots_of_def)
    next
      case False
      with less.prems obtain e where e: "(f, e) \<in> set (file_tbl d)" "\<not> fe_is_firmware e"
        by (auto simp: dmem_def is_fw_row_def dest: map_of_SomeD)
      then have "get_parent_uids d f \<noteq> []" using assms(3) by (auto simp: orphans_def filter_empty_conv)
      then obtain p where p: "(p, f) \<in> included_rel d"
        by (metis (no_types, lifting) ex_in_conv mem_Collect_eq set_empty set_get_parent_uids)
      moreover have "dmem p (file_tbl d)" using p assms(1) by (auto simp: db_ok_def)
      ultimately have "roots_of d p \<noteq> {}" using less.IH by blast
      with p show ?thesis by (auto simp: roots_of_def intro: rtrancl_into_rtrancl)
    qed
  qed
qed

text \<open>The rows left after the deletion of a firmware: those other firmware contains.\<close>

lemma session_delete_remaining:
  assumes "db_ok d" "acyclic (included_rel d)" "\<forall>p. (p, u) \<notin> included_rel d"
  shows "dmem f (file_tbl (session_delete_fo u d)) \<longleftrightarrow> (\<exists>r \<in> roots_of d f. r \<noteq> u)"
proof
  let ?d1 = "delete_fo_row u d" and ?d' = "session_delete_fo u d"
  have ok1: "db_ok ?d1" and ok': "db_ok ?d'"
    using assms(1) by (simp_all add: session_delete_fo_def db_ok_delete_fo_row db_ok_delete_file_orphans)
  have res: "restricted d ?d'" "restricted ?d1 ?d'"
    using restricted_delete_file_orphans[OF ok1] restricted_trans[OF restricted_delete_fo_row[OF assms(1)]]
    by (simp_all add: session_delete_fo_def)
  {
    assume f: "dmem f (file_tbl ?d')"
    have sub: "included_rel ?d' \<subseteq> included_rel d" using res(1) by (auto simp: restricted_def)
    then have "roots_of ?d' f \<noteq> {}"
      by (intro no_orphan_roots[OF ok' acyclic_subset[OF assms(2)] _ f])
         (simp_all add: session_delete_fo_def orphans_delete_file_orphans)
    then obtain r where r: "is_fw_row ?d' r" "(r, f) \<in> (included_rel ?d')\<^sup>*" by (auto simp: roots_of_def)
    have "r \<noteq> u" using r(1) restricted_dmem[OF res(2), of r] by (auto simp: is_fw_row_def dmem_def)
    moreover have "r \<in> roots_of d f"
      using r res(1) rtrancl_mono[OF sub] by (auto simp: roots_of_def is_fw_row_def restricted_def)
    ultimately show "\<exists>r \<in> roots_of d f. r \<noteq> u" by blast
  }
  {
    assume "\<exists>r \<in> roots_of d f. r \<noteq> u"
    then obtain r where r: "is_fw_row d r" "(r, f) \<in> (included_rel d)\<^sup>*" "r \<noteq> u" by (auto simp: roots_of_def)
    from reachable_chain[OF assms(1) r(1,2)] obtain us where
      us: "file_chain d us" "us \<noteq> []" "hd us = r" "last us = f" "\<forall>v \<in> set us. (r, v) \<in> (included_rel d)\<^sup>*" by blast
    have "(r, u) \<notin> (included_rel d)\<^sup>*" using r(3) assms(3) by (metis rtranclE)
    then have u: "u \<notin> set us" using us(5) by blast
    from r obtain e where e: "map_of (file_tbl ?d1) (hd us) = Some e" "fe_is_firmware e"
      using us(3) by (auto simp: is_fw_row_def)
    from file_chain_delete_file_orphans[OF ok1 file_chain_delete_fo_row[OF us(1) u] e]
    have "file_chain ?d' us" by (simp add: session_delete_fo_def)
    then show "dmem f (file_tbl ?d')" using file_chain_mem us by (metis last_in_set)
  }
qed

text \<open>
  The invariant the unpacker maintains: no orphans, and the virtual paths of a file have an
  entry for exactly the firmware that contain it.
\<close>

definition paths_ok :: "db \<Rightarrow> bool" where
  "paths_ok d \<longleftrightarrow> orphans d = [] \<and>
     (\<forall>f e. map_of (file_tbl d) f = Some e \<longrightarrow> set (dkeys (fe_virtual_file_paths e)) = roots_of d f)"

lemma restricted_paths:
  assumes "restricted d d'" "is_fw_row d' r" "\<And>v. (r, v) \<in> (included_rel d)\<^sup>* \<Longrightarrow> dmem v (file_tbl d')"
    "(r, f) \<in> (included_rel d)\<^sup>*"
  shows "(r, f) \<in> (included_rel d')\<^sup>*"
  using assms(4)
proof (induction rule: rtrancl_induct)
  case (step y z)
  then have "(y, z) \<in> included_rel d'"
    using assms(1) assms(3)[of y] assms(3)[OF rtrancl_into_rtrancl[OF step(1,2)]] by (auto simp: restricted_def)
  with step(3) show ?case by (rule rtrancl_into_rtrancl)
qed simp

lemma visited_files:
  assumes "visited rt S d d'"
  shows "is_fw_row d' f = is_fw_row d f" "roots_of d' f = roots_of d f"
    "dmem f (file_tbl d') = dmem f (file_tbl d)"
proof -
  note same = visited_same[OF assms]
  show "dmem f (file_tbl d') = dmem f (file_tbl d)" for f using same by (simp add: dmem_iff)
  have fwe: "map_option fe_is_firmware (map_of (file_tbl d') f) = map_option fe_is_firmware (map_of (file_tbl d) f)" for f
    using assms by (cases "map_of (file_tbl d) f") (auto simp: visited_def clean_root_def drop_root_def)
  then have fw: "is_fw_row d' f = is_fw_row d f" for f by (simp only: is_fw_row_iff fwe)
  then show "is_fw_row d' f = is_fw_row d f" for f .
  show "roots_of d' f = roots_of d f" using fw same by (simp add: roots_of_def)
qed

lemma delete_firmware_effect:
  assumes "db_ok d" "acyclic (included_rel d)" "paths_ok d" "is_fw_row d u" "\<forall>p. (p, u) \<notin> included_rel d"
  shows "\<exists>k n del d'. delete_firmware u True d = Some (k, n, Some del, d') \<and> db_ok d' \<and> paths_ok d' \<and>
    (\<forall>f. dmem f (file_tbl d') \<longleftrightarrow> (\<exists>r \<in> roots_of d f. r \<noteq> u)) \<and>
    set del = {f. dmem f (file_tbl d) \<and> \<not> dmem f (file_tbl d')}"
proof -
  from assms(4) obtain ue where ue: "map_of (file_tbl d) u = Some ue" "fe_is_firmware ue" by (auto simp: is_fw_row_def)
  let ?cs = "get_included_uids d u"
  from remove_virtual_path_entries_spec[OF assms(2,1), of u ?cs] obtain k del d1 S where
    w: "remove_virtual_path_entries u ?cs d = Some (k, del, d1)" and
    S: "S = {f. dmem f (file_tbl d) \<and> (\<exists>g \<in> set ?cs. (g, f) \<in> (included_rel d)\<^sup>*)}" and
    v: "visited u S d d1" and del: "set del = to_delete u S d" by blast
  note same = visited_same[OF v] and vf = visited_files[OF v]
  have ok1: "db_ok d1" using assms(1) same by (auto simp: db_ok_def dmem_iff dict_ok_def dkeys_def)
  have mem_u: "dmem u (file_tbl d)" using ue by (simp add: dmem_def)
  let ?d' = "session_delete_fo u d1"
  have d': "delete_firmware u True d = Some (k, length (set_add u del), Some (set_add u del), ?d')"
    using ue w mem_u vf(3)[of u] by (simp add: delete_firmware_def delete_object_def Let_def)
  have rel1: "included_rel d1 = included_rel d" by (simp add: same)
  have rem: "dmem f (file_tbl ?d') \<longleftrightarrow> (\<exists>r \<in> roots_of d f. r \<noteq> u)" for f
    using session_delete_remaining[OF ok1, of u f] assms(2,5) by (simp add: rel1 vf)
  have ok': "db_ok ?d'"
    using ok1 by (simp add: session_delete_fo_def db_ok_delete_fo_row db_ok_delete_file_orphans)
  have res: "restricted d1 ?d'"
    using restricted_trans[OF restricted_delete_fo_row[OF ok1] restricted_delete_file_orphans[OF db_ok_delete_fo_row[OF ok1]]]
    by (simp add: session_delete_fo_def)
  have u_roots: "roots_of d u = {u}"
    using assms(4,5) by (auto simp: roots_of_def elim: rtranclE)
  have S_iff: "f \<in> S \<longleftrightarrow> dmem f (file_tbl d) \<and> (u, f) \<in> (included_rel d)\<^sup>+" for f
    unfolding S by (auto intro: rtrancl_into_trancl2 dest: tranclD)
  have keys: "set (dkeys (fe_virtual_file_paths e)) = roots_of d f" if "map_of (file_tbl d) f = Some e" for f e
    using that assms(3) by (auto simp: paths_ok_def)
  have other: "has_other_root u e \<longleftrightarrow> (\<exists>r \<in> roots_of d f. r \<noteq> u)" if "map_of (file_tbl d) f = Some e" for f e
    using keys[OF that] by (auto simp: has_other_root_def)
  have nonempty: "roots_of d f \<noteq> {}" if "dmem f (file_tbl d)" for f
    using no_orphan_roots[OF assms(1,2) _ that] assms(3) by (simp add: paths_ok_def)
  have del_eq: "set (set_add u del) = {f. dmem f (file_tbl d) \<and> \<not> dmem f (file_tbl ?d')}"
  proof (rule set_eqI)
    fix f
    show "f \<in> set (set_add u del) \<longleftrightarrow> f \<in> {f. dmem f (file_tbl d) \<and> \<not> dmem f (file_tbl ?d')}"
    proof (cases "f = u")
      case True
      then show ?thesis using mem_u u_roots by (simp add: rem)
    next
      case False
      have "f \<in> S" if f: "dmem f (file_tbl d)" and none: "\<forall>r \<in> roots_of d f. r = u"
      proof -
        have "u \<in> roots_of d f" using nonempty[OF f] none by auto
        then show ?thesis using f False by (auto simp: S_iff roots_of_def rtrancl_eq_or_trancl)
      qed
      moreover have "f \<in> to_delete u S d \<longleftrightarrow> f \<in> S \<and> dmem f (file_tbl d) \<and> (\<forall>r \<in> roots_of d f. r = u)"
        using other[of f] by (cases "map_of (file_tbl d) f") (auto simp: to_delete_def dmem_def)
      ultimately show ?thesis using False by (simp add: rem del) blast
    qed
  qed
  have paths': "paths_ok ?d'"
    unfolding paths_ok_def
  proof (intro conjI allI impI)
    show "orphans ?d' = []" by (simp add: session_delete_fo_def orphans_delete_file_orphans)
    fix f e' assume e': "map_of (file_tbl ?d') f = Some e'"
    then have "map_of (file_tbl d1) f = Some e'" using res by (auto simp: restricted_def)
    then obtain e where e: "map_of (file_tbl d) f = Some e" "e' = (if f \<in> S then clean_root u e else e)"
      using v by (auto simp: visited_def)
    have f: "\<exists>r \<in> roots_of d f. r \<noteq> u" using rem[of f] e' by (simp add: dmem_def)
    then have "f \<noteq> u" using u_roots by auto
    then have "f \<in> S \<longleftrightarrow> u \<in> roots_of d f"
      using e(1) assms(4) by (auto simp: S_iff roots_of_def dmem_def rtrancl_eq_or_trancl)
    then have k': "set (dkeys (fe_virtual_file_paths e')) = roots_of d f - {u}"
      using e other[OF e(1)] f keys[OF e(1)] by (auto simp: clean_root_def dkeys_drop_root)
    have "roots_of ?d' f = roots_of d f - {u}"
    proof (intro set_eqI iffI)
      fix r assume r: "r \<in> roots_of ?d' f"
      then have "dmem r (file_tbl ?d')" by (auto simp: roots_of_def is_fw_row_def dmem_def)
      then have "r \<noteq> u" using rem[of u] u_roots by auto
      moreover have "included_rel ?d' \<subseteq> included_rel d1" using res by (auto simp: restricted_def)
      then have "r \<in> roots_of d1 f"
        using r res rtrancl_mono[of "included_rel ?d'" "included_rel d1"] by (auto simp: roots_of_def is_fw_row_def restricted_def)
      ultimately show "r \<in> roots_of d f - {u}" by (simp add: vf)
    next
      fix r assume r: "r \<in> roots_of d f - {u}"
      have below: "dmem x (file_tbl ?d')" if "(r, x) \<in> (included_rel d1)\<^sup>*" for x
        using that r rem[of x] by (auto simp: roots_of_def rel1)
      then have "dmem r (file_tbl ?d')" by simp
      then have "is_fw_row ?d' r" using r res vf(1)[of r]
        by (auto simp: is_fw_row_def dmem_def restricted_def roots_of_def)
      with restricted_paths[OF res this below, of f] r show "r \<in> roots_of ?d' f"
        by (simp add: roots_of_def rel1)
    qed
    with k' show "set (dkeys (fe_virtual_file_paths e')) = roots_of ?d' f" by simp
  qed
  show ?thesis using d' ok' paths' rem del_eq by blast
qed

text \<open>Two firmware sharing the file \<open>C\<close>, which the first one holds inside the archive \<open>B\<close>.\<close>


definition ex_db4 :: db where
  "ex_db4 = ex_insert [ex_fwo ''A'', ex_fwo ''D'', ex_fo ''B'' [Some ''A''] [Some ''A''] [(Some ''A'', [''A|/b''])],
     ex_fo ''C'' [Some ''A''] [Some ''B''] [(Some ''A'', [''A|B|/c''])],
     ex_fo ''C'' [Some ''D''] [Some ''D''] [(Some ''D'', [''D|/c''])]]"

lemma ex_db4_tables:
  "included_rel ex_db4 = {(Some ''A'', Some ''B''), (Some ''B'', Some ''C''), (Some ''D'', Some ''C'')}"
  "map (\<lambda>(u, e). (u, fe_is_firmware e, dkeys (fe_virtual_file_paths e))) (file_tbl ex_db4) =
     [(Some ''A'', True, [Some ''A'']), (Some ''D'', True, [Some ''D'']), (Some ''B'', False, [Some ''A'']),
      (Some ''C'', False, [Some ''A'', Some ''D''])]"
  "orphans ex_db4 = []"
proof -
  have "included_tbl ex_db4 = [(Some ''A'', Some ''B''), (Some ''B'', Some ''C''), (Some ''D'', Some ''C'')]" by code_simp
  then show "included_rel ex_db4 = {(Some ''A'', Some ''B''), (Some ''B'', Some ''C''), (Some ''D'', Some ''C'')}" by simp
qed (code_simp+)

lemma acyclic_ex_db4: "acyclic (included_rel ex_db4)"
proof -
  have "wf ((included_rel ex_db4)\<inverse>)"
    by (rule wf_subset[OF wf_measure[of "\<lambda>u. if u = Some ''A'' then 2 else if u = Some ''C'' then 0 else 1"]])
       (auto simp: ex_db4_tables)
  then show ?thesis by (metis acyclic_converse wf_acyclic)
qed

lemma rtrancl_ex_db4:
  "(r, f) \<in> (included_rel ex_db4)\<^sup>* \<longleftrightarrow> r = f \<or>
     (r, f) \<in> insert (Some ''A'', Some ''C'') (included_rel ex_db4)"
proof
  assume "(r, f) \<in> (included_rel ex_db4)\<^sup>*"
  then show "r = f \<or> (r, f) \<in> insert (Some ''A'', Some ''C'') (included_rel ex_db4)"
    by (induction rule: rtrancl_induct) (auto simp: ex_db4_tables)
next
  have "(Some ''A'', Some ''C'') \<in> (included_rel ex_db4)\<^sup>*"
    by (rule rtrancl_into_rtrancl[of _ "Some ''B''"]) (auto simp: ex_db4_tables)
  then show "r = f \<or> (r, f) \<in> insert (Some ''A'', Some ''C'') (included_rel ex_db4) \<Longrightarrow>
      (r, f) \<in> (included_rel ex_db4)\<^sup>*" by auto
qed

lemma ex_db4_files:
  "map_of (file_tbl ex_db4) f = Some e \<Longrightarrow>
     (f, fe_is_firmware e, dkeys (fe_virtual_file_paths e)) \<in>
       {(Some ''A'', True, [Some ''A'']), (Some ''D'', True, [Some ''D'']), (Some ''B'', False, [Some ''A'']),
        (Some ''C'', False, [Some ''A'', Some ''D''])}"
proof -
  assume "map_of (file_tbl ex_db4) f = Some e"
  then have "(f, fe_is_firmware e, dkeys (fe_virtual_file_paths e)) \<in>
      set (map (\<lambda>(u, e). (u, fe_is_firmware e, dkeys (fe_virtual_file_paths e))) (file_tbl ex_db4))"
    by (force dest: map_of_SomeD)
  then show ?thesis by (simp add: ex_db4_tables)
qed

lemma is_fw_row_ex_db4: "is_fw_row ex_db4 r \<longleftrightarrow> r = Some ''A'' \<or> r = Some ''D''"
proof -
  have "map_option fe_is_firmware (map_of (file_tbl ex_db4) (Some ''A'')) = Some True"
    "map_option fe_is_firmware (map_of (file_tbl ex_db4) (Some ''D'')) = Some True" by code_simp+
  moreover have "r = Some ''A'' \<or> r = Some ''D''" if "is_fw_row ex_db4 r"
    using that by (auto simp: is_fw_row_def dest!: ex_db4_files)
  ultimately show ?thesis by (metis is_fw_row_iff)
qed

lemma roots_of_ex_db4:
  "roots_of ex_db4 f = {r. (r = Some ''A'' \<or> r = Some ''D'') \<and> (r = f \<or> (r, f) \<in>
     {(Some ''A'', Some ''C''), (Some ''A'', Some ''B''), (Some ''B'', Some ''C''), (Some ''D'', Some ''C'')})}"
  unfolding roots_of_def is_fw_row_ex_db4 rtrancl_ex_db4
  unfolding ex_db4_tables(1) by blast

lemma paths_ok_ex_db4: "paths_ok ex_db4"
  by (auto simp: paths_ok_def ex_db4_tables(3) roots_of_ex_db4 dest!: ex_db4_files)


section \<open>Every operation keeps the referential integrity\<close>

lemma db_ok_delete_comparison: "db_ok d \<Longrightarrow> db_ok (delete_comparison cid d)"
  by (auto simp: delete_comparison_def delete_comparison_row_def db_ok_def)

lemma db_ok_delete_object: "db_ok d \<Longrightarrow> db_ok (delete_object u d)"
  by (simp add: delete_object_def session_delete_fo_def db_ok_delete_fo_row db_ok_delete_file_orphans)

lemma db_ok_drop_root:
  "db_ok d \<Longrightarrow> db_ok (d\<lparr>file_tbl := dput f (drop_root rt e) (file_tbl d)\<rparr>)"
  by (rule db_ok_put_file)

lemma db_ok_remove_virtual_path_entries:
  assumes "remove_virtual_path_entries rt fs d = Some r"
  shows "db_ok d \<longrightarrow> db_ok (snd (snd r))"
proof (rule remove_virtual_path_entries.raw_induct[OF _ assms, where P = "\<lambda>_ _ d r. db_ok d \<longrightarrow> db_ok (snd (snd r))"], goal_cases)
  case (1 walk rt fs d r)
  show ?case
  proof (cases fs)
    case Nil
    then show ?thesis using 1(2) by auto
  next
    case (Cons f rest)
    with 1(2) obtain k1 del1 d1 r2 where
      first: "(if dmem f (file_tbl d) then
             Option.bind (walk rt (get_included_uids d f) d)
               (\<lambda>(removed_fp, uids_to_delete, d1). case map_of (file_tbl d1) f of
                  None \<Rightarrow> Some (removed_fp, uids_to_delete, d1)
                | Some e \<Rightarrow>
                    if has_other_root rt e then
                      Some (removed_fp + 1, uids_to_delete,
                        d1\<lparr>file_tbl := dput f (drop_root rt e) (file_tbl d1)\<rparr>)
                    else Some (removed_fp, set_add f uids_to_delete, d1))
           else Some (0, [], d)) = Some (k1, del1, d1)"
      and second: "walk rt rest d1 = Some r2" "snd (snd r) = snd (snd r2)"
      by (auto simp: Option.bind_eq_Some_conv)
    have "db_ok d \<longrightarrow> db_ok d1"
    proof (cases "dmem f (file_tbl d)")
      case False
      with first show ?thesis by simp
    next
      case True
      with first obtain k2 del2 d2 where w: "walk rt (get_included_uids d f) d = Some (k2, del2, d2)"
        and step: "(case map_of (file_tbl d2) f of
                  None \<Rightarrow> Some (k2, del2, d2)
                | Some e \<Rightarrow>
                    if has_other_root rt e then
                      Some (k2 + 1, del2, d2\<lparr>file_tbl := dput f (drop_root rt e) (file_tbl d2)\<rparr>)
                    else Some (k2, set_add f del2, d2)) = Some (k1, del1, d1)"
        by (auto simp: Option.bind_eq_Some_conv)
      have "db_ok d \<longrightarrow> db_ok d2" using 1(1)[OF w] by simp
      moreover have "db_ok d2 \<Longrightarrow> db_ok d1"
        using step by (cases "map_of (file_tbl d2) f") (auto intro: db_ok_drop_root split: if_splits)
      ultimately show ?thesis by blast
    qed
    with 1(1)[OF second(1)] second(2) show ?thesis by simp
  qed
qed

datatype db_event =
    AddObject file_object real
  | AddAnalysis uid string analysis_result
  | UpdateParents uid uid uid
  | DeleteFirmware uid bool
  | DeleteObject uid
  | DeleteComparison string

text \<open>One call of the interfaces; a call that fails leaves what its committed transactions wrote.\<close>

fun db_step :: "(bytes \<Rightarrow> string) \<Rightarrow> reject \<Rightarrow> (string option \<Rightarrow> date option) \<Rightarrow> db_event \<Rightarrow> db \<Rightarrow> db" where
  "db_step sha reject td (AddObject fo now) d = snd (add_object sha reject td now fo d)"
| "db_step sha reject td (AddAnalysis u p r) d = snd (add_analysis reject u p r d)"
| "db_step sha reject td (UpdateParents f rt p) d =
     (case update_file_object_parents f rt p d of Inl e \<Rightarrow> d | Inr d' \<Rightarrow> d')"
| "db_step sha reject td (DeleteFirmware u delete_root) d =
     (case delete_firmware u delete_root d of None \<Rightarrow> d | Some (k, n, del, d') \<Rightarrow> d')"
| "db_step sha reject td (DeleteObject u) d = delete_object u d"
| "db_step sha reject td (DeleteComparison c) d = delete_comparison c d"

lemma db_ok_db_step: "db_ok d \<Longrightarrow> db_ok (db_step sha reject td e d)"
proof (cases e)
  case (DeleteFirmware u b)
  assume d: "db_ok d"
  then show ?thesis using DeleteFirmware
    by (auto simp: delete_firmware_def Let_def split: option.splits
        intro!: db_ok_delete_object dest!: db_ok_remove_virtual_path_entries)
next
  case (UpdateParents f rt p)
  assume "db_ok d"
  then show ?thesis using UpdateParents
    by (auto simp: update_file_object_parents_def split: sum.splits if_splits intro: db_ok_update_parents)
qed (auto intro: db_ok_add_object db_ok_add_analysis db_ok_delete_object db_ok_delete_comparison)

interpretation db_runs: component "db_step sha reject td" "\<lambda>_ _. True" db_ok for sha reject td
  by unfold_locales (rule db_ok_db_step)


end
