(* ===== verification/AnalysisScheduler.thy ===== *)
theory AnalysisScheduler
  imports AnalysisStatus TaskScheduler AdminDb
begin

text \<open>
  \<open>scheduler/analysis.py\<close>: the decision whether a task runs or is skipped, the task runner,
  the result collector and the three entry points, as functions of the state the processes
  share (the queues, the status, the unpacking locks and the database). The pre- and
  post-analysis callbacks are the defaults, \<open>add_object\<close> and \<open>add_analysis\<close>. Version
  parsing (\<open>packaging\<close>) is a parameter that gives the rank of a version in their order, or
  nothing for an invalid one; the configuration and the file system are parameters as well.
\<close>

record env =
  e_sha :: "bytes \<Rightarrow> string"
  e_md5 :: "bytes \<Rightarrow> string"
  e_read :: "string \<Rightarrow> bytes"
  e_reject :: reject
  e_to_date :: "string option \<Rightarrow> date option"
  e_version_rank :: "string \<Rightarrow> real option"
  e_storage :: string
  e_cfg_mime :: "string \<Rightarrow> string list option \<times> string list option"
  e_cfg_threads :: "(string, nat) dict"
  e_default_threads :: nat
  e_default_plugins :: "(string, string list) dict"

record sched =
  plugins :: "(string, plugin) dict"
  process_queue :: "file_object list"
  unpacking_locks :: "(uid, nat) dict"
  status :: analysis_status
  database :: db

definition bind_o :: "'s outcome \<Rightarrow> ('s \<Rightarrow> 's outcome) \<Rightarrow> 's outcome" where
  "bind_o r f = (case r of Done s \<Rightarrow> f s | Raised e s \<Rightarrow> Raised e s | Blocked \<Rightarrow> Blocked)"

lemma bind_o_simps [simp]:
  "bind_o (Done s) f = f s" "bind_o (Raised e s) f = Raised e s" "bind_o Blocked f = Blocked"
  by (simp_all add: bind_o_def)

lemma bind_o_Done_iff: "bind_o r f = Done s' \<longleftrightarrow> (\<exists>s. r = Done s \<and> f s = Done s')"
  by (cases r) auto

definition with_result :: "'a result \<Rightarrow> 's \<Rightarrow> ('a \<Rightarrow> 's outcome) \<Rightarrow> 's outcome" where
  "with_result r s f = (case r of Inl e \<Rightarrow> Raised e s | Inr x \<Rightarrow> f x)"

lemma with_result_simps [simp]: "with_result (Inl e) s f = Raised e s" "with_result (Inr x) s f = f x"
  by (simp_all add: with_result_def)

lemma with_result_Done_iff: "with_result r s f = Done s' \<longleftrightarrow> (\<exists>x. r = Inr x \<and> f x = Done s')"
  by (cases r) auto

definition on_status :: "(analysis_status \<Rightarrow> analysis_status outcome) \<Rightarrow> sched \<Rightarrow> sched outcome" where
  "on_status f s = (case f (status s) of
      Done st \<Rightarrow> Done (s\<lparr>status := st\<rparr>)
    | Raised e st \<Rightarrow> Raised e (s\<lparr>status := st\<rparr>)
    | Blocked \<Rightarrow> Blocked)"

definition on_database :: "(db \<Rightarrow> outcome_db) \<Rightarrow> sched \<Rightarrow> sched outcome" where
  "on_database f s = (case f (database s) of
      (Inr _, d) \<Rightarrow> Done (s\<lparr>database := d\<rparr>)
    | (Inl e, d) \<Rightarrow> Raised e (s\<lparr>database := d\<rparr>))"

section \<open>Unpacking locks and storage paths\<close>

definition set_unpacking_lock :: "uid \<Rightarrow> (uid, nat) dict \<Rightarrow> (uid, nat) dict" where
  "set_unpacking_lock u locks = dput u 1 locks"

definition unpacking_lock_is_set :: "uid \<Rightarrow> (uid, nat) dict \<Rightarrow> bool" where
  "unpacking_lock_is_set u locks = dmem u locks"

definition release_unpacking_lock :: "uid \<Rightarrow> (uid, nat) dict \<Rightarrow> (uid, nat) dict" where
  "release_unpacking_lock u locks = (if dmem u locks then ddel u locks else locks)"

definition generate_path_from_uid :: "string \<Rightarrow> string \<Rightarrow> string" where
  "generate_path_from_uid storage u = storage @ ''/'' @ take 2 u @ ''/'' @ u"

definition generate_path :: "env \<Rightarrow> file_object \<Rightarrow> string result" where
  "generate_path E fo = (case get_uid (e_sha E) fo of
      None \<Rightarrow> Inl TypeError | Some u \<Rightarrow> Inr (generate_path_from_uid (e_storage E) u))"

section \<open>Callbacks\<close>

definition pre_analysis :: "env \<Rightarrow> real \<Rightarrow> file_object \<Rightarrow> sched \<Rightarrow> sched outcome" where
  "pre_analysis E now fo s =
     on_database (add_object (e_sha E) (e_reject E) (e_to_date E) now fo) s"

definition post_analysis :: "env \<Rightarrow> uid \<Rightarrow> string \<Rightarrow> analysis_result \<Rightarrow> sched \<Rightarrow> sched outcome" where
  "post_analysis E u plugin r s = on_database (add_analysis (e_reject E) u plugin r) s"

definition check_further_process_or_complete :: "env \<Rightarrow> real \<Rightarrow> file_object \<Rightarrow> sched \<Rightarrow> sched outcome" where
  "check_further_process_or_complete E now fo s =
     (if scheduled_list fo = [] then on_status (remove_from_current_analyses (e_sha E) now fo) s
      else Done (s\<lparr>process_queue := process_queue s @ [fo]\<rparr>))"

section \<open>Is the stored analysis up to date\<close>

text \<open>\<open>x < y\<close> on Python values: numbers and strings.\<close>

fun py_num :: "pyval \<Rightarrow> real option" where
  "py_num (PBool b) = Some (if b then 1 else 0)"
| "py_num (PInt i) = Some (of_int i)"
| "py_num (PFloat f) = Some f"
| "py_num _ = None"

definition py_less :: "pyval \<Rightarrow> pyval \<Rightarrow> bool result" where
  "py_less x y = (case (py_num x, py_num y) of
      (Some a, Some b) \<Rightarrow> Inr (a < b)
    | _ \<Rightarrow> (case (x, y) of (PStr a, PStr b) \<Rightarrow> Inr (a < b) | _ \<Rightarrow> Inl TypeError))"

definition fix_system_version :: "pyval \<Rightarrow> pyval result" where
  "fix_system_version v =
     (if py_truthy v then (case v of PStr s \<Rightarrow> Inr (PStr (replace_char (CHR ''_'') ''-'' s)) | _ \<Rightarrow> Inl AttributeError)
      else Inr (PStr ''0''))"

text \<open>\<open>InvalidVersion\<close> is a \<open>ValueError\<close>; parsing something other than a string is a \<open>TypeError\<close>.\<close>

definition parse_version :: "env \<Rightarrow> pyval \<Rightarrow> real result" where
  "parse_version E v = (case v of
      PStr s \<Rightarrow> (case e_version_rank E s of None \<Rightarrow> Inl ValueError | Some r \<Rightarrow> Inr r)
    | _ \<Rightarrow> Inl TypeError)"

definition current_version_is_newer :: "env \<Rightarrow> pyval \<Rightarrow> pyval \<Rightarrow> analysis_result \<Rightarrow> bool result" where
  "current_version_is_newer E current_plugin_version current_system_version db_entry =
     bind_r (parse_version E current_plugin_version) (\<lambda>a.
     bind_r (dlookup db_entry ''plugin_version'') (\<lambda>pv.
     bind_r (parse_version E pv) (\<lambda>b.
     bind_r (fix_system_version current_system_version) (\<lambda>csv.
     bind_r (parse_version E csv) (\<lambda>c.
     bind_r (fix_system_version (py_get db_entry ''system_version'' PNone)) (\<lambda>dsv.
     bind_r (parse_version E dsv) (\<lambda>d.
       Inr (a > b \<or> c > d))))))))"

text \<open>A dependency without a stored result is \<open>None['analysis_date']\<close>.\<close>

fun dependencies_are_up_to_date :: "db \<Rightarrow> analysis_result \<Rightarrow> uid \<Rightarrow> string list \<Rightarrow> bool result" where
  "dependencies_are_up_to_date d db_entry u [] = Inr True"
| "dependencies_are_up_to_date d db_entry u (dependency # deps) =
     bind_r (dlookup db_entry ''analysis_date'') (\<lambda>date.
     case get_analysis d u dependency of
       None \<Rightarrow> Inl TypeError
     | Some dependency_entry \<Rightarrow>
         bind_r (dlookup dependency_entry ''analysis_date'') (\<lambda>dep_date.
         bind_r (py_less date dep_date) (\<lambda>older.
           if older then Inr False else dependencies_are_up_to_date d db_entry u deps)))"

definition analysis_is_up_to_date :: "env \<Rightarrow> db \<Rightarrow> analysis_result \<Rightarrow> plugin \<Rightarrow> uid \<Rightarrow> bool result" where
  "analysis_is_up_to_date E d db_entry p u =
     (case current_version_is_newer E (pstr_opt (p_version p)) (pstr_opt (p_system_version p)) db_entry of
        Inr True \<Rightarrow> Inr False
      | Inr False \<Rightarrow> dependencies_are_up_to_date d db_entry u (p_dependencies p)
      | Inl TypeError \<Rightarrow> Inr False
      | Inl ValueError \<Rightarrow> Inr False
      | Inl e \<Rightarrow> Inl e)"

definition analysis_is_already_in_db_and_up_to_date :: "env \<Rightarrow> sched \<Rightarrow> string \<Rightarrow> uid \<Rightarrow> bool result" where
  "analysis_is_already_in_db_and_up_to_date E s analysis_to_do u =
     (case get_analysis (database s) u analysis_to_do of
        None \<Rightarrow> Inr False
      | Some db_entry \<Rightarrow>
          if dmem ''failed'' db_entry then Inr False
          else bind_r (dlookup db_entry ''plugin_version'') (\<lambda>pv.
            if pv = PNone then Inr False
            else bind_r (dlookup (plugins s) analysis_to_do) (\<lambda>p.
              analysis_is_up_to_date E (database s) db_entry p u)))"

section \<open>Black- and whitelists\<close>

definition get_blacklist_and_whitelist_from_plugin :: "sched \<Rightarrow> string \<Rightarrow> (string list \<times> string list) result" where
  "get_blacklist_and_whitelist_from_plugin s p =
     map_r (\<lambda>pl. (p_mime_blacklist pl, p_mime_whitelist pl)) (dlookup (plugins s) p)"

definition opt_list :: "'a list option \<Rightarrow> 'a list" where
  "opt_list x = (case x of None \<Rightarrow> [] | Some l \<Rightarrow> l)"

definition get_blacklist_and_whitelist :: "env \<Rightarrow> sched \<Rightarrow> string \<Rightarrow> (string list \<times> string list) result" where
  "get_blacklist_and_whitelist E s next_analysis =
     (let (blacklist, whitelist) = e_cfg_mime E next_analysis in
      if opt_list blacklist = [] \<and> opt_list whitelist = []
      then get_blacklist_and_whitelist_from_plugin s next_analysis
      else Inr (opt_list blacklist, opt_list whitelist))"

text \<open>The file type, taken from the database when the object does not carry it.\<close>

definition get_file_type_from_object_or_db :: "env \<Rightarrow> sched \<Rightarrow> file_object \<Rightarrow> (string \<times> file_object) result" where
  "get_file_type_from_object_or_db E s fo =
     bind_r (case dget (processed_analysis fo) ''file_type'' of
          Some r \<Rightarrow> Inr (r, fo)
        | None \<Rightarrow> (case get_analysis (database s) (get_uid (e_sha E) fo) ''file_type'' of
            None \<Rightarrow> Inl TypeError
          | Some r \<Rightarrow> Inr (r, fo\<lparr>processed_analysis := dput ''file_type'' r (processed_analysis fo)\<rparr>)))
       (\<lambda>(r, fo1). bind_r (dlookup r ''mime'') (\<lambda>m. case m of
          PStr t \<Rightarrow> Inr (lower t, fo1) | _ \<Rightarrow> Inl AttributeError))"

definition next_analysis_is_blacklisted :: "env \<Rightarrow> sched \<Rightarrow> string \<Rightarrow> file_object \<Rightarrow> (bool \<times> file_object) result" where
  "next_analysis_is_blacklisted E s next_analysis fo =
     bind_r (get_blacklist_and_whitelist E s next_analysis) (\<lambda>(blacklist, whitelist).
       if blacklist = [] \<and> whitelist = [] then Inr (False, fo)
       else bind_r (get_file_type_from_object_or_db E s fo) (\<lambda>(file_type, fo1).
         if whitelist \<noteq> [] then Inr (\<not> substring_is_in_list file_type whitelist, fo1)
         else Inr (substring_is_in_list file_type blacklist, fo1)))"

section \<open>Running and skipping\<close>

definition get_skipped_analysis_result :: "real \<Rightarrow> plugin \<Rightarrow> analysis_result" where
  "get_skipped_analysis_result now p =
     [(''skipped'', PStr ''blacklisted file type''), (''summary'', PList []), (''analysis_date'', PFloat now),
      (''plugin_version'', pstr_opt (p_version p))]"

definition set_missing_binary :: "env \<Rightarrow> file_object \<Rightarrow> file_object result" where
  "set_missing_binary E fo =
     bind_r (if file_path fo = None then map_r (\<lambda>p. fo\<lparr>file_path := Some p\<rparr>) (generate_path E fo) else Inr fo)
       (\<lambda>fo1. Inr (create_binary_from_path (e_sha E) (e_md5 E) (e_read E) fo1))"

definition add_completed_analysis_results_to_file_object ::
  "env \<Rightarrow> sched \<Rightarrow> string \<Rightarrow> file_object \<Rightarrow> file_object" where
  "add_completed_analysis_results_to_file_object E s p fo =
     (case get_analysis (database s) (get_uid (e_sha E) fo) p of
        None \<Rightarrow> fo
      | Some r \<Rightarrow> fo\<lparr>processed_analysis := dput p r (processed_analysis fo)\<rparr>)"

definition start_analysis :: "env \<Rightarrow> string \<Rightarrow> file_object \<Rightarrow> sched \<Rightarrow> sched outcome" where
  "start_analysis E p fo s =
     with_result (if binary fo = None then set_missing_binary E fo else Inr fo) s (\<lambda>fo1.
     with_result (dlookup (plugins s) p) s (\<lambda>pl.
       Done (s\<lparr>plugins := dput p (add_job fo1 pl) (plugins s)\<rparr>)))"

definition start_or_skip_analysis :: "env \<Rightarrow> real \<Rightarrow> string \<Rightarrow> file_object \<Rightarrow> sched \<Rightarrow> sched outcome" where
  "start_or_skip_analysis E now p fo s =
     with_result (if force_update fo then Inr False
                  else analysis_is_already_in_db_and_up_to_date E s p (get_uid (e_sha E) fo)) s (\<lambda>up_to_date.
       if up_to_date then
         with_result (get_cumulative_remaining_dependencies (plugins s) (scheduled_list fo)) s (\<lambda>deps.
           check_further_process_or_complete E now
             (if p \<in> set deps then add_completed_analysis_results_to_file_object E s p fo else fo) s)
       else
         with_result (if p \<in> set MANDATORY_PLUGINS then Inr (False, fo)
                      else next_analysis_is_blacklisted E s p fo) s (\<lambda>(blacklisted, fo1).
           if blacklisted then
             with_result (dlookup (plugins s) p) s (\<lambda>pl.
               let r = get_skipped_analysis_result now pl;
                   fo2 = fo1\<lparr>processed_analysis := dput p r (processed_analysis fo1)\<rparr>
               in bind_o (post_analysis E (get_uid (e_sha E) fo2) p r s)
                    (check_further_process_or_complete E now fo2))
           else start_analysis E p fo1 s))"

text \<open>The task runner: \<open>scheduled_analysis.pop()\<close> takes the last entry.\<close>

definition process_next_analysis_task :: "env \<Rightarrow> real \<Rightarrow> file_object \<Rightarrow> sched \<Rightarrow> sched outcome" where
  "process_next_analysis_task E now fo s =
     (case pre_analysis E now fo s of
        Blocked \<Rightarrow> Blocked
      | Raised e s1 \<Rightarrow>
          if e = DbInterfaceError then on_status (remove_from_current_analyses (e_sha E) now fo) s1
          else Raised e s1
      | Done s1 \<Rightarrow>
          (let s2 = s1\<lparr>unpacking_locks := release_unpacking_lock (get_uid (e_sha E) fo) (unpacking_locks s1)\<rparr> in
           case scheduled_analysis fo of
             None \<Rightarrow> Raised AttributeError s2
           | Some l \<Rightarrow>
               if l = [] then Raised IndexError s2
               else let p = last l; fo1 = fo\<lparr>scheduled_analysis := Some (butlast l)\<rparr> in
                 if \<not> dmem p (plugins s2) then check_further_process_or_complete E now fo1 s2
                 else start_or_skip_analysis E now p fo1 s2))"

definition task_runner :: "env \<Rightarrow> real \<Rightarrow> sched \<Rightarrow> sched outcome" where
  "task_runner E now s = (case process_queue s of
      [] \<Rightarrow> Done s
    | fo # rest \<Rightarrow> process_next_analysis_task E now fo (s\<lparr>process_queue := rest\<rparr>))"

section \<open>The result collector\<close>

definition collect_result :: "env \<Rightarrow> real \<Rightarrow> string \<Rightarrow> sched \<Rightarrow> sched outcome" where
  "collect_result E now p s = (case dget (plugins s) p of
      None \<Rightarrow> Done s
    | Some pl \<Rightarrow> (case out_queue pl of
        [] \<Rightarrow> Done s
      | fo # rest \<Rightarrow>
          (let s1 = s\<lparr>plugins := dput p (pl\<lparr>out_queue := rest\<rparr>) (plugins s)\<rparr> in
           if dmem p (processed_analysis fo) then
             with_result (if analysis_exception fo \<noteq> None then reschedule_failed_analysis_task now (plugins s1) fo
                          else Inr fo) s1 (\<lambda>fo1.
             with_result (dlookup (processed_analysis fo1) p) s1 (\<lambda>r.
               bind_o (post_analysis E (get_uid (e_sha E) fo1) p r s1)
                 (check_further_process_or_complete E now fo1)))
           else check_further_process_or_complete E now fo s1)))"

text \<open>One round of the collector over all plugins.\<close>

definition result_collector :: "env \<Rightarrow> real \<Rightarrow> sched \<Rightarrow> sched outcome" where
  "result_collector E now s = fold (\<lambda>p r. bind_o r (collect_result E now p)) (dkeys (plugins s)) (Done s)"

text \<open>A worker of a plugin takes one task.\<close>

definition plugin_work ::
  "string \<Rightarrow> nat \<Rightarrow> real \<Rightarrow> (file_object \<Rightarrow> run_outcome) \<Rightarrow> sched \<Rightarrow> sched" where
  "plugin_work p worker_id dur run s = (case dget (plugins s) p of
      None \<Rightarrow> s
    | Some pl \<Rightarrow> s\<lparr>plugins := dput p (worker worker_id dur run pl) (plugins s)\<rparr>)"

section \<open>Entry points\<close>

definition start_analysis_of_object :: "env \<Rightarrow> (nat \<Rightarrow> nat \<Rightarrow> nat) \<Rightarrow> real \<Rightarrow> file_object \<Rightarrow> sched \<Rightarrow> sched outcome" where
  "start_analysis_of_object E rnd now fo s =
     bind_o (on_status (add_to_current_analyses (e_sha E) now fo) s) (\<lambda>s1.
     with_result (schedule_analysis_tasks rnd (plugins s1) fo (scheduled_analysis fo) True) s1 (\<lambda>fo1.
       check_further_process_or_complete E now fo1 s1))"

definition update_analysis_of_single_object :: "env \<Rightarrow> (nat \<Rightarrow> nat \<Rightarrow> nat) \<Rightarrow> real \<Rightarrow> file_object \<Rightarrow> sched \<Rightarrow> sched outcome" where
  "update_analysis_of_single_object E rnd now fo s =
     with_result (schedule_analysis_tasks rnd (plugins s) fo (scheduled_analysis fo) False) s (\<lambda>fo1.
       check_further_process_or_complete E now fo1 s)"

definition update_child ::
  "env \<Rightarrow> (nat \<Rightarrow> nat \<Rightarrow> nat) \<Rightarrow> real \<Rightarrow> file_object \<Rightarrow> uid \<Rightarrow> sched \<Rightarrow> sched outcome" where
  "update_child E rnd now fo child_uid s =
     with_result (get_object (database s) child_uid None) s (\<lambda>c. case c of
        None \<Rightarrow> Raised AttributeError s
      | Some child_fo \<Rightarrow>
          with_result (schedule_analysis_tasks rnd (plugins s) (child_fo\<lparr>force_update := force_update fo\<rparr>)
              (scheduled_analysis fo) False) s (\<lambda>child1.
            check_further_process_or_complete E now child1 s))"

text \<open>An endless walk over the included files ends in a \<open>RecursionError\<close>.\<close>

definition update_analysis_of_object_and_children ::
  "env \<Rightarrow> (nat \<Rightarrow> nat \<Rightarrow> nat) \<Rightarrow> real \<Rightarrow> file_object \<Rightarrow> sched \<Rightarrow> sched outcome" where
  "update_analysis_of_object_and_children E rnd now fo s =
     (case get_list_of_all_included_files (database s) fo of
        None \<Rightarrow> Raised RuntimeError s
      | Some included_files \<Rightarrow>
          bind_o (pre_analysis E now fo s) (\<lambda>s1.
          bind_o (on_status (add_update_to_current_analyses (e_sha E) now fo included_files)
              (s1\<lparr>unpacking_locks := release_unpacking_lock (get_uid (e_sha E) fo) (unpacking_locks s1)\<rparr>)) (\<lambda>s2.
          bind_o (fold (\<lambda>c r. bind_o r (update_child E rnd now fo c)) included_files (Done s2)) (\<lambda>s3.
            check_further_process_or_complete E now fo s3))))"

section \<open>Plugins and workload\<close>

definition get_list_of_available_plugins :: "sched \<Rightarrow> string list" where
  "get_list_of_available_plugins s = sort_key lower (dkeys (plugins s))"

text \<open>
  A plugin module that cannot be imported is logged; an exception of the constructor is not
  caught.
\<close>

definition load_plugins :: "(plugin result) result list \<Rightarrow> (string, plugin) dict result" where
  "load_plugins modules = foldM_r (\<lambda>m ps. case m of
      Inl e \<Rightarrow> Inr ps
    | Inr c \<Rightarrow> map_r (\<lambda>p. dput (fstr (p_name p)) p ps) c) modules []"

definition remove_unwanted_plugins :: "string list \<Rightarrow> string list result" where
  "remove_unwanted_plugins l =
     (if ''dummy_plugin_for_testing_only'' \<in> set l then Inr (remove1 ''dummy_plugin_for_testing_only'' l)
      else Inl ValueError)"

record plugin_info =
  pi_description :: "string option"
  pi_mandatory :: bool
  pi_sets :: "(string, bool) dict"
  pi_version :: "string option"
  pi_dependencies :: "string list"
  pi_blacklist :: "string list"
  pi_whitelist :: "string list"
  pi_threads :: nat

datatype plugin_dict_entry = AnalysisInfo plugin_info | UnpackerInfo string bool bool

definition get_plugin_dict :: "env \<Rightarrow> sched \<Rightarrow> (string, plugin_dict_entry) dict result" where
  "get_plugin_dict E s =
     bind_r (remove_unwanted_plugins (get_list_of_available_plugins s)) (\<lambda>plugin_list.
     bind_r (mapM_r (\<lambda>p.
         bind_r (get_blacklist_and_whitelist_from_plugin s p) (\<lambda>(blacklist, whitelist).
         bind_r (dlookup (plugins s) p) (\<lambda>pl.
           Inr (p, AnalysisInfo \<lparr>pi_description = p_description pl, pi_mandatory = p \<in> set MANDATORY_PLUGINS,
             pi_sets = map (\<lambda>(n, ps). (n, p \<in> set ps)) (e_default_plugins E), pi_version = p_version pl,
             pi_dependencies = p_dependencies pl, pi_blacklist = blacklist, pi_whitelist = whitelist,
             pi_threads = get_thread_count (e_cfg_threads E) (e_default_threads E) p\<rparr>)))) plugin_list)
       (\<lambda>r. Inr (dput ''unpacker''
          (UnpackerInfo ''Additional information provided by the unpacker'' True False) r)))"

definition get_combined_analysis_workload :: "sched \<Rightarrow> nat" where
  "get_combined_analysis_workload s =
     length (process_queue s) + sum_list (map (\<lambda>(_, p). length (in_queue p)) (plugins s))"

record workload =
  wl_main :: nat
  wl_plugins :: "(string, nat \<times> nat \<times> (real \<times> real \<times> real \<times> nat) option) dict"
  wl_current :: "(uid, int \<times> int \<times> real \<times> int \<times> string) dict"
  wl_finished :: "(uid, finished_status) dict"

definition get_scheduled_workload :: "real \<Rightarrow> sched \<Rightarrow> (workload \<times> sched) option" where
  "get_scheduled_workload now s = (case on_status (clear_recently_finished now) s of
      Done s1 \<Rightarrow> Some (\<lparr>wl_main = length (process_queue s1),
          wl_plugins = map (\<lambda>(n, p). (n, (length (in_queue p), sum_list (take (thread_count p) (active p)),
             get_plugin_stats p))) (plugins s1),
          wl_current = get_current_analyses_stats (status s1),
          wl_finished = recently_finished (status s1)\<rparr>, s1)
    | _ \<Rightarrow> None)"

end
