(* ===== verification/AnalysisPipeline.thy ===== *)
theory AnalysisPipeline
  imports AnalysisScheduler
begin

text \<open>
  The runs of the analysis system as a step relation: the task runner, the workers of the
  plugins and the result collector take turns in any order. The lemmas show that every run
  ends, that no task is lost, and that a task reaches a plugin only after the plugins it
  depends on.
\<close>

section \<open>What a step does to its task\<close>

text \<open>A task without a binary is stored under its UID.\<close>

definition bin_ok :: "env \<Rightarrow> file_object \<Rightarrow> bool" where
  "bin_ok E fo \<longleftrightarrow> binary fo \<noteq> None \<or> (case fo_uid fo of
      None \<Rightarrow> False
    | Some u \<Rightarrow> bytes_uid (e_sha E) (e_read E (case file_path fo of
        None \<Rightarrow> generate_path_from_uid (e_storage E) u | Some p \<Rightarrow> p)) = u)"

definition same_task :: "env \<Rightarrow> file_object \<Rightarrow> file_object \<Rightarrow> bool" where
  "same_task E fo fo' \<longleftrightarrow> depth fo' = depth fo \<and>
     set (dkeys (processed_analysis fo)) \<subseteq> set (dkeys (processed_analysis fo')) \<and>
     (bin_ok E fo \<longrightarrow> get_uid (e_sha E) fo' = get_uid (e_sha E) fo \<and> bin_ok E fo')"

definition same_env :: "sched \<Rightarrow> sched \<Rightarrow> bool" where
  "same_env s s1 \<longleftrightarrow> plugins s1 = plugins s \<and> process_queue s1 = process_queue s \<and> status s1 = status s"

definition dropped :: "env \<Rightarrow> real \<Rightarrow> file_object \<Rightarrow> sched \<Rightarrow> sched \<Rightarrow> bool" where
  "dropped E now fo s s' \<longleftrightarrow> plugins s' = plugins s \<and> process_queue s' = process_queue s \<and>
     remove_from_current_analyses (e_sha E) now fo (status s) = Done (status s')"

definition requeued :: "file_object \<Rightarrow> sched \<Rightarrow> sched \<Rightarrow> bool" where
  "requeued fo s s' \<longleftrightarrow> plugins s' = plugins s \<and> process_queue s' = process_queue s @ [fo] \<and> status s' = status s"

definition started :: "string \<Rightarrow> file_object \<Rightarrow> sched \<Rightarrow> sched \<Rightarrow> bool" where
  "started p fo s s' \<longleftrightarrow> process_queue s' = process_queue s \<and> status s' = status s \<and>
     (\<exists>pl. dget (plugins s) p = Some pl \<and> plugins s' = dput p (add_job fo pl) (plugins s))"

lemmas effect_defs = same_env_def dropped_def requeued_def started_def

lemma same_task_refl [simp, intro]: "same_task E fo fo"
  by (simp add: same_task_def)

lemma same_task_trans: "same_task E a b \<Longrightarrow> same_task E b c \<Longrightarrow> same_task E a c"
  by (auto simp: same_task_def)

lemma bin_ok_update [simp]:
  "bin_ok E (fo\<lparr>processed_analysis := pa\<rparr>) = bin_ok E fo"
  "bin_ok E (fo\<lparr>scheduled_analysis := sa\<rparr>) = bin_ok E fo"
  "bin_ok E (fo\<lparr>analysis_exception := ae\<rparr>) = bin_ok E fo"
  by (simp_all add: bin_ok_def split: option.split)

lemma get_uid_update [simp]:
  "get_uid sha (fo\<lparr>processed_analysis := pa\<rparr>) = get_uid sha fo"
  "get_uid sha (fo\<lparr>scheduled_analysis := sa\<rparr>) = get_uid sha fo"
  "get_uid sha (fo\<lparr>analysis_exception := ae\<rparr>) = get_uid sha fo"
  by (simp_all add: get_uid_def split: option.split)

lemma same_task_put:
  "same_task E fo (fo\<lparr>processed_analysis := dput p r (processed_analysis fo)\<rparr>)"
  by (auto simp: same_task_def)

lemma check_further_cases:
  assumes "check_further_process_or_complete E now fo s = Done s'"
  shows "scheduled_list fo = [] \<and> dropped E now fo s s' \<or> scheduled_list fo \<noteq> [] \<and> requeued fo s s'"
  using assms
  by (auto simp: check_further_process_or_complete_def on_status_def effect_defs split: if_splits outcome.splits)

lemma create_binary_from_path_keeps:
  "scheduled_analysis (create_binary_from_path a b c fo) = scheduled_analysis fo"
  "processed_analysis (create_binary_from_path a b c fo) = processed_analysis fo"
  "depth (create_binary_from_path a b c fo) = depth fo"
  "file_path fo \<noteq> None \<Longrightarrow> binary (create_binary_from_path a b c fo) \<noteq> None"
  by (cases "file_path fo"; cases "fw fo"; cases "binary fo"; simp add: create_binary_from_path_def set_binary_def
      set_binary_fo_def Let_def update_root_id_and_virtual_path_def)+

lemma create_binary_from_path_uid:
  "file_path fo = Some p \<Longrightarrow> binary fo = None \<Longrightarrow>
   get_uid sha (create_binary_from_path sha b read fo) = Some (bytes_uid sha (read p))"
  by (cases "fw fo"; simp add: create_binary_from_path_def set_binary_def set_binary_fo_def Let_def
      update_root_id_and_virtual_path_def)

lemma set_missing_binary_path:
  assumes "set_missing_binary E fo = Inr fo'"
  shows "\<exists>fo1 p. fo' = create_binary_from_path (e_sha E) (e_md5 E) (e_read E) fo1 \<and> file_path fo1 = Some p \<and>
    scheduled_analysis fo1 = scheduled_analysis fo \<and> processed_analysis fo1 = processed_analysis fo \<and>
    depth fo1 = depth fo \<and> binary fo1 = binary fo \<and>
    (binary fo = None \<longrightarrow> bin_ok E fo \<longrightarrow> fo_uid fo \<noteq> None \<longrightarrow> Some (bytes_uid (e_sha E) (e_read E p)) = fo_uid fo)"
proof (cases "file_path fo")
  case None
  with assms obtain p where p: "generate_path E fo = Inr p"
    and fo': "fo' = create_binary_from_path (e_sha E) (e_md5 E) (e_read E) (fo\<lparr>file_path := Some p\<rparr>)"
    by (auto simp: set_missing_binary_def result_simps)
  have "binary fo = None \<longrightarrow> bin_ok E fo \<longrightarrow> fo_uid fo \<noteq> None \<longrightarrow> Some (bytes_uid (e_sha E) (e_read E p)) = fo_uid fo"
    using p None by (auto simp: generate_path_def bin_ok_def)
  with fo' show ?thesis by (intro exI[of _ "fo\<lparr>file_path := Some p\<rparr>"] exI[of _ p]) simp
next
  case (Some p)
  with assms have "fo' = create_binary_from_path (e_sha E) (e_md5 E) (e_read E) fo"
    by (simp add: set_missing_binary_def)
  with Some show ?thesis by (intro exI[of _ fo] exI[of _ p]) (auto simp: bin_ok_def)
qed

lemma set_missing_binary_keeps:
  assumes "set_missing_binary E fo = Inr fo'"
  shows "scheduled_analysis fo' = scheduled_analysis fo" "processed_analysis fo' = processed_analysis fo"
    "depth fo' = depth fo" "binary fo' \<noteq> None"
    "binary fo = None \<Longrightarrow> fo_uid fo \<noteq> None \<Longrightarrow> bin_ok E fo \<Longrightarrow> get_uid (e_sha E) fo' = fo_uid fo"
  using set_missing_binary_path[OF assms] create_binary_from_path_uid
  by (metis create_binary_from_path_keeps(1,2,3,4) option.distinct(1))+

lemma start_analysis_cases:
  assumes "start_analysis E p fo s = Done s'"
  shows "\<exists>fo'. same_task E fo fo' \<and> scheduled_analysis fo' = scheduled_analysis fo \<and>
    processed_analysis fo' = processed_analysis fo \<and> started p fo' s s'"
proof -
  from assms obtain fo' pl where fo': "(if binary fo = None then set_missing_binary E fo else Inr fo) = Inr fo'"
    and s': "dget (plugins s) p = Some pl" "s' = s\<lparr>plugins := dput p (add_job fo' pl) (plugins s)\<rparr>"
    by (auto simp: start_analysis_def with_result_Done_iff simp del: sum.inject)
  have "same_task E fo fo' \<and> scheduled_analysis fo' = scheduled_analysis fo \<and>
      processed_analysis fo' = processed_analysis fo"
  proof (cases "binary fo = None")
    case True
    with fo' have "set_missing_binary E fo = Inr fo'" by simp
    note keeps = set_missing_binary_keeps[OF this]
    have "bin_ok E fo \<Longrightarrow> fo_uid fo \<noteq> None" using True by (auto simp: bin_ok_def split: option.splits)
    with keeps True have "bin_ok E fo \<longrightarrow> get_uid (e_sha E) fo' = get_uid (e_sha E) fo \<and> bin_ok E fo'"
      by (auto simp: bin_ok_def)
    with keeps show ?thesis by (simp add: same_task_def)
  next
    case False
    with fo' show ?thesis by simp
  qed
  with s' show ?thesis by (auto simp: started_def)
qed

text \<open>Where a task whose next plugin is \<open>p\<close> goes.\<close>

definition moved :: "env \<Rightarrow> real \<Rightarrow> string \<Rightarrow> file_object \<Rightarrow> sched \<Rightarrow> sched \<Rightarrow> bool" where
  "moved E now p fo s s' \<longleftrightarrow> (\<exists>fo' s1. same_env s s1 \<and> same_task E fo fo' \<and>
     scheduled_analysis fo' = scheduled_analysis fo \<and>
     (started p fo' s1 s' \<or>
      (dmem p (plugins s) \<longrightarrow> p \<in> set (scheduled_list fo) \<or> dmem p (processed_analysis fo') \<or> (\<forall>q \<in> set (scheduled_list fo). p \<notin> dep_set (plugins s) q)) \<and>
      (scheduled_list fo = [] \<and> dropped E now fo' s1 s' \<or> scheduled_list fo \<noteq> [] \<and> requeued fo' s1 s')))"

lemma moved_checked:
  assumes "check_further_process_or_complete E now fo' s1 = Done s'" "same_env s s1" "same_task E fo fo'"
    "scheduled_analysis fo' = scheduled_analysis fo"
    "dmem p (plugins s) \<longrightarrow> p \<in> set (scheduled_list fo) \<or> dmem p (processed_analysis fo') \<or> (\<forall>q \<in> set (scheduled_list fo). p \<notin> dep_set (plugins s) q)"
  shows "moved E now p fo s s'"
proof -
  have "scheduled_list fo' = scheduled_list fo" using assms(4) by (simp add: scheduled_list_def)
  with check_further_cases[OF assms(1)] assms(2-5) show ?thesis unfolding moved_def by metis
qed

lemma bind_r_prod_Inr_iff:
  "bind_r X (\<lambda>(a, b). F a b) = Inr y \<longleftrightarrow> (\<exists>a b. X = Inr (a, b) \<and> F a b = Inr y)"
  by (cases X) auto

lemma get_file_type_keeps:
  assumes "get_file_type_from_object_or_db E s fo = Inr (t, fo1)"
  shows "same_task E fo fo1 \<and> scheduled_analysis fo1 = scheduled_analysis fo"
proof -
  from assms obtain r fo2 where
    r: "(case dget (processed_analysis fo) ''file_type'' of
          Some r \<Rightarrow> Inr (r, fo)
        | None \<Rightarrow> (case get_analysis (database s) (get_uid (e_sha E) fo) ''file_type'' of
            None \<Rightarrow> Inl TypeError
          | Some r \<Rightarrow> Inr (r, fo\<lparr>processed_analysis := dput ''file_type'' r (processed_analysis fo)\<rparr>))) = Inr (r, fo2)"
    and m: "bind_r (dlookup r ''mime'') (\<lambda>m. case m of PStr t \<Rightarrow> Inr (lower t, fo2) | _ \<Rightarrow> Inl AttributeError) = Inr (t, fo1)"
    unfolding get_file_type_from_object_or_db_def bind_r_prod_Inr_iff by blast
  from m obtain x where "(case x of PStr t \<Rightarrow> Inr (lower t, fo2) | _ \<Rightarrow> Inl AttributeError) = Inr (t, fo1)"
    unfolding bind_r_Inr_iff by blast
  then have "fo2 = fo1" by (cases x) auto
  with r have "(case dget (processed_analysis fo) ''file_type'' of
          Some r \<Rightarrow> Inr (r, fo)
        | None \<Rightarrow> (case get_analysis (database s) (get_uid (e_sha E) fo) ''file_type'' of
            None \<Rightarrow> Inl TypeError
          | Some r \<Rightarrow> Inr (r, fo\<lparr>processed_analysis := dput ''file_type'' r (processed_analysis fo)\<rparr>))) = Inr (r, fo1)" by simp
  then show ?thesis using same_task_put
    by (auto split: option.splits)
qed

lemma next_analysis_is_blacklisted_keeps:
  assumes "next_analysis_is_blacklisted E s p fo = Inr (b, fo1)"
  shows "same_task E fo fo1 \<and> scheduled_analysis fo1 = scheduled_analysis fo"
proof -
  from assms have "fo1 = fo \<or> (\<exists>t. get_file_type_from_object_or_db E s fo = Inr (t, fo1))"
    unfolding next_analysis_is_blacklisted_def bind_r_Inr_iff
    by (auto simp: bind_r_Inr_iff split: prod.splits if_splits)
  with get_file_type_keeps show ?thesis by auto
qed

lemma start_or_skip_cases:
  assumes "start_or_skip_analysis E now p fo s = Done s'"
  shows "moved E now p fo s s'"
proof -
  from assms obtain up where up: "(if force_update fo then Inr False
      else analysis_is_already_in_db_and_up_to_date E s p (get_uid (e_sha E) fo)) = Inr up"
    by (auto simp: start_or_skip_analysis_def with_result_Done_iff)
  show ?thesis
  proof (cases up)
    case True
    with assms up obtain deps where deps: "get_cumulative_remaining_dependencies (plugins s) (scheduled_list fo) = Inr deps"
      and c: "check_further_process_or_complete E now
        (if p \<in> set deps then add_completed_analysis_results_to_file_object E s p fo else fo) s = Done s'"
      by (auto simp: start_or_skip_analysis_def with_result_Done_iff)
    have known: "get_analysis (database s) (get_uid (e_sha E) fo) p \<noteq> None"
      using up True by (auto simp: analysis_is_already_in_db_and_up_to_date_def split: if_splits option.splits)
    let ?fo' = "if p \<in> set deps then add_completed_analysis_results_to_file_object E s p fo else fo"
    have "same_task E fo ?fo' \<and> scheduled_analysis ?fo' = scheduled_analysis fo"
      using same_task_put by (auto simp: add_completed_analysis_results_to_file_object_def split: option.split)
    moreover have "dmem p (plugins s) \<longrightarrow> p \<in> set (scheduled_list fo) \<or> dmem p (processed_analysis ?fo') \<or>
        (\<forall>q \<in> set (scheduled_list fo). p \<notin> dep_set (plugins s) q)"
      using remaining_deps_Inr(1)[OF deps] known
      by (auto simp: add_completed_analysis_results_to_file_object_def dmem_def)
    moreover have "same_env s s" by (simp add: same_env_def)
    ultimately show ?thesis using moved_checked[OF c] by blast
  next
    case False
    with assms up obtain b fo1 where
      b: "(if p \<in> set MANDATORY_PLUGINS then Inr (False, fo) else next_analysis_is_blacklisted E s p fo) = Inr (b, fo1)"
      and rest: "(if b then with_result (dlookup (plugins s) p) s (\<lambda>pl.
               let r = get_skipped_analysis_result now pl;
                   fo2 = fo1\<lparr>processed_analysis := dput p r (processed_analysis fo1)\<rparr>
               in bind_o (post_analysis E (get_uid (e_sha E) fo2) p r s)
                    (check_further_process_or_complete E now fo2))
           else start_analysis E p fo1 s) = Done s'"
      by (auto simp: start_or_skip_analysis_def with_result_Done_iff simp del: sum.inject)
    have fo1: "same_task E fo fo1" "scheduled_analysis fo1 = scheduled_analysis fo"
      using b next_analysis_is_blacklisted_keeps by (auto split: if_splits)
    show ?thesis
    proof (cases b)
      case True
      with rest obtain pl s1 where
        s1: "post_analysis E (get_uid (e_sha E) fo1) p (get_skipped_analysis_result now pl) s = Done s1" and
        c: "check_further_process_or_complete E now
          (fo1\<lparr>processed_analysis := dput p (get_skipped_analysis_result now pl) (processed_analysis fo1)\<rparr>) s1 = Done s'"
        by (auto simp: with_result_Done_iff bind_o_Done_iff Let_def)
      have "same_env s s1"
        using s1 by (auto simp: post_analysis_def on_database_def same_env_def split: prod.splits sum.splits)
      from c this show ?thesis
        by (rule moved_checked) (use fo1 same_task_trans[OF fo1(1) same_task_put] in \<open>auto simp: dmem_iff\<close>)
    next
      case False
      with rest start_analysis_cases[of E p fo1 s s'] fo1 same_task_trans[OF fo1(1)]
      show ?thesis unfolding moved_def same_env_def by metis
    qed
  qed
qed

lemma same_env_trans: "same_env a b \<Longrightarrow> same_env b c \<Longrightarrow> same_env a c"
  by (simp add: same_env_def)

lemma process_next_cases:
  assumes "process_next_analysis_task E now fo s = Done s'"
  shows "\<exists>s1. same_env s s1 \<and> (dropped E now fo s1 s' \<or>
    (\<exists>l. scheduled_analysis fo = Some l \<and> l \<noteq> [] \<and>
       moved E now (last l) (fo\<lparr>scheduled_analysis := Some (butlast l)\<rparr>) s1 s'))"
proof (cases "pre_analysis E now fo s")
  case (Done s1)
  let ?s2 = "s1\<lparr>unpacking_locks := release_unpacking_lock (get_uid (e_sha E) fo) (unpacking_locks s1)\<rparr>"
  have env: "same_env s ?s2"
    using Done by (auto simp: pre_analysis_def on_database_def same_env_def split: prod.splits sum.splits)
  from assms Done obtain l where l: "scheduled_analysis fo = Some l" "l \<noteq> []"
    by (auto simp: process_next_analysis_task_def Let_def split: option.splits if_splits)
  let ?fo = "fo\<lparr>scheduled_analysis := Some (butlast l)\<rparr>"
  from assms Done l have r: "(if \<not> dmem (last l) (plugins ?s2) then check_further_process_or_complete E now ?fo ?s2
      else start_or_skip_analysis E now (last l) ?fo ?s2) = Done s'"
    by (simp add: process_next_analysis_task_def Let_def)
  have "moved E now (last l) ?fo ?s2 s'"
  proof (cases "dmem (last l) (plugins ?s2)")
    case True
    with r show ?thesis by (intro start_or_skip_cases) simp
  next
    case False
    with r have "check_further_process_or_complete E now ?fo ?s2 = Done s'" by simp
    then show ?thesis by (rule moved_checked) (use False in \<open>simp_all add: same_env_def\<close>)
  qed
  with env l show ?thesis by blast
next
  case (Raised e s1)
  have env: "same_env s s1"
    using Raised by (auto simp: pre_analysis_def on_database_def same_env_def split: prod.splits sum.splits)
  from assms Raised have "on_status (remove_from_current_analyses (e_sha E) now fo) s1 = Done s'"
    by (auto simp: process_next_analysis_task_def split: if_splits)
  then have "dropped E now fo s1 s'" by (auto simp: on_status_def dropped_def split: outcome.splits)
  with env show ?thesis by blast
next
  case Blocked
  with assms show ?thesis by (simp add: process_next_analysis_task_def)
qed

lemma reschedule_keys:
  assumes "reschedule_failed_analysis_task now ps fo = Inr fo'" "analysis_exception fo = Some (f, cause)"
  shows "same_task E fo fo'" "dmem f (processed_analysis fo')"
proof -
  from assms obtain res fo2 where
    fo2: "foldM_r (unschedule_dependent now ps f) (scheduled_list fo)
        (fo\<lparr>processed_analysis := dput f res (processed_analysis fo)\<rparr>) = Inr fo2" and
    fo': "fo' = fo2\<lparr>analysis_exception := None\<rparr>"
    by (auto simp: reschedule_failed_analysis_task_def result_simps Let_def scheduled_list_def)
  let ?fo1 = "fo\<lparr>processed_analysis := dput f res (processed_analysis fo)\<rparr>"
  have "same_task E ?fo1 fo2 \<and> dmem f (processed_analysis fo2)"
  proof (rule foldM_r_inv[OF fo2])
    show "same_task E ?fo1 ?fo1 \<and> dmem f (processed_analysis ?fo1)" by simp
    fix x a b assume "unschedule_dependent now ps f x a = Inr b" "same_task E ?fo1 a \<and> dmem f (processed_analysis a)"
    then show "same_task E ?fo1 b \<and> dmem f (processed_analysis b)"
      by (auto simp: unschedule_dependent_def result_simps same_task_def split: if_splits)
  qed
  moreover have "same_task E fo ?fo1" by (rule same_task_put)
  moreover have "same_task E fo2 fo'" by (simp add: fo' same_task_def)
  ultimately show "same_task E fo fo'" "dmem f (processed_analysis fo')"
    by (blast intro: same_task_trans) (use \<open>same_task E ?fo1 fo2 \<and> dmem f (processed_analysis fo2)\<close> in \<open>simp add: fo'\<close>)
qed

text \<open>What the collector hands on: a failed plugin takes its direct dependents with it.\<close>

definition collected :: "env \<Rightarrow> plugins \<Rightarrow> file_object \<Rightarrow> file_object \<Rightarrow> bool" where
  "collected E ps fo fo' \<longleftrightarrow> same_task E fo fo' \<and>
     (scheduled_list fo' = scheduled_list fo \<or>
      (\<exists>f. scheduled_list fo' = filter (\<lambda>p. f \<notin> dep_set ps p) (scheduled_list fo) \<and> dmem f (processed_analysis fo') \<and>
         (\<forall>p \<in> set (scheduled_list fo). f \<in> dep_set ps p \<longrightarrow> dmem p (processed_analysis fo'))))"

lemma collect_cases:
  assumes "collect_result E now p s = Done s'" "dget (plugins s) p = Some pl" "out_queue pl = fo # rest"
  shows "\<exists>fo' s1. same_env (s\<lparr>plugins := dput p (pl\<lparr>out_queue := rest\<rparr>) (plugins s)\<rparr>) s1 \<and>
    collected E (dput p (pl\<lparr>out_queue := rest\<rparr>) (plugins s)) fo fo' \<and>
    (scheduled_list fo' = [] \<and> dropped E now fo' s1 s' \<or> scheduled_list fo' \<noteq> [] \<and> requeued fo' s1 s')"
proof -
  let ?s = "s\<lparr>plugins := dput p (pl\<lparr>out_queue := rest\<rparr>) (plugins s)\<rparr>"
  show ?thesis
  proof (cases "dmem p (processed_analysis fo)")
    case False
    with assms have "check_further_process_or_complete E now fo ?s = Done s'"
      by (simp add: collect_result_def Let_def)
    from check_further_cases[OF this] show ?thesis
      by (intro exI[of _ fo] exI[of _ ?s]) (auto simp: same_env_def collected_def)
  next
    case True
    with assms obtain fo' r s1 where
      fo': "(if analysis_exception fo \<noteq> None then reschedule_failed_analysis_task now (plugins ?s) fo else Inr fo) = Inr fo'" and
      s1: "post_analysis E (get_uid (e_sha E) fo') p r ?s = Done s1" and
      c: "check_further_process_or_complete E now fo' s1 = Done s'"
      by (auto simp: collect_result_def Let_def with_result_Done_iff bind_o_Done_iff simp del: sum.inject)
    have env: "same_env ?s s1"
      using s1 by (auto simp: post_analysis_def on_database_def same_env_def split: prod.splits sum.splits)
    have "collected E (plugins ?s) fo fo'"
    proof (cases "analysis_exception fo")
      case None
      with fo' show ?thesis by (simp add: collected_def)
    next
      case (Some fc)
      obtain f cause where fc: "analysis_exception fo = Some (f, cause)" using Some by (cases fc) auto
      with fo' have r: "reschedule_failed_analysis_task now (plugins ?s) fo = Inr fo'" by simp
      from reschedule_failed_spec[OF r fc] reschedule_keys[OF r fc] show ?thesis
        unfolding collected_def dmem_def by blast
    qed
    with env check_further_cases[OF c] show ?thesis by (intro exI[of _ fo'] exI[of _ s1]) auto
  qed
qed

section \<open>Steps and runs\<close>

text \<open>What the scheduler relies on: an analysis keeps the identity and the schedule of its object
  and only adds to its results.\<close>

definition run_ok :: "env \<Rightarrow> (file_object \<Rightarrow> run_outcome) \<Rightarrow> bool" where
  "run_ok E run \<longleftrightarrow> (\<forall>fo fo'. run fo = RunFinished fo' \<longrightarrow>
     same_task E fo fo' \<and> scheduled_analysis fo' = scheduled_analysis fo)"

inductive pipeline_step :: "env \<Rightarrow> sched \<Rightarrow> sched \<Rightarrow> bool" for E where
  step_runner: "process_queue s = fo # rest \<Longrightarrow> task_runner E now s = Done s' \<Longrightarrow> pipeline_step E s s'"
| step_collector: "dget (plugins s) p = Some pl \<Longrightarrow> out_queue pl = fo # rest \<Longrightarrow>
     collect_result E now p s = Done s' \<Longrightarrow> pipeline_step E s s'"
| step_worker: "dget (plugins s) p = Some pl \<Longrightarrow> in_queue pl = fo # rest \<Longrightarrow> run_ok E run \<Longrightarrow>
     pipeline_step E s (plugin_work p worker_id dur run s)"

text \<open>The same for all handlers: one task is taken from a queue and put in another or finished.\<close>

lemma worker_cases:
  assumes "in_queue pl = fo # rest" "run_ok E run"
  shows "\<exists>fo'. same_task E fo fo' \<and> scheduled_analysis fo' = scheduled_analysis fo \<and>
    dmem (fstr (p_name pl)) (processed_analysis fo') \<and>
    in_queue (worker w dur run pl) = rest \<and> out_queue (worker w dur run pl) = out_queue pl @ [fo'] \<and>
    p_name (worker w dur run pl) = p_name pl \<and> p_dependencies (worker w dur run pl) = p_dependencies pl \<and>
    p_recursive (worker w dur run pl) = p_recursive pl"
proof -
  let ?t = "fo\<lparr>processed_analysis := dput (fstr (p_name pl)) [] (processed_analysis fo)\<rparr>"
  have t: "same_task E fo ?t" by (rule same_task_put)
  have upd: "in_queue (update_duration_stats dur q) = in_queue q" "out_queue (update_duration_stats dur q) = out_queue q"
    "p_name (update_duration_stats dur q) = p_name q" "p_dependencies (update_duration_stats dur q) = p_dependencies q"
    "p_recursive (update_duration_stats dur q) = p_recursive q" for q
    by (simp_all add: update_duration_stats_def Let_def)
  show ?thesis
  proof (cases "run ?t")
    case (RunFinished fo')
    with assms(2) have r: "same_task E ?t fo'" "scheduled_analysis fo' = scheduled_analysis ?t" by (auto simp: run_ok_def)
    then have "dmem (fstr (p_name pl)) (processed_analysis fo')" by (auto simp: same_task_def dmem_iff)
    with r same_task_trans[OF t r(1)] RunFinished assms(1) show ?thesis
      by (intro exI[of _ fo']) (simp add: worker_def worker_processing_with_timeout_def Let_def upd)
  next
    case RunTimeout
    have "same_task E ?t (?t\<lparr>analysis_exception := x\<rparr>)" for x by (simp add: same_task_def)
    from same_task_trans[OF t this] RunTimeout assms(1) show ?thesis
      by (simp add: worker_def worker_processing_with_timeout_def handle_failed_analysis_def Let_def upd)
  next
    case RunException
    have "same_task E ?t (?t\<lparr>analysis_exception := x\<rparr>)" for x by (simp add: same_task_def)
    from same_task_trans[OF t this] RunException assms(1) show ?thesis
      by (simp add: worker_def worker_processing_with_timeout_def handle_failed_analysis_def Let_def upd)
  qed
qed

section \<open>The work that is left and the tasks in the queues\<close>

definition plugin_work_left :: "plugin \<Rightarrow> nat" where
  "plugin_work_left pl = sum_list (map (\<lambda>fo. 3 * length (scheduled_list fo) + 3) (in_queue pl)) +
     sum_list (map (\<lambda>fo. 3 * length (scheduled_list fo) + 2) (out_queue pl))"

definition work_left :: "sched \<Rightarrow> nat" where
  "work_left s = sum_list (map (\<lambda>fo. 3 * length (scheduled_list fo) + 1) (process_queue s)) +
     sum_list (map (plugin_work_left \<circ> snd) (plugins s))"

definition plugin_uids :: "env \<Rightarrow> plugin \<Rightarrow> uid multiset" where
  "plugin_uids E pl = image_mset (get_uid (e_sha E)) (mset (in_queue pl) + mset (out_queue pl))"

definition queued_uids :: "env \<Rightarrow> sched \<Rightarrow> uid multiset" where
  "queued_uids E s = image_mset (get_uid (e_sha E)) (mset (process_queue s)) +
     sum_list (map (plugin_uids E \<circ> snd) (plugins s))"

definition tasks :: "sched \<Rightarrow> file_object set" where
  "tasks s = set (process_queue s) \<union> (\<Union>pl \<in> set (dvalues (plugins s)). set (in_queue pl) \<union> set (out_queue pl))"

definition pipe_inv :: "env \<Rightarrow> sched \<Rightarrow> bool" where
  "pipe_inv E s \<longleftrightarrow> dict_ok (plugins s) \<and> (\<forall>fo \<in> tasks s. bin_ok E fo)"

lemma sum_dput:
  fixes f :: "'b \<Rightarrow> 'c::comm_monoid_add"
  assumes "map_of d p = Some pl"
  shows "sum_list (map (f \<circ> snd) (dput p pl' d)) + f pl = sum_list (map (f \<circ> snd) d) + f pl'"
  using assms by (induction d) (auto simp: ac_simps)

lemma dvalues_dput: "set (dvalues (dput p pl d)) \<subseteq> insert pl (set (dvalues d))"
  by (induction d) (auto simp: dvalues_def)

lemma work_left_dput:
  "map_of (plugins s) p = Some pl \<Longrightarrow> plugins s' = dput p pl' (plugins s) \<Longrightarrow>
   work_left s' + sum_list (map (\<lambda>fo. 3 * length (scheduled_list fo) + 1) (process_queue s)) + plugin_work_left pl =
   work_left s + sum_list (map (\<lambda>fo. 3 * length (scheduled_list fo) + 1) (process_queue s')) + plugin_work_left pl'"
  using sum_dput[of "plugins s" p pl plugin_work_left pl'] by (simp add: work_left_def)

lemma queued_uids_dput:
  "map_of (plugins s) p = Some pl \<Longrightarrow> plugins s' = dput p pl' (plugins s) \<Longrightarrow>
   queued_uids E s' + image_mset (get_uid (e_sha E)) (mset (process_queue s)) + plugin_uids E pl =
   queued_uids E s + image_mset (get_uid (e_sha E)) (mset (process_queue s')) + plugin_uids E pl'"
  using sum_dput[of "plugins s" p pl "plugin_uids E" pl'] by (simp add: queued_uids_def ac_simps)

lemma tasks_dput:
  "map_of (plugins s) p = Some pl \<Longrightarrow> plugins s' = dput p pl' (plugins s) \<Longrightarrow>
   tasks s' \<subseteq> set (process_queue s') \<union> tasks s \<union> set (in_queue pl') \<union> set (out_queue pl')"
  using dvalues_dput[of p pl' "plugins s"] by (auto simp: tasks_def)

lemma tasks_plugin: "map_of (plugins s) p = Some pl \<Longrightarrow> set (in_queue pl) \<union> set (out_queue pl) \<subseteq> tasks s"
  using dget_in_dvalues[of "plugins s" p pl] by (auto simp: tasks_def)

text \<open>The effect of one step on the state without the task it takes up.\<close>

definition placed :: "env \<Rightarrow> file_object \<Rightarrow> sched \<Rightarrow> sched \<Rightarrow> bool" where
  "placed E fo s0 s' \<longleftrightarrow>
     (\<exists>now. dropped E now fo s0 s') \<or> requeued fo s0 s' \<or> (\<exists>p. started p fo s0 s')"

lemma placed_effect:
  assumes "placed E fo s0 s'" "pipe_inv E s0" "bin_ok E fo"
  shows "pipe_inv E s'"
    "work_left s' \<le> work_left s0 + 3 * length (scheduled_list fo) + 3"
    "\<not> (\<exists>p. started p fo s0 s') \<Longrightarrow> work_left s' \<le> work_left s0 + 3 * length (scheduled_list fo) + 1"
    "queued_uids E s' = add_mset (get_uid (e_sha E) fo) (queued_uids E s0) \<and> status s' = status s0 \<or>
     queued_uids E s' = queued_uids E s0 \<and>
       (\<exists>now. remove_from_current_analyses (e_sha E) now fo (status s0) = Done (status s'))"
proof -
  consider (drop) now where "dropped E now fo s0 s'" | (req) "requeued fo s0 s'" | (start) p where "started p fo s0 s'"
    using assms(1) by (auto simp: placed_def)
  then have "pipe_inv E s' \<and> work_left s' \<le> work_left s0 + 3 * length (scheduled_list fo) + 3 \<and>
    (\<not> (\<exists>p. started p fo s0 s') \<longrightarrow> work_left s' \<le> work_left s0 + 3 * length (scheduled_list fo) + 1) \<and>
    (queued_uids E s' = add_mset (get_uid (e_sha E) fo) (queued_uids E s0) \<and> status s' = status s0 \<or>
     queued_uids E s' = queued_uids E s0 \<and>
       (\<exists>now. remove_from_current_analyses (e_sha E) now fo (status s0) = Done (status s')))"
  proof cases
    case drop
    then show ?thesis using assms
      by (auto simp: dropped_def pipe_inv_def work_left_def queued_uids_def tasks_def)
  next
    case req
    then show ?thesis using assms
      by (auto simp: requeued_def pipe_inv_def work_left_def queued_uids_def tasks_def)
  next
    case start
    then obtain pl where pl: "map_of (plugins s0) p = Some pl" "plugins s' = dput p (add_job fo pl) (plugins s0)"
      "process_queue s' = process_queue s0" "status s' = status s0" by (auto simp: started_def)
    have w: "plugin_work_left (add_job fo pl) \<le> plugin_work_left pl + 3 * length (scheduled_list fo) + 3"
      using add_job_cases[of fo pl] by (auto simp: plugin_work_left_def)
    have u: "plugin_uids E (add_job fo pl) = add_mset (get_uid (e_sha E) fo) (plugin_uids E pl)"
      using add_job_cases[of fo pl] by (auto simp: plugin_uids_def)
    have "set (process_queue s') \<subseteq> tasks s0" by (simp add: pl(3) tasks_def)
    moreover have "set (in_queue (add_job fo pl)) \<union> set (out_queue (add_job fo pl)) \<subseteq> insert fo (tasks s0)"
      using add_job_cases[of fo pl] tasks_plugin[OF pl(1)] by auto
    ultimately have t: "tasks s' \<subseteq> insert fo (tasks s0)" using tasks_dput[OF pl(1,2)] by blast
    show ?thesis
      using work_left_dput[OF pl(1,2)] queued_uids_dput[OF pl(1,2), of E] w u pl start assms(2,3) t
      by (auto simp: pipe_inv_def)
  qed
  then show "pipe_inv E s'"
    "work_left s' \<le> work_left s0 + 3 * length (scheduled_list fo) + 3"
    "\<not> (\<exists>p. started p fo s0 s') \<Longrightarrow> work_left s' \<le> work_left s0 + 3 * length (scheduled_list fo) + 1"
    "queued_uids E s' = add_mset (get_uid (e_sha E) fo) (queued_uids E s0) \<and> status s' = status s0 \<or>
     queued_uids E s' = queued_uids E s0 \<and>
       (\<exists>now. remove_from_current_analyses (e_sha E) now fo (status s0) = Done (status s'))"
    by blast+
qed

lemma moved_placed:
  "moved E now p fo s s' \<Longrightarrow> \<exists>fo' s1. same_env s s1 \<and> same_task E fo fo' \<and>
     scheduled_analysis fo' = scheduled_analysis fo \<and> placed E fo' s1 s'"
  unfolding moved_def placed_def by blast

lemma placed_same_env: "same_env s0 s1 \<Longrightarrow> placed E fo s1 s' = placed E fo s0 s'"
  by (auto simp: placed_def effect_defs)

text \<open>What every step does: less work is left, and the task it handles stays queued or is reported
  to the status.\<close>

definition step_effect :: "env \<Rightarrow> sched \<Rightarrow> sched \<Rightarrow> bool" where
  "step_effect E s s' \<longleftrightarrow> pipe_inv E s' \<and> work_left s' < work_left s \<and>
     (queued_uids E s' = queued_uids E s \<and> status s' = status s \<or>
      (\<exists>now fo. queued_uids E s = add_mset (get_uid (e_sha E) fo) (queued_uids E s') \<and>
         remove_from_current_analyses (e_sha E) now fo (status s) = Done (status s')))"

lemma runner_effect:
  assumes "pipe_inv E s" "process_queue s = fo # rest" "task_runner E now s = Done s'"
  shows "step_effect E s s'"
proof -
  let ?s0 = "s\<lparr>process_queue := rest\<rparr>"
  have fo: "bin_ok E fo" and inv0: "pipe_inv E ?s0" using assms(1,2) by (auto simp: pipe_inv_def tasks_def)
  have w0: "work_left s = work_left ?s0 + 3 * length (scheduled_list fo) + 1"
    and u0: "queued_uids E s = add_mset (get_uid (e_sha E) fo) (queued_uids E ?s0)"
    using assms(2) by (simp_all add: work_left_def queued_uids_def)
  have "process_next_analysis_task E now fo ?s0 = Done s'" using assms(2,3) by (simp add: task_runner_def)
  from process_next_cases[OF this] obtain s1 where env: "same_env ?s0 s1" and
    c: "dropped E now fo s1 s' \<or> (\<exists>l. scheduled_analysis fo = Some l \<and> l \<noteq> [] \<and>
       moved E now (last l) (fo\<lparr>scheduled_analysis := Some (butlast l)\<rparr>) s1 s')" by blast
  from c show ?thesis
  proof
    assume d: "dropped E now fo s1 s'"
    then have e: "queued_uids E s' = queued_uids E ?s0" "work_left s' = work_left ?s0" "tasks s' = tasks ?s0"
      "plugins s' = plugins ?s0" "remove_from_current_analyses (e_sha E) now fo (status s) = Done (status s')"
      using env by (simp_all add: dropped_def same_env_def queued_uids_def work_left_def tasks_def)
    with w0 u0 inv0 show ?thesis by (auto simp: step_effect_def pipe_inv_def)
  next
    assume "\<exists>l. scheduled_analysis fo = Some l \<and> l \<noteq> [] \<and>
       moved E now (last l) (fo\<lparr>scheduled_analysis := Some (butlast l)\<rparr>) s1 s'"
    then obtain l where l: "scheduled_analysis fo = Some l" "l \<noteq> []"
      and m: "moved E now (last l) (fo\<lparr>scheduled_analysis := Some (butlast l)\<rparr>) s1 s'" by blast
    from moved_placed[OF m] obtain fo' s2 where env2: "same_env s1 s2" and
      fo': "same_task E (fo\<lparr>scheduled_analysis := Some (butlast l)\<rparr>) fo'" "scheduled_analysis fo' = Some (butlast l)" and
      pl: "placed E fo' s2 s'" by auto
    have len: "length (scheduled_list fo) = Suc (length (scheduled_list fo'))"
      using l fo'(2) by (simp add: scheduled_list_def)
    have b: "bin_ok E fo'" "get_uid (e_sha E) fo' = get_uid (e_sha E) fo" using fo'(1) fo by (auto simp: same_task_def)
    have "placed E fo' ?s0 s'" using placed_same_env[OF same_env_trans[OF env env2]] pl by simp
    note eff = placed_effect[OF this inv0 b(1)]
    show ?thesis unfolding step_effect_def using eff(1,2,4) w0 u0 len b(2) by auto
  qed
qed

lemma collector_effect:
  assumes "pipe_inv E s" "dget (plugins s) p = Some pl" "out_queue pl = fo # rest" "collect_result E now p s = Done s'"
  shows "step_effect E s s'"
proof -
  let ?pl = "pl\<lparr>out_queue := rest\<rparr>"
  let ?s0 = "s\<lparr>plugins := dput p ?pl (plugins s)\<rparr>"
  have fo: "bin_ok E fo" using assms(1) tasks_plugin[OF assms(2)] assms(3) by (auto simp: pipe_inv_def)
  have "set (process_queue s) \<subseteq> tasks s" by (simp add: tasks_def)
  then have "tasks ?s0 \<subseteq> tasks s"
    using tasks_dput[OF assms(2), of ?s0 ?pl] tasks_plugin[OF assms(2)] assms(3) by auto
  then have inv0: "pipe_inv E ?s0" using assms(1) by (auto simp: pipe_inv_def)
  have w0: "work_left s = work_left ?s0 + 3 * length (scheduled_list fo) + 2"
    using work_left_dput[OF assms(2), of ?s0 ?pl] assms(3) by (simp add: plugin_work_left_def)
  have u0: "queued_uids E s = add_mset (get_uid (e_sha E) fo) (queued_uids E ?s0)"
    using queued_uids_dput[OF assms(2), of ?s0 ?pl E] assms(3) by (simp add: plugin_uids_def)
  from collect_cases[OF assms(4,2,3)] obtain fo' s1 where env: "same_env ?s0 s1" and
    co: "collected E (plugins ?s0) fo fo'" and
    c: "scheduled_list fo' = [] \<and> dropped E now fo' s1 s' \<or> scheduled_list fo' \<noteq> [] \<and> requeued fo' s1 s'" by auto
  have len: "length (scheduled_list fo') \<le> length (scheduled_list fo)" using co by (auto simp: collected_def)
  have b: "bin_ok E fo'" "get_uid (e_sha E) fo' = get_uid (e_sha E) fo" using co fo by (auto simp: collected_def same_task_def)
  have "placed E fo' s1 s'" using c unfolding placed_def by blast
  then have p0: "placed E fo' ?s0 s'" using placed_same_env[OF env] by blast
  have ns: "work_left s' \<le> work_left ?s0 + 3 * length (scheduled_list fo') + 1"
    using c env by (auto simp: effect_defs work_left_def)
  note eff = placed_effect[OF p0 inv0 b(1)]
  show ?thesis unfolding step_effect_def using eff(1,4) ns w0 u0 len b(2) by auto
qed

lemma worker_effect:
  assumes "pipe_inv E s" "dget (plugins s) p = Some pl" "in_queue pl = fo # rest" "run_ok E run"
  shows "step_effect E s (plugin_work p w dur run s)"
proof -
  let ?pl = "worker w dur run pl" and ?s' = "plugin_work p w dur run s"
  from worker_cases[OF assms(3,4)] obtain fo' where fo': "same_task E fo fo'" "scheduled_analysis fo' = scheduled_analysis fo"
    "in_queue ?pl = rest" "out_queue ?pl = out_queue pl @ [fo']" by blast
  have s': "?s' = s\<lparr>plugins := dput p ?pl (plugins s)\<rparr>" using assms(2) by (simp add: plugin_work_def)
  have fo: "bin_ok E fo" using assms(1) tasks_plugin[OF assms(2)] assms(3) by (auto simp: pipe_inv_def)
  have b: "bin_ok E fo'" "get_uid (e_sha E) fo' = get_uid (e_sha E) fo" using fo' fo by (auto simp: same_task_def)
  have len: "scheduled_list fo' = scheduled_list fo" using fo' by (simp add: scheduled_list_def)
  have "work_left ?s' < work_left s"
    using work_left_dput[OF assms(2), of ?s' ?pl] assms(3) fo' len by (simp add: s' plugin_work_left_def)
  moreover have "queued_uids E ?s' = queued_uids E s"
    using queued_uids_dput[OF assms(2), of ?s' ?pl E] assms(3) fo' b by (simp add: s' plugin_uids_def)
  moreover have "set (process_queue s) \<subseteq> tasks s" by (simp add: tasks_def)
  then have "tasks ?s' \<subseteq> insert fo' (tasks s)"
    using tasks_dput[OF assms(2), of ?s' ?pl] tasks_plugin[OF assms(2)] assms(3) fo' by (auto simp: s')
  then have "pipe_inv E ?s'" using assms(1) b(1) by (auto simp: pipe_inv_def s')
  ultimately show ?thesis by (simp add: step_effect_def s')
qed

lemma pipeline_step_effect: "pipeline_step E s s' \<Longrightarrow> pipe_inv E s \<Longrightarrow> step_effect E s s'"
  by (induction rule: pipeline_step.induct) (auto intro: runner_effect collector_effect worker_effect)

section \<open>Every run ends and loses no task\<close>

inductive pipeline_steps :: "env \<Rightarrow> nat \<Rightarrow> sched \<Rightarrow> sched \<Rightarrow> bool" for E where
  steps_0: "pipeline_steps E 0 s s"
| steps_Suc: "pipeline_step E s s1 \<Longrightarrow> pipeline_steps E n s1 s' \<Longrightarrow> pipeline_steps E (Suc n) s s'"

text \<open>The status after a sequence of reports.\<close>

definition report_all :: "env \<Rightarrow> (real \<times> file_object) list \<Rightarrow> analysis_status \<Rightarrow> analysis_status outcome" where
  "report_all E fins st = fold (\<lambda>(now, fo) r. bind_o r (remove_from_current_analyses (e_sha E) now fo)) fins (Done st)"

lemma report_all_Cons:
  "remove_from_current_analyses (e_sha E) now fo st = Done st1 \<Longrightarrow> report_all E ((now, fo) # fins) st = report_all E fins st1"
  by (simp add: report_all_def)

lemma pipeline_steps_effect:
  "pipeline_steps E n s s' \<Longrightarrow> pipe_inv E s \<Longrightarrow> pipe_inv E s' \<and> n + work_left s' \<le> work_left s \<and>
     (\<exists>fins. queued_uids E s = queued_uids E s' + mset (map (get_uid (e_sha E) \<circ> snd) fins) \<and>
        report_all E fins (status s) = Done (status s'))"
proof (induction rule: pipeline_steps.induct)
  case (steps_0 s)
  then show ?case by (auto simp: report_all_def intro!: exI[of _ "[]"])
next
  case (steps_Suc s s1 n s')
  have eff: "step_effect E s s1" by (rule pipeline_step_effect) (use steps_Suc in auto)
  then have "pipe_inv E s1" by (simp add: step_effect_def)
  from steps_Suc.IH[OF this] obtain fins where IH: "pipe_inv E s'" "n + work_left s' \<le> work_left s1"
    "queued_uids E s1 = queued_uids E s' + mset (map (get_uid (e_sha E) \<circ> snd) fins)"
    "report_all E fins (status s1) = Done (status s')" by blast
  have "\<exists>fins. queued_uids E s = queued_uids E s' + mset (map (get_uid (e_sha E) \<circ> snd) fins) \<and>
        report_all E fins (status s) = Done (status s')"
  proof (cases "queued_uids E s1 = queued_uids E s \<and> status s1 = status s")
    case True
    with IH show ?thesis by auto
  next
    case False
    with eff obtain now fo where "queued_uids E s = add_mset (get_uid (e_sha E) fo) (queued_uids E s1)"
      "remove_from_current_analyses (e_sha E) now fo (status s) = Done (status s1)" by (auto simp: step_effect_def)
    with IH show ?thesis by (intro exI[of _ "(now, fo) # fins"]) (simp add: report_all_Cons)
  qed
  moreover have "Suc n + work_left s' \<le> work_left s" using IH(2) eff by (simp add: step_effect_def)
  ultimately show ?case using IH(1) by blast
qed


definition ex_env :: env where
  "ex_env = \<lparr>e_sha = ex_sha, e_md5 = ex_sha, e_read = (\<lambda>_. []), e_reject = (\<lambda>_. None), e_to_date = (\<lambda>_. Some (2020, 1, 1)),
     e_version_rank = (\<lambda>v. Some (real (length v))), e_storage = ''/s'', e_cfg_mime = (\<lambda>_. (None, None)),
     e_cfg_threads = [], e_default_threads = 1, e_default_plugins = []\<rparr>"

text \<open>A firmware whose schedule names one plugin that is not installed.\<close>

definition ex_task :: file_object where
  "ex_task = (ex_fwo ''A'')\<lparr>binary := Some [1], scheduled_analysis := Some [''gone'']\<rparr>"

definition ex_sched :: sched where
  "ex_sched = \<lparr>plugins = [], process_queue = [ex_task], unpacking_locks = [(Some ''A'', 1)], status = init_status,
     database = empty_db\<rparr>"

lemma ex_sched_run: "\<exists>s'. task_runner ex_env 0 ex_sched = Done s' \<and> process_queue s' = []"
proof -
  have "case task_runner ex_env 0 ex_sched of Done s' \<Rightarrow> process_queue s' = [] | _ \<Rightarrow> False" by code_simp
  then show ?thesis by (auto split: outcome.splits)
qed


section \<open>Dependencies come first\<close>

text \<open>With the plugins in \<open>D\<close> done, every plugin of the schedule finds its dependencies done when its
  turn comes (the schedule is consumed from its end).\<close>

fun ready :: "plugins \<Rightarrow> string set \<Rightarrow> string list \<Rightarrow> bool" where
  "ready ps D [] = True"
| "ready ps D (p # l) = (dep_set ps p \<subseteq> set l \<union> D \<and> ready ps D l)"

lemma ready_snoc: "ready ps D (l @ [p]) \<longleftrightarrow> dep_set ps p \<subseteq> D \<and> ready ps (insert p D) l"
  by (induction l) auto

lemma ready_mono: "ready ps D l \<Longrightarrow> (\<And>q d. q \<in> set l \<Longrightarrow> d \<in> dep_set ps q \<Longrightarrow> d \<in> D \<Longrightarrow> d \<in> D') \<Longrightarrow> ready ps D' l"
proof (induction l)
  case (Cons p l)
  have "ready ps D' l" by (rule Cons.IH) (use Cons.prems in auto)
  moreover have "d \<in> set l \<union> D'" if "d \<in> dep_set ps p" for d using that Cons.prems by auto
  ultimately show ?case by auto
qed simp

lemma ready_butlast:
  "ready ps D l \<Longrightarrow> l \<noteq> [] \<Longrightarrow> dep_set ps (last l) \<subseteq> D \<and> ready ps (insert (last l) D) (butlast l)"
  using ready_snoc[of ps D "butlast l" "last l"] by simp

lemma ready_filter:
  "ready ps D l \<Longrightarrow> \<forall>q \<in> set l. \<not> P q \<longrightarrow> q \<in> D \<Longrightarrow> ready ps D (filter P l)"
  by (induction l) auto

lemma ready_cong: "dep_set ps = dep_set ps' \<Longrightarrow> ready ps D l = ready ps' D l"
  by (induction l) auto

lemma ready_of_deps_later: "deps_later ps l \<Longrightarrow> ready ps D l"
  by (induction l) auto

definition done_keys :: "file_object \<Rightarrow> string set" where
  "done_keys fo = set (dkeys (processed_analysis fo))"

text \<open>The static part of the plugins: they are listed under their names, and plugins others depend on
  run at every depth.\<close>

definition plugins_static :: "plugins \<Rightarrow> bool" where
  "plugins_static ps \<longleftrightarrow> dict_ok ps \<and> (\<forall>p pl. dget ps p = Some pl \<longrightarrow> p_name pl = Some p \<and>
     (p \<in> (\<Union>q. dep_set ps q) \<longrightarrow> p_recursive pl))"

definition task_ready :: "plugins \<Rightarrow> string set \<Rightarrow> file_object \<Rightarrow> bool" where
  "task_ready ps D fo \<longleftrightarrow> distinct (scheduled_list fo) \<and> (\<forall>p \<in> set (scheduled_list fo). dmem p ps) \<and>
     ready ps D (scheduled_list fo)"

text \<open>
  Tasks wait with their dependencies in order; a job of a plugin has the results of all its
  dependencies; a plugin hands a task back without a result only when it does not apply at
  that depth, never because a dependency is missing.
\<close>

definition order_inv :: "sched \<Rightarrow> bool" where
  "order_inv s \<longleftrightarrow> plugins_static (plugins s) \<and>
     (\<forall>fo \<in> set (process_queue s). task_ready (plugins s) (done_keys fo) fo) \<and>
     (\<forall>p pl. dget (plugins s) p = Some pl \<longrightarrow>
       (\<forall>fo \<in> set (in_queue pl). dep_set (plugins s) p \<subseteq> done_keys fo \<and> p \<notin> set (scheduled_list fo) \<and>
          task_ready (plugins s) (insert p (done_keys fo)) fo) \<and>
       (\<forall>fo \<in> set (out_queue pl). (p \<in> done_keys fo \<or> \<not> p_recursive pl \<and> depth fo \<noteq> 0) \<and>
          task_ready (plugins s) (done_keys fo) fo))"

lemma dep_set_dput:
  "map_of ps p = Some pl \<Longrightarrow> p_dependencies pl' = p_dependencies pl \<Longrightarrow> dep_set (dput p pl' ps) = dep_set ps"
  by (auto simp: dep_set_def fun_eq_iff)

lemma dmem_dput_same: "map_of ps p = Some pl \<Longrightarrow> q = p \<or> dmem q ps \<longleftrightarrow> dmem q ps"
  by (auto simp: dmem_def)

lemma task_ready_dput:
  "map_of ps p = Some pl \<Longrightarrow> p_dependencies pl' = p_dependencies pl \<Longrightarrow> task_ready (dput p pl' ps) D fo = task_ready ps D fo"
  using ready_cong[OF dep_set_dput] by (simp add: task_ready_def dmem_dput_same)

lemma plugins_static_dput:
  assumes "map_of ps p = Some pl" "p_dependencies pl' = p_dependencies pl" "p_name pl' = p_name pl"
    "p_recursive pl' = p_recursive pl" "plugins_static ps"
  shows "plugins_static (dput p pl' ps)"
  using assms dep_set_dput[OF assms(1,2)] by (auto simp: plugins_static_def)

text \<open>Changing the queues of one plugin.\<close>

lemma order_inv_dput:
  assumes "order_inv s" "map_of (plugins s) p = Some pl" "p_dependencies pl' = p_dependencies pl"
    "p_name pl' = p_name pl" "p_recursive pl' = p_recursive pl"
    "plugins s' = dput p pl' (plugins s)" "process_queue s' = process_queue s"
    "\<And>fo. fo \<in> set (in_queue pl') \<Longrightarrow> fo \<in> set (in_queue pl) \<or> dep_set (plugins s) p \<subseteq> done_keys fo \<and>
       p \<notin> set (scheduled_list fo) \<and> task_ready (plugins s) (insert p (done_keys fo)) fo"
    "\<And>fo. fo \<in> set (out_queue pl') \<Longrightarrow> fo \<in> set (out_queue pl) \<or>
       (p \<in> done_keys fo \<or> \<not> p_recursive pl \<and> depth fo \<noteq> 0) \<and> task_ready (plugins s) (done_keys fo) fo"
  shows "order_inv s'"
  unfolding order_inv_def assms(6,7) task_ready_dput[OF assms(2,3)] dep_set_dput[OF assms(2,3)]
proof (intro conjI allI impI ballI)
  have old_in: "dep_set (plugins s) q \<subseteq> done_keys fo \<and> q \<notin> set (scheduled_list fo) \<and>
      task_ready (plugins s) (insert q (done_keys fo)) fo"
    if "dget (plugins s) q = Some ql" "fo \<in> set (in_queue ql)" for q ql fo
    using assms(1) that unfolding order_inv_def by blast
  have old_out: "(q \<in> done_keys fo \<or> \<not> p_recursive ql \<and> depth fo \<noteq> 0) \<and> task_ready (plugins s) (done_keys fo) fo"
    if "dget (plugins s) q = Some ql" "fo \<in> set (out_queue ql)" for q ql fo
    using assms(1) that unfolding order_inv_def by blast
  {
    fix q ql fo assume q: "dget (dput p pl' (plugins s)) q = Some ql" and fo: "fo \<in> set (in_queue ql)"
    have "dep_set (plugins s) q \<subseteq> done_keys fo \<and> q \<notin> set (scheduled_list fo) \<and>
        task_ready (plugins s) (insert q (done_keys fo)) fo"
    proof (cases "q = p")
      case True
      then show ?thesis using q fo assms(8)[of fo] old_in[OF assms(2), of fo] by auto
    next
      case False
      then show ?thesis using q fo old_in[of q ql fo] by simp
    qed
    then show "dep_set (plugins s) q \<subseteq> done_keys fo" "q \<notin> set (scheduled_list fo)"
      "task_ready (plugins s) (insert q (done_keys fo)) fo" by auto
  }
  {
    fix q ql fo assume q: "dget (dput p pl' (plugins s)) q = Some ql" and fo: "fo \<in> set (out_queue ql)"
    have "(q \<in> done_keys fo \<or> \<not> p_recursive ql \<and> depth fo \<noteq> 0) \<and> task_ready (plugins s) (done_keys fo) fo"
    proof (cases "q = p")
      case True
      then show ?thesis using q fo assms(5) assms(9)[of fo] old_out[OF assms(2), of fo] by auto
    next
      case False
      then show ?thesis using q fo old_out[of q ql fo] by simp
    qed
    then show "q \<in> done_keys fo \<or> \<not> p_recursive ql \<and> depth fo \<noteq> 0" "task_ready (plugins s) (done_keys fo) fo"
      by auto
  }
  show "plugins_static (dput p pl' (plugins s))"
    using plugins_static_dput[OF assms(2-5)] assms(1) by (simp add: order_inv_def)
next
  fix fo assume "fo \<in> set (process_queue s)"
  then show "task_ready (plugins s) (done_keys fo) fo" using assms(1) by (simp add: order_inv_def)
qed

lemma task_ready_keys:
  "task_ready ps D fo \<Longrightarrow> D \<subseteq> D' \<Longrightarrow> scheduled_list fo' = scheduled_list fo \<Longrightarrow> task_ready ps D' fo'"
  by (auto simp: task_ready_def intro: ready_mono)

lemma order_inv_same_env: "same_env s s1 \<Longrightarrow> order_inv s1 = order_inv s"
  by (simp add: same_env_def order_inv_def)

lemma order_inv_dropped: "dropped E now fo s s' \<Longrightarrow> order_inv s \<Longrightarrow> order_inv s'"
  by (simp add: dropped_def order_inv_def)

lemma order_inv_requeued:
  "requeued fo s s' \<Longrightarrow> order_inv s \<Longrightarrow> task_ready (plugins s) (done_keys fo) fo \<Longrightarrow> order_inv s'"
  by (auto simp: requeued_def order_inv_def)

lemma order_inv_started:
  assumes "started p fo s s'" "order_inv s" "dep_set (plugins s) p \<subseteq> done_keys fo" "p \<notin> set (scheduled_list fo)"
    "task_ready (plugins s) (insert p (done_keys fo)) fo"
  shows "order_inv s'"
proof -
  from assms(1) obtain pl where pl: "dget (plugins s) p = Some pl" "plugins s' = dput p (add_job fo pl) (plugins s)"
    "process_queue s' = process_queue s" by (auto simp: started_def)
  have full: "\<not> dependencies_are_unfulfilled pl fo"
    using assms(3) pl(1) by (auto simp: dependencies_are_unfulfilled_def dep_set_def done_keys_def dmem_iff list_ex_iff)
  have static: "plugins_static (plugins s)" using assms(2) by (simp add: order_inv_def)
  have out: "task_ready (plugins s) (done_keys fo) fo" if "\<not> p_recursive pl"
  proof -
    have "p \<notin> (\<Union>q. dep_set (plugins s) q)" using static pl(1) that by (auto simp: plugins_static_def)
    then have "ready (plugins s) (done_keys fo) (scheduled_list fo)"
      using assms(5) by (auto simp: task_ready_def intro: ready_mono)
    with assms(5) show ?thesis by (simp add: task_ready_def)
  qed
  show ?thesis
    by (rule order_inv_dput[OF assms(2) pl(1) _ _ _ pl(2,3)])
       (use full assms(3-5) out in \<open>auto simp: add_job_def analysis_depth_not_reached_yet_def split: if_splits\<close>)
qed

lemma order_inv_runner:
  assumes "order_inv s" "process_queue s = fo # rest" "task_runner E now s = Done s'"
  shows "order_inv s'"
proof -
  let ?s0 = "s\<lparr>process_queue := rest\<rparr>"
  have inv0: "order_inv ?s0" and fo: "task_ready (plugins s) (done_keys fo) fo"
    using assms(1,2) by (auto simp: order_inv_def)
  have "process_next_analysis_task E now fo ?s0 = Done s'" using assms(2,3) by (simp add: task_runner_def)
  from process_next_cases[OF this] obtain s1 where env: "same_env ?s0 s1" and
    c: "dropped E now fo s1 s' \<or> (\<exists>l. scheduled_analysis fo = Some l \<and> l \<noteq> [] \<and>
       moved E now (last l) (fo\<lparr>scheduled_analysis := Some (butlast l)\<rparr>) s1 s')" by blast
  have inv1: "order_inv s1" and ps: "plugins s1 = plugins s" using inv0 env by (simp_all add: order_inv_same_env, simp add: same_env_def)
  from c show ?thesis
  proof
    assume "dropped E now fo s1 s'"
    then show ?thesis using inv1 by (rule order_inv_dropped)
  next
    assume "\<exists>l. scheduled_analysis fo = Some l \<and> l \<noteq> [] \<and>
       moved E now (last l) (fo\<lparr>scheduled_analysis := Some (butlast l)\<rparr>) s1 s'"
    then obtain l fo' s2 where l: "scheduled_analysis fo = Some l" "l \<noteq> []" and env2: "same_env s1 s2" and
      st: "same_task E (fo\<lparr>scheduled_analysis := Some (butlast l)\<rparr>) fo'" "scheduled_analysis fo' = Some (butlast l)" and
      m: "started (last l) fo' s2 s' \<or>
        (dmem (last l) (plugins s) \<longrightarrow> last l \<in> set (butlast l) \<or> dmem (last l) (processed_analysis fo') \<or>
           (\<forall>q \<in> set (butlast l). last l \<notin> dep_set (plugins s) q)) \<and>
        (dropped E now fo' s2 s' \<or> requeued fo' s2 s')"
      unfolding moved_def ps by (auto simp: scheduled_list_def)
    have inv2: "order_inv s2" and ps2: "plugins s2 = plugins s" using inv1 env2 ps by (simp_all add: order_inv_same_env, simp add: same_env_def)
    have sl: "scheduled_list fo = l" "scheduled_list fo' = butlast l" using l st by (simp_all add: scheduled_list_def)
    have d: "distinct l" "last l \<notin> set (butlast l)" "dmem (last l) (plugins s)" "\<forall>p \<in> set (butlast l). dmem p (plugins s)"
      using fo l sl by (auto simp: task_ready_def distinct_butlast intro: in_set_butlastD)
        (metis append_butlast_last_id distinct_append distinct.simps(2) list.set_intros(1) disjoint_iff)+
    have keys: "done_keys fo \<subseteq> done_keys fo'" using st(1) by (auto simp: same_task_def done_keys_def)
    have r: "dep_set (plugins s) (last l) \<subseteq> done_keys fo" "ready (plugins s) (insert (last l) (done_keys fo)) (butlast l)"
      using ready_butlast[of "plugins s" "done_keys fo" l] fo l(2) sl by (auto simp: task_ready_def)
    have tr: "task_ready (plugins s) (insert (last l) (done_keys fo')) fo'"
      using r(2) d keys sl by (auto simp: task_ready_def distinct_butlast intro: ready_mono)
    show ?thesis
    proof (cases "started (last l) fo' s2 s'")
      case True
      then show ?thesis
        by (rule order_inv_started[OF _ inv2]) (use r(1) keys d sl tr ps2 in auto)
    next
      case False
      with m have a: "dmem (last l) (processed_analysis fo') \<or> (\<forall>q \<in> set (butlast l). last l \<notin> dep_set (plugins s) q)"
        and b: "dropped E now fo' s2 s' \<or> requeued fo' s2 s'" using d by auto
      have "task_ready (plugins s) (done_keys fo') fo'"
        using tr a sl by (auto simp: task_ready_def done_keys_def dmem_iff insert_absorb intro: ready_mono)
      with b inv2 ps2 show ?thesis by (auto intro: order_inv_dropped order_inv_requeued)
    qed
  qed
qed

lemma order_inv_collector:
  assumes "order_inv s" "dget (plugins s) p = Some pl" "out_queue pl = fo # rest" "collect_result E now p s = Done s'"
  shows "order_inv s'"
proof -
  let ?pl = "pl\<lparr>out_queue := rest\<rparr>"
  let ?s0 = "s\<lparr>plugins := dput p ?pl (plugins s)\<rparr>"
  have fo: "task_ready (plugins s) (done_keys fo) fo" using assms(1-3) by (auto simp: order_inv_def)
  have inv0: "order_inv ?s0"
    by (rule order_inv_dput[OF assms(1,2), where pl' = ?pl]) (use assms(3) in auto)
  have static0: "dep_set (plugins ?s0) = dep_set (plugins s)" using dep_set_dput[OF assms(2), of ?pl] by simp
  have tr0: "task_ready (plugins ?s0) D g = task_ready (plugins s) D g" for D g
    using task_ready_dput[OF assms(2), of ?pl] by simp
  from collect_cases[OF assms(4,2,3)] obtain fo' s1 where env: "same_env ?s0 s1" and
    co: "collected E (plugins ?s0) fo fo'" and
    c: "dropped E now fo' s1 s' \<or> requeued fo' s1 s'" by auto
  have keys: "done_keys fo \<subseteq> done_keys fo'" using co by (auto simp: collected_def same_task_def done_keys_def)
  have "task_ready (plugins s) (done_keys fo') fo'"
  proof (cases "scheduled_list fo' = scheduled_list fo")
    case True
    show ?thesis by (rule task_ready_keys[OF fo keys True])
  next
    case False
    with co static0 obtain f where f: "scheduled_list fo' = filter (\<lambda>p. f \<notin> dep_set (plugins s) p) (scheduled_list fo)"
      "\<forall>p \<in> set (scheduled_list fo). f \<in> dep_set (plugins s) p \<longrightarrow> dmem p (processed_analysis fo')"
      by (auto simp: collected_def)
    have "ready (plugins s) (done_keys fo') (scheduled_list fo)"
      using fo keys by (auto simp: task_ready_def intro: ready_mono)
    then have "ready (plugins s) (done_keys fo') (scheduled_list fo')"
      unfolding f(1) by (rule ready_filter) (use f(2) in \<open>auto simp: done_keys_def dmem_iff\<close>)
    with fo f(1) show ?thesis by (auto simp: task_ready_def)
  qed
  then have tr1: "task_ready (plugins s1) (done_keys fo') fo'" using env tr0 by (simp add: same_env_def)
  have inv1: "order_inv s1" using inv0 env by (simp add: order_inv_same_env)
  from c show ?thesis using inv1 tr1 by (auto intro: order_inv_dropped order_inv_requeued)
qed

lemma order_inv_worker:
  assumes "order_inv s" "dget (plugins s) p = Some pl" "in_queue pl = fo # rest" "run_ok E run"
  shows "order_inv (plugin_work p w dur run s)"
proof -
  let ?pl = "worker w dur run pl" and ?s' = "plugin_work p w dur run s"
  have name: "p_name pl = Some p" using assms(1,2) by (auto simp: order_inv_def plugins_static_def)
  from worker_cases[OF assms(3,4), of w dur] name obtain fo' where fo': "same_task E fo fo'"
    "scheduled_analysis fo' = scheduled_analysis fo" "dmem p (processed_analysis fo')"
    "in_queue ?pl = rest" "out_queue ?pl = out_queue pl @ [fo']" "p_name ?pl = p_name pl"
    "p_dependencies ?pl = p_dependencies pl" "p_recursive ?pl = p_recursive pl" by auto
  have fo: "task_ready (plugins s) (insert p (done_keys fo)) fo" using assms(1-3) by (auto simp: order_inv_def)
  have "insert p (done_keys fo) \<subseteq> done_keys fo'" using fo'(1,3) by (auto simp: same_task_def done_keys_def dmem_iff)
  then have tr: "task_ready (plugins s) (done_keys fo') fo'" "p \<in> done_keys fo'"
    using task_ready_keys[OF fo, of "done_keys fo'" fo'] fo'(2) by (auto simp: scheduled_list_def)
  show ?thesis
    by (rule order_inv_dput[OF assms(1,2), where pl' = ?pl])
       (use fo' tr assms(2,3) in \<open>auto simp: plugin_work_def\<close>)
qed

lemma order_inv_check_further:
  assumes "check_further_process_or_complete E now fo s = Done s'" "order_inv s" "task_ready (plugins s) (done_keys fo) fo"
  shows "order_inv s'"
  using check_further_cases[OF assms(1)] assms(2,3) by (auto intro: order_inv_dropped order_inv_requeued)

lemma scheduled_task_ready:
  assumes "schedule_analysis_tasks rnd ps fo sel m = Inr fo'" "dep_set ps ''file_type'' = {}"
    "set MANDATORY_PLUGINS \<subseteq> set (dkeys ps)"
  shows "task_ready ps D fo'"
proof -
  from schedule_analysis_tasks_Inr[OF assms(1)] obtain s l where
    s: "\<forall>p \<in> set s. dmem p ps" and
    l: "smart_shuffle rnd ps (if m then s @ MANDATORY_PLUGINS else s) = Inr l" and
    fo': "fo' = fo\<lparr>scheduled_analysis := Some l\<rparr>" by blast
  note sp = smart_shuffle_spec[OF l assms(2)]
  have "\<forall>p \<in> set l. dmem p ps"
    using sp(3) s assms(3) by (auto simp: dmem_iff split: if_splits)
  then show ?thesis using sp fo' by (auto simp: task_ready_def scheduled_list_def intro: ready_of_deps_later)
qed

text \<open>The states of the analysis system from its start on, with new files and single-file updates
  coming in at any time. The plugin \<open>file_type\<close> has no dependencies and the mandatory plugins are
  loaded.\<close>

definition plugins_loaded :: "plugins \<Rightarrow> bool" where
  "plugins_loaded ps \<longleftrightarrow> plugins_static ps \<and> dep_set ps ''file_type'' = {} \<and> set MANDATORY_PLUGINS \<subseteq> set (dkeys ps)"

inductive reachable :: "env \<Rightarrow> sched \<Rightarrow> bool" for E where
  reach_init: "plugins_loaded (plugins s) \<Longrightarrow> process_queue s = [] \<Longrightarrow>
     \<forall>pl \<in> set (dvalues (plugins s)). in_queue pl = [] \<and> out_queue pl = [] \<Longrightarrow> reachable E s"
| reach_step: "reachable E s \<Longrightarrow> pipeline_step E s s' \<Longrightarrow> reachable E s'"
| reach_start: "reachable E s \<Longrightarrow> start_analysis_of_object E rnd now fo s = Done s' \<Longrightarrow> reachable E s'"
| reach_update: "reachable E s \<Longrightarrow> update_analysis_of_single_object E rnd now fo s = Done s' \<Longrightarrow> reachable E s'"

lemma plugins_loaded_dput:
  "map_of ps p = Some pl \<Longrightarrow> p_dependencies pl' = p_dependencies pl \<Longrightarrow> p_name pl' = p_name pl \<Longrightarrow>
   p_recursive pl' = p_recursive pl \<Longrightarrow> plugins_loaded ps \<Longrightarrow> plugins_loaded (dput p pl' ps)"
  using plugins_static_dput dep_set_dput by (auto simp: plugins_loaded_def)

lemma placed_loaded: "placed E fo s0 s' \<Longrightarrow> plugins_loaded (plugins s0) \<Longrightarrow> plugins_loaded (plugins s')"
proof -
  assume pl: "placed E fo s0 s'" and l: "plugins_loaded (plugins s0)"
  have "plugins_loaded (dput p (add_job fo q) (plugins s0))" if "map_of (plugins s0) p = Some q" for p q
    by (rule plugins_loaded_dput[OF that _ _ _ l]) (use add_job_cases[of fo q] in auto)
  with pl l show ?thesis by (auto simp: placed_def effect_defs)
qed

lemma pipeline_step_loaded:
  "pipeline_step E s s' \<Longrightarrow> plugins_loaded (plugins s) \<Longrightarrow> plugins_loaded (plugins s')"
proof (induction rule: pipeline_step.induct)
  case (step_runner s fo rest now s')
  then have "process_next_analysis_task E now fo (s\<lparr>process_queue := rest\<rparr>) = Done s'" by (simp add: task_runner_def)
  from process_next_cases[OF this] obtain s1 where env: "same_env (s\<lparr>process_queue := rest\<rparr>) s1" and
    c: "dropped E now fo s1 s' \<or> (\<exists>l. moved E now (last l) (fo\<lparr>scheduled_analysis := Some (butlast l)\<rparr>) s1 s')" by blast
  have l1: "plugins_loaded (plugins s1)" using env step_runner by (simp add: same_env_def)
  from c show ?case
  proof
    assume "dropped E now fo s1 s'"
    then show ?thesis using l1 by (simp add: dropped_def)
  next
    assume "\<exists>l. moved E now (last l) (fo\<lparr>scheduled_analysis := Some (butlast l)\<rparr>) s1 s'"
    then obtain fo' s2 where "same_env s1 s2" "placed E fo' s2 s'" using moved_placed by blast
    then show ?thesis using l1 placed_loaded by (metis same_env_def)
  qed
next
  case (step_collector s p pl fo rest now s')
  let ?ps = "dput p (pl\<lparr>out_queue := rest\<rparr>) (plugins s)"
  have "plugins_loaded ?ps" by (rule plugins_loaded_dput) (use step_collector in auto)
  moreover from collect_cases[OF step_collector(3,1,2)] have "plugins s' = ?ps"
    by (auto simp: effect_defs)
  ultimately show ?case by simp
next
  case (step_worker s p pl fo rest run worker_id dur)
  from worker_cases[OF step_worker(2,3), of worker_id dur] obtain "p_name (worker worker_id dur run pl) = p_name pl"
    "p_dependencies (worker worker_id dur run pl) = p_dependencies pl"
    "p_recursive (worker worker_id dur run pl) = p_recursive pl" by blast
  with step_worker show ?case by (auto simp: plugin_work_def intro: plugins_loaded_dput)
qed

lemma reachable_inv: "reachable E s \<Longrightarrow> order_inv s \<and> plugins_loaded (plugins s)"
proof (induction rule: reachable.induct)
  case (reach_init s)
  then show ?case by (auto simp: order_inv_def plugins_loaded_def dest!: dget_in_dvalues)
next
  case (reach_step s s')
  from reach_step.hyps(2) have "order_inv s'"
  proof cases
    case (step_runner fo rest now)
    then show ?thesis using reach_step.IH order_inv_runner by blast
  next
    case (step_collector p pl fo rest now)
    then show ?thesis using reach_step.IH order_inv_collector by blast
  next
    case (step_worker p pl fo rest run w dur)
    then show ?thesis using reach_step.IH order_inv_worker by blast
  qed
  with pipeline_step_loaded reach_step show ?case by blast
next
  case (reach_start s rnd now fo s')
  then obtain s1 fo1 where s1: "on_status (add_to_current_analyses (e_sha E) now fo) s = Done s1" and
    fo1: "schedule_analysis_tasks rnd (plugins s1) fo (scheduled_analysis fo) True = Inr fo1" and
    c: "check_further_process_or_complete E now fo1 s1 = Done s'"
    by (auto simp: start_analysis_of_object_def bind_o_Done_iff with_result_Done_iff)
  have e: "plugins s1 = plugins s" "process_queue s1 = process_queue s"
    using s1 by (auto simp: on_status_def split: outcome.splits)
  have "order_inv s1" using reach_start e by (simp add: order_inv_def)
  moreover have "task_ready (plugins s1) (done_keys fo1) fo1"
    using scheduled_task_ready[OF fo1] reach_start e by (simp add: plugins_loaded_def)
  ultimately have "order_inv s'" by (rule order_inv_check_further[OF c])
  moreover have "plugins s' = plugins s1" using check_further_cases[OF c] by (auto simp: effect_defs)
  ultimately show ?case using reach_start e by simp
next
  case (reach_update s rnd now fo s')
  then obtain fo1 where fo1: "schedule_analysis_tasks rnd (plugins s) fo (scheduled_analysis fo) False = Inr fo1" and
    c: "check_further_process_or_complete E now fo1 s = Done s'"
    by (auto simp: update_analysis_of_single_object_def with_result_Done_iff)
  have "task_ready (plugins s) (done_keys fo1) fo1"
    using scheduled_task_ready[OF fo1] reach_update by (simp add: plugins_loaded_def)
  then have "order_inv s'" using order_inv_check_further[OF c] reach_update by blast
  moreover have "plugins s' = plugins s" using check_further_cases[OF c] by (auto simp: effect_defs)
  ultimately show ?case using reach_update by simp
qed


text \<open>Two plugins in a chain: the task waits at the first one.\<close>

definition ex_named :: "string \<Rightarrow> string list \<Rightarrow> plugin" where
  "ex_named n deps = (ex_plugin deps)\<lparr>p_name := Some n\<rparr>"

definition ex_start :: sched where
  "ex_start = \<lparr>plugins = [(''file_type'', ex_named ''file_type'' []), (''file_hashes'', ex_named ''file_hashes'' [''file_type''])],
     process_queue = [], unpacking_locks = [], status = init_status, database = empty_db\<rparr>"

definition ex_started :: "sched outcome" where
  "ex_started = bind_o (start_analysis_of_object ex_env (\<lambda>_ _. 0) 0 ((ex_fwo ''A'')\<lparr>binary := Some [1]\<rparr>) ex_start)
     (task_runner ex_env 0)"

lemma ex_start_loaded: "plugins_loaded (plugins ex_start)"
proof -
  have "dep_set (plugins ex_start) q = (if q = ''file_hashes'' then {''file_type''} else {})" for q
    by (simp add: dep_set_def ex_start_def ex_named_def ex_plugin_def)
  then show ?thesis
    by (auto simp: plugins_loaded_def plugins_static_def ex_start_def ex_named_def ex_plugin_def dict_ok_def
        dkeys_def MANDATORY_PLUGINS_def)
qed


end
