(* ===== verification/AnalysisDecision.thy ===== *)
theory AnalysisDecision
  imports AnalysisScheduler
begin

text \<open>
  The decision diagram of the analysis scheduler as theorems: when a task of a file is
  handed to its plugin, and what an upgrade of the system version does to it.
\<close>

section \<open>When a stored result counts as up to date\<close>

text \<open>The rank of a system version; a missing or empty one counts as version 0.\<close>

definition system_rank :: "env \<Rightarrow> string option \<Rightarrow> real option" where
  "system_rank E v = e_version_rank E (if truthy_str v then replace_char (CHR ''_'') ''-'' (fstr v) else ''0'')"

lemma fix_system_version_opt:
  "fix_system_version (pstr_opt v) = Inr (PStr (if truthy_str v then replace_char (CHR ''_'') ''-'' (fstr v) else ''0''))"
  by (cases v) (auto simp: fix_system_version_def pstr_opt_def)

text \<open>A stored result as the scheduler reads it: its versions and the numeric date.\<close>

definition stored_versions :: "analysis_result \<Rightarrow> string \<Rightarrow> string option \<Rightarrow> real \<Rightarrow> bool" where
  "stored_versions r v sv date \<longleftrightarrow> dget r ''plugin_version'' = Some (PStr v) \<and>
     py_get r ''system_version'' PNone = pstr_opt sv \<and> (\<exists>x. dget r ''analysis_date'' = Some x \<and> py_num x = Some date)"

lemma current_version_is_newer_spec:
  assumes "stored_versions r w sw date" "e_version_rank E v = Some a" "e_version_rank E w = Some b"
    "system_rank E sv = Some c" "system_rank E sw = Some d"
  shows "current_version_is_newer E (PStr v) (pstr_opt sv) r = Inr (a > b \<or> c > d)"
  using assms
  by (simp add: current_version_is_newer_def parse_version_def stored_versions_def dlookup_def fix_system_version_opt system_rank_def)

lemma dependencies_are_up_to_date_spec:
  assumes "\<exists>x. dget r ''analysis_date'' = Some x \<and> py_num x = Some date"
    "\<forall>dep \<in> set deps. \<exists>rd x. get_analysis d u dep = Some rd \<and> dget rd ''analysis_date'' = Some x \<and> py_num x = Some (dates dep)"
  shows "dependencies_are_up_to_date d r u deps = Inr (\<forall>dep \<in> set deps. dates dep \<le> date)"
  using assms(2)
proof (induction deps)
  case Nil
  then show ?case by simp
next
  case (Cons dep deps)
  from Cons.prems obtain rd x where rd: "get_analysis d u dep = Some rd" "dget rd ''analysis_date'' = Some x"
    "py_num x = Some (dates dep)" by auto
  from assms(1) obtain y where y: "dget r ''analysis_date'' = Some y" "py_num y = Some date" by blast
  have "dependencies_are_up_to_date d r u deps = Inr (\<forall>dep \<in> set deps. dates dep \<le> date)"
    using Cons by simp
  with rd y show ?case by (auto simp: dlookup_def py_less_def)
qed

section \<open>Properties\<close>

lemma add_job_neq: "map_of ps p = Some pl \<Longrightarrow> dput p (add_job fo pl) ps \<noteq> ps"
proof
  assume pl: "map_of ps p = Some pl" and eq: "dput p (add_job fo pl) ps = ps"
  then have "add_job fo pl = pl" by (metis dget_dput fun_upd_same option.inject)
  then show False using add_job_queues[of fo pl] by simp
qed

text \<open>C14: The decision diagram of the scheduler. A task of a loaded plugin with valid versions is
  handed to its plugin exactly if the update is forced or the stored result is missing, failed,
  from an older plugin or system version, or older than the stored result of a dependency, and the
  file type is not excluded (for the mandatory plugins it never is). So, unlike in the diagram of
  the class documentation, a forced update of an excluded file type does not run.\<close>

theorem task_runs_iff:
  assumes "start_or_skip_analysis E now p fo s = Done s'"
    and "dget (plugins s) p = Some pl" "p_version pl = Some v" "e_version_rank E v = Some a"
      "system_rank E (p_system_version pl) = Some c"
    and "\<And>r. get_analysis (database s) (get_uid (e_sha E) fo) p = Some r \<Longrightarrow>
      stored_versions r (w r) (sw r) (date r) \<and> e_version_rank E (w r) = Some (rank r) \<and>
      system_rank E (sw r) = Some (sysrank r)"
    and "\<forall>dep \<in> set (p_dependencies pl). \<exists>rd x. get_analysis (database s) (get_uid (e_sha E) fo) dep = Some rd \<and>
      dget rd ''analysis_date'' = Some x \<and> py_num x = Some (dates dep)"
  shows "(plugins s' \<noteq> plugins s) \<longleftrightarrow>
    (force_update fo \<or> (case get_analysis (database s) (get_uid (e_sha E) fo) p of
        None \<Rightarrow> True
      | Some r \<Rightarrow> dmem ''failed'' r \<or> rank r < a \<or> sysrank r < c \<or>
          (\<exists>dep \<in> set (p_dependencies pl). date r < dates dep))) \<and>
    \<not> (p \<notin> set MANDATORY_PLUGINS \<and> (\<exists>fo1. next_analysis_is_blacklisted E s p fo = Inr (True, fo1)))"
proof -
  let ?u = "get_uid (e_sha E) fo"
  define old where "old = (case get_analysis (database s) ?u p of
        None \<Rightarrow> True
      | Some r \<Rightarrow> dmem ''failed'' r \<or> rank r < a \<or> sysrank r < c \<or>
          (\<exists>dep \<in> set (p_dependencies pl). date r < dates dep))"
  have utd: "analysis_is_already_in_db_and_up_to_date E s p ?u = Inr (\<not> old)"
  proof (cases "get_analysis (database s) ?u p")
    case None
    then show ?thesis by (simp add: analysis_is_already_in_db_and_up_to_date_def old_def)
  next
    case (Some r)
    note r = assms(6)[OF Some]
    have newer: "current_version_is_newer E (pstr_opt (p_version pl)) (pstr_opt (p_system_version pl)) r
        = Inr (a > rank r \<or> c > sysrank r)"
      using current_version_is_newer_spec[of r "w r" "sw r" "date r" E v a "rank r" "p_system_version pl" c "sysrank r"]
        r assms(3-5) by (simp add: pstr_opt_def)
    have deps: "dependencies_are_up_to_date (database s) r ?u (p_dependencies pl) =
        Inr (\<forall>dep \<in> set (p_dependencies pl). dates dep \<le> date r)"
      by (rule dependencies_are_up_to_date_spec) (use r assms(7) in \<open>auto simp: stored_versions_def\<close>)
    have "analysis_is_up_to_date E (database s) r pl ?u = Inr (\<not> (rank r < a \<or> sysrank r < c) \<and>
        (\<forall>dep \<in> set (p_dependencies pl). dates dep \<le> date r))"
      unfolding analysis_is_up_to_date_def newer deps by (cases "rank r < a \<or> sysrank r < c") simp_all
    then show ?thesis
      using Some r assms(2)
      by (auto simp: analysis_is_already_in_db_and_up_to_date_def stored_versions_def dlookup_def not_less old_def)
  qed
  have ch: "plugins t' = plugins t" if "check_further_process_or_complete E now g t = Done t'" for g t t'
    using that by (auto simp: check_further_process_or_complete_def on_status_def split: if_splits outcome.splits)
  have goal: "(plugins s' \<noteq> plugins s) \<longleftrightarrow> (force_update fo \<or> old) \<and>
      \<not> (p \<notin> set MANDATORY_PLUGINS \<and> (\<exists>fo1. next_analysis_is_blacklisted E s p fo = Inr (True, fo1)))"
  proof (cases "\<not> force_update fo \<and> \<not> old")
    case True
    with utd assms(1) have "plugins s' = plugins s"
      by (auto simp: start_or_skip_analysis_def with_result_Done_iff dest!: ch split: if_splits)
    with True show ?thesis by auto
  next
    case False
    then have run: "(if force_update fo then Inr False else analysis_is_already_in_db_and_up_to_date E s p ?u) = Inr False"
      using utd by (cases "force_update fo") auto
    with assms(1) obtain b fo1 where
      b: "(if p \<in> set MANDATORY_PLUGINS then Inr (False, fo) else next_analysis_is_blacklisted E s p fo) = Inr (b, fo1)"
      and rest: "(if b then with_result (dlookup (plugins s) p) s (\<lambda>pl.
               let r = get_skipped_analysis_result now pl;
                   fo2 = fo1\<lparr>processed_analysis := dput p r (processed_analysis fo1)\<rparr>
               in bind_o (post_analysis E (get_uid (e_sha E) fo2) p r s)
                    (check_further_process_or_complete E now fo2))
           else start_analysis E p fo1 s) = Done s'"
      unfolding start_or_skip_analysis_def by (auto simp: with_result_Done_iff simp del: sum.inject)
    show ?thesis
    proof (cases b)
      case True
      with rest obtain g s1 where "post_analysis E g p (get_skipped_analysis_result now pl) s = Done s1"
        "plugins s' = plugins s1"
        using assms(2) by (auto simp: with_result_Done_iff bind_o_Done_iff Let_def dest!: ch)
      then have "plugins s' = plugins s"
        by (auto simp: post_analysis_def on_database_def split: prod.splits sum.splits)
      with b True show ?thesis by (auto split: if_splits)
    next
      case False
      with rest obtain fo2 where "plugins s' = dput p (add_job fo2 pl) (plugins s)"
        using assms(2) by (auto simp: start_analysis_def with_result_Done_iff)
      then have "plugins s' \<noteq> plugins s" using add_job_neq[OF assms(2)] by simp
      with b False \<open>\<not> (\<not> force_update fo \<and> \<not> old)\<close> show ?thesis by (auto split: if_splits)
    qed
  qed
  show ?thesis using goal unfolding old_def .
qed

text \<open>After an upgrade of the system version of a plugin (the signatures or tools it uses), the
  result of the repeated analysis is stored with the old system version, so it never counts as up
  to date: every later update of the file runs the plugin again.\<close>

theorem system_upgrade_never_up_to_date:
  assumes "db_ok (database s)" "map_of (analysis_tbl (database s)) (u, p) = Some old" "truthy_str u"
    and "an_system_version old = PStr sv_old" "system_rank E (Some sv_old) = Some d"
    and "dget (plugins s) p = Some pl" "system_rank E (p_system_version pl) = Some c" "d < c"
    and "storable (PDict r)" "nul_free (PDict r)" "\<And>x. e_reject E x = None"
    and "dget r ''plugin_version'' = Some pv" "pv \<noteq> PNone" "dget r ''analysis_date'' = Some date" "date \<noteq> PNone"
  shows "\<exists>s'. post_analysis E u p r s = Done s' \<and>
    analysis_is_already_in_db_and_up_to_date E s' p u = Inr False"
proof -
  have "(u, p) \<in> set (dkeys (analysis_tbl (database s)))" using assms(2) by (force simp: dkeys_def dest: map_of_SomeD)
  then have mem: "dmem u (file_tbl (database s))" using assms(1) by (auto simp: db_ok_def)
  from add_analysis_store[where reject = "e_reject E" and p = p, OF assms(1) mem assms(3,11-15)] obtain d' e where
    d': "add_analysis (e_reject E) u p r (database s) = (Inr (), d')" and
    e: "map_of (analysis_tbl d') (u, p) = Some e" "an_plugin_version e = pv" "an_result e = get_analysis_without_meta r"
      "an_system_version e = PStr sv_old"
    using assms(2,4) by auto
  let ?s' = "s\<lparr>database := d'\<rparr>"
  have post: "post_analysis E u p r s = Done ?s'" by (simp add: post_analysis_def on_database_def d')
  define x where "x = analysis_entry_to_dict e"
  let ?f = "filter (\<lambda>(k, v). k \<notin> set META_KEYS) r"
  have res: "get_analysis_without_meta r = ?f"
    unfolding get_analysis_without_meta_def
    by (rule sanitize_dict_id[OF storable_filter[OF assms(9)] nul_free_filter[OF assms(10)]])
  have ok: "dict_ok ?f" using assms(9) by simp
  have none: "map_of ?f k = None" if "k \<in> set META_KEYS" for k
    using that by (induction r) auto
  have "dget x ''system_version'' = Some (PStr sv_old)"
    unfolding x_def analysis_entry_to_dict_def e(3) res dget_dupdate[OF ok] using none[of "''system_version''"] e(4)
    by (simp add: META_KEYS_def)
  then have sv: "fix_system_version (py_get x ''system_version'' PNone) =
      Inr (PStr (if truthy_str (Some sv_old) then replace_char (CHR ''_'') ''-'' sv_old else ''0''))"
    using fix_system_version_opt[of "Some sv_old"] by (simp add: py_get_def pstr_opt_def)
  have px: "dget x ''plugin_version'' = Some pv"
      unfolding x_def analysis_entry_to_dict_def e(3) res dget_dupdate[OF ok] using none[of "''plugin_version''"] e(2)
      by (simp add: META_KEYS_def)
  have "analysis_is_up_to_date E d' x pl u = Inr False"
  proof -
    let ?n = "current_version_is_newer E (pstr_opt (p_version pl)) (pstr_opt (p_system_version pl)) x"
    have pc: "parse_version E (PStr (if truthy_str (p_system_version pl)
        then replace_char (CHR ''_'') ''-'' (fstr (p_system_version pl)) else ''0'')) = Inr c"
      using assms(7) by (simp add: parse_version_def system_rank_def)
    have pd: "parse_version E (PStr (if truthy_str (Some sv_old) then replace_char (CHR ''_'') ''-'' sv_old else ''0'')) = Inr d"
      using assms(5) by (cases "sv_old = []") (simp_all add: parse_version_def system_rank_def)
    have perr: "parse_version E v = Inl TypeError \<or> parse_version E v = Inl ValueError \<or> (\<exists>r. parse_version E v = Inr r)" for v
      by (cases v) (auto simp: parse_version_def split: option.split)
    have "?n = Inr True \<or> ?n = Inl TypeError \<or> ?n = Inl ValueError"
      using perr[of "pstr_opt (p_version pl)"] perr[of pv] px pc pd sv assms(8)
      unfolding current_version_is_newer_def fix_system_version_opt dlookup_def
      by (elim disjE exE; simp)
    then show ?thesis by (auto simp: analysis_is_up_to_date_def)
  qed
  then have "analysis_is_already_in_db_and_up_to_date E ?s' p u = Inr False"
    using e(1) assms(6) px[unfolded x_def]
    by (auto simp: analysis_is_already_in_db_and_up_to_date_def get_analysis_def x_def dlookup_def e(2) split: option.split)
  with post show ?thesis by blast
qed

definition ex_result_of :: "string \<Rightarrow> string \<Rightarrow> analysis_result" where
  "ex_result_of v sv = [(''plugin_version'', PStr v), (''system_version'', PStr sv), (''analysis_date'', PInt 5)]"

definition ex_stored :: sched where
  "ex_stored = \<lparr>plugins = [(''p'', (ex_plugin [])\<lparr>p_name := Some ''p'', p_system_version := Some ''1.10''\<rparr>)],
     process_queue = [], unpacking_locks = [], status = init_status,
     database = snd (add_analysis (\<lambda>_. None) (Some ''B'') ''p'' (ex_result_of ''1.0'' ''1.9'') ex_db)\<rparr>"

definition ex_env2 :: env where
  "ex_env2 = \<lparr>e_sha = (\<lambda>_. []), e_md5 = (\<lambda>_. []), e_read = (\<lambda>_. []), e_reject = (\<lambda>_. None), e_to_date = (\<lambda>_. None),
     e_version_rank = (\<lambda>v. Some (real (length v))), e_storage = ''/s'', e_cfg_mime = (\<lambda>_. (None, None)),
     e_cfg_threads = [], e_default_threads = 1, e_default_plugins = []\<rparr>"

lemma ex_stored_row: "\<exists>a. map_of (analysis_tbl (database ex_stored)) (Some ''B'', ''p'') = Some a \<and>
  an_system_version a = PStr ''1.9'' \<and> analysis_entry_to_dict a =
    [(''analysis_date'', PInt 5), (''plugin_version'', PStr ''1.0''), (''system_version'', PStr ''1.9''),
     (''summary'', PList []), (''tags'', PDict [])]"
proof -
  have "case map_of (analysis_tbl (database ex_stored)) (Some ''B'', ''p'') of None \<Rightarrow> False
    | Some a \<Rightarrow> an_system_version a = PStr ''1.9'' \<and> analysis_entry_to_dict a =
    [(''analysis_date'', PInt 5), (''plugin_version'', PStr ''1.0''), (''system_version'', PStr ''1.9''),
     (''summary'', PList []), (''tags'', PDict [])]"
    by code_simp
  then show ?thesis by (auto split: option.splits)
qed

theorem system_upgrade_never_up_to_date_witness:
  "\<exists>s'. post_analysis ex_env2 (Some ''B'') ''p'' (ex_result_of ''1.0'' ''1.10'') ex_stored = Done s' \<and>
     analysis_is_already_in_db_and_up_to_date ex_env2 s' ''p'' (Some ''B'') = Inr False"
proof -
  obtain a where a: "map_of (analysis_tbl (database ex_stored)) (Some ''B'', ''p'') = Some a" "an_system_version a = PStr ''1.9''"
    using ex_stored_row by blast
  have ok: "db_ok (database ex_stored)" by (simp add: ex_stored_def db_ok_add_analysis db_ok_ex_db)
  have r: "storable (PDict (ex_result_of ''1.0'' ''1.10''))" "nul_free (PDict (ex_result_of ''1.0'' ''1.10''))" by code_simp+
  show ?thesis
    by (rule system_upgrade_never_up_to_date[OF ok a(1) _ a(2) _ _ _ _ r(1,2),
          where pl = "(ex_plugin [])\<lparr>p_name := Some ''p'', p_system_version := Some ''1.10''\<rparr>" and c = 4 and d = 3 and pv = "PStr ''1.0''" and date = "PInt 5"])
       (simp_all add: system_rank_def ex_env2_def ex_stored_def ex_result_of_def)
qed

theorem task_runs_iff_witness:
  "\<exists>s'. start_or_skip_analysis ex_env2 0 ''p'' ((ex_fo ''B'' [Some ''A''] [Some ''A''] [])\<lparr>force_update := True\<rparr>) ex_stored = Done s' \<and>
     plugins s' \<noteq> plugins ex_stored"
proof -
  let ?fo = "(ex_fo ''B'' [Some ''A''] [Some ''A''] [])\<lparr>force_update := True\<rparr>"
  have "case start_or_skip_analysis ex_env2 0 ''p'' ?fo ex_stored of Done s' \<Rightarrow> True | _ \<Rightarrow> False" by code_simp
  then obtain s' where s': "start_or_skip_analysis ex_env2 0 ''p'' ?fo ex_stored = Done s'" by (auto split: outcome.splits)
  obtain a where a: "map_of (analysis_tbl (database ex_stored)) (Some ''B'', ''p'') = Some a"
    "analysis_entry_to_dict a =
    [(''analysis_date'', PInt 5), (''plugin_version'', PStr ''1.0''), (''system_version'', PStr ''1.9''),
     (''summary'', PList []), (''tags'', PDict [])]"
    using ex_stored_row by blast
  have u: "get_uid (e_sha ex_env2) ?fo = Some ''B''" by (simp add: ex_fo_def get_uid_def)
  have b: "next_analysis_is_blacklisted ex_env2 ex_stored ''p'' ?fo = Inr (False, ?fo)"
    by (simp add: next_analysis_is_blacklisted_def get_blacklist_and_whitelist_def ex_env2_def opt_list_def
        get_blacklist_and_whitelist_from_plugin_def ex_stored_def ex_plugin_def dlookup_def)
  have "(plugins s' \<noteq> plugins ex_stored) \<longleftrightarrow> (force_update ?fo \<or> (case get_analysis (database ex_stored) (get_uid (e_sha ex_env2) ?fo) ''p'' of
        None \<Rightarrow> True | Some r \<Rightarrow> dmem ''failed'' r \<or> (3::real) < 3 \<or> (3::real) < 4 \<or>
          (\<exists>dep \<in> set (p_dependencies ((ex_plugin [])\<lparr>p_name := Some ''p'', p_system_version := Some ''1.10''\<rparr>)). (5::real) < 0))) \<and>
    \<not> (''p'' \<notin> set MANDATORY_PLUGINS \<and> (\<exists>fo1. next_analysis_is_blacklisted ex_env2 ex_stored ''p'' ?fo = Inr (True, fo1)))"
    by (rule task_runs_iff[OF s', where v = "''1.0''" and w = "\<lambda>_. ''1.0''" and sw = "\<lambda>_. Some ''1.9''"])
       (use a u in \<open>auto simp: ex_stored_def ex_env2_def ex_plugin_def system_rank_def stored_versions_def pstr_opt_def
          get_analysis_def py_get_def\<close>)
  with b s' show ?thesis by (auto simp: ex_fo_def)
qed

end
