(* ===== verification/Redis.thy ===== *)
theory Redis
  imports FileObj
begin

text \<open>
  \<open>storage/redis_interface.py\<close>: values and queues in Redis, with values above the csize limit
  stored in chunks under random keys. The keyspace of the server is a dict of strings and
  a dict of lists (the commands GET, SET, DEL, EXISTS, RPUSH and LPOP on them); pickling and
  the random numbers are parameters. The search for an unused chunk key is a loop without a
  bound, so it is a partial function.
\<close>

record redis =
  r_strings :: "(string, bytes) dict"
  r_lists :: "(string, bytes list) dict"

section \<open>Server commands\<close>

definition redis_exists :: "string \<Rightarrow> redis \<Rightarrow> bool" where
  "redis_exists key st = (dmem key (r_strings st) \<or> dmem key (r_lists st))"

text \<open>\<open>SET\<close> replaces whatever the key held.\<close>

definition redis_set :: "string \<Rightarrow> bytes \<Rightarrow> redis \<Rightarrow> redis" where
  "redis_set key v st = st\<lparr>r_strings := dput key v (r_strings st), r_lists := ddel key (r_lists st)\<rparr>"

definition redis_pop :: "string \<Rightarrow> redis \<Rightarrow> bytes option \<times> redis" where
  "redis_pop key st = (dget (r_strings st) key, st\<lparr>r_strings := ddel key (r_strings st), r_lists := ddel key (r_lists st)\<rparr>)"

definition redis_rpush :: "string \<Rightarrow> bytes \<Rightarrow> redis \<Rightarrow> redis" where
  "redis_rpush key v st = st\<lparr>r_lists := dappend key v (r_lists st)\<rparr>"

text \<open>A list that becomes empty is removed from the keyspace.\<close>

definition redis_lpop :: "string \<Rightarrow> redis \<Rightarrow> bytes option \<times> redis" where
  "redis_lpop key st = (case dget (r_lists st) key of
      None \<Rightarrow> (None, st)
    | Some [] \<Rightarrow> (None, st)
    | Some [v] \<Rightarrow> (Some v, st\<lparr>r_lists := ddel key (r_lists st)\<rparr>)
    | Some (v # w # vs) \<Rightarrow> (Some v, st\<lparr>r_lists := dput key (w # vs) (r_lists st)\<rparr>))"

section \<open>Chunks\<close>

definition CHUNK_MAGIC :: string where
  "CHUNK_MAGIC = ''$CHUNKED$''"

definition SEPARATOR :: char where
  "SEPARATOR = CHR ''#''"

definition encode :: "string \<Rightarrow> bytes" where
  "encode s = map of_char s"

definition decode :: "bytes \<Rightarrow> string" where
  "decode b = map char_of b"

definition chunk_key :: "nat \<Rightarrow> string" where
  "chunk_key n = ''chunk_'' @ str_nat n"

text \<open>\<open>rnd n\<close> is the result of the \<open>n\<close>-th call of \<open>randint(0, 9999)\<close>.\<close>

partial_function (option) get_new_chunk_key :: "(nat \<Rightarrow> nat) \<Rightarrow> nat \<Rightarrow> redis \<Rightarrow> (string \<times> nat) option" where
  "get_new_chunk_key rnd n st =
     (let key = chunk_key (rnd n) in
      if \<not> redis_exists key st then Some (key, Suc n) else get_new_chunk_key rnd (Suc n) st)"

declare get_new_chunk_key.simps [code]

text \<open>The slices \<open>value[csize * i : csize * (i + 1)]\<close>.\<close>

definition chunks :: "nat \<Rightarrow> bytes \<Rightarrow> bytes list" where
  "chunks csize v = map (\<lambda>i. take csize (drop (csize * i) v)) [0..<(length v + csize - 1) div csize]"

fun store_chunk_list :: "(nat \<Rightarrow> nat) \<Rightarrow> bytes list \<Rightarrow> nat \<Rightarrow> redis \<Rightarrow> (string list \<times> nat \<times> redis) option" where
  "store_chunk_list rnd [] n st = Some ([], n, st)"
| "store_chunk_list rnd (c # cs) n st =
     Option.bind (get_new_chunk_key rnd n st) (\<lambda>(key, n1).
     Option.bind (store_chunk_list rnd cs n1 (redis_set key c st)) (\<lambda>(keys, n2, st2).
       Some (key # keys, n2, st2)))"

definition store_chunks :: "nat \<Rightarrow> (nat \<Rightarrow> nat) \<Rightarrow> bytes \<Rightarrow> nat \<Rightarrow> redis \<Rightarrow> (bytes \<times> nat \<times> redis) option" where
  "store_chunks csize rnd v n st =
     Option.bind (store_chunk_list rnd (chunks csize v) n st) (\<lambda>(keys, n1, st1).
       Some (encode (foldl (\<lambda>meta key. meta @ [SEPARATOR] @ key) CHUNK_MAGIC keys), n1, st1))"

definition split_if_necessary :: "nat \<Rightarrow> (nat \<Rightarrow> nat) \<Rightarrow> bytes \<Rightarrow> nat \<Rightarrow> redis \<Rightarrow> (bytes \<times> nat \<times> redis) option" where
  "split_if_necessary csize rnd v n st =
     (if length v > csize then store_chunks csize rnd v n st else Some (v, n, st))"

text \<open>\<open>_combine_chunks\<close>: a chunk that is gone is \<open>None\<close>, which \<open>b''.join\<close> refuses.\<close>

fun pop_chunks :: "bool \<Rightarrow> string list \<Rightarrow> redis \<Rightarrow> bytes list result \<times> redis" where
  "pop_chunks del [] st = (Inr [], st)"
| "pop_chunks del (key # keys) st =
     (let (v, st1) = (if del then redis_pop key st else (dget (r_strings st) key, st));
          (r, st2) = pop_chunks del keys st1
      in (case v of None \<Rightarrow> Inl TypeError | Some c \<Rightarrow> map_r (Cons c) r, st2))"

definition combine_chunks :: "string \<Rightarrow> bool \<Rightarrow> redis \<Rightarrow> bytes result \<times> redis" where
  "combine_chunks meta_key del st =
     (let (r, st1) = pop_chunks del (tl (split_on SEPARATOR meta_key)) st in (map_r concat r, st1))"

definition combine_if_split :: "(bytes \<Rightarrow> 'v) \<Rightarrow> bytes option \<Rightarrow> bool \<Rightarrow> redis \<Rightarrow> 'v option result \<times> redis" where
  "combine_if_split loads v del st = (case v of
      None \<Rightarrow> (Inr None, st)
    | Some b \<Rightarrow>
        if prefix (encode CHUNK_MAGIC) b then
          (let (r, st1) = combine_chunks (decode b) del st in (map_r (Some \<circ> loads) r, st1))
        else (Inr (Some (loads b)), st))"

section \<open>The interface\<close>

definition redis_store ::
  "nat \<Rightarrow> (nat \<Rightarrow> nat) \<Rightarrow> ('v \<Rightarrow> bytes) \<Rightarrow> string \<Rightarrow> 'v \<Rightarrow> nat \<times> redis \<Rightarrow> (nat \<times> redis) option" where
  "redis_store csize rnd dumps key v = (\<lambda>(n, st).
     Option.bind (split_if_necessary csize rnd (dumps v) n st) (\<lambda>(b, n1, st1). Some (n1, redis_set key b st1)))"

definition redis_load :: "(bytes \<Rightarrow> 'v) \<Rightarrow> string \<Rightarrow> bool \<Rightarrow> redis \<Rightarrow> 'v option result \<times> redis" where
  "redis_load loads key del st =
     (let (v, st1) = (if del then redis_pop key st else (dget (r_strings st) key, st))
      in combine_if_split loads v del st1)"

definition queue_put ::
  "nat \<Rightarrow> (nat \<Rightarrow> nat) \<Rightarrow> ('v \<Rightarrow> bytes) \<Rightarrow> string \<Rightarrow> 'v \<Rightarrow> nat \<times> redis \<Rightarrow> (nat \<times> redis) option" where
  "queue_put csize rnd dumps key v = (\<lambda>(n, st).
     Option.bind (split_if_necessary csize rnd (dumps v) n st) (\<lambda>(b, n1, st1). Some (n1, redis_rpush key b st1)))"

definition queue_get :: "(bytes \<Rightarrow> 'v) \<Rightarrow> string \<Rightarrow> redis \<Rightarrow> 'v option result \<times> redis" where
  "queue_get loads key st = (let (v, st1) = redis_lpop key st in combine_if_split loads v True st1)"

section \<open>Chunks are put together again\<close>

lemma concat_chunks:
  assumes "0 < csize" shows "concat (chunks csize v) = v"
proof -
  have *: "concat (map (\<lambda>i. take csize (drop (csize * i) v)) [0..<k]) = take (csize * k) v" for k
  proof (induction k)
    case 0
    then show ?case by simp
  next
    case (Suc k)
    have "take (csize * Suc k) v = take (csize * k) v @ take csize (drop (csize * k) v)"
      by (metis add.commute mult_Suc_right take_add)
    with Suc show ?case by simp
  qed
  have "length v \<le> csize * ((length v + csize - 1) div csize)"
  proof -
    have "length v + csize - 1 < csize * ((length v + csize - 1) div csize) + csize"
      using dividend_less_times_div[OF assms, of "length v + csize - 1"] by simp
    then show ?thesis by simp
  qed
  then show ?thesis unfolding chunks_def * by simp
qed

lemma decode_encode [simp]: "decode (encode s) = s"
  by (simp add: decode_def encode_def comp_def)

lemma foldl_join: "foldl (\<lambda>meta key. meta @ [c] @ key) m keys = join_with [c] (m # keys)"
proof (induction keys arbitrary: m)
  case (Cons k keys)
  have "foldl (\<lambda>meta key. meta @ [c] @ key) m (k # keys) = join_with [c] ((m @ [c] @ k) # keys)"
    using Cons[of "m @ [c] @ k"] by simp
  also have "\<dots> = join_with [c] (m # k # keys)" by (cases keys) simp_all
  finally show ?case .
qed simp

lemma chunk_key_no_separator: "SEPARATOR \<notin> set (chunk_key n)"
proof
  assume "SEPARATOR \<in> set (chunk_key n)"
  then have "CHR ''#'' \<in> set (digits_of n)" by (auto simp: chunk_key_def SEPARATOR_def str_nat_def)
  with digits_of_digits[of n] show False by (auto simp: is_digit_def)
qed

lemma split_meta:
  assumes "\<forall>k \<in> set keys. SEPARATOR \<notin> set k"
  shows "tl (split_on SEPARATOR (join_with [SEPARATOR] (CHUNK_MAGIC # keys))) = keys"
proof -
  have "split_on SEPARATOR (join_with [SEPARATOR] (CHUNK_MAGIC # keys)) = CHUNK_MAGIC # keys"
    by (rule split_join) (use assms in \<open>auto simp: CHUNK_MAGIC_def SEPARATOR_def\<close>)
  then show ?thesis by simp
qed

text \<open>Two stores with the same strings and lists under every key.\<close>

definition same_keys :: "redis \<Rightarrow> redis \<Rightarrow> bool" where
  "same_keys st st' \<longleftrightarrow> (\<forall>k. dget (r_strings st) k = dget (r_strings st') k) \<and> (\<forall>k. dget (r_lists st) k = dget (r_lists st') k)"

lemma get_new_chunk_key_result:
  assumes "get_new_chunk_key rnd n st = Some (key, n')"
  shows "\<not> redis_exists key st \<and> (\<exists>i. key = chunk_key (rnd i))"
proof -
  have "\<not> redis_exists (fst (key, n')) st \<and> (\<exists>i. fst (key, n') = chunk_key (rnd i))"
  proof (rule get_new_chunk_key.raw_induct[OF _ assms,
        where P = "\<lambda>rnd n st r. \<not> redis_exists (fst r) st \<and> (\<exists>i. fst r = chunk_key (rnd i))"], goal_cases)
    case (1 search rnd n st r)
    then show ?case by (cases "redis_exists (chunk_key (rnd n)) st") (auto simp: Let_def)
  qed
  then show ?thesis by simp
qed

lemma store_chunk_list_result:
  assumes "store_chunk_list rnd cs n st = Some (keys, n', st')"
  shows "length keys = length cs \<and> distinct keys \<and> (\<forall>k \<in> set keys. \<not> redis_exists k st \<and> (\<exists>i. k = chunk_key (rnd i))) \<and>
    (\<forall>k. k \<notin> set keys \<longrightarrow> dget (r_strings st') k = dget (r_strings st) k) \<and>
    (\<forall>k. dget (r_lists st') k = dget (r_lists st) k) \<and>
    (\<forall>i < length keys. dget (r_strings st') (keys ! i) = Some (cs ! i))"
  using assms
proof (induction cs arbitrary: n st keys)
  case Nil
  then show ?case by simp
next
  case (Cons c cs)
  then obtain key n1 keys' where k: "get_new_chunk_key rnd n st = Some (key, n1)"
    and r: "store_chunk_list rnd cs n1 (redis_set key c st) = Some (keys', n', st')" and keys: "keys = key # keys'"
    by (auto simp: Option.bind_eq_Some_conv)
  note new = get_new_chunk_key_result[OF k]
  have lists: "dget (r_lists (redis_set key c st)) x = dget (r_lists st) x" for x
    using new by (auto simp: redis_set_def redis_exists_def dmem_def)
  have ex: "redis_exists x (redis_set key c st) \<longleftrightarrow> x = key \<or> redis_exists x st" for x
    using new by (auto simp: redis_set_def redis_exists_def dmem_def)
  note IH = Cons.IH[OF r]
  have "dget (r_strings st') (keys ! i) = Some ((c # cs) ! i)" if "i < length keys" for i
    using that IH ex[of key] keys by (cases i) (auto simp: redis_set_def)
  with IH keys new lists ex show ?case by (auto simp: redis_set_def)
qed

text \<open>Reading the chunks back and deleting them restores the store.\<close>

lemma pop_chunks_result:
  assumes "distinct keys" "\<forall>i < length keys. dget (r_strings st) (keys ! i) = Some (cs ! i)" "length keys = length cs"
    "\<forall>k \<in> set keys. dget (r_lists st) k = None"
  shows "\<exists>st'. pop_chunks True keys st = (Inr cs, st') \<and>
    (\<forall>k. dget (r_strings st') k = (if k \<in> set keys then None else dget (r_strings st) k)) \<and>
    (\<forall>k. dget (r_lists st') k = dget (r_lists st) k)"
  using assms
proof (induction keys arbitrary: st cs)
  case Nil
  then show ?case by simp
next
  case (Cons key keys)
  from Cons.prems(3) obtain c cs' where cs: "cs = c # cs'" by (cases cs) auto
  let ?st = "st\<lparr>r_strings := ddel key (r_strings st), r_lists := ddel key (r_lists st)\<rparr>"
  have "\<forall>i < length keys. dget (r_strings ?st) (keys ! i) = Some (cs' ! i)"
  proof (intro allI impI)
    fix i assume "i < length keys"
    then show "dget (r_strings ?st) (keys ! i) = Some (cs' ! i)"
      using Cons.prems(1) Cons.prems(2)[rule_format, of "Suc i"] cs by auto
  qed
  moreover have "distinct keys" "length keys = length cs'" "\<forall>k \<in> set keys. dget (r_lists ?st) k = None"
    using Cons.prems(1,3,4) cs by auto
  ultimately obtain st' where st': "pop_chunks True keys ?st = (Inr cs', st')"
    "\<forall>k. dget (r_strings st') k = (if k \<in> set keys then None else dget (r_strings ?st) k)"
    "\<forall>k. dget (r_lists st') k = dget (r_lists ?st) k" using Cons.IH[of ?st cs'] by blast
  have "dget (r_strings st) key = Some c" using Cons.prems(2)[rule_format, of 0] cs by simp
  with st' Cons.prems(1,4) cs show ?case by (auto simp: redis_pop_def)
qed

section \<open>A free key is found\<close>

text \<open>The random numbers are below 10000 and every number comes again and again.\<close>

definition fair :: "(nat \<Rightarrow> nat) \<Rightarrow> bool" where
  "fair rnd \<longleftrightarrow> (\<forall>n. rnd n < 10000) \<and> (\<forall>k < 10000. \<forall>n. \<exists>m \<ge> n. rnd m = k)"

definition used_keys :: "redis \<Rightarrow> nat set" where
  "used_keys st = {k. k < 10000 \<and> redis_exists (chunk_key k) st}"

lemma finite_used_keys [simp]: "finite (used_keys st)"
  by (rule finite_subset[of _ "{..<10000}"]) (auto simp: used_keys_def)

lemma get_new_chunk_key_ends:
  assumes "fair rnd" "card (used_keys st) < 10000"
  shows "\<exists>key n'. get_new_chunk_key rnd n st = Some (key, n')"
proof -
  have "\<exists>k < 10000. k \<notin> used_keys st"
  proof (rule ccontr)
    assume "\<not> ?thesis"
    then have "{..<10000} \<subseteq> used_keys st" by auto
    then have "card {..<10000::nat} \<le> card (used_keys st)" by (intro card_mono) auto
    with assms(2) show False by simp
  qed
  then obtain k where k: "k < 10000" "\<not> redis_exists (chunk_key k) st" by (auto simp: used_keys_def)
  from assms(1) have "\<forall>k < 10000. \<forall>n. \<exists>m \<ge> n. rnd m = k" by (simp add: fair_def)
  with k(1) obtain m where m: "m \<ge> n" "rnd m = k" by blast
  have "\<exists>key n'. get_new_chunk_key rnd i st = Some (key, n')" if "i \<le> m" for i
    using that
  proof (induction "m - i" arbitrary: i)
    case 0
    then have "i = m" by simp
    with m k show ?case by (subst get_new_chunk_key.simps) (simp add: Let_def)
  next
    case (Suc d)
    then have "\<exists>key n'. get_new_chunk_key rnd (Suc i) st = Some (key, n')" by simp
    then show ?case by (subst get_new_chunk_key.simps) (simp add: Let_def)
  qed
  with m show ?thesis by blast
qed

lemma digits_value: "foldl (\<lambda>n c. n * 10 + (of_char c - 48)) 0 (digits_of n) = (n::nat)"
proof (induction n rule: digits_of.induct)
  case (1 n)
  show ?case
  proof (cases "n < 10")
    case True
    then show ?thesis by (subst digits_of.simps) simp
  next
    case False
    with 1 have IH: "foldl (\<lambda>n c. n * 10 + (of_char c - 48)) 0 (digits_of (n div 10)) = n div 10" by simp
    have "digits_of n = digits_of (n div 10) @ [char_of (48 + n mod 10)]" using False by (subst digits_of.simps) simp
    then show ?thesis using IH by simp
  qed
qed

lemma chunk_key_inj: "chunk_key i = chunk_key j \<Longrightarrow> i = j"
proof -
  assume "chunk_key i = chunk_key j"
  then have "digits_of i = digits_of j" by (simp add: chunk_key_def str_nat_def)
  then show ?thesis by (metis digits_value)
qed

lemma used_keys_set:
  "\<not> redis_exists key st \<Longrightarrow> key = chunk_key i \<Longrightarrow> card (used_keys (redis_set key c st)) \<le> Suc (card (used_keys st))"
proof -
  assume new: "\<not> redis_exists key st" "key = chunk_key i"
  have ex: "redis_exists x (redis_set key c st) \<longleftrightarrow> x = key \<or> redis_exists x st" for x
    using new by (auto simp: redis_set_def redis_exists_def dmem_def)
  have "used_keys (redis_set key c st) \<subseteq> insert i (used_keys st)"
  proof
    fix j assume "j \<in> used_keys (redis_set key c st)"
    then have "j < 10000" "chunk_key j = key \<or> redis_exists (chunk_key j) st" using ex by (auto simp: used_keys_def)
    then show "j \<in> insert i (used_keys st)" using new(2) chunk_key_inj[of j i] by (auto simp: used_keys_def)
  qed
  then have "card (used_keys (redis_set key c st)) \<le> card (insert i (used_keys st))" by (intro card_mono) auto
  then show ?thesis using card_insert_le_m1[of "Suc (card (used_keys st))" "used_keys st" i] by (simp add: card_insert_if split: if_splits)
qed

lemma store_chunk_list_ends:
  assumes "fair rnd" "card (used_keys st) + length cs \<le> 10000"
  shows "\<exists>r. store_chunk_list rnd cs n st = Some r"
  using assms(2)
proof (induction cs arbitrary: n st)
  case (Cons c cs)
  from get_new_chunk_key_ends[OF assms(1), of st n] Cons.prems obtain key n1 where
    k: "get_new_chunk_key rnd n st = Some (key, n1)" by auto
  note new = get_new_chunk_key_result[OF k]
  have "card (used_keys (redis_set key c st)) + length cs \<le> 10000"
    using used_keys_set[of key st _ c] new Cons.prems by fastforce
  from Cons.IH[OF this, of n1] k show ?case by (auto simp: Option.bind_eq_Some_conv) 
qed simp

section \<open>Properties\<close>

definition chunk_count :: "nat \<Rightarrow> bytes \<Rightarrow> nat" where
  "chunk_count csize b = (if length b > csize then (length b + csize - 1) div csize else 0)"

lemma encode_magic_prefix: "prefix (encode CHUNK_MAGIC) (encode (join_with [c] (CHUNK_MAGIC # keys)))"
proof (cases keys)
  case (Cons k ks)
  have "encode (join_with [c] (CHUNK_MAGIC # keys)) = encode CHUNK_MAGIC @ encode ([c] @ join_with [c] keys)"
    by (simp add: Cons encode_def)
  then show ?thesis by simp
qed simp

text \<open>The stored form of a value reads back as the value and takes its chunks along.\<close>

lemma split_combine:
  assumes "split_if_necessary csize rnd (dumps v) n st = Some (b, n1, st1)" "0 < csize"
    "\<not> prefix (encode CHUNK_MAGIC) (dumps v)" "loads (dumps v) = v"
    and "\<And>k. dget (r_strings st2) k = dget (r_strings st1) k \<or> (\<forall>i. k \<noteq> chunk_key i) \<and> dget (r_strings st2) k = None"
    and "\<And>i. dget (r_lists st2) (chunk_key i) = dget (r_lists st1) (chunk_key i)"
  shows "\<exists>st3. combine_if_split loads (Some b) True st2 = (Inr (Some v), st3) \<and>
    (\<forall>i. dget (r_strings st3) (chunk_key i) = dget (r_strings st) (chunk_key i)) \<and>
    (\<forall>k. (\<forall>i. k \<noteq> chunk_key i) \<longrightarrow> dget (r_strings st3) k = dget (r_strings st2) k) \<and>
    (\<forall>k. dget (r_lists st3) k = dget (r_lists st2) k)"
proof (cases "length (dumps v) > csize")
  case False
  with assms(1) have "b = dumps v" "st1 = st" by (auto simp: split_if_necessary_def)
  with assms(3-5) show ?thesis by (auto simp: combine_if_split_def)
next
  case True
  with assms(1) obtain keys where s: "store_chunk_list rnd (chunks csize (dumps v)) n st = Some (keys, n1, st1)"
    and "b = encode (foldl (\<lambda>meta key. meta @ [SEPARATOR] @ key) CHUNK_MAGIC keys)"
    by (auto simp: split_if_necessary_def store_chunks_def Option.bind_eq_Some_conv)
  then have b: "b = encode (join_with [SEPARATOR] (CHUNK_MAGIC # keys))" unfolding foldl_join by simp
  note r = store_chunk_list_result[OF s]
  have sep: "\<forall>k \<in> set keys. SEPARATOR \<notin> set k" using r chunk_key_no_separator by metis
  have keep: "dget (r_strings st2) (chunk_key i) = dget (r_strings st1) (chunk_key i)" for i using assms(5)[of "chunk_key i"] by auto
  have ck: "\<exists>i. keys ! j = chunk_key i" if "j < length keys" for j using r that nth_mem by blast
  have strs: "\<forall>i < length keys. dget (r_strings st2) (keys ! i) = Some (chunks csize (dumps v) ! i)"
    using r ck keep by metis
  have lists: "\<forall>k \<in> set keys. dget (r_lists st2) k = None"
  proof
    fix k assume "k \<in> set keys"
    with r obtain i where "k = chunk_key i" "\<not> redis_exists k st" by blast
    with r assms(6)[of i] show "dget (r_lists st2) k = None" by (auto simp: redis_exists_def dmem_def)
  qed
  from pop_chunks_result[OF _ strs _ lists] r obtain st3 where
    st3: "pop_chunks True keys st2 = (Inr (chunks csize (dumps v)), st3)"
    "\<forall>k. dget (r_strings st3) k = (if k \<in> set keys then None else dget (r_strings st2) k)"
    "\<forall>k. dget (r_lists st3) k = dget (r_lists st2) k" by auto
  have "combine_if_split loads (Some b) True st2 = (Inr (Some v), st3)"
    using encode_magic_prefix[of SEPARATOR keys] assms(4) concat_chunks[OF assms(2)]
    by (simp add: combine_if_split_def combine_chunks_def b split_meta[OF sep] st3(1))
  moreover have "dget (r_strings st3) (chunk_key i) = dget (r_strings st) (chunk_key i)" for i
    using st3(2) r keep[of i] by (cases "chunk_key i \<in> set keys") (auto simp: redis_exists_def dmem_def)
  moreover have "dget (r_strings st3) k = dget (r_strings st2) k" if "\<forall>i. k \<noteq> chunk_key i" for k
    using st3(2) r that by auto
  ultimately show ?thesis using st3(3) by blast
qed

lemma split_if_necessary_other:
  assumes "split_if_necessary csize rnd b0 n st = Some (b, n1, st1)"
  shows "(\<forall>i. k \<noteq> chunk_key i) \<or> redis_exists k st \<Longrightarrow> dget (r_strings st1) k = dget (r_strings st) k"
    and "dget (r_lists st1) k = dget (r_lists st) k"
proof -
  have "((\<forall>i. k \<noteq> chunk_key i) \<or> redis_exists k st \<longrightarrow> dget (r_strings st1) k = dget (r_strings st) k) \<and>
    dget (r_lists st1) k = dget (r_lists st) k"
  proof (cases "length b0 > csize")
    case False
    with assms show ?thesis by (simp add: split_if_necessary_def)
  next
    case True
    with assms obtain keys where "store_chunk_list rnd (chunks csize b0) n st = Some (keys, n1, st1)"
      by (auto simp: split_if_necessary_def store_chunks_def Option.bind_eq_Some_conv)
    from store_chunk_list_result[OF this] show ?thesis by blast
  qed
  then show "(\<forall>i. k \<noteq> chunk_key i) \<or> redis_exists k st \<Longrightarrow> dget (r_strings st1) k = dget (r_strings st) k"
    "dget (r_lists st1) k = dget (r_lists st) k" by blast+
qed

lemma split_if_necessary_ends:
  assumes "fair rnd" "card (used_keys st) + chunk_count csize b0 \<le> 10000"
  shows "\<exists>b n1 st1. split_if_necessary csize rnd b0 n st = Some (b, n1, st1)"
proof (cases "length b0 > csize")
  case True
  then have "card (used_keys st) + length (chunks csize b0) \<le> 10000"
    using assms(2) by (simp add: chunk_count_def chunks_def)
  from store_chunk_list_ends[OF assms(1) this, of n] True show ?thesis
    by (auto simp: split_if_necessary_def store_chunks_def)
qed (simp add: split_if_necessary_def)

lemma redis_store_load:
  assumes "fair rnd" "card (used_keys st) + chunk_count csize (dumps v) \<le> 10000" "0 < csize"
    and "loads (dumps v) = v" "\<not> prefix (encode CHUNK_MAGIC) (dumps v)" "\<forall>i. key \<noteq> chunk_key i"
  shows "\<exists>n1 st1 st2. redis_store csize rnd dumps key v (n, st) = Some (n1, st1) \<and>
    redis_load loads key True st1 = (Inr (Some v), st2) \<and>
    (\<forall>k. dget (r_strings st2) k = (if k = key then None else dget (r_strings st) k)) \<and>
    (\<forall>k. dget (r_lists st2) k = (if k = key then None else dget (r_lists st) k))"
proof -
  from split_if_necessary_ends[OF assms(1,2)] obtain b n1 st1 where
    sp: "split_if_necessary csize rnd (dumps v) n st = Some (b, n1, st1)" by blast
  let ?st2 = "snd (redis_pop key (redis_set key b st1))"
  have s2: "dget (r_strings ?st2) k = (if k = key then None else dget (r_strings st1) k)"
    "dget (r_lists ?st2) k = (if k = key then None else dget (r_lists st1) k)" for k
    by (simp_all add: redis_pop_def redis_set_def)
  have str: "dget (r_strings ?st2) k = dget (r_strings st1) k \<or> (\<forall>i. k \<noteq> chunk_key i) \<and> dget (r_strings ?st2) k = None" for k
    using assms(6) unfolding s2 by auto
  have lst: "dget (r_lists ?st2) (chunk_key i) = dget (r_lists st1) (chunk_key i)" for i
    using assms(6) unfolding s2 by auto
  from split_combine[where dumps = dumps and v = v and loads = loads and ?st2.0 = ?st2, OF sp assms(3,5,4) str lst] obtain st3 where
    c: "combine_if_split loads (Some b) True ?st2 = (Inr (Some v), st3)"
    "\<forall>i. dget (r_strings st3) (chunk_key i) = dget (r_strings st) (chunk_key i)"
    "\<forall>k. (\<forall>i. k \<noteq> chunk_key i) \<longrightarrow> dget (r_strings st3) k = dget (r_strings ?st2) k"
    "\<forall>k. dget (r_lists st3) k = dget (r_lists ?st2) k" by blast
  have "redis_store csize rnd dumps key v (n, st) = Some (n1, redis_set key b st1)" by (simp add: redis_store_def sp)
  moreover have "redis_load loads key True (redis_set key b st1) = (Inr (Some v), st3)"
    using c(1) by (simp add: redis_load_def redis_pop_def redis_set_def)
  moreover have "dget (r_strings st3) k = (if k = key then None else dget (r_strings st) k)" for k
    using c(2,3) s2 split_if_necessary_other(1)[OF sp] assms(6) by (cases "\<exists>i. k = chunk_key i") auto
  moreover have "dget (r_lists st3) k = (if k = key then None else dget (r_lists st) k)" for k
    using c(4) s2 split_if_necessary_other(2)[OF sp] by auto
  ultimately show ?thesis by blast
qed

text \<open>C18: A value stored with \<open>RedisInterface.set\<close> is read back by \<open>get\<close>, which returns exactly the
  value stored, whatever its size. The chunks of a value above the limit get keys no other
  entry has, and reading the value deletes them with it, so that afterwards every other key
  holds what it held before. The search for free chunk keys ends when the random numbers
  reach every number again and again and enough of the 10000 chunk keys are free.\<close>

theorem redis_roundtrip:
  assumes "fair rnd" "card (used_keys st) + chunk_count csize (dumps v) \<le> 10000" "0 < csize"
    and "loads (dumps v) = v" "\<not> prefix (encode CHUNK_MAGIC) (dumps v)" "\<forall>i. key \<noteq> chunk_key i"
  shows "\<exists>n1 st1 st2. redis_store csize rnd dumps key v (n, st) = Some (n1, st1) \<and>
    redis_load loads key True st1 = (Inr (Some v), st2) \<and>
    (\<forall>k. dget (r_strings st2) k = (if k = key then None else dget (r_strings st) k)) \<and>
    (\<forall>k. dget (r_lists st2) k = (if k = key then None else dget (r_lists st) k))"
  using assms by (rule redis_store_load)

definition ex_rnd :: "nat \<Rightarrow> nat" where
  "ex_rnd n = n mod 10000"

lemma fair_ex_rnd: "fair ex_rnd"
  unfolding fair_def ex_rnd_def
proof (intro conjI allI impI)
  fix k n :: nat assume "k < 10000"
  then have "n \<le> n * 10000 + k" "(n * 10000 + k) mod 10000 = k" by auto
  then show "\<exists>m \<ge> n. m mod 10000 = k" by blast
qed simp

definition ex_redis :: redis where
  "ex_redis = \<lparr>r_strings = [(''a'', encode ''x'')], r_lists = []\<rparr>"

lemma not_chunk_key: "\<not> prefix ''chunk_'' key \<Longrightarrow> key \<noteq> chunk_key i"
  by (auto simp: chunk_key_def)

lemma used_keys_ex_redis [simp]: "used_keys ex_redis = {}"
  by (auto simp: used_keys_def redis_exists_def dmem_def ex_redis_def chunk_key_def)

theorem redis_roundtrip_witness:
  "\<exists>n1 st1 st2. redis_store 2 ex_rnd encode ''task'' ''abcde'' (0, ex_redis) = Some (n1, st1) \<and>
    redis_load decode ''task'' True st1 = (Inr (Some ''abcde''), st2) \<and>
    (\<forall>k. dget (r_strings st2) k = (if k = ''task'' then None else dget (r_strings ex_redis) k)) \<and>
    (\<forall>k. dget (r_lists st2) k = (if k = ''task'' then None else dget (r_lists ex_redis) k))"
  by (rule redis_roundtrip[OF fair_ex_rnd])
    (auto simp: chunk_count_def CHUNK_MAGIC_def not_chunk_key, auto simp: encode_def)

section \<open>Queues\<close>

text \<open>The abstract queue under a key: the values its items stand for, read without deleting.\<close>

definition queue_items :: "string \<Rightarrow> redis \<Rightarrow> bytes list" where
  "queue_items key st = (case dget (r_lists st) key of None \<Rightarrow> [] | Some bs \<Rightarrow> bs)"

definition item_chunks :: "bytes \<Rightarrow> string list" where
  "item_chunks b = (if prefix (encode CHUNK_MAGIC) b then tl (split_on SEPARATOR (decode b)) else [])"

definition item_value :: "(bytes \<Rightarrow> 'v) \<Rightarrow> redis \<Rightarrow> bytes \<Rightarrow> 'v option result" where
  "item_value loads st b = fst (combine_if_split loads (Some b) False st)"

definition queue_abs :: "(bytes \<Rightarrow> 'v) \<Rightarrow> string \<Rightarrow> redis \<Rightarrow> 'v option result list" where
  "queue_abs loads key st = map (item_value loads st) (queue_items key st)"

definition queue_ok :: "string \<Rightarrow> redis \<Rightarrow> bool" where
  "queue_ok key st = (\<not> prefix ''chunk_'' key \<and>
     (let ks = concat (map item_chunks (queue_items key st)) in
      distinct ks \<and> (\<forall>k \<in> set ks. prefix ''chunk_'' k \<and> dmem k (r_strings st))))"

lemma pop_chunks_keep:
  "fst (pop_chunks False keys st) =
    (if \<forall>k \<in> set keys. dmem k (r_strings st) then Inr (map (\<lambda>k. the (dget (r_strings st) k)) keys) else Inl TypeError)"
proof (induction keys)
  case (Cons k keys)
  then show ?case
    by (auto simp: dmem_def Let_def split_beta split: option.splits)
qed simp

lemma pop_chunks_keep_state: "snd (pop_chunks False keys st) = st"
  by (induction keys) (simp_all add: split_beta Let_def)

lemma redis_pop_state:
  "dget (r_strings (snd (redis_pop key st))) k = (if k = key then None else dget (r_strings st) k)"
  "dget (r_lists (snd (redis_pop key st))) k = (if k = key then None else dget (r_lists st) k)"
  by (simp_all add: redis_pop_def)

lemma pop_chunks_delete:
  "distinct keys \<Longrightarrow> fst (pop_chunks True keys st) = fst (pop_chunks False keys st)"
  "dget (r_strings (snd (pop_chunks True keys st))) k = (if k \<in> set keys then None else dget (r_strings st) k)"
  "dget (r_lists (snd (pop_chunks True keys st))) k = (if k \<in> set keys then None else dget (r_lists st) k)"
proof (induction keys arbitrary: st)
  case Nil
  { case 1 show ?case by simp }
  { case 2 show ?case by simp }
  { case 3 show ?case by simp }
next
  case (Cons key keys)
  { case 1
    let ?st = "snd (redis_pop key st)"
    from 1 have "key \<notin> set keys" by simp
    then have "\<forall>k \<in> set keys. dget (r_strings ?st) k = dget (r_strings st) k"
      by (auto simp: redis_pop_state)
    then have "fst (pop_chunks False keys ?st) = fst (pop_chunks False keys st)"
      unfolding pop_chunks_keep dmem_def by (auto intro!: map_cong)
    with Cons(1)[of ?st] 1 show ?case by (simp add: split_beta Let_def redis_pop_def split: option.split) }
  { case 2 show ?case using Cons(2)[of "snd (redis_pop key st)"] by (simp add: split_beta Let_def redis_pop_def) }
  { case 3 show ?case using Cons(3)[of "snd (redis_pop key st)"] by (simp add: split_beta Let_def redis_pop_def) }
qed

lemma item_value_eq:
  "item_value loads st b =
    (if prefix (encode CHUNK_MAGIC) b then
       (if \<forall>k \<in> set (item_chunks b). dmem k (r_strings st)
        then Inr (Some (loads (concat (map (\<lambda>k. the (dget (r_strings st) k)) (item_chunks b))))) else Inl TypeError)
     else Inr (Some (loads b)))"
  by (simp add: item_value_def combine_if_split_def combine_chunks_def item_chunks_def split_beta Let_def pop_chunks_keep)

lemma item_value_cong:
  "(\<And>k. k \<in> set (item_chunks b) \<Longrightarrow> dget (r_strings st') k = dget (r_strings st) k) \<Longrightarrow>
   item_value loads st' b = item_value loads st b"
  unfolding item_value_eq dmem_def by (auto intro!: arg_cong[where f = loads] arg_cong[where f = concat])

lemma queue_abs_cong:
  assumes "queue_items key st' = queue_items key st"
    and "\<And>k. k \<in> set (concat (map item_chunks (queue_items key st))) \<Longrightarrow> dget (r_strings st') k = dget (r_strings st) k"
  shows "queue_abs loads key st' = queue_abs loads key st"
  unfolding queue_abs_def assms(1) by (rule map_cong[OF refl], rule item_value_cong) (use assms(2) in auto)

text \<open>What splitting a value for the queue produces: an item with fresh chunks that stands for it.\<close>

lemma split_item:
  assumes "split_if_necessary csize rnd (dumps v) n st = Some (b, n1, st1)" "0 < csize"
    "\<not> prefix (encode CHUNK_MAGIC) (dumps v)" "loads (dumps v) = v"
  shows "item_value loads st1 b = Inr (Some v)" "distinct (item_chunks b)"
    "k \<in> set (item_chunks b) \<Longrightarrow> \<not> redis_exists k st \<and> prefix ''chunk_'' k \<and> dmem k (r_strings st1)"
proof -
  have "item_value loads st1 b = Inr (Some v) \<and> distinct (item_chunks b) \<and>
    (\<forall>k \<in> set (item_chunks b). \<not> redis_exists k st \<and> prefix ''chunk_'' k \<and> dmem k (r_strings st1))"
  proof (cases "length (dumps v) > csize")
    case False
    with assms(1) have "b = dumps v" by (simp add: split_if_necessary_def)
    with assms(3,4) show ?thesis by (simp add: item_value_eq item_chunks_def)
  next
    case True
    with assms(1) obtain keys where s: "store_chunk_list rnd (chunks csize (dumps v)) n st = Some (keys, n1, st1)"
      and "b = encode (foldl (\<lambda>meta key. meta @ [SEPARATOR] @ key) CHUNK_MAGIC keys)"
      by (auto simp: split_if_necessary_def store_chunks_def Option.bind_eq_Some_conv)
    then have b: "b = encode (join_with [SEPARATOR] (CHUNK_MAGIC # keys))" unfolding foldl_join by simp
    note r = store_chunk_list_result[OF s]
    have sep: "\<forall>k \<in> set keys. SEPARATOR \<notin> set k" using r chunk_key_no_separator by metis
    have ic: "item_chunks b = keys"
      using encode_magic_prefix[of SEPARATOR keys] unfolding item_chunks_def b by (simp add: split_meta[OF sep])
    have vals: "map (\<lambda>k. the (dget (r_strings st1) k)) keys = chunks csize (dumps v)"
      using r by (intro nth_equalityI) auto
    have mem: "\<forall>k \<in> set keys. dmem k (r_strings st1)" using r unfolding dmem_def by (metis in_set_conv_nth option.distinct(1))
    have "item_value loads st1 b = Inr (Some v)"
      using encode_magic_prefix[of SEPARATOR keys] mem assms(4) concat_chunks[OF assms(2)]
      unfolding item_value_eq ic vals by (simp add: b)
    with r mem show ?thesis unfolding ic by (auto simp: chunk_key_def)
  qed
  then show "item_value loads st1 b = Inr (Some v)" "distinct (item_chunks b)"
    "k \<in> set (item_chunks b) \<Longrightarrow> \<not> redis_exists k st \<and> prefix ''chunk_'' k \<and> dmem k (r_strings st1)" by blast+
qed

lemma queue_items_rpush: "queue_items key (redis_rpush key b st) = queue_items key st @ [b]"
  by (simp add: queue_items_def redis_rpush_def dget_dappend split: option.split)

lemma queue_items_lpop:
  "queue_items key st = b # bs \<Longrightarrow> fst (redis_lpop key st) = Some b \<and> queue_items key (snd (redis_lpop key st)) = bs \<and>
     r_strings (snd (redis_lpop key st)) = r_strings st"
  "queue_items key st = [] \<Longrightarrow> redis_lpop key st = (None, st)"
  by (auto simp: queue_items_def redis_lpop_def split: option.splits list.splits)

lemma queue_put_step:
  assumes "queue_put csize rnd dumps key v (n, st) = Some (n1, st1)" "queue_ok key st" "0 < csize"
    "\<not> prefix (encode CHUNK_MAGIC) (dumps v)" "loads (dumps v) = v"
  shows "queue_abs loads key st1 = queue_abs loads key st @ [Inr (Some v)]" "queue_ok key st1"
proof -
  from assms(1) obtain b st0 where sp: "split_if_necessary csize rnd (dumps v) n st = Some (b, n1, st0)"
    and st1: "st1 = redis_rpush key b st0" by (auto simp: queue_put_def Option.bind_eq_Some_conv)
  note it = split_item[where dumps = dumps and v = v and loads = loads, OF sp assms(3-5)]
  have it0: "queue_items key st0 = queue_items key st"
    using split_if_necessary_other(2)[OF sp] by (simp add: queue_items_def)
  have items: "queue_items key st1 = queue_items key st @ [b]" by (simp add: st1 queue_items_rpush it0)
  have str: "r_strings st1 = r_strings st0" by (simp add: st1 redis_rpush_def)
  define ks where "ks = concat (map item_chunks (queue_items key st))"
  have ks: "distinct ks" "\<forall>k \<in> set ks. prefix ''chunk_'' k \<and> dmem k (r_strings st)" "\<not> prefix ''chunk_'' key"
    using assms(2) by (simp_all add: queue_ok_def Let_def ks_def)
  then have old: "dget (r_strings st0) k = dget (r_strings st) k" if "k \<in> set ks" for k
    using split_if_necessary_other(1)[OF sp, of k] that by (simp add: redis_exists_def)
  have "map (item_value loads st1) (queue_items key st) = queue_abs loads key st"
    unfolding queue_abs_def
    by (rule map_cong[OF refl], rule item_value_cong) (use old in \<open>auto simp: str ks_def\<close>)
  moreover have "item_value loads st1 b = Inr (Some v)"
    using it(1) item_value_cong[of b st1 st0 loads] by (simp add: str)
  ultimately show "queue_abs loads key st1 = queue_abs loads key st @ [Inr (Some v)]"
    unfolding queue_abs_def[of loads key st1] items by simp
  have disj: "set ks \<inter> set (item_chunks b) = {}"
    using it(3) ks(2) by (auto simp: redis_exists_def)
  have "concat (map item_chunks (queue_items key st1)) = ks @ item_chunks b" by (simp add: items ks_def)
  moreover have "dmem k (r_strings st1)" if "k \<in> set ks" for k
    using ks(2) old[OF that] that by (simp add: dmem_def str)
  ultimately show "queue_ok key st1"
    using ks it(2,3) disj by (auto simp: queue_ok_def Let_def str)
qed

lemma queue_get_step:
  assumes "queue_ok key st" "queue_items key st = b # bs"
  shows "fst (queue_get loads key st) = item_value loads st b"
    "queue_abs loads key (snd (queue_get loads key st)) = map (item_value loads st) bs"
    "queue_ok key (snd (queue_get loads key st))"
proof -
  define st1 where "st1 = snd (redis_lpop key st)"
  define st2 where "st2 = snd (queue_get loads key st)"
  note pop = queue_items_lpop(1)[OF assms(2)]
  have get: "queue_get loads key st = combine_if_split loads (Some b) True st1"
    using pop by (simp add: queue_get_def split_beta st1_def Let_def)
  define ks where "ks = concat (map item_chunks bs)"
  have ok: "distinct (item_chunks b)" "distinct ks" "set (item_chunks b) \<inter> set ks = {}"
    "\<forall>k \<in> set (item_chunks b) \<union> set ks. prefix ''chunk_'' k \<and> dmem k (r_strings st)" "\<not> prefix ''chunk_'' key"
    using assms by (auto simp: queue_ok_def Let_def ks_def)
  have str1: "r_strings st1 = r_strings st" using pop by (simp add: st1_def)
  have "fst (queue_get loads key st) = item_value loads st1 b"
    using pop_chunks_delete(1)[OF ok(1), of st1]
    by (simp add: get item_value_def combine_if_split_def combine_chunks_def item_chunks_def split_beta Let_def split: if_splits)
  then show "fst (queue_get loads key st) = item_value loads st b"
    using item_value_cong[of b st1 st loads] by (simp add: str1)
  have str2: "dget (r_strings st2) k = (if k \<in> set (item_chunks b) then None else dget (r_strings st) k)" for k
    using pop_chunks_delete(2)[of "item_chunks b" st1 k] str1
    by (simp add: st2_def get combine_if_split_def combine_chunks_def item_chunks_def split_beta Let_def split: if_splits)
  have lst2: "dget (r_lists st2) key = dget (r_lists st1) key"
    using pop_chunks_delete(3)[of "item_chunks b" st1 key] ok(4,5)
    by (auto simp add: st2_def get combine_if_split_def combine_chunks_def item_chunks_def split_beta Let_def)
  have items: "queue_items key st2 = bs" using lst2 pop by (simp add: queue_items_def st1_def)
  have same: "dget (r_strings st2) k = dget (r_strings st) k" if "k \<in> set ks" for k
    using str2 ok(3) that by auto
  have "map (item_value loads st2) bs = map (item_value loads st) bs"
    by (rule map_cong[OF refl], rule item_value_cong) (use same in \<open>auto simp: ks_def\<close>)
  then show "queue_abs loads key (snd (queue_get loads key st)) = map (item_value loads st) bs"
    by (simp add: queue_abs_def items flip: st2_def)
  show "queue_ok key (snd (queue_get loads key st))"
    using ok same by (auto simp: queue_ok_def Let_def items dmem_def ks_def simp flip: st2_def)
qed

text \<open>A Redis queue is first in, first out: under the abstraction that maps every item to the
  value it stands for, \<open>queue_put\<close> appends its value and \<open>queue_get\<close> removes and returns the first
  value (None from an empty queue), values of any size included. Both keep the queue well
  formed, so every chunk belongs to one item and none is missing.\<close>

theorem redis_queue_fifo:
  assumes "queue_ok key st" "0 < csize" "\<not> prefix (encode CHUNK_MAGIC) (dumps v)" "loads (dumps v) = v"
    and "queue_put csize rnd dumps key v (n, st) = Some (n1, st1)"
  shows "queue_ok key st1 \<and> queue_abs loads key st1 = queue_abs loads key st @ [Inr (Some v)] \<and>
    queue_ok key (snd (queue_get loads key st)) \<and>
    (case queue_abs loads key st of
       [] \<Rightarrow> queue_get loads key st = (Inr None, st)
     | r # rs \<Rightarrow> fst (queue_get loads key st) = r \<and> queue_abs loads key (snd (queue_get loads key st)) = rs)"
proof (cases "queue_items key st")
  case Nil
  then have "queue_get loads key st = (Inr None, st)" "queue_abs loads key st = []"
    by (simp_all add: queue_get_def combine_if_split_def queue_items_lpop(2) queue_abs_def)
  with queue_put_step[where loads = loads, OF assms(5,1-4)] assms(1) show ?thesis by simp
next
  case (Cons b bs)
  then have "queue_abs loads key st = item_value loads st b # map (item_value loads st) bs" by (simp add: queue_abs_def)
  with queue_put_step[where loads = loads, OF assms(5,1-4)] queue_get_step[OF assms(1) Cons, of loads] show ?thesis by simp
qed

definition ex_queue :: redis where
  "ex_queue = \<lparr>r_strings = [(''chunk_0'', encode ''ab''), (''chunk_1'', encode ''c'')],
     r_lists = [(''q'', [encode ''$CHUNKED$#chunk_0#chunk_1''])]\<rparr>"

theorem redis_queue_fifo_witness:
  "\<exists>n1 st1. queue_put 2 id encode ''q'' ''hello'' (0, ex_queue) = Some (n1, st1) \<and>
     queue_abs decode ''q'' st1 = [Inr (Some ''abc''), Inr (Some ''hello'')]"
proof -
  have ok: "queue_ok ''q'' ex_queue" by code_simp
  have "queue_put 2 id encode ''q'' ''hello'' (0, ex_queue) \<noteq> None" by code_simp
  then obtain n1 st1 where put: "queue_put 2 id encode ''q'' ''hello'' (0, ex_queue) = Some (n1, st1)" by auto
  have "queue_abs decode ''q'' ex_queue = [Inr (Some ''abc'')]" by code_simp
  with redis_queue_fifo[where loads = decode, OF ok _ _ decode_encode put] put show ?thesis
    by (simp add: CHUNK_MAGIC_def encode_def)
qed

end
