(* ===== verification/FileStore.thy ===== *)
theory FileStore
  imports AnalysisScheduler
begin

text \<open>
  The file storage: \<open>storage/fsorganizer.py\<close>, \<open>storage/binary_service.py\<close> and the search in
  stored files (\<open>helperFunctions/yara_binary_search.py\<close>). A file system is a map from paths to
  contents. Writing, deleting and reading whole files belong to the package
  \<open>common_helper_files\<close>, so they are parameters with their documented behaviour as hypothesis
  (\<open>file_ops_ok\<close>); YARA, docker and tar are parameters too.
\<close>

type_synonym fs = "string \<Rightarrow> bytes option"

record file_ops =
  write_binary_to_file :: "bytes \<Rightarrow> string \<Rightarrow> fs \<Rightarrow> fs"
  delete_path :: "string \<Rightarrow> fs \<Rightarrow> fs"
  get_binary_from_file :: "string \<Rightarrow> fs \<Rightarrow> bytes"

text \<open>Writing with \<open>overwrite=False\<close> keeps an existing file.\<close>

definition file_ops_ok :: "file_ops \<Rightarrow> bool" where
  "file_ops_ok F \<longleftrightarrow>
     (\<forall>b p files. write_binary_to_file F b p files = (if files p = None then files(p \<mapsto> b) else files)) \<and>
     (\<forall>p files. delete_path F p files = files(p := None)) \<and>
     (\<forall>p files b. files p = Some b \<longrightarrow> get_binary_from_file F p files = b)"

lemma file_ops_okD:
  assumes "file_ops_ok F"
  shows "write_binary_to_file F b p files = (if files p = None then files(p \<mapsto> b) else files)"
    "delete_path F p files = files(p := None)" "files p = Some b \<Longrightarrow> get_binary_from_file F p files = b"
  using assms by (simp_all add: file_ops_ok_def)

section \<open>FSOrganizer\<close>

text \<open>Without a binary the file is not stored, which is logged only.\<close>

definition store_file :: "env \<Rightarrow> file_ops \<Rightarrow> file_object \<Rightarrow> fs \<Rightarrow> (file_object \<times> fs) result" where
  "store_file E F fo files = (case binary fo of
      None \<Rightarrow> Inr (fo, files)
    | Some b \<Rightarrow> map_r (\<lambda>destination_path.
        let files1 = write_binary_to_file F b destination_path files in
        (create_binary_from_path (e_sha E) (e_md5 E) (\<lambda>p. get_binary_from_file F p files1)
           (fo\<lparr>file_path := Some destination_path\<rparr>), files1))
        (generate_path E fo))"

definition delete_stored_file :: "env \<Rightarrow> file_ops \<Rightarrow> string \<Rightarrow> fs \<Rightarrow> fs" where
  "delete_stored_file E F u files = delete_path F (generate_path_from_uid (e_storage E) u) files"

section \<open>BinaryService\<close>

definition db_get_file_name :: "db \<Rightarrow> string \<Rightarrow> string option" where
  "db_get_file_name d u = (case dget (file_tbl d) (Some u) of None \<Rightarrow> None | Some e \<Rightarrow> fe_file_name e)"

definition get_binary_and_file_name :: "env \<Rightarrow> file_ops \<Rightarrow> db \<Rightarrow> fs \<Rightarrow> string \<Rightarrow> bytes option \<times> string option" where
  "get_binary_and_file_name E F d files u = (case db_get_file_name d u of
      None \<Rightarrow> (None, None)
    | Some n \<Rightarrow> (Some (get_binary_from_file F (generate_path_from_uid (e_storage E) u) files), Some n))"

text \<open>A missing file and a negative offset are \<open>OSError\<close>s; a negative length reads to the end.\<close>

definition read_partial_binary :: "env \<Rightarrow> db \<Rightarrow> fs \<Rightarrow> string \<Rightarrow> int \<Rightarrow> int \<Rightarrow> bytes result" where
  "read_partial_binary E d files u off len = (case db_get_file_name d u of
      None \<Rightarrow> Inr []
    | Some _ \<Rightarrow> (case files (generate_path_from_uid (e_storage E) u) of
        None \<Rightarrow> Inl OSError
      | Some b \<Rightarrow> if off < 0 then Inl OSError
          else let rest = drop (nat off) b in Inr (if len < 0 then rest else take (nat len) rest)))"

definition get_repacked_binary_and_file_name ::
  "env \<Rightarrow> (string \<Rightarrow> bytes) \<Rightarrow> db \<Rightarrow> string \<Rightarrow> bytes option \<times> string option" where
  "get_repacked_binary_and_file_name E tar_repack d u = (case db_get_file_name d u of
      None \<Rightarrow> (None, None)
    | Some n \<Rightarrow> (Some (tar_repack (generate_path_from_uid (e_storage E) u)), Some (n @ ''.tar.gz'')))"

section \<open>Binary search\<close>

definition basename :: "string \<Rightarrow> string" where
  "basename p = last (split_on (CHR ''/'') p)"

definition yara_line :: "string \<Rightarrow> (string, string list) dict \<Rightarrow> (string, string list) dict result" where
  "yara_line l results =
     (if l \<noteq> [] \<and> \<not> substr_in ''warning'' l then
        (case split_on (CHR '' '') l of
           [rule, match] \<Rightarrow> Inr (dappend rule (basename match) results)
         | _ \<Rightarrow> Inl ValueError)
      else Inr results)"

definition parse_raw_result :: "string \<Rightarrow> (string, string list) dict result" where
  "parse_raw_result raw_result = foldM_r yara_line (split_on (CHR ''\<newline>'') raw_result) []"

definition eliminate_duplicates :: "(string, string list) dict \<Rightarrow> (string, string list) dict" where
  "eliminate_duplicates d = map (\<lambda>(k, v). (k, sort (py_set v))) d"

text \<open>\<open>run_yara\<close> is the output of the YARA process for a target path (\<open>None\<close>: the whole storage).\<close>

definition get_file_paths_of_files_included_in_fw :: "env \<Rightarrow> db \<Rightarrow> string \<Rightarrow> string list" where
  "get_file_paths_of_files_included_in_fw E d fw_uid =
     map (\<lambda>u. generate_path_from_uid (e_storage E) (fstr u)) (get_all_files_in_fw d (Some fw_uid))"

definition execute_yara_search_for_single_firmware :: "env \<Rightarrow> (string option \<Rightarrow> string) \<Rightarrow> db \<Rightarrow> string \<Rightarrow> string" where
  "execute_yara_search_for_single_firmware E run_yara d firmware_uid =
     join_with [CHR ''\<newline>''] (map (\<lambda>p. run_yara (Some p)) (get_file_paths_of_files_included_in_fw E d firmware_uid))"

definition get_raw_result :: "env \<Rightarrow> (string option \<Rightarrow> string) \<Rightarrow> db \<Rightarrow> string option \<Rightarrow> string" where
  "get_raw_result E run_yara d firmware_uid = (case firmware_uid of
      None \<Rightarrow> run_yara None
    | Some u \<Rightarrow> execute_yara_search_for_single_firmware E run_yara d u)"

text \<open>
  \<open>compile_rules\<close> yields \<open>Inr None\<close> for valid rules, \<open>Inr (Some e)\<close> for a syntax error and
  \<open>Inl\<close> for rules that cannot be decoded.
\<close>

definition get_binary_search_result ::
  "env \<Rightarrow> (bytes \<Rightarrow> string option result) \<Rightarrow> (bytes \<Rightarrow> string option \<Rightarrow> string) \<Rightarrow> db \<Rightarrow> bytes \<times> string option \<Rightarrow>
   ((string, string list) dict + string) result" where
  "get_binary_search_result E compile_rules run_yara d = (\<lambda>(yara_rules, firmware_uid).
     bind_r (compile_rules yara_rules) (\<lambda>e. case e of
        Some yara_error \<Rightarrow> Inr (Inr (''There seems to be an error in the rule file:'' @ [CHR ''\<newline>''] @ yara_error))
      | None \<Rightarrow> map_r (\<lambda>r. Inl (eliminate_duplicates r))
          (parse_raw_result (get_raw_result E (run_yara yara_rules) d firmware_uid))))"

definition get_yara_error :: "(bytes \<Rightarrow> string option result) \<Rightarrow> bytes \<Rightarrow> string option" where
  "get_yara_error compile_rules rules_file = (case compile_rules rules_file of
      Inl e \<Rightarrow> Some ''error''
    | Inr e \<Rightarrow> e)"

definition is_valid_yara_rule_file :: "(bytes \<Rightarrow> string option result) \<Rightarrow> bytes \<Rightarrow> bool" where
  "is_valid_yara_rule_file compile_rules yara_rules = (get_yara_error compile_rules yara_rules = None)"

section \<open>Paths are injective\<close>

lemma generate_path_from_uid_inj:
  assumes "generate_path_from_uid storage u = generate_path_from_uid storage v" shows "u = v"
proof -
  have eq: "take 2 u @ ''/'' @ u = take 2 v @ ''/'' @ v" using assms by (simp add: generate_path_from_uid_def)
  then have "length (take 2 u @ ''/'' @ u) = length (take 2 v @ ''/'' @ v)" by simp
  then have "length u = length v" by (auto simp: min_def split: if_splits)
  with eq show ?thesis by simp
qed

lemma delete_stored_file_other:
  "file_ops_ok F \<Longrightarrow> delete_stored_file E F u files (generate_path_from_uid (e_storage E) v) =
    (if u = v then None else files (generate_path_from_uid (e_storage E) v))"
  by (auto simp: delete_stored_file_def file_ops_okD dest: generate_path_from_uid_inj)

text \<open>What storing a file does: its content is under the path of its UID, everything else stays.\<close>

lemma store_file_result:
  assumes "file_ops_ok F" "binary fo = Some b" "get_uid (e_sha E) fo = Some u"
  shows "\<exists>fo'. store_file E F fo files =
      Inr (fo', \<lambda>p. if p = generate_path_from_uid (e_storage E) u \<and> files p = None then Some b else files p) \<and>
    binary fo' = Some b \<and> get_uid (e_sha E) fo' = Some u \<and>
    file_path fo' = Some (generate_path_from_uid (e_storage E) u) \<and> virtual_file_path fo' = virtual_file_path fo \<and>
    parent_firmware_uids fo' = parent_firmware_uids fo"
proof -
  let ?p = "generate_path_from_uid (e_storage E) u"
  have p: "generate_path E fo = Inr ?p" using assms(3) by (simp add: generate_path_def)
  have w: "write_binary_to_file F b ?p files = (\<lambda>p. if p = ?p \<and> files p = None then Some b else files p)"
    by (auto simp: file_ops_okD[OF assms(1)] fun_eq_iff)
  have u: "get_uid (e_sha E) (fo\<lparr>file_path := q, file_name := n\<rparr>) = Some u"
    "get_uid (e_sha E) (fo\<lparr>file_path := q\<rparr>) = Some u" for q n
    using assms(3) by (auto simp: get_uid_def split: option.splits)
  show ?thesis using assms(2) u by (simp add: store_file_def p w create_binary_from_path_def Let_def)
qed

section \<open>The search result\<close>

definition line_matches :: "string \<Rightarrow> (string \<times> string) list" where
  "line_matches l = (if l \<noteq> [] \<and> \<not> substr_in ''warning'' l
     then (case split_on (CHR '' '') l of [rule, match] \<Rightarrow> [(rule, basename match)] | _ \<Rightarrow> []) else [])"

definition yara_matches :: "string \<Rightarrow> (string \<times> string) list" where
  "yara_matches raw = concat (map line_matches (split_on (CHR ''\<newline>'') raw))"

definition dget_list :: "('k, 'v list) dict \<Rightarrow> 'k \<Rightarrow> 'v list" where
  "dget_list d k = (case dget d k of None \<Rightarrow> [] | Some v \<Rightarrow> v)"

lemma yara_line_matches:
  assumes "yara_line l d = Inr d1"
  shows "set (dget_list d1 rule) = set (dget_list d rule) \<union> {m. (rule, m) \<in> set (line_matches l)}"
proof (cases "l \<noteq> [] \<and> \<not> substr_in ''warning'' l")
  case True
  with assms obtain r m where m: "split_on (CHR '' '') l = [r, m]" "d1 = dappend r (basename m) d"
    unfolding yara_line_def by (auto split: list.split_asm)
  then have "line_matches l = [(r, basename m)]" using True by (simp add: line_matches_def)
  then show ?thesis by (auto simp: m(2) dget_list_def dget_dappend)
next
  case False
  with assms have "d1 = d" "line_matches l = []" by (auto simp: yara_line_def line_matches_def)
  then show ?thesis by simp
qed

lemma foldM_yara_line:
  assumes "foldM_r yara_line ls d = Inr d'"
  shows "set (dget_list d' rule) = set (dget_list d rule) \<union> {m. (rule, m) \<in> set (concat (map line_matches ls))}"
  using assms
proof (induction ls arbitrary: d)
  case (Cons l ls)
  then obtain d1 where l: "yara_line l d = Inr d1" and r: "foldM_r yara_line ls d1 = Inr d'" by (auto simp: result_simps)
  show ?case unfolding Cons.IH[OF r] yara_line_matches[OF l] by auto
qed simp

lemma dget_eliminate_duplicates: "dget (eliminate_duplicates d) k = map_option (\<lambda>v. sort (py_set v)) (dget d k)"
  by (induction d) (auto simp: eliminate_duplicates_def)

text \<open>C21: A binary search with valid rules reports, for every rule, each file YARA matched exactly
  once, in sorted order, and nothing else; its lines with a warning and empty lines are ignored.\<close>

theorem binary_search_exact:
  assumes "get_binary_search_result E compile_rules run_yara d (rules, fw_uid) = Inr (Inl res)"
  shows "sorted (dget_list res rule) \<and> distinct (dget_list res rule) \<and>
    set (dget_list res rule) = {m. (rule, m) \<in> set (yara_matches (get_raw_result E (run_yara rules) d fw_uid))}"
proof -
  from assms obtain r where p: "parse_raw_result (get_raw_result E (run_yara rules) d fw_uid) = Inr r"
    and res: "res = eliminate_duplicates r"
    by (auto simp: get_binary_search_result_def result_simps split: option.splits)
  have "dget_list res rule = sort (py_set (dget_list r rule))"
    by (simp add: dget_list_def res dget_eliminate_duplicates split: option.split)
  with foldM_yara_line[OF p[unfolded parse_raw_result_def], of rule] show ?thesis
    by (simp add: yara_matches_def dget_list_def)
qed

definition ex_ops :: file_ops where
  "ex_ops = \<lparr>write_binary_to_file = (\<lambda>b p files. if files p = None then files(p \<mapsto> b) else files),
     delete_path = (\<lambda>p files. files(p := None)),
     get_binary_from_file = (\<lambda>p files. case files p of None \<Rightarrow> [] | Some b \<Rightarrow> b)\<rparr>"

lemma file_ops_ok_ex_ops: "file_ops_ok ex_ops"
  by (simp add: file_ops_ok_def ex_ops_def)

definition ex_store_env :: env where
  "ex_store_env = \<lparr>e_sha = map char_of, e_md5 = map char_of, e_read = (\<lambda>_. []), e_reject = (\<lambda>_. None), e_to_date = (\<lambda>_. Some (2020, 1, 1)),
     e_version_rank = (\<lambda>v. Some (real (length v))), e_storage = ''/s'', e_cfg_mime = (\<lambda>_. (None, None)),
     e_cfg_threads = [], e_default_threads = 1, e_default_plugins = []\<rparr>"

definition ex_yara :: "bytes \<Rightarrow> string option \<Rightarrow> string" where
  "ex_yara rules target = ''r1 /fact/ab/abc'' @ [CHR ''\<newline>''] @ ''warning: slow'' @ [CHR ''\<newline>''] @ ''r1 /fact/aa/aab'' @
     [CHR ''\<newline>''] @ ''r1 /fact/ab/abc'' @ [CHR ''\<newline>'']"

theorem binary_search_exact_witness:
  "\<exists>res. get_binary_search_result ex_store_env (\<lambda>_. Inr None) ex_yara empty_db ([], None) = Inr (Inl res) \<and>
     set (dget_list res ''r1'') = {''aab'', ''abc''} \<and> distinct (dget_list res ''r1'')"
proof -
  have "parse_raw_result (ex_yara [] None) = Inr [(''r1'', [''abc'', ''aab'', ''abc''])]" by code_simp
  then have r: "get_binary_search_result ex_store_env (\<lambda>_. Inr None) ex_yara empty_db ([], None) =
    Inr (Inl (eliminate_duplicates [(''r1'', [''abc'', ''aab'', ''abc''])]))"
    by (simp add: get_binary_search_result_def get_raw_result_def)
  have "yara_matches (ex_yara [] None) = [(''r1'', ''abc''), (''r1'', ''aab''), (''r1'', ''abc'')]" by code_simp
  then have "{m. (''r1'', m) \<in> set (yara_matches (get_raw_result ex_store_env (ex_yara []) empty_db None))} = {''aab'', ''abc''}"
    by (auto simp: get_raw_result_def)
  with binary_search_exact[OF r, of "''r1''"] r show ?thesis by auto
qed

end
