(* ===== verification/Comparison.thy ===== *)
theory Comparison
  imports FileStore
begin

text \<open>
  Comparisons: \<open>storage/db_interface_comparison.py\<close>, \<open>compare/compare.py\<close>,
  \<open>compare/PluginBase.py\<close> and \<open>scheduler/comparison_scheduler.py\<close>. A comparison is stored under
  the sorted UIDs of its objects; the compare plugins are functions of the database and the
  objects. The loop of the scheduler is one function per turn.
\<close>

section \<open>Results\<close>

record comparison_result =
  cr_general :: "(string, (uid, pyval) dict) dict"
  cr_plugins :: "(string, pyval) dict"

definition comparison_data :: "comparison_result \<Rightarrow> pyval" where
  "comparison_data r = PDict
     [(''general'', PDict (map (\<lambda>(f, c). (f, PDict (map (\<lambda>(u, v). (fstr u, v)) c))) (cr_general r))),
      (''plugins'', PDict (cr_plugins r))]"

definition objects_exist :: "db \<Rightarrow> string \<Rightarrow> bool" where
  "objects_exist d compare_id =
     (let uid_list = convert_compare_id_to_list compare_id in
      length (filter (\<lambda>u. u \<in> set (map Some uid_list)) (dkeys (file_tbl d))) = length uid_list)"

definition comparison_exists :: "db \<Rightarrow> string \<Rightarrow> bool" where
  "comparison_exists d comparison_id = (dmem comparison_id (comparison_tbl d) \<and> comparison_id \<noteq> [])"

text \<open>A missing UID cannot be joined.\<close>

definition calculate_comp_id :: "comparison_result \<Rightarrow> string result" where
  "calculate_comp_id r =
     (let uid_set = py_set (concat (map dkeys (dvalues (cr_general r)))) in
      if None \<in> set uid_set then Inl TypeError else Inr (convert_uid_list_to_compare_id (map fstr uid_set)))"

definition update_comparison :: "real \<Rightarrow> string \<Rightarrow> pyval \<Rightarrow> db \<Rightarrow> db" where
  "update_comparison now comparison_id data d = (case dget (comparison_tbl d) comparison_id of
      None \<Rightarrow> d
    | Some e \<Rightarrow> d\<lparr>comparison_tbl := dput comparison_id (e\<lparr>ce_data := data, ce_submission_date := now\<rparr>) (comparison_tbl d)\<rparr>)"

definition insert_comparison :: "real \<Rightarrow> string \<Rightarrow> pyval \<Rightarrow> db \<Rightarrow> db" where
  "insert_comparison now comparison_id data d =
     d\<lparr>comparison_tbl := dput comparison_id \<lparr>ce_submission_date = now, ce_data = data\<rparr> (comparison_tbl d),
       compared_tbl := compared_tbl d @ map (\<lambda>u. (comparison_id, Some u)) (split_on (CHR '';'') comparison_id)\<rparr>"

definition add_comparison_result :: "real \<Rightarrow> comparison_result \<Rightarrow> db \<Rightarrow> db result" where
  "add_comparison_result now r d = map_r (\<lambda>comparison_id.
     if \<not> objects_exist d comparison_id then d
     else if comparison_exists d comparison_id then update_comparison now comparison_id (comparison_data r) d
     else insert_comparison now comparison_id (comparison_data r) d) (calculate_comp_id r)"

definition comparison_entry_to_dict :: "comparison_entry \<Rightarrow> string \<Rightarrow> (string, pyval) dict result" where
  "comparison_entry_to_dict e comparison_id = (case ce_data e of
      PDict data \<Rightarrow> Inr (dupdate data [(''_id'', PStr comparison_id), (''submission_date'', PFloat (ce_submission_date e))])
    | _ \<Rightarrow> Inl TypeError)"

definition get_comparison_result :: "db \<Rightarrow> string \<Rightarrow> (string, pyval) dict option result" where
  "get_comparison_result d compare_id =
     (let comparison_id = normalize_compare_id compare_id in
      if \<not> comparison_exists d comparison_id then Inr None
      else (case dget (comparison_tbl d) comparison_id of
          None \<Rightarrow> Inr None
        | Some e \<Rightarrow> map_r Some (comparison_entry_to_dict e comparison_id)))"

text \<open>An offset or limit of 0 is none.\<close>

definition page_comparison_results :: "db \<Rightarrow> nat \<Rightarrow> nat \<Rightarrow> (string \<times> pyval \<times> real) list result" where
  "page_comparison_results d skip limit =
     (let rows = drop skip (py_sort_rev (\<lambda>(c, e). ce_submission_date e) (comparison_tbl d));
          page = (if limit = 0 then rows else take limit rows)
      in mapM_r (\<lambda>(c, e). case ce_data e of
           PDict data \<Rightarrow> bind_r (dlookup data ''general'') (\<lambda>g. case g of
               PDict general \<Rightarrow> map_r (\<lambda>hid. (c, hid, ce_submission_date e)) (dlookup general ''hid'')
             | _ \<Rightarrow> Inl TypeError)
         | _ \<Rightarrow> Inl TypeError) page)"

definition get_total_number_of_results :: "db \<Rightarrow> nat" where
  "get_total_number_of_results d = length (comparison_tbl d)"

section \<open>Analysis data for the compare plugins\<close>

definition get_ssdeep_hash :: "db \<Rightarrow> string \<Rightarrow> pyval result" where
  "get_ssdeep_hash d u = (case dget (analysis_tbl d) (Some u, ''file_hashes'') of
      None \<Rightarrow> Inr PNone | Some a \<Rightarrow> dlookup (an_result a) ''ssdeep'')"

definition get_entropy :: "db \<Rightarrow> string \<Rightarrow> pyval" where
  "get_entropy d u = (case dget (analysis_tbl d) (Some u, ''unpacker'') of
      None \<Rightarrow> PFloat 0 | Some a \<Rightarrow> py_get (an_result a) ''entropy'' (PFloat 0))"

text \<open>A comparison that is not stored is \<open>None\<close>, whose subscript is a \<open>TypeError\<close> and not caught.\<close>

fun subscript :: "pyval \<Rightarrow> string \<Rightarrow> pyval result" where
  "subscript (PDict d) k = dlookup d k"
| "subscript _ k = Inl TypeError"

definition get_exclusive_files :: "db \<Rightarrow> string option \<Rightarrow> string option \<Rightarrow> pyval result" where
  "get_exclusive_files d compare_id rt = (case (compare_id, rt) of
      (Some cid, Some r) \<Rightarrow>
        (case bind_r (get_comparison_result d cid) (\<lambda>res. case res of
             None \<Rightarrow> Inl TypeError
           | Some data \<Rightarrow> bind_r (dlookup data ''plugins'') (\<lambda>p. bind_r (subscript p ''File_Coverage'') (\<lambda>f.
               bind_r (subscript f ''exclusive_files'') (\<lambda>e. subscript e r)))) of
           Inl KeyError \<Rightarrow> Inr (PList [])
         | x \<Rightarrow> x)
    | _ \<Rightarrow> Inr (PList []))"

text \<open>\<open>{uid: [vfps]}\<close> to \<open>{vfp: {uid}}\<close>; an empty path of separators only is an \<open>IndexError\<close>.\<close>

definition transpose_vfp_dict :: "(string, string list) dict \<Rightarrow> (string, string list) dict result" where
  "transpose_vfp_dict list_dict = foldM_r (\<lambda>(u, path_list) t. foldM_r (\<lambda>vfp t1.
       map_r (\<lambda>top. dput top (set_add u (case dget t1 top of None \<Rightarrow> [] | Some s \<Rightarrow> s)) t1) (get_top_of_virtual_path vfp))
     path_list t) list_dict []"

definition is_text_file :: "db \<Rightarrow> uid \<Rightarrow> bool" where
  "is_text_file d u = (case dget (analysis_tbl d) (u, ''file_type'') of
      None \<Rightarrow> False | Some a \<Rightarrow> dget (an_result a) ''mime'' = Some (PStr ''text/plain''))"

definition get_vfp_of_included_text_files :: "db \<Rightarrow> string \<Rightarrow> string list \<Rightarrow> (string, string list) dict result" where
  "get_vfp_of_included_text_files d rt blacklist =
     transpose_vfp_dict (concat (map (\<lambda>(u, e). case dget (fe_virtual_file_paths e) (Some rt) of
         Some path_list \<Rightarrow> [(fstr u, path_list)] | None \<Rightarrow> [])
       (filter (\<lambda>(u, e). (Some rt, u) \<in> set (fw_files_tbl d) \<and> u \<notin> set (map Some blacklist) \<and> is_text_file d u) (file_tbl d))))"

section \<open>Comparing\<close>

definition add_content_to_general_dict ::
  "string \<Rightarrow> uid \<Rightarrow> pyval \<Rightarrow> (string, (uid, pyval) dict) dict \<Rightarrow> (string, (uid, pyval) dict) dict" where
  "add_content_to_general_dict feature u content general =
     dput feature (dput u content (case dget general feature of None \<Rightarrow> [] | Some c \<Rightarrow> c)) general"

definition pint_opt :: "int option \<Rightarrow> pyval" where
  "pint_opt x = (case x of None \<Rightarrow> PNone | Some i \<Rightarrow> PInt i)"

text \<open>
  One object of the general section: \<open>get_hid\<close> and \<open>len\<close> are evaluated before the call that
  suppresses exceptions. A firmware becomes its own root.
\<close>

definition general_section_of ::
  "(bytes \<Rightarrow> string) \<Rightarrow> file_object \<Rightarrow> (string, (uid, pyval) dict) dict \<Rightarrow> ((string, (uid, pyval) dict) dict \<times> file_object) result" where
  "general_section_of sha fo general =
     (let u = get_uid sha fo;
          (fo1, features) = (case fw fo of
             Some f \<Rightarrow> (fo\<lparr>root_uid := u\<rparr>,
               [(''device_name'', pstr_opt (device_name f)), (''device_part'', PStr (part f)),
                (''device_class'', pstr_opt (device_class f)), (''vendor'', pstr_opt (vendor f)),
                (''version'', pstr_opt (fw_version f)), (''release_date'', pstr_opt (release_date f))])
           | None \<Rightarrow> (fo, [(''firmwares_including_this_file'',
               PList (map (PStr \<circ> fstr) (dkeys (get_virtual_file_paths sha fo))))]))
      in bind_r (get_hid sha None fo1) (\<lambda>hid.
         case list_of_all_included_files fo1 of
           None \<Rightarrow> Inl TypeError
         | Some files \<Rightarrow>
             Inr (fold (\<lambda>(feature, content). add_content_to_general_dict feature u content)
               (features @ [(''hid'', PStr hid), (''size'', pint_opt (fsize fo1)),
                  (''virtual_file_path'', PList (map PStr (get_virtual_paths_for_all_uids sha fo1))),
                  (''number_of_files'', PInt (int (length files)))]) general, fo1)))"

fun create_general_section_dict ::
  "(bytes \<Rightarrow> string) \<Rightarrow> file_object list \<Rightarrow> (string, (uid, pyval) dict) dict \<Rightarrow>
   ((string, (uid, pyval) dict) dict \<times> file_object list) result" where
  "create_general_section_dict sha [] general = Inr (general, [])"
| "create_general_section_dict sha (fo # fos) general =
     bind_r (general_section_of sha fo general) (\<lambda>(g1, fo1).
     map_r (\<lambda>(g2, fos1). (g2, fo1 # fos1)) (create_general_section_dict sha fos g1))"

record compare_plugin =
  cp_dependencies :: "string list"
  cp_function :: "db \<Rightarrow> file_object list \<Rightarrow> pyval result"

definition get_unmatched_dependencies :: "file_object list \<Rightarrow> string list \<Rightarrow> string list" where
  "get_unmatched_dependencies fo_list dependency_list =
     py_set (filter (\<lambda>dep. \<exists>fo \<in> set fo_list. \<not> dmem dep (processed_analysis fo)) dependency_list)"

definition plugin_compare :: "compare_plugin \<Rightarrow> db \<Rightarrow> file_object list \<Rightarrow> pyval result" where
  "plugin_compare p d fo_list =
     (let missing_deps = get_unmatched_dependencies fo_list (cp_dependencies p) in
      if length missing_deps > 0 then
        Inr (PDict [(''Compare Skipped'', PDict [(''all'',
          PStr (''Required analysis not present: '' @ join_with '', '' missing_deps))])])
      else cp_function p d fo_list)"

definition execute_compare_plugins :: "(string, compare_plugin) dict \<Rightarrow> db \<Rightarrow> file_object list \<Rightarrow> (string, pyval) dict result" where
  "execute_compare_plugins ps d fo_list = mapM_r (\<lambda>(n, p). map_r (Pair n) (plugin_compare p d fo_list)) ps"

definition compare_objects ::
  "(bytes \<Rightarrow> string) \<Rightarrow> (string, compare_plugin) dict \<Rightarrow> db \<Rightarrow> file_object list \<Rightarrow> comparison_result result" where
  "compare_objects sha ps d fo_list =
     bind_r (create_general_section_dict sha fo_list []) (\<lambda>(general, fos).
     map_r (\<lambda>p. \<lparr>cr_general = general, cr_plugins = p\<rparr>) (execute_compare_plugins ps d fos))"

text \<open>An included-files walk without end is a \<open>RecursionError\<close>.\<close>

definition load_compare_object :: "env \<Rightarrow> file_ops \<Rightarrow> db \<Rightarrow> fs \<Rightarrow> string \<Rightarrow> file_object result" where
  "load_compare_object E F d files u = (case get_complete_object_including_all_summaries d (Some u) of
      None \<Rightarrow> Inl RuntimeError
    | Some (Inl e) \<Rightarrow> Inl e
    | Some (Inr fo) \<Rightarrow> Inr (fo\<lparr>binary := fst (get_binary_and_file_name E F d files (fstr (get_uid (e_sha E) fo)))\<rparr>))"

definition compare_uids :: "env \<Rightarrow> file_ops \<Rightarrow> (string, compare_plugin) dict \<Rightarrow> db \<Rightarrow> fs \<Rightarrow> string list \<Rightarrow> comparison_result result" where
  "compare_uids E F ps d files uid_list =
     bind_r (mapM_r (load_compare_object E F d files) uid_list) (compare_objects (e_sha E) ps d)"

section \<open>The comparison scheduler\<close>

record comparison_scheduler =
  cs_queue :: "(string \<times> bool) list"
  cs_done :: "string list"
  cs_db :: db
  cs_files :: fs

definition add_comparison_task :: "string \<times> bool \<Rightarrow> comparison_scheduler \<Rightarrow> comparison_scheduler" where
  "add_comparison_task t s = (if objects_exist (cs_db s) (fst t) then s\<lparr>cs_queue := cs_queue s @ [t]\<rparr> else s)"

definition comparison_should_start :: "string \<Rightarrow> bool \<Rightarrow> string list \<Rightarrow> bool" where
  "comparison_should_start u redo comparisons_done = (redo \<or> u \<notin> set comparisons_done)"

text \<open>Every exception of a comparison is caught and logged.\<close>

definition process_comparison ::
  "env \<Rightarrow> file_ops \<Rightarrow> (string, compare_plugin) dict \<Rightarrow> real \<Rightarrow> string \<Rightarrow> comparison_scheduler \<Rightarrow> comparison_scheduler" where
  "process_comparison E F ps now comparison_id s =
     (case bind_r (compare_uids E F ps (cs_db s) (cs_files s) (convert_compare_id_to_list comparison_id))
        (\<lambda>r. add_comparison_result now r (cs_db s)) of
        Inl e \<Rightarrow> s
      | Inr d \<Rightarrow> s\<lparr>cs_db := d\<rparr>)"

text \<open>The class has no attribute \<open>db_admin_interface\<close>.\<close>

definition compare_single_run ::
  "env \<Rightarrow> file_ops \<Rightarrow> (string, compare_plugin) dict \<Rightarrow> real \<Rightarrow> comparison_scheduler \<Rightarrow> comparison_scheduler outcome" where
  "compare_single_run E F ps now s = (case cs_queue s of
      [] \<Rightarrow> Done s
    | (comparison_id, redo) # rest \<Rightarrow>
        (let s1 = s\<lparr>cs_queue := rest\<rparr> in
         if comparison_should_start comparison_id redo (cs_done s) then
           if redo then Raised AttributeError s1
           else Done (process_comparison E F ps now comparison_id (s1\<lparr>cs_done := set_add comparison_id (cs_done s1)\<rparr>))
         else Done s1))"

text \<open>A worker that died is started again with nothing done.\<close>

definition restart_comparison_worker :: "comparison_scheduler \<Rightarrow> comparison_scheduler" where
  "restart_comparison_worker s = s\<lparr>cs_done := []\<rparr>"

section \<open>A result is stored under the UIDs of its objects\<close>

definition general_uids :: "(string, (uid, pyval) dict) dict \<Rightarrow> uid set" where
  "general_uids general = \<Union> (set (map (\<lambda>c. set (dkeys c)) (dvalues general)))"

lemma general_uids_simps [simp]:
  "general_uids [] = {}" "general_uids ((f, c) # g) = set (dkeys c) \<union> general_uids g"
  by (simp_all add: general_uids_def dvalues_def)

lemma general_uids_dput_new: "dget g f = None \<Longrightarrow> general_uids (dput f c g) = general_uids g \<union> set (dkeys c)"
  by (induction g) (auto split: if_splits)

lemma general_uids_dput_known:
  assumes "set (dkeys c) = insert u (set (dkeys c0))" "dget g f = Some c0"
  shows "general_uids (dput f c g) = insert u (general_uids g)"
  using assms(2)
proof (induction g)
  case (Cons kv g)
  obtain k v where kv: "kv = (k, v)" by force
  show ?case
  proof (cases "k = f")
    case True
    with Cons.prems kv have "c0 = v" by simp
    then show ?thesis using True kv assms(1) by simp
  next
    case False
    with Cons kv have "general_uids (dput f c g) = insert u (general_uids g)" by simp
    then show ?thesis using False kv by simp
  qed
qed simp

lemma general_uids_add: "general_uids (add_content_to_general_dict f u v g) = insert u (general_uids g)"
  by (cases "dget g f") (simp_all add: add_content_to_general_dict_def general_uids_dput_new general_uids_dput_known)

lemma create_general_section_uids:
  "create_general_section_dict sha fos g = Inr (g', fos') \<Longrightarrow>
   general_uids g' = general_uids g \<union> set (map (get_uid sha) fos)"
proof (induction fos arbitrary: g fos')
  case (Cons fo fos)
  then obtain g1 fo1 fos1 where 1: "general_section_of sha fo g = Inr (g1, fo1)"
    and r: "create_general_section_dict sha fos g1 = Inr (g', fos1)"
    by (auto simp: result_simps)
  from 1 have "general_uids g1 = insert (get_uid sha fo) (general_uids g)"
    by (auto simp: general_section_of_def Let_def result_simps general_uids_add split: option.splits)
  with Cons.IH[OF r] show ?case by auto
qed simp

lemma sort_distinct_eq: "distinct xs \<Longrightarrow> distinct ys \<Longrightarrow> set xs = set ys \<Longrightarrow> sort xs = sort (ys :: 'a::linorder list)"
  by (simp add: sort_eq_iff_mset set_eq_iff_mset_eq_distinct)

lemma calculate_comp_id_of_result:
  assumes "compare_objects sha ps d fos = Inr r" "map (get_uid sha) fos = map Some uids" "distinct uids"
  shows "calculate_comp_id r = Inr (convert_uid_list_to_compare_id uids)"
proof -
  from assms(1) obtain fos' where g: "create_general_section_dict sha fos [] = Inr (cr_general r, fos')"
    by (auto simp: compare_objects_def result_simps)
  let ?s = "py_set (concat (map dkeys (dvalues (cr_general r))))"
  have set: "set ?s = Some ` set uids"
    using create_general_section_uids[OF g] arg_cong[OF assms(2), of set] by (simp add: general_uids_def dvalues_def)
  then have "None \<notin> set ?s" by auto
  moreover have "sort (map fstr ?s) = sort uids"
  proof (rule sort_distinct_eq)
    have "inj_on fstr (set ?s)" unfolding set by (auto simp: inj_on_def)
    then show "distinct (map fstr ?s)" by (simp add: distinct_map)
    show "set (map fstr ?s) = set uids" unfolding set_map set by (auto simp: image_image)
  qed (rule assms(3))
  ultimately show ?thesis by (simp add: calculate_comp_id_def Let_def convert_uid_list_to_compare_id_def)
qed

lemma stored_comparison:
  assumes "add_comparison_result now r d = Inr d'" "calculate_comp_id r = Inr cid" "objects_exist d cid" "cid \<noteq> []"
    "normalize_compare_id q = cid"
  shows "get_comparison_result d' q = Inr (Some (dupdate
     [(''general'', PDict (map (\<lambda>(f, c). (f, PDict (map (\<lambda>(u, v). (fstr u, v)) c))) (cr_general r))), (''plugins'', PDict (cr_plugins r))]
     [(''_id'', PStr cid), (''submission_date'', PFloat now)]))"
proof -
  have "\<exists>e. dget (comparison_tbl d') cid = Some e \<and> ce_data e = comparison_data r \<and> ce_submission_date e = now"
  proof (cases "comparison_exists d cid")
    case True
    then obtain e where "dget (comparison_tbl d) cid = Some e" by (auto simp: comparison_exists_def dmem_def)
    with True assms(1-3) show ?thesis by (auto simp: add_comparison_result_def update_comparison_def)
  next
    case False
    with assms(1-3) show ?thesis by (auto simp: add_comparison_result_def insert_comparison_def)
  qed
  then show ?thesis using assms(4,5)
    by (auto simp: get_comparison_result_def Let_def comparison_exists_def dmem_def comparison_entry_to_dict_def comparison_data_def)
qed

text \<open>C19: A finished comparison is found again under its UIDs in any order: when comparing distinct,
  stored objects succeeds and the result is added, asking for the comparison with the same UIDs
  in whatever order returns exactly that result, with its ID and date.\<close>

theorem comparison_found_in_any_order:
  assumes "compare_objects sha ps d fos = Inr r" "map (get_uid sha) fos = map Some uids" "distinct uids" "uids \<noteq> []"
    "\<forall>u \<in> set uids. u \<noteq> [] \<and> CHR '';'' \<notin> set u \<and> dmem (Some u) (file_tbl d)" "db_ok d"
    "add_comparison_result now r d = Inr d'" "mset (convert_compare_id_to_list q) = mset uids"
  shows "get_comparison_result d' q = Inr (Some (dupdate
     [(''general'', PDict (map (\<lambda>(f, c). (f, PDict (map (\<lambda>(u, v). (fstr u, v)) c))) (cr_general r))), (''plugins'', PDict (cr_plugins r))]
     [(''_id'', PStr (convert_uid_list_to_compare_id uids)), (''submission_date'', PFloat now)]))"
proof (rule stored_comparison[OF assms(7)])
  let ?cid = "convert_uid_list_to_compare_id uids"
  show "calculate_comp_id r = Inr ?cid" by (rule calculate_comp_id_of_result[OF assms(1-3)])
  have list: "convert_compare_id_to_list ?cid = sort uids" using compare_id_roundtrip[of uids] assms(4,5) by blast
  have d: "distinct (dkeys (file_tbl d))" using assms(6) by (simp add: db_ok_def dict_ok_def dkeys_def)
  have "set (filter (\<lambda>u. u \<in> set (map Some (sort uids))) (dkeys (file_tbl d))) = Some ` set uids"
    using assms(5) by (auto simp: dmem_iff)
  then have "length (filter (\<lambda>u. u \<in> set (map Some (sort uids))) (dkeys (file_tbl d))) = card (Some ` set uids)"
    using distinct_card[of "filter (\<lambda>u. u \<in> set (map Some (sort uids))) (dkeys (file_tbl d))"] d by simp
  also have "\<dots> = length uids" using assms(3) by (simp add: card_image distinct_card)
  finally show "objects_exist d ?cid" by (simp add: objects_exist_def Let_def list)
  show "?cid \<noteq> []"
  proof
    assume "?cid = []"
    then have "convert_compare_id_to_list ?cid = [[]]" by (simp add: convert_compare_id_to_list_def)
    then have "[] \<in> set uids" using list by (metis list.set_intros(1) set_sort)
    with assms(5) show False by blast
  qed
  show "normalize_compare_id q = ?cid"
    using assms(8) unfolding normalize_compare_id_def Let_def convert_uid_list_to_compare_id_def
    by (simp only: sort_eq_iff_mset[symmetric])
qed

definition ex_compared :: "file_object list" where
  "ex_compared = map (\<lambda>fo. fo\<lparr>list_of_all_included_files := Some []\<rparr>) [ex_fwo ''B'', ex_fwo ''A'']"

definition ex_compare_db :: db where
  "ex_compare_db = ex_insert [ex_fwo ''A'', ex_fwo ''B'']"

theorem comparison_found_in_any_order_witness:
  "\<exists>r d' res. compare_objects (map char_of) [] ex_compare_db ex_compared = Inr r \<and> add_comparison_result 5 r ex_compare_db = Inr d' \<and>
     get_comparison_result d' ''B;A'' = Inr (Some res) \<and> dget res ''_id'' = Some (PStr ''A;B'')"
proof -
  have "case compare_objects (map char_of) [] ex_compare_db ex_compared of Inl _ \<Rightarrow> False | Inr r \<Rightarrow>
    (case add_comparison_result 5 r ex_compare_db of Inl _ \<Rightarrow> False | Inr _ \<Rightarrow> True)" by code_simp
  then obtain r d' where r: "compare_objects (map char_of) [] ex_compare_db ex_compared = Inr r"
    and d': "add_comparison_result 5 r ex_compare_db = Inr d'" by (auto split: sum.splits)
  have "map (get_uid (map char_of)) ex_compared = map Some [''B'', ''A'']" by code_simp
  moreover have "\<forall>u \<in> set [''B'', ''A'']. u \<noteq> [] \<and> CHR '';'' \<notin> set u \<and> dmem (Some u) (file_tbl ex_compare_db)" by code_simp
  moreover have "mset (convert_compare_id_to_list ''B;A'') = mset [''B'', ''A'']"
  proof -
    have "convert_compare_id_to_list ''B;A'' = [''B'', ''A'']" by code_simp
    then show ?thesis by simp
  qed
  ultimately have res: "get_comparison_result d' ''B;A'' = Inr (Some (dupdate
     [(''general'', PDict (map (\<lambda>(f, c). (f, PDict (map (\<lambda>(u, v). (fstr u, v)) c))) (cr_general r))), (''plugins'', PDict (cr_plugins r))]
     [(''_id'', PStr (convert_uid_list_to_compare_id [''B'', ''A''])), (''submission_date'', PFloat 5)]))"
    using comparison_found_in_any_order[OF r _ _ _ _ _ d', of "[''B'', ''A'']" "''B;A''"]
    by (simp add: ex_compare_db_def db_ok_ex_insert)
  have "convert_uid_list_to_compare_id [''B'', ''A''] = ''A;B''" by code_simp
  with r d' res show ?thesis by (auto simp: dupdate_def)
qed

section \<open>The queue of the scheduler\<close>

fun run_comparisons ::
  "env \<Rightarrow> file_ops \<Rightarrow> (string, compare_plugin) dict \<Rightarrow> real list \<Rightarrow> comparison_scheduler \<Rightarrow> comparison_scheduler outcome" where
  "run_comparisons E F ps [] s = Done s"
| "run_comparisons E F ps (now # nows) s = bind_o (compare_single_run E F ps now s) (run_comparisons E F ps nows)"

text \<open>The comparisons that remain to be computed: the first request of each, if not done before.\<close>

fun fresh_comparisons :: "string list \<Rightarrow> (real \<times> string) list \<Rightarrow> (real \<times> string) list" where
  "fresh_comparisons finished [] = []"
| "fresh_comparisons finished ((now, c) # ts) =
     (if c \<in> set finished then fresh_comparisons finished ts else (now, c) # fresh_comparisons (c # finished) ts)"

lemma fresh_comparisons_cong: "set a = set b \<Longrightarrow> fresh_comparisons a ts = fresh_comparisons b ts"
  by (induction a ts arbitrary: b rule: fresh_comparisons.induct) auto

lemma fresh_comparisons_distinct:
  "distinct (map snd (fresh_comparisons f ts)) \<and> set (map snd (fresh_comparisons f ts)) = set (map snd ts) - set f"
  by (induction f ts rule: fresh_comparisons.induct) auto

definition compute :: "env \<Rightarrow> file_ops \<Rightarrow> (string, compare_plugin) dict \<Rightarrow> real \<times> string \<Rightarrow> fs \<Rightarrow> db \<Rightarrow> db" where
  "compute E F ps t files d = cs_db (process_comparison E F ps (fst t) (snd t) \<lparr>cs_queue = [], cs_done = [], cs_db = d, cs_files = files\<rparr>)"

lemma process_comparison_db:
  "process_comparison E F ps now c s = s\<lparr>cs_db := compute E F ps (now, c) (cs_files s) (cs_db s)\<rparr>"
  by (cases s) (simp add: process_comparison_def compute_def split: sum.split)

text \<open>C20: The comparison worker computes every requested comparison exactly once: as long as no
  repetition is forced, working off a queue of n requests takes n turns and leaves the database
  that results from computing each comparison not done before once, at its first request, in the
  order of the requests; a failing comparison stops none of the others.\<close>

theorem comparisons_computed_once:
  assumes "\<forall>t \<in> set (cs_queue s). \<not> snd t" "length nows = length (cs_queue s)"
  shows "\<exists>s' todo. run_comparisons E F ps nows s = Done s' \<and> cs_queue s' = [] \<and>
    set (cs_done s') = set (cs_done s) \<union> fst ` set (cs_queue s) \<and>
    todo = fresh_comparisons (cs_done s) (zip nows (map fst (cs_queue s))) \<and> distinct (map snd todo) \<and>
    set (map snd todo) = fst ` set (cs_queue s) - set (cs_done s) \<and>
    cs_db s' = fold (\<lambda>t. compute E F ps t (cs_files s)) todo (cs_db s)"
proof -
  have "\<exists>s'. run_comparisons E F ps nows s = Done s' \<and> cs_queue s' = [] \<and>
    set (cs_done s') = set (cs_done s) \<union> fst ` set (cs_queue s) \<and>
    cs_db s' = fold (\<lambda>t. compute E F ps t (cs_files s)) (fresh_comparisons (cs_done s) (zip nows (map fst (cs_queue s)))) (cs_db s)"
    using assms
  proof (induction nows arbitrary: s)
    case (Cons now nows)
    then obtain c q where q: "cs_queue s = (c, False) # q" by (cases "cs_queue s") auto
    show ?case
    proof (cases "c \<in> set (cs_done s)")
      case True
      let ?s = "s\<lparr>cs_queue := q\<rparr>"
      have one: "compare_single_run E F ps now s = Done ?s"
        using True q by (simp add: compare_single_run_def comparison_should_start_def)
      show ?thesis using Cons.IH[of ?s] Cons.prems q True by (auto simp: one)
    next
      case False
      let ?s = "process_comparison E F ps now c (s\<lparr>cs_queue := q, cs_done := set_add c (cs_done s)\<rparr>)"
      have one: "compare_single_run E F ps now s = Done ?s"
        using False q by (simp add: compare_single_run_def comparison_should_start_def)
      have fr: "fresh_comparisons (set_add c (cs_done s)) ts = fresh_comparisons (c # cs_done s) ts" for ts
        by (rule fresh_comparisons_cong) simp
      show ?thesis using Cons.IH[of ?s] Cons.prems q False by (auto simp: one process_comparison_db fr)
    qed
  qed simp
  then obtain s' where "run_comparisons E F ps nows s = Done s'" "cs_queue s' = []"
    "set (cs_done s') = set (cs_done s) \<union> fst ` set (cs_queue s)"
    "cs_db s' = fold (\<lambda>t. compute E F ps t (cs_files s)) (fresh_comparisons (cs_done s) (zip nows (map fst (cs_queue s)))) (cs_db s)"
    by blast
  moreover have "map snd (zip nows (map fst (cs_queue s))) = map fst (cs_queue s)" using assms(2) by simp
  ultimately show ?thesis
    using fresh_comparisons_distinct[of "cs_done s" "zip nows (map fst (cs_queue s))"] by auto
qed

theorem comparisons_computed_once_witness:
  "\<exists>s'. run_comparisons ex_store_env ex_ops [] [1, 2, 3] \<lparr>cs_queue = [(''a;b'', False), (''a;c'', False), (''a;b'', False)], cs_done = [''a;c''],
       cs_db = empty_db, cs_files = Map.empty\<rparr> = Done s' \<and> cs_db s' = compute ex_store_env ex_ops [] (1, ''a;b'') Map.empty empty_db"
  using comparisons_computed_once[of "\<lparr>cs_queue = [(''a;b'', False), (''a;c'', False), (''a;b'', False)], cs_done = [''a;c''],
       cs_db = empty_db, cs_files = Map.empty\<rparr>" "[1, 2, 3]" ex_store_env ex_ops "[]"] by auto

end
