(* ===== verification/Unpacking.thy ===== *)
theory Unpacking
  imports FileStore "HOL-Library.Multiset_Order"
begin

text \<open>
  Unpacking: \<open>unpacker/unpack.py\<close>, \<open>unpacker/unpack_base.py\<close>,
  \<open>scheduler/unpacking_scheduler.py\<close> and the paths of \<open>helperFunctions/fileSystem.py\<close>. One
  object is taken from the queue, its extracted files are stored under their UIDs, locked
  against deletion and linked to their parent, and are put into the queue again. The
  extraction itself (docker, the extractor image) is a parameter: what it writes to the
  temporary directory and which paths it lists. Termination is proved from the depth limit.
\<close>

section \<open>Paths\<close>

text \<open>\<open>pathlib\<close>: a path is its parts, an absolute one starts with the root.\<close>

definition path_parts :: "string \<Rightarrow> string list" where
  "path_parts p = (if startswith p ''/'' then [''/''] else []) @ filter (\<lambda>e. e \<noteq> [] \<and> e \<noteq> ''.'') (split_on (CHR ''/'') p)"

definition is_absolute :: "string list \<Rightarrow> bool" where
  "is_absolute ps = (ps \<noteq> [] \<and> hd ps = ''/'')"

definition path_str :: "string list \<Rightarrow> string" where
  "path_str ps = (if ps = [] then ''.'' else if is_absolute ps then ''/'' @ join_with ''/'' (tl ps) else join_with ''/'' ps)"

definition relative_to :: "string list \<Rightarrow> string list \<Rightarrow> string list result" where
  "relative_to ps other = (if is_absolute ps = is_absolute other \<and> prefix other ps then Inr (drop (length other) ps) else Inl ValueError)"

text \<open>Both calls of \<open>relative_to\<close> are under one \<open>suppress(ValueError)\<close>.\<close>

definition get_relative_object_path :: "string \<Rightarrow> string \<Rightarrow> string" where
  "get_relative_object_path path offset_path =
     (let ps = (case relative_to (path_parts path) (path_parts offset_path) of
          Inl _ \<Rightarrow> path_parts path
        | Inr r \<Rightarrow> (case relative_to r [''fact_extracted''] of Inl _ \<Rightarrow> r | Inr r2 \<Rightarrow> r2))
      in if is_absolute ps then path_str ps else ''/'' @ path_str ps)"

text \<open>\<open>resolve\<close> follows a symbolic link; a missing file is not empty.\<close>

definition file_is_empty :: "(string \<Rightarrow> string) \<Rightarrow> fs \<Rightarrow> string \<Rightarrow> bool" where
  "file_is_empty resolve files p = (files (resolve p) = Some [])"

section \<open>Extraction\<close>

datatype docker_result = RequestFailed | Exited int

record unpack_env =
  u_max_depth :: int
  u_resolve :: "string \<Rightarrow> string"
  u_tmp_dir :: string
  u_docker :: "string \<Rightarrow> docker_result"
  u_written :: "string \<Rightarrow> fs \<Rightarrow> fs"
  u_rglob :: "string \<Rightarrow> string list"
  u_is_dir :: "string \<Rightarrow> bool"
  u_meta :: "string \<Rightarrow> analysis_result"
  u_mime :: "string \<Rightarrow> string"

definition extract_files_from_file :: "unpack_env \<Rightarrow> string \<Rightarrow> string list option result" where
  "extract_files_from_file U p = (case u_docker U p of
      RequestFailed \<Rightarrow> Inr None
    | Exited returncode \<Rightarrow>
        if returncode \<noteq> 0 then Inl RuntimeError
        else Inr (Some (filter (\<lambda>item. \<not> u_is_dir U item) (u_rglob U p))))"

text \<open>A path that does not exist leads to \<open>generate_path\<close> with the UID, which has no \<open>uid\<close>.\<close>

definition generate_local_file_path :: "fs \<Rightarrow> file_object \<Rightarrow> string result" where
  "generate_local_file_path files fo = (case file_path fo of
      None \<Rightarrow> Inl TypeError
    | Some p \<Rightarrow> if files p = None then Inl AttributeError else Inr p)"

section \<open>Unpacker\<close>

record ustate =
  us_files :: fs
  us_locks :: "(uid, nat) dict"

definition skip_info :: "real \<Rightarrow> string \<Rightarrow> string \<Rightarrow> string \<Rightarrow> analysis_result" where
  "skip_info now info tag val =
     [(''plugin_used'', PStr ''None''), (''number_of_unpacked_files'', PInt 0), (''plugin_version'', PStr ''0.0''),
      (''analysis_date'', PFloat now), (''info'', PStr info),
      (''tags'', PDict [(tag, PDict [(''value'', PStr val), (''color'', PStr ''warning''), (''propagate'', PBool False)])])]"

definition store_unpacking_error_skip_info :: "real \<Rightarrow> file_object \<Rightarrow> file_object" where
  "store_unpacking_error_skip_info now fo = fo\<lparr>processed_analysis := dput ''unpacker''
     (skip_info now ''Unpacking stopped because extractor raised a exception (possible timeout)''
        ''extractor error'' ''possible extractor timeout'') (processed_analysis fo)\<rparr>"

definition store_unpacking_depth_skip_info :: "real \<Rightarrow> file_object \<Rightarrow> file_object" where
  "store_unpacking_depth_skip_info now fo = fo\<lparr>processed_analysis := dput ''unpacker''
     (skip_info now ''Unpacking stopped because maximum unpacking depth was reached''
        ''depth reached'' ''unpacking depth reached'') (processed_analysis fo)\<rparr>"

text \<open>The virtual path of an extracted file: base of the parent's first path, parent, file.\<close>

definition extracted_virtual_path :: "env \<Rightarrow> file_object \<Rightarrow> string \<Rightarrow> string \<Rightarrow> string result" where
  "extracted_virtual_path E parent item extraction_dir =
     bind_r (dlookup (get_virtual_file_paths (e_sha E) parent) (get_root_uid (e_sha E) parent)) (\<lambda>ps.
       case ps of [] \<Rightarrow> Inl IndexError
       | p # _ \<Rightarrow> (case get_uid (e_sha E) parent of
           None \<Rightarrow> Inl TypeError
         | Some parent_uid \<Rightarrow>
             Inr (join_virtual_path [get_base_of_virtual_path p, parent_uid, get_relative_object_path item extraction_dir])))"

text \<open>
  One extracted path; \<open>extracted_files\<close> maps UIDs to the objects found so far. The locks set and
  the files stored before an exception stay.
\<close>

type_synonym extracted = "(uid, file_object) dict"

definition generate_and_store_one ::
  "unpack_env \<Rightarrow> env \<Rightarrow> file_ops \<Rightarrow> string \<Rightarrow> file_object \<Rightarrow> string \<Rightarrow> extracted \<Rightarrow> ustate \<Rightarrow> extracted result \<times> ustate" where
  "generate_and_store_one U E F extraction_dir parent item extracted_files s =
     (if file_is_empty (u_resolve U) (us_files s) item then (Inr extracted_files, s)
      else
        let current_file = file_object_init (e_sha E) (e_md5 E) (\<lambda>p. get_binary_from_file F p (us_files s)) None
              None None (Some item) None;
            u = get_uid (e_sha E) current_file;
            rt = get_root_uid (e_sha E) parent
        in case extracted_virtual_path E parent item extraction_dir of
             Inl e \<Rightarrow> (Inl e, s)
           | Inr current_virtual_path \<Rightarrow> (case file_path parent of
               None \<Rightarrow> (Inl TypeError, s)
             | Some pp \<Rightarrow>
                 let current_file1 = current_file\<lparr>temporary_data := dput ''parent_fo_type'' (PStr (u_mime U pp)) (temporary_data current_file)\<rparr>
                 in case dget extracted_files u of
                      Some fo \<Rightarrow>
                        (map_r (\<lambda>vfps. dput u (fo\<lparr>virtual_file_path := dput rt (vfps @ [current_virtual_path]) (virtual_file_path fo)\<rparr>) extracted_files)
                           (dlookup (virtual_file_path fo) rt), s)
                    | None \<Rightarrow>
                        let s1 = s\<lparr>us_locks := set_unpacking_lock u (us_locks s)\<rparr> in
                        (case store_file E F current_file1 (us_files s1) of
                           Inl e \<Rightarrow> (Inl e, s1)
                         | Inr (fo, files) \<Rightarrow>
                             (Inr (dput u (fo\<lparr>virtual_file_path := [(rt, [current_virtual_path])],
                                parent_firmware_uids := set_add rt (parent_firmware_uids fo)\<rparr>) extracted_files),
                              s1\<lparr>us_files := files\<rparr>))))"

fun generate_and_store_file_objects ::
  "unpack_env \<Rightarrow> env \<Rightarrow> file_ops \<Rightarrow> string list \<Rightarrow> string \<Rightarrow> file_object \<Rightarrow> extracted \<Rightarrow> ustate \<Rightarrow> extracted result \<times> ustate" where
  "generate_and_store_file_objects U E F [] extraction_dir parent extracted_files s = (Inr extracted_files, s)"
| "generate_and_store_file_objects U E F (item # file_paths) extraction_dir parent extracted_files s =
     (case generate_and_store_one U E F extraction_dir parent item extracted_files s of
        (Inl e, s1) \<Rightarrow> (Inl e, s1)
      | (Inr extracted1, s1) \<Rightarrow> generate_and_store_file_objects U E F file_paths extraction_dir parent extracted1 s1)"

definition remove_duplicates :: "env \<Rightarrow> extracted \<Rightarrow> file_object \<Rightarrow> file_object list" where
  "remove_duplicates E extracted_fo_dict parent_fo =
     dvalues (if dmem (get_uid (e_sha E) parent_fo) extracted_fo_dict
              then ddel (get_uid (e_sha E) parent_fo) extracted_fo_dict else extracted_fo_dict)"

fun add_included_files_to_object ::
  "env \<Rightarrow> file_object list \<Rightarrow> file_object \<Rightarrow> (file_object list \<times> file_object) result" where
  "add_included_files_to_object E [] root_file_object = Inr ([], root_file_object)"
| "add_included_files_to_object E (item # items) root_file_object =
     bind_r (add_included_file (e_sha E) root_file_object item) (\<lambda>(root1, item1).
     bind_r (add_included_files_to_object E items root1) (\<lambda>(items1, root2). Inr (item1 # items1, root2)))"

text \<open>Leaving the \<open>with\<close> block removes the temporary directory.\<close>

definition remove_tree :: "string \<Rightarrow> fs \<Rightarrow> fs" where
  "remove_tree dir files = (\<lambda>p. if prefix (dir @ ''/'') p then None else files p)"

text \<open>The extracted objects and the unpacked object; the exceptions end the worker.\<close>

definition unpack_in_dir ::
  "unpack_env \<Rightarrow> env \<Rightarrow> file_ops \<Rightarrow> real \<Rightarrow> file_object \<Rightarrow> ustate \<Rightarrow> (file_object list \<times> file_object) result \<times> ustate" where
  "unpack_in_dir U E F now current_fo s =
     (case generate_local_file_path (us_files s) current_fo of
        Inl e \<Rightarrow> (Inl e, s)
      | Inr p \<Rightarrow>
          let s1 = s\<lparr>us_files := u_written U p (us_files s)\<rparr> in
          (case extract_files_from_file U p of
             Inl e \<Rightarrow> (Inl e, s1)
           | Inr None \<Rightarrow> (Inr ([], store_unpacking_error_skip_info now current_fo), s1)
           | Inr (Some file_paths) \<Rightarrow>
               (case generate_and_store_file_objects U E F file_paths (u_tmp_dir U @ ''/files'') current_fo [] s1 of
                  (Inl e, s2) \<Rightarrow> (Inl e, s2)
                | (Inr fos, s2) \<Rightarrow>
                    (map_r (\<lambda>(items, fo1).
                       (items, fo1\<lparr>processed_analysis := dput ''unpacker'' (u_meta U p) (processed_analysis fo1)\<rparr>))
                      (add_included_files_to_object E (remove_duplicates E fos current_fo) current_fo), s2))))"

definition unpack ::
  "unpack_env \<Rightarrow> env \<Rightarrow> file_ops \<Rightarrow> real \<Rightarrow> file_object \<Rightarrow> ustate \<Rightarrow> (file_object list \<times> file_object) result \<times> ustate" where
  "unpack U E F now current_fo s =
     (if depth current_fo \<ge> u_max_depth U then (Inr ([], store_unpacking_depth_skip_info now current_fo), s)
      else let (r, s1) = unpack_in_dir U E F now current_fo s
           in (r, s1\<lparr>us_files := remove_tree (u_tmp_dir U) (us_files s1)\<rparr>))"

section \<open>Unpacking scheduler\<close>

record unpacking_scheduler =
  us_in_queue :: "file_object list"
  us_throttle :: bool
  us_work_load_counter :: nat

definition init_unpacking_scheduler :: unpacking_scheduler where
  "init_unpacking_scheduler = \<lparr>us_in_queue = [], us_throttle = False, us_work_load_counter = 25\<rparr>"

definition add_unpack_task :: "file_object \<Rightarrow> unpacking_scheduler \<Rightarrow> unpacking_scheduler" where
  "add_unpack_task fo w = w\<lparr>us_in_queue := us_in_queue w @ [fo]\<rparr>"

definition get_unpack_workload :: "unpacking_scheduler \<Rightarrow> (string, nat) dict" where
  "get_unpack_workload w = [(''unpacking_queue'', length (us_in_queue w))]"

text \<open>
  The waiting loop sees the stop and the throttle condition at every turn, here a list of
  observations: a stop drops the item, \<open>None\<close> means it still waits.
\<close>

fun add_object_to_unpack_queue :: "(bool \<times> bool) list \<Rightarrow> 'a \<Rightarrow> 'a list \<Rightarrow> 'a list option" where
  "add_object_to_unpack_queue [] item q = None"
| "add_object_to_unpack_queue ((stop, throttle) # obs) item q =
     (if stop then Some q
      else if \<not> throttle then Some (q @ [item])
      else add_object_to_unpack_queue obs item q)"

definition work_load_monitor_step :: "nat \<Rightarrow> nat \<Rightarrow> unpacking_scheduler \<Rightarrow> unpacking_scheduler" where
  "work_load_monitor_step limit load w =
     w\<lparr>us_work_load_counter := (if us_work_load_counter w \<ge> 25 then 0 else us_work_load_counter w + 1),
       us_throttle := (\<not> load < limit)\<rparr>"

definition get_combined_workload :: "(unit \<Rightarrow> nat) option \<Rightarrow> nat" where
  "get_combined_workload workload = (case workload of None \<Rightarrow> 0 | Some f \<Rightarrow> f ())"

text \<open>
  One turn of \<open>unpack_worker\<close> without a stop: the object is unpacked, handed to
  \<open>post_unpack\<close> (\<open>start_analysis_of_object\<close> in the back end) and its files are queued. The
  locks and the database are those of the analysis scheduler.
\<close>

definition unpack_worker ::
  "unpack_env \<Rightarrow> env \<Rightarrow> file_ops \<Rightarrow> (nat \<Rightarrow> nat \<Rightarrow> nat) \<Rightarrow> real \<Rightarrow>
   file_object list \<times> fs \<times> sched \<Rightarrow> (file_object list \<times> fs \<times> sched) outcome" where
  "unpack_worker U E F rnd now = (\<lambda>(q, files, s). case q of
      [] \<Rightarrow> Done (q, files, s)
    | fo # rest \<Rightarrow>
        (case unpack U E F now fo \<lparr>us_files = files, us_locks = unpacking_locks s\<rparr> of
           (Inl e, u) \<Rightarrow> Raised e (rest, us_files u, s\<lparr>unpacking_locks := us_locks u\<rparr>)
         | (Inr (extracted_objects, fo1), u) \<Rightarrow>
             (case start_analysis_of_object E rnd now fo1 (s\<lparr>unpacking_locks := us_locks u\<rparr>) of
                Done s1 \<Rightarrow> Done (rest @ extracted_objects, us_files u, s1)
              | Raised e s1 \<Rightarrow> Raised e (rest, us_files u, s1)
              | Blocked \<Rightarrow> Blocked)))"

section \<open>Extracted files are stored, locked and linked\<close>

text \<open>The storage is content-addressed: what is stored for a UID has that UID.\<close>

definition store_ok :: "env \<Rightarrow> fs \<Rightarrow> bool" where
  "store_ok E files \<longleftrightarrow> (\<forall>u b. files (generate_path_from_uid (e_storage E) u) = Some b \<longrightarrow> bytes_uid (e_sha E) b = u)"

text \<open>The temporary directory is no part of the storage and extraction writes nowhere else.\<close>

definition tmp_ok :: "unpack_env \<Rightarrow> env \<Rightarrow> bool" where
  "tmp_ok U E \<longleftrightarrow> (\<forall>u. \<not> prefix (u_tmp_dir U @ ''/'') (generate_path_from_uid (e_storage E) u)) \<and>
     (\<forall>p files q. \<not> prefix (u_tmp_dir U @ ''/'') q \<longrightarrow> u_written U p files q = files q)"

definition stored_child :: "env \<Rightarrow> ustate \<Rightarrow> file_object \<Rightarrow> bool" where
  "stored_child E s c \<longleftrightarrow> (\<exists>b b'. binary c = Some b \<and> get_uid (e_sha E) c = Some (bytes_uid (e_sha E) b) \<and>
     us_files s (generate_path_from_uid (e_storage E) (bytes_uid (e_sha E) b)) = Some b' \<and>
     bytes_uid (e_sha E) b' = bytes_uid (e_sha E) b \<and> unpacking_lock_is_set (get_uid (e_sha E) c) (us_locks s))"

definition extracted_ok :: "env \<Rightarrow> uid \<Rightarrow> extracted \<Rightarrow> ustate \<Rightarrow> bool" where
  "extracted_ok E rt ext s \<longleftrightarrow> dict_ok ext \<and> store_ok E (us_files s) \<and>
     (\<forall>u c. dget ext u = Some c \<longrightarrow> get_uid (e_sha E) c = u \<and> stored_child E s c \<and>
        (\<exists>ps. virtual_file_path c = [(rt, ps)] \<and> ps \<noteq> []))"

lemma new_file_object:
  "\<exists>b. binary (file_object_init sha md read None None None (Some item) None) = Some b \<and>
     get_uid sha (file_object_init sha md read None None None (Some item) None) = Some (bytes_uid sha b)"
  by (simp add: file_object_init_def create_binary_from_path_def set_binary_def set_binary_fo_def blank_fo_def Let_def get_uid_def)

lemma store_file_keeps_store_ok:
  assumes "file_ops_ok F" "binary fo = Some b" "get_uid (e_sha E) fo = Some (bytes_uid (e_sha E) b)" "store_ok E files"
    "store_file E F fo files = Inr (fo', files')"
  shows "store_ok E files'" "binary fo' = Some b" "get_uid (e_sha E) fo' = Some (bytes_uid (e_sha E) b)"
    "\<exists>b'. files' (generate_path_from_uid (e_storage E) (bytes_uid (e_sha E) b)) = Some b' \<and> bytes_uid (e_sha E) b' = bytes_uid (e_sha E) b"
    "files p = Some c \<Longrightarrow> files' p = Some c"
proof -
  let ?p = "generate_path_from_uid (e_storage E) (bytes_uid (e_sha E) b)"
  from store_file_result[OF assms(1-3), of files] assms(5)
  have f: "files' = (\<lambda>p. if p = ?p \<and> files p = None then Some b else files p)" and
    "binary fo' = Some b" "get_uid (e_sha E) fo' = Some (bytes_uid (e_sha E) b)" by auto
  then show "binary fo' = Some b" "get_uid (e_sha E) fo' = Some (bytes_uid (e_sha E) b)" by auto
  show ok: "store_ok E files'"
    using assms(4) unfolding store_ok_def f by (auto dest: generate_path_from_uid_inj split: if_splits)
  show "files p = Some c \<Longrightarrow> files' p = Some c" by (auto simp: f)
  have "files' ?p \<noteq> None" by (simp add: f)
  with ok show "\<exists>b'. files' ?p = Some b' \<and> bytes_uid (e_sha E) b' = bytes_uid (e_sha E) b"
    unfolding store_ok_def by auto
qed

lemma stored_child_mono:
  assumes "stored_child E s c" "\<And>p b. us_files s p = Some b \<Longrightarrow> us_files s' p = Some b"
    "\<And>u. dmem u (us_locks s) \<Longrightarrow> dmem u (us_locks s')"
  shows "stored_child E s' c"
  using assms unfolding stored_child_def unpacking_lock_is_set_def by blast

lemma stored_child_cong:
  "get_uid sha c' = get_uid sha c \<Longrightarrow> binary c' = binary c \<Longrightarrow> sha = e_sha E \<Longrightarrow> stored_child E s c' = stored_child E s c"
  by (simp add: stored_child_def)

lemma generate_and_store_one_ok:
  assumes "file_ops_ok F" "extracted_ok E (get_root_uid (e_sha E) parent) ext s"
    "generate_and_store_one U E F dir parent item ext s = (Inr ext', s')"
  shows "extracted_ok E (get_root_uid (e_sha E) parent) ext' s'"
proof (cases "file_is_empty (u_resolve U) (us_files s) item")
  case True
  with assms(2,3) show ?thesis by (simp add: generate_and_store_one_def)
next
  case False
  let ?rt = "get_root_uid (e_sha E) parent"
  define cf where "cf = file_object_init (e_sha E) (e_md5 E) (\<lambda>p. get_binary_from_file F p (us_files s)) None None None (Some item) None"
  from new_file_object[of "e_sha E" "e_md5 E" "\<lambda>p. get_binary_from_file F p (us_files s)" item] obtain b where
    b: "binary cf = Some b" "get_uid (e_sha E) cf = Some (bytes_uid (e_sha E) b)" by (auto simp: cf_def)
  note one = assms(3)[unfolded generate_and_store_one_def Let_def, folded cf_def]
  from one False obtain vp pp where vp: "extracted_virtual_path E parent item dir = Inr vp" "file_path parent = Some pp"
    by (auto split: sum.splits option.splits)
  define cf1 where "cf1 = cf\<lparr>temporary_data := dput ''parent_fo_type'' (PStr (u_mime U pp)) (temporary_data cf)\<rparr>"
  have b1: "binary cf1 = Some b" "get_uid (e_sha E) cf1 = Some (bytes_uid (e_sha E) b)"
    using b by (simp_all add: cf1_def get_uid_def split: option.splits)
  note ok = assms(2)[unfolded extracted_ok_def]
  show ?thesis
  proof (cases "dget ext (get_uid (e_sha E) cf)")
    case (Some fo)
    from ok Some obtain ps where ps: "virtual_file_path fo = [(?rt, ps)]" "get_uid (e_sha E) fo = get_uid (e_sha E) cf" "stored_child E s fo" by blast
    let ?fo = "fo\<lparr>virtual_file_path := dput ?rt (ps @ [vp]) (virtual_file_path fo)\<rparr>"
    from one False vp Some ps have e: "ext' = dput (get_uid (e_sha E) cf) ?fo ext" "s' = s"
      by (auto simp: dlookup_def)
    have uid: "get_uid (e_sha E) ?fo = get_uid (e_sha E) cf" using ps(2) get_uid_cong[of ?fo fo "e_sha E"] by simp
    have "stored_child E s ?fo" using ps(2,3) uid stored_child_cong[of "e_sha E" ?fo fo E s] by simp
    then show ?thesis using ok uid ps by (auto simp: extracted_ok_def e)
  next
    case None
    let ?u = "get_uid (e_sha E) cf"
    from one False vp None obtain fo files where st: "store_file E F cf1 (us_files s) = Inr (fo, files)"
      and e: "ext' = dput ?u (fo\<lparr>virtual_file_path := [(?rt, [vp])], parent_firmware_uids := set_add ?rt (parent_firmware_uids fo)\<rparr>) ext"
        "s' = s\<lparr>us_locks := set_unpacking_lock ?u (us_locks s), us_files := files\<rparr>"
      by (auto simp flip: cf1_def split: sum.splits)
    from ok have "store_ok E (us_files s)" by blast
    note sf = store_file_keeps_store_ok[OF assms(1) b1 this st]
    let ?fo = "fo\<lparr>virtual_file_path := [(?rt, [vp])], parent_firmware_uids := set_add ?rt (parent_firmware_uids fo)\<rparr>"
    have uid: "get_uid (e_sha E) ?fo = ?u" using sf(3) b(2) by (simp add: get_uid_def split: option.splits)
    have new: "stored_child E s' ?fo"
      using sf(2,4) uid b(2) by (auto simp: stored_child_def e unpacking_lock_is_set_def set_unpacking_lock_def dmem_def)
    have old: "stored_child E s' c" if "stored_child E s c" for c
      by (rule stored_child_mono[OF that]) (auto simp: e set_unpacking_lock_def dmem_def sf(5))
    show ?thesis using ok uid new old sf(1) by (auto simp: extracted_ok_def e)
  qed
qed

lemma generate_and_store_file_objects_ok:
  assumes "file_ops_ok F" "generate_and_store_file_objects U E F items dir parent ext s = (Inr ext', s')"
    "extracted_ok E (get_root_uid (e_sha E) parent) ext s"
  shows "extracted_ok E (get_root_uid (e_sha E) parent) ext' s'"
  using assms(2,3)
proof (induction items arbitrary: ext s)
  case (Cons item items)
  from Cons.prems(1) obtain ext1 s1 where one: "generate_and_store_one U E F dir parent item ext s = (Inr ext1, s1)"
    and r: "generate_and_store_file_objects U E F items dir parent ext1 s1 = (Inr ext', s')"
    by (auto split: prod.splits sum.splits)
  from Cons.IH[OF r generate_and_store_one_ok[OF assms(1) Cons.prems(2) one]] show ?case .
qed simp

text \<open>Linking the children to their parent.\<close>

lemma add_included_file_parent:
  assumes "add_included_file sha self child = Inr (self', c)"
  shows "self' = self\<lparr>files_included := set_add (get_uid sha child) (files_included self)\<rparr>" "binary c = binary child"
  using assms
  by (auto simp: add_included_file_def add_virtual_file_path_if_none_exists_def result_simps Let_def get_uid_def cong: option.case_cong)

lemma add_included_files_to_object_result:
  assumes "add_included_files_to_object E items parent = Inr (items', parent')"
  shows "map (get_uid (e_sha E)) items' = map (get_uid (e_sha E)) items \<and>
    set (files_included parent') = set (files_included parent) \<union> set (map (get_uid (e_sha E)) items) \<and>
    (\<forall>c' \<in> set items'. depth c' = depth parent + 1 \<and> root_uid c' = root_uid parent \<and>
      (\<exists>c \<in> set items. binary c' = binary c \<and> get_uid (e_sha E) c' = get_uid (e_sha E) c \<and>
        (dmem (root_uid parent) (virtual_file_path c) \<longrightarrow> virtual_file_path c' = virtual_file_path c)))"
  using assms
proof (induction items arbitrary: parent items' parent')
  case Nil
  then show ?case by auto
next
  case (Cons item items)
  from Cons.prems obtain p1 i1 is1 where one: "add_included_file (e_sha E) parent item = Inr (p1, i1)"
    and r: "add_included_files_to_object E items p1 = Inr (is1, parent')" and items': "items' = i1 # is1"
    by (auto simp: bind_r_Inr_iff)
  note f = add_included_file_result(1,3,5,8)[OF one] add_included_file_parent[OF one]
  note IH = Cons.IH[OF r, unfolded f(5), simplified]
  show ?case unfolding items' using IH f(1-4,6) by auto
qed

lemma set_dvalues_get: "dict_ok d \<Longrightarrow> c \<in> set (dvalues d) \<longleftrightarrow> (\<exists>k. dget d k = Some c)"
  using dvalues_dget dget_in_dvalues by metis

lemma extracted_uids:
  "extracted_ok E rt ext s \<Longrightarrow> map (get_uid (e_sha E)) (dvalues ext) = dkeys ext"
  by (auto simp: extracted_ok_def dvalues_def dkeys_def dict_ok_def)

lemma extracted_ok_ddel: "extracted_ok E rt ext s \<Longrightarrow> extracted_ok E rt (ddel u ext) s"
  by (auto simp: extracted_ok_def)

lemma remove_duplicates_result:
  assumes "extracted_ok E rt ext s"
  shows "distinct (map (get_uid (e_sha E)) (remove_duplicates E ext parent))"
    "get_uid (e_sha E) parent \<notin> set (map (get_uid (e_sha E)) (remove_duplicates E ext parent))"
    "c \<in> set (remove_duplicates E ext parent) \<Longrightarrow> stored_child E s c \<and> (\<exists>ps. virtual_file_path c = [(rt, ps)] \<and> ps \<noteq> [])"
proof -
  let ?e = "ddel (get_uid (e_sha E) parent) ext"
  have rd: "remove_duplicates E ext parent = dvalues ?e"
    by (auto simp: remove_duplicates_def dmem_iff dkeys_def AList.delete_idem)
  note ok = extracted_ok_ddel[OF assms, of "get_uid (e_sha E) parent"]
  have d: "dict_ok ?e" using ok unfolding extracted_ok_def by (rule conjunct1)
  have keys: "map (get_uid (e_sha E)) (dvalues ?e) = dkeys ?e" by (rule extracted_uids[OF ok])
  show "distinct (map (get_uid (e_sha E)) (remove_duplicates E ext parent))"
    unfolding rd keys dkeys_def by (rule d[unfolded dict_ok_def])
  show "get_uid (e_sha E) parent \<notin> set (map (get_uid (e_sha E)) (remove_duplicates E ext parent))"
    unfolding rd keys by simp
  show "c \<in> set (remove_duplicates E ext parent) \<Longrightarrow> stored_child E s c \<and> (\<exists>ps. virtual_file_path c = [(rt, ps)] \<and> ps \<noteq> [])"
    unfolding rd set_dvalues_get[OF d] using ok unfolding extracted_ok_def by blast
qed


definition ex_unpack_env :: unpack_env where
  "ex_unpack_env = \<lparr>u_max_depth = 8, u_resolve = id, u_tmp_dir = ''/t/x'', u_docker = (\<lambda>_. Exited 0),
     u_written = (\<lambda>_ files. files(''/t/x/files/a'' \<mapsto> [97], ''/t/x/files/e'' \<mapsto> [])),
     u_rglob = (\<lambda>_. [''/t/x/files/a'', ''/t/x/files/e'', ''/t/x/files/a'']),
     u_is_dir = (\<lambda>_. False), u_meta = (\<lambda>_. []), u_mime = (\<lambda>_. ''x/y'')\<rparr>"

definition ex_parent :: file_object where
  "ex_parent = firmware_init (map char_of) (map char_of) (\<lambda>_. []) (Some [66]) (Some ''fw'') (Some ''/s/B_/B_1'') None"

definition ex_ustate :: ustate where
  "ex_ustate = \<lparr>us_files = [''/s/B_/B_1'' \<mapsto> [66]], us_locks = []\<rparr>"

lemma tmp_ok_ex: "tmp_ok ex_unpack_env ex_store_env"
  by (auto simp: tmp_ok_def ex_unpack_env_def ex_store_env_def generate_path_from_uid_def)

lemma store_ok_ex: "store_ok ex_store_env (us_files ex_ustate)"
proof -
  have "u = ''B_1''" if "generate_path_from_uid ''/s'' u = ''/s/B_/B_1''" for u
    using generate_path_from_uid_inj[of "''/s''" u "''B_1''"] that by (simp add: generate_path_from_uid_def)
  moreover have "bytes_uid (map char_of) [66] = ''B_1''" by code_simp
  ultimately show ?thesis
    by (auto simp: store_ok_def ex_ustate_def ex_store_env_def split: if_splits)
qed


section \<open>Unpacking ends\<close>

lemma unpack_depth:
  assumes "unpack U E F now fo s = (Inr (items, fo1), s')"
  shows "\<forall>c \<in> set items. depth c = depth fo + 1 \<and> depth fo < u_max_depth U"
proof (cases "depth fo \<ge> u_max_depth U")
  case True
  with assms show ?thesis by (simp add: unpack_def)
next
  case False
  with assms obtain s1 where "unpack_in_dir U E F now fo s = (Inr (items, fo1), s1)"
    by (auto simp: unpack_def Let_def split: prod.splits)
  then have "items = [] \<or> (\<exists>ext parent. add_included_files_to_object E (remove_duplicates E ext fo) fo = Inr (items, parent))"
    by (auto simp: unpack_in_dir_def Let_def result_simps split: sum.splits prod.splits option.splits)
  with False add_included_files_to_object_result show ?thesis by fastforce
qed

definition unpack_measure :: "unpack_env \<Rightarrow> file_object list \<Rightarrow> nat multiset" where
  "unpack_measure U q = mset (map (\<lambda>fo. nat (u_max_depth U - depth fo)) q)"

lemma unpack_worker_measure:
  assumes "unpack_worker U E F rnd now (q, files, s) = Done (q', files', s')" "q \<noteq> []"
  shows "(unpack_measure U q', unpack_measure U q) \<in> mult less_than"
proof -
  from assms obtain fo rest where q: "q = fo # rest" by (cases q) auto
  from assms(1) q obtain items fo1 u where un: "unpack U E F now fo \<lparr>us_files = files, us_locks = unpacking_locks s\<rparr> = (Inr (items, fo1), u)"
    and q': "q' = rest @ items"
    by (auto simp: unpack_worker_def split: prod.splits sum.splits outcome.splits)
  have "\<forall>k \<in># unpack_measure U items. k < nat (u_max_depth U - depth fo)"
    using unpack_depth[OF un] by (auto simp: unpack_measure_def)
  then have "(unpack_measure U rest + unpack_measure U items, unpack_measure U rest + {#nat (u_max_depth U - depth fo)#}) \<in> mult less_than"
    by (intro one_step_implies_mult) auto
  then show ?thesis by (simp add: q q' unpack_measure_def ac_simps)
qed

text \<open>C17: Unpacking ends: because every extracted file is one level deeper than its container and
  nothing is extracted at the maximum depth, no schedule of worker turns goes on for ever, however
  many files the extractor produces at each turn.\<close>

theorem unpacking_ends:
  "\<not> (\<exists>f. \<forall>i. fst (f i) \<noteq> [] \<and> (\<exists>rnd now. unpack_worker U E F rnd now (f i) = Done (f (Suc i))))"
proof
  assume "\<exists>f. \<forall>i. fst (f i) \<noteq> [] \<and> (\<exists>rnd now. unpack_worker U E F rnd now (f i) = Done (f (Suc i)))"
  then obtain f where f: "\<And>i. fst (f i) \<noteq> []" "\<And>i. \<exists>rnd now. unpack_worker U E F rnd now (f i) = Done (f (Suc i))" by blast
  have "(unpack_measure U (fst (f (Suc i))), unpack_measure U (fst (f i))) \<in> mult less_than" for i
    using f(2)[of i] unpack_worker_measure[OF _ f(1)[of i], of U E F] by (metis prod.collapse)
  then have "\<exists>g. \<forall>i. (g (Suc i), g i) \<in> mult less_than"
    by (intro exI[of _ "\<lambda>i. unpack_measure U (fst (f i))"]) simp
  moreover have "wf (mult less_than)" by (rule wf_mult) simp
  ultimately show False unfolding wf_iff_no_infinite_down_chain by blast
qed

end
