(* ===== verification/WorkerProcesses.thy ===== *)
theory WorkerProcesses
  imports Comparison Unpacking Redis
begin

text \<open>
  \<open>helperFunctions/process.py\<close> and the \<open>check_exceptions\<close> methods of the services: worker
  processes that failed are removed and, depending on the configuration, started again. A
  process is its name, the number of arguments its target is called with, and the exception it
  ended with. The list is changed while it is iterated over, so the loop runs over positions.
\<close>

datatype target = AnalysisWorker | UnpackWorker | WorkLoadMonitor | ComparisonMain | SchedulerMain

text \<open>The number of arguments the function takes besides \<open>self\<close>.\<close>

fun takes_index :: "target \<Rightarrow> bool" where
  "takes_index AnalysisWorker = True"
| "takes_index UnpackWorker = True"
| "takes_index _ = False"

record process =
  pr_id :: nat
  pr_name :: string
  pr_target :: target
  pr_args :: "nat list"
  pr_exception :: "string option"

text \<open>Calling the target with a wrong number of arguments is a \<open>TypeError\<close> right away.\<close>

definition start_process :: "nat \<Rightarrow> string \<Rightarrow> target \<Rightarrow> nat list \<Rightarrow> process" where
  "start_process i n t args = \<lparr>pr_id = i, pr_name = n, pr_target = t, pr_args = args,
     pr_exception = (if (length args = 1) = takes_index t \<and> length args \<le> 1 then None else Some ''TypeError'')\<rparr>"

definition str_index :: "nat option \<Rightarrow> string" where
  "str_index i = (case i of None \<Rightarrow> ''None'' | Some n \<Rightarrow> str_nat n)"

definition start_single_worker :: "nat \<Rightarrow> nat option \<Rightarrow> string \<Rightarrow> target \<Rightarrow> process" where
  "start_single_worker i process_index lbl f =
     start_process i (lbl @ ''-Worker-'' @ str_index process_index) f (case process_index of None \<Rightarrow> [] | Some n \<Rightarrow> [n])"

text \<open>\<open>int(s)\<close> for the strings a process name ends with.\<close>

definition parse_int :: "string \<Rightarrow> nat result" where
  "parse_int s = (if s \<noteq> [] \<and> (\<forall>c \<in> set s. is_digit c) then Inr (foldl (\<lambda>n c. n * 10 + (of_char c - 48)) 0 s) else Inl ValueError)"

definition index_of_name :: "string \<Rightarrow> nat result" where
  "index_of_name n = parse_int (last (split_on (CHR ''-'') n))"

text \<open>
  \<open>check_worker_exceptions\<close> from position \<open>pos\<close> on: the value returned so far and the list; \<open>fresh\<close>
  numbers the processes that are started. An exception leaves the list as it is then.
\<close>

function check_workers_from ::
  "bool \<Rightarrow> string \<Rightarrow> target option \<Rightarrow> nat \<Rightarrow> nat \<Rightarrow> bool \<Rightarrow> process list \<Rightarrow> bool result \<times> process list" where
  "check_workers_from throw lbl f pos fresh r ps =
     (if pos \<ge> length ps then (Inr r, ps)
      else let p = ps ! pos in
        if pr_exception p = None then check_workers_from throw lbl f (Suc pos) fresh r ps
        else let ps1 = remove1 p ps in
          if throw then check_workers_from throw lbl f (Suc pos) fresh True ps1
          else (case f of
              None \<Rightarrow> check_workers_from throw lbl f (Suc pos) fresh r ps1
            | Some fn \<Rightarrow> (case index_of_name (pr_name p) of
                Inl e \<Rightarrow> (Inl e, ps1)
              | Inr process_index \<Rightarrow>
                  check_workers_from throw lbl f (Suc pos) (Suc fresh) r (ps1 @ [start_single_worker fresh (Some process_index) lbl fn]))))"
  by pat_completeness auto
termination
  by (relation "measure (\<lambda>(throw, lbl, f, pos, fresh, r, ps). length ps - pos)") (auto simp: length_remove1)

declare check_workers_from.simps [simp del]

definition check_worker_exceptions ::
  "bool \<Rightarrow> nat \<Rightarrow> process list \<Rightarrow> string \<Rightarrow> target option \<Rightarrow> bool result \<times> process list" where
  "check_worker_exceptions throw fresh ps lbl f = check_workers_from throw lbl f 0 fresh False ps"

definition new_worker_was_started :: "process \<Rightarrow> process \<Rightarrow> bool" where
  "new_worker_was_started new_process old_process = (new_process \<noteq> old_process)"

text \<open>\<open>stop_process\<close>: a process that has not ended within the timeout is killed.\<close>

definition stop_process :: "real \<Rightarrow> real option \<Rightarrow> bool" where
  "stop_process timeout ends_after = (case ends_after of None \<Rightarrow> True | Some t \<Rightarrow> t > timeout)"

section \<open>The services\<close>

definition unpacking_check_exceptions ::
  "bool \<Rightarrow> nat \<Rightarrow> process list \<Rightarrow> process \<Rightarrow> (bool \<times> process list \<times> process) result" where
  "unpacking_check_exceptions throw fresh workers work_load_process =
     (case check_worker_exceptions throw fresh workers ''Unpacking'' (Some UnpackWorker) of
        (Inl e, _) \<Rightarrow> Inl e
      | (Inr shutdown, workers1) \<Rightarrow>
          (case check_worker_exceptions throw (fresh + length workers) [work_load_process] ''unpack-load'' (Some WorkLoadMonitor) of
             (Inl e, _) \<Rightarrow> Inl e
           | (Inr shutdown2, l) \<Rightarrow> (case l of
                 [] \<Rightarrow> Inl IndexError
               | new_process # _ \<Rightarrow> Inr (shutdown \<or> shutdown2, workers1,
                   if new_worker_was_started new_process work_load_process then last l else work_load_process))))"

definition comparison_check_exceptions :: "bool \<Rightarrow> nat \<Rightarrow> process \<Rightarrow> (bool \<times> process) result" where
  "comparison_check_exceptions throw fresh w =
     (case check_worker_exceptions throw fresh [w] ''Compare'' (Some ComparisonMain) of
        (Inl e, _) \<Rightarrow> Inl e
      | (Inr shutdown, l) \<Rightarrow>
          if shutdown then Inr (True, w)
          else (case l of
              [] \<Rightarrow> Inl IndexError
            | new_process # _ \<Rightarrow> Inr (False, if new_worker_was_started new_process w then last l else w)))"

fun plugins_check_exceptions :: "bool \<Rightarrow> nat \<Rightarrow> process list list \<Rightarrow> bool result \<times> process list list" where
  "plugins_check_exceptions throw fresh [] = (Inr False, [])"
| "plugins_check_exceptions throw fresh (ws # wss) =
     (case check_worker_exceptions throw fresh ws ''Analysis'' (Some AnalysisWorker) of
        (Inl e, ws1) \<Rightarrow> (Inl e, ws1 # wss)
      | (Inr True, ws1) \<Rightarrow> (Inr True, ws1 # wss)
      | (Inr False, ws1) \<Rightarrow> (case plugins_check_exceptions throw (fresh + length ws) wss of (r, wss1) \<Rightarrow> (r, ws1 # wss1)))"

text \<open>The two processes of the scheduler are checked in a new list, without a function to restart.\<close>

definition analysis_check_exceptions :: "bool \<Rightarrow> nat \<Rightarrow> process list list \<Rightarrow> process list \<Rightarrow> bool result \<times> process list list" where
  "analysis_check_exceptions throw fresh plugin_workers scheduler_processes =
     (case plugins_check_exceptions throw fresh plugin_workers of
        (Inr False, wss) \<Rightarrow> (fst (check_worker_exceptions throw fresh scheduler_processes ''Scheduler'' None), wss)
      | (r, wss) \<Rightarrow> (r, wss))"

section \<open>Failed workers are restarted\<close>

definition failed :: "process list \<Rightarrow> nat" where
  "failed ps = length (filter (\<lambda>p. pr_exception p \<noteq> None) ps)"

definition restartable :: "string \<Rightarrow> target \<Rightarrow> process list \<Rightarrow> bool" where
  "restartable lbl f ps \<longleftrightarrow> (\<forall>p \<in> set ps. \<exists>n. pr_name p = lbl @ ''-Worker-'' @ str_nat n \<and> pr_target p = f)"

lemma split_on_last: "c \<notin> set t \<Longrightarrow> last (split_on c (s @ c # t)) = t"
  by (simp add: split_on_sep split_on_notin)

lemma index_of_worker_name: "index_of_name (lbl @ ''-Worker-'' @ str_nat n) = Inr n"
proof -
  have d: "\<forall>c \<in> set (digits_of n). is_digit c" by (rule digits_of_digits)
  then have "CHR ''-'' \<notin> set (digits_of n)" by (auto simp: is_digit_def)
  from split_on_last[OF this, of "lbl @ ''-Worker''"] d show ?thesis
    by (simp add: index_of_name_def parse_int_def str_nat_def digits_value)
qed

lemma start_single_worker_restartable:
  "takes_index f \<Longrightarrow> restartable lbl f [start_single_worker i (Some n) lbl f] \<and> pr_exception (start_single_worker i (Some n) lbl f) = None"
  by (auto simp: restartable_def start_single_worker_def start_process_def str_index_def)

lemma failed_simps [simp]: "failed [] = 0" "failed (p # ps) = (if pr_exception p = None then 0 else 1) + failed ps"
  "failed (ps @ qs) = failed ps + failed qs"
  by (simp_all add: failed_def)

lemma failed_remove1: "p \<in> set ps \<Longrightarrow> failed ps = (if pr_exception p = None then 0 else 1) + failed (remove1 p ps)"
  by (induction ps) auto

lemma failed_0_iff: "failed ps = 0 \<longleftrightarrow> (\<forall>p \<in> set ps. pr_exception p = None)"
  by (induction ps) auto

lemma restartable_append [simp]: "restartable lbl f (ps @ qs) \<longleftrightarrow> restartable lbl f ps \<and> restartable lbl f qs"
  by (auto simp: restartable_def)

lemma restartable_remove1: "restartable lbl f ps \<Longrightarrow> restartable lbl f (remove1 p ps)"
  by (auto simp: restartable_def dest: notin_set_remove1)

lemma check_workers_from_result:
  assumes "takes_index f" "restartable lbl f ps"
  shows "\<exists>ps'. check_workers_from False lbl (Some f) pos fresh r ps = (Inr r, ps') \<and> length ps' = length ps \<and>
    restartable lbl f ps' \<and> failed ps' \<le> failed ps \<and> (failed (drop pos ps) > 0 \<longrightarrow> failed ps' < failed ps)"
  using assms(2)
proof (induction "length ps - pos" arbitrary: pos fresh ps rule: less_induct)
  case less
  show ?case
  proof (cases "pos < length ps")
    case False
    then show ?thesis using less.prems by (subst check_workers_from.simps) simp
  next
    case True
    let ?p = "ps ! pos"
    have d: "drop pos ps = ?p # drop (Suc pos) ps" using True by (simp add: Cons_nth_drop_Suc)
    show ?thesis
    proof (cases "pr_exception ?p = None")
      case ok: True
      have "check_workers_from False lbl (Some f) pos fresh r ps = check_workers_from False lbl (Some f) (Suc pos) fresh r ps"
        using True ok by (subst check_workers_from.simps) (simp add: Let_def)
      then show ?thesis using less.hyps[of ps "Suc pos" fresh] less.prems True ok by (simp add: d)
    next
      case bad: False
      then obtain e where e: "pr_exception ?p = Some e" by auto
      from less.prems nth_mem[OF True] obtain n where n: "pr_name ?p = lbl @ ''-Worker-'' @ str_nat n" unfolding restartable_def by blast
      let ?ps = "remove1 ?p ps @ [start_single_worker fresh (Some n) lbl f]"
      have eq: "check_workers_from False lbl (Some f) pos fresh r ps = check_workers_from False lbl (Some f) (Suc pos) (Suc fresh) r ?ps"
        using True e n index_of_worker_name[of lbl n] by (subst check_workers_from.simps) (simp add: Let_def)
      have len: "length ?ps = length ps" using True length_remove1_mem[of ?p ps] by simp
      have new: "restartable lbl f ?ps" "failed ?ps < failed ps"
        using start_single_worker_restartable[OF assms(1), of lbl fresh n] less.prems restartable_remove1[of lbl f ps ?p]
          failed_remove1[of ?p ps] bad True by auto
      have "length ?ps - Suc pos < length ps - pos" using len True by linarith
      from less.hyps[OF this new(1), of "Suc fresh"] obtain ps' where
        "check_workers_from False lbl (Some f) (Suc pos) (Suc fresh) r ?ps = (Inr r, ps')" "length ps' = length ps"
        "restartable lbl f ps'" "failed ps' \<le> failed ?ps" unfolding len by blast
      then show ?thesis using eq new(2) by auto
    qed
  qed
qed

fun repeat_check :: "nat \<Rightarrow> string \<Rightarrow> target \<Rightarrow> nat list \<Rightarrow> process list \<Rightarrow> process list" where
  "repeat_check n lbl f [] ps = ps"
| "repeat_check n lbl f (fresh # fs) ps = repeat_check n lbl f fs (snd (check_worker_exceptions False fresh ps lbl (Some f)))"

text \<open>With \<open>throw_exceptions\<close> off, failed workers of a service whose function takes the worker
  index are started again: a check reports no shutdown, keeps the number of workers, and, although
  changing the list during the iteration can skip a failed worker in one round, after as many
  rounds as there are failed workers none is left.\<close>

theorem failed_workers_are_restarted:
  assumes "takes_index f" "restartable lbl f ps" "length rounds \<ge> failed ps"
  shows "fst (check_worker_exceptions False fresh ps lbl (Some f)) = Inr False \<and>
    length (repeat_check n lbl f rounds ps) = length ps \<and> failed (repeat_check n lbl f rounds ps) = 0"
proof -
  have one: "\<exists>ps'. check_worker_exceptions False i qs lbl (Some f) = (Inr False, ps') \<and> length ps' = length qs \<and>
    restartable lbl f ps' \<and> (failed ps' = 0 \<or> failed ps' < failed qs)" if "restartable lbl f qs" for i qs
    using check_workers_from_result[OF assms(1) that, of 0 i False] unfolding check_worker_exceptions_def drop_0
    by (metis le_zero_eq neq0_conv)
  have "length (repeat_check n lbl f rounds ps) = length ps \<and> failed (repeat_check n lbl f rounds ps) = 0"
    using assms(2,3)
  proof (induction rounds arbitrary: ps)
    case (Cons i rounds)
    from one[OF Cons.prems(1), of i] obtain ps' where
      "check_worker_exceptions False i ps lbl (Some f) = (Inr False, ps')" "length ps' = length ps"
      "restartable lbl f ps'" "failed ps' = 0 \<or> failed ps' < failed ps" by blast
    then show ?case using Cons.IH[of ps'] Cons.prems(2) by auto
  qed simp
  moreover obtain ps' where "check_worker_exceptions False fresh ps lbl (Some f) = (Inr False, ps')"
    using one[OF assms(2)] by blast
  ultimately show ?thesis by simp
qed

definition ex_workers :: "process list" where
  "ex_workers = map (\<lambda>n. (start_single_worker n (Some n) ''Unpacking'' UnpackWorker)\<lparr>pr_exception := if n < 2 then Some ''x'' else None\<rparr>) [0, 1, 2]"

theorem failed_workers_are_restarted_witness:
  "failed ex_workers = 2 \<and> failed (snd (check_worker_exceptions False 7 ex_workers ''Unpacking'' (Some UnpackWorker))) = 1 \<and>
   failed (repeat_check 0 ''Unpacking'' UnpackWorker [7, 8] ex_workers) = 0"
proof -
  have "restartable ''Unpacking'' UnpackWorker ex_workers"
    by (auto simp: restartable_def ex_workers_def start_single_worker_def start_process_def str_index_def)
  moreover have f: "failed ex_workers = 2" by code_simp
  moreover have "failed (snd (check_worker_exceptions False 7 ex_workers ''Unpacking'' (Some UnpackWorker))) = 1" by code_simp
  ultimately show ?thesis using failed_workers_are_restarted[of UnpackWorker "''Unpacking''" ex_workers "[7, 8]" 0 0] by simp
qed

section \<open>Workers without an index are not\<close>

text \<open>A forced repetition ends the comparison service for good: the worker raises
  AttributeError before the comparison is deleted or computed, and the process started in its
  place is called with a worker index its function does not take, so it fails at once, and so does
  every later one; no check asks for a shutdown.\<close>

theorem redo_ends_comparison_service:
  assumes "cs_queue s = (cid, True) # rest" "pr_name w = ''ExceptionSafeProcess-'' @ str_nat k" "pr_exception w = Some tr"
    "pr_target w = ComparisonMain"
  shows "compare_single_run E F ps now s = Raised AttributeError (s\<lparr>cs_queue := rest\<rparr>) \<and>
    (\<exists>w1. comparison_check_exceptions False i w = Inr (False, w1) \<and> pr_exception w1 = Some ''TypeError'' \<and>
      (\<forall>j. \<exists>w2. comparison_check_exceptions False j w1 = Inr (False, w2) \<and> pr_exception w2 = Some ''TypeError''))"
proof -
  have idx: "index_of_name (''ExceptionSafeProcess-'' @ str_nat k) = Inr k"
  proof -
    have d: "\<forall>c \<in> set (digits_of k). is_digit c" by (rule digits_of_digits)
    then have "CHR ''-'' \<notin> set (digits_of k)" by (auto simp: is_digit_def)
    from split_on_last[OF this, of "''ExceptionSafeProcess''"] d show ?thesis
      by (simp add: index_of_name_def parse_int_def str_nat_def digits_value)
  qed
  have check: "\<exists>w2. comparison_check_exceptions False j v = Inr (False, w2) \<and> pr_exception w2 = Some ''TypeError'' \<and>
    pr_name w2 = ''Compare-Worker-'' @ str_nat n"
    if "pr_exception v = Some t" "index_of_name (pr_name v) = Inr n" for v j n t
  proof -
    let ?w = "start_single_worker j (Some n) ''Compare'' ComparisonMain"
    have "check_workers_from False ''Compare'' (Some ComparisonMain) 0 j False [v] = (Inr False, [?w])"
      using that by (simp add: check_workers_from.simps)
    then have "comparison_check_exceptions False j v = Inr (False, if new_worker_was_started ?w v then ?w else v)"
      by (simp add: comparison_check_exceptions_def check_worker_exceptions_def)
    then show ?thesis by (auto simp: new_worker_was_started_def start_single_worker_def start_process_def str_index_def)
  qed
  have "compare_single_run E F ps now s = Raised AttributeError (s\<lparr>cs_queue := rest\<rparr>)"
    using assms(1) by (simp add: compare_single_run_def comparison_should_start_def)
  moreover from check[of w tr k i] assms(2,3) idx obtain w1 where
    w1: "comparison_check_exceptions False i w = Inr (False, w1)" "pr_exception w1 = Some ''TypeError''" "pr_name w1 = ''Compare-Worker-'' @ str_nat k"
    by auto
  moreover have "\<exists>w2. comparison_check_exceptions False j w1 = Inr (False, w2) \<and> pr_exception w2 = Some ''TypeError''" for j
    using check[of w1 "''TypeError''" k j] w1(2,3) index_of_worker_name[of "''Compare''" k] by auto
  ultimately show ?thesis by blast
qed

theorem redo_ends_comparison_service_witness:
  "\<exists>w1. compare_single_run ex_store_env ex_ops [] 0 \<lparr>cs_queue = [(''a;b'', True)], cs_done = [], cs_db = empty_db, cs_files = Map.empty\<rparr> =
      Raised AttributeError \<lparr>cs_queue = [], cs_done = [], cs_db = empty_db, cs_files = Map.empty\<rparr> \<and>
    comparison_check_exceptions False 9 \<lparr>pr_id = 0, pr_name = ''ExceptionSafeProcess-'' @ str_nat 3, pr_target = ComparisonMain,
      pr_args = [], pr_exception = Some ''trace''\<rparr> = Inr (False, w1) \<and> pr_exception w1 = Some ''TypeError''"
  using redo_ends_comparison_service[of "\<lparr>cs_queue = [(''a;b'', True)], cs_done = [], cs_db = empty_db, cs_files = Map.empty\<rparr>" "''a;b''" "[]"
     "\<lparr>pr_id = 0, pr_name = ''ExceptionSafeProcess-'' @ str_nat 3, pr_target = ComparisonMain, pr_args = [], pr_exception = Some ''trace''\<rparr>"
     3 "''trace''" ex_store_env ex_ops "[]" 0 9] by auto

text \<open>The load monitor is started without an index: its name cannot be parsed, and the check itself
  raises.\<close>

lemma load_monitor_restart_raises:
  assumes "pr_exception m = Some tr" "pr_name m = ''unpack-load-Worker-'' @ str_index None"
  shows "unpacking_check_exceptions False fresh [] m = Inl ValueError"
proof -
  have "index_of_name (pr_name m) = Inl ValueError" unfolding assms(2) by code_simp
  with assms(1) show ?thesis
    by (simp add: unpacking_check_exceptions_def check_worker_exceptions_def check_workers_from.simps)
qed

end
