(* ===== verification/Intercom.thy ===== *)
theory Intercom
  imports Unpacking Comparison Redis
begin

text \<open>
  \<open>intercom/\<close>: the messages between the front end and the back end. The front end puts tasks
  into Redis queues and polls for responses under a request id; a listener of the back end takes
  one task, does its post-processing (store, load, delete a file, or answer a request) and hands
  it to the service in charge. Pickling, diffing, tar and YARA are parameters.
\<close>

section \<open>Messages\<close>

datatype task =
    TFirmware file_object
  | TCompare string bool
  | TUids "string list"
  | TUid string
  | TUidPair string string
  | TPeek string int int
  | TSearch bytes "string option"
  | TLogs

datatype response =
    RespFile "bytes option" "string option"
  | RespDiff "string option"
  | RespBytes bytes
  | RespSearch "((string, string list) dict + string)" task
  | RespLogs "string list"
  | RespPlugins "(string, plugin_dict_entry) dict"

datatype message = MTask task "string option" | MResponse response

datatype listener =
    AnalysisTask | ReAnalyzeTask | UpdateTask | SingleFileTask | CompareTask | RawDownloadTask | FileDiffTask
  | PeekBinaryTask | TarRepackTask | BinarySearchTask | DeleteFile | LogsTask

fun connection_type :: "listener \<Rightarrow> string" where
  "connection_type AnalysisTask = ''analysis_task''"
| "connection_type ReAnalyzeTask = ''re_analyze_task''"
| "connection_type UpdateTask = ''update_task''"
| "connection_type SingleFileTask = ''single_file_task''"
| "connection_type CompareTask = ''compare_task''"
| "connection_type RawDownloadTask = ''raw_download_task''"
| "connection_type FileDiffTask = ''file_diff_task''"
| "connection_type PeekBinaryTask = ''binary_peek_task''"
| "connection_type TarRepackTask = ''tar_repack_task''"
| "connection_type BinarySearchTask = ''binary_search_task''"
| "connection_type DeleteFile = ''file_delete_task''"
| "connection_type LogsTask = ''logs_task''"

record net =
  n_csize :: nat
  n_rnd :: "nat \<Rightarrow> nat"
  n_dumps :: "message \<Rightarrow> bytes"
  n_loads :: "bytes \<Rightarrow> message"
  n_str_time :: "real \<Rightarrow> string"

type_synonym redis_state = "nat \<times> redis"

definition generate_task_id :: "net \<Rightarrow> (bytes \<Rightarrow> string) \<Rightarrow> real \<Rightarrow> bytes \<Rightarrow> string" where
  "generate_task_id N sha now serialized_data = sha serialized_data @ ''_'' @ n_str_time N now"

section \<open>The front end\<close>

definition add_to_redis_queue :: "net \<Rightarrow> string \<Rightarrow> task \<Rightarrow> string option \<Rightarrow> redis_state \<Rightarrow> redis_state option" where
  "add_to_redis_queue N key data task_id = queue_put (n_csize N) (n_rnd N) (n_dumps N) key (MTask data task_id)"

definition add_analysis_task :: "net \<Rightarrow> (bytes \<Rightarrow> string) \<Rightarrow> file_object \<Rightarrow> redis_state \<Rightarrow> redis_state option" where
  "add_analysis_task N sha fo = add_to_redis_queue N ''analysis_task'' (TFirmware fo) (get_uid sha fo)"

definition add_re_analyze_task :: "net \<Rightarrow> (bytes \<Rightarrow> string) \<Rightarrow> file_object \<Rightarrow> bool \<Rightarrow> redis_state \<Rightarrow> redis_state option" where
  "add_re_analyze_task N sha fo unpack_fw =
     add_to_redis_queue N (if unpack_fw then ''re_analyze_task'' else ''update_task'') (TFirmware fo) (get_uid sha fo)"

definition add_single_file_task :: "net \<Rightarrow> (bytes \<Rightarrow> string) \<Rightarrow> file_object \<Rightarrow> redis_state \<Rightarrow> redis_state option" where
  "add_single_file_task N sha fo = add_to_redis_queue N ''single_file_task'' (TFirmware fo) (get_uid sha fo)"

definition add_compare_task :: "net \<Rightarrow> string \<Rightarrow> bool \<Rightarrow> redis_state \<Rightarrow> redis_state option" where
  "add_compare_task N compare_id force = add_to_redis_queue N ''compare_task'' (TCompare compare_id force) (Some compare_id)"

definition delete_file_request :: "net \<Rightarrow> string list \<Rightarrow> redis_state \<Rightarrow> redis_state option" where
  "delete_file_request N uid_list = add_to_redis_queue N ''file_delete_task'' (TUids uid_list) None"

text \<open>No published plugins is an exception (its class is \<open>Exception\<close>).\<close>

definition get_available_analysis_plugins :: "net \<Rightarrow> redis \<Rightarrow> message result \<times> redis" where
  "get_available_analysis_plugins N st = (case redis_load (n_loads N) ''analysis_plugins'' False st of
      (Inr None, st1) \<Rightarrow> (Inl GenericException, st1)
    | (Inr (Some plugin_dict), st1) \<Rightarrow> (Inr plugin_dict, st1)
    | (Inl e, st1) \<Rightarrow> (Inl e, st1))"

text \<open>
  \<open>_response_listener\<close>: \<open>clock i\<close> is the time at the \<open>i\<close>-th test of the loop and \<open>other i\<close> what
  the rest of the system does to the store before the \<open>i\<close>-th read. A clock that never passes the
  timeout makes it wait for ever.
\<close>

fun resp_truthy :: "message \<Rightarrow> bool" where
  "resp_truthy (MResponse (RespDiff None)) = False"
| "resp_truthy (MResponse (RespDiff (Some s))) = (s \<noteq> [])"
| "resp_truthy (MResponse (RespBytes b)) = (b \<noteq> [])"
| "resp_truthy (MResponse (RespLogs l)) = (l \<noteq> [])"
| "resp_truthy (MResponse (RespPlugins d)) = (d \<noteq> [])"
| "resp_truthy _ = True"

partial_function (option) response_listener ::
  "net \<Rightarrow> (nat \<Rightarrow> real) \<Rightarrow> (nat \<Rightarrow> redis \<Rightarrow> redis) \<Rightarrow> real \<Rightarrow> string \<Rightarrow> nat \<Rightarrow> message option result \<Rightarrow> redis \<Rightarrow>
   (message option result \<times> redis) option" where
  "response_listener N clock other timeout request_id i output_data st =
     (if timeout > clock i then
        (case redis_load (n_loads N) request_id True (other i st) of
           (Inl e, st1) \<Rightarrow> Some (Inl e, st1)
         | (Inr (Some m), st1) \<Rightarrow>
             if resp_truthy m then Some (Inr (Some m), st1)
             else response_listener N clock other timeout request_id (Suc i) (Inr (Some m)) st1
         | (Inr None, st1) \<Rightarrow> response_listener N clock other timeout request_id (Suc i) (Inr None) st1)
      else Some (output_data, st))"

declare response_listener.simps [code]

definition request_response_listener ::
  "net \<Rightarrow> (bytes \<Rightarrow> string) \<Rightarrow> (nat \<Rightarrow> real) \<Rightarrow> (nat \<Rightarrow> redis \<Rightarrow> redis) \<Rightarrow> real \<Rightarrow> real \<Rightarrow> task \<Rightarrow> bytes \<Rightarrow> string \<Rightarrow>
   redis_state \<Rightarrow> (message option result \<times> nat \<times> redis) option" where
  "request_response_listener N sha clock other now communication_timeout input_data serialized request_connection st =
     (let request_id = generate_task_id N sha now serialized in
      Option.bind (add_to_redis_queue N request_connection input_data (Some request_id) st) (\<lambda>(n1, st1).
      map_option (\<lambda>(r, st2). (r, n1, st2))
        (response_listener N clock other (now + communication_timeout) request_id 0 (Inr None) st1)))"

text \<open>The requests, and the search whose response is fetched later with a timeout of 10 s.\<close>

definition request_of :: "task \<Rightarrow> string" where
  "request_of t = (case t of
      TUid _ \<Rightarrow> ''raw_download_task'' | TUidPair _ _ \<Rightarrow> ''file_diff_task'' | TPeek _ _ _ \<Rightarrow> ''binary_peek_task''
    | TLogs \<Rightarrow> ''logs_task'' | _ \<Rightarrow> [])"

definition get_repacked_request :: string where
  "get_repacked_request = ''tar_repack_task''"

definition add_binary_search_request ::
  "net \<Rightarrow> (bytes \<Rightarrow> string) \<Rightarrow> real \<Rightarrow> bytes \<Rightarrow> string option \<Rightarrow> bytes \<Rightarrow> redis_state \<Rightarrow> (string \<times> redis_state) option" where
  "add_binary_search_request N sha now yara_rule_binary firmware_uid serialized st =
     (let request_id = generate_task_id N sha now serialized in
      map_option (Pair request_id)
        (add_to_redis_queue N ''binary_search_task'' (TSearch yara_rule_binary firmware_uid) (Some request_id) st))"

definition poll_binary_search_result ::
  "net \<Rightarrow> (nat \<Rightarrow> real) \<Rightarrow> (nat \<Rightarrow> redis \<Rightarrow> redis) \<Rightarrow> real \<Rightarrow> string \<Rightarrow> redis \<Rightarrow> (message option result \<times> redis) option" where
  "poll_binary_search_result N clock other now request_id st =
     response_listener N clock other (now + 10) request_id 0 (Inr None) st"

section \<open>The back end\<close>

record binding =
  b_net :: net
  b_env :: env
  b_ops :: file_ops
  b_diff :: "bytes \<Rightarrow> bytes \<Rightarrow> string \<Rightarrow> string \<Rightarrow> string"
  b_tar_repack :: "string \<Rightarrow> bytes"
  b_compile_rules :: "bytes \<Rightarrow> string option result"
  b_yara :: "bytes \<Rightarrow> string option \<Rightarrow> string"
  b_log_lines :: "string list option"

record backend =
  bk_rng :: nat
  bk_redis :: redis
  bk_files :: fs
  bk_sched :: sched
  bk_unpack_queue :: "file_object list"
  bk_compare_queue :: "(string \<times> bool) list"

definition entry_was_removed_from_db :: "db \<Rightarrow> (uid, nat) dict option \<Rightarrow> string \<Rightarrow> bool" where
  "entry_was_removed_from_db d locks u =
     (if exists_obj d (Some u) then False
      else case locks of
          None \<Rightarrow> True
        | Some l \<Rightarrow> \<not> unpacking_lock_is_set (Some u) l)"

definition delete_file_task :: "env \<Rightarrow> file_ops \<Rightarrow> db \<Rightarrow> (uid, nat) dict option \<Rightarrow> string list \<Rightarrow> fs \<Rightarrow> fs" where
  "delete_file_task E F d locks uids files =
     fold (\<lambda>u files. if entry_was_removed_from_db d locks u then delete_stored_file E F u files else files) uids files"

definition get_file_diff_response :: "binding \<Rightarrow> db \<Rightarrow> fs \<Rightarrow> string \<Rightarrow> string \<Rightarrow> string option" where
  "get_file_diff_response B d files uid1 uid2 =
     (case (get_binary_and_file_name (b_env B) (b_ops B) d files uid1, get_binary_and_file_name (b_env B) (b_ops B) d files uid2) of
        ((Some content_1, Some name_1), (Some content_2, Some name_2)) \<Rightarrow> Some (b_diff B content_1 content_2 name_1 name_2)
      | _ \<Rightarrow> None)"

definition get_logs_response :: "string list option \<Rightarrow> string list" where
  "get_logs_response log_lines = (case log_lines of None \<Rightarrow> [] | Some ls \<Rightarrow> drop (length ls - 100) ls)"

text \<open>A re-analysis reads the stored file; \<open>create_binary_from_path\<close> keeps a binary it has.\<close>

definition re_analyze_post_processing :: "env \<Rightarrow> file_ops \<Rightarrow> fs \<Rightarrow> file_object \<Rightarrow> file_object result" where
  "re_analyze_post_processing E F files fo = map_r (\<lambda>p.
     create_binary_from_path (e_sha E) (e_md5 E) (\<lambda>q. get_binary_from_file F q files) (fo\<lparr>file_path := Some p\<rparr>))
     (generate_path E fo)"

text \<open>The responses; \<open>None\<close> for a task the listener cannot unpack.\<close>

definition get_response :: "binding \<Rightarrow> listener \<Rightarrow> backend \<Rightarrow> task \<Rightarrow> response result option" where
  "get_response B l s t =
     (let E = b_env B; F = b_ops B; d = database (bk_sched s); files = bk_files s in
      case (l, t) of
        (RawDownloadTask, TUid u) \<Rightarrow> Some (Inr (case get_binary_and_file_name E F d files u of (b, n) \<Rightarrow> RespFile b n))
      | (FileDiffTask, TUidPair u v) \<Rightarrow> Some (Inr (RespDiff (get_file_diff_response B d files u v)))
      | (PeekBinaryTask, TPeek u off len) \<Rightarrow> Some (map_r RespBytes (read_partial_binary E d files u off len))
      | (TarRepackTask, TUid u) \<Rightarrow>
          Some (Inr (case get_repacked_binary_and_file_name E (b_tar_repack B) d u of (b, n) \<Rightarrow> RespFile b n))
      | (BinarySearchTask, TSearch rules fw_uid) \<Rightarrow>
          Some (map_r (\<lambda>r. RespSearch r t) (get_binary_search_result E (b_compile_rules B) (b_yara B) d (rules, fw_uid)))
      | (LogsTask, _) \<Rightarrow> Some (Inr (RespLogs (get_logs_response (b_log_lines B))))
      | _ \<Rightarrow> None)"

text \<open>
  \<open>post_processing\<close> of every listener: the task afterwards and the state. Setting a response ends
  when a free chunk key is found (\<open>Blocked\<close> otherwise).
\<close>

definition responder_post_processing :: "binding \<Rightarrow> listener \<Rightarrow> task \<Rightarrow> string option \<Rightarrow> backend \<Rightarrow> backend outcome" where
  "responder_post_processing B l t task_id s = (case get_response B l s t of
      None \<Rightarrow> Raised TypeError s
    | Some (Inl e) \<Rightarrow> Raised e s
    | Some (Inr r) \<Rightarrow>
        (let N = b_net B in
         case redis_store (n_csize N) (n_rnd N) (n_dumps N) (fstr task_id) (MResponse r) (bk_rng s, bk_redis s) of
           None \<Rightarrow> Blocked
         | Some (n, st) \<Rightarrow> Done (s\<lparr>bk_rng := n, bk_redis := st\<rparr>)))"

definition post_processing :: "binding \<Rightarrow> listener \<Rightarrow> task \<Rightarrow> string option \<Rightarrow> backend \<Rightarrow> (task \<times> backend) outcome" where
  "post_processing B l t task_id s =
     (case (l, t) of
        (AnalysisTask, TFirmware fo) \<Rightarrow> (case store_file (b_env B) (b_ops B) fo (bk_files s) of
            Inl e \<Rightarrow> Raised e (t, s)
          | Inr (fo1, files) \<Rightarrow> Done (TFirmware fo1, s\<lparr>bk_files := files\<rparr>))
      | (DeleteFile, TUids uids) \<Rightarrow>
          Done (t, s\<lparr>bk_files := delete_file_task (b_env B) (b_ops B) (database (bk_sched s))
            (Some (unpacking_locks (bk_sched s))) uids (bk_files s)\<rparr>)
      | (CompareTask, _) \<Rightarrow> Done (t, s)
      | (_, TFirmware fo) \<Rightarrow>
          if l \<in> {ReAnalyzeTask, UpdateTask, SingleFileTask} then
            (case re_analyze_post_processing (b_env B) (b_ops B) (bk_files s) fo of
               Inl e \<Rightarrow> Raised e (t, s)
             | Inr fo1 \<Rightarrow> Done (TFirmware fo1, s))
          else Raised AttributeError (t, s)
      | _ \<Rightarrow> (case responder_post_processing B l t task_id s of
            Done s1 \<Rightarrow> Done (t, s1)
          | Raised e s1 \<Rightarrow> Raised e (t, s1)
          | Blocked \<Rightarrow> Blocked))"

text \<open>
  \<open>get_next_task\<close>: a message that cannot be combined (a missing chunk) raises \<open>TypeError\<close>; an
  object that is no pair cannot be unpacked.
\<close>

definition get_next_task :: "binding \<Rightarrow> listener \<Rightarrow> backend \<Rightarrow> (task option \<times> backend) outcome" where
  "get_next_task B l s =
     (let (r, st) = queue_get (n_loads (b_net B)) (connection_type l) (bk_redis s); s1 = s\<lparr>bk_redis := st\<rparr> in
      case r of
        Inl e \<Rightarrow> Raised e (None, s1)
      | Inr None \<Rightarrow> Done (None, s1)
      | Inr (Some (MResponse _)) \<Rightarrow> Raised TypeError (None, s1)
      | Inr (Some (MTask t task_id)) \<Rightarrow> (case post_processing B l t task_id s1 of
            Done (t1, s2) \<Rightarrow> Done (Some t1, s2)
          | Raised e (t1, s2) \<Rightarrow> Raised e (None, s2)
          | Blocked \<Rightarrow> Blocked))"

text \<open>\<open>do_after_function\<close> as set up by \<open>start_listeners\<close>.\<close>

definition do_after :: "binding \<Rightarrow> (nat \<Rightarrow> nat \<Rightarrow> nat) \<Rightarrow> real \<Rightarrow> listener \<Rightarrow> task \<Rightarrow> backend \<Rightarrow> backend outcome" where
  "do_after B rnd now l t s =
     (let on_sched = (\<lambda>f. case f (bk_sched s) of
          Done s1 \<Rightarrow> Done (s\<lparr>bk_sched := s1\<rparr>) | Raised e s1 \<Rightarrow> Raised e (s\<lparr>bk_sched := s1\<rparr>) | Blocked \<Rightarrow> Blocked) in
      case (l, t) of
        (AnalysisTask, TFirmware fo) \<Rightarrow> Done (s\<lparr>bk_unpack_queue := bk_unpack_queue s @ [fo]\<rparr>)
      | (ReAnalyzeTask, TFirmware fo) \<Rightarrow> Done (s\<lparr>bk_unpack_queue := bk_unpack_queue s @ [fo]\<rparr>)
      | (CompareTask, TCompare cid force) \<Rightarrow>
          Done (if objects_exist (database (bk_sched s)) cid then s\<lparr>bk_compare_queue := bk_compare_queue s @ [(cid, force)]\<rparr> else s)
      | (UpdateTask, TFirmware fo) \<Rightarrow> on_sched (update_analysis_of_object_and_children (b_env B) rnd now fo)
      | (SingleFileTask, TFirmware fo) \<Rightarrow> on_sched (update_analysis_of_single_object (b_env B) rnd now fo)
      | _ \<Rightarrow> Done s)"

definition backend_worker :: "binding \<Rightarrow> (nat \<Rightarrow> nat \<Rightarrow> nat) \<Rightarrow> real \<Rightarrow> listener \<Rightarrow> backend \<Rightarrow> backend outcome" where
  "backend_worker B rnd now l s = (case get_next_task B l s of
      Done (None, s1) \<Rightarrow> Done s1
    | Done (Some t, s1) \<Rightarrow> do_after B rnd now l t s1
    | Raised e (_, s1) \<Rightarrow> Raised e s1
    | Blocked \<Rightarrow> Blocked)"

definition publish_available_analysis_plugins :: "binding \<Rightarrow> backend \<Rightarrow> backend outcome" where
  "publish_available_analysis_plugins B s = (case get_plugin_dict (b_env B) (bk_sched s) of
      Inl e \<Rightarrow> Raised e s
    | Inr d \<Rightarrow> (let N = b_net B in
        case redis_store (n_csize N) (n_rnd N) (n_dumps N) ''analysis_plugins'' (MResponse (RespPlugins d)) (bk_rng s, bk_redis s) of
          None \<Rightarrow> Blocked
        | Some (n, st) \<Rightarrow> Done (s\<lparr>bk_rng := n, bk_redis := st\<rparr>)))"

section \<open>Deletion requests\<close>

lemma delete_file_task_result:
  assumes "file_ops_ok F"
  shows "delete_file_task E F d locks uids files (generate_path_from_uid (e_storage E) v) =
    (if v \<in> set uids \<and> entry_was_removed_from_db d locks v then None else files (generate_path_from_uid (e_storage E) v))"
  unfolding delete_file_task_def
  by (induction uids arbitrary: files) (auto simp: delete_stored_file_other[OF assms])

text \<open>The message survives pickling and does not look like a list of chunks.\<close>

definition net_ok :: "net \<Rightarrow> message \<Rightarrow> bool" where
  "net_ok N m \<longleftrightarrow> 0 < n_csize N \<and> n_loads N (n_dumps N m) = m \<and> \<not> prefix (encode CHUNK_MAGIC) (n_dumps N m)"

text \<open>The front end's request is what the back end takes from an empty queue.\<close>

lemma queued_task_is_next:
  assumes "net_ok N (MTask t i)" "queue_ok key st" "queue_items key st = []" "add_to_redis_queue N key t i (n, st) = Some (n1, st1)"
  shows "fst (queue_get (n_loads N) key st1) = Inr (Some (MTask t i))"
proof -
  have "queue_abs (n_loads N) key st1 = queue_abs (n_loads N) key st @ [Inr (Some (MTask t i))]" "queue_ok key st1"
    using queue_put_step[where loads = "n_loads N" and dumps = "n_dumps N" and v = "MTask t i"] assms
    by (auto simp: add_to_redis_queue_def net_ok_def)
  moreover have "queue_abs (n_loads N) key st = []" using assms(3) by (simp add: queue_abs_def)
  ultimately have q: "queue_ok key st1" "map (item_value (n_loads N) st1) (queue_items key st1) = [Inr (Some (MTask t i))]"
    by (simp_all add: queue_abs_def)
  then obtain b where "queue_items key st1 = [b]" "item_value (n_loads N) st1 b = Inr (Some (MTask t i))" by auto
  with queue_get_step(1)[OF q(1), where loads = "n_loads N"] show ?thesis by simp
qed

lemma delete_request_served:
  assumes "net_ok (b_net B) (MTask (TUids uids) None)" "file_ops_ok (b_ops B)" "queue_ok ''file_delete_task'' st" "queue_items ''file_delete_task'' st = []"
    "delete_file_request (b_net B) uids (n, st) = Some (n1, bk_redis s)"
  shows "\<exists>s'. backend_worker B rnd now DeleteFile s = Done s' \<and> bk_sched s' = bk_sched s \<and>
    (\<forall>v. bk_files s' (generate_path_from_uid (e_storage (b_env B)) v) =
      (if v \<in> set uids \<and> entry_was_removed_from_db (database (bk_sched s)) (Some (unpacking_locks (bk_sched s))) v then None
       else bk_files s (generate_path_from_uid (e_storage (b_env B)) v)))"
proof -
  from queued_task_is_next[OF assms(1,3,4) assms(5)[unfolded delete_file_request_def]] obtain st' where
    "queue_get (n_loads (b_net B)) (connection_type DeleteFile) (bk_redis s) = (Inr (Some (MTask (TUids uids) None)), st')"
    by (cases "queue_get (n_loads (b_net B)) ''file_delete_task'' (bk_redis s)") auto
  then have "backend_worker B rnd now DeleteFile s = Done (s\<lparr>bk_redis := st',
      bk_files := delete_file_task (b_env B) (b_ops B) (database (bk_sched s)) (Some (unpacking_locks (bk_sched s))) uids (bk_files s)\<rparr>)"
    by (simp add: backend_worker_def get_next_task_def post_processing_def do_after_def)
  then show ?thesis by (simp add: delete_file_task_result[OF assms(2)])
qed

text \<open>The back end deletes exactly the requested files that are gone: when the front end sends a
  deletion request over Redis, the listener that takes it removes, of the requested UIDs, those
  whose database entry no longer exists and that are not being unpacked; every other stored file
  keeps its content, even if the entry reappeared after the request was sent.\<close>

theorem delete_request_keeps_live_files:
  assumes "net_ok (b_net B) (MTask (TUids uids) None)" "file_ops_ok (b_ops B)" "queue_ok ''file_delete_task'' st" "queue_items ''file_delete_task'' st = []"
    "delete_file_request (b_net B) uids (n, st) = Some (n1, bk_redis s)"
  shows "\<exists>s'. backend_worker B rnd now DeleteFile s = Done s' \<and>
    (\<forall>v. bk_files s' (generate_path_from_uid (e_storage (b_env B)) v) =
      (if v \<in> set uids \<and> \<not> exists_obj (database (bk_sched s)) (Some v) \<and> \<not> unpacking_lock_is_set (Some v) (unpacking_locks (bk_sched s))
       then None else bk_files s (generate_path_from_uid (e_storage (b_env B)) v)))"
  using delete_request_served[OF assms, of rnd now] by (auto simp: entry_was_removed_from_db_def)

text \<open>Every stored object has its file.\<close>

definition storage_complete :: "env \<Rightarrow> db \<Rightarrow> fs \<Rightarrow> bool" where
  "storage_complete E d files \<longleftrightarrow>
     (\<forall>u. dmem (Some u) (file_tbl d) \<longrightarrow> files (generate_path_from_uid (e_storage E) u) \<noteq> None)"


section \<open>Responses\<close>

lemma redis_load_absent:
  assumes "\<not> redis_exists k st" shows "redis_load loads k True st = (Inr None, st)"
proof -
  have "ddel k (r_strings st) = r_strings st" "ddel k (r_lists st) = r_lists st"
    using assms by (auto simp: redis_exists_def dmem_iff dkeys_def AList.delete_id)
  then show ?thesis using assms
    by (auto simp: redis_load_def redis_pop_def combine_if_split_def redis_exists_def dmem_def)
qed

text \<open>While the key stays absent the front end waits.\<close>

lemma response_listener_wait:
  assumes "\<not> redis_exists k st" "\<forall>j. i \<le> j \<and> j < n \<longrightarrow> clock j < timeout \<and> other j st = st" "i \<le> n"
  shows "response_listener N clock other timeout k i out st =
    response_listener N clock other timeout k n (if i = n then out else Inr None) st"
  using assms(2,3)
proof (induction "n - i" arbitrary: i out)
  case (Suc d)
  then have "response_listener N clock other timeout k i out st = response_listener N clock other timeout k (Suc i) (Inr None) st"
    using redis_load_absent[OF assms(1), of "n_loads N"] by (subst response_listener.simps) simp
  also have "\<dots> = response_listener N clock other timeout k n (Inr None) st"
    using Suc.hyps(1)[of "Suc i" "Inr None"] Suc.hyps(2) Suc.prems by auto
  finally show ?case using Suc.hyps(2) by auto
qed simp

text \<open>The response is stored before the \<open>i\<close>-th read, and nothing else touches the request id.\<close>

definition answered_at :: "net \<Rightarrow> (nat \<Rightarrow> real) \<Rightarrow> (nat \<Rightarrow> redis \<Rightarrow> redis) \<Rightarrow> real \<Rightarrow> string \<Rightarrow> nat \<Rightarrow> message \<Rightarrow> redis \<Rightarrow> bool" where
  "answered_at N clock other timeout k i m st \<longleftrightarrow>
     fair (n_rnd N) \<and> card (used_keys st) + chunk_count (n_csize N) (n_dumps N m) \<le> 10000 \<and> net_ok N m \<and>
     (\<forall>j. k \<noteq> chunk_key j) \<and> \<not> redis_exists k st \<and>
     (\<forall>j \<le> i. clock j < timeout) \<and> (\<forall>j st1. j \<noteq> i \<longrightarrow> other j st1 = st1) \<and>
     (\<exists>n n1. redis_store (n_csize N) (n_rnd N) (n_dumps N) k m (n, st) = Some (n1, other i st))"

lemma answered_at_load:
  assumes "answered_at N clock other timeout k i m st"
  shows "\<exists>st2. redis_load (n_loads N) k True (other i st) = (Inr (Some m), st2) \<and> \<not> redis_exists k st2 \<and>
    (\<forall>q. dget (r_strings st2) q = dget (r_strings st) q) \<and> (\<forall>q. dget (r_lists st2) q = dget (r_lists st) q)"
proof -
  from assms obtain n n1 where st: "redis_store (n_csize N) (n_rnd N) (n_dumps N) k m (n, st) = Some (n1, other i st)"
    by (auto simp: answered_at_def)
  have "\<exists>n1 st1 st2. redis_store (n_csize N) (n_rnd N) (n_dumps N) k m (n, st) = Some (n1, st1) \<and>
    redis_load (n_loads N) k True st1 = (Inr (Some m), st2) \<and>
    (\<forall>q. dget (r_strings st2) q = (if q = k then None else dget (r_strings st) q)) \<and>
    (\<forall>q. dget (r_lists st2) q = (if q = k then None else dget (r_lists st) q))"
    by (rule redis_store_load) (use assms in \<open>auto simp: answered_at_def net_ok_def\<close>)
  then obtain st2 where "redis_load (n_loads N) k True (other i st) = (Inr (Some m), st2)"
    "\<forall>q. dget (r_strings st2) q = (if q = k then None else dget (r_strings st) q)"
    "\<forall>q. dget (r_lists st2) q = (if q = k then None else dget (r_lists st) q)" using st by auto
  moreover have "dget (r_strings st) k = None" "dget (r_lists st) k = None"
    using assms by (auto simp: answered_at_def redis_exists_def dmem_def)
  ultimately show ?thesis by (auto simp: redis_exists_def dmem_def)
qed

lemma answered_at_step:
  assumes "answered_at N clock other timeout k i m st"
  obtains st2 where "response_listener N clock other timeout k 0 (Inr None) st =
      (if resp_truthy m then Some (Inr (Some m), st2) else response_listener N clock other timeout k (Suc i) (Inr (Some m)) st2)"
    "\<not> redis_exists k st2" "\<forall>q. dget (r_strings st2) q = dget (r_strings st) q" "\<forall>q. dget (r_lists st2) q = dget (r_lists st) q"
proof -
  from answered_at_load[OF assms] obtain st2 where l: "redis_load (n_loads N) k True (other i st) = (Inr (Some m), st2)"
    "\<not> redis_exists k st2" "\<forall>q. dget (r_strings st2) q = dget (r_strings st) q" "\<forall>q. dget (r_lists st2) q = dget (r_lists st) q" by blast
  have "response_listener N clock other timeout k 0 (Inr None) st = response_listener N clock other timeout k i (Inr None) st"
    using response_listener_wait[of k st 0 i clock timeout other N "Inr None"] assms by (auto simp: answered_at_def)
  also have "\<dots> = (if resp_truthy m then Some (Inr (Some m), st2) else response_listener N clock other timeout k (Suc i) (Inr (Some m)) st2)"
    using assms l(1) by (subst response_listener.simps) (simp add: answered_at_def)
  finally show ?thesis using l(2-4) that by blast
qed

text \<open>A request is answered: if the back end stores a response under the request id before the
  timeout and before the front end's i-th read, the front end returns exactly this response, at
  that read, provided it is not falsy in Python; the response and all its chunks are gone from
  Redis afterwards and every other key is as before.\<close>

theorem response_delivered:
  assumes "answered_at N clock other timeout k i m st" "resp_truthy m"
  shows "\<exists>st2. response_listener N clock other timeout k 0 (Inr None) st = Some (Inr (Some m), st2) \<and>
    (\<forall>q. dget (r_strings st2) q = dget (r_strings st) q) \<and> (\<forall>q. dget (r_lists st2) q = dget (r_lists st) q)"
proof -
  from answered_at_step[OF assms(1)] obtain st2 where "response_listener N clock other timeout k 0 (Inr None) st =
      (if resp_truthy m then Some (Inr (Some m), st2) else response_listener N clock other timeout k (Suc i) (Inr (Some m)) st2)"
    "\<forall>q. dget (r_strings st2) q = dget (r_strings st) q" "\<forall>q. dget (r_lists st2) q = dget (r_lists st) q" by blast
  with assms(2) show ?thesis by auto
qed

text \<open>A falsy response is lost: an empty file diff, an empty byte string or an empty list of log
  lines is taken from Redis by the read that finds it, is not accepted, and the front end goes on
  polling until the timeout; if it polls at least once more, it then returns None, as if there had
  been no response.\<close>

theorem falsy_response_lost:
  assumes "answered_at N clock other timeout k i m st" "\<not> resp_truthy m"
    and "Suc i < n" "\<forall>j < n. clock j < timeout" "clock n \<ge> timeout"
  shows "\<exists>st2. response_listener N clock other timeout k 0 (Inr None) st = Some (Inr None, st2) \<and> \<not> redis_exists k st2"
proof -
  obtain st2 where eq: "response_listener N clock other timeout k 0 (Inr None) st =
      (if resp_truthy m then Some (Inr (Some m), st2) else response_listener N clock other timeout k (Suc i) (Inr (Some m)) st2)"
    "\<not> redis_exists k st2" by (rule answered_at_step[OF assms(1)])
  have "\<forall>j st1. j \<noteq> i \<longrightarrow> other j st1 = st1" using assms(1) unfolding answered_at_def by blast
  then have wait: "\<forall>j. Suc i \<le> j \<and> j < n \<longrightarrow> clock j < timeout \<and> other j st2 = st2" using assms(4) by simp
  have "response_listener N clock other timeout k (Suc i) (Inr (Some m)) st2 =
    response_listener N clock other timeout k n (Inr None) st2"
    using response_listener_wait[where i = "Suc i" and n = n and clock = clock and timeout = timeout and other = other and N = N
      and out = "Inr (Some m)", OF eq(2) wait] assms(3) by simp
  also have "\<dots> = Some (Inr None, st2)" using assms(5) by (subst response_listener.simps) simp
  finally have "response_listener N clock other timeout k 0 (Inr None) st = Some (Inr None, st2)"
    unfolding eq(1) using assms(2) by simp
  with eq(2) show ?thesis by blast
qed

section \<open>Instances\<close>

definition ex_net :: "message \<Rightarrow> net" where
  "ex_net m = \<lparr>n_csize = 10, n_rnd = ex_rnd, n_dumps = (\<lambda>_. [1]), n_loads = (\<lambda>_. m), n_str_time = (\<lambda>_. ''0'')\<rparr>"

definition ex_binding :: "message \<Rightarrow> binding" where
  "ex_binding m = \<lparr>b_net = ex_net m, b_env = ex_store_env, b_ops = ex_ops, b_diff = (\<lambda>_ _ _ _. []), b_tar_repack = (\<lambda>_. []),
     b_compile_rules = (\<lambda>_. Inr None), b_yara = (\<lambda>_ _. []), b_log_lines = None\<rparr>"

definition ex_backend :: "redis \<Rightarrow> db \<Rightarrow> backend" where
  "ex_backend st d = \<lparr>bk_rng = 0, bk_redis = st, bk_files = (\<lambda>_. Some [1]),
     bk_sched = \<lparr>plugins = [], process_queue = [], unpacking_locks = [(Some ''L'', 1)], status = init_status, database = d\<rparr>,
     bk_unpack_queue = [], bk_compare_queue = []\<rparr>"

definition ex_empty_redis :: redis where
  "ex_empty_redis = \<lparr>r_strings = [], r_lists = []\<rparr>"

lemma net_ok_ex: "net_ok (ex_net m) m"
  by (simp add: net_ok_def ex_net_def encode_def CHUNK_MAGIC_def)

lemma ex_request:
  "delete_file_request (ex_net m) uids (0, ex_empty_redis) = Some (0, redis_rpush ''file_delete_task'' [1] ex_empty_redis)"
  "queue_ok ''file_delete_task'' ex_empty_redis" "queue_items ''file_delete_task'' ex_empty_redis = []"
  by (simp_all add: delete_file_request_def add_to_redis_queue_def queue_put_def split_if_necessary_def ex_net_def
      queue_ok_def queue_items_def ex_empty_redis_def)

theorem delete_request_keeps_live_files_witness:
  "\<exists>s'. backend_worker (ex_binding (MTask (TUids [''A'', ''L'', ''X'']) None)) (\<lambda>_ _. 0) 0 DeleteFile
      (ex_backend (redis_rpush ''file_delete_task'' [1] ex_empty_redis) ex_db) = Done s' \<and>
    bk_files s' (generate_path_from_uid ''/s'' ''A'') = Some [1] \<and> bk_files s' (generate_path_from_uid ''/s'' ''L'') = Some [1] \<and>
    bk_files s' (generate_path_from_uid ''/s'' ''X'') = None"
proof -
  let ?B = "ex_binding (MTask (TUids [''A'', ''L'', ''X'']) None)"
  let ?s = "ex_backend (redis_rpush ''file_delete_task'' [1] ex_empty_redis) ex_db"
  have "exists_obj ex_db (Some ''A'')" "\<not> exists_obj ex_db (Some ''X'')" by code_simp+
  moreover have "b_net ?B = ex_net (MTask (TUids [''A'', ''L'', ''X'']) None)" "b_ops ?B = ex_ops" "b_env ?B = ex_store_env"
    by (simp_all add: ex_binding_def)
  ultimately show ?thesis
    using delete_request_keeps_live_files[of ?B "[''A'', ''L'', ''X'']" ex_empty_redis 0 0 ?s "\<lambda>_ _. 0" 0] net_ok_ex file_ops_ok_ex_ops ex_request
    by (auto simp: ex_backend_def unpacking_lock_is_set_def dmem_def ex_store_env_def)
qed


definition ex_other :: "nat \<Rightarrow> redis \<Rightarrow> redis" where
  "ex_other j st = (if j = 0 then redis_set ''req'' [1] st else st)"

lemma ex_answered: "answered_at (ex_net m) real ex_other 3 ''req'' 0 m ex_redis"
proof -
  have "redis_store 10 ex_rnd (\<lambda>_. [1]) ''req'' m (0, ex_redis) = Some (0, ex_other 0 ex_redis)"
    by (simp add: redis_store_def split_if_necessary_def ex_other_def)
  moreover have "fair (n_rnd (ex_net m))" by (simp add: ex_net_def fair_ex_rnd)
  ultimately show ?thesis using net_ok_ex[of m]
    by (auto simp: answered_at_def ex_net_def chunk_count_def not_chunk_key redis_exists_def ex_redis_def dmem_def ex_other_def
        used_keys_ex_redis[unfolded ex_redis_def])
qed

theorem response_delivered_witness:
  "\<exists>st2. response_listener (ex_net (MResponse (RespLogs [''x'']))) real ex_other 3 ''req'' 0 (Inr None) ex_redis =
    Some (Inr (Some (MResponse (RespLogs [''x'']))), st2) \<and> dget (r_strings st2) ''a'' = dget (r_strings ex_redis) ''a''"
  using response_delivered[OF ex_answered, of "MResponse (RespLogs [''x''])"] by auto

theorem falsy_response_lost_witness:
  "\<exists>st2. response_listener (ex_net (MResponse (RespDiff (Some [])))) real ex_other 3 ''req'' 0 (Inr None) ex_redis =
    Some (Inr None, st2) \<and> \<not> redis_exists ''req'' st2"
  using falsy_response_lost[OF ex_answered, of "MResponse (RespDiff (Some []))" 3] by auto

end
