(* ===== verification/ComparePlugins.thy ===== *)
theory ComparePlugins
  imports Comparison
begin

text \<open>
  The compare plugins \<open>plugins/compare/file_coverage\<close>, \<open>software\<close> and \<open>file_header\<close>. Python
  sets are duplicate-free lists; the fuzzy hash comparison (\<open>ssdeep\<close>) and the clique search
  (\<open>networkx\<close>) are parameters. The theorems say what the coverage lists contain and that
  the byte mask of the header view colours every byte as it should.
\<close>

section \<open>Set operations on a list of sets\<close>

text \<open>\<open>set.difference(xs, *yss)\<close> and \<open>set.intersection(*yss)\<close>, which needs an argument.\<close>

definition difference_all :: "'a list \<Rightarrow> 'a list list \<Rightarrow> 'a list" where
  "difference_all xs yss = fold (\<lambda>ys a. set_minus a ys) yss (py_set xs)"

fun intersection_all :: "'a list list \<Rightarrow> 'a list result" where
  "intersection_all [] = Inl TypeError"
| "intersection_all (xs # xss) = Inr (fold (\<lambda>ys a. set_inter a ys) xss (py_set xs))"

lemma set_difference_all: "set (difference_all xs yss) = set xs - \<Union> (set ` set yss)"
proof -
  have "set (fold (\<lambda>ys a. set_minus a ys) yss zs) = set zs - \<Union> (set ` set yss)" for zs
    by (induction yss arbitrary: zs) auto
  then show ?thesis by (simp add: difference_all_def)
qed

lemma set_intersection_all: "intersection_all xss = Inr zs \<Longrightarrow> set zs = \<Inter> (set ` set xss)"
proof (cases xss)
  case (Cons x xs)
  have "set (fold (\<lambda>ys a. set_inter a ys) xs zs) = set zs \<inter> \<Inter> (set ` set xs)" for zs
    by (induction xs arbitrary: zs) auto
  then show "intersection_all xss = Inr zs \<Longrightarrow> set zs = \<Inter> (set ` set xss)" using Cons by auto
qed simp

section \<open>Software\<close>

definition get_software_set :: "file_object \<Rightarrow> string list result" where
  "get_software_set fo = bind_r (dlookup (processed_analysis fo) ''software_components'') (\<lambda>r.
     bind_r (dlookup r ''summary'') (\<lambda>s. case s of PDict d \<Rightarrow> Inr (py_set (dkeys d)) | _ \<Rightarrow> Inl AttributeError))"

type_synonym by_uid = "(uid, string list) dict"

definition get_exclusive_software :: "file_object list \<Rightarrow> by_uid result" where
  "get_exclusive_software fo_list = foldM_r (\<lambda>(cur, others) res.
     bind_r (get_software_set cur) (\<lambda>s. bind_r (mapM_r get_software_set others) (\<lambda>ss.
       Inr (dput (fo_uid cur) (difference_all s ss) res)))) (iter_element_and_rest fo_list) []"

definition get_intersection_of_software :: "file_object list \<Rightarrow> string list result" where
  "get_intersection_of_software fo_list = bind_r (mapM_r get_software_set fo_list) intersection_all"

definition get_software_in_more_than_one_but_not_in_all ::
  "file_object list \<Rightarrow> string list \<Rightarrow> by_uid \<Rightarrow> by_uid result" where
  "get_software_in_more_than_one_but_not_in_all fo_list common exclusive = foldM_r (\<lambda>cur res.
     bind_r (get_software_set cur) (\<lambda>s. bind_r (dlookup exclusive (fo_uid cur)) (\<lambda>e.
       Inr (dput (fo_uid cur) (difference_all s [common, e]) res)))) fo_list []"

definition plist :: "string list \<Rightarrow> pyval" where
  "plist xs = PList (map PStr xs)"

definition uid_dict :: "by_uid \<Rightarrow> (string \<times> pyval) list" where
  "uid_dict d = map (\<lambda>(u, xs). (fstr u, plist xs)) d"

definition compare_software :: "file_object list \<Rightarrow> pyval result" where
  "compare_software fo_list =
     bind_r (get_intersection_of_software fo_list) (\<lambda>common.
     bind_r (get_exclusive_software fo_list) (\<lambda>exclusive.
     bind_r (if length fo_list > 2
             then map_r (\<lambda>m. [(''software_in_more_than_one_but_not_in_all'', PDict ((''collapse'', PBool True) # uid_dict m))])
                    (get_software_in_more_than_one_but_not_in_all fo_list common exclusive)
             else Inr []) (\<lambda>more.
       Inr (PDict ([(''software_in_common'', PDict [(''all'', plist common), (''collapse'', PBool True)]),
                    (''exclusive_software'', PDict ((''collapse'', PBool True) # uid_dict exclusive))] @ more)))))"

definition software_plugin :: compare_plugin where
  "software_plugin = \<lparr>cp_dependencies = [''software_components''], cp_function = (\<lambda>_. compare_software)\<rparr>"

section \<open>File coverage\<close>

definition included_file_set :: "file_object \<Rightarrow> uid list result" where
  "included_file_set fo = (case list_of_all_included_files fo of None \<Rightarrow> Inl TypeError | Some fs \<Rightarrow> Inr (py_set fs))"

definition get_included_file_sets :: "file_object list \<Rightarrow> uid list list result" where
  "get_included_file_sets fo_list = mapM_r included_file_set fo_list"

type_synonym files_by_uid = "(uid, uid list) dict"

definition coverage_exclusive_files :: "file_object list \<Rightarrow> files_by_uid result" where
  "coverage_exclusive_files fo_list = foldM_r (\<lambda>(cur, others) res.
     bind_r (included_file_set cur) (\<lambda>s. bind_r (get_included_file_sets others) (\<lambda>ss.
       Inr (dput (fo_uid cur) (difference_all s ss) res)))) (iter_element_and_rest fo_list) []"

definition get_intersection_of_files :: "file_object list \<Rightarrow> uid list result" where
  "get_intersection_of_files fo_list = bind_r (get_included_file_sets fo_list) intersection_all"

definition get_files_in_more_than_one_but_not_in_all ::
  "file_object list \<Rightarrow> uid list \<Rightarrow> files_by_uid \<Rightarrow> files_by_uid result" where
  "get_files_in_more_than_one_but_not_in_all fo_list common exclusive = foldM_r (\<lambda>cur res.
     bind_r (included_file_set cur) (\<lambda>s. bind_r (dlookup exclusive (fo_uid cur)) (\<lambda>e.
       Inr (dput (fo_uid cur) (difference_all s [common, e]) res)))) fo_list []"

definition evaluate_entropy_for_list_of_uids ::
  "db \<Rightarrow> uid list \<Rightarrow> (string, uid list) dict \<Rightarrow> string \<Rightarrow> (string, uid list) dict result" where
  "evaluate_entropy_for_list_of_uids d list_of_uids new_result firmware_uid =
     map_r (\<lambda>bs. let non_zero = map fst (filter snd (zip list_of_uids bs)) in
         if non_zero \<noteq> [] then dput firmware_uid non_zero new_result else new_result)
       (mapM_r (\<lambda>u. case py_num (get_entropy d (fstr u)) of None \<Rightarrow> Inl TypeError | Some e \<Rightarrow> Inr (e > 1 / 10)) list_of_uids)"

definition get_non_zero_common_files :: "db \<Rightarrow> uid list \<Rightarrow> files_by_uid \<Rightarrow> (string, uid list) dict result" where
  "get_non_zero_common_files d files_in_all not_in_all =
     bind_r (if files_in_all \<noteq> [] then evaluate_entropy_for_list_of_uids d files_in_all [] ''all'' else Inr []) (\<lambda>r.
       foldM_r (\<lambda>(firmware_uid, us) r. evaluate_entropy_for_list_of_uids d us r (fstr firmware_uid)) not_in_all r)"

definition get_similar_file_id :: "string \<Rightarrow> string \<Rightarrow> string" where
  "get_similar_file_id file_uid parent_uid = parent_uid @ '':'' @ file_uid"

text \<open>\<open>itertools.combinations(xs, 2)\<close>.\<close>

fun pairs :: "'a list \<Rightarrow> ('a \<times> 'a) list" where
  "pairs [] = []"
| "pairs (x # xs) = map (Pair x) xs @ pairs xs"

text \<open>
  \<open>ssd\<close> is the similarity of two fuzzy hashes; it refuses a hash that is no string, and the
  test of the second hash comes after the call.
\<close>

record coverage_env =
  ce_ssdeep :: "string \<Rightarrow> string \<Rightarrow> int"
  ce_threshold :: int
  ce_cliques :: "(string \<times> string) list \<Rightarrow> string list list"

definition find_similar_file_for ::
  "coverage_env \<Rightarrow> db \<Rightarrow> string \<Rightarrow> string \<Rightarrow> file_object \<Rightarrow> ((string \<times> string) \<times> int) list result" where
  "find_similar_file_for C d file_uid parent_uid comparison_fo =
     bind_r (get_ssdeep_hash d file_uid) (\<lambda>hash_one.
       if \<not> py_truthy hash_one then Inr []
       else map_r concat (mapM_r (\<lambda>potential_match.
         bind_r (get_ssdeep_hash d (fstr potential_match)) (\<lambda>hash_two.
           case (hash_one, hash_two) of
             (PStr h1, PStr h2) \<Rightarrow>
               let similarity = ce_ssdeep C h1 h2 in
               Inr (if h2 \<noteq> [] \<and> similarity > ce_threshold C
                    then [((get_similar_file_id file_uid parent_uid,
                            get_similar_file_id (fstr potential_match) (fstr (fo_uid comparison_fo))), similarity)]
                    else [])
           | _ \<Rightarrow> Inl TypeError)) (files_included comparison_fo)))"

definition generate_similarity_sets :: "coverage_env \<Rightarrow> (string \<times> string) list \<Rightarrow> string list list" where
  "generate_similarity_sets C list_of_pairs = map sort (ce_cliques C list_of_pairs)"

definition get_similar_files ::
  "coverage_env \<Rightarrow> db \<Rightarrow> file_object list \<Rightarrow> files_by_uid \<Rightarrow> (string list list \<times> (string, int) dict) result" where
  "get_similar_files C d fo_list exclusive_files =
     bind_r (mapM_r (\<lambda>(parent_one, parent_two).
         bind_r (dlookup exclusive_files (fo_uid parent_one)) (\<lambda>files.
           map_r concat (mapM_r (\<lambda>file_one.
             find_similar_file_for C d (fstr file_one) (fstr (fo_uid parent_one)) parent_two) files))) (pairs fo_list))
       (\<lambda>found. let similar = concat found in
          Inr (generate_similarity_sets C (py_set (map fst similar)),
               fold (\<lambda>((id1, id2), v). dput (convert_uid_list_to_compare_id [id1, id2]) v) similar []))"

text \<open>The value shown for a grp: nothing, one similarity, or the text of a range.\<close>

datatype similarity_value = NoSimilarity | OneSimilarity int | SimilarityRange int int

definition get_similarity_value :: "string list \<Rightarrow> (string, int) dict \<Rightarrow> similarity_value" where
  "get_similarity_value grp similarity_dict =
     (let ids = map (\<lambda>(a, b). convert_uid_list_to_compare_id [a, b]) (pairs grp);
          similarities = concat (map (\<lambda>i. case dget similarity_dict i of None \<Rightarrow> [] | Some v \<Rightarrow> [v]) ids)
      in case similarities of
           [] \<Rightarrow> NoSimilarity
         | [v] \<Rightarrow> OneSimilarity v
         | v # vs \<Rightarrow> SimilarityRange (fold min vs v) (fold max vs v))"

fun split_file_id :: "string \<Rightarrow> (string \<times> string) result" where
  "split_file_id i = (case split_on (CHR '':'') i of [parent_id, file_id] \<Rightarrow> Inr (parent_id, file_id) | _ \<Rightarrow> Inl ValueError)"

definition get_similar_file_group_id :: "string list \<Rightarrow> string result" where
  "get_similar_file_group_id grp = map_r (\<lambda>ids. concat (map (\<lambda>(p, f). take 4 p @ take 4 f) ids)) (mapM_r split_file_id grp)"

record similar_group =
  sg_files :: "(string, string option) dict"
  sg_similarity :: similarity_value

definition combine_similarity_results ::
  "string list list \<Rightarrow> file_object list \<Rightarrow> (string, int) dict \<Rightarrow> (string, similar_group) dict result" where
  "combine_similarity_results similar_files fo_list similarity = foldM_r (\<lambda>grp res.
     bind_r (mapM_r split_file_id grp) (\<lambda>ids.
     bind_r (get_similar_file_group_id grp) (\<lambda>group_id.
       Inr (dput group_id \<lparr>sg_files = fold (\<lambda>(p, f). dput p (Some f)) ids (map (\<lambda>u. (u, None)) (py_set (map (fstr \<circ> fo_uid) fo_list))),
              sg_similarity = get_similarity_value grp similarity\<rparr> res)))) similar_files []"

definition find_changed_text_files :: "db \<Rightarrow> string \<Rightarrow> string \<Rightarrow> string list \<Rightarrow> (string, (string \<times> string) list) dict result" where
  "find_changed_text_files d uid_a uid_b common_files =
     bind_r (get_vfp_of_included_text_files d uid_a common_files) (\<lambda>vfp_a.
     bind_r (get_vfp_of_included_text_files d uid_b common_files) (\<lambda>vfp_b.
       Inr (fold (\<lambda>common_path res. case (dget vfp_a common_path, dget vfp_b common_path) of
           (Some as, Some bs) \<Rightarrow> fold (\<lambda>a r. fold (\<lambda>b. dappend common_path (a, b)) bs r) as res
         | _ \<Rightarrow> res) (set_inter (dkeys vfp_a) (dkeys vfp_b)) [])))"

record coverage_result =
  cov_common :: "uid list"
  cov_exclusive :: files_by_uid
  cov_more_than_one :: "files_by_uid option"
  cov_non_zero :: "(string, uid list) dict"
  cov_similar :: "(string, similar_group) dict"
  cov_changed_text :: "(string, (string \<times> string) list) dict option"

definition file_coverage :: "coverage_env \<Rightarrow> db \<Rightarrow> file_object list \<Rightarrow> coverage_result result" where
  "file_coverage C d fo_list =
     bind_r (get_intersection_of_files fo_list) (\<lambda>common.
     bind_r (coverage_exclusive_files fo_list) (\<lambda>exclusive.
     bind_r (if length fo_list > 2 then map_r Some (get_files_in_more_than_one_but_not_in_all fo_list common exclusive) else Inr None) (\<lambda>more.
     bind_r (get_non_zero_common_files d common (case more of None \<Rightarrow> [] | Some m \<Rightarrow> m)) (\<lambda>non_zero.
     bind_r (get_similar_files C d fo_list exclusive) (\<lambda>(similar_files, similarity).
     bind_r (combine_similarity_results similar_files fo_list similarity) (\<lambda>similar.
     bind_r (case fo_list of
         [a, b] \<Rightarrow> if is_firmware a \<and> is_firmware b
                   then map_r Some (find_changed_text_files d (fstr (fo_uid a)) (fstr (fo_uid b)) (map fstr common)) else Inr None
       | _ \<Rightarrow> Inr None) (\<lambda>changed.
       Inr \<lparr>cov_common = common, cov_exclusive = exclusive, cov_more_than_one = more, cov_non_zero = non_zero,
            cov_similar = similar, cov_changed_text = changed\<rparr>)))))))"

section \<open>File header\<close>

definition BYTES_TO_SHOW :: nat where "BYTES_TO_SHOW = 512"

definition COLUMN_WIDTH :: nat where "COLUMN_WIDTH = 32"

datatype mask = Green | Blue | Red

fun mask_color :: "mask \<Rightarrow> string" where
  "mask_color Green = ''5bc85b''"
| "mask_color Blue = ''7070f1''"
| "mask_color Red = ''fb5151''"

text \<open>\<open>while values: value = values.pop(); if value in values: return True\<close>.\<close>

function at_least_two_are_common :: "'a list \<Rightarrow> bool" where
  "at_least_two_are_common values =
     (if values = [] then False
      else if last values \<in> set (butlast values) then True
      else at_least_two_are_common (butlast values))"
  by pat_completeness auto
termination
  by (relation "measure length") auto

declare at_least_two_are_common.simps [simp del]

definition get_number_of_rows :: "nat \<Rightarrow> nat" where
  "get_number_of_rows lower_bound =
     (if lower_bound mod COLUMN_WIDTH = 0 then lower_bound div COLUMN_WIDTH else lower_bound div COLUMN_WIDTH + 1)"

definition byte_at :: "nat \<Rightarrow> bytes \<Rightarrow> nat result" where
  "byte_at i b = (if i < length b then Inr (b ! i) else Inl IndexError)"

definition get_byte_mask :: "bytes list \<Rightarrow> nat \<Rightarrow> mask list result" where
  "get_byte_mask binaries lower_bound = mapM_r (\<lambda>i.
     bind_r (mapM_r (byte_at i) binaries) (\<lambda>values. case values of
         [] \<Rightarrow> Inl IndexError
       | reference # rest \<Rightarrow>
           if \<forall>v \<in> set rest. v = reference then Inr Green
           else if at_least_two_are_common values then Inr Blue
           else Inr Red)) [0..<lower_bound]"

definition hex_digit :: "nat \<Rightarrow> char" where
  "hex_digit n = ''0123456789ABCDEF'' ! n"

definition hex_byte :: "nat \<Rightarrow> string" where
  "hex_byte b = [hex_digit (b div 16), hex_digit (b mod 16)]"

definition get_first_512_bytes_in_hex :: "bytes \<Rightarrow> string" where
  "get_first_512_bytes_in_hex b = concat (map hex_byte (take BYTES_TO_SHOW b))"

definition get_highlighted_hex_string :: "bytes list \<Rightarrow> nat \<Rightarrow> string result" where
  "get_highlighted_hex_string binaries lower_bound =
     bind_r (get_byte_mask binaries lower_bound) (\<lambda>mask.
       if length mask \<noteq> lower_bound then Inl RuntimeError
       else case binaries of
          [] \<Rightarrow> Inl IndexError
        | b # _ \<Rightarrow> let first_binary_in_hex = get_first_512_bytes_in_hex b in
            if \<not> length first_binary_in_hex \<ge> length mask * 2 then Inl RuntimeError
            else Inr (''<p style=\"font-family: monospace;\">'' @ concat (map (\<lambda>(i, c).
                (if i mod COLUMN_WIDTH = 0 then ''<br />'' else []) @
                ''<span style=\"color: #'' @ mask_color c @ ''\">'' @ take 2 (drop (2 * i) first_binary_in_hex) @ ''</span>&nbsp;'')
                (zip [0..<length mask] mask)) @ ''</p>''))"

definition ascii_char :: "nat \<Rightarrow> char" where
  "ascii_char b = (if 32 \<le> b \<and> b < 127 then char_of b else CHR ''.'')"

definition replace_none_ascii_with_dots :: "bytes \<Rightarrow> string" where
  "replace_none_ascii_with_dots binary_block = map ascii_char binary_block"

definition replace_forbidden_html_characters :: "string \<Rightarrow> string" where
  "replace_forbidden_html_characters s = concat (map (\<lambda>c.
     if c = CHR ''&'' then ''&amp;'' else if c = CHR ''<'' then ''&lt;'' else if c = CHR ''>'' then ''&gt;'' else [c]) s)"

definition get_ascii_representation :: "bytes list \<Rightarrow> nat \<Rightarrow> string result" where
  "get_ascii_representation binaries lower_bound = (case binaries of
      [] \<Rightarrow> Inl IndexError
    | b # _ \<Rightarrow> let bytes_in_ascii = replace_none_ascii_with_dots (take lower_bound b) in
        if length bytes_in_ascii \<noteq> lower_bound then Inl RuntimeError
        else Inr (''<p style=\"font-family: monospace; color: #eee;\"><br />'' @
          concat (map (\<lambda>i. ''| '' @ replace_forbidden_html_characters
             (take COLUMN_WIDTH (drop (i * COLUMN_WIDTH) bytes_in_ascii)) @ '' |<br />'')
            [0..<get_number_of_rows lower_bound]) @ ''</p>''))"

fun hex_of :: "nat \<Rightarrow> string" where
  "hex_of n = (if n < 16 then [hex_digit n] else hex_of (n div 16) @ [hex_digit (n mod 16)])"

declare hex_of.simps [simp del]

text \<open>\<open>{n:03X}\<close>.\<close>

definition hex3 :: "nat \<Rightarrow> string" where
  "hex3 n = (let h = hex_of n in replicate (3 - length h) (CHR ''0'') @ h)"

definition get_offsets :: "nat \<Rightarrow> string" where
  "get_offsets lower_bound = ''<p style=\"font-family: monospace; color: #eee;\"><br />'' @
     concat (map (\<lambda>row. ''0x'' @ hex3 (row * COLUMN_WIDTH) @ ''<br />'') [0..<get_number_of_rows lower_bound]) @ ''</p>''"

definition compare_file_header :: "file_object list \<Rightarrow> pyval result" where
  "compare_file_header fo_list =
     bind_r (mapM_r (\<lambda>fo. case binary fo of None \<Rightarrow> Inl TypeError | Some b \<Rightarrow> Inr b) fo_list) (\<lambda>binaries.
       if binaries = [] then Inl ValueError
       else let lower_bound = min (fold min (map length (tl binaries)) (length (hd binaries))) BYTES_TO_SHOW in
         bind_r (get_highlighted_hex_string binaries lower_bound) (\<lambda>hexdiff.
         bind_r (get_ascii_representation binaries lower_bound) (\<lambda>asc.
           Inr (PDict [(''hexdiff'', PStr hexdiff), (''offsets'', PStr (get_offsets lower_bound)), (''ascii'', PStr asc)]))))"

definition file_header_plugin :: compare_plugin where
  "file_header_plugin = \<lparr>cp_dependencies = [], cp_function = (\<lambda>_. compare_file_header)\<rparr>"

section \<open>What the coverage lists contain\<close>

text \<open>A fold that writes one entry per element, under distinct keys.\<close>

lemma foldM_dput_get:
  assumes "foldM_r (\<lambda>x res. map_r (\<lambda>v. dput (k x) v res) (f x)) xs res0 = Inr res" "distinct (map k xs)"
  shows "(\<forall>x \<in> set xs. \<exists>v. f x = Inr v \<and> dget res (k x) = Some v) \<and> (\<forall>u. u \<notin> k ` set xs \<longrightarrow> dget res u = dget res0 u)"
  using assms
proof (induction xs arbitrary: res0)
  case (Cons x xs)
  then obtain v where v: "f x = Inr v" and r: "foldM_r (\<lambda>x res. map_r (\<lambda>v. dput (k x) v res) (f x)) xs (dput (k x) v res0) = Inr res"
    by (auto simp: result_simps)
  from Cons.IH[OF r] Cons.prems(2) v show ?case by auto
qed simp

definition files_of :: "file_object \<Rightarrow> uid set" where
  "files_of fo = set (case list_of_all_included_files fo of None \<Rightarrow> [] | Some fs \<Rightarrow> fs)"

lemma included_file_set_files: "included_file_set fo = Inr s \<Longrightarrow> set s = files_of fo"
  by (auto simp: included_file_set_def files_of_def split: option.splits)

lemma mapM_included: "mapM_r included_file_set fos = Inr ss \<Longrightarrow> set ` set ss = files_of ` set fos"
proof (induction fos arbitrary: ss)
  case (Cons fo fos)
  then obtain s ss' where "included_file_set fo = Inr s" "mapM_r included_file_set fos = Inr ss'" "ss = s # ss'"
    by (auto simp: result_simps)
  with Cons.IH show ?case by (simp add: included_file_set_files)
qed simp

lemma coverage_exclusive_files_get:
  assumes "coverage_exclusive_files fos = Inr ex" "distinct (map fo_uid fos)" "fo \<in> set fos"
  shows "\<exists>e. dget ex (fo_uid fo) = Some e \<and> set e = files_of fo - \<Union> (files_of ` (set fos - {fo}))"
proof -
  let ?f = "\<lambda>p. case p of (cur, others) \<Rightarrow> bind_r (included_file_set cur) (\<lambda>s. map_r (difference_all s) (get_included_file_sets others))"
  have "foldM_r (\<lambda>p res. map_r (\<lambda>v. dput (fo_uid (fst p)) v res) (?f p)) (iter_element_and_rest fos) [] = Inr ex"
    using assms(1) unfolding coverage_exclusive_files_def
    by (elim trans[rotated]) (intro arg_cong[where f = "\<lambda>g. foldM_r g _ _"] ext, auto simp: bind_r_def map_r_def split: sum.splits)
  moreover have "distinct (map (\<lambda>p. fo_uid (fst p)) (iter_element_and_rest fos))"
    using assms(2) by (simp add: iter_element_and_rest_def comp_def)
  ultimately have *: "\<forall>p \<in> set (iter_element_and_rest fos). \<exists>v. ?f p = Inr v \<and> dget ex (fo_uid (fst p)) = Some v"
    using foldM_dput_get[where k = "\<lambda>p. fo_uid (fst p)" and f = ?f] by blast
  have "(fo, filter (\<lambda>e. e \<noteq> fo) fos) \<in> set (iter_element_and_rest fos)" using assms(3) by (auto simp: iter_element_and_rest_def)
  with * obtain v where v: "?f (fo, filter (\<lambda>e. e \<noteq> fo) fos) = Inr v" "dget ex (fo_uid fo) = Some v" by fastforce
  from v(1) obtain s ss where "included_file_set fo = Inr s" "mapM_r included_file_set (filter (\<lambda>e. e \<noteq> fo) fos) = Inr ss" "v = difference_all s ss"
    by (auto simp: result_simps get_included_file_sets_def)
  then have "set v = files_of fo - \<Union> (files_of ` {e \<in> set fos. e \<noteq> fo})"
    using mapM_included[of "filter (\<lambda>e. e \<noteq> fo) fos" ss] by (simp add: set_difference_all included_file_set_files)
  moreover have "{e \<in> set fos. e \<noteq> fo} = set fos - {fo}" by auto
  ultimately show ?thesis using v(2) by simp
qed

lemma more_than_one_get:
  assumes "get_files_in_more_than_one_but_not_in_all fos common ex = Inr mor" "distinct (map fo_uid fos)" "fo \<in> set fos"
    "dget ex (fo_uid fo) = Some e"
  shows "\<exists>m. dget mor (fo_uid fo) = Some m \<and> set m = files_of fo - set common - set e"
proof -
  let ?f = "\<lambda>cur. bind_r (included_file_set cur) (\<lambda>s. map_r (\<lambda>e. difference_all s [common, e]) (dlookup ex (fo_uid cur)))"
  have "foldM_r (\<lambda>p res. map_r (\<lambda>v. dput (fo_uid p) v res) (?f p)) fos [] = Inr mor"
    using assms(1) unfolding get_files_in_more_than_one_but_not_in_all_def
    by (elim trans[rotated]) (intro arg_cong[where f = "\<lambda>g. foldM_r g _ _"] ext, auto simp: bind_r_def map_r_def split: sum.splits)
  from foldM_dput_get[OF this assms(2)] assms(3) obtain v where "?f fo = Inr v" "dget mor (fo_uid fo) = Some v" by blast
  with assms(4) show ?thesis by (auto simp: result_simps set_difference_all included_file_set_files)
qed

text \<open>C22: The coverage of three or more objects partitions the files of every object: its files are
  exactly the disjoint union of the files common to all objects, its exclusive files, which no
  other object includes, and the files listed as in more than one but not in all, which some but
  not all of the others include.\<close>

theorem file_coverage_partitions:
  assumes "file_coverage C d fos = Inr r" "distinct (map fo_uid fos)" "fo \<in> set fos" "length fos > 2"
  shows "\<exists>e m mor. dget (cov_exclusive r) (fo_uid fo) = Some e \<and> cov_more_than_one r = Some mor \<and> dget mor (fo_uid fo) = Some m \<and>
    set (cov_common r) = (\<Inter>g \<in> set fos. files_of g) \<and>
    set e = files_of fo - (\<Union>g \<in> set fos - {fo}. files_of g) \<and>
    set m = {f \<in> files_of fo. (\<exists>g \<in> set fos - {fo}. f \<in> files_of g) \<and> (\<exists>g \<in> set fos - {fo}. f \<notin> files_of g)} \<and>
    files_of fo = set (cov_common r) \<union> set e \<union> set m \<and>
    set (cov_common r) \<inter> set e = {} \<and> set (cov_common r) \<inter> set m = {} \<and> set e \<inter> set m = {}"
proof -
  from assms(1,4) obtain mor where c: "get_intersection_of_files fos = Inr (cov_common r)" and
    ex: "coverage_exclusive_files fos = Inr (cov_exclusive r)" and
    mo: "get_files_in_more_than_one_but_not_in_all fos (cov_common r) (cov_exclusive r) = Inr mor" "cov_more_than_one r = Some mor"
    by (auto simp: file_coverage_def result_simps)
  from c obtain ss where ss: "mapM_r included_file_set fos = Inr ss" "intersection_all ss = Inr (cov_common r)"
    by (auto simp: get_intersection_of_files_def get_included_file_sets_def result_simps)
  have com: "set (cov_common r) = (\<Inter>g \<in> set fos. files_of g)"
    using set_intersection_all[OF ss(2)] mapM_included[OF ss(1)] by simp
  from coverage_exclusive_files_get[OF ex assms(2,3)] obtain e where e: "dget (cov_exclusive r) (fo_uid fo) = Some e"
    "set e = files_of fo - \<Union> (files_of ` (set fos - {fo}))" by blast
  from more_than_one_get[OF mo(1) assms(2,3) e(1)] obtain m where m: "dget mor (fo_uid fo) = Some m"
    "set m = files_of fo - set (cov_common r) - set e" by blast
  have "distinct fos" using assms(2) by (simp add: distinct_map)
  then have "card (set fos) > 2" using assms(4) by (simp add: distinct_card)
  then have "set fos - {fo} \<noteq> {}"
    using card_mono[of "{fo}" "set fos"] by auto
  then obtain g where g: "g \<in> set fos" "g \<noteq> fo" by blast
  have disj: "set (cov_common r) \<inter> set e = {}" using com e(2) g by blast
  have sub: "set (cov_common r) \<subseteq> files_of fo" using com assms(3) by blast
  have meq: "set m = {f \<in> files_of fo. (\<exists>g \<in> set fos - {fo}. f \<in> files_of g) \<and> (\<exists>g \<in> set fos - {fo}. f \<notin> files_of g)}"
    unfolding m(2) com e(2) by blast
  show ?thesis
  proof (intro exI conjI)
    show "dget (cov_exclusive r) (fo_uid fo) = Some e" "cov_more_than_one r = Some mor" "dget mor (fo_uid fo) = Some m" by fact+
    show "set (cov_common r) = (\<Inter>g \<in> set fos. files_of g)" by (rule com)
    show "set e = files_of fo - (\<Union>g \<in> set fos - {fo}. files_of g)" by (rule e(2))
    show "set m = {f \<in> files_of fo. (\<exists>g \<in> set fos - {fo}. f \<in> files_of g) \<and> (\<exists>g \<in> set fos - {fo}. f \<notin> files_of g)}" by (rule meq)
    show "files_of fo = set (cov_common r) \<union> set e \<union> set m" using sub e(2) m(2) by blast
    show "set (cov_common r) \<inter> set e = {}" by (rule disj)
    show "set (cov_common r) \<inter> set m = {}" "set e \<inter> set m = {}" using m(2) by blast+
  qed
qed

definition ex_covered :: "string \<Rightarrow> uid list \<Rightarrow> file_object" where
  "ex_covered u fs = (ex_fwo u)\<lparr>list_of_all_included_files := Some fs\<rparr>"

definition ex_coverage_env :: coverage_env where
  "ex_coverage_env = \<lparr>ce_ssdeep = (\<lambda>_ _. 0), ce_threshold = 5, ce_cliques = map (\<lambda>(a, b). [a, b])\<rparr>"

theorem file_coverage_partitions_witness:
  "\<exists>r e m mor. file_coverage ex_coverage_env empty_db
      [ex_covered ''X'' [Some ''a'', Some ''b'', Some ''c''], ex_covered ''Y'' [Some ''a'', Some ''b''], ex_covered ''Z'' [Some ''a'']] = Inr r \<and>
    set (cov_common r) = {Some ''a''} \<and> dget (cov_exclusive r) (Some ''X'') = Some e \<and> set e = {Some ''c''} \<and>
    cov_more_than_one r = Some mor \<and> dget mor (Some ''X'') = Some m \<and> set m = {Some ''b''}"
proof -
  let ?fos = "[ex_covered ''X'' [Some ''a'', Some ''b'', Some ''c''], ex_covered ''Y'' [Some ''a'', Some ''b''], ex_covered ''Z'' [Some ''a'']]"
  have "case file_coverage ex_coverage_env empty_db ?fos of Inr r \<Rightarrow> True | _ \<Rightarrow> False" by code_simp
  then obtain r where r: "file_coverage ex_coverage_env empty_db ?fos = Inr r" by (auto split: sum.splits)
  have d: "distinct (map fo_uid ?fos)" by (simp add: ex_covered_def ex_fwo_def)
  have uid: "fo_uid (ex_covered u fs) = Some u" "files_of (ex_covered u fs) = set fs" for u fs
    by (simp_all add: ex_covered_def ex_fwo_def files_of_def)
  have ne: "ex_covered ''X'' fs \<noteq> ex_covered ''Y'' fs'" "ex_covered ''X'' fs \<noteq> ex_covered ''Z'' fs'" for fs fs'
    using uid(1)[of "''X''" fs] uid(1)[of "''Y''" fs'] uid(1)[of "''Z''" fs'] by auto
  have others: "set ?fos - {hd ?fos} = {ex_covered ''Y'' [Some ''a'', Some ''b''], ex_covered ''Z'' [Some ''a'']}"
    using ne(1)[symmetric] ne(2)[symmetric] by auto
  from file_coverage_partitions[OF r d, of "hd ?fos"] show ?thesis
    unfolding others using r by (auto simp: uid)
qed

section \<open>The byte mask\<close>

lemma at_least_two_are_common_iff: "at_least_two_are_common vals \<longleftrightarrow> \<not> distinct vals"
proof (induction "length vals" arbitrary: vals)
  case 0
  then show ?case by (simp add: at_least_two_are_common.simps)
next
  case (Suc n)
  then have ne: "vals \<noteq> []" by auto
  then obtain ys y where "vals = ys @ [y]" by (cases vals rule: rev_cases) auto
  then have "distinct vals \<longleftrightarrow> last vals \<notin> set (butlast vals) \<and> distinct (butlast vals)" by auto
  with Suc ne show ?case by (subst at_least_two_are_common.simps) simp
qed

text \<open>The colour a byte should have.\<close>

definition mask_of :: "nat list \<Rightarrow> mask" where
  "mask_of values = (if \<forall>v \<in> set values. v = hd values then Green else if distinct values then Red else Blue)"

lemma mapM_byte_at: "\<forall>b \<in> set bs. i < length b \<Longrightarrow> mapM_r (byte_at i) bs = Inr (map (\<lambda>b. b ! i) bs)"
  by (induction bs) (auto simp: byte_at_def)

lemma mapM_r_map: "\<forall>x \<in> set xs. f x = Inr (g x) \<Longrightarrow> mapM_r f xs = Inr (map g xs)"
  by (induction xs) auto

lemma get_byte_mask_result:
  assumes "bs \<noteq> []" "\<forall>b \<in> set bs. n \<le> length b"
  shows "get_byte_mask bs n = Inr (map (\<lambda>i. mask_of (map (\<lambda>b. b ! i) bs)) [0..<n])"
  unfolding get_byte_mask_def
proof (rule mapM_r_map, intro ballI)
  fix i assume "i \<in> set [0..<n]"
  then have "mapM_r (byte_at i) bs = Inr (map (\<lambda>b. b ! i) bs)" using assms(2) by (intro mapM_byte_at) fastforce
  moreover obtain b bs' where "bs = b # bs'" using assms(1) by (cases bs) auto
  ultimately show "bind_r (mapM_r (byte_at i) bs) (\<lambda>values. case values of [] \<Rightarrow> Inl IndexError
      | reference # rest \<Rightarrow> if \<forall>v \<in> set rest. v = reference then Inr Green
          else if at_least_two_are_common values then Inr Blue else Inr Red) = Inr (mask_of (map (\<lambda>b. b ! i) bs))"
    by (simp add: mask_of_def at_least_two_are_common_iff)
qed

lemma length_concat_hex: "length (concat (map hex_byte bs)) = 2 * length bs"
  by (induction bs) (simp_all add: hex_byte_def)

lemma fold_min_le: "fold min xs (a::nat) \<le> a \<and> (\<forall>x \<in> set xs. fold min xs a \<le> x)"
proof (induction xs arbitrary: a)
  case (Cons x xs)
  from Cons[of "min x a"] show ?case by auto
qed simp


definition ex_header :: "bytes \<Rightarrow> file_object" where
  "ex_header b = (ex_fwo ''X'')\<lparr>binary := Some b\<rparr>"


end
