(* ===== verification/FileTree.thy ===== *)
theory FileTree
  imports Comparison
begin

text \<open>
  The file tree of the web interface: \<open>web_interface/file_tree\<close>, the queries of
  \<open>storage/db_interface_frontend.py\<close> that feed it and the two routes of \<open>ajax_routes.py\<close>
  that serve it. A tree is built in layers: for a file, one node for each virtual path its
  children have below it, with directories as inner nodes. The \<open>children\<close> dict of a node is
  the list of its values; the key of a value is its \<open>get_id\<close>.
\<close>

section \<open>Tree nodes\<close>

record tree_entry =
  te_uid :: uid
  te_root_uid :: uid
  te_virtual :: bool
  te_name :: "string option"
  te_size :: "int option"
  te_type :: pyval
  te_not_analyzed :: bool

datatype file_tree_node =
  FileTreeNode (node_entry: tree_entry) (has_children: bool) (get_list_of_child_nodes: "file_tree_node list")

type_synonym node_id = "string option \<times> bool"

definition entry_id :: "tree_entry \<Rightarrow> node_id" where
  "entry_id e = (te_name e, te_virtual e)"

definition get_id :: "file_tree_node \<Rightarrow> node_id" where
  "get_id n = entry_id (node_entry n)"

definition contains_node :: "file_tree_node \<Rightarrow> file_tree_node \<Rightarrow> bool" where
  "contains_node item n \<longleftrightarrow> get_id item \<in> get_id ` set (get_list_of_child_nodes n)"

definition get_names_of_children :: "file_tree_node \<Rightarrow> string option list" where
  "get_names_of_children n = map (\<lambda>c. te_name (node_entry c)) (get_list_of_child_nodes n)"

text \<open>\<open>children[i]\<close> is changed in place.\<close>

fun update_child :: "node_id \<Rightarrow> (file_tree_node \<Rightarrow> file_tree_node) \<Rightarrow> file_tree_node \<Rightarrow> file_tree_node" where
  "update_child i f (FileTreeNode e h cs) = FileTreeNode e h (map (\<lambda>c. if get_id c = i then f c else c) cs)"

fun append_child :: "file_tree_node \<Rightarrow> file_tree_node \<Rightarrow> file_tree_node" where
  "append_child n (FileTreeNode e h cs) = FileTreeNode e True (cs @ [n])"

text \<open>
  \<open>merge_node\<close> walks over the children of the added node (\<open>merge_children\<close>); the child
  of this node is the current node of the walk.
\<close>

function (sequential)
  merge_node :: "file_tree_node \<Rightarrow> file_tree_node \<Rightarrow> file_tree_node"
  and merge_children :: "file_tree_node list \<Rightarrow> file_tree_node \<Rightarrow> file_tree_node"
  and add_child_node :: "file_tree_node \<Rightarrow> file_tree_node \<Rightarrow> file_tree_node"
where
  "merge_node node self = update_child (get_id node) (merge_children (get_list_of_child_nodes node)) self"
| "merge_children [] current_node = current_node"
| "merge_children (child # rest) current_node =
     merge_children rest
       (if contains_node child current_node then merge_node child current_node
        else add_child_node child current_node)"
| "add_child_node node self = (if contains_node node self then merge_node node self else append_child node self)"
  by pat_completeness auto
termination
proof (relation "measure (\<lambda>x. case x of
      Inl (n, _) \<Rightarrow> 2 * size n
    | Inr (Inl (ns, _)) \<Rightarrow> 2 * size_list size ns + 1
    | Inr (Inr (n, _)) \<Rightarrow> 2 * size n + 1)", goal_cases)
  case (2 node self x)
  then show ?case by (cases node) simp
qed simp_all

declare merge_node.simps [simp del] merge_children.simps(2) [simp del] add_child_node.simps [simp del]

definition leaf_node :: "tree_entry \<Rightarrow> bool \<Rightarrow> file_tree_node" where
  "leaf_node e h = FileTreeNode e h []"

definition blank_entry :: "uid \<Rightarrow> uid \<Rightarrow> tree_entry" where
  "blank_entry u r = \<lparr>te_uid = u, te_root_uid = r, te_virtual = False, te_name = None, te_size = None,
     te_type = PNone, te_not_analyzed = False\<rparr>"

section \<open>Partial trees\<close>

record file_tree_data =
  td_uid :: uid
  td_file_name :: "string option"
  td_size :: "int option"
  td_virtual_file_path :: vfp_dict
  td_mime :: pyval
  td_included_files :: "uid list"

definition get_vpath_relative_to :: "string \<Rightarrow> string \<Rightarrow> string result" where
  "get_vpath_relative_to virtual_path u =
     (let es = split_on (CHR ''|'') virtual_path in
      if u \<notin> set es then Inl ValueError
      else Inr (join_with ''|'' ([] # dropWhile (\<lambda>e. e \<noteq> u) es)))"

text \<open>\<open>None in path\<close> is a \<open>TypeError\<close>.\<close>

definition in_path :: "uid \<Rightarrow> string \<Rightarrow> bool result" where
  "in_path u vpath = (case u of None \<Rightarrow> Inl TypeError | Some s \<Rightarrow> Inr (substr_in s vpath))"

definition get_partial_virtual_paths :: "vfp_dict \<Rightarrow> uid \<Rightarrow> string list result" where
  "get_partial_virtual_paths virtual_path new_root =
     bind_r (mapM_r (\<lambda>vpath. bind_r (in_path new_root vpath) (\<lambda>b.
         if b then map_r (\<lambda>p. [p]) (get_vpath_relative_to vpath (fstr new_root)) else Inr []))
       (concat (dvalues virtual_path)))
       (\<lambda>pss. Inr (if concat pss = [] then [''|'' @ fstr new_root @ ''|''] else sort (remdups (concat pss))))"

record file_tree =
  ft_uid :: uid
  ft_root_uid :: uid
  ft_parent_uid :: uid
  ft_data :: file_tree_data
  ft_whitelist :: "uid list option"
  ft_paths :: "string list"

fun any_in_path :: "uid \<Rightarrow> string list \<Rightarrow> bool result" where
  "any_in_path u [] = Inr False"
| "any_in_path u (p # ps) = bind_r (in_path u p) (\<lambda>b. if b then Inr True else any_in_path u ps)"

fun find_root_in :: "uid \<Rightarrow> vfp_dict \<Rightarrow> uid option result" where
  "find_root_in parent_uid [] = Inr None"
| "find_root_in parent_uid ((r_uid, vfp_list) # rest) =
     bind_r (any_in_path parent_uid vfp_list) (\<lambda>b. if b then Inr (Some r_uid) else find_root_in parent_uid rest)"

definition find_root_uid :: "uid \<Rightarrow> file_tree_data \<Rightarrow> uid result" where
  "find_root_uid parent_uid fo_data =
     bind_r (find_root_in parent_uid (td_virtual_file_path fo_data)) (\<lambda>r. case r of
       Some r_uid \<Rightarrow> Inr r_uid
     | None \<Rightarrow> (case td_virtual_file_path fo_data of [] \<Rightarrow> Inl IndexError | (r0, _) # _ \<Rightarrow> Inr r0))"

definition file_tree_is_for_file_object :: "uid \<Rightarrow> file_tree_data \<Rightarrow> bool" where
  "file_tree_is_for_file_object r_uid fo_data \<longleftrightarrow> \<not> dmem r_uid (td_virtual_file_path fo_data)"

definition tree_virtual_file_paths :: "uid \<Rightarrow> file_tree_data \<Rightarrow> string list result" where
  "tree_virtual_file_paths r_uid fo_data =
     (if file_tree_is_for_file_object r_uid fo_data
      then get_partial_virtual_paths (td_virtual_file_path fo_data) r_uid
      else dlookup (td_virtual_file_path fo_data) r_uid)"

definition virtual_path_file_tree ::
  "uid \<Rightarrow> uid \<Rightarrow> file_tree_data \<Rightarrow> uid list option \<Rightarrow> file_tree result" where
  "virtual_path_file_tree r_uid parent_uid fo_data whitelist =
     bind_r (if truthy_str r_uid then Inr r_uid else find_root_uid parent_uid fo_data) (\<lambda>r.
     bind_r (tree_virtual_file_paths r fo_data) (\<lambda>ps.
       Inr \<lparr>ft_uid = td_uid fo_data, ft_root_uid = r, ft_parent_uid = parent_uid, ft_data = fo_data,
            ft_whitelist = whitelist, ft_paths = ps\<rparr>))"

definition tree_has_children :: "file_tree \<Rightarrow> bool" where
  "tree_has_children T = (case ft_whitelist T of
      Some (w # ws) \<Rightarrow> (\<exists>f \<in> set (w # ws). f \<in> set (td_included_files (ft_data T)))
    | _ \<Rightarrow> td_included_files (ft_data T) \<noteq> [])"

definition tree_file_name :: "file_tree \<Rightarrow> string list \<Rightarrow> string option" where
  "tree_file_name T current_virtual_path =
     (case current_virtual_path of [] \<Rightarrow> td_file_name (ft_data T) | e # _ \<Rightarrow> Some e)"

definition get_node_for_real_file :: "file_tree \<Rightarrow> string list \<Rightarrow> file_tree_node" where
  "get_node_for_real_file T current_virtual_path =
     leaf_node \<lparr>te_uid = ft_uid T, te_root_uid = ft_root_uid T, te_virtual = False,
        te_name = tree_file_name T current_virtual_path, te_size = td_size (ft_data T),
        te_type = td_mime (ft_data T), te_not_analyzed = False\<rparr> (tree_has_children T)"

definition directory_entry :: "file_tree \<Rightarrow> string \<Rightarrow> tree_entry" where
  "directory_entry T name = (blank_entry None (ft_root_uid T))\<lparr>te_virtual := True, te_name := Some name\<rparr>"

fun create_node_from_virtual_path :: "file_tree \<Rightarrow> string list \<Rightarrow> file_tree_node" where
  "create_node_from_virtual_path T (current_element # e # rest) =
     add_child_node (create_node_from_virtual_path T (e # rest))
       (leaf_node (directory_entry T current_element) False)"
| "create_node_from_virtual_path T path = get_node_for_real_file T path"

text \<open>The nodes a generator has yielded, and the exception that ended it, if any.\<close>

fun nodes_of_paths :: "file_tree \<Rightarrow> string list \<Rightarrow> file_tree_node list \<times> py_error option" where
  "nodes_of_paths T [] = ([], None)"
| "nodes_of_paths T (virtual_path # ps) =
     (case split_on (CHR ''/'') virtual_path of
        [] \<Rightarrow> ([], Some ValueError)
      | c0 # path_elements \<Rightarrow>
         let containers = split_virtual_path c0;
             node = create_node_from_virtual_path T path_elements in
         if ft_parent_uid T = None then
           (case nodes_of_paths T ps of (ns, err) \<Rightarrow> (node # ns, err))
         else if containers = [] then ([], Some IndexError)
         else if Some (last containers) = ft_parent_uid T then
           (case nodes_of_paths T ps of (ns, err) \<Rightarrow> (node # ns, err))
         else nodes_of_paths T ps)"

definition get_file_tree_nodes :: "file_tree \<Rightarrow> file_tree_node list \<times> py_error option" where
  "get_file_tree_nodes T = nodes_of_paths T (ft_paths T)"

section \<open>Feeding the tree from the database\<close>

definition get_included_files_for_uid_list :: "db \<Rightarrow> uid list \<Rightarrow> (uid, uid list) dict" where
  "get_included_files_for_uid_list d uid_list =
     map (\<lambda>(u, _). (u, map snd (filter (\<lambda>(p, c). p = u) (included_tbl d))))
       (filter (\<lambda>(u, _). u \<in> set uid_list \<and> (\<exists>(p, c) \<in> set (included_tbl d). p = u)) (file_tbl d))"

text \<open>A key that the JSON column does not have is \<open>NULL\<close>.\<close>

definition get_mime_types_for_uid_list :: "db \<Rightarrow> uid list \<Rightarrow> (uid, pyval) dict" where
  "get_mime_types_for_uid_list d uid_list =
     map (\<lambda>((u, p), a). (u, case map_of (an_result a) ''mime'' of None \<Rightarrow> PNone | Some m \<Rightarrow> m))
       (filter (\<lambda>((u, p), a). p = ''file_type'' \<and> u \<in> set uid_list) (analysis_tbl d))"

definition get_file_tree_data :: "db \<Rightarrow> uid list \<Rightarrow> file_tree_data list" where
  "get_file_tree_data d uid_list =
     (let included_files = get_included_files_for_uid_list d uid_list;
          type_analyses = get_mime_types_for_uid_list d uid_list
      in map (\<lambda>(u, e). \<lparr>td_uid = u, td_file_name = fe_file_name e, td_size = fe_size e,
           td_virtual_file_path = fe_virtual_file_paths e,
           td_mime = (case map_of type_analyses u of None \<Rightarrow> PNone | Some m \<Rightarrow> m),
           td_included_files = (case map_of included_files u of None \<Rightarrow> [] | Some fs \<Rightarrow> fs)\<rparr>)
         (filter (\<lambda>(u, e). u \<in> set uid_list) (file_tbl d)))"

definition not_analyzed_node :: "uid \<Rightarrow> uid \<Rightarrow> file_tree_node" where
  "not_analyzed_node u r_uid =
     leaf_node ((blank_entry u r_uid)\<lparr>te_not_analyzed := True, te_name := Some (fstr u @ '' (not analyzed yet)'')\<rparr>) False"

definition tree_level_of ::
  "uid \<Rightarrow> uid \<Rightarrow> uid \<Rightarrow> uid list option \<Rightarrow> file_tree_data \<Rightarrow> file_tree_node list \<times> py_error option" where
  "tree_level_of u r_uid parent_uid whitelist data =
     (case (case virtual_path_file_tree r_uid parent_uid data whitelist of
              Inl e \<Rightarrow> ([], Some e) | Inr T \<Rightarrow> get_file_tree_nodes T) of
        (ns, None) \<Rightarrow> (ns, None)
      | (ns, Some e) \<Rightarrow>
          if e = KeyError \<or> e = TypeError then (ns @ [not_analyzed_node u r_uid], None) else (ns, Some e))"

definition generate_file_tree_level ::
  "db \<Rightarrow> uid \<Rightarrow> uid \<Rightarrow> uid \<Rightarrow> uid list option \<Rightarrow> file_tree_data option \<Rightarrow> file_tree_node list \<times> py_error option" where
  "generate_file_tree_level d u r_uid parent_uid whitelist data = (case data of
      Some t \<Rightarrow> tree_level_of u r_uid parent_uid whitelist t
    | None \<Rightarrow> (case get_file_tree_data d [u] of
          [] \<Rightarrow> ([], Some IndexError)
        | t # _ \<Rightarrow> tree_level_of u r_uid parent_uid whitelist t))"

fun yield_from_all :: "('a \<Rightarrow> 'b list \<times> py_error option) \<Rightarrow> 'a list \<Rightarrow> 'b list \<times> py_error option" where
  "yield_from_all g [] = ([], None)"
| "yield_from_all g (x # xs) = (case g x of
      (ys, Some e) \<Rightarrow> (ys, Some e)
    | (ys, None) \<Rightarrow> (case yield_from_all g xs of (zs, err) \<Rightarrow> (ys @ zs, err)))"

definition generate_file_tree_nodes_for_uid_list ::
  "db \<Rightarrow> uid list \<Rightarrow> uid \<Rightarrow> uid \<Rightarrow> uid list option \<Rightarrow> file_tree_node list \<times> py_error option" where
  "generate_file_tree_nodes_for_uid_list d uid_list r_uid parent_uid whitelist =
     yield_from_all (\<lambda>entry. generate_file_tree_level d (td_uid entry) r_uid parent_uid whitelist (Some entry))
       (get_file_tree_data d uid_list)"


section \<open>Icons and the jstree representation\<close>

text \<open>
  The icon files found on the disk and the rendering of a file size are parameters of the
  conversion.
\<close>

record icon_env =
  ie_icons :: "(string, string) dict"
  ie_size :: "int option \<Rightarrow> string"

definition GNOME_PREFIX :: string where
  "GNOME_PREFIX = ''gnome-mime-''"

definition extra_icons :: "(string, string) dict" where
  "extra_icons = [(''application-x-pie-executable'', ''/static/file_icons/mimetypes/application-x-executable.svg''),
     (''application-x-dosexec'', ''/static/file_icons/mimetypes/application-x-ms-dos-executable.svg''),
     (''linux-device-tree'', ''/static/file_icons/firmware.svg'')]"

text \<open>Icons with the GNOME prefix are added without it if there is none of that name.\<close>

definition MIME_TO_ICON_PATH :: "(string, string) dict \<Rightarrow> (string, string) dict" where
  "MIME_TO_ICON_PATH icons =
     (let m = dupdate icons extra_icons in
      dupdate m (concat (map (\<lambda>(k, v).
        let k' = replace_str GNOME_PREFIX [] k in
        if startswith k GNOME_PREFIX \<and> \<not> dmem k' m then [(k', v)] else []) m)))"

definition EXTENSION_TO_MIME :: "(string, string) dict" where
  "EXTENSION_TO_MIME = [(''c'', ''text-x-csrc''), (''cert'', ''application-certificate''), (''cfg'', ''text-x-makefile''),
     (''cnf'', ''text-x-makefile''), (''conf'', ''text-x-makefile''), (''control'', ''application-x-deb''),
     (''cpp'', ''text-x-c++src''), (''crt'', ''application-certificate''), (''eps'', ''application-postscript''),
     (''h'', ''text-x-chdr''), (''htm'', ''text-html''), (''image'', ''package-x-generic''), (''ini'', ''text-x-makefile''),
     (''js'', ''application-x-javascript''), (''key'', ''application-pgp''), (''md'', ''text-x-markdown''),
     (''pem'', ''application-certificate''), (''pl'', ''application-x-perl''), (''properties'', ''text-x-java''),
     (''ps'', ''application-postscript''), (''pub'', ''application-pgp''), (''py'', ''text-x-python''),
     (''rb'', ''application-x-ruby''), (''sh'', ''application-x-shellscript''), (''svg'', ''image-svg+xml''),
     (''ts'', ''application-x-javascript''), (''xsd'', ''text-xml''), (''yml'', ''application-x-yaml'')]"

definition SPECIAL_FILES :: "(string, string) dict" where
  "SPECIAL_FILES = [(''authors'', ''text-x-credits''), (''license'', ''text-x-copying''), (''readme'', ''text-x-readme''),
     (''version'', ''text-x-readme'')]"

definition ARCHIVE_FILE_TYPES :: "string list" where
  "ARCHIVE_FILE_TYPES = [''application/java-archive'', ''application/rar'', ''application/x-adf'', ''application/x-alzip'',
     ''application/x-bzip2'', ''application/x-cab'', ''application/x-debian-package'', ''application/x-dms'',
     ''application/x-iso9660-image'', ''application/x-lrzip'', ''application/x-lzh'', ''application/x-lzip'',
     ''application/x-redhat-package-manager'', ''application/x-rzip'', ''application/x-shar'', ''application/x-sit'',
     ''application/x-sitx'', ''application/x-stuffitx'', ''application/x-xz'', ''application/x-zip-compressed'',
     ''application/zpaq'', ''compression/zlib'']"

definition TYPE_CATEGORY_TO_ICON :: "(string, string) dict" where
  "TYPE_CATEGORY_TO_ICON = [(''audio/'', ''/static/file_icons/mimetypes/audio-x-generic.svg''),
     (''filesystem/'', ''/static/file_icons/filesystem.svg''), (''firmware/'', ''/static/file_icons/firmware.svg''),
     (''font/'', ''/static/file_icons/mimetypes/font-x-generic.svg''),
     (''image/'', ''/static/file_icons/mimetypes/image-x-generic.svg''),
     (''text/'', ''/static/file_icons/mimetypes/text-x-generic.svg''),
     (''video/'', ''/static/file_icons/mimetypes/video-x-generic.svg'')]"

text \<open>\<open>Path(s).suffix\<close>: from the last dot of the name, unless it is the first or last character.\<close>

definition path_suffix :: "string \<Rightarrow> string" where
  "path_suffix s =
     (let n = path_name s; r = takeWhile (\<lambda>c. c \<noteq> CHR ''.'') (rev n); i = length n - length r - 1 in
      if CHR ''.'' \<in> set n \<and> 0 < i \<and> r \<noteq> [] then drop i n else [])"

definition get_mime_for_text_file :: "(string, string) dict \<Rightarrow> string \<Rightarrow> string" where
  "get_mime_for_text_file icons filename = (case dget SPECIAL_FILES (lower filename) of
      Some m \<Rightarrow> m
    | None \<Rightarrow>
        let suffix = lower (lstrip (CHR ''.'') (path_suffix filename)) in
        if suffix = [] then ''text/plain''
        else (case dget EXTENSION_TO_MIME suffix of
            Some m \<Rightarrow> m
          | None \<Rightarrow> (case find (\<lambda>m. dmem m (MIME_TO_ICON_PATH icons))
                (map (\<lambda>p. p @ ''-'' @ suffix) [''text'', ''text-x'', ''application'', ''application-x'']) of
              Some m \<Rightarrow> m | None \<Rightarrow> ''text/plain'')))"

definition get_icon_for_mime :: "(string, string) dict \<Rightarrow> pyval \<Rightarrow> string result" where
  "get_icon_for_mime icons mime_type = (case mime_type of
      PNone \<Rightarrow> dlookup (MIME_TO_ICON_PATH icons) ''unknown''
    | PStr m \<Rightarrow> (case dget (MIME_TO_ICON_PATH icons) (replace_char (CHR ''/'') ''-'' m) of
          Some p \<Rightarrow> Inr p
        | None \<Rightarrow>
            if m \<in> set ARCHIVE_FILE_TYPES then dlookup (MIME_TO_ICON_PATH icons) ''package-x-generic''
            else (case find (\<lambda>(c, _). startswith m c) TYPE_CATEGORY_TO_ICON of
                Some (_, p) \<Rightarrow> Inr p | None \<Rightarrow> dlookup (MIME_TO_ICON_PATH icons) ''unknown''))
    | _ \<Rightarrow> Inl AttributeError)"

datatype jstree =
    JsNode (js_text: string) (js_href: string) (js_icon: string) (js_data: "uid option") (js_children: js_children)
and js_children = NoChildren | ChildrenOnRequest | Children "jstree list"

definition analysis_link :: "tree_entry \<Rightarrow> string" where
  "analysis_link e = ''/analysis/'' @ fstr (te_uid e) @ ''/ro/'' @ fstr (te_root_uid e)"

definition get_directory_jstree_node :: "tree_entry \<Rightarrow> js_children \<Rightarrow> jstree" where
  "get_directory_jstree_node e = JsNode (fstr (te_name e)) ''#'' ''/static/file_icons/folder.svg'' None"

definition get_not_analyzed_jstree_node :: "tree_entry \<Rightarrow> js_children \<Rightarrow> jstree" where
  "get_not_analyzed_jstree_node e = JsNode (fstr (te_name e)) (analysis_link e) ''/static/file_icons/not_analyzed.svg'' None"

definition get_file_jstree_node :: "icon_env \<Rightarrow> tree_entry \<Rightarrow> (js_children \<Rightarrow> jstree) result" where
  "get_file_jstree_node I e =
     bind_r (if te_type e = PStr ''text/plain''
             then (case te_name e of None \<Rightarrow> Inl AttributeError
                                   | Some n \<Rightarrow> Inr (PStr (get_mime_for_text_file (ie_icons I) n)))
             else Inr (te_type e)) (\<lambda>mime.
     map_r (\<lambda>icon. JsNode (''<b>'' @ fstr (te_name e) @ ''</b> (<span style=\"color:gray;\">'' @ ie_size I (te_size e) @ ''</span>)'')
         (analysis_link e) icon (Some (te_uid e))) (get_icon_for_mime (ie_icons I) mime))"

lemma mapM_r_cong [fundef_cong]:
  "xs = ys \<Longrightarrow> (\<And>x. x \<in> set ys \<Longrightarrow> f x = g x) \<Longrightarrow> mapM_r f xs = mapM_r g ys"
  by (induction xs arbitrary: ys) auto

text \<open>A node with children that are not loaded yet gets \<open>True\<close> for them.\<close>

definition get_jstree_child_nodes :: "(file_tree_node \<Rightarrow> jstree result) \<Rightarrow> file_tree_node list \<Rightarrow> js_children result" where
  "get_jstree_child_nodes convert child_nodes =
     (if child_nodes = [] then Inr ChildrenOnRequest else map_r Children (mapM_r convert child_nodes))"

lemma get_jstree_child_nodes_cong [fundef_cong]:
  "xs = ys \<Longrightarrow> (\<And>x. x \<in> set ys \<Longrightarrow> f x = g x) \<Longrightarrow> get_jstree_child_nodes f xs = get_jstree_child_nodes g ys"
  by (simp add: get_jstree_child_nodes_def cong: mapM_r_cong)

fun convert_to_jstree_node :: "icon_env \<Rightarrow> file_tree_node \<Rightarrow> jstree result" where
  "convert_to_jstree_node I (FileTreeNode e h cs) =
     bind_r (if te_virtual e then Inr (get_directory_jstree_node e)
             else if te_not_analyzed e then Inr (get_not_analyzed_jstree_node e)
             else get_file_jstree_node I e) (\<lambda>jstree_node.
     bind_r (if h then get_jstree_child_nodes (convert_to_jstree_node I) cs else Inr NoChildren) (\<lambda>children.
       Inr (jstree_node children)))"

text \<open>\<open>root[0]\<close> of the \<open>True\<close> that stands for children not loaded yet is a \<open>TypeError\<close>.\<close>

fun root_is_virtual :: "jstree list \<Rightarrow> bool" where
  "root_is_virtual [] = False"
| "root_is_virtual (n # ns) = (js_href n = ''#'')"

fun remove_virtual_path_from_root :: "jstree list \<Rightarrow> jstree list result" where
  "remove_virtual_path_from_root [] = Inr []"
| "remove_virtual_path_from_root (JsNode t href i dt children # ns) =
     (if \<not> root_is_virtual (JsNode t href i dt children # ns) then Inr (JsNode t href i dt children # ns)
      else (case children of
          NoChildren \<Rightarrow> Inl KeyError
        | ChildrenOnRequest \<Rightarrow> Inl TypeError
        | Children cs \<Rightarrow> remove_virtual_path_from_root cs))"

section \<open>The routes of the file tree\<close>

definition whitelist_of :: "pyval \<Rightarrow> uid list result" where
  "whitelist_of v = (case v of
      PList l \<Rightarrow> Inr (concat (map (\<lambda>e. case e of PStr s \<Rightarrow> [Some s] | _ \<Rightarrow> []) l)) | _ \<Rightarrow> Inl TypeError)"

definition route_exclusive_files :: "db \<Rightarrow> string option \<Rightarrow> uid \<Rightarrow> uid list option result" where
  "route_exclusive_files d compare_id r_uid =
     (if truthy_str compare_id then bind_r (get_exclusive_files d compare_id r_uid) (\<lambda>v. map_r Some (whitelist_of v))
      else Inr None)"

definition empty_tree :: file_tree_node where
  "empty_tree = leaf_node (blank_entry None None) False"

definition generate_file_tree :: "db \<Rightarrow> uid \<Rightarrow> uid \<Rightarrow> uid list option \<Rightarrow> file_tree_node result" where
  "generate_file_tree d r_uid u whitelist =
     bind_r (get_object d u None) (\<lambda>fo. case fo of
       None \<Rightarrow> Inl AttributeError
     | Some f \<Rightarrow>
         let child_uids = filter (\<lambda>c. case whitelist of None \<Rightarrow> True | Some w \<Rightarrow> c \<in> set w) (files_included f) in
         (case generate_file_tree_nodes_for_uid_list d child_uids r_uid u whitelist of
            (_, Some e) \<Rightarrow> Inl e
          | (ns, None) \<Rightarrow> Inr (fold add_child_node ns empty_tree)))"

definition ajax_get_tree_children ::
  "icon_env \<Rightarrow> db \<Rightarrow> uid \<Rightarrow> uid \<Rightarrow> string option \<Rightarrow> jstree list result" where
  "ajax_get_tree_children I d u r_uid compare_id =
     (let r = none_to_none r_uid; cid = none_to_none compare_id in
      bind_r (route_exclusive_files d cid r) (\<lambda>exclusive_files.
      bind_r (generate_file_tree d r u exclusive_files) (\<lambda>tree.
        mapM_r (convert_to_jstree_node I) (get_list_of_child_nodes tree))))"

text \<open>The loop keeps the last node.\<close>

definition ajax_get_tree_root :: "icon_env \<Rightarrow> db \<Rightarrow> uid \<Rightarrow> uid \<Rightarrow> jstree list result" where
  "ajax_get_tree_root I d u r_uid = (case generate_file_tree_level d u r_uid None None None of (ns, err) \<Rightarrow>
     bind_r (mapM_r (convert_to_jstree_node I) ns) (\<lambda>js. case err of
       Some e \<Rightarrow> Inl e
     | None \<Rightarrow> remove_virtual_path_from_root (if js = [] then [] else [last js])))"

section \<open>A tree as a map from paths to entries\<close>

text \<open>
  A path is the list of the keys from the top of the tree. Siblings have distinct keys, and
  a node with children says so.
\<close>

definition find_id :: "node_id \<Rightarrow> file_tree_node list \<Rightarrow> file_tree_node option" where
  "find_id i cs = find (\<lambda>c. get_id c = i) cs"

fun entry_at :: "file_tree_node \<Rightarrow> node_id list \<Rightarrow> tree_entry option" where
  "entry_at n [] = Some (node_entry n)"
| "entry_at n (i # p) = (case find_id i (get_list_of_child_nodes n) of None \<Rightarrow> None | Some c \<Rightarrow> entry_at c p)"

fun tree_ok :: "file_tree_node \<Rightarrow> bool" where
  "tree_ok (FileTreeNode e h cs) \<longleftrightarrow> distinct (map get_id cs) \<and> (cs \<noteq> [] \<longrightarrow> h) \<and> (\<forall>c \<in> set cs. tree_ok c)"

text \<open>The entries a list of siblings has below their parent.\<close>

definition under :: "file_tree_node list \<Rightarrow> node_id list \<Rightarrow> tree_entry option" where
  "under cs p = (case p of [] \<Rightarrow> None | i # q \<Rightarrow> (case find_id i cs of None \<Rightarrow> None | Some c \<Rightarrow> entry_at c q))"

lemma find_id_simps [simp]:
  "find_id i [] = None"
  "find_id i (c # cs) = (if get_id c = i then Some c else find_id i cs)"
  by (simp_all add: find_id_def)

lemma find_id_append: "find_id i (cs @ ds) = (case find_id i cs of None \<Rightarrow> find_id i ds | Some c \<Rightarrow> Some c)"
  by (induction cs) auto

lemma find_id_SomeD: "find_id i cs = Some c \<Longrightarrow> c \<in> set cs \<and> get_id c = i"
  by (induction cs) (auto split: if_splits)

lemma find_id_None_iff: "find_id i cs = None \<longleftrightarrow> i \<notin> get_id ` set cs"
  by (induction cs) auto

lemma find_id_absent [simp]: "i \<notin> get_id ` set cs \<Longrightarrow> find_id i cs = None"
  by (simp add: find_id_None_iff)

lemma find_id_map:
  "(\<And>c. get_id (f c) = get_id c) \<Longrightarrow>
   find_id j (map (\<lambda>c. if get_id c = i then f c else c) cs) =
     (if j = i then map_option f (find_id j cs) else find_id j cs)"
  by (induction cs) auto

lemma contains_node_iff: "contains_node n t \<longleftrightarrow> find_id (get_id n) (get_list_of_child_nodes t) \<noteq> None"
  by (simp add: contains_node_def find_id_None_iff)

lemma entry_at_under: "entry_at t p = (case p of [] \<Rightarrow> Some (node_entry t) | _ \<Rightarrow> under (get_list_of_child_nodes t) p)"
  by (cases p) (simp_all add: under_def)

lemma under_simps [simp]:
  "under [] p = None" "under cs [] = None"
  by (simp_all add: under_def split: list.splits)

lemma under_Cons:
  "get_id n \<notin> get_id ` set ns \<Longrightarrow> under ns ++ under [n] = under (n # ns)"
  by (rule ext) (auto simp: map_add_def under_def split: list.splits option.splits)

lemma tree_ok_iff: "tree_ok t \<longleftrightarrow> distinct (map get_id (get_list_of_child_nodes t)) \<and>
    (get_list_of_child_nodes t \<noteq> [] \<longrightarrow> has_children t) \<and> (\<forall>c \<in> set (get_list_of_child_nodes t). tree_ok c)"
  by (cases t) simp

lemma tree_ok_leaf [simp]: "tree_ok (leaf_node e h)"
  by (simp add: leaf_node_def)

lemma node_entry_update_child [simp]: "node_entry (update_child i f t) = node_entry t"
  by (cases t) simp

lemma append_child_sel [simp]:
  "node_entry (append_child n t) = node_entry t"
  "get_list_of_child_nodes (append_child n t) = get_list_of_child_nodes t @ [n]"
  "has_children (append_child n t)"
  by (cases t; simp)+

lemma node_entry_merge [simp]:
  "node_entry (merge_node n t) = node_entry t"
  "node_entry (merge_children ns t) = node_entry t"
  "node_entry (add_child_node n t) = node_entry t"
proof (induction n t and ns t and n t rule: merge_node_merge_children_add_child_node.induct)
  case (3 child rest current_node)
  then show ?case by (simp add: merge_children.simps(2))
qed (simp_all add: merge_node.simps add_child_node.simps)

lemma get_id_merge [simp]:
  "get_id (merge_node n t) = get_id t" "get_id (merge_children ns t) = get_id t"
  "get_id (add_child_node n t) = get_id t"
  by (simp_all add: get_id_def)

lemma entry_at_update_child:
  assumes "\<And>c. get_id (f c) = get_id c" "find_id i (get_list_of_child_nodes t) = Some c"
  shows "entry_at (update_child i f t) p =
    (case p of j # q \<Rightarrow> if j = i then entry_at (f c) q else entry_at t p | [] \<Rightarrow> entry_at t p)"
  using assms by (cases t; cases p) (auto simp: find_id_map)

lemma tree_ok_update_child:
  assumes "\<And>c. get_id (f c) = get_id c" "tree_ok t"
    "\<And>c. c \<in> set (get_list_of_child_nodes t) \<Longrightarrow> get_id c = i \<Longrightarrow> tree_ok (f c)"
  shows "tree_ok (update_child i f t)"
proof (cases t)
  case (FileTreeNode e h cs)
  have "map get_id (map (\<lambda>c. if get_id c = i then f c else c) cs) = map get_id cs"
    using assms(1) by simp
  then show ?thesis using assms(2,3) FileTreeNode
    by (auto simp del: map_map simp: comp_def)
qed

lemma entry_at_append_child:
  "find_id (get_id n) (get_list_of_child_nodes t) = None \<Longrightarrow>
   entry_at (append_child n t) = under [n] ++ entry_at t"
  by (rule ext) (auto simp: map_add_def entry_at_under[of "append_child n t"] entry_at_under[of t] under_def
      find_id_append split: list.splits option.splits)

text \<open>
  Adding a node is a map union in which the entries of the tree win; merging the children
  of a node of the same key is the union with its subtree.
\<close>

lemma merge_union:
  "tree_ok n \<Longrightarrow> tree_ok t \<Longrightarrow> contains_node n t \<Longrightarrow>
     tree_ok (merge_node n t) \<and> entry_at (merge_node n t) = under [n] ++ entry_at t"
  "\<forall>n \<in> set ns. tree_ok n \<Longrightarrow> distinct (map get_id ns) \<Longrightarrow> tree_ok t \<Longrightarrow>
     tree_ok (merge_children ns t) \<and> entry_at (merge_children ns t) = under ns ++ entry_at t"
  "tree_ok n \<Longrightarrow> tree_ok t \<Longrightarrow> tree_ok (add_child_node n t) \<and> entry_at (add_child_node n t) = under [n] ++ entry_at t"
proof (induction n t and ns t and n t rule: merge_node_merge_children_add_child_node.induct)
  case (1 n t)
  then obtain c where c: "find_id (get_id n) (get_list_of_child_nodes t) = Some c"
    by (auto simp: contains_node_iff)
  note n = "1.prems"(1)[unfolded tree_ok_iff[of n]]
  have IH: "tree_ok (merge_children (get_list_of_child_nodes n) c')
      \<and> entry_at (merge_children (get_list_of_child_nodes n) c') = under (get_list_of_child_nodes n) ++ entry_at c'"
    if "c' \<in> set (get_list_of_child_nodes t)" for c'
    using "1.IH"[of c'] n that "1.prems"(2) tree_ok_iff[of t] by blast
  have "entry_at (merge_node n t) p = (under [n] ++ entry_at t) p" for p
    unfolding merge_node.simps
    by (subst entry_at_update_child[OF _ c])
      (use IH[of c] find_id_SomeD[OF c] c in \<open>auto simp: map_add_def under_def entry_at_under[of n]
        entry_at_under[of c] split: list.splits option.splits\<close>)
  moreover have "tree_ok (merge_node n t)"
    unfolding merge_node.simps using "1.prems"(2) IH by (intro tree_ok_update_child) auto
  ultimately show ?case by blast
next
  case (2 t)
  then show ?case by (auto simp: map_add_def)
next
  case (3 n ns t)
  let ?t = "if contains_node n t then merge_node n t else add_child_node n t"
  have t: "tree_ok ?t \<and> entry_at ?t = under [n] ++ entry_at t"
    using "3.IH"(1,2) "3.prems" by auto
  have "tree_ok (merge_children ns ?t) \<and> entry_at (merge_children ns ?t) = under ns ++ entry_at ?t"
    by (rule "3.IH"(3)) (use "3.prems" t in auto)
  moreover have "under ns ++ (under [n] ++ entry_at t) = under (n # ns) ++ entry_at t"
    using under_Cons[of n ns] "3.prems" by simp
  ultimately show ?case using t by (simp add: merge_children.simps(2))
next
  case (4 n t)
  show ?case
  proof (cases "contains_node n t")
    case True
    then show ?thesis using 4 by (simp add: add_child_node.simps)
  next
    case False
    then have n: "find_id (get_id n) (get_list_of_child_nodes t) = None" by (simp add: contains_node_iff)
    then have "tree_ok (append_child n t)"
      using "4.prems" by (cases t) (auto simp: find_id_None_iff)
    then show ?thesis using False entry_at_append_child[OF n] by (simp add: add_child_node.simps)
  qed
qed


section \<open>The nodes of a virtual path\<close>

fun path_ids :: "string option \<Rightarrow> string list \<Rightarrow> node_id list" where
  "path_ids nm (a # b # r) = (Some a, True) # path_ids nm (b # r)"
| "path_ids nm p = [(case p of [] \<Rightarrow> nm | e # _ \<Rightarrow> Some e, False)]"

text \<open>The entries on the way are directories, the last one is the file.\<close>

definition path_entry :: "file_tree \<Rightarrow> string list \<Rightarrow> node_id list \<Rightarrow> tree_entry option" where
  "path_entry T es p =
     (if p = [] \<or> \<not> prefix p (path_ids (td_file_name (ft_data T)) es) then None
      else if p = path_ids (td_file_name (ft_data T)) es then Some (node_entry (get_node_for_real_file T (if es = [] then [] else [last es])))
      else Some (directory_entry T (the (fst (last p)))))"

lemma path_ids_nonempty [simp]: "path_ids nm es \<noteq> []" "[] \<noteq> path_ids nm es"
  by (induction nm es rule: path_ids.induct) simp_all

lemma get_id_leaf [simp]: "get_id (leaf_node e h) = (te_name e, te_virtual e)"
  by (simp add: get_id_def leaf_node_def entry_id_def)

lemma leaf_node_sel [simp]:
  "node_entry (leaf_node e h) = e" "get_list_of_child_nodes (leaf_node e h) = []"
  by (simp_all add: leaf_node_def)

lemma entry_at_leaf: "entry_at (leaf_node e h) p = (if p = [] then Some e else None)"
  by (cases p) simp_all

lemma get_id_create: "get_id (create_node_from_virtual_path T es) = hd (path_ids (td_file_name (ft_data T)) es)"
  by (induction T es rule: create_node_from_virtual_path.induct)
     (simp_all add: directory_entry_def get_node_for_real_file_def tree_file_name_def)

lemma create_node_entries:
  "tree_ok (create_node_from_virtual_path T es) \<and> under [create_node_from_virtual_path T es] = path_entry T es"
proof (induction T es rule: create_node_from_virtual_path.induct)
  case (1 T a b r)
  let ?n = "create_node_from_virtual_path T (b # r)" and ?l = "leaf_node (directory_entry T a) False"
  let ?m = "add_child_node ?n ?l"
  have m: "tree_ok ?m" "entry_at ?m = under [?n] ++ entry_at ?l"
    using merge_union(3)[of ?n ?l] 1 by auto
  have "under [?m] p = path_entry T (a # b # r) p" for p
  proof (cases p)
    case (Cons i q)
    have "get_id ?m = (Some a, True)" by (simp add: directory_entry_def)
    then show ?thesis using m(2) 1 Cons
      by (cases q) (auto simp: under_def[of "[?m]"] map_add_def entry_at_leaf path_entry_def
          split: option.splits)
  qed (simp add: path_entry_def)
  with m(1) show ?case by auto
qed (auto simp: get_node_for_real_file_def tree_file_name_def path_entry_def under_def entry_at_leaf fun_eq_iff prefix_Cons
    split: list.splits)

lemma fold_add_child:
  "\<forall>n \<in> set ns. tree_ok n \<Longrightarrow> tree_ok t \<Longrightarrow>
   tree_ok (fold add_child_node ns t) \<and>
   (\<forall>p. entry_at (fold add_child_node ns t) p = fold (\<lambda>n m. under [n] ++ m) ns (entry_at t) p)"
  by (induction ns arbitrary: t) (use merge_union(3) in auto)

lemma fold_union_dom: "(fold (\<lambda>n m. under [n] ++ m) ns m0) p = Some e \<Longrightarrow>
   m0 p = Some e \<or> (\<exists>n \<in> set ns. under [n] p = Some e)"
  by (induction ns arbitrary: m0) (fastforce simp: map_add_def split: option.splits)+

lemma fold_union_defined:
  "(fold (\<lambda>n m. under [n] ++ m) ns m0) p = None \<longleftrightarrow> m0 p = None \<and> (\<forall>n \<in> set ns. under [n] p = None)"
  by (induction ns arbitrary: m0) (auto simp: map_add_def split: option.splits)

lemma tree_of_nodes:
  assumes "\<forall>n \<in> set ns. tree_ok n" "t = fold add_child_node ns empty_tree"
  shows "tree_ok t" "p \<noteq> [] \<Longrightarrow> (entry_at t p \<noteq> None) = (\<exists>n \<in> set ns. under [n] p \<noteq> None)"
    "p \<noteq> [] \<Longrightarrow> entry_at t p = Some e \<Longrightarrow> \<exists>n \<in> set ns. under [n] p = Some e"
proof -
  have e: "entry_at empty_tree p = (if p = [] then Some (blank_entry None None) else None)" for p
    by (simp add: empty_tree_def entry_at_leaf)
  note f = fold_add_child[OF assms(1), of empty_tree, folded assms(2)]
  show "tree_ok t" using f by (simp add: empty_tree_def)
  have f2: "entry_at t p = fold (\<lambda>n m. under [n] ++ m) ns (entry_at empty_tree) p" for p
    using f by (simp add: empty_tree_def)
  show "(entry_at t p \<noteq> None) = (\<exists>n \<in> set ns. under [n] p \<noteq> None)" if "p \<noteq> []"
    unfolding f2 fold_union_defined e using that by simp
  show "\<exists>n \<in> set ns. under [n] p = Some e" if "p \<noteq> []" "entry_at t p = Some e"
    using fold_union_dom[of ns "entry_at empty_tree" p e] that unfolding f2 e by auto
qed

section \<open>A layer of the tree\<close>

definition containers_of :: "string \<Rightarrow> string list" where
  "containers_of vp = split_virtual_path (hd (split_on (CHR ''/'') vp))"

definition elements_of :: "string \<Rightarrow> string list" where
  "elements_of vp = tl (split_on (CHR ''/'') vp)"

lemma nodes_of_paths_ok:
  "\<forall>vp \<in> set ps. containers_of vp \<noteq> [] \<Longrightarrow>
   nodes_of_paths T ps = (map (\<lambda>vp. create_node_from_virtual_path T (elements_of vp))
     (filter (\<lambda>vp. ft_parent_uid T = None \<or> Some (last (containers_of vp)) = ft_parent_uid T) ps), None)"
  by (induction ps)
     (auto simp: containers_of_def elements_of_def Let_def split: list.splits prod.splits)

lemma yield_from_all_ok:
  "\<forall>x \<in> set xs. snd (g x) = None \<Longrightarrow> yield_from_all g xs = (concat (map (\<lambda>x. fst (g x)) xs), None)"
  by (induction xs) (auto split: prod.splits option.splits)

text \<open>A file is shown below a parent if its entry has paths for the root.\<close>

definition shown_paths :: "db \<Rightarrow> uid \<Rightarrow> uid \<Rightarrow> uid \<Rightarrow> (string option \<times> string) list" where
  "shown_paths d r_uid u c = (case map_of (file_tbl d) c of
      None \<Rightarrow> []
    | Some e \<Rightarrow> map (Pair (fe_file_name e)) (filter (\<lambda>vp. Some (last (containers_of vp)) = u)
        (case map_of (fe_virtual_file_paths e) r_uid of None \<Rightarrow> [] | Some ps \<Rightarrow> ps)))"

definition analysed_below :: "db \<Rightarrow> uid \<Rightarrow> uid list \<Rightarrow> bool" where
  "analysed_below d r_uid cs \<longleftrightarrow> (\<forall>(c, e) \<in> set (file_tbl d). c \<in> set cs \<longrightarrow>
     (case map_of (fe_virtual_file_paths e) r_uid of None \<Rightarrow> False
      | Some ps \<Rightarrow> \<forall>vp \<in> set ps. containers_of vp \<noteq> []))"

lemma tree_level_of_ok:
  assumes "map_of (td_virtual_file_path data) (Some r) = Some ps" "r \<noteq> []"
    "\<forall>vp \<in> set ps. containers_of vp \<noteq> []"
  obtains T where "ft_uid T = td_uid data" "ft_data T = data" "ft_root_uid T = Some r" "ft_whitelist T = w"
    "tree_level_of u (Some r) parent w data =
       (map (\<lambda>vp. create_node_from_virtual_path T (elements_of vp))
         (filter (\<lambda>vp. parent = None \<or> Some (last (containers_of vp)) = parent) ps), None)"
proof -
  let ?T = "\<lparr>ft_uid = td_uid data, ft_root_uid = Some r, ft_parent_uid = parent, ft_data = data,
            ft_whitelist = w, ft_paths = ps\<rparr>"
  have "virtual_path_file_tree (Some r) parent data w = Inr ?T"
    using assms(1,2) by (simp add: virtual_path_file_tree_def tree_virtual_file_paths_def dmem_def
      file_tree_is_for_file_object_def dlookup_def)
  then show thesis
    by (intro that[of ?T]) (simp_all add: tree_level_of_def get_file_tree_nodes_def nodes_of_paths_ok[OF assms(3)])
qed

lemma path_entry_Some:
  "path_entry T es p = Some x \<Longrightarrow> p \<noteq> [] \<and> prefix p (path_ids (td_file_name (ft_data T)) es) \<and>
     (if p = path_ids (td_file_name (ft_data T)) es then te_uid x = ft_uid T \<and> \<not> te_virtual x
      else te_uid x = None \<and> te_virtual x)"
  by (auto simp: path_entry_def get_node_for_real_file_def directory_entry_def blank_entry_def split: if_splits)

text \<open>The path leads towards a virtual path of a child; the entry is the one that belongs there.\<close>

definition leads_to_child :: "db \<Rightarrow> uid \<Rightarrow> uid \<Rightarrow> uid list \<Rightarrow> node_id list \<Rightarrow> bool" where
  "leads_to_child d r_uid u cs p \<longleftrightarrow>
     (\<exists>c \<in> set cs. \<exists>(nm, vp) \<in> set (shown_paths d r_uid u c). prefix p (path_ids nm (elements_of vp)))"

definition belongs_at :: "db \<Rightarrow> uid \<Rightarrow> uid \<Rightarrow> uid list \<Rightarrow> node_id list \<Rightarrow> tree_entry \<Rightarrow> bool" where
  "belongs_at d r_uid u cs p x \<longleftrightarrow>
     (\<exists>c \<in> set cs. \<exists>(nm, vp) \<in> set (shown_paths d r_uid u c). prefix p (path_ids nm (elements_of vp)) \<and>
         (if p = path_ids nm (elements_of vp) then te_uid x = c \<and> \<not> te_virtual x else te_uid x = None \<and> te_virtual x))"

lemma belongs_leads: "belongs_at d r_uid u cs p x \<Longrightarrow> leads_to_child d r_uid u cs p"
  unfolding belongs_at_def leads_to_child_def by fast

lemma layer_nodes:
  assumes "db_ok d" "analysed_below d (Some r) cs" "r \<noteq> []"
  obtains ns where
    "generate_file_tree_nodes_for_uid_list d cs (Some r) (Some u) w = (ns, None)"
    "\<forall>n \<in> set ns. tree_ok n"
    "\<And>n p x. n \<in> set ns \<Longrightarrow> under [n] p = Some x \<Longrightarrow>
       belongs_at d (Some r) (Some u) cs p x"
    "\<And>p. leads_to_child d (Some r) (Some u) cs p \<Longrightarrow> p \<noteq> [] \<Longrightarrow> \<exists>n \<in> set ns. under [n] p \<noteq> None"
proof -
  let ?g = "\<lambda>entry. tree_level_of (td_uid entry) (Some r) (Some u) w entry"
  have data: "\<exists>e ps. map_of (file_tbl d) (td_uid t) = Some e \<and> td_uid t \<in> set cs \<and> td_file_name t = fe_file_name e
      \<and> td_virtual_file_path t = fe_virtual_file_paths e \<and> map_of (fe_virtual_file_paths e) (Some r) = Some ps
      \<and> (\<forall>vp \<in> set ps. containers_of vp \<noteq> [])" if "t \<in> set (get_file_tree_data d cs)" for t
  proof -
    from that obtain c e where ce: "(c, e) \<in> set (file_tbl d)" "c \<in> set cs" "td_uid t = c" "td_file_name t = fe_file_name e"
        "td_virtual_file_path t = fe_virtual_file_paths e"
      by (auto simp: get_file_tree_data_def Let_def)
    moreover from ce(1) assms(1) have "map_of (file_tbl d) c = Some e" by (simp add: db_ok_def dict_ok_def)
    moreover have "case map_of (fe_virtual_file_paths e) (Some r) of None \<Rightarrow> False
        | Some ps \<Rightarrow> \<forall>vp \<in> set ps. containers_of vp \<noteq> []"
      using assms(2) ce(1,2) by (auto simp: analysed_below_def)
    ultimately show ?thesis by (auto split: option.splits)
  qed
  have lvl: "\<exists>T e ps. snd (?g t) = None \<and> ft_uid T = td_uid t \<and> td_file_name (ft_data T) = fe_file_name e
      \<and> map_of (file_tbl d) (td_uid t) = Some e \<and> td_uid t \<in> set cs \<and> map_of (fe_virtual_file_paths e) (Some r) = Some ps
      \<and> fst (?g t) = map (\<lambda>vp. create_node_from_virtual_path T (elements_of vp))
         (filter (\<lambda>vp. Some (last (containers_of vp)) = Some u) ps)" if t: "t \<in> set (get_file_tree_data d cs)" for t
  proof -
    obtain e ps where e: "map_of (file_tbl d) (td_uid t) = Some e" "td_uid t \<in> set cs" "td_file_name t = fe_file_name e"
      "td_virtual_file_path t = fe_virtual_file_paths e" "map_of (fe_virtual_file_paths e) (Some r) = Some ps"
      "\<forall>vp \<in> set ps. containers_of vp \<noteq> []" using data[OF t] by blast
    obtain T where "ft_uid T = td_uid t" "ft_data T = t"
      "tree_level_of (td_uid t) (Some r) (Some u) w t =
       (map (\<lambda>vp. create_node_from_virtual_path T (elements_of vp))
         (filter (\<lambda>vp. Some u = None \<or> Some (last (containers_of vp)) = Some u) ps), None)"
      by (rule tree_level_of_ok[of t r ps w "td_uid t" "Some u"]) (use e assms(3) in auto)
    then show ?thesis using e by (intro exI[of _ T] exI[of _ e] exI[of _ ps]) simp
  qed
  let ?ns = "concat (map (\<lambda>t. fst (?g t)) (get_file_tree_data d cs))"
  show ?thesis
  proof (rule that[of ?ns])
    show "generate_file_tree_nodes_for_uid_list d cs (Some r) (Some u) w = (?ns, None)"
      unfolding generate_file_tree_nodes_for_uid_list_def generate_file_tree_level_def
      by (simp, rule yield_from_all_ok) (use lvl in blast)
    show "\<forall>n \<in> set ?ns. tree_ok n" using lvl create_node_entries by fastforce
  next
    fix n p x assume n: "n \<in> set ?ns" and x: "under [n] p = Some x"
    from n obtain t where t: "t \<in> set (get_file_tree_data d cs)" "n \<in> set (fst (?g t))" by auto
    from lvl[OF t(1)] t(2) obtain T e ps vp where T: "ft_uid T = td_uid t" "td_file_name (ft_data T) = fe_file_name e"
      "map_of (file_tbl d) (td_uid t) = Some e" "td_uid t \<in> set cs" "map_of (fe_virtual_file_paths e) (Some r) = Some ps"
      "vp \<in> set ps" "last (containers_of vp) = u" "n = create_node_from_virtual_path T (elements_of vp)" by auto
    then have "path_entry T (elements_of vp) p = Some x" using x create_node_entries[of T "elements_of vp"] by simp
    from path_entry_Some[OF this] T
    show "belongs_at d (Some r) (Some u) cs p x"
      unfolding belongs_at_def
      by (intro bexI[of _ "td_uid t"] bexI[of _ "(fe_file_name e, vp)"]) (auto simp: shown_paths_def)
  next
    fix p assume "leads_to_child d (Some r) (Some u) cs p" "p \<noteq> []"
    then obtain c nm vp where c: "c \<in> set cs" "(nm, vp) \<in> set (shown_paths d (Some r) (Some u) c)" "p \<noteq> []"
      "prefix p (path_ids nm (elements_of vp))"
      by (auto simp: leads_to_child_def)
    then obtain e where e: "map_of (file_tbl d) c = Some e"
      by (cases "map_of (file_tbl d) c") (auto simp: shown_paths_def)
    then obtain t where t: "t \<in> set (get_file_tree_data d cs)" "td_uid t = c" using c(1)
      by (fastforce simp: get_file_tree_data_def Let_def dest: map_of_SomeD)
    from lvl[OF t(1)] e t(2) obtain T ps where T0: "td_file_name (ft_data T) = fe_file_name e"
      "map_of (fe_virtual_file_paths e) (Some r) = Some ps"
      "fst (?g t) = map (\<lambda>vp. create_node_from_virtual_path T (elements_of vp))
         (filter (\<lambda>vp. Some (last (containers_of vp)) = Some u) ps)" by auto
    then have T: "nm = td_file_name (ft_data T)" "create_node_from_virtual_path T (elements_of vp) \<in> set (fst (?g t))"
      using c(2) e by (auto simp: shown_paths_def)
    then have "under [create_node_from_virtual_path T (elements_of vp)] p \<noteq> None"
      using create_node_entries[of T "elements_of vp"] c(3,4) by (simp add: path_entry_def)
    then show "\<exists>n \<in> set ?ns. under [n] p \<noteq> None" using T(2) t(1) by auto
  qed
qed

text \<open>C24: The file tree shows each layer exactly. If all children of an object have been analysed
  below the root, the tree of the object (directories and files) has an entry at a path if
  and only if the path leads towards a virtual path of one of the children whose last
  container is the object; entries in the middle of a path are directories, the entry at its
  end is the file with that UID, and siblings are distinct.
\<close>

theorem file_tree_shows_exactly_the_paths:
  assumes "db_ok d" and "get_object d (Some u) None = Inr (Some f)" and "r \<noteq> []"
    and "analysed_below d (Some r) (files_included f)"
  shows "\<exists>t. generate_file_tree d (Some r) (Some u) None = Inr t \<and> tree_ok t
    \<and> (\<forall>p. p \<noteq> [] \<longrightarrow> (entry_at t p \<noteq> None \<longleftrightarrow> leads_to_child d (Some r) (Some u) (files_included f) p))
    \<and> (\<forall>p x. p \<noteq> [] \<and> entry_at t p = Some x \<longrightarrow> belongs_at d (Some r) (Some u) (files_included f) p x)"
proof -
  obtain ns where ns: "generate_file_tree_nodes_for_uid_list d (files_included f) (Some r) (Some u) None = (ns, None)"
    "\<forall>n \<in> set ns. tree_ok n"
    and ns1: "\<And>n p x. n \<in> set ns \<Longrightarrow> under [n] p = Some x \<Longrightarrow> belongs_at d (Some r) (Some u) (files_included f) p x"
    and ns2: "\<And>p. leads_to_child d (Some r) (Some u) (files_included f) p \<Longrightarrow> p \<noteq> [] \<Longrightarrow>
       \<exists>n \<in> set ns. under [n] p \<noteq> None"
    by (rule layer_nodes[OF assms(1,4,3)]) blast
  let ?t = "fold add_child_node ns empty_tree"
  note t = tree_of_nodes[OF ns(2) refl]
  have "generate_file_tree d (Some r) (Some u) None = Inr ?t"
    by (simp add: generate_file_tree_def assms(2) ns(1))
  moreover have "entry_at ?t p \<noteq> None \<longleftrightarrow> leads_to_child d (Some r) (Some u) (files_included f) p" if "p \<noteq> []" for p
    unfolding t(2)[OF that] using ns1[of _ p] ns2[of p] that belongs_leads by fast
  moreover have "belongs_at d (Some r) (Some u) (files_included f) p x" if "p \<noteq> []" "entry_at ?t p = Some x" for p x
    using t(3)[OF that] ns1[of _ p x] by blast
  ultimately show ?thesis using t(1) by (intro exI[of _ ?t]) blast
qed

definition tree_ex_row :: "vfp_dict \<Rightarrow> fo_entry" where
  "tree_ex_row vfp = \<lparr>fe_sha256 = None, fe_file_name = Some ''f'', fe_depth = 0, fe_size = Some 1, fe_comments = [],
     fe_virtual_file_paths = vfp, fe_is_firmware = False\<rparr>"

definition tree_ex_db :: db where
  "tree_ex_db = empty_db\<lparr>file_tbl := [(Some ''p'', tree_ex_row [(Some ''r'', [''|r|p|''])]),
       (Some ''c'', tree_ex_row [(Some ''r'', [''|r|p|/etc/a'', ''|r|p|/etc/b''])])],
     included_tbl := [(Some ''p'', Some ''c'')]\<rparr>"

lemma tree_ex_db_ok: "db_ok tree_ex_db"
  by (simp add: tree_ex_db_def empty_db_def db_ok_def dict_ok_def dmem_def)

lemma tree_ex_object: "\<exists>f. get_object tree_ex_db (Some ''p'') None = Inr (Some f) \<and> files_included f = [Some ''c'']"
  by (simp add: get_object_def get_file_object_def tree_ex_db_def is_firmware_uid_def empty_db_def
      file_object_from_entry_def populate_fo_data_def blank_fo_def dmem_def get_included_uids_def py_set_def
      Let_def)

lemma file_tree_shows_exactly_the_paths_witness:
  "\<exists>t. generate_file_tree tree_ex_db (Some ''r'') (Some ''p'') None = Inr t \<and>
     entry_at t [(Some ''etc'', True), (Some ''b'', False)] \<noteq> None \<and> entry_at t [(Some ''lib'', True)] = None"
proof -
  obtain f where f: "get_object tree_ex_db (Some ''p'') None = Inr (Some f)" "files_included f = [Some ''c'']"
    using tree_ex_object by blast
  have a: "analysed_below tree_ex_db (Some ''r'') (files_included f)"
    unfolding f(2) by (simp add: analysed_below_def tree_ex_db_def tree_ex_row_def containers_of_def split_virtual_path_def)
  have "leads_to_child tree_ex_db (Some ''r'') (Some ''p'') (files_included f) [(Some ''etc'', True), (Some ''b'', False)]"
    "\<not> leads_to_child tree_ex_db (Some ''r'') (Some ''p'') (files_included f) [(Some ''lib'', True)]"
    unfolding f(2) by (simp_all add: leads_to_child_def shown_paths_def tree_ex_db_def tree_ex_row_def containers_of_def
        elements_of_def split_virtual_path_def)
  then show ?thesis
    using file_tree_shows_exactly_the_paths[OF tree_ex_db_ok f(1) _ a] by blast
qed

section \<open>The top node\<close>

lemma dmem_dupdate: "dmem k d \<Longrightarrow> dmem k (dupdate d e)"
  unfolding dupdate_def by (induction e arbitrary: d) (auto simp: dmem_def)

definition icons_ok :: "(string, string) dict \<Rightarrow> bool" where
  "icons_ok icons \<longleftrightarrow> dmem ''unknown'' icons \<and> dmem ''package-x-generic'' icons"

definition mime_ok :: "pyval \<Rightarrow> bool" where
  "mime_ok m \<longleftrightarrow> (case m of PNone \<Rightarrow> True | PStr _ \<Rightarrow> True | _ \<Rightarrow> False)"

lemma get_icon_total:
  assumes "icons_ok icons" "mime_ok m"
  shows "\<exists>p. get_icon_for_mime icons m = Inr p"
proof -
  have dom: "\<exists>v. map_of (MIME_TO_ICON_PATH icons) k = Some v" if "dmem k icons" for k
  proof -
    have "dmem k (MIME_TO_ICON_PATH icons)"
      unfolding MIME_TO_ICON_PATH_def Let_def by (intro dmem_dupdate that)
    then show ?thesis by (simp add: dmem_def)
  qed
  obtain v1 v2 where v: "map_of (MIME_TO_ICON_PATH icons) ''unknown'' = Some v1"
    "map_of (MIME_TO_ICON_PATH icons) ''package-x-generic'' = Some v2"
    using dom[of "''unknown''"] dom[of "''package-x-generic''"] assms(1) unfolding icons_ok_def by blast
  show ?thesis
  proof (cases m)
    case (PStr s)
    with v show ?thesis by (simp add: get_icon_for_mime_def dlookup_def split: option.split prod.split)
  qed (use assms(2) v in \<open>simp_all add: get_icon_for_mime_def mime_ok_def dlookup_def\<close>)
qed

lemma file_jstree_total:
  assumes "icons_ok (ie_icons I)" "mime_ok (te_type e)" "te_name e = Some n"
  obtains t i where "get_file_jstree_node I e = Inr (JsNode t (analysis_link e) i (Some (te_uid e)))"
proof -
  let ?m = "if te_type e = PStr ''text/plain'' then PStr (get_mime_for_text_file (ie_icons I) n) else te_type e"
  have "mime_ok ?m" using assms(2) by (simp add: mime_ok_def)
  then obtain p where "get_icon_for_mime (ie_icons I) ?m = Inr p" using get_icon_total[OF assms(1)] by blast
  then show thesis using assms(3) that by (cases "te_type e = PStr ''text/plain''") (auto simp: get_file_jstree_node_def)
qed

lemma real_file_jstree:
  assumes "icons_ok (ie_icons I)" "mime_ok (td_mime (ft_data T))" "td_file_name (ft_data T) = Some nm"
  shows "\<exists>j. convert_to_jstree_node I (get_node_for_real_file T es) = Inr j \<and>
    js_href j = ''/analysis/'' @ fstr (ft_uid T) @ ''/ro/'' @ fstr (ft_root_uid T) \<and>
    js_children j = (if tree_has_children T then ChildrenOnRequest else NoChildren)"
proof -
  let ?e = "node_entry (get_node_for_real_file T es)"
  have e: "mime_ok (te_type ?e)" "te_name ?e = Some (case es of [] \<Rightarrow> nm | x # _ \<Rightarrow> x)" "te_uid ?e = ft_uid T"
    "te_root_uid ?e = ft_root_uid T" "\<not> te_virtual ?e" "\<not> te_not_analyzed ?e"
    "get_node_for_real_file T es = FileTreeNode ?e (tree_has_children T) []"
    using assms(2,3) by (auto simp: get_node_for_real_file_def leaf_node_def tree_file_name_def split: list.splits)
  obtain t i where "get_file_jstree_node I ?e = Inr (JsNode t (analysis_link ?e) i (Some (te_uid ?e)))"
    by (rule file_jstree_total[OF assms(1) e(1,2)])
  then show ?thesis by (subst e(7)) (simp add: e(3-6) analysis_link_def get_jstree_child_nodes_def)
qed

lemma remove_file_root: "js_href j \<noteq> ''#'' \<Longrightarrow> remove_virtual_path_from_root [j] = Inr [j]"
  by (cases j) simp

lemma create_node_jstree:
  assumes "icons_ok (ie_icons I)" "mime_ok (td_mime (ft_data T))" "td_file_name (ft_data T) = Some nm"
  shows "\<exists>j k. convert_to_jstree_node I (create_node_from_virtual_path T es) = Inr j \<and>
    remove_virtual_path_from_root [j] = Inr [k] \<and>
    js_href k = ''/analysis/'' @ fstr (ft_uid T) @ ''/ro/'' @ fstr (ft_root_uid T) \<and>
    js_children k = (if tree_has_children T then ChildrenOnRequest else NoChildren)"
  using assms
proof (induction T es rule: create_node_from_virtual_path.induct, goal_cases)
  case (1 T a b r)
  from 1(1)[OF 1(2-4)] obtain j k where j: "convert_to_jstree_node I (create_node_from_virtual_path T (b # r)) = Inr j"
    "remove_virtual_path_from_root [j] = Inr [k]"
    "js_href k = ''/analysis/'' @ fstr (ft_uid T) @ ''/ro/'' @ fstr (ft_root_uid T)"
    "js_children k = (if tree_has_children T then ChildrenOnRequest else NoChildren)" by blast
  have "create_node_from_virtual_path T (a # b # r) =
      FileTreeNode (directory_entry T a) True [create_node_from_virtual_path T (b # r)]"
    by (simp add: add_child_node.simps contains_node_iff leaf_node_def)
  with j show ?case
    by (simp add: directory_entry_def get_directory_jstree_node_def get_jstree_child_nodes_def del: create_node_from_virtual_path.simps)
next
  case (2 T)
  then show ?case using real_file_jstree[of I T nm "[]"] by (force intro: remove_file_root)
next
  case (3 T v)
  then show ?case using real_file_jstree[of I T nm "[v]"] by (force intro: remove_file_root)
qed

definition stored_mime_ok :: "db \<Rightarrow> uid \<Rightarrow> bool" where
  "stored_mime_ok d u \<longleftrightarrow> (\<forall>((v, p), a) \<in> set (analysis_tbl d). v = u \<and> p = ''file_type'' \<longrightarrow>
     (case map_of (an_result a) ''mime'' of None \<Rightarrow> True | Some m \<Rightarrow> mime_ok m))"

lemma td_mime_ok: "stored_mime_ok d u \<Longrightarrow> t \<in> set (get_file_tree_data d [u]) \<Longrightarrow> mime_ok (td_mime t)"
  by (fastforce simp: get_file_tree_data_def get_mime_types_for_uid_list_def stored_mime_ok_def Let_def mime_ok_def
      dest: map_of_SomeD split: option.splits)

lemma file_tree_data_single:
  assumes "dict_ok (file_tbl d)" "map_of (file_tbl d) u = Some e"
  obtains t where "get_file_tree_data d [u] = [t]" "td_uid t = u" "td_file_name t = fe_file_name e"
    "td_virtual_file_path t = fe_virtual_file_paths e"
    "td_included_files t = [] \<longleftrightarrow> (\<forall>c. (u, c) \<notin> set (included_tbl d))"
proof -
  have filt: "filter (\<lambda>(v, e). v \<in> set [u]) xs = [(u, e)]" if "dict_ok xs" "map_of xs u = Some e" for xs :: "(uid, fo_entry) dict"
    using that by (induction xs) (auto simp: dict_ok_def filter_empty_conv image_iff split: if_splits)
  have inc: "(case map_of (get_included_files_for_uid_list d [u]) u of None \<Rightarrow> [] | Some fs \<Rightarrow> fs) = []
      \<longleftrightarrow> (\<forall>c. (u, c) \<notin> set (included_tbl d))"
  proof (cases "\<exists>(p, c) \<in> set (included_tbl d). p = u")
    case True
    then have "get_included_files_for_uid_list d [u] = [(u, map snd (filter (\<lambda>(p, c). p = u) (included_tbl d)))]"
    proof -
      have "filter (\<lambda>(v, _). v \<in> set [u] \<and> (\<exists>(p, c) \<in> set (included_tbl d). p = v)) (file_tbl d)
          = filter (\<lambda>(v, e). v \<in> set [u]) (file_tbl d)"
        using True by (intro filter_cong) auto
      then show ?thesis using filt[OF assms] by (simp add: get_included_files_for_uid_list_def)
    qed
    with True show ?thesis by (auto simp: filter_empty_conv)
  next
    case False
    then have "get_included_files_for_uid_list d [u] = []"
      by (auto simp: get_included_files_for_uid_list_def filter_empty_conv)
    with False show ?thesis by auto
  qed
  show thesis
    using that[of "hd (get_file_tree_data d [u])"] filt[OF assms] inc
    by (simp add: get_file_tree_data_def Let_def)
qed

lemma mapM_r_last:
  "xs \<noteq> [] \<Longrightarrow> (\<And>x. x \<in> set xs \<Longrightarrow> \<exists>j. f x = Inr j \<and> P j) \<Longrightarrow> \<exists>js. mapM_r f xs = Inr js \<and> js \<noteq> [] \<and> P (last js)"
proof (induction xs)
  case Nil
  then show ?case by simp
next
  case (Cons x xs)
  then show ?case by (cases xs) (fastforce simp: result_simps)+
qed

lemma nodes_of_paths_all:
  "ft_parent_uid T = None \<Longrightarrow>
   nodes_of_paths T ps = (map (\<lambda>vp. create_node_from_virtual_path T (elements_of vp)) ps, None)"
  by (induction ps) (auto simp: elements_of_def Let_def split: list.splits prod.splits)

text \<open>The top of the file tree of a web page is the file itself. For a file analysed below
  the root, in whatever directories its paths lie, the answer to the page is one node: the
  link to the analysis of the file, without the directories, with its children to be loaded
  on request exactly if the file contains others.
\<close>

theorem file_tree_top_is_the_file:
  assumes "dict_ok (file_tbl d)" and "map_of (file_tbl d) (Some u) = Some e" and "fe_file_name e \<noteq> None"
    and "map_of (fe_virtual_file_paths e) (Some r) = Some ps" and "ps \<noteq> []" and "r \<noteq> []"
    and "icons_ok (ie_icons I)" and "stored_mime_ok d (Some u)"
  shows "\<exists>j. ajax_get_tree_root I d (Some u) (Some r) = Inr [j] \<and>
    js_href j = ''/analysis/'' @ u @ ''/ro/'' @ r \<and>
    js_children j = (if \<exists>c. (Some u, c) \<in> set (included_tbl d) then ChildrenOnRequest else NoChildren)"
proof -
  obtain t where t: "get_file_tree_data d [Some u] = [t]" "td_uid t = Some u" "td_file_name t = fe_file_name e"
    "td_virtual_file_path t = fe_virtual_file_paths e"
    "td_included_files t = [] \<longleftrightarrow> (\<forall>c. (Some u, c) \<notin> set (included_tbl d))"
    using file_tree_data_single[OF assms(1,2)] by blast
  obtain nm where nm: "fe_file_name e = Some nm" using assms(3) by auto
  let ?T = "\<lparr>ft_uid = Some u, ft_root_uid = Some r, ft_parent_uid = None, ft_data = t, ft_whitelist = None, ft_paths = ps\<rparr>"
  have "virtual_path_file_tree (Some r) None t None = Inr ?T"
    using assms(4,6) t(2,4) by (simp add: virtual_path_file_tree_def tree_virtual_file_paths_def dmem_def
        file_tree_is_for_file_object_def dlookup_def)
  then have lvl: "generate_file_tree_level d (Some u) (Some r) None None None =
      (map (\<lambda>vp. create_node_from_virtual_path ?T (elements_of vp)) ps, None)"
    by (simp add: generate_file_tree_level_def t(1) tree_level_of_def get_file_tree_nodes_def nodes_of_paths_all)
  let ?P = "\<lambda>j. \<exists>k. remove_virtual_path_from_root [j] = Inr [k] \<and> js_href k = ''/analysis/'' @ u @ ''/ro/'' @ r \<and>
    js_children k = (if tree_has_children ?T then ChildrenOnRequest else NoChildren)"
  have "mime_ok (td_mime t)" using td_mime_ok[OF assms(8)] t(1) by simp
  then have node: "\<exists>j. convert_to_jstree_node I (create_node_from_virtual_path ?T es) = Inr j \<and> ?P j" for es
    using create_node_jstree[OF assms(7), of ?T nm es] t(3) nm by auto
  have "\<exists>js. mapM_r (convert_to_jstree_node I) (map (\<lambda>vp. create_node_from_virtual_path ?T (elements_of vp)) ps) = Inr js
      \<and> js \<noteq> [] \<and> ?P (last js)"
  proof (rule mapM_r_last)
    show "map (\<lambda>vp. create_node_from_virtual_path ?T (elements_of vp)) ps \<noteq> []" using assms(5) by simp
  next
    fix x assume "x \<in> set (map (\<lambda>vp. create_node_from_virtual_path ?T (elements_of vp)) ps)"
    then obtain vp where x: "x = create_node_from_virtual_path ?T (elements_of vp)" by auto
    show "\<exists>j. convert_to_jstree_node I x = Inr j \<and> ?P j" unfolding x by (rule node)
  qed
  then show ?thesis using t(5) by (auto simp: ajax_get_tree_root_def lvl tree_has_children_def)
qed

definition ex_icon_env :: icon_env where
  "ex_icon_env = \<lparr>ie_icons = [(''unknown'', ''/static/u.svg''), (''package-x-generic'', ''/static/p.svg'')], ie_size = (\<lambda>_. ''1 B'')\<rparr>"

lemma file_tree_top_is_the_file_witness:
  "\<exists>j. ajax_get_tree_root ex_icon_env tree_ex_db (Some ''c'') (Some ''r'') = Inr [j] \<and>
     js_href j = ''/analysis/c/ro/r'' \<and> js_children j = NoChildren"
proof -
  let ?e = "tree_ex_row [(Some ''r'', [''|r|p|/etc/a'', ''|r|p|/etc/b''])]"
  have "map_of (file_tbl tree_ex_db) (Some ''c'') = Some ?e" "dict_ok (file_tbl tree_ex_db)" "fe_file_name ?e \<noteq> None"
    "map_of (fe_virtual_file_paths ?e) (Some ''r'') = Some [''|r|p|/etc/a'', ''|r|p|/etc/b'']"
    "icons_ok (ie_icons ex_icon_env)" "stored_mime_ok tree_ex_db (Some ''c'')"
    by (simp_all add: tree_ex_db_def tree_ex_row_def dict_ok_def icons_ok_def ex_icon_env_def dmem_def
        stored_mime_ok_def empty_db_def)
  from file_tree_top_is_the_file[OF this(2,1,3,4) _ _ this(5,6)] show ?thesis
    by (simp add: tree_ex_db_def)
qed

end
