(* ===== verification/QueryConversion.thy ===== *)
theory QueryConversion
  imports CommonDb
begin

text \<open>
  Searching the database: \<open>storage/query_conversion.py\<close> turns a search dict into a select
  statement, \<open>db_interface_frontend.py\<close> and \<open>db_interface_common.py\<close> execute it. A select is
  a value of its own (what is selected, which tables are joined, the conditions); executing
  it enumerates the joined rows. What PostgreSQL's operators do on two values, its sort order
  and the rendering of JSON are parameters. The functions change the search dict they are
  given, so they return it. Search keys are taken to be columns when they name one; keys
  that name other attributes of the mapped classes fail in the database layer and are not
  modelled.
\<close>

section \<open>Statements\<close>

datatype sql_op = OpEq | OpRegex | OpILike | OpIn | OpLt | OpGt | OpContains | OpOverlap

datatype column =
    FoCol string | FwCol string | FwDate | FwTagsText | AnCol string | AnSummaryText
  | JsonCol "string list" | JsonText "string list"

datatype cond = Cmp column sql_op pyval | HasKey column string | OnPlugin cond string

record sql =
  sql_holds :: "sql_op \<Rightarrow> pyval \<Rightarrow> pyval \<Rightarrow> bool"
  sql_dumps :: "pyval \<Rightarrow> string"
  sql_str :: "pyval \<Rightarrow> string"
  sql_text :: "pyval \<Rightarrow> string"
  sql_rank :: "string option list \<Rightarrow> nat"

datatype join = NoJoin | InnerJoin | OuterJoin

text \<open>\<open>SelParent\<close> selects the roots of the file objects that match.\<close>

datatype target = SelFo | SelFw | SelParent

record select =
  s_target :: target
  s_an_join :: bool
  s_fw_join :: join
  s_fo_join :: bool
  s_where_or :: bool
  s_where :: "cond list"

definition select_from :: "target \<Rightarrow> select" where
  "select_from t = \<lparr>s_target = t, s_an_join = False, s_fw_join = NoJoin, s_fo_join = False, s_where_or = False, s_where = []\<rparr>"

section \<open>Conditions\<close>

type_synonym search = "(string, pyval) dict"

definition FO_COLUMNS :: "string list" where
  "FO_COLUMNS = [''uid'', ''sha256'', ''file_name'', ''depth'', ''size'', ''comments'', ''virtual_file_paths'', ''is_firmware'']"

definition FW_COLUMNS :: "string list" where
  "FW_COLUMNS = [''uid'', ''submission_date'', ''release_date'', ''version'', ''vendor'', ''device_name'', ''device_class'',
     ''device_part'', ''firmware_tags'']"

definition AN_COLUMNS :: "string list" where
  "AN_COLUMNS = [''uid'', ''plugin'', ''plugin_version'', ''system_version'', ''analysis_date'', ''summary'', ''tags'', ''result'']"

definition get_search_keys_from_dict :: "search \<Rightarrow> string list \<Rightarrow> string list \<Rightarrow> search" where
  "get_search_keys_from_dict query_dict columns blacklist =
     filter (\<lambda>(k, _). k \<notin> set blacklist \<and> k \<in> set columns) query_dict"

fun is_json_column :: "column \<Rightarrow> bool" where
  "is_json_column (FoCol c) = (c = ''comments'' \<or> c = ''virtual_file_paths'')"
| "is_json_column (AnCol c) = (c = ''tags'' \<or> c = ''result'')"
| "is_json_column (JsonCol _) = True"
| "is_json_column _ = False"

definition dict_key_to_filter :: "sql \<Rightarrow> column \<Rightarrow> string \<Rightarrow> pyval \<Rightarrow> cond result" where
  "dict_key_to_filter S column key v = (case v of
      PDict d \<Rightarrow>
        if dmem ''$exists'' d then
          (if is_json_column column then Inr (HasKey column (last (split_on (CHR ''.'') key))) else Inl AttributeError)
        else if dmem ''$regex'' d then map_r (Cmp column OpRegex) (dlookup d ''$regex'')
        else if dmem ''$like'' d then
          map_r (\<lambda>x. Cmp column OpILike (PStr (''%'' @ sql_str S x @ ''%''))) (dlookup d ''$like'')
        else if dmem ''$in'' d then map_r (Cmp column OpIn) (dlookup d ''$in'')
        else if dmem ''$lt'' d then map_r (Cmp column OpLt) (dlookup d ''$lt'')
        else if dmem ''$gt'' d then map_r (Cmp column OpGt) (dlookup d ''$gt'')
        else if dmem ''$contains'' d then map_r (Cmp column OpContains) (dlookup d ''$contains'')
        else Inl QueryConversionException
    | _ \<Rightarrow> Inr (Cmp column OpEq v))"

definition get_fw_column :: "string \<Rightarrow> column" where
  "get_fw_column key = (if key = ''release_date'' then FwDate else FwCol key)"

definition to_list :: "pyval \<Rightarrow> pyval" where
  "to_list v = (case v of PList _ \<Rightarrow> v | _ \<Rightarrow> PList [v])"

definition get_array_filter :: "sql \<Rightarrow> column \<Rightarrow> column \<Rightarrow> string \<Rightarrow> pyval \<Rightarrow> cond result" where
  "get_array_filter S field as_text key v = (case v of
      PList _ \<Rightarrow> Inr (Cmp field OpContains v)
    | PDict d \<Rightarrow>
        if dmem ''$regex'' d then dict_key_to_filter S as_text key v
        else if dmem ''$contains'' d then map_r (\<lambda>x. Cmp field OpContains (to_list x)) (dlookup d ''$contains'')
        else if dmem ''$overlap'' d then map_r (\<lambda>x. Cmp field OpOverlap (to_list x)) (dlookup d ''$overlap'')
        else Inl QueryConversionException
    | _ \<Rightarrow> Inr (Cmp field OpContains (PList [v])))"

text \<open>
  The values of the dict are replaced by their JSON text up to the first \<open>$in\<close> or
  \<open>$like\<close>, which switch to the text of the column. The change is made in place.
\<close>

fun encode_operands :: "sql \<Rightarrow> (string \<times> pyval) list \<Rightarrow> (string \<times> pyval) list \<times> bool" where
  "encode_operands S [] = ([], False)"
| "encode_operands S ((k, x) # d) =
     (if k = ''$in'' \<or> k = ''$like'' then ((k, x) # d, True)
      else (case encode_operands S d of (d', astext) \<Rightarrow> ((k, PStr (sql_dumps S x)) # d', astext)))"

definition add_json_filter :: "sql \<Rightarrow> string \<Rightarrow> pyval \<Rightarrow> string \<Rightarrow> (cond \<times> pyval) result" where
  "add_json_filter S key v subkey =
     (let keys = split_on (CHR ''.'') subkey in
      case v of
        PDict d \<Rightarrow>
          let path = (if dmem ''$exists'' d then butlast keys else keys);
              (d', astext) = encode_operands S d;
              column = (if astext then JsonText path else if path = [] then AnCol ''result'' else JsonCol path)
          in map_r (\<lambda>c. (c, PDict d')) (dict_key_to_filter S column key (PDict d'))
      | _ \<Rightarrow> map_r (\<lambda>c. (c, v)) (dict_key_to_filter S (JsonCol keys) key v))"

definition add_analysis_filter_to_query :: "sql \<Rightarrow> string \<Rightarrow> pyval \<Rightarrow> string \<Rightarrow> (cond \<times> pyval) result" where
  "add_analysis_filter_to_query S key v subkey =
     (if subkey \<in> set AN_COLUMNS then
        (if subkey = ''summary'' then map_r (\<lambda>c. (c, v)) (get_array_filter S (AnCol ''summary'') AnSummaryText key v)
         else Inr (Cmp (AnCol subkey) OpEq v, v))
      else add_json_filter S key v subkey)"

text \<open>\<open>_, plugin, subkey = key.split('.', maxsplit=2)\<close>.\<close>

definition split_analysis_key :: "string \<Rightarrow> (string \<times> string) result" where
  "split_analysis_key key = (case split_on (CHR ''.'') key of
      _ # plugin # s # ss \<Rightarrow> Inr (plugin, join_with ''.'' (s # ss))
    | _ \<Rightarrow> Inl ValueError)"

fun analysis_filters :: "sql \<Rightarrow> search \<Rightarrow> (cond \<times> string \<times> pyval) list result" where
  "analysis_filters S [] = Inr []"
| "analysis_filters S ((key, v) # d) =
     bind_r (split_analysis_key key) (\<lambda>(plugin, subkey).
     bind_r (add_analysis_filter_to_query S key v subkey) (\<lambda>(c, v').
     bind_r (analysis_filters S d) (\<lambda>cs. Inr ((OnPlugin c plugin, key, v') # cs))))"

definition firmware_filters :: "sql \<Rightarrow> search \<Rightarrow> cond list result" where
  "firmware_filters S d = mapM_r (\<lambda>(key, v).
     if key = ''firmware_tags'' then get_array_filter S (FwCol ''firmware_tags'') FwTagsText key v
     else dict_key_to_filter S (get_fw_column key) key v) d"

definition file_filters :: "sql \<Rightarrow> search \<Rightarrow> cond list result" where
  "file_filters S d = mapM_r (\<lambda>(key, v). dict_key_to_filter S (FoCol key) key v) d"

section \<open>Building a statement\<close>

text \<open>A search dict without \<open>$or\<close>; the dict is returned as the call leaves it.\<close>

definition build_flat_query ::
  "sql \<Rightarrow> search \<Rightarrow> select \<Rightarrow> bool \<Rightarrow> bool \<Rightarrow> (select \<times> search) result" where
  "build_flat_query S query_dict query fw_only or_query =
     (let qd = (case map_of query_dict ''_id'' of
                  Some v \<Rightarrow> dput ''uid'' v (ddel ''_id'' query_dict) | None \<Rightarrow> query_dict);
          analysis_search_dict = filter (\<lambda>(k, _). startswith k ''processed_analysis'') qd;
          firmware_search_dict = get_search_keys_from_dict qd FW_COLUMNS [''uid''];
          file_search_dict = get_search_keys_from_dict qd FO_COLUMNS []
      in bind_r (analysis_filters S analysis_search_dict) (\<lambda>as.
         bind_r (firmware_filters S firmware_search_dict) (\<lambda>ws.
         bind_r (file_filters S file_search_dict) (\<lambda>fs.
           Inr (query\<lparr>s_an_join := analysis_search_dict \<noteq> [],
                      s_fw_join := (if firmware_search_dict \<noteq> [] \<and> \<not> fw_only
                                    then (if or_query then OuterJoin else InnerJoin) else NoJoin),
                      s_fo_join := (file_search_dict \<noteq> [] \<and> fw_only),
                      s_where_or := or_query,
                      s_where := map fst as @ ws @ fs\<rparr>,
                fold (\<lambda>(_, key, v). dput key v) as qd)))))"

definition search_size :: "search \<Rightarrow> nat" where
  "search_size d = size_list (size_prod (\<lambda>_. 0) size) d"

lemma search_size_or: "map_of d k = Some (PDict d') \<Longrightarrow> search_size d' < search_size d"
proof (induction d)
  case (Cons kv d)
  obtain k' v where kv: "kv = (k', v)" by force
  have "search_size d' < size (PDict d')" by (simp add: search_size_def size_list_conv_sum_list comp_def case_prod_beta')
  with Cons kv show ?case by (auto simp: search_size_def split: if_splits)
qed simp

function build_query_from_dict ::
  "sql \<Rightarrow> search \<Rightarrow> select \<Rightarrow> bool \<Rightarrow> bool \<Rightarrow> (select \<times> search) result" where
  "build_query_from_dict S query_dict query fw_only or_query =
     (case map_of query_dict ''$or'' of
        Some (PDict d) \<Rightarrow>
          map_r (\<lambda>(q, d'). (q, dput ''$or'' (PDict d') query_dict))
            (build_query_from_dict S d query fw_only True)
      | Some (PList _) \<Rightarrow> Inl AttributeError
      | Some (PSet _) \<Rightarrow> Inl AttributeError
      | Some (PStr _) \<Rightarrow> Inl AttributeError
      | Some _ \<Rightarrow> Inl TypeError
      | None \<Rightarrow> build_flat_query S query_dict query fw_only or_query)"
  by pat_completeness auto
termination
  by (relation "measure (\<lambda>(S, d, q, f, any). search_size d)") (auto intro: search_size_or)

declare build_query_from_dict.simps [simp del]

section \<open>Executing a statement\<close>

record qrow =
  q_fo :: "(uid \<times> fo_entry) option"
  q_fw :: "(uid \<times> fw_entry) option"
  q_an :: "((uid \<times> string) \<times> analysis_entry) option"
  q_parent :: uid

definition opt_str :: "string option \<Rightarrow> pyval option" where
  "opt_str x = map_option PStr x"

definition fo_column :: "uid \<Rightarrow> fo_entry \<Rightarrow> string \<Rightarrow> pyval option" where
  "fo_column u e c =
     (if c = ''uid'' then opt_str u
      else if c = ''sha256'' then opt_str (fe_sha256 e)
      else if c = ''file_name'' then opt_str (fe_file_name e)
      else if c = ''depth'' then Some (PInt (fe_depth e))
      else if c = ''size'' then map_option PInt (fe_size e)
      else if c = ''comments'' then Some (PList (fe_comments e))
      else if c = ''virtual_file_paths'' then
        Some (PDict (map (\<lambda>(r, ps). (fstr r, PList (map PStr ps))) (fe_virtual_file_paths e)))
      else if c = ''is_firmware'' then Some (PBool (fe_is_firmware e))
      else None)"

definition fw_column :: "uid \<Rightarrow> fw_entry \<Rightarrow> string \<Rightarrow> pyval option" where
  "fw_column u w c =
     (if c = ''uid'' then opt_str u
      else if c = ''submission_date'' then Some (PFloat (we_submission_date w))
      else if c = ''version'' then opt_str (we_version w)
      else if c = ''vendor'' then opt_str (we_vendor w)
      else if c = ''device_name'' then opt_str (we_device_name w)
      else if c = ''device_class'' then opt_str (we_device_class w)
      else if c = ''device_part'' then Some (PStr (we_device_part w))
      else if c = ''firmware_tags'' then Some (PList (map PStr (we_firmware_tags w)))
      else None)"

definition pad_to :: "nat \<Rightarrow> string \<Rightarrow> string" where
  "pad_to n s = replicate (n - length s) CHR ''0'' @ s"

text \<open>\<open>to_char(date, 'YYYY-MM-DD')\<close>.\<close>

definition date_text :: "date \<Rightarrow> string" where
  "date_text = (\<lambda>(y, m, d). pad_to 4 (str_nat y) @ ''-'' @ pad_to 2 (str_nat m) @ ''-'' @ pad_to 2 (str_nat d))"

definition not_null :: "pyval \<Rightarrow> pyval option" where
  "not_null v = (if v = PNone then None else Some v)"

definition an_column :: "uid \<Rightarrow> string \<Rightarrow> analysis_entry \<Rightarrow> string \<Rightarrow> pyval option" where
  "an_column u p a c =
     (if c = ''uid'' then opt_str u
      else if c = ''plugin'' then Some (PStr p)
      else if c = ''plugin_version'' then not_null (an_plugin_version a)
      else if c = ''system_version'' then not_null (an_system_version a)
      else if c = ''analysis_date'' then not_null (an_date a)
      else if c = ''summary'' then not_null (an_summary a)
      else if c = ''tags'' then not_null (an_tags a)
      else if c = ''result'' then Some (PDict (an_result a))
      else None)"

fun json_path :: "pyval \<Rightarrow> string list \<Rightarrow> pyval option" where
  "json_path v [] = Some v"
| "json_path (PDict d) (k # ks) = (case map_of d k of None \<Rightarrow> None | Some v \<Rightarrow> json_path v ks)"
| "json_path _ (k # ks) = None"

text \<open>\<open>NULL\<close> is \<open>None\<close>; no condition holds of it.\<close>

fun column_value :: "sql \<Rightarrow> qrow \<Rightarrow> column \<Rightarrow> pyval option" where
  "column_value S r (FoCol c) = Option.bind (q_fo r) (\<lambda>(u, e). fo_column u e c)"
| "column_value S r (FwCol c) = Option.bind (q_fw r) (\<lambda>(u, w). fw_column u w c)"
| "column_value S r FwDate = map_option (\<lambda>(u, w). PStr (date_text (we_release_date w))) (q_fw r)"
| "column_value S r FwTagsText = map_option (\<lambda>(u, w). PStr (join_with '','' (we_firmware_tags w))) (q_fw r)"
| "column_value S r (AnCol c) = Option.bind (q_an r) (\<lambda>((u, p), a). an_column u p a c)"
| "column_value S r AnSummaryText = map_option (\<lambda>(_, a). PStr (join_with '','' (summary_items (an_summary a)))) (q_an r)"
| "column_value S r (JsonCol ks) = Option.bind (q_an r) (\<lambda>(_, a). json_path (PDict (an_result a)) ks)"
| "column_value S r (JsonText ks) =
     map_option (\<lambda>v. PStr (sql_text S v)) (Option.bind (q_an r) (\<lambda>(_, a). json_path (PDict (an_result a)) ks))"

definition json_has_key :: "pyval \<Rightarrow> string \<Rightarrow> bool" where
  "json_has_key v k = (case v of PDict d \<Rightarrow> dmem k d | PList l \<Rightarrow> PStr k \<in> set l | PStr s \<Rightarrow> s = k | _ \<Rightarrow> False)"

fun cond_holds :: "sql \<Rightarrow> qrow \<Rightarrow> cond \<Rightarrow> bool" where
  "cond_holds S r (Cmp col oper v) = (case column_value S r col of None \<Rightarrow> False | Some x \<Rightarrow> sql_holds S oper x v)"
| "cond_holds S r (HasKey col k) = (case column_value S r col of None \<Rightarrow> False | Some x \<Rightarrow> json_has_key x k)"
| "cond_holds S r (OnPlugin c p) = (cond_holds S r c \<and> (case q_an r of None \<Rightarrow> False | Some ((_, q), _) \<Rightarrow> q = p))"

text \<open>An empty \<open>or_()\<close> is no condition.\<close>

definition where_holds :: "sql \<Rightarrow> qrow \<Rightarrow> select \<Rightarrow> bool" where
  "where_holds S r q =
     (if s_where_or q then s_where q = [] \<or> (\<exists>c \<in> set (s_where q). cond_holds S r c)
      else (\<forall>c \<in> set (s_where q). cond_holds S r c))"

definition fo_row :: "uid \<times> fo_entry \<Rightarrow> uid \<Rightarrow> qrow" where
  "fo_row f p = \<lparr>q_fo = Some f, q_fw = None, q_an = None, q_parent = p\<rparr>"

definition base_rows :: "db \<Rightarrow> target \<Rightarrow> qrow list" where
  "base_rows d t = (case t of
      SelFo \<Rightarrow> map (\<lambda>f. fo_row f None) (file_tbl d)
    | SelFw \<Rightarrow> map (\<lambda>w. \<lparr>q_fo = None, q_fw = Some w, q_an = None, q_parent = None\<rparr>) (firmware_tbl d)
    | SelParent \<Rightarrow> concat (map (\<lambda>f. map (\<lambda>g. fo_row f (fst g))
        (filter (\<lambda>g. (fst g, fst f) \<in> set (fw_files_tbl d) \<or> fst g = fst f) (file_tbl d))) (file_tbl d)))"

definition row_uid :: "qrow \<Rightarrow> uid" where
  "row_uid r = (case q_fo r of Some (u, _) \<Rightarrow> u | None \<Rightarrow> (case q_fw r of Some (u, _) \<Rightarrow> u | None \<Rightarrow> None))"

definition join_analyses :: "db \<Rightarrow> qrow \<Rightarrow> qrow list" where
  "join_analyses d r = map (\<lambda>a. r\<lparr>q_an := Some a\<rparr>) (filter (\<lambda>((u, _), _). u = row_uid r) (analysis_tbl d))"

definition join_firmware :: "db \<Rightarrow> bool \<Rightarrow> qrow \<Rightarrow> qrow list" where
  "join_firmware d outer r =
     (let ws = filter (\<lambda>(u, _). u = row_uid r) (firmware_tbl d) in
      if ws = [] \<and> outer then [r] else map (\<lambda>w. r\<lparr>q_fw := Some w\<rparr>) ws)"

definition join_files :: "db \<Rightarrow> qrow \<Rightarrow> qrow list" where
  "join_files d r = map (\<lambda>f. r\<lparr>q_fo := Some f\<rparr>) (filter (\<lambda>(u, _). u = row_uid r) (file_tbl d))"

definition joined_rows :: "db \<Rightarrow> select \<Rightarrow> qrow \<Rightarrow> qrow list" where
  "joined_rows d q r =
     (let rs1 = (if s_an_join q then join_analyses d r else [r]);
          rs2 = (case s_fw_join q of NoJoin \<Rightarrow> rs1 | InnerJoin \<Rightarrow> concat (map (join_firmware d False) rs1)
                                   | OuterJoin \<Rightarrow> concat (map (join_firmware d True) rs1))
      in if s_fo_join q then concat (map (join_files d) rs2) else rs2)"

definition select_rows :: "sql \<Rightarrow> db \<Rightarrow> select \<Rightarrow> qrow list" where
  "select_rows S d q = filter (\<lambda>r. where_holds S r q) (concat (map (joined_rows d q) (base_rows d (s_target q))))"

text \<open>\<open>query.distinct()\<close>.\<close>

definition select_uids :: "sql \<Rightarrow> db \<Rightarrow> select \<Rightarrow> uid list" where
  "select_uids S d q = remdups (map (\<lambda>r. if s_target q = SelParent then q_parent r else row_uid r) (select_rows S d q))"

section \<open>Searching\<close>

text \<open>\<open>FIRMWARE_ORDER\<close> and the order by file name, as the database sorts them.\<close>

definition firmware_order :: "sql \<Rightarrow> (uid \<times> fw_entry) list \<Rightarrow> (uid \<times> fw_entry) list" where
  "firmware_order S = sort_key (\<lambda>(_, w). sql_rank S [we_vendor w, we_device_name w])"

definition query_parent_firmware :: "sql \<Rightarrow> db \<Rightarrow> search \<Rightarrow> bool \<Rightarrow> ((uid \<times> fw_entry) list \<times> search) result" where
  "query_parent_firmware S d search_dict inverted =
     map_r (\<lambda>(query, sd). let found = select_uids S d query in
         (filter (\<lambda>(u, _). (u \<in> set found) = (\<not> inverted)) (firmware_tbl d), sd))
       (build_query_from_dict S search_dict (select_from SelParent) False False)"

definition file_order :: "sql \<Rightarrow> db \<Rightarrow> uid list \<Rightarrow> uid list" where
  "file_order S d = sort_key (\<lambda>u. sql_rank S [case map_of (file_tbl d) u of None \<Rightarrow> None | Some e \<Rightarrow> fe_file_name e])"

definition build_generic_search_query :: "sql \<Rightarrow> db \<Rightarrow> search \<Rightarrow> bool \<Rightarrow> bool \<Rightarrow> (uid list \<times> search) result" where
  "build_generic_search_query S d search_dict only_fo_parent_firmware inverted =
     (if search_dict = [] then Inr (map fst (firmware_order S (firmware_tbl d)), search_dict)
      else if only_fo_parent_firmware then
        map_r (\<lambda>(ws, sd). (map fst (firmware_order S ws), sd)) (query_parent_firmware S d search_dict inverted)
      else map_r (\<lambda>(query, sd). (file_order S d (select_uids S d query), sd))
             (build_query_from_dict S search_dict (select_from SelFo) False False))"

definition apply_offset_and_limit :: "nat option \<Rightarrow> nat option \<Rightarrow> 'a list \<Rightarrow> 'a list" where
  "apply_offset_and_limit skip limit rows =
     (let r = (case skip of None \<Rightarrow> rows | Some n \<Rightarrow> drop n rows)
      in case limit of None \<Rightarrow> r | Some n \<Rightarrow> if n = 0 then r else take n r)"

definition generic_search ::
  "sql \<Rightarrow> db \<Rightarrow> search \<Rightarrow> nat option \<Rightarrow> nat option \<Rightarrow> bool \<Rightarrow> bool \<Rightarrow> (uid list \<times> search) result" where
  "generic_search S d search_dict skip limit only_fo_parent_firmware inverted =
     map_r (\<lambda>(us, sd). (apply_offset_and_limit skip limit us, sd))
       (build_generic_search_query S d search_dict only_fo_parent_firmware inverted)"

text \<open>\<open>count(uid)\<close> counts joined rows, \<open>count(distinct uid)\<close> objects.\<close>

definition get_firmware_number :: "sql \<Rightarrow> db \<Rightarrow> search \<Rightarrow> nat result" where
  "get_firmware_number S d query =
     (if query = [] then Inr (length (firmware_tbl d))
      else map_r (\<lambda>(q, _). length (select_rows S d q)) (build_query_from_dict S query (select_from SelFw) True False))"

definition get_file_object_number :: "sql \<Rightarrow> db \<Rightarrow> search \<Rightarrow> bool \<Rightarrow> nat result" where
  "get_file_object_number S d query zero_on_empty_query =
     (if zero_on_empty_query \<and> query = [] then Inr 0
      else map_r (\<lambda>(q, _). length (select_uids S d q)) (build_query_from_dict S query (select_from SelFo) False False))"

definition get_number_of_total_matches :: "sql \<Rightarrow> db \<Rightarrow> search \<Rightarrow> bool \<Rightarrow> bool \<Rightarrow> nat result" where
  "get_number_of_total_matches S d search_dict only_parent_firmwares inverted =
     (if search_dict = [] then get_firmware_number S d []
      else if \<not> only_parent_firmwares then get_file_object_number S d search_dict True
      else map_r (\<lambda>(ws, _). length ws) (query_parent_firmware S d search_dict inverted))"

definition rest_get_firmware_uids ::
  "sql \<Rightarrow> db \<Rightarrow> nat option \<Rightarrow> nat option \<Rightarrow> search \<Rightarrow> bool \<Rightarrow> bool \<Rightarrow> (uid list \<times> search) result" where
  "rest_get_firmware_uids S d offset limit query recursive inverted =
     (if recursive then generic_search S d query offset limit True inverted
      else map_r (\<lambda>(q, sd). (apply_offset_and_limit offset limit
                 (sort_key (\<lambda>u. sql_rank S [u]) (select_uids S d q)), sd))
             (build_query_from_dict S query (select_from SelFw) True False))"

definition rest_get_file_object_uids ::
  "sql \<Rightarrow> db \<Rightarrow> nat option \<Rightarrow> nat option \<Rightarrow> search \<Rightarrow> (uid list \<times> search) result" where
  "rest_get_file_object_uids S d offset limit query =
     (if query \<noteq> [] then generic_search S d query offset limit False False
      else Inr (apply_offset_and_limit offset limit (dkeys (file_tbl d)), query))"

section \<open>Parents and matches\<close>

lemma map_r_bind: "map_r f (bind_r r g) = bind_r r (\<lambda>x. map_r f (g x))"
  by (cases r) simp_all

lemma build_flat_target:
  "build_flat_query S sd (q\<lparr>s_target := t\<rparr>) f any =
   map_r (\<lambda>(q', sd'). (q'\<lparr>s_target := t\<rparr>, sd')) (build_flat_query S sd q f any)"
  by (cases q) (simp add: build_flat_query_def Let_def map_r_bind)

lemma build_target:
  "build_query_from_dict S sd (q\<lparr>s_target := t\<rparr>) f any =
   map_r (\<lambda>(q', sd'). (q'\<lparr>s_target := t\<rparr>, sd')) (build_query_from_dict S sd q f any)"
proof (induction S sd q f any rule: build_query_from_dict.induct)
  case (1 S sd q f any)
  show ?case
  proof (cases "map_of sd ''$or''")
    case None
    then show ?thesis
      by (simp add: build_query_from_dict.simps[of S sd] build_flat_target)
  next
    case (Some v)
    show ?thesis
    proof (cases v)
      case (PDict d)
      with Some 1 show ?thesis
        by (simp add: build_query_from_dict.simps[of S sd]) (auto simp: map_r_def split: sum.splits)
    qed (use Some in \<open>simp_all add: build_query_from_dict.simps[of S sd]\<close>)
  qed
qed

lemma build_kind:
  "build_query_from_dict S sd q False any = Inr (q', sd') \<Longrightarrow> \<not> s_fo_join q' \<and> s_target q' = s_target q"
proof (induction S sd q "False" any arbitrary: q' sd' rule: build_query_from_dict.induct)
  case (1 S sd q any)
  show ?case
  proof (cases "map_of sd ''$or''")
    case None
    with "1.prems" show ?thesis
      by (auto simp: build_query_from_dict.simps[of S sd] build_flat_query_def Let_def result_simps)
  next
    case (Some v)
    with "1.prems" obtain d where "v = PDict d"
      by (cases v) (simp_all add: build_query_from_dict.simps[of S sd])
    with Some "1.hyps"[of v d] "1.prems" show ?thesis
      by (auto simp: build_query_from_dict.simps[of S sd] result_simps)
  qed
qed

lemma column_value_parent [simp]: "column_value S (r\<lparr>q_parent := p\<rparr>) c = column_value S r c"
  by (cases c) simp_all

lemma cond_holds_parent [simp]: "cond_holds S (r\<lparr>q_parent := p\<rparr>) c = cond_holds S r c"
  by (induction c) simp_all

lemma where_holds_simps [simp]:
  "where_holds S (r\<lparr>q_parent := p\<rparr>) q = where_holds S r q"
  "where_holds S r (q\<lparr>s_target := t\<rparr>) = where_holds S r q"
  by (simp_all add: where_holds_def)

lemma row_uid_simps [simp]:
  "row_uid (r\<lparr>q_parent := p\<rparr>) = row_uid r" "row_uid (r\<lparr>q_an := a\<rparr>) = row_uid r"
  "row_uid (fo_row f p) = fst f"
  by (auto simp: row_uid_def fo_row_def split: option.splits prod.splits)

definition joined_fo :: "db \<Rightarrow> select \<Rightarrow> uid \<times> fo_entry \<Rightarrow> qrow list" where
  "joined_fo d q f = joined_rows d q (fo_row f None)"

lemma joined_rows_parent:
  "joined_rows d q (fo_row f p) = map (\<lambda>r. r\<lparr>q_parent := p\<rparr>) (joined_fo d q f)"
proof -
  have a: "join_analyses d (r\<lparr>q_parent := p\<rparr>) = map (\<lambda>r. r\<lparr>q_parent := p\<rparr>) (join_analyses d r)" for r
    by (simp add: join_analyses_def)
  have w: "join_firmware d out (r\<lparr>q_parent := p\<rparr>) = map (\<lambda>r. r\<lparr>q_parent := p\<rparr>) (join_firmware d out r)" for r out
    by (simp add: join_firmware_def Let_def)
  have f: "join_files d (r\<lparr>q_parent := p\<rparr>) = map (\<lambda>r. r\<lparr>q_parent := p\<rparr>) (join_files d r)" for r
    by (simp add: join_files_def)
  have b: "fo_row f p = (fo_row f None)\<lparr>q_parent := p\<rparr>" by (simp add: fo_row_def)
  show ?thesis unfolding joined_fo_def joined_rows_def Let_def b a
    by (auto simp: w f map_concat comp_def split: join.splits)
qed

lemma joined_rows_target [simp]: "joined_rows d (q\<lparr>s_target := t\<rparr>) = joined_rows d q"
  by (rule ext) (simp add: joined_rows_def)

lemma joined_fo_uid: "\<not> s_fo_join q \<Longrightarrow> r \<in> set (joined_fo d q f) \<Longrightarrow> row_uid r = fst f"
proof -
  have w: "r' \<in> set (join_firmware d out r) \<Longrightarrow> q_fo r' = q_fo r" for r' r out
    by (auto simp: join_firmware_def Let_def split: if_splits)
  have a: "r' \<in> set (join_analyses d r) \<Longrightarrow> q_fo r' = q_fo r" for r' r
    by (auto simp: join_analyses_def)
  have "\<not> s_fo_join q \<Longrightarrow> r \<in> set (joined_fo d q f) \<Longrightarrow> q_fo r = q_fo (fo_row f None)"
    by (auto simp: joined_fo_def joined_rows_def Let_def split: if_splits join.splits dest!: w a)
  then show "\<not> s_fo_join q \<Longrightarrow> r \<in> set (joined_fo d q f) \<Longrightarrow> row_uid r = fst f"
    by (auto simp: row_uid_def fo_row_def split: option.splits prod.splits)
qed

definition fo_matches :: "sql \<Rightarrow> db \<Rightarrow> select \<Rightarrow> uid \<times> fo_entry \<Rightarrow> bool" where
  "fo_matches S d q f \<longleftrightarrow> (\<exists>r \<in> set (joined_fo d q f). where_holds S r q)"

lemma select_fo_uids:
  assumes "s_target q = SelFo" "\<not> s_fo_join q"
  shows "set (select_uids S d q) = {u. \<exists>e. (u, e) \<in> set (file_tbl d) \<and> fo_matches S d q (u, e)}"
  using assms joined_fo_uid[OF assms(2), of _ d]
  by (fastforce simp: select_uids_def select_rows_def base_rows_def fo_matches_def joined_fo_def[symmetric] image_iff)

lemma select_rows_parent:
  "row \<in> set (select_rows S d (q\<lparr>s_target := SelParent\<rparr>)) \<longleftrightarrow>
     (\<exists>f \<in> set (file_tbl d). \<exists>g \<in> set (file_tbl d). \<exists>r \<in> set (joined_fo d q f). row = r\<lparr>q_parent := fst g\<rparr>
        \<and> ((fst g, fst f) \<in> set (fw_files_tbl d) \<or> fst g = fst f) \<and> where_holds S r q)"
proof -
  have st: "s_target (q\<lparr>s_target := SelParent\<rparr>) = SelParent" by simp
  have b: "set (base_rows d SelParent) = (\<Union>f \<in> set (file_tbl d). (\<lambda>g. fo_row f (fst g)) `
      {g \<in> set (file_tbl d). (fst g, fst f) \<in> set (fw_files_tbl d) \<or> fst g = fst f})"
    by (simp add: base_rows_def)
  have "row \<in> set (select_rows S d (q\<lparr>s_target := SelParent\<rparr>)) \<longleftrightarrow>
      where_holds S row q \<and> (\<exists>f \<in> set (file_tbl d). \<exists>g \<in> set (file_tbl d).
        ((fst g, fst f) \<in> set (fw_files_tbl d) \<or> fst g = fst f) \<and> row \<in> set (joined_rows d q (fo_row f (fst g))))"
    unfolding select_rows_def set_filter set_concat set_map mem_Collect_eq where_holds_simps
    by (simp only: st b joined_rows_target UN_iff image_iff mem_Collect_eq UN_simps) blast
  also have "\<dots> \<longleftrightarrow> (\<exists>f \<in> set (file_tbl d). \<exists>g \<in> set (file_tbl d). \<exists>r \<in> set (joined_fo d q f). row = r\<lparr>q_parent := fst g\<rparr>
        \<and> ((fst g, fst f) \<in> set (fw_files_tbl d) \<or> fst g = fst f) \<and> where_holds S r q)"
    unfolding joined_rows_parent set_map image_iff by (metis where_holds_simps(1))
  finally show ?thesis .
qed

lemma select_parent_uids:
  assumes "s_target q = SelFo" "\<not> s_fo_join q"
  shows "set (select_uids S d (q\<lparr>s_target := SelParent\<rparr>)) =
    {p. p \<in> set (dkeys (file_tbl d)) \<and> (\<exists>f \<in> set (select_uids S d q). (p, f) \<in> set (fw_files_tbl d) \<or> p = f)}"
proof -
  have "p \<in> set (select_uids S d (q\<lparr>s_target := SelParent\<rparr>)) \<longleftrightarrow>
     (\<exists>row \<in> set (select_rows S d (q\<lparr>s_target := SelParent\<rparr>)). p = q_parent row)" for p
    by (auto simp: select_uids_def)
  note sel = this
  have "p \<in> set (select_uids S d (q\<lparr>s_target := SelParent\<rparr>)) \<longleftrightarrow>
     p \<in> set (dkeys (file_tbl d)) \<and>
     (\<exists>f \<in> set (file_tbl d). ((p, fst f) \<in> set (fw_files_tbl d) \<or> p = fst f) \<and> fo_matches S d q f)" (is "?l = ?r") for p
  proof
    assume ?l
    then obtain row where "row \<in> set (select_rows S d (q\<lparr>s_target := SelParent\<rparr>))" "p = q_parent row"
      using sel by blast
    moreover from this(1)[unfolded select_rows_parent] obtain f g r where "row = r\<lparr>q_parent := fst g\<rparr>"
      "f \<in> set (file_tbl d)" "g \<in> set (file_tbl d)" "(fst g, fst f) \<in> set (fw_files_tbl d) \<or> fst g = fst f"
      "r \<in> set (joined_fo d q f)" "where_holds S r q" by blast
    ultimately show ?r by (auto simp: fo_matches_def dkeys_def)
  next
    assume ?r
    then obtain f g r where *: "g \<in> set (file_tbl d)" "p = fst g" "f \<in> set (file_tbl d)"
      "(p, fst f) \<in> set (fw_files_tbl d) \<or> p = fst f" "r \<in> set (joined_fo d q f)" "where_holds S r q"
      unfolding fo_matches_def dkeys_def by (auto simp: image_iff)
    then have "r\<lparr>q_parent := p\<rparr> \<in> set (select_rows S d (q\<lparr>s_target := SelParent\<rparr>))"
      unfolding select_rows_parent by blast
    then show ?l using sel by force
  qed
  then show ?thesis unfolding select_fo_uids[OF assms] by fastforce
qed


section \<open>Where the search differs from what is asked\<close>

text \<open>
  All conditions on analyses are put on one joined row, so conditions on the results of two
  plugins are never met together, whatever the results are.
\<close>

lemma analysis_filters_mem:
  "analysis_filters S d = Inr as \<Longrightarrow> (key, v) \<in> set d \<Longrightarrow> split_analysis_key key = Inr (plugin, sub) \<Longrightarrow>
   \<exists>c. OnPlugin c plugin \<in> fst ` set as"
proof (induction S d arbitrary: as rule: analysis_filters.induct)
  case (2 S key' v' d)
  from "2.prems"(1) obtain p s c w cs where *: "split_analysis_key key' = Inr (p, s)"
    "add_analysis_filter_to_query S key' v' s = Inr (c, w)" "analysis_filters S d = Inr cs" "as = (OnPlugin c p, key', w) # cs"
    by (auto simp: result_simps split: prod.splits)
  show ?case
  proof (cases "(key, v) = (key', v')")
    case True
    with * "2.prems"(3) show ?thesis by auto
  next
    case False
    then have "(key, v) \<in> set d" using "2.prems"(2) by auto
    from "2.IH"[OF *(1) refl *(2) refl *(3) this "2.prems"(3)] *(4) show ?thesis by auto
  qed
qed simp

lemma two_plugins_never_match:
  assumes "map_of sd ''$or'' = None" "map_of sd ''_id'' = None"
    and "(k1, v1) \<in> set sd" "startswith k1 ''processed_analysis''" "split_analysis_key k1 = Inr (p1, s1)"
    and "(k2, v2) \<in> set sd" "startswith k2 ''processed_analysis''" "split_analysis_key k2 = Inr (p2, s2)"
    and "p1 \<noteq> p2" "generic_search S d sd None None False False = Inr (us, sd')"
  shows "us = []"
proof -
  have "sd \<noteq> []" using assms(3) by auto
  with assms(10) obtain q where q: "build_query_from_dict S sd (select_from SelFo) False False = Inr (q, sd')"
    "us = file_order S d (select_uids S d q)"
    by (auto simp: generic_search_def build_generic_search_query_def result_simps apply_offset_and_limit_def Let_def)
  then obtain as ws fs where as: "analysis_filters S (filter (\<lambda>(k, _). startswith k ''processed_analysis'') sd) = Inr as"
    "s_where q = map fst as @ ws @ fs" "\<not> s_where_or q"
    using assms(1,2) by (auto simp: build_query_from_dict.simps[of S sd] build_flat_query_def Let_def result_simps)
  have "\<exists>c. OnPlugin c p1 \<in> set (s_where q)" "\<exists>c. OnPlugin c p2 \<in> set (s_where q)"
    using analysis_filters_mem[OF as(1), of k1 v1 p1 s1] analysis_filters_mem[OF as(1), of k2 v2 p2 s2] assms(3-8) as(2)
    by auto
  then obtain c1 c2 where c: "OnPlugin c1 p1 \<in> set (s_where q)" "OnPlugin c2 p2 \<in> set (s_where q)" by blast
  have "\<not> where_holds S r q" for r
  proof
    assume "where_holds S r q"
    then have "cond_holds S r (OnPlugin c1 p1)" "cond_holds S r (OnPlugin c2 p2)"
      using as(3) c unfolding where_holds_def by (simp_all del: cond_holds.simps)
    with assms(9) show False by (simp split: option.splits prod.splits)
  qed
  then show ?thesis by (simp add: q(2) select_uids_def select_rows_def file_order_def)
qed

text \<open>An \<open>$or\<close> replaces the conditions beside it.\<close>

lemma or_drops_other_conditions:
  assumes "map_of sd ''$or'' = Some (PDict d)"
  shows "map_r fst (build_query_from_dict S sd q f any) = map_r fst (build_query_from_dict S [(''$or'', PDict d)] q f any)"
  using assms by (simp add: build_query_from_dict.simps[of S sd] build_query_from_dict.simps[of S "[(''$or'', PDict d)]"])
    (simp add: map_r_def split: sum.splits prod.splits)

definition query_ex_sql :: sql where
  "query_ex_sql = \<lparr>sql_holds = (\<lambda>oper x v. x = v), sql_dumps = (\<lambda>v. case v of PStr s \<Rightarrow> ''q'' @ s | _ \<Rightarrow> ''null''),
     sql_str = (\<lambda>v. case v of PStr s \<Rightarrow> s | _ \<Rightarrow> []), sql_text = (\<lambda>v. []), sql_rank = (\<lambda>_. 0)\<rparr>"

definition query_ex_file :: "bool \<Rightarrow> fo_entry" where
  "query_ex_file b = \<lparr>fe_sha256 = None, fe_file_name = Some ''f'', fe_depth = 0, fe_size = Some 1, fe_comments = [],
     fe_virtual_file_paths = [], fe_is_firmware = b\<rparr>"

definition query_ex_firmware :: fw_entry where
  "query_ex_firmware = \<lparr>we_submission_date = 0, we_release_date = (2000, 1, 2), we_version = Some ''1'',
     we_vendor = Some ''v'', we_device_name = Some ''n'', we_device_class = Some ''c'', we_device_part = [], we_firmware_tags = []\<rparr>"

definition query_ex_db :: db where
  "query_ex_db = empty_db\<lparr>file_tbl := [(Some ''a'', query_ex_file True), (Some ''b'', query_ex_file True), (Some ''c'', query_ex_file False)],
     firmware_tbl := [(Some ''a'', query_ex_firmware), (Some ''b'', query_ex_firmware)],
     fw_files_tbl := [(Some ''a'', Some ''c'')], included_tbl := [(Some ''a'', Some ''c'')],
     analysis_tbl := [((Some ''c'', ''p''), \<lparr>an_plugin_version = PStr ''1'', an_system_version = PNone, an_date = PFloat 0,
        an_summary = PList [], an_tags = PDict [], an_result = [(''k'', PStr ''qx'')]\<rparr>)]\<rparr>"

lemmas query_ex_defs = query_ex_db_def query_ex_sql_def query_ex_file_def query_ex_firmware_def empty_db_def

text \<open>
  The browse page runs its search and then counts the matches of the same dict, in which the
  search has encoded the operands already: here one file is found and none counted.
\<close>

lemma browse_counts_other_matches:
  "\<exists>us sd'. generic_search query_ex_sql query_ex_db [(''processed_analysis.p.k'', PDict [(''$gt'', PStr ''x'')])] None None False False
       = Inr (us, sd') \<and> us = [Some ''c''] \<and> get_number_of_total_matches query_ex_sql query_ex_db sd' False False = Inr 0"
proof (intro exI conjI)
  let ?sd = "[(''processed_analysis.p.k'', PDict [(''$gt'', PStr ''qx'')])]"
  show "generic_search query_ex_sql query_ex_db [(''processed_analysis.p.k'', PDict [(''$gt'', PStr ''x'')])] None None False False
       = Inr ([Some ''c''], ?sd)" by code_simp
  show "get_number_of_total_matches query_ex_sql query_ex_db ?sd False False = Inr 0" by code_simp
qed simp


end
