(* ===== verification/FrontendDb.thy ===== *)
theory FrontendDb
  imports QueryConversion FileTree
begin

text \<open>
  The rest of \<open>storage/db_interface_frontend.py\<close>: human-readable identifiers, the lists the
  web pages show, missing and failed analyses, the search cache and the data of the
  dependency graph. The collation of the database and the rule names the cache finds with a
  regular expression are parameters.
\<close>

section \<open>Human-readable identifiers\<close>

definition db_hid_firmware :: "fw_entry \<Rightarrow> string" where
  "db_hid_firmware w =
     (let p = (if we_device_part w = [] then [] else '' '' @ we_device_part w)
      in fstr (we_vendor w) @ '' '' @ fstr (we_device_name w) @ '' -'' @ p @ '' '' @ fstr (we_version w)
         @ '' ('' @ fstr (we_device_class w) @ '')'')"

text \<open>The paths below the root, or those of the first root if there are none.\<close>

definition hid_fo_paths :: "vfp_dict \<Rightarrow> uid \<Rightarrow> string list result" where
  "hid_fo_paths vfps r_uid = (case map_of vfps r_uid of
      Some (p # ps) \<Rightarrow> Inr (p # ps)
    | _ \<Rightarrow> bind_r (get_value_of_first_key vfps) (\<lambda>v. case v of None \<Rightarrow> Inl TypeError | Some ps \<Rightarrow> Inr ps))"

definition db_hid_fo :: "fo_entry \<Rightarrow> uid \<Rightarrow> string result" where
  "db_hid_fo e r_uid = bind_r (hid_fo_paths (fe_virtual_file_paths e) r_uid) (\<lambda>ps.
     case ps of [] \<Rightarrow> Inl IndexError | p # _ \<Rightarrow> get_top_of_virtual_path p)"

definition frontend_get_hid :: "db \<Rightarrow> uid \<Rightarrow> uid \<Rightarrow> string result" where
  "frontend_get_hid d u r_uid = (case map_of (file_tbl d) u of
      None \<Rightarrow> Inr []
    | Some e \<Rightarrow>
        if fe_is_firmware e then
          (case map_of (firmware_tbl d) u of None \<Rightarrow> Inl AttributeError | Some w \<Rightarrow> Inr (db_hid_firmware w))
        else db_hid_fo e r_uid)"

definition get_hid_dict :: "db \<Rightarrow> string list \<Rightarrow> uid \<Rightarrow> (string, string) dict result" where
  "get_hid_dict d uid_set r_uid = foldM_r (\<lambda>(u, e) res.
     bind_r (case map_of (firmware_tbl d) u of None \<Rightarrow> db_hid_fo e r_uid | Some w \<Rightarrow> Inr (db_hid_firmware w))
       (\<lambda>h. Inr (dput (fstr u) h res)))
     (filter (\<lambda>(u, _). case u of None \<Rightarrow> False | Some s \<Rightarrow> s \<in> set uid_set) (file_tbl d)) []"

definition frontend_get_file_name :: "db \<Rightarrow> uid \<Rightarrow> string option" where
  "frontend_get_file_name d u = (case map_of (file_tbl d) u of None \<Rightarrow> Some ''unknown'' | Some e \<Rightarrow> fe_file_name e)"

section \<open>The list of files with their paths\<close>

record nice_item =
  ni_uid :: uid
  ni_size :: "int option"
  ni_file_name :: "string option"
  ni_mime :: pyval
  ni_paths :: "string list"

definition get_current_vfp :: "vfp_dict \<Rightarrow> uid \<Rightarrow> string list result" where
  "get_current_vfp vfp r_uid = (case map_of vfp r_uid of
      Some ps \<Rightarrow> Inr ps
    | None \<Rightarrow> bind_r (get_value_of_first_key vfp) (\<lambda>v. case v of None \<Rightarrow> Inl TypeError | Some ps \<Rightarrow> Inr ps))"

text \<open>\<open>vfp.lstrip('|').replace('|', ' | ')\<close> after each UID became a readable identifier.\<close>

definition nice_path :: "(string, string) dict \<Rightarrow> string \<Rightarrow> string" where
  "nice_path hid_dict vfp =
     (let v = fold (\<lambda>u p. replace_str u (case map_of hid_dict u of None \<Rightarrow> u | Some h \<Rightarrow> h) p)
                (get_uids_from_virtual_path vfp) vfp
      in replace_char (CHR ''|'') '' | '' (lstrip (CHR ''|'') v))"

definition replace_uids_in_nice_list :: "db \<Rightarrow> nice_item list \<Rightarrow> uid \<Rightarrow> nice_item list result" where
  "replace_uids_in_nice_list d nice_list_data r_uid =
     (let uids_in_vfp = py_set (concat (map (\<lambda>item. concat (map get_uids_from_virtual_path (ni_paths item))) nice_list_data))
      in map_r (\<lambda>hid_dict. map (\<lambda>item. item\<lparr>ni_paths := map (nice_path hid_dict) (ni_paths item)\<rparr>) nice_list_data)
           (get_hid_dict d uids_in_vfp r_uid))"

definition get_data_for_nice_list :: "db \<Rightarrow> uid list \<Rightarrow> uid \<Rightarrow> nice_item list result" where
  "get_data_for_nice_list d uid_list r_uid =
     (let mime_dict = get_mime_types_for_uid_list d uid_list in
      bind_r (mapM_r (\<lambda>(u, e). map_r (\<lambda>ps. \<lparr>ni_uid = u, ni_size = fe_size e, ni_file_name = fe_file_name e,
            ni_mime = (case map_of mime_dict u of None \<Rightarrow> PStr ''file-type-plugin/not-run-yet'' | Some m \<Rightarrow> m),
            ni_paths = ps\<rparr>) (get_current_vfp (fe_virtual_file_paths e) r_uid))
         (filter (\<lambda>(u, _). u \<in> set uid_list) (file_tbl d)))
       (\<lambda>items. replace_uids_in_nice_list d items r_uid))"

section \<open>Attributes of firmware\<close>

text \<open>The distinct values of a column that is not \<open>NULL\<close>, sorted.\<close>

definition get_firmware_attribute_list :: "db \<Rightarrow> (fw_entry \<Rightarrow> string option) \<Rightarrow> string list" where
  "get_firmware_attribute_list d attribute =
     sort (remdups (concat (map (\<lambda>(_, w). case attribute w of None \<Rightarrow> [] | Some s \<Rightarrow> [s]) (firmware_tbl d))))"

definition get_device_class_list :: "db \<Rightarrow> string list" where
  "get_device_class_list d = get_firmware_attribute_list d we_device_class"

definition get_vendor_list :: "db \<Rightarrow> string list" where
  "get_vendor_list d = get_firmware_attribute_list d we_vendor"

definition db_tag_list :: "db \<Rightarrow> string list" where
  "db_tag_list d = sort (remdups (concat (map (\<lambda>(_, w). we_firmware_tags w) (firmware_tbl d))))"

type_synonym device_dict = "(string option, (string option, string option list) dict) dict"

definition add_device :: "string option \<Rightarrow> string option \<Rightarrow> string option \<Rightarrow> device_dict \<Rightarrow> device_dict" where
  "add_device cls vend name d =
     dput cls (dappend vend name (case map_of d cls of None \<Rightarrow> [] | Some vs \<Rightarrow> vs)) d"

definition get_device_name_dict :: "db \<Rightarrow> device_dict" where
  "get_device_name_dict d =
     fold (\<lambda>(_, w). add_device (we_device_class w) (we_vendor w) (we_device_name w)) (firmware_tbl d) []"

definition get_other_versions_of_firmware :: "sql \<Rightarrow> db \<Rightarrow> file_object \<Rightarrow> (uid \<times> string option) list" where
  "get_other_versions_of_firmware S d firmware = (case fw firmware of
      None \<Rightarrow> []
    | Some x \<Rightarrow> sort_key (\<lambda>(_, v). sql_rank S [v]) (map (\<lambda>(u, w). (u, we_version w))
        (filter (\<lambda>(u, w). we_vendor w = vendor x \<and> vendor x \<noteq> None \<and> we_device_name w = device_name x
            \<and> device_name x \<noteq> None \<and> we_device_part w = part x \<and> u \<noteq> fo_uid firmware) (firmware_tbl d))))"

text \<open>The comments of all objects, latest first; \<open>rank\<close> is the order of their times.\<close>

definition get_latest_comments :: "(pyval \<Rightarrow> nat) \<Rightarrow> db \<Rightarrow> nat \<Rightarrow> pyval list" where
  "get_latest_comments rank d limit =
     take limit (py_sort_rev rank (concat (map (\<lambda>(_, e). fe_comments e) (file_tbl d))))"

section \<open>Meta data of search results\<close>

record meta_entry =
  me_uid :: uid
  me_hid :: string
  me_tags :: "(string, string) dict"
  me_submission_date :: real

definition get_unpacker_name :: "db \<Rightarrow> uid \<Rightarrow> string result" where
  "get_unpacker_name d u = (case map_of (analysis_tbl d) (u, ''unpacker'') of
      None \<Rightarrow> Inr ''NOP''
    | Some a \<Rightarrow> bind_r (dlookup (an_result a) ''plugin_used'') (\<lambda>v. case v of PStr s \<Rightarrow> Inr s | _ \<Rightarrow> Inl TypeError))"

definition get_fo_root_hid :: "db \<Rightarrow> uid \<Rightarrow> string result" where
  "get_fo_root_hid d u = (case root_firmware d u of
      [] \<Rightarrow> Inr []
    | r # _ \<Rightarrow> (case map_of (firmware_tbl d) r of
          None \<Rightarrow> Inl AttributeError
        | Some w \<Rightarrow> Inr (fstr (we_vendor w) @ '' '' @ fstr (we_device_name w) @ '' | '')))"

definition get_meta_for_fo :: "db \<Rightarrow> uid \<Rightarrow> fo_entry \<Rightarrow> meta_entry result" where
  "get_meta_for_fo d u e =
     bind_r (get_fo_root_hid d u) (\<lambda>root_hid.
     bind_r (get_unpacker_name d u) (\<lambda>n.
     bind_r (db_hid_fo e None) (\<lambda>h.
       Inr \<lparr>me_uid = u, me_hid = root_hid @ h, me_tags = [(n, tag_value LIGHT_BLUE)], me_submission_date = 0\<rparr>)))"

definition get_meta_for_fw :: "db \<Rightarrow> uid \<Rightarrow> fw_entry \<Rightarrow> meta_entry result" where
  "get_meta_for_fw d u w =
     map_r (\<lambda>n. \<lparr>me_uid = u, me_hid = db_hid_firmware w,
        me_tags = dput n (tag_value LIGHT_BLUE) (fold (\<lambda>t. dput t (tag_value GRAY)) (we_firmware_tags w) []),
        me_submission_date = we_submission_date w\<rparr>) (get_unpacker_name d u)"

text \<open>A result is a firmware entry or a file object entry.\<close>

definition get_meta_for_entry :: "db \<Rightarrow> bool \<Rightarrow> uid \<Rightarrow> meta_entry result" where
  "get_meta_for_entry d is_fw_entry u =
     (let meta_fw = (case map_of (firmware_tbl d) u of None \<Rightarrow> Inl AttributeError | Some w \<Rightarrow> get_meta_for_fw d u w) in
      if is_fw_entry then meta_fw
      else (case map_of (file_tbl d) u of
          None \<Rightarrow> Inl AttributeError
        | Some e \<Rightarrow> if fe_is_firmware e then meta_fw else get_meta_for_fo d u e))"

definition generic_search_meta ::
  "sql \<Rightarrow> db \<Rightarrow> search \<Rightarrow> nat option \<Rightarrow> nat option \<Rightarrow> bool \<Rightarrow> bool \<Rightarrow> (meta_entry list \<times> search) result" where
  "generic_search_meta S d search_dict skip limit only_fo_parent_firmware inverted =
     bind_r (generic_search S d search_dict skip limit only_fo_parent_firmware inverted) (\<lambda>(us, sd).
       map_r (\<lambda>ms. (ms, sd))
         (mapM_r (get_meta_for_entry d (search_dict = [] \<or> only_fo_parent_firmware)) us))"

definition get_last_added_firmwares :: "db \<Rightarrow> nat \<Rightarrow> meta_entry list result" where
  "get_last_added_firmwares d limit =
     mapM_r (\<lambda>(u, w). get_meta_for_fw d u w) (take limit (py_sort_rev (\<lambda>(_, w). we_submission_date w) (firmware_tbl d)))"

section \<open>Missing and failed analyses\<close>

text \<open>The plugins of each analysed object that passes the filter.\<close>

definition query_all_plugins_of_object :: "db \<Rightarrow> (uid \<Rightarrow> fo_entry \<Rightarrow> bool) \<Rightarrow> (uid \<times> string list) list" where
  "query_all_plugins_of_object d query_filter =
     (let us = remdups (map (\<lambda>a. fst (fst a)) (analysis_tbl d)) in
      concat (map (\<lambda>u. case map_of (file_tbl d) u of
          None \<Rightarrow> []
        | Some e \<Rightarrow> if query_filter u e then [(u, map fst (analyses_of d u))] else []) us))"

definition dget_set :: "('k, 'v list) dict \<Rightarrow> 'k \<Rightarrow> 'v list" where
  "dget_set m k = (case map_of m k of None \<Rightarrow> [] | Some s \<Rightarrow> s)"

text \<open>\<open>m.setdefault(k, set()).add(x)\<close>.\<close>

definition dset_add :: "'k \<Rightarrow> 'v \<Rightarrow> ('k, 'v list) dict \<Rightarrow> ('k, 'v list) dict" where
  "dset_add k x m = dput k (set_add x (dget_set m k)) m"

definition find_missing_analyses :: "db \<Rightarrow> (uid, uid list) dict" where
  "find_missing_analyses d =
     fold (\<lambda>(fw_uid, fw_plugin_list). fold (\<lambda>(f, fo_plugin_list) m.
         if set_minus (py_set fw_plugin_list) fo_plugin_list \<noteq> []
         then dset_add fw_uid f m else m)
       (query_all_plugins_of_object d (\<lambda>f _. fw_uid \<in> set (root_firmware d f))))
     (query_all_plugins_of_object d (\<lambda>_ e. fe_is_firmware e)) []"

definition find_failed_analyses :: "db \<Rightarrow> (string, uid list) dict" where
  "find_failed_analyses d =
     fold (\<lambda>((f, plugin), _). dset_add plugin f)
       (filter (\<lambda>(_, a). dmem ''failed'' (an_result a)) (analysis_tbl d)) []"

section \<open>Search cache\<close>

definition get_query_from_cache :: "db \<Rightarrow> string \<Rightarrow> (string \<times> string) option" where
  "get_query_from_cache d query_id =
     map_option (\<lambda>c. (sc_query c, sc_yara_rule c)) (map_of (search_cache_tbl d) query_id)"

definition get_total_cached_query_count :: "db \<Rightarrow> nat" where
  "get_total_cached_query_count d = length (search_cache_tbl d)"

definition search_query_cache :: "(string \<Rightarrow> string list) \<Rightarrow> db \<Rightarrow> nat \<Rightarrow> nat \<Rightarrow> (string \<times> string \<times> string list) list" where
  "search_query_cache rule_names d offset limit =
     map (\<lambda>(k, c). (k, sc_yara_rule c, rule_names (sc_yara_rule c))) (take limit (drop offset (search_cache_tbl d)))"

section \<open>Data of the dependency graph\<close>

record dep_graph_data =
  dg_uid :: uid
  dg_file_name :: "string option"
  dg_virtual_file_paths :: vfp_dict
  dg_mime :: pyval
  dg_full_type :: pyval
  dg_libraries :: "pyval option"

text \<open>\<open>result.get('Output', {}).get('libraries', [])\<close>.\<close>

definition elf_libraries :: "analysis_result \<Rightarrow> pyval result" where
  "elf_libraries r = (case map_of r ''Output'' of
      None \<Rightarrow> Inr (PList [])
    | Some (PDict out) \<Rightarrow> Inr (case map_of out ''libraries'' of None \<Rightarrow> PList [] | Some l \<Rightarrow> l)
    | Some _ \<Rightarrow> Inl AttributeError)"

definition get_elf_analysis_libraries :: "db \<Rightarrow> uid list \<Rightarrow> (uid, pyval) dict result" where
  "get_elf_analysis_libraries d uid_list =
     mapM_r (\<lambda>((u, _), a). map_r (Pair u) (elf_libraries (an_result a)))
       (filter (\<lambda>((u, p), _). p = ''elf_analysis'' \<and> u \<in> set uid_list) (analysis_tbl d))"

definition json_field :: "analysis_entry \<Rightarrow> string \<Rightarrow> pyval" where
  "json_field a k = (case map_of (an_result a) k of None \<Rightarrow> PNone | Some v \<Rightarrow> v)"

definition get_data_for_dependency_graph :: "db \<Rightarrow> uid \<Rightarrow> dep_graph_data list result" where
  "get_data_for_dependency_graph d u = bind_r (get_object d u None) (\<lambda>fo. case fo of
      None \<Rightarrow> Inr []
    | Some f \<Rightarrow>
        if files_included f = [] then Inr []
        else bind_r (get_elf_analysis_libraries d (files_included f)) (\<lambda>libs.
          Inr (concat (map (\<lambda>(c, e). case map_of (analysis_tbl d) (c, ''file_type'') of
                None \<Rightarrow> []
              | Some a \<Rightarrow> [\<lparr>dg_uid = c, dg_file_name = fe_file_name e, dg_virtual_file_paths = fe_virtual_file_paths e,
                    dg_mime = json_field a ''mime'', dg_full_type = json_field a ''full'', dg_libraries = map_of libs c\<rparr>])
              (filter (\<lambda>(c, _). c \<in> set (files_included f)) (file_tbl d))))))"

section \<open>What counts as missing\<close>

lemma set_dget_set_add: "set (dget_set (dset_add k x m) j) = (if j = k then insert x (set (dget_set m j)) else set (dget_set m j))"
proof (cases "j = k")
  case True
  then have "dget_set (dset_add k x m) j = set_add x (dget_set m j)"
    by (simp add: dset_add_def dget_set_def[of "dput _ _ _"])
  with True show ?thesis by simp
next
  case False
  then show ?thesis by (simp add: dset_add_def dget_set_def)
qed

lemma fold_dset_add:
  "f \<in> set (dget_set (fold (\<lambda>(g, ps) m. if P ps then dset_add k g m else m) xs m) j)
   \<longleftrightarrow> f \<in> set (dget_set m j) \<or> (j = k \<and> (\<exists>ps. (f, ps) \<in> set xs \<and> P ps))"
proof (induction xs arbitrary: m)
  case (Cons x xs)
  obtain g qs where x: "x = (g, qs)" by force
  have "(\<exists>ps. (f, ps) \<in> set (x # xs) \<and> P ps) \<longleftrightarrow> (f = g \<and> P qs) \<or> (\<exists>ps. (f, ps) \<in> set xs \<and> P ps)"
    unfolding x by auto
  with Cons.IH show ?case unfolding x by (cases "P qs") (simp_all add: set_dget_set_add, blast)
qed simp

lemma fold_fold_dset_add:
  "f \<in> set (dget_set (fold (\<lambda>(k, qs). fold (\<lambda>(g, ps) m. if P qs ps then dset_add k g m else m) (X k)) ys m) j)
   \<longleftrightarrow> f \<in> set (dget_set m j) \<or> (\<exists>qs ps. (j, qs) \<in> set ys \<and> (f, ps) \<in> set (X j) \<and> P qs ps)"
proof (induction ys arbitrary: m)
  case (Cons y ys)
  obtain k qs where y: "y = (k, qs)" by force
  have "(\<exists>qs' ps. (j, qs') \<in> set (y # ys) \<and> (f, ps) \<in> set (X j) \<and> P qs' ps) \<longleftrightarrow>
      (j = k \<and> (\<exists>ps. (f, ps) \<in> set (X k) \<and> P qs ps)) \<or> (\<exists>qs' ps. (j, qs') \<in> set ys \<and> (f, ps) \<in> set (X j) \<and> P qs' ps)"
    unfolding y by auto
  then show ?case unfolding y fold_Cons comp_def case_prod_conv Cons.IH fold_dset_add[of f "P qs"] by simp
qed simp

lemma query_all_plugins_mem:
  "(u, ps) \<in> set (query_all_plugins_of_object d Q) \<longleftrightarrow>
     (\<exists>e. map_of (file_tbl d) u = Some e \<and> Q u e) \<and> analyses_of d u \<noteq> [] \<and> ps = map fst (analyses_of d u)"
proof -
  have "u \<in> (\<lambda>a. fst (fst a)) ` set (analysis_tbl d) \<longleftrightarrow> analyses_of d u \<noteq> []"
    by (force simp: analyses_of_def filter_empty_conv)
  note us = this
  have "(u, ps) \<in> set (query_all_plugins_of_object d Q) \<longleftrightarrow>
      (\<exists>v \<in> (\<lambda>a. fst (fst a)) ` set (analysis_tbl d). \<exists>e. map_of (file_tbl d) v = Some e \<and> Q v e \<and> u = v \<and> ps = map fst (analyses_of d v))"
    unfolding query_all_plugins_of_object_def Let_def
    by (simp del: fst_conv snd_conv) (auto split: option.splits if_splits; force)
  then show ?thesis using us by auto
qed

definition plugins_of :: "db \<Rightarrow> uid \<Rightarrow> string set" where
  "plugins_of d u = {p. (u, p) \<in> set (dkeys (analysis_tbl d))}"

lemma set_analyses_of: "set (map fst (analyses_of d u)) = plugins_of d u"
  by (force simp: analyses_of_def plugins_of_def dkeys_def)

text \<open>The search for missing analyses is exact for analysed files and blind for others. A
  file is reported below a firmware if and only if both have results, the file belongs to
  the firmware, and some plugin has a result for the firmware and none for the file; a
  file of which no analysis was stored at all is never reported.
\<close>

theorem missing_analyses_exact:
  "(f \<in> set (dget_set (find_missing_analyses d) u)) =
     ((\<exists>e. map_of (file_tbl d) u = Some e \<and> fe_is_firmware e) \<and> f \<in> set (dkeys (file_tbl d)) \<and> (u, f) \<in> set (fw_files_tbl d)
      \<and> plugins_of d f \<noteq> {} \<and> \<not> plugins_of d u \<subseteq> plugins_of d f)"
proof -
  have m: "set_minus (py_set qs) ps \<noteq> [] \<longleftrightarrow> \<not> set qs \<subseteq> set ps" for qs ps :: "string list"
    by (simp flip: set_empty add: Diff_eq_empty_iff)
  have ne: "analyses_of d x \<noteq> [] \<longleftrightarrow> plugins_of d x \<noteq> {}" for x
    by (simp flip: set_analyses_of)
  have "(f \<in> set (dget_set (find_missing_analyses d) u)) =
      (\<exists>qs ps. (u, qs) \<in> set (query_all_plugins_of_object d (\<lambda>_ e. fe_is_firmware e)) \<and>
        (f, ps) \<in> set (query_all_plugins_of_object d (\<lambda>f _. u \<in> set (root_firmware d f))) \<and> \<not> set qs \<subseteq> set ps)"
    unfolding find_missing_analyses_def
    by (subst fold_fold_dset_add[where P = "\<lambda>qs ps. set_minus (py_set qs) ps \<noteq> []"
        and X = "\<lambda>k. query_all_plugins_of_object d (\<lambda>f _. k \<in> set (root_firmware d f))"]) (simp add: m dget_set_def)
  also have "\<dots> = ((\<exists>e. map_of (file_tbl d) u = Some e \<and> fe_is_firmware e) \<and> plugins_of d u \<noteq> {} \<and>
      (\<exists>e. map_of (file_tbl d) f = Some e) \<and> u \<in> set (root_firmware d f) \<and> plugins_of d f \<noteq> {} \<and> \<not> plugins_of d u \<subseteq> plugins_of d f)"
    unfolding query_all_plugins_mem ne by (auto simp: set_analyses_of simp del: set_map)
  also have "u \<in> set (root_firmware d f) \<longleftrightarrow> (u, f) \<in> set (fw_files_tbl d)"
    by (force simp: root_firmware_def)
  also have "(\<exists>e. map_of (file_tbl d) f = Some e) \<longleftrightarrow> f \<in> set (dkeys (file_tbl d))"
    by (simp flip: dmem_iff add: dmem_def)
  finally show ?thesis by auto
qed

end
