(* ===== verification/TaskConversion.thy ===== *)
theory TaskConversion
  imports FrontendDb Intercom
begin

text \<open>
  From an upload to a firmware object (\<open>helperFunctions/task_conversion.py\<close> and the upload of
  \<open>io_routes.py\<close>). An analysis task is the dict of the source; its values are strings, a list
  of strings or bytes. HTML escaping and the files of the request are parameters.
\<close>

section \<open>Requests\<close>

text \<open>
  The uploaded file has a name (empty if none was chosen) and content that can be read or
  not. A missing form field is a \<open>KeyError\<close> of the request.
\<close>

record upload_request =
  rq_form :: "(string, string) dict"
  rq_systems :: "string list"
  rq_file :: "string \<times> bytes option"

type_synonym analysis_task = "(string, pyval) dict"

definition OPTIONAL_FIELDS :: "string list" where
  "OPTIONAL_FIELDS = [''tags'', ''device_part'']"

definition DROPDOWN_FIELDS :: "string list" where
  "DROPDOWN_FIELDS = [''device_class'', ''vendor'', ''device_name'', ''device_part'']"

definition form_field :: "(string \<Rightarrow> string) \<Rightarrow> upload_request \<Rightarrow> string \<Rightarrow> pyval result" where
  "form_field escape r k = map_r (\<lambda>s. PStr (escape s)) (dlookup (rq_form r) k)"

definition META_FIELDS :: "string list" where
  "META_FIELDS = [''device_name'', ''device_part'', ''device_class'', ''vendor'', ''version'', ''release_date'']"

fun add_form_fields :: "(string \<Rightarrow> string) \<Rightarrow> upload_request \<Rightarrow> string list \<Rightarrow> analysis_task \<Rightarrow> analysis_task result" where
  "add_form_fields escape r [] meta = Inr meta"
| "add_form_fields escape r (k # ks) meta =
     bind_r (form_field escape r k) (\<lambda>v. add_form_fields escape r ks (dput k v meta))"

text \<open>An empty drop-down field takes the choice of the drop-down menu.\<close>

definition dropdown_step ::
  "(string \<Rightarrow> string) \<Rightarrow> upload_request \<Rightarrow> string \<Rightarrow> analysis_task \<Rightarrow> analysis_task result" where
  "dropdown_step escape r item meta =
     bind_r (dlookup meta item) (\<lambda>v.
       if \<not> py_truthy v \<and> item \<in> set DROPDOWN_FIELDS then
         bind_r (dlookup (rq_form r) (item @ ''_dropdown'')) (\<lambda>dd.
           Inr (if dd \<noteq> ''new entry'' then dput item (PStr (escape dd)) meta else meta))
       else Inr meta)"

definition get_meta_from_dropdowns ::
  "(string \<Rightarrow> string) \<Rightarrow> upload_request \<Rightarrow> analysis_task \<Rightarrow> analysis_task result" where
  "get_meta_from_dropdowns escape r meta = foldM_r (dropdown_step escape r) (dkeys meta) meta"

definition get_meta_from_request :: "(string \<Rightarrow> string) \<Rightarrow> upload_request \<Rightarrow> analysis_task result" where
  "get_meta_from_request escape r =
     bind_r (add_form_fields escape r META_FIELDS []) (\<lambda>m1.
     bind_r (add_form_fields escape r [''tags'']
         (dput ''requested_analysis_systems'' (PList (map PStr (rq_systems r))) m1)) (\<lambda>m2.
     bind_r (get_meta_from_dropdowns escape r m2) (\<lambda>m3.
       Inr (case map_of (rq_form r) ''file_name'' of
           Some n \<Rightarrow> dput ''file_name'' (PStr (escape n)) m3 | None \<Rightarrow> m3))))"

definition get_uploaded_file_binary :: "upload_request \<Rightarrow> bytes option" where
  "get_uploaded_file_binary r = (if fst (rq_file r) = [] then None else snd (rq_file r))"

definition get_file_name_and_binary_from_request :: "(string \<Rightarrow> string) \<Rightarrow> upload_request \<Rightarrow> string \<times> bytes option" where
  "get_file_name_and_binary_from_request escape r = (escape (fst (rq_file r)), get_uploaded_file_binary r)"

definition opt_bytes :: "bytes option \<Rightarrow> pyval" where
  "opt_bytes b = (case b of None \<Rightarrow> PNone | Some x \<Rightarrow> PBytes x)"

definition get_uid_of_analysis_task :: "(bytes \<Rightarrow> string) \<Rightarrow> analysis_task \<Rightarrow> pyval result" where
  "get_uid_of_analysis_task sha t = bind_r (dlookup t ''binary'') (\<lambda>b.
     case b of PBytes x \<Rightarrow> Inr (if x \<noteq> [] then PStr (bytes_uid sha x) else PNone)
             | _ \<Rightarrow> Inr PNone)"

text \<open>A default replaces an empty date.\<close>

definition default_date :: "analysis_task \<Rightarrow> analysis_task result" where
  "default_date t = map_r (\<lambda>v. if v = PStr [] then dput ''release_date'' (PStr ''1970-01-01'') t else t) (dlookup t ''release_date'')"

definition create_analysis_task ::
  "(bytes \<Rightarrow> string) \<Rightarrow> (string \<Rightarrow> string) \<Rightarrow> upload_request \<Rightarrow> analysis_task result" where
  "create_analysis_task sha escape r =
     bind_r (get_meta_from_request escape r) (\<lambda>task0.
       let task1 = (if fst (rq_file r) = [] then task0
                    else (case get_file_name_and_binary_from_request escape r of (n, b) \<Rightarrow>
                        dput ''binary'' (opt_bytes b) (dput ''file_name'' (PStr n) task0)))
       in bind_r (get_uid_of_analysis_task sha task1) (\<lambda>u. default_date (dput ''uid'' u task1)))"

definition create_re_analyze_task :: "(string \<Rightarrow> string) \<Rightarrow> upload_request \<Rightarrow> string \<Rightarrow> analysis_task result" where
  "create_re_analyze_task escape r u =
     bind_r (get_meta_from_request escape r) (\<lambda>task. default_date (dput ''uid'' (PStr u) task))"

definition get_tag_list :: "string option \<Rightarrow> string list" where
  "get_tag_list tag_string = (case tag_string of
      None \<Rightarrow> [] | Some s \<Rightarrow> if s = [] then [] else split_on (CHR '','') s)"

definition check_for_errors :: "analysis_task \<Rightarrow> (string, string) dict" where
  "check_for_errors t =
     map (\<lambda>(k, _). (k, ''Please specify the '' @ replace_char (CHR ''_'') '' '' k))
       (filter (\<lambda>(k, v). (v = PNone \<or> v = PStr [] \<or> v = PBytes []) \<and> k \<notin> set OPTIONAL_FIELDS) t)"

section \<open>Firmware objects\<close>

definition as_str :: "pyval \<Rightarrow> string option" where
  "as_str v = (case v of PStr s \<Rightarrow> Some s | _ \<Rightarrow> None)"

definition as_list :: "pyval \<Rightarrow> string list option" where
  "as_list v = (case v of PList l \<Rightarrow> Some (concat (map (\<lambda>e. case e of PStr s \<Rightarrow> [s] | _ \<Rightarrow> []) l)) | _ \<Rightarrow> None)"

definition the_firmware_data :: "file_object \<Rightarrow> firmware_data" where
  "the_firmware_data fo = (case fw fo of None \<Rightarrow> blank_firmware_data | Some x \<Rightarrow> x)"

text \<open>The binary, if the task has one, and the name and UID of the object.\<close>

definition set_task_file ::
  "(bytes \<Rightarrow> string) \<Rightarrow> (bytes \<Rightarrow> string) \<Rightarrow> analysis_task \<Rightarrow> file_object \<Rightarrow> file_object result" where
  "set_task_file sha md t f = (case map_of t ''binary'' of
      Some (PBytes b) \<Rightarrow> bind_r (dlookup t ''file_name'') (\<lambda>n. Inr ((set_binary sha md b f)\<lparr>file_name := as_str n\<rparr>))
    | Some _ \<Rightarrow> Inl TypeError
    | None \<Rightarrow>
        let f1 = (case map_of t ''file_name'' of Some n \<Rightarrow> f\<lparr>file_name := as_str n\<rparr> | None \<Rightarrow> f) in
        bind_r (dlookup t ''uid'') (\<lambda>u. Inr (set_uid (as_str u) f1)))"

text \<open>
  \<open>convert_analysis_task_to_fw_obj\<close>. A part that is \<open>None\<close> is read like the empty part by
  everything that reads it.
\<close>

definition set_task_meta :: "analysis_task \<Rightarrow> file_object \<Rightarrow> file_object result" where
  "set_task_meta t f =
     bind_r (dlookup t ''device_name'') (\<lambda>n. bind_r (dlookup t ''device_part'') (\<lambda>p.
     bind_r (dlookup t ''version'') (\<lambda>v. bind_r (dlookup t ''device_class'') (\<lambda>c.
     bind_r (dlookup t ''vendor'') (\<lambda>w. bind_r (dlookup t ''release_date'') (\<lambda>r.
     bind_r (dlookup t ''tags'') (\<lambda>tags.
       Inr (f\<lparr>fw := Some (fold set_tag (get_tag_list (as_str tags))
         ((set_part_name (case as_str p of None \<Rightarrow> [] | Some s \<Rightarrow> s) (the_firmware_data f))
           \<lparr>device_name := as_str n, fw_version := as_str v, device_class := as_str c, vendor := as_str w,
            release_date := as_str r, fw_tags := []\<rparr>))\<rparr>))))))))"

definition convert_analysis_task_to_fw_obj ::
  "(bytes \<Rightarrow> string) \<Rightarrow> (bytes \<Rightarrow> string) \<Rightarrow> analysis_task \<Rightarrow> file_object option \<Rightarrow> file_object result" where
  "convert_analysis_task_to_fw_obj sha md t base_fw =
     (let f0 = (case base_fw of Some f \<Rightarrow> f
                | None \<Rightarrow> firmware_init sha md (\<lambda>_. []) None None None None) in
      bind_r (dlookup t ''requested_analysis_systems'') (\<lambda>s.
      bind_r (set_task_file sha md t (f0\<lparr>scheduled_analysis := as_list s\<rparr>)) (set_task_meta t)))"

section \<open>The upload page\<close>

text \<open>The errors shown to the user, or the UID and the queue with the new task.\<close>

definition post_upload ::
  "net \<Rightarrow> (bytes \<Rightarrow> string) \<Rightarrow> (bytes \<Rightarrow> string) \<Rightarrow> (string \<Rightarrow> string) \<Rightarrow> upload_request \<Rightarrow> redis_state \<Rightarrow>
   ((string, string) dict + pyval \<times> redis_state) result option" where
  "post_upload N sha md escape r st = (case create_analysis_task sha escape r of
      Inl e \<Rightarrow> Some (Inl e)
    | Inr t \<Rightarrow>
        if check_for_errors t \<noteq> [] then Some (Inr (Inl (check_for_errors t)))
        else (case convert_analysis_task_to_fw_obj sha md t None of
            Inl e \<Rightarrow> Some (Inl e)
          | Inr f \<Rightarrow> map_option (\<lambda>st1. map_r (\<lambda>u. Inr (u, st1)) (dlookup t ''uid'')) (add_analysis_task N sha f st)))"

section \<open>The fields of a task\<close>

definition has_str :: "string \<Rightarrow> analysis_task \<Rightarrow> bool" where
  "has_str k t \<longleftrightarrow> (\<exists>s. map_of t k = Some (PStr s))"

lemma has_str_dput [simp]: "has_str k (dput j (PStr s) t) \<longleftrightarrow> k = j \<or> has_str k t"
  by (auto simp: has_str_def)

lemma add_form_fields_keeps:
  "add_form_fields escape r ks meta = Inr m \<Longrightarrow>
   (\<forall>k. k \<in> set ks \<or> has_str k meta \<longrightarrow> has_str k m) \<and> (\<forall>k. k \<notin> set ks \<longrightarrow> map_of m k = map_of meta k)"
  by (induction ks arbitrary: meta) (fastforce simp: result_simps form_field_def)+

lemma dropdown_step_keeps:
  "dropdown_step escape r item m = Inr m' \<Longrightarrow>
   (\<forall>k. has_str k m \<longrightarrow> has_str k m') \<and> (\<forall>k. k \<notin> set DROPDOWN_FIELDS \<longrightarrow> map_of m' k = map_of m k)"
  by (auto simp: dropdown_step_def result_simps split: if_splits)

lemma get_meta_fields:
  assumes "get_meta_from_request escape r = Inr m"
  shows "\<forall>k \<in> set META_FIELDS. has_str k m"
    and "map_of m ''requested_analysis_systems'' = Some (PList (map PStr (rq_systems r)))"
    and "map_of m ''binary'' = None" "map_of m ''uid'' = None" "has_str ''tags'' m"
proof -
  obtain m1 m2 m3 where m: "add_form_fields escape r META_FIELDS [] = Inr m1"
    "add_form_fields escape r [''tags''] (dput ''requested_analysis_systems'' (PList (map PStr (rq_systems r))) m1) = Inr m2"
    "get_meta_from_dropdowns escape r m2 = Inr m3"
    "m = (case map_of (rq_form r) ''file_name'' of Some n \<Rightarrow> dput ''file_name'' (PStr (escape n)) m3 | None \<Rightarrow> m3)"
    using assms by (auto simp: get_meta_from_request_def result_simps)
  let ?P = "\<lambda>x. (\<forall>k. has_str k m2 \<longrightarrow> has_str k x) \<and> (\<forall>k. k \<notin> set DROPDOWN_FIELDS \<longrightarrow> map_of x k = map_of m2 k)"
  have "?P m3" using m(3) unfolding get_meta_from_dropdowns_def
    by (rule foldM_r_inv) (use dropdown_step_keeps in \<open>auto simp del: set_simps\<close>)
  note P = this add_form_fields_keeps[OF m(1)] add_form_fields_keeps[OF m(2)]
  have str2: "has_str k m2" if "k \<in> set META_FIELDS" for k
  proof -
    have "k \<noteq> ''requested_analysis_systems''" using that by (auto simp: META_FIELDS_def)
    then have "has_str k (dput ''requested_analysis_systems'' (PList (map PStr (rq_systems r))) m1)"
      using that P(2) by (auto simp: has_str_def)
    with P(3) show ?thesis by blast
  qed
  have m3: "has_str k m" if "has_str k m3" for k using that m(4) by (auto split: option.splits)
  have other: "map_of m k = map_of m2 k" if "k \<notin> set DROPDOWN_FIELDS" "k \<noteq> ''file_name''" for k
    using that P(1) m(4) by (auto split: option.splits)
  show "\<forall>k \<in> set META_FIELDS. has_str k m" using str2 P(1) m3 by blast
  show "has_str ''tags'' m" using P(3) P(1) m3 by auto
  show "map_of m ''requested_analysis_systems'' = Some (PList (map PStr (rq_systems r)))"
    "map_of m ''binary'' = None" "map_of m ''uid'' = None"
    using P(2,3) by (simp_all add: other DROPDOWN_FIELDS_def META_FIELDS_def)
qed

text \<open>A task without errors comes from a file that was chosen and read, and all its fields are given.\<close>

definition MANDATORY_FIELDS :: "string list" where
  "MANDATORY_FIELDS = [''device_name'', ''device_class'', ''vendor'', ''version'', ''release_date'']"

lemma no_errorsD: "check_for_errors t = [] \<Longrightarrow> map_of t k = Some v \<Longrightarrow> k \<notin> set OPTIONAL_FIELDS \<Longrightarrow>
  v \<noteq> PNone \<and> v \<noteq> PStr [] \<and> v \<noteq> PBytes []"
  by (auto simp: check_for_errors_def filter_empty_conv dest!: map_of_SomeD)

lemma default_date_keeps:
  assumes "default_date t0 = Inr t"
  shows "k \<noteq> ''release_date'' \<Longrightarrow> map_of t k = map_of t0 k" "has_str k t0 \<Longrightarrow> has_str k t"
proof -
  from assms consider "t = t0" | "t = dput ''release_date'' (PStr ''1970-01-01'') t0"
    by (auto simp: default_date_def result_simps split: if_splits)
  then show "k \<noteq> ''release_date'' \<Longrightarrow> map_of t k = map_of t0 k" "has_str k t0 \<Longrightarrow> has_str k t"
    by (cases; simp)+
qed

lemma accepted_task:
  assumes "create_analysis_task sha escape r = Inr t" "check_for_errors t = []"
  obtains n b where "rq_file r = (n, Some b)" "n \<noteq> []" "b \<noteq> []"
    "map_of t ''binary'' = Some (PBytes b)" "map_of t ''file_name'' = Some (PStr (escape n))"
    "map_of t ''uid'' = Some (PStr (bytes_uid sha b))"
    "map_of t ''requested_analysis_systems'' = Some (PList (map PStr (rq_systems r)))"
    "\<forall>k \<in> set MANDATORY_FIELDS. \<exists>s. map_of t k = Some (PStr s) \<and> s \<noteq> []"
    "has_str ''device_part'' t" "has_str ''tags'' t"
proof -
  obtain n bo where f: "rq_file r = (n, bo)" by force
  obtain m where m: "get_meta_from_request escape r = Inr m" using assms(1) by (auto simp: create_analysis_task_def result_simps)
  note g = get_meta_fields[OF m]
  have ne: "n \<noteq> []"
  proof
    assume "n = []"
    with assms(1) m g(3) f show False by (simp add: create_analysis_task_def get_uid_of_analysis_task_def dlookup_def)
  qed
  let ?t1 = "dput ''binary'' (opt_bytes bo) (dput ''file_name'' (PStr (escape n)) m)"
  obtain u where u: "get_uid_of_analysis_task sha ?t1 = Inr u" "default_date (dput ''uid'' u ?t1) = Inr t"
    using assms(1) m f ne by (auto simp: create_analysis_task_def result_simps get_file_name_and_binary_from_request_def
        get_uploaded_file_binary_def Let_def)
  note t = default_date_keeps(1)[OF u(2)]
  have "map_of t ''binary'' = Some (opt_bytes bo)" by (simp add: t)
  with no_errorsD[OF assms(2) this] obtain b where b: "bo = Some b" "b \<noteq> []"
    by (cases bo) (auto simp: opt_bytes_def OPTIONAL_FIELDS_def)
  have uid: "u = PStr (bytes_uid sha b)" using u(1) b by (simp add: get_uid_of_analysis_task_def opt_bytes_def dlookup_def)
  have str: "has_str k t" if "has_str k m" "k \<noteq> ''binary''" for k
    by (rule default_date_keeps(2)[OF u(2)]) (use that in \<open>auto simp: uid has_str_def\<close>)
  have mand: "\<exists>s. map_of t k = Some (PStr s) \<and> s \<noteq> []" if k: "k \<in> set MANDATORY_FIELDS" for k
  proof -
    have "k \<noteq> ''binary''" using k by (auto simp: MANDATORY_FIELDS_def)
    then have "has_str k t" using str g(1) k by (auto simp: MANDATORY_FIELDS_def META_FIELDS_def)
    then obtain s where s: "map_of t k = Some (PStr s)" by (auto simp: has_str_def)
    with no_errorsD[OF assms(2) s] k show ?thesis by (auto simp: MANDATORY_FIELDS_def OPTIONAL_FIELDS_def)
  qed
  show thesis
    by (rule that[of n b]) (use f ne b uid g mand in \<open>auto simp: t opt_bytes_def META_FIELDS_def intro!: str\<close>)
qed

section \<open>From the upload page to the storage of the back end\<close>

lemma fold_set_tag_keeps [simp]:
  "device_name (fold set_tag ts x) = device_name x" "vendor (fold set_tag ts x) = vendor x"
  "device_class (fold set_tag ts x) = device_class x" "fw_version (fold set_tag ts x) = fw_version x"
  "release_date (fold set_tag ts x) = release_date x"
  by (induction ts arbitrary: x) (simp_all add: set_tag_def)

lemma set_part_name_keeps [simp]:
  "md5 (set_part_name p x) = md5 x"
  by (simp add: set_part_name_def)

lemma as_list_strs [simp]: "as_list (PList (map PStr l)) = Some l"
proof -
  have "concat (map (\<lambda>e. case e of PStr s \<Rightarrow> [s] | _ \<Rightarrow> []) (map PStr l)) = l" by (induction l) simp_all
  then show ?thesis by (simp only: as_list_def pyval.case)
qed

lemma firmware_init_blank:
  "binary (firmware_init sha md read None None None None) = None"
  "is_firmware (firmware_init sha md read None None None None)"
  by (simp_all add: firmware_init_def update_root_id_and_virtual_path_def file_object_init_def
      create_binary_from_path_def blank_fo_def is_firmware_def Let_def)

text \<open>The firmware of an accepted task, as the page builds it.\<close>

lemma accepted_firmware:
  assumes "create_analysis_task sha escape r = Inr t" "check_for_errors t = []"
    "convert_analysis_task_to_fw_obj sha md t None = Inr f" "rq_file r = (n, Some b)"
  shows "fo_uid f = Some (bytes_uid sha b)" "binary f = Some b" "scheduled_analysis f = Some (rq_systems r)"
    "root_uid f = Some (bytes_uid sha b)" "virtual_file_path f = [(Some (bytes_uid sha b), [bytes_uid sha b])]"
    "\<exists>x. fw f = Some x \<and> (\<forall>a \<in> {device_name x, vendor x, device_class x, fw_version x, release_date x}. a \<noteq> None \<and> a \<noteq> Some [])"
proof -
  obtain n' b' where t: "rq_file r = (n', Some b')" "map_of t ''binary'' = Some (PBytes b')"
    "map_of t ''file_name'' = Some (PStr (escape n'))" "map_of t ''requested_analysis_systems'' = Some (PList (map PStr (rq_systems r)))"
    "\<forall>k \<in> set MANDATORY_FIELDS. \<exists>s. map_of t k = Some (PStr s) \<and> s \<noteq> []"
    by (rule accepted_task[OF assms(1,2)]) blast
  let ?f0 = "(firmware_init sha md (\<lambda>_. []) None None None None)\<lparr>scheduled_analysis := Some (rq_systems r)\<rparr>"
  let ?f1 = "(set_binary sha md b ?f0)\<lparr>file_name := Some (escape n)\<rparr>"
  have nb: "n' = n" "b' = b" using t(1) assms(4) by simp_all
  have "set_task_meta t ?f1 = Inr f"
    using assms(3) t(2-4) nb
    by (simp add: convert_analysis_task_to_fw_obj_def set_task_file_def as_str_def dlookup_def)
  then obtain x where f: "f = ?f1\<lparr>fw := Some x\<rparr>" and
    x: "\<exists>vn vv vc vw vr. map_of t ''device_name'' = Some vn \<and> map_of t ''version'' = Some vv \<and>
      map_of t ''device_class'' = Some vc \<and> map_of t ''vendor'' = Some vw \<and> map_of t ''release_date'' = Some vr \<and>
      device_name x = as_str vn \<and> fw_version x = as_str vv \<and> device_class x = as_str vc \<and> vendor x = as_str vw \<and> release_date x = as_str vr"
    by (auto simp: set_task_meta_def result_simps)
  have sb: "fo_uid ?f1 = Some (bytes_uid sha b)" "binary ?f1 = Some b" "scheduled_analysis ?f1 = Some (rq_systems r)"
    "root_uid ?f1 = Some (bytes_uid sha b)" "virtual_file_path ?f1 = [(Some (bytes_uid sha b), [bytes_uid sha b])]"
    using firmware_init_blank(2)[of sha md "\<lambda>_. []"]
    by (auto simp: set_binary_def set_binary_fo_def update_root_id_and_virtual_path_def is_firmware_def Let_def)
  then show "fo_uid f = Some (bytes_uid sha b)" "binary f = Some b" "scheduled_analysis f = Some (rq_systems r)"
    "root_uid f = Some (bytes_uid sha b)" "virtual_file_path f = [(Some (bytes_uid sha b), [bytes_uid sha b])]"
    by (simp_all add: f)
  have "fw f = Some x" by (simp add: f)
  moreover have "\<forall>a \<in> {device_name x, vendor x, device_class x, fw_version x, release_date x}. a \<noteq> None \<and> a \<noteq> Some []"
    using x t(5) by (fastforce simp: MANDATORY_FIELDS_def as_str_def)
  ultimately show "\<exists>x. fw f = Some x \<and> (\<forall>a \<in> {device_name x, vendor x, device_class x, fw_version x, release_date x}. a \<noteq> None \<and> a \<noteq> Some [])"
    by blast
qed

lemma store_file_fields:
  assumes "file_ops_ok F" "binary fo = Some b" "fo_uid fo = Some u"
  obtains nm where "store_file E F fo files =
      Inr (fo\<lparr>file_path := Some (generate_path_from_uid (e_storage E) u), file_name := nm\<rparr>,
        \<lambda>p. if p = generate_path_from_uid (e_storage E) u \<and> files p = None then Some b else files p)"
proof -
  have w: "write_binary_to_file F b q files = (\<lambda>p. if p = q \<and> files p = None then Some b else files p)" for q
    by (auto simp: file_ops_okD[OF assms(1)] fun_eq_iff)
  let ?p = "generate_path_from_uid (e_storage E) u"
  have "\<exists>nm. create_binary_from_path sha md read (fo\<lparr>file_path := Some ?p\<rparr>) = fo\<lparr>file_path := Some ?p, file_name := nm\<rparr>"
    for sha md read
  proof (cases "file_name fo")
    case None
    then show ?thesis using assms(2) by (intro exI[of _ "Some (path_name ?p)"]) (simp add: create_binary_from_path_def Let_def)
  next
    case (Some n)
    then show ?thesis using assms(2) by (intro exI[of _ "Some n"]) (simp add: create_binary_from_path_def Let_def)
  qed
  then show thesis
    using assms(2,3) that unfolding store_file_def generate_path_def w Let_def get_uid_simps[OF assms(3)] by (auto simp: w)
qed

lemma queued_firmware_served:
  assumes "net_ok (b_net B) (MTask (TFirmware f) (get_uid (e_sha (b_env B)) f))" "file_ops_ok (b_ops B)"
    "queue_ok ''analysis_task'' st" "queue_items ''analysis_task'' st = []"
    "add_analysis_task (b_net B) (e_sha (b_env B)) f (k, st) = Some (k1, bk_redis s)"
    "binary f = Some b" "fo_uid f = Some u"
  shows "\<exists>s' nm. backend_worker B rnd now AnalysisTask s = Done s' \<and>
    bk_unpack_queue s' = bk_unpack_queue s @ [f\<lparr>file_path := Some (generate_path_from_uid (e_storage (b_env B)) u), file_name := nm\<rparr>] \<and>
    bk_files s' = (\<lambda>p. if p = generate_path_from_uid (e_storage (b_env B)) u \<and> bk_files s p = None then Some b else bk_files s p)"
proof -
  from queued_task_is_next[OF assms(1,3,4) assms(5)[unfolded add_analysis_task_def]] obtain st' where
    q: "queue_get (n_loads (b_net B)) (connection_type AnalysisTask) (bk_redis s)
      = (Inr (Some (MTask (TFirmware f) (get_uid (e_sha (b_env B)) f))), st')"
    by (cases "queue_get (n_loads (b_net B)) ''analysis_task'' (bk_redis s)") auto
  obtain nm where "store_file (b_env B) (b_ops B) f (bk_files s) =
      Inr (f\<lparr>file_path := Some (generate_path_from_uid (e_storage (b_env B)) u), file_name := nm\<rparr>,
        \<lambda>p. if p = generate_path_from_uid (e_storage (b_env B)) u \<and> bk_files s p = None then Some b else bk_files s p)"
    by (rule store_file_fields[OF assms(2,6,7)])
  then have "\<exists>s'. backend_worker B rnd now AnalysisTask s = Done s' \<and>
    bk_unpack_queue s' = bk_unpack_queue s @ [f\<lparr>file_path := Some (generate_path_from_uid (e_storage (b_env B)) u), file_name := nm\<rparr>] \<and>
    bk_files s' = (\<lambda>p. if p = generate_path_from_uid (e_storage (b_env B)) u \<and> bk_files s p = None then Some b else bk_files s p)"
    using q by (simp add: backend_worker_def get_next_task_def post_processing_def do_after_def)
  then show ?thesis by blast
qed

definition upload_firmware ::
  "(bytes \<Rightarrow> string) \<Rightarrow> (bytes \<Rightarrow> string) \<Rightarrow> (string \<Rightarrow> string) \<Rightarrow> upload_request \<Rightarrow> file_object result" where
  "upload_firmware sha md escape r =
     bind_r (create_analysis_task sha escape r) (\<lambda>t. convert_analysis_task_to_fw_obj sha md t None)"

text \<open>C26: An accepted upload reaches the unpacker. If the upload page reports success, then a
  file was chosen and could be read, the page shows the UID of its content, and the back end
  takes a firmware from the queue that has this UID as its root, the requested analyses
  scheduled and no mandatory device field empty; it puts the firmware into the unpacking
  queue, with the content stored under its UID (unless that path was in use already).
\<close>

theorem upload_reaches_unpacker:
  assumes "post_upload (b_net B) (e_sha (b_env B)) md escape r (k, st) = Some (Inr (Inr (u, k1, bk_redis s)))"
    and "\<forall>f. upload_firmware (e_sha (b_env B)) md escape r = Inr f \<longrightarrow>
          net_ok (b_net B) (MTask (TFirmware f) (get_uid (e_sha (b_env B)) f))"
    and "file_ops_ok (b_ops B)" "queue_ok ''analysis_task'' st" "queue_items ''analysis_task'' st = []"
  shows "\<exists>n b i f x s'. rq_file r = (n, Some b) \<and> i = bytes_uid (e_sha (b_env B)) b \<and> u = PStr i
    \<and> backend_worker B rnd now AnalysisTask s = Done s' \<and> bk_unpack_queue s' = bk_unpack_queue s @ [f]
    \<and> fo_uid f = Some i \<and> root_uid f = Some i \<and> binary f = Some b \<and> scheduled_analysis f = Some (rq_systems r)
    \<and> fw f = Some x \<and> (\<forall>a \<in> {device_name x, vendor x, device_class x, fw_version x, release_date x}. a \<noteq> None \<and> a \<noteq> Some [])
    \<and> bk_files s' (generate_path_from_uid (e_storage (b_env B)) i) =
        (case bk_files s (generate_path_from_uid (e_storage (b_env B)) i) of None \<Rightarrow> Some b | Some c \<Rightarrow> Some c)"
proof -
  let ?sha = "e_sha (b_env B)"
  from assms(1) obtain t f where t: "create_analysis_task ?sha escape r = Inr t" "check_for_errors t = []"
    "convert_analysis_task_to_fw_obj ?sha md t None = Inr f"
    "add_analysis_task (b_net B) ?sha f (k, st) = Some (k1, bk_redis s)" "map_of t ''uid'' = Some u"
    by (auto simp: post_upload_def result_simps split: sum.splits if_splits)
  obtain n b where b: "rq_file r = (n, Some b)" "map_of t ''uid'' = Some (PStr (bytes_uid ?sha b))"
    by (rule accepted_task[OF t(1,2)]) blast
  note f = accepted_firmware[OF t(1-3) b(1)]
  have "net_ok (b_net B) (MTask (TFirmware f) (get_uid ?sha f))"
    using assms(2) t(1,3) by (simp add: upload_firmware_def)
  from queued_firmware_served[OF this assms(3-5) t(4) f(2,1), of rnd now] obtain s' nm where
    s': "backend_worker B rnd now AnalysisTask s = Done s'"
    "bk_unpack_queue s' = bk_unpack_queue s @ [f\<lparr>file_path := Some (generate_path_from_uid (e_storage (b_env B)) (bytes_uid ?sha b)), file_name := nm\<rparr>]"
    "bk_files s' = (\<lambda>p. if p = generate_path_from_uid (e_storage (b_env B)) (bytes_uid ?sha b) \<and> bk_files s p = None then Some b else bk_files s p)"
    by blast
  from f(6) obtain x where x: "fw f = Some x"
    "\<forall>a \<in> {device_name x, vendor x, device_class x, fw_version x, release_date x}. a \<noteq> None \<and> a \<noteq> Some []" by blast
  show ?thesis
    by (intro exI[of _ n] exI[of _ b] exI[of _ "bytes_uid ?sha b"] exI[of _ x] exI[of _ s']
        exI[of _ "f\<lparr>file_path := Some (generate_path_from_uid (e_storage (b_env B)) (bytes_uid ?sha b)), file_name := nm\<rparr>"])
      (use b t(5) s' f x in \<open>auto split: option.splits\<close>)
qed

definition ex_upload :: upload_request where
  "ex_upload = \<lparr>rq_form = [(''device_name'', ''dev''), (''device_part'', []), (''device_part_dropdown'', ''new entry''),
      (''device_class'', ''router''), (''vendor'', []), (''vendor_dropdown'', ''acme''), (''version'', ''1''),
      (''release_date'', []), (''tags'', ''a,b'')],
    rq_systems = [''strings''], rq_file = (''fw.bin'', Some [1, 2])\<rparr>"

lemma ex_upload_task:
  "create_analysis_task sha (\<lambda>s. s) ex_upload = Inr
     [(''device_name'', PStr ''dev''), (''device_part'', PStr []), (''device_class'', PStr ''router''), (''vendor'', PStr ''acme''),
      (''version'', PStr ''1''), (''release_date'', PStr ''1970-01-01''),
      (''requested_analysis_systems'', PList [PStr ''strings'']), (''tags'', PStr ''a,b''), (''file_name'', PStr ''fw.bin''),
      (''binary'', PBytes [1, 2]), (''uid'', PStr (bytes_uid sha [1, 2]))]"
  by (simp add: create_analysis_task_def ex_upload_def get_meta_from_request_def META_FIELDS_def form_field_def dlookup_def
      get_meta_from_dropdowns_def dropdown_step_def DROPDOWN_FIELDS_def Let_def get_file_name_and_binary_from_request_def
      get_uploaded_file_binary_def opt_bytes_def get_uid_of_analysis_task_def default_date_def)

lemma ex_upload_ok: "\<exists>f. upload_firmware sha md (\<lambda>s. s) ex_upload = Inr f"
  by (simp add: upload_firmware_def ex_upload_task convert_analysis_task_to_fw_obj_def set_task_file_def set_task_meta_def dlookup_def Let_def)

lemma upload_reaches_unpacker_witness:
  "\<exists>B s s' f. backend_worker B (\<lambda>_ _. 0) 0 AnalysisTask s = Done s' \<and> bk_unpack_queue s' = bk_unpack_queue s @ [f] \<and>
     binary f = Some [1, 2] \<and> scheduled_analysis f = Some [''strings'']"
proof -
  let ?sha = "e_sha ex_store_env"
  obtain f where f: "upload_firmware ?sha (\<lambda>_. []) (\<lambda>s. s) ex_upload = Inr f" using ex_upload_ok by blast
  let ?m = "MTask (TFirmware f) (get_uid ?sha f)"
  let ?B = "ex_binding ?m"
  let ?st = "redis_rpush ''analysis_task'' [1] ex_empty_redis"
  let ?s = "ex_backend ?st empty_db"
  have env: "b_env ?B = ex_store_env" "b_net ?B = ex_net ?m" "b_ops ?B = ex_ops" by (simp_all add: ex_binding_def)
  have "post_upload (b_net ?B) (e_sha (b_env ?B)) (\<lambda>_. []) (\<lambda>s. s) ex_upload (0, ex_empty_redis)
      = Some (Inr (Inr (PStr (bytes_uid ?sha [1, 2]), (0, bk_redis ?s))))"
    using f unfolding env
    by (simp add: post_upload_def upload_firmware_def ex_upload_task check_for_errors_def OPTIONAL_FIELDS_def add_analysis_task_def
        add_to_redis_queue_def queue_put_def split_if_necessary_def ex_net_def ex_backend_def dlookup_def bytes_uid_def)
  moreover have "queue_ok ''analysis_task'' ex_empty_redis" "queue_items ''analysis_task'' ex_empty_redis = []"
    by (simp_all add: queue_ok_def queue_items_def ex_empty_redis_def)
  moreover have "\<forall>g. upload_firmware (e_sha (b_env ?B)) (\<lambda>_. []) (\<lambda>s. s) ex_upload = Inr g \<longrightarrow>
      net_ok (b_net ?B) (MTask (TFirmware g) (get_uid (e_sha (b_env ?B)) g))"
    unfolding env f by (simp add: net_ok_ex)
  moreover have "file_ops_ok (b_ops ?B)" unfolding env by (rule file_ops_ok_ex_ops)
  ultimately obtain n b f' s' where "rq_file ex_upload = (n, Some b)" "backend_worker ?B (\<lambda>_ _. 0) 0 AnalysisTask ?s = Done s'"
    "bk_unpack_queue s' = bk_unpack_queue ?s @ [f']" "binary f' = Some b" "scheduled_analysis f' = Some (rq_systems ex_upload)"
    using upload_reaches_unpacker[of ?B "\<lambda>_. []" "\<lambda>s. s" ex_upload 0 ex_empty_redis "PStr (bytes_uid ?sha [1, 2])" 0 ?s "\<lambda>_ _. 0" 0]
    by blast
  then show ?thesis by (intro exI[of _ ?B] exI[of _ ?s] exI[of _ s'] exI[of _ f']) (simp add: ex_upload_def)
qed

end
