(* ===== verification/RestApi.thy ===== *)
theory RestApi
  imports TaskConversion
begin

text \<open>
  The REST interface (\<open>web_interface/rest\<close>): parsing of request parameters, the messages and the
  handlers for firmware, file objects, comparisons, binaries, binary searches and missing
  analyses. A handler returns its message with the HTTP code; an exception it does not
  catch is \<open>Inl\<close>. Flask's payload validation, JSON, base64 and YARA are parameters.
\<close>

section \<open>Request parameters\<close>

record rest_env =
  re_time :: int
  re_json :: "string \<Rightarrow> pyval option"
  re_b64 :: "bytes \<Rightarrow> string"
  re_unb64 :: "string \<Rightarrow> bytes option"
  re_sql :: sql
  re_error :: "py_error \<Rightarrow> string"
  re_yara_ok :: "string \<Rightarrow> bool"
  re_repr :: "pyval \<Rightarrow> string"

type_synonym request_args = "(string, string) dict"

text \<open>\<open>int(s)\<close>: blanks around it, a sign, digits with single underscores between them.\<close>

definition is_space :: "char \<Rightarrow> bool" where
  "is_space c = (let n = (of_char c :: nat) in n = 32 \<or> (9 \<le> n \<and> n \<le> 13))"

definition strip_spaces :: "string \<Rightarrow> string" where
  "strip_spaces s = rev (dropWhile is_space (rev (dropWhile is_space s)))"

definition digit_value :: "char \<Rightarrow> nat" where
  "digit_value c = of_char c - 48"

definition parse_digits :: "string \<Rightarrow> nat option" where
  "parse_digits s =
     (let gs = split_on (CHR ''_'') s in
      if (\<forall>g \<in> set gs. g \<noteq> [] \<and> (\<forall>c \<in> set g. is_digit c))
      then Some (foldl (\<lambda>n c. 10 * n + digit_value c) 0 (concat gs)) else None)"

definition py_int :: "string \<Rightarrow> int result" where
  "py_int s = (case (case strip_spaces s of
        [] \<Rightarrow> None
      | c # cs \<Rightarrow>
          if c = CHR ''-'' then map_option (\<lambda>n. - int n) (parse_digits cs)
          else if c = CHR ''+'' then map_option int (parse_digits cs)
          else map_option int (parse_digits (c # cs))) of
      None \<Rightarrow> Inl ValueError | Some i \<Rightarrow> Inr i)"

text \<open>Every malformed parameter is a \<open>ValueError\<close>, which the handlers answer.\<close>

definition int_param :: "request_args \<Rightarrow> string \<Rightarrow> int result" where
  "int_param args k = (case dget args k of None \<Rightarrow> Inr 0 | Some s \<Rightarrow> py_int s)"

definition get_paging :: "request_args \<Rightarrow> (int \<times> int) result" where
  "get_paging args =
     bind_r (int_param args ''offset'') (\<lambda>offset. bind_r (int_param args ''limit'') (\<lambda>limit. Inr (offset, limit)))"

definition get_query :: "rest_env \<Rightarrow> request_args \<Rightarrow> search result" where
  "get_query R args =
     (let q = (case dget args ''query'' of Some (c # s) \<Rightarrow> c # s | _ \<Rightarrow> ''{}'') in
      case re_json R q of
        Some (PDict d) \<Rightarrow> Inr d
      | _ \<Rightarrow> Inl ValueError)"

definition get_boolean_from_request :: "rest_env \<Rightarrow> request_args \<Rightarrow> string \<Rightarrow> bool result" where
  "get_boolean_from_request R args name =
     (case re_json R (case dget args name of None \<Rightarrow> ''false'' | Some s \<Rightarrow> s) of
        Some (PBool b) \<Rightarrow> Inr b
      | _ \<Rightarrow> Inl ValueError)"

definition get_update :: "rest_env \<Rightarrow> request_args \<Rightarrow> pyval list result" where
  "get_update R args = (case dget args ''update'' of
      None \<Rightarrow> Inl ValueError
    | Some s \<Rightarrow> (case re_json R s of
          Some (PList l) \<Rightarrow> if l = [] then Inl ValueError else Inr l
        | _ \<Rightarrow> Inl ValueError))"

section \<open>Messages\<close>

type_synonym rest_response = "(string, pyval) dict \<times> nat"

definition add_request :: "(string, pyval) dict option \<Rightarrow> (string, pyval) dict \<Rightarrow> (string, pyval) dict" where
  "add_request request_data message = (case request_data of
      Some (x # xs) \<Rightarrow> dput ''request'' (PDict (x # xs)) message | _ \<Rightarrow> message)"

definition success_message ::
  "rest_env \<Rightarrow> (string, pyval) dict \<Rightarrow> string \<Rightarrow> (string, pyval) dict option \<Rightarrow> nat \<Rightarrow> rest_response" where
  "success_message R data targeted_url request_data return_code =
     (add_request request_data
        (dput ''status'' (PInt 0) (dput ''request_resource'' (PStr targeted_url) (dput ''timestamp'' (PInt (re_time R)) data))),
      return_code)"

definition error_message ::
  "rest_env \<Rightarrow> string \<Rightarrow> string \<Rightarrow> (string, pyval) dict option \<Rightarrow> nat \<Rightarrow> rest_response" where
  "error_message R err targeted_url request_data return_code =
     (add_request request_data
        [(''error_message'', PStr err), (''timestamp'', PInt (re_time R)), (''request_resource'', PStr targeted_url),
         (''status'', PInt 1)],
      return_code)"

definition uids_value :: "uid list \<Rightarrow> pyval" where
  "uids_value us = PList (map (\<lambda>u. case u of None \<Rightarrow> PNone | Some s \<Rightarrow> PStr s) us)"

definition args_value :: "request_args \<Rightarrow> string list \<Rightarrow> (string, pyval) dict" where
  "args_value args ks = map (\<lambda>k. (k, case dget args k of None \<Rightarrow> PNone | Some s \<Rightarrow> PStr s)) ks"

text \<open>The database refuses a negative offset or limit.\<close>

definition page_count :: "int \<Rightarrow> nat option result" where
  "page_count n = (if n < 0 then Inl DbInterfaceError else Inr (Some (nat n)))"

section \<open>Meta data of an object\<close>

definition opt_value :: "string option \<Rightarrow> pyval" where
  "opt_value x = (case x of None \<Rightarrow> PNone | Some s \<Rightarrow> PStr s)"

definition add_firmware_only_fields :: "file_object \<Rightarrow> (string, pyval) dict" where
  "add_firmware_only_fields fo = (case fw fo of
      None \<Rightarrow> []
    | Some x \<Rightarrow> [(''device_name'', opt_value (device_name x)), (''device_class'', opt_value (device_class x)),
        (''device_part'', PStr (part x)), (''vendor'', opt_value (vendor x)), (''version'', opt_value (fw_version x)),
        (''release_date'', opt_value (release_date x))])"

definition add_file_object_only_fields :: "file_object \<Rightarrow> (string, pyval) dict" where
  "add_file_object_only_fields fo = (if is_firmware fo then [] else
     [(''firmwares_including_this_file'', uids_value (parent_firmware_uids fo)),
      (''virtual_file_path'', PDict (map (\<lambda>(r, ps). (fstr r, PList (map PStr ps))) (virtual_file_path fo)))])"

definition add_general_information :: "(bytes \<Rightarrow> string) \<Rightarrow> file_object \<Rightarrow> (string, pyval) dict result" where
  "add_general_information sha fo = map_r (\<lambda>hid.
     [(''hid'', PStr hid), (''size'', case fsize fo of None \<Rightarrow> PNone | Some n \<Rightarrow> PInt n),
      (''number_of_included_files'', PInt (int (length (files_included fo)))),
      (''included_files'', uids_value (files_included fo)),
      (''total_files_in_firmware'', case list_of_all_included_files fo of
          Some (f # fs) \<Rightarrow> PInt (int (length (f # fs))) | _ \<Rightarrow> PStr ''unknown'')]) (get_hid sha None fo)"

definition create_meta_dict :: "(bytes \<Rightarrow> string) \<Rightarrow> file_object \<Rightarrow> (string, pyval) dict result" where
  "create_meta_dict sha fo =
     (let fo1 = (if is_firmware fo then fo\<lparr>root_uid := get_uid sha fo\<rparr> else fo) in
      map_r (\<lambda>g. add_firmware_only_fields fo1 @ add_file_object_only_fields fo1 @ g) (add_general_information sha fo1))"

definition analysis_value :: "file_object \<Rightarrow> pyval" where
  "analysis_value fo = PDict (map (\<lambda>(p, r). (p, PDict r)) (processed_analysis fo))"

definition fit_object :: "(bytes \<Rightarrow> string) \<Rightarrow> file_object \<Rightarrow> pyval result" where
  "fit_object sha fo = map_r (\<lambda>m. PDict [(''meta_data'', PDict m), (''analysis'', analysis_value fo)]) (create_meta_dict sha fo)"

section \<open>Firmware\<close>

text \<open>The parameters of the list of firmware; the last test guards against an inverted flag alone.\<close>

definition get_parameters_from_request :: "rest_env \<Rightarrow> request_args \<Rightarrow> (search \<times> bool \<times> bool \<times> int \<times> int) result" where
  "get_parameters_from_request R args =
     bind_r (get_query R args) (\<lambda>query.
     bind_r (get_boolean_from_request R args ''recursive'') (\<lambda>recursive.
     bind_r (get_boolean_from_request R args ''inverted'') (\<lambda>inverted.
     bind_r (get_paging args) (\<lambda>(offset, limit).
       if recursive \<and> query = [] then Inl ValueError
       else if inverted \<and> \<not> recursive then Inl ValueError
       else Inr (query, recursive, inverted, offset, limit)))))"

definition search_parameters :: "int \<Rightarrow> int \<Rightarrow> search \<Rightarrow> (string, pyval) dict" where
  "search_parameters offset limit query =
     [(''offset'', PInt offset), (''limit'', PInt limit), (''query'', PDict query)]"

definition rest_firmware_list :: "rest_env \<Rightarrow> db \<Rightarrow> request_args \<Rightarrow> rest_response result" where
  "rest_firmware_list R d args = (case get_parameters_from_request R args of
      Inl ValueError \<Rightarrow> Inr (error_message R (re_error R ValueError) ''/rest/firmware''
          (Some (args_value args [''query'', ''limit'', ''offset'', ''recursive'', ''inverted''])) 400)
    | Inl e \<Rightarrow> Inl e
    | Inr (query, recursive, inverted, offset, limit) \<Rightarrow>
        let parameters = (\<lambda>q. search_parameters offset limit q @ [(''recursive'', PBool recursive), (''inverted'', PBool inverted)]) in
        (case bind_r (page_count offset) (\<lambda>off. bind_r (page_count limit) (\<lambda>lim.
              rest_get_firmware_uids (re_sql R) d off lim query recursive inverted)) of
           Inl DbInterfaceError \<Rightarrow> Inr (error_message R ''Unknown exception on request'' ''/rest/firmware'' (Some (parameters query)) 400)
         | Inl e \<Rightarrow> Inl e
         | Inr (us, query1) \<Rightarrow> Inr (success_message R [(''uids'', uids_value us)] ''/rest/firmware'' (Some (parameters query1)) 200)))"

text \<open>
  An upload: the validated payload, or the message of the validation. The task that is sent
  is the state of the queue.
\<close>

definition process_data ::
  "rest_env \<Rightarrow> net \<Rightarrow> (bytes \<Rightarrow> string) \<Rightarrow> (bytes \<Rightarrow> string) \<Rightarrow> analysis_task \<Rightarrow> redis_state \<Rightarrow>
   (((string, pyval) dict \<times> analysis_task) \<times> redis_state) result option" where
  "process_data R N sha md data st = (case dlookup data ''binary'' of
      Inl e \<Rightarrow> Some (Inl e)
    | Inr (PStr s) \<Rightarrow> (case re_unb64 R s of
          None \<Rightarrow> Some (Inr (([(''error_message'', PStr ''Could not parse binary (must be valid base64!)'')], data), st))
        | Some b \<Rightarrow> (case convert_analysis_task_to_fw_obj sha md (dput ''binary'' (PBytes b) data) None of
              Inl e \<Rightarrow> Some (Inl e)
            | Inr f \<Rightarrow> map_option (\<lambda>st1. Inr (([(''uid'', opt_value (get_uid sha f))], ddel ''binary'' data), st1))
                (add_analysis_task N sha f st)))
    | Inr _ \<Rightarrow> Some (Inl TypeError))"

definition rest_firmware_put ::
  "rest_env \<Rightarrow> net \<Rightarrow> (bytes \<Rightarrow> string) \<Rightarrow> (bytes \<Rightarrow> string) \<Rightarrow> string + analysis_task \<Rightarrow> redis_state \<Rightarrow>
   (rest_response \<times> redis_state) result option" where
  "rest_firmware_put R N sha md payload st = (case payload of
      Inl msg \<Rightarrow> Some (Inr (error_message R msg ''/rest/firmware'' None 400, st))
    | Inr data \<Rightarrow> map_option (map_r (\<lambda>((res, data1), st1).
        (case dget res ''error_message'' of
           Some (PStr m) \<Rightarrow> error_message R m ''/rest/firmware'' (Some data1) 400
         | _ \<Rightarrow> success_message R res ''/rest/firmware'' (Some data1) 200, st1)))
       (process_data R N sha md data st))"

definition no_firmware_message :: "rest_env \<Rightarrow> uid \<Rightarrow> rest_response" where
  "no_firmware_message R u = error_message R (''No firmware with UID '' @ fstr u @ '' found'') ''/rest/firmware''
     (Some [(''uid'', opt_value u)]) 400"

text \<open>With a summary an unknown object is an exception; \<open>None\<close> if its included files never end.\<close>

definition rest_firmware_get :: "rest_env \<Rightarrow> (bytes \<Rightarrow> string) \<Rightarrow> db \<Rightarrow> uid \<Rightarrow> request_args \<Rightarrow> rest_response result option" where
  "rest_firmware_get R sha d u args = (case get_boolean_from_request R args ''summary'' of
      Inl e \<Rightarrow> Some (Inl e)
    | Inr summary \<Rightarrow>
        map_option (\<lambda>r. bind_r r (\<lambda>fo. case fo of
            None \<Rightarrow> Inr (no_firmware_message R u)
          | Some f \<Rightarrow>
              if \<not> is_firmware f then Inr (no_firmware_message R u)
              else map_r (\<lambda>v. success_message R [(''firmware'', v)] ''/rest/firmware'' (Some [(''uid'', opt_value u)]) 200)
                     (fit_object sha f)))
          (if summary then map_option (map_r Some) (get_complete_object_including_all_summaries d u)
           else Some (get_object d u None)))"

text \<open>
  An update of the analyses. \<open>plugin_names\<close> are the analysis systems the back end has
  published, with what reading them leaves of Redis.
\<close>

definition as_names :: "pyval list \<Rightarrow> string list" where
  "as_names l = concat (map (\<lambda>e. case e of PStr s \<Rightarrow> [s] | _ \<Rightarrow> []) l)"

fun first_unknown :: "string list \<Rightarrow> pyval list \<Rightarrow> pyval option result" where
  "first_unknown ps [] = Inr None"
| "first_unknown ps (x # xs) =
     (if \<not> hashable x then Inl TypeError
      else if x \<in> PStr ` set ps then first_unknown ps xs else Inr (Some x))"

definition published_plugins :: "net \<Rightarrow> redis \<Rightarrow> string list result \<times> redis" where
  "published_plugins N st = (case get_available_analysis_plugins N st of
      (Inl e, st1) \<Rightarrow> (Inl e, st1)
    | (Inr (MResponse (RespPlugins d)), st1) \<Rightarrow> (Inr (dkeys d), st1)
    | (Inr _, st1) \<Rightarrow> (Inl AttributeError, st1))"

definition rest_update_analysis ::
  "rest_env \<Rightarrow> net \<Rightarrow> (bytes \<Rightarrow> string) \<Rightarrow> db \<Rightarrow> uid \<Rightarrow> pyval list \<Rightarrow> redis_state \<Rightarrow> (rest_response \<times> redis_state) result option" where
  "rest_update_analysis R N sha d u update0 st = (case get_object d u None of
      Inl e \<Rightarrow> Some (Inl e)
    | Inr None \<Rightarrow> Some (Inr (no_firmware_message R u, st))
    | Inr (Some firmware) \<Rightarrow>
        let unpack = PStr ''unpacker'' \<in> set update0;
            update = filter (\<lambda>x. x \<noteq> PStr ''unpacker'') update0 in
        (case published_plugins N (snd st) of
           (Inl e, _) \<Rightarrow> Some (Inl e)
         | (Inr ps, st1) \<Rightarrow> (case first_unknown ps update of
             Inl e \<Rightarrow> Some (Inl e)
           | Inr (Some item) \<Rightarrow> Some (Inr (error_message R (''Unknown analysis system '' @ re_repr R item) ''/rest/firmware''
                 (Some [(''uid'', opt_value u), (''update'', PList update)]) 400, (fst st, st1)))
           | Inr None \<Rightarrow> map_option (\<lambda>st2. Inr (success_message R [] ''/rest/firmware''
                 (Some [(''uid'', opt_value u), (''update'', PList (if unpack then update @ [PStr ''unpacker''] else update))]) 200, st2))
               (add_re_analyze_task N sha (firmware\<lparr>scheduled_analysis := Some (as_names update)\<rparr>) unpack (fst st, st1)))))"

definition rest_firmware_update ::
  "rest_env \<Rightarrow> net \<Rightarrow> (bytes \<Rightarrow> string) \<Rightarrow> db \<Rightarrow> uid \<Rightarrow> request_args \<Rightarrow> redis_state \<Rightarrow> (rest_response \<times> redis_state) result option" where
  "rest_firmware_update R N sha d u args st = (case get_update R args of
      Inl ValueError \<Rightarrow> Some (Inr (error_message R (re_error R ValueError) ''/rest/firmware'' (Some [(''uid'', opt_value u)]) 400, st))
    | Inl e \<Rightarrow> Some (Inl e)
    | Inr update \<Rightarrow> rest_update_analysis R N sha d u update st)"

section \<open>File objects and missing analyses\<close>

definition rest_file_object_list :: "rest_env \<Rightarrow> db \<Rightarrow> request_args \<Rightarrow> rest_response result" where
  "rest_file_object_list R d args =
     (case bind_r (get_query R args) (\<lambda>query. map_r (Pair query) (get_paging args)) of
      Inl ValueError \<Rightarrow> Inr (error_message R (re_error R ValueError) ''/rest/file_object''
          (Some (args_value args [''query'', ''limit'', ''offset''])) 400)
    | Inl e \<Rightarrow> Inl e
    | Inr (query, offset, limit) \<Rightarrow>
        (case bind_r (page_count offset) (\<lambda>off. bind_r (page_count limit) (\<lambda>lim.
              rest_get_file_object_uids (re_sql R) d off lim query)) of
           Inl DbInterfaceError \<Rightarrow>
             Inr (error_message R ''Unknown exception on request'' ''/rest/file_object'' (Some (search_parameters offset limit query)) 400)
         | Inl e \<Rightarrow> Inl e
         | Inr (us, query1) \<Rightarrow>
             Inr (success_message R [(''uids'', uids_value us)] ''/rest/file_object'' (Some (search_parameters offset limit query1)) 200)))"

definition rest_file_object_get :: "rest_env \<Rightarrow> (bytes \<Rightarrow> string) \<Rightarrow> db \<Rightarrow> uid \<Rightarrow> rest_response result" where
  "rest_file_object_get R sha d u = bind_r (get_object d u None) (\<lambda>fo. case fo of
      None \<Rightarrow> Inr (error_message R (''No file object with UID '' @ fstr u @ '' found'') ''/rest/file_object''
          (Some [(''uid'', opt_value u)]) 400)
    | Some f \<Rightarrow> map_r (\<lambda>v. success_message R [(''file_object'', v)] ''/rest/file_object'' (Some [(''uid'', opt_value u)]) 200)
        (fit_object sha f))"

definition set_dict_value :: "(string, uid list) dict \<Rightarrow> pyval" where
  "set_dict_value d = PDict (map (\<lambda>(k, v). (k, uids_value v)) d)"

definition rest_missing_get :: "rest_env \<Rightarrow> db \<Rightarrow> rest_response" where
  "rest_missing_get R d = success_message R
     [(''missing_analyses'', set_dict_value (map (\<lambda>(u, fs). (fstr u, fs)) (find_missing_analyses d))),
      (''failed_analyses'', set_dict_value (find_failed_analyses d))] ''/rest/missing'' None 200"

section \<open>Comparisons\<close>

definition rest_compare_put ::
  "rest_env \<Rightarrow> net \<Rightarrow> db \<Rightarrow> (string, pyval) dict \<Rightarrow> string list \<Rightarrow> bool \<Rightarrow> redis_state \<Rightarrow> (rest_response \<times> redis_state) option" where
  "rest_compare_put R N d request_json uid_list redo st =
     (let compare_id = normalize_compare_id (join_with '';'' uid_list) in
      if comparison_exists d compare_id \<and> \<not> redo then
        Some (error_message R ''Compare already exists. Use \"redo\" to force re-compare.'' ''/rest/compare'' (Some request_json) 200, st)
      else if \<not> objects_exist d compare_id then
        Some (error_message R (''Some objects are not found in the database: '' @
            join_with '', '' (filter (\<lambda>u. \<not> exists_obj d (Some u)) (convert_compare_id_to_list compare_id)))
          ''/rest/compare'' (Some request_json) 404, st)
      else map_option (Pair (success_message R
            [(''message'', PStr ''Compare started. Please use GET to get the results.'')] ''/rest/compare'' (Some request_json) 202))
          (add_compare_task N compare_id redo st))"

definition validate_compare_id :: "string \<Rightarrow> unit result" where
  "validate_compare_id compare_id =
     (if \<not> (\<forall>c \<in> set compare_id. c \<in> set ''0123456789abcdef_;'') then Inl ValueError
      else if \<not> (\<forall>u \<in> set (convert_compare_id_to_list compare_id). is_uid (PStr u)) then Inl TypeError
      else Inr ())"

definition rest_compare_get :: "rest_env \<Rightarrow> db \<Rightarrow> string \<Rightarrow> rest_response result" where
  "rest_compare_get R d compare_id = (case validate_compare_id compare_id of
      Inl e \<Rightarrow> Inr (error_message R (''Compare ID must be of the form uid1;uid2(;uid3..): '' @ re_error R e) ''/rest/compare''
          (Some [(''compare_id'', PStr compare_id)]) 400)
    | Inr _ \<Rightarrow>
        let cid = normalize_compare_id compare_id in
        bind_r (if comparison_exists d cid then get_comparison_result d cid else Inr None) (\<lambda>res.
          Inr (case res of
             Some (x # xs) \<Rightarrow> success_message R (x # xs) ''/rest/compare'' (Some [(''compare_id'', PStr cid)]) 202
           | _ \<Rightarrow> error_message R ''Compare not found in database. Please use /rest/start_compare to start the compare.''
               ''/rest/compare'' (Some [(''compare_id'', PStr cid)]) 404)))"

section \<open>Binaries and binary search\<close>

text \<open>
  \<open>fetch\<close> is the answer of the back end to the download or the repacking request; none before
  the timeout cannot be unpacked into content and name.
\<close>

definition rest_binary_get ::
  "rest_env \<Rightarrow> (bytes \<Rightarrow> string) \<Rightarrow> db \<Rightarrow> (bool \<Rightarrow> (bytes option \<times> string option) option) \<Rightarrow> uid \<Rightarrow> request_args \<Rightarrow> rest_response result" where
  "rest_binary_get R sha d fetch u args =
     (if \<not> exists_obj d u then
        Inr (error_message R (''No firmware with UID '' @ fstr u @ '' found in database'') ''/rest/binary'' (Some [(''uid'', opt_value u)]) 404)
      else (case get_boolean_from_request R args ''tar'' of
          Inl e \<Rightarrow> Inr (error_message R (re_error R e) ''/rest/binary''
              (Some [(''uid'', opt_value u), (''tar'', case dget args ''tar'' of None \<Rightarrow> PNone | Some s \<Rightarrow> PStr s)]) 400)
        | Inr tar_flag \<Rightarrow> (case fetch tar_flag of
              Some (Some b, name) \<Rightarrow> Inr (success_message R
                [(''binary'', PStr (re_b64 R b)), (''file_name'', opt_value name), (''SHA256'', PStr (sha b))] ''/rest/binary''
                (Some [(''uid'', opt_value u), (''tar'', PBool tar_flag)]) 200)
            | _ \<Rightarrow> Inl TypeError)))"

definition rest_binary_search_post ::
  "rest_env \<Rightarrow> net \<Rightarrow> (bytes \<Rightarrow> string) \<Rightarrow> real \<Rightarrow> db \<Rightarrow> (string, pyval) dict \<Rightarrow> string \<Rightarrow> string option \<Rightarrow> bytes \<Rightarrow> redis_state \<Rightarrow>
   (rest_response \<times> redis_state) option" where
  "rest_binary_search_post R N sha now d request_data rule_file u serialized st =
     (if \<not> re_yara_ok R rule_file then
        Some (error_message R ''Error in YARA rule file'' ''/rest/binary_search'' (Some request_data) 400, st)
      else if truthy_str u \<and> \<not> is_firmware_uid d u then
        Some (error_message R (''Firmware with UID '' @ fstr u @ '' not found in database'') ''/rest/binary_search'' (Some request_data) 400, st)
      else map_option (\<lambda>(search_id, st1). (success_message R
            [(''message'', PStr ''Started binary search. Please use GET and the search_id to get the results'')]
            ''/rest/binary_search'' (Some [(''search_id'', PStr search_id)]) 200, st1))
          (add_binary_search_request N sha now (utf8_encode rule_file) u serialized st))"

definition rest_binary_search_get :: "rest_env \<Rightarrow> pyval option \<Rightarrow> rest_response" where
  "rest_binary_search_get R res = (case res of
      None \<Rightarrow> error_message R ''The result is not ready yet or it has already been fetched'' ''/rest/binary_search'' None 400
    | Some v \<Rightarrow> success_message R [(''binary_search_results'', v)] ''/rest/binary_search'' None 200)"

section \<open>An update is sent for known analysis systems only\<close>

lemma redis_load_keeps: "snd (redis_load loads key False st) = st"
proof -
  have "snd (pop_chunks False ks st) = st" for ks
    by (induction ks) (auto simp: Let_def split: prod.splits)
  then show ?thesis
    by (auto simp: redis_load_def combine_if_split_def combine_chunks_def Let_def split: option.splits prod.splits)
      (metis snd_conv)+
qed

lemma published_plugins_keeps: "published_plugins N st = (x, st1) \<Longrightarrow> st1 = st"
  using redis_load_keeps[of "n_loads N" "''analysis_plugins''" st]
  by (auto simp: published_plugins_def get_available_analysis_plugins_def
      split: prod.splits sum.splits option.splits message.splits response.splits)

lemma first_unknown_None: "first_unknown ps xs = Inr None \<longleftrightarrow> (\<forall>x \<in> set xs. x \<in> PStr ` set ps)"
  by (induction xs) auto

lemma as_names_known: "\<forall>x \<in> set xs. x \<in> PStr ` set ps \<Longrightarrow> map PStr (as_names xs) = xs"
  by (induction xs) (auto simp: as_names_def)

lemma add_request_status: "map_of m ''status'' = Some v \<Longrightarrow> map_of (add_request r m) ''status'' = Some v"
  by (simp add: add_request_def split: option.splits list.splits)

lemma message_status:
  "map_of (fst (success_message R x url r c)) ''status'' = Some (PInt 0)" "snd (success_message R x url r c) = c"
  "map_of (fst (error_message R e url r c)) ''status'' = Some (PInt 1)" "snd (error_message R e url r c) = c"
  by (simp_all add: success_message_def error_message_def add_request_status)

text \<open>C27: A REST update is all or nothing. If every requested analysis system is one the back end
  has published (or the unpacker), the answer is a success and exactly one task is appended
  to the queue (the one that unpacks again if the unpacker was requested), for the stored
  object with exactly the requested systems scheduled, in their order; if one of them is
  not, the answer is an error with code 400 and nothing reaches any queue.
\<close>

theorem rest_update_all_or_nothing:
  assumes "get_object d u None = Inr (Some f)" and "get_update R args = Inr upd" and "published_plugins N st = (Inr ps, st0)"
    and "rest_firmware_update R N sha d u args (n, st) = Some (Inr ((msg, code), (n1, st1)))"
    and "queue = (if PStr ''unpacker'' \<in> set upd then ''re_analyze_task'' else ''update_task'')"
    and "g = f\<lparr>scheduled_analysis := Some (as_names (filter (\<lambda>x. x \<noteq> PStr ''unpacker'') upd))\<rparr>"
    and "net_ok N (MTask (TFirmware g) (get_uid sha g))" and "queue_ok queue st"
  shows "if \<forall>x \<in> set upd. x = PStr ''unpacker'' \<or> x \<in> PStr ` set ps
    then map_of msg ''status'' = Some (PInt 0) \<and> code = 200 \<and>
      queue_abs (n_loads N) queue st1 = queue_abs (n_loads N) queue st @ [Inr (Some (MTask (TFirmware g) (get_uid sha g)))] \<and>
      map PStr (the (scheduled_analysis g)) = filter (\<lambda>x. x \<noteq> PStr ''unpacker'') upd
    else map_of msg ''status'' = Some (PInt 1) \<and> code = 400 \<and> st1 = st"
proof -
  let ?upd = "filter (\<lambda>x. x \<noteq> PStr ''unpacker'') upd"
  have st0: "st0 = st" using published_plugins_keeps[OF assms(3)] .
  note run = assms(4)[unfolded rest_firmware_update_def rest_update_analysis_def assms(1,2)]
  have known: "(\<forall>x \<in> set ?upd. x \<in> PStr ` set ps) \<longleftrightarrow> (\<forall>x \<in> set upd. x = PStr ''unpacker'' \<or> x \<in> PStr ` set ps)" by auto
  show ?thesis
  proof (cases "\<forall>x \<in> set ?upd. x \<in> PStr ` set ps")
    case True
    then have "first_unknown ps ?upd = Inr None" by (simp only: first_unknown_None)
    with run obtain req where r: "success_message R [] ''/rest/firmware'' req 200 = (msg, code)"
      "add_re_analyze_task N sha g (PStr ''unpacker'' \<in> set upd) (n, st) = Some (n1, st1)"
      by (auto simp: assms(3,6) st0 Let_def)
    have q: "queue_put (n_csize N) (n_rnd N) (n_dumps N) queue (MTask (TFirmware g) (get_uid sha g)) (n, st) = Some (n1, st1)"
      using r(2) by (simp add: add_re_analyze_task_def add_to_redis_queue_def assms(5))
    have "queue_abs (n_loads N) queue st1 = queue_abs (n_loads N) queue st @ [Inr (Some (MTask (TFirmware g) (get_uid sha g)))]"
      by (rule queue_put_step(1)[OF q assms(8)]) (use assms(7) in \<open>simp_all add: net_ok_def\<close>)
    moreover have "map PStr (the (scheduled_analysis g)) = ?upd" using as_names_known[OF True] by (simp add: assms(6))
    moreover have "map_of msg ''status'' = Some (PInt 0)" "code = 200"
      using message_status(1,2)[of R "[]" "''/rest/firmware''" req 200] r(1) by simp_all
    ultimately show ?thesis using True known by simp
  next
    case False
    then have "first_unknown ps ?upd \<noteq> Inr None" using first_unknown_None by blast
    with run obtain e req where r: "error_message R e ''/rest/firmware'' req 400 = (msg, code)" "st1 = st"
      by (auto simp: assms(3) st0 Let_def split: sum.splits option.splits)
    have "map_of msg ''status'' = Some (PInt 1)" "code = 400"
      using message_status(3,4)[of R e "''/rest/firmware''" req 400] r(1) by simp_all
    then show ?thesis unfolding known[symmetric] using False r(2) by presburger
  qed
qed

definition ex_rest_env :: rest_env where
  "ex_rest_env = \<lparr>re_time = 0, re_json = (\<lambda>s. if s = ''u'' then Some (PList [PStr ''p'', PStr ''unpacker'']) else None),
     re_b64 = (\<lambda>_. []), re_unb64 = (\<lambda>_. None), re_sql = query_ex_sql, re_error = (\<lambda>_. []), re_yara_ok = (\<lambda>_. True),
     re_repr = (\<lambda>_. [])\<rparr>"

text \<open>The plugins are stored as \<open>[2]\<close>, every task as \<open>[1]\<close>.\<close>

definition ex_rest_net :: "message \<Rightarrow> net" where
  "ex_rest_net m = \<lparr>n_csize = 10, n_rnd = ex_rnd, n_dumps = (\<lambda>_. [1]),
     n_loads = (\<lambda>b. if b = [1] then m else MResponse (RespPlugins [(''p'', UnpackerInfo ''d'' True True)])), n_str_time = (\<lambda>_. [])\<rparr>"

lemma rest_update_all_or_nothing_witness:
  "\<exists>N st1 g msg. rest_firmware_update ex_rest_env N (\<lambda>_. []) tree_ex_db (Some ''p'') [(''update'', ''u'')]
       (0, redis_set ''analysis_plugins'' [2] ex_empty_redis) = Some (Inr ((msg, 200), (0, st1))) \<and>
     queue_abs (n_loads N) ''re_analyze_task'' st1 = [Inr (Some (MTask (TFirmware g) (Some ''p'')))] \<and>
     scheduled_analysis g = Some [''p'']"
proof -
  let ?st = "redis_set ''analysis_plugins'' [2] ex_empty_redis"
  obtain f where f: "get_object tree_ex_db (Some ''p'') None = Inr (Some f)" "fo_uid f = Some ''p''"
    by (auto simp: get_object_def get_file_object_def tree_ex_db_def is_firmware_uid_def empty_db_def
      file_object_from_entry_def populate_fo_data_def blank_fo_def dmem_def Let_def)
  define g where g: "g = f\<lparr>scheduled_analysis := Some [''p'']\<rparr>"
  then have g': "g = f\<lparr>scheduled_analysis := Some (as_names (filter (\<lambda>x. x \<noteq> PStr ''unpacker'') [PStr ''p'', PStr ''unpacker'']))\<rparr>"
    by (simp add: as_names_def)
  let ?N = "ex_rest_net (MTask (TFirmware g) (get_uid (\<lambda>_. []) g))"
  have uid: "get_uid (\<lambda>_. []) g = Some ''p''" using f(2) by (simp add: get_uid_def g)
  have upd: "get_update ex_rest_env [(''update'', ''u'')] = Inr [PStr ''p'', PStr ''unpacker'']"
    by (simp add: get_update_def ex_rest_env_def)
  have ps: "published_plugins ?N ?st = (Inr [''p''], ?st)"
    by (simp add: published_plugins_def get_available_analysis_plugins_def redis_load_def redis_set_def combine_if_split_def
        ex_rest_net_def ex_empty_redis_def encode_def CHUNK_MAGIC_def)
  have net: "net_ok ?N (MTask (TFirmware g) (get_uid (\<lambda>_. []) g))"
    by (simp add: net_ok_def ex_rest_net_def encode_def CHUNK_MAGIC_def)
  have q: "queue_ok ''re_analyze_task'' ?st" "queue_items ''re_analyze_task'' ?st = []"
    by (simp_all add: queue_ok_def queue_items_def ex_empty_redis_def redis_set_def)
  have "\<exists>st1. add_re_analyze_task ?N (\<lambda>_. []) g True (0, ?st) = Some (0, st1)"
    by (simp add: add_re_analyze_task_def add_to_redis_queue_def queue_put_def split_if_necessary_def ex_rest_net_def)
  then obtain st1 msg where run: "rest_firmware_update ex_rest_env ?N (\<lambda>_. []) tree_ex_db (Some ''p'') [(''update'', ''u'')] (0, ?st)
      = Some (Inr ((msg, 200), (0, st1)))"
    by (auto simp: rest_firmware_update_def rest_update_analysis_def upd f(1) ps Let_def success_message_def as_names_def hashable.simps g[symmetric])
  have "queue_abs (n_loads ?N) ''re_analyze_task'' st1 = [Inr (Some (MTask (TFirmware g) (Some ''p'')))]"
    using rest_update_all_or_nothing[OF f(1) upd ps run _ g' net, of "''re_analyze_task''"] q uid
    by (simp add: queue_abs_def)
  then show ?thesis using run by (intro exI[of _ ?N] exI[of _ st1] exI[of _ g] exI[of _ msg]) (simp add: g)
qed

end
