(* ===== verification/PyRegex.thy ===== *)
theory PyRegex
  imports Prelude
begin

text \<open>
  The part of Python's \<open>re\<close> module the source uses, for the regular expressions of the
  lookup of vulnerabilities and of the web interface: a backtracking matcher that returns
  all matches at a position in the order Python tries them (greedy repetition first, the
  alternatives from left to right), and \<open>match\<close>, \<open>findall\<close>, \<open>sub\<close> and \<open>split\<close> on top of
  its first result.

  Characters are the 8-bit characters of HOL; the character classes are those Python uses
  for ASCII. The expressions of the source never match the empty string, so an empty
  match is skipped by the scanner.
\<close>

section \<open>Patterns\<close>

datatype regex =
    REmpty
  | RChar "char \<Rightarrow> bool"
  | RSeq regex regex
  | RAlt regex regex
  | RStar regex
  | RGroup nat regex
  | RBehind "(char \<Rightarrow> bool) list"
  | RNotBehind "char \<Rightarrow> bool"
  | RNotAhead "char \<Rightarrow> bool"
  | REnd

text \<open>
  A position in the subject: the text before it (reversed), the text after it, and the
  start and text of the groups so far. A lookbehind lists its characters from the nearest.
\<close>

type_synonym re_groups = "(nat, nat \<times> string) dict"

record re_state =
  re_left :: string
  re_right :: string
  re_groups :: re_groups

definition re_start :: "string \<Rightarrow> re_state" where
  "re_start s = \<lparr>re_left = [], re_right = s, re_groups = []\<rparr>"

definition lit :: "string \<Rightarrow> regex" where
  "lit s = foldr (\<lambda>c r. RSeq (RChar (\<lambda>d. d = c)) r) s REmpty"

definition opt_re :: "regex \<Rightarrow> regex" where
  "opt_re r = RAlt r REmpty"

definition plus_re :: "regex \<Rightarrow> regex" where
  "plus_re r = RSeq r (RStar r)"

definition times_re :: "nat \<Rightarrow> regex \<Rightarrow> regex" where
  "times_re n r = (RSeq r ^^ n) REmpty"

definition at_least_re :: "nat \<Rightarrow> regex \<Rightarrow> regex" where
  "at_least_re n r = (RSeq r ^^ n) (RStar r)"

fun alts :: "regex list \<Rightarrow> regex" where
  "alts [] = RChar (\<lambda>_. False)"
| "alts [r] = r"
| "alts (r # rs) = RAlt r (alts rs)"

fun seqs :: "regex list \<Rightarrow> regex" where
  "seqs [] = REmpty"
| "seqs [r] = r"
| "seqs (r # rs) = RSeq r (seqs rs)"

text \<open>Character classes.\<close>

definition is_lower_char :: "char \<Rightarrow> bool" where
  "is_lower_char c \<longleftrightarrow> CHR ''a'' \<le> c \<and> c \<le> CHR ''z''"

definition is_upper_char :: "char \<Rightarrow> bool" where
  "is_upper_char c \<longleftrightarrow> CHR ''A'' \<le> c \<and> c \<le> CHR ''Z''"

definition is_alnum :: "char \<Rightarrow> bool" where
  "is_alnum c \<longleftrightarrow> is_lower_char c \<or> is_upper_char c \<or> is_digit c"

definition is_word :: "char \<Rightarrow> bool" where
  "is_word c \<longleftrightarrow> is_alnum c \<or> c = CHR ''_''"

definition is_space :: "char \<Rightarrow> bool" where
  "is_space c \<longleftrightarrow> c \<in> {CHR '' '', CHR 0x09, CHR 0x0A, CHR 0x0B, CHR 0x0C, CHR 0x0D, CHR 0x1C, CHR 0x1D, CHR 0x1E, CHR 0x1F}"

section \<open>The backtracking matcher\<close>

definition re_step :: "(char \<Rightarrow> bool) \<Rightarrow> re_state \<Rightarrow> re_state list" where
  "re_step P s = (case re_right s of
      [] \<Rightarrow> []
    | c # cs \<Rightarrow> if P c then [s\<lparr>re_left := c # re_left s, re_right := cs\<rparr>] else [])"

definition consumed :: "re_state \<Rightarrow> re_state \<Rightarrow> string" where
  "consumed s t = take (length (re_right s) - length (re_right t)) (re_right s)"

function runs :: "regex \<Rightarrow> re_state \<Rightarrow> re_state list" where
  "runs REmpty s = [s]"
| "runs (RChar P) s = re_step P s"
| "runs (RSeq r q) s = concat (map (runs q) (runs r s))"
| "runs (RAlt r q) s = runs r s @ runs q s"
| "runs (RStar r) s =
     concat (map (\<lambda>t. if length (re_right t) < length (re_right s) then runs (RStar r) t else []) (runs r s)) @ [s]"
| "runs (RGroup n r) s = map (\<lambda>t. t\<lparr>re_groups := dput n (length (re_left s), consumed s t) (re_groups t)\<rparr>) (runs r s)"
| "runs (RBehind Ps) s = (if list_all2 (\<lambda>P c. P c) Ps (take (length Ps) (re_left s)) then [s] else [])"
| "runs (RNotBehind P) s = (case re_left s of c # _ \<Rightarrow> if P c then [] else [s] | [] \<Rightarrow> [s])"
| "runs (RNotAhead P) s = (case re_right s of c # _ \<Rightarrow> if P c then [] else [s] | [] \<Rightarrow> [s])"
| "runs REnd s = (if re_right s = [] \<or> re_right s = [CHR 0x0A] then [s] else [])"
  by pat_completeness auto
termination
  by (relation "inv_image (less_than <*lex*> less_than) (\<lambda>(r, s). (size r, length (re_right s)))") auto

declare runs.simps(5) [simp del]

text \<open>The reading as a relation: \<open>t\<close> is some match of \<open>r\<close> at \<open>s\<close>.\<close>

inductive matches :: "regex \<Rightarrow> re_state \<Rightarrow> re_state \<Rightarrow> bool" where
  m_empty: "matches REmpty s s"
| m_char: "re_right s = c # cs \<Longrightarrow> P c \<Longrightarrow> matches (RChar P) s (s\<lparr>re_left := c # re_left s, re_right := cs\<rparr>)"
| m_seq: "matches r s t \<Longrightarrow> matches q t u \<Longrightarrow> matches (RSeq r q) s u"
| m_left: "matches r s t \<Longrightarrow> matches (RAlt r q) s t"
| m_right: "matches q s t \<Longrightarrow> matches (RAlt r q) s t"
| m_done: "matches (RStar r) s s"
| m_again: "matches r s t \<Longrightarrow> length (re_right t) < length (re_right s) \<Longrightarrow> matches (RStar r) t u \<Longrightarrow> matches (RStar r) s u"
| m_group: "matches r s t \<Longrightarrow> matches (RGroup n r) s (t\<lparr>re_groups := dput n (length (re_left s), consumed s t) (re_groups t)\<rparr>)"
| m_behind: "list_all2 (\<lambda>P c. P c) Ps (take (length Ps) (re_left s)) \<Longrightarrow> matches (RBehind Ps) s s"
| m_not_behind: "(\<forall>c cs. re_left s = c # cs \<longrightarrow> \<not> P c) \<Longrightarrow> matches (RNotBehind P) s s"
| m_not_ahead: "(\<forall>c cs. re_right s = c # cs \<longrightarrow> \<not> P c) \<Longrightarrow> matches (RNotAhead P) s s"
| m_end: "re_right s = [] \<or> re_right s = [CHR 0x0A] \<Longrightarrow> matches REnd s s"

inductive_simps matches_simps:
  "matches REmpty s t" "matches (RChar P) s t" "matches (RSeq r q) s t" "matches (RAlt r q) s t"
  "matches (RGroup n r) s t" "matches (RBehind Ps) s t" "matches (RNotBehind P) s t" "matches (RNotAhead P) s t"
  "matches REnd s t"

inductive_cases matches_starE: "matches (RStar r) s t"

lemma matches_star_iff: "matches (RStar r) s u \<longleftrightarrow>
    u = s \<or> (\<exists>t. matches r s t \<and> length (re_right t) < length (re_right s) \<and> matches (RStar r) t u)"
  by (rule iffI) (erule matches_starE, blast+, auto intro: m_done m_again)

text \<open>The matcher returns exactly the matches of the relation.\<close>

theorem runs_iff_matches: "t \<in> set (runs r s) \<longleftrightarrow> matches r s t"
proof (induction r s arbitrary: t rule: runs.induct)
  case (5 r s)
  show ?case
    by (subst matches_star_iff) (auto simp: 5 runs.simps(5)[of r s])
next
  case (2 P s)
  show ?case by (cases "re_right s") (auto simp: matches_simps re_step_def)
qed (auto simp: matches_simps split: list.splits)

text \<open>A match consumes a prefix of the rest of the subject.\<close>

definition splits_at :: "re_state \<Rightarrow> re_state \<Rightarrow> bool" where
  "splits_at s t \<longleftrightarrow> (\<exists>m. re_right s = m @ re_right t \<and> re_left t = rev m @ re_left s)"

lemma splits_at_refl [simp]: "splits_at s s"
  by (auto simp: splits_at_def)

lemma splits_at_trans: "splits_at s t \<Longrightarrow> splits_at t u \<Longrightarrow> splits_at s u"
  by (fastforce simp: splits_at_def)

lemma matches_split: "matches r s t \<Longrightarrow> splits_at s t"
  by (induction rule: matches.induct) (auto intro: splits_at_trans, auto simp: splits_at_def)

lemma runs_split:
  assumes "t \<in> set (runs r s)"
  shows "re_right s = consumed s t @ re_right t" and "re_left t = rev (consumed s t) @ re_left s"
  using matches_split[of r s t] assms by (auto simp: runs_iff_matches consumed_def splits_at_def)

section \<open>Matching and scanning\<close>

text \<open>\<open>re.match\<close>: the first match at the start.\<close>

definition re_match :: "regex \<Rightarrow> string \<Rightarrow> re_state option" where
  "re_match r s = (case runs r (re_start s) of [] \<Rightarrow> None | t # _ \<Rightarrow> Some t)"

definition matched :: "string \<Rightarrow> re_state \<Rightarrow> string" where
  "matched s t = take (length s - length (re_right t)) s"

text \<open>
  The scanner behind \<open>finditer\<close>, \<open>findall\<close>, \<open>sub\<close> and \<open>split\<close>: single characters that
  start no match, and matches with their groups.
\<close>

datatype re_token = Skipped char | Found string re_groups

definition first_run :: "regex \<Rightarrow> string \<Rightarrow> string \<Rightarrow> re_state option" where
  "first_run r earlier rest =
     (case runs r \<lparr>re_left = earlier, re_right = rest, re_groups = []\<rparr> of
        t # _ \<Rightarrow> if length (re_right t) < length rest then Some t else None
      | [] \<Rightarrow> None)"

lemma first_run_less: "first_run r b s = Some t \<Longrightarrow> length (re_right t) < length s"
  by (auto simp: first_run_def split: list.splits if_splits)

function tokens :: "regex \<Rightarrow> string \<Rightarrow> string \<Rightarrow> re_token list" where
  "tokens r earlier [] = []"
| "tokens r earlier (c # cs) = (case first_run r earlier (c # cs) of
      None \<Rightarrow> Skipped c # tokens r (c # earlier) cs
    | Some t \<Rightarrow> Found (take (length (c # cs) - length (re_right t)) (c # cs)) (re_groups t)
        # tokens r (re_left t) (re_right t))"
  by pat_completeness auto

termination
  by (relation "measure (\<lambda>(_, _, s). length s)") (auto dest: first_run_less)

definition re_tokens :: "regex \<Rightarrow> string \<Rightarrow> re_token list" where
  "re_tokens r s = tokens r [] s"

fun token_text :: "re_token \<Rightarrow> string" where
  "token_text (Skipped c) = [c]"
| "token_text (Found m g) = m"

definition findall :: "regex \<Rightarrow> string \<Rightarrow> string list" where
  "findall r s = concat (map (\<lambda>t. case t of Skipped _ \<Rightarrow> [] | Found m _ \<Rightarrow> [m]) (re_tokens r s))"

definition re_sub :: "regex \<Rightarrow> (string \<Rightarrow> re_groups \<Rightarrow> string) \<Rightarrow> string \<Rightarrow> string" where
  "re_sub r f s = concat (map (\<lambda>t. case t of Skipped c \<Rightarrow> [c] | Found m g \<Rightarrow> f m g) (re_tokens r s))"

fun split_tokens :: "re_token list \<Rightarrow> string list" where
  "split_tokens [] = [[]]"
| "split_tokens (Found _ _ # ts) = [] # split_tokens ts"
| "split_tokens (Skipped c # ts) = (case split_tokens ts of p # ps \<Rightarrow> (c # p) # ps | [] \<Rightarrow> [[c]])"

definition re_split :: "regex \<Rightarrow> string \<Rightarrow> string list" where
  "re_split r s = split_tokens (re_tokens r s)"

lemma first_run_runs:
  assumes "first_run r b s = Some t"
  shows "t \<in> set (runs r \<lparr>re_left = b, re_right = s, re_groups = []\<rparr>)"
  using assms by (auto simp: first_run_def split: list.splits if_splits)

text \<open>Scanning loses nothing: the tokens are the subject.\<close>

lemma tokens_text: "concat (map token_text (tokens r b s)) = s"
proof (induction r b s rule: tokens.induct)
  case (2 r b c cs)
  show ?case
  proof (cases "first_run r b (c # cs)")
    case (Some t)
    have "c # cs = consumed \<lparr>re_left = b, re_right = c # cs, re_groups = []\<rparr> t @ re_right t"
      using runs_split(1)[OF first_run_runs[OF Some]] by simp
    with 2 Some show ?thesis by (simp add: consumed_def)
  qed (use 2 in simp)
qed simp

lemma re_tokens_text: "concat (map token_text (re_tokens r s)) = s"
  by (simp add: re_tokens_def tokens_text)

lemma re_sub_id:
  assumes "\<And>m g. Found m g \<in> set (re_tokens r s) \<Longrightarrow> f m g = m"
  shows "re_sub r f s = s"
proof -
  have "map (\<lambda>t. case t of Skipped c \<Rightarrow> [c] | Found m g \<Rightarrow> f m g) (re_tokens r s) = map token_text (re_tokens r s)"
    by (rule map_cong[OF refl]) (auto simp: assms split: re_token.splits)
  then show ?thesis unfolding re_sub_def by (simp only: re_tokens_text)
qed

lemma findall_Nil_iff: "findall r s = [] \<longleftrightarrow> (\<forall>m g. Found m g \<notin> set (re_tokens r s))"
  by (auto simp: findall_def split: re_token.splits)

lemma re_sub_no_match: "findall r s = [] \<Longrightarrow> re_sub r f s = s"
  by (rule re_sub_id) (simp add: findall_Nil_iff)

lemma split_tokens_nonempty [simp]: "split_tokens ts \<noteq> []"
  by (induction ts rule: split_tokens.induct) (auto split: list.splits)

lemma length_re_split: "length (re_split r s) = Suc (length (findall r s))"
proof -
  have "length (split_tokens ts) = Suc (length (concat (map (\<lambda>t. case t of Skipped _ \<Rightarrow> [] | Found m _ \<Rightarrow> [m]) ts)))" for ts
    by (induction ts rule: split_tokens.induct) (auto split: list.splits)
  then show ?thesis by (simp add: re_split_def findall_def)
qed

end
