(* ===== verification/CveRepository.thy ===== *)
theory CveRepository
  imports PyRegex EntryConversion
begin

text \<open>
  The vulnerability database of the CVE lookup, in \<open>src/plugins/analysis/cve_lookup/internal\<close>:
  the SQLite tables and the statements of \<open>database_interface.py\<close>, the escaping of CPE
  attributes in \<open>helper_functions.py\<close>, the parsing of the NVD feeds in \<open>data_parsing.py\<close>
  and the import and update of the repository in \<open>setup_repository.py\<close>.

  SQLite is modelled by the effect of the statements of \<open>QUERIES\<close> on its tables; an
  \<open>sqlite3.Error\<close> is swallowed by \<open>get_cursor\<close>, so a failing statement changes nothing.
  Downloads, JSON and XML parsing are the parameter \<open>feeds\<close>: the parsed content of the
  archive behind a URL; the text SQLite stores for a number is the parameter \<open>num\<close>.
\<close>

section \<open>\<open>helper_functions.py\<close>\<close>

definition dot_re :: regex where
  "dot_re = RChar (\<lambda>c. c \<noteq> CHR 0x0A)"

definition NON_ALPHANUM_REGEX :: regex where
  "NON_ALPHANUM_REGEX = seqs [RStar dot_re,
     RChar (\<lambda>c. \<not> (is_lower_char c \<or> is_upper_char c \<or> is_digit c \<or> c \<in> {CHR ''_'', CHR 0x5C, CHR '':''})),
     RStar dot_re, REnd]"

definition SPECIAL_CHAR_REGEX :: regex where
  "SPECIAL_CHAR_REGEX =
     (let not_escaped = RNotBehind (\<lambda>c. c = CHR 0x5C); no_dot = RChar (\<lambda>c. c \<noteq> CHR ''.'') in
      RAlt (seqs [no_dot, RGroup 1 (RSeq not_escaped (RChar (\<lambda>c. c \<in> {CHR ''*'', CHR ''?''}))), no_dot])
           (RGroup 2 (RSeq not_escaped (RChar (\<lambda>c. \<not> (is_lower_char c \<or> is_upper_char c \<or> is_digit c
              \<or> is_space c \<or> c \<in> {CHR ''?'', CHR ''*'', CHR ''_'', CHR 0x5C}))))))"

text \<open>One step of the loop over the special characters: \<open>(attribute, index_shift)\<close>.\<close>

definition escape_step :: "re_token \<Rightarrow> string \<times> nat \<Rightarrow> string \<times> nat" where
  "escape_step t = (\<lambda>(attribute, index_shift). case t of
      Skipped _ \<Rightarrow> (attribute, index_shift)
    | Found _ g \<Rightarrow> (case map_of g (if map_of g 1 = None then 2 else 1) of
        None \<Rightarrow> (attribute, index_shift)
      | Some (pos, _) \<Rightarrow>
          let start = pos + index_shift in
          if start \<noteq> 0 then (take start attribute @ [CHR 0x5C] @ drop start attribute, index_shift + 1)
          else (attribute, index_shift)))"

definition escape_special_characters :: "string \<Rightarrow> string" where
  "escape_special_characters a = fst (fold escape_step (re_tokens SPECIAL_CHAR_REGEX a) (a, 0))"

definition replace_attribute :: "string \<Rightarrow> string" where
  "replace_attribute a = (if a = ''*'' then ''ANY'' else if a = ''-'' then ''N/A''
     else if re_match NON_ALPHANUM_REGEX a \<noteq> None then escape_special_characters a else a)"

definition replace_characters_and_wildcards :: "string list \<Rightarrow> string list" where
  "replace_characters_and_wildcards attributes = map replace_attribute attributes"

definition unescape :: "string \<Rightarrow> string" where
  "unescape s = filter (\<lambda>c. c \<noteq> CHR 0x5C) s"

text \<open>Escaping only inserts backslashes.\<close>

lemma unescape_simps [simp]:
  "unescape (s @ t) = unescape s @ unescape t" "unescape [] = []"
  "unescape (c # s) = (if c = CHR 0x5C then unescape s else c # unescape s)"
  by (simp_all add: unescape_def)

lemma unescape_take_drop: "unescape (take n a) @ unescape (drop n a) = unescape a"
  using unescape_simps(1)[of "take n a" "drop n a"] by simp

lemma unescape_escape_step: "unescape (fst (escape_step t (a, n))) = unescape a"
  by (auto simp: escape_step_def Let_def unescape_take_drop split: re_token.splits option.splits)

lemma unescape_escape: "unescape (escape_special_characters a) = unescape a"
proof -
  have "unescape (fst (fold escape_step ts x)) = unescape (fst x)" for ts x
  proof (induction ts arbitrary: x)
    case (Cons t ts)
    show ?case using unescape_escape_step[of t "fst x" "snd x"] by (simp add: Cons)
  qed simp
  from this[of _ "(a, 0)"] show ?thesis unfolding escape_special_characters_def by simp
qed

lemma unescape_replace_attribute:
  "unescape (replace_attribute a) = (if a = ''*'' then ''ANY'' else if a = ''-'' then ''N/A'' else unescape a)"
  by (simp add: replace_attribute_def unescape_escape)

section \<open>\<open>database_interface.py\<close>: tables and statements\<close>

datatype sql_type = TEXT | INTEGER

datatype cell = SText string | SInt int | SReal real

record table =
  t_fields :: "(string \<times> sql_type) list"
  t_rows :: "cell list list"

type_synonym sqlite = "(string, table) dict"

definition CPE_DB_FIELDS :: "(string \<times> sql_type) list" where
  "CPE_DB_FIELDS = map (\<lambda>n. (n, TEXT)) [''cpe_id'', ''part'', ''vendor'', ''product'', ''version'', ''update'',
     ''edition'', ''language'', ''sw_edition'', ''target_sw'', ''target_hw'', ''other'']"

definition CVE_DB_FIELDS :: "(string \<times> sql_type) list" where
  "CVE_DB_FIELDS = [(''cve_id'', TEXT), (''year'', INTEGER), (''cpe_id'', TEXT), (''cvss_v2_score'', TEXT),
     (''cvss_v3_score'', TEXT), (''part'', TEXT), (''vendor'', TEXT), (''product'', TEXT), (''version'', TEXT),
     (''update'', TEXT), (''edition'', TEXT), (''language'', TEXT), (''sw_edition'', TEXT), (''target_sw'', TEXT),
     (''target_hw'', TEXT), (''other'', TEXT), (''version_start_including'', TEXT),
     (''version_start_excluding'', TEXT), (''version_end_including'', TEXT), (''version_end_excluding'', TEXT)]"

definition CVE_SUMMARY_DB_FIELDS :: "(string \<times> sql_type) list" where
  "CVE_SUMMARY_DB_FIELDS = [(''cve_id'', TEXT), (''year'', INTEGER), (''summary'', TEXT),
     (''cvss_v2_score'', TEXT), (''cvss_v3_score'', TEXT)]"

text \<open>A value stored in a column: the type affinity of SQLite; \<open>None\<close> where the column refuses the value.\<close>

definition int_text :: "string \<Rightarrow> int option" where
  "int_text s = (if s \<noteq> [] \<and> list_all is_digit s then Some (foldl (\<lambda>n c. 10 * n + (of_char c - 48)) 0 s) else None)"

definition bind_cell :: "(real \<Rightarrow> string) \<Rightarrow> sql_type \<Rightarrow> pyval \<Rightarrow> cell option" where
  "bind_cell num ty v = (case v of
      PStr s \<Rightarrow> (case ty of TEXT \<Rightarrow> Some (SText s)
                 | INTEGER \<Rightarrow> (case int_text s of Some i \<Rightarrow> Some (SInt i) | None \<Rightarrow> Some (SText s)))
    | PInt i \<Rightarrow> (case ty of TEXT \<Rightarrow> Some (SText (str_int i)) | INTEGER \<Rightarrow> Some (SInt i))
    | PFloat x \<Rightarrow> (case ty of TEXT \<Rightarrow> Some (SText (num x))
                 | INTEGER \<Rightarrow> Some (if x = of_int \<lfloor>x\<rfloor> then SInt \<lfloor>x\<rfloor> else SReal x))
    | PBool b \<Rightarrow> (let i = (if b then 1 else 0) in
                  case ty of TEXT \<Rightarrow> Some (SText (str_int i)) | INTEGER \<Rightarrow> Some (SInt i))
    | _ \<Rightarrow> None)"

definition bind_row :: "(real \<Rightarrow> string) \<Rightarrow> (string \<times> sql_type) list \<Rightarrow> pyval list \<Rightarrow> cell list option" where
  "bind_row num cols row = (let cells = map2 (\<lambda>(_, ty) v. bind_cell num ty v) cols row in
     if None \<in> set cells then None else Some (map the cells))"

definition cell_of :: "(string \<times> sql_type) list \<Rightarrow> string \<Rightarrow> cell list \<Rightarrow> cell option" where
  "cell_of cols f row = map_of (zip (map fst cols) row) f"

definition column_of :: "string \<Rightarrow> table \<Rightarrow> cell option list" where
  "column_of f t = map (cell_of (t_fields t) f) (t_rows t)"

definition table_exists :: "string \<Rightarrow> sqlite \<Rightarrow> bool" where
  "table_exists n db \<longleftrightarrow> dmem n db"

definition drop_table :: "string \<Rightarrow> sqlite \<Rightarrow> sqlite" where
  "drop_table n db = ddel n db"

definition create :: "(string \<times> sql_type) list \<Rightarrow> string \<Rightarrow> sqlite \<Rightarrow> sqlite" where
  "create cols n db = (if dmem n db then db else dput n \<lparr>t_fields = cols, t_rows = []\<rparr> db)"

definition delete_outdated_feeds :: "string \<Rightarrow> string \<Rightarrow> sqlite \<Rightarrow> sqlite" where
  "delete_outdated_feeds from use db = (case (dget db from, dget db use) of
      (Some t, Some u) \<Rightarrow> dput from (t\<lparr>t_rows := filter
         (\<lambda>r. cell_of (t_fields t) ''cve_id'' r \<notin> set (column_of ''cve_id'' u)) (t_rows t)\<rparr>) db
    | _ \<Rightarrow> db)"

definition fetch_multiple :: "string \<Rightarrow> sqlite \<Rightarrow> cell list list" where
  "fetch_multiple n db = (case dget db n of None \<Rightarrow> [] | Some t \<Rightarrow> t_rows t)"

definition extract_relevant_feeds :: "string \<Rightarrow> string \<Rightarrow> sqlite \<Rightarrow> cell list list" where
  "extract_relevant_feeds from use db = (case (dget db from, dget db use) of
      (Some t, Some u) \<Rightarrow> filter (\<lambda>r. cell_of (t_fields t) ''year'' r \<in> set (column_of ''year'' u)) (t_rows t)
    | _ \<Rightarrow> [])"

text \<open>
  \<open>insert_rows\<close>: rows of the wrong length are left out, duplicates in the input are
  inserted once, an unhashable value raises \<open>TypeError\<close> in \<open>set(input_data)\<close>, and the
  statement ends at the first row SQLite refuses.
\<close>

definition row_values :: "cell list \<Rightarrow> pyval list" where
  "row_values r = map (\<lambda>c. case c of SText s \<Rightarrow> PStr s | SInt i \<Rightarrow> PInt i | SReal x \<Rightarrow> PFloat x) r"

fun bind_rows :: "(real \<Rightarrow> string) \<Rightarrow> (string \<times> sql_type) list \<Rightarrow> pyval list list \<Rightarrow> cell list list" where
  "bind_rows num cols [] = []"
| "bind_rows num cols (r # rs) =
     (case bind_row num cols r of None \<Rightarrow> [] | Some c \<Rightarrow> c # bind_rows num cols rs)"

definition insert_rows ::
  "(real \<Rightarrow> string) \<Rightarrow> (string \<times> sql_type) list \<Rightarrow> string \<Rightarrow> pyval list list \<Rightarrow> sqlite \<Rightarrow> sqlite result" where
  "insert_rows num cols n input_data db =
     (if \<not> (\<forall>r \<in> set input_data. list_all hashable r) then Inl TypeError
      else Inr (case dget db n of
          None \<Rightarrow> db
        | Some t \<Rightarrow> dput n (t\<lparr>t_rows := t_rows t @ bind_rows num cols
              (filter (\<lambda>r. length r = length cols) (py_set input_data))\<rparr>) db))"

section \<open>\<open>data_parsing.py\<close>: the NVD feeds\<close>

datatype feed_file = JsonFile pyval | XmlFile "string list option"

type_synonym feeds = "string \<Rightarrow> (string, feed_file) dict option"

abbreviation CveLookupException :: py_error where
  "CveLookupException \<equiv> GenericException"

definition CPE_FILE :: string where
  "CPE_FILE = ''official-cpe-dictionary_v2.3.xml''"

definition CPE_URL :: string where
  "CPE_URL = ''https://nvd.nist.gov/feeds/xml/cpe/dictionary/'' @ CPE_FILE @ ''.zip''"

definition CVE_URL :: "string \<Rightarrow> string" where
  "CVE_URL part_name = ''https://nvd.nist.gov/feeds/json/cve/1.1/nvdcve-1.1-'' @ part_name @ ''.json.zip''"

definition get_cve_links :: "int \<Rightarrow> int list option \<Rightarrow> string list" where
  "get_cve_links this_year selected_years =
     map (\<lambda>y. CVE_URL (str_int y)) (case selected_years of None \<Rightarrow> [2002..this_year] | Some ys \<Rightarrow> ys)"

definition process_url :: "feeds \<Rightarrow> string \<Rightarrow> (string, feed_file) dict \<Rightarrow> (string, feed_file) dict result" where
  "process_url feeds url dir = (case feeds url of
      None \<Rightarrow> Inl CveLookupException
    | Some files \<Rightarrow> Inr (dupdate dir files))"

definition download_cve ::
  "feeds \<Rightarrow> int \<Rightarrow> int list option \<Rightarrow> bool \<Rightarrow> (string, feed_file) dict \<Rightarrow> (string, feed_file) dict result" where
  "download_cve feeds this_year years update dir =
     (if update then process_url feeds (CVE_URL ''modified'') dir
      else let all_cve_urls = get_cve_links this_year years in
        if all_cve_urls = [] then Inl CveLookupException
        else foldM_r (process_url feeds) all_cve_urls dir)"

definition download_cpe :: "feeds \<Rightarrow> (string, feed_file) dict \<Rightarrow> (string, feed_file) dict result" where
  "download_cpe feeds dir = process_url feeds CPE_URL dir"

text \<open>Reading JSON values: subscripts, iteration and membership.\<close>

definition jget :: "pyval \<Rightarrow> string \<Rightarrow> pyval result" where
  "jget v k = (case v of PDict d \<Rightarrow> dlookup d k | _ \<Rightarrow> Inl TypeError)"

fun jfirst :: "pyval \<Rightarrow> pyval result" where
  "jfirst (PList []) = Inl IndexError"
| "jfirst (PList (x # _)) = Inr x"
| "jfirst (PStr []) = Inl IndexError"
| "jfirst (PStr (c # _)) = Inr (PStr [c])"
| "jfirst (PDict _) = Inl KeyError"
| "jfirst _ = Inl TypeError"

fun jiter :: "pyval \<Rightarrow> pyval list result" where
  "jiter (PList xs) = Inr xs"
| "jiter (PDict d) = Inr (map PStr (dkeys d))"
| "jiter (PStr s) = Inr (map (\<lambda>c. PStr [c]) s)"
| "jiter _ = Inl TypeError"

fun jmember :: "string \<Rightarrow> pyval \<Rightarrow> bool result" where
  "jmember k (PDict d) = Inr (dmem k d)"
| "jmember k (PList xs) = Inr (PStr k \<in> set xs)"
| "jmember k (PStr s) = Inr (substr_in k s)"
| "jmember k _ = Inl TypeError"

text \<open>A CPE entry of a feed: the URI and the four version bounds.\<close>

type_synonym cpe_entry = "pyval list"

definition BOUND_KEYS :: "string list" where
  "BOUND_KEYS = [''versionStartIncluding'', ''versionStartExcluding'', ''versionEndIncluding'', ''versionEndExcluding'']"

definition cpe_match_entry :: "pyval \<Rightarrow> cpe_entry list result" where
  "cpe_match_entry cpe = bind_r (jmember ''cpe23Uri'' cpe) (\<lambda>has.
     if \<not> has then Inr [] else
       bind_r (jget cpe ''vulnerable'') (\<lambda>vulnerable.
         if \<not> py_truthy vulnerable then Inr [] else
           (case cpe of
              PDict d \<Rightarrow> bind_r (dlookup d ''cpe23Uri'') (\<lambda>u.
                Inr [u # map (\<lambda>k. case map_of d k of None \<Rightarrow> PStr [] | Some v \<Rightarrow> v) BOUND_KEYS])
            | _ \<Rightarrow> Inl TypeError)))"

lemma size_map_of_less [termination_simp]:
  "map_of d k = Some (PList xs) \<Longrightarrow> size_list size xs < Suc (size_list (\<lambda>x. Suc (size (snd x))) d)"
  by (induction d) (auto split: if_splits)

fun extract_cpe_data_from_cve :: "pyval list \<Rightarrow> cpe_entry list result"
  and extract_cpe_data_node :: "pyval \<Rightarrow> cpe_entry list result" where
  "extract_cpe_data_from_cve [] = Inr []"
| "extract_cpe_data_from_cve (dicts # nodes) =
     bind_r (extract_cpe_data_node dicts) (\<lambda>es. map_r (append es) (extract_cpe_data_from_cve nodes))"
| "extract_cpe_data_node (PDict d) = (case map_of d ''cpe_match'' of
      Some m \<Rightarrow> bind_r (jiter m) (\<lambda>cpes. map_r concat (mapM_r cpe_match_entry cpes))
    | None \<Rightarrow> (case map_of d ''children'' of
        None \<Rightarrow> Inr []
      | Some (PList children) \<Rightarrow> extract_cpe_data_from_cve children
      | Some c \<Rightarrow> bind_r (jiter c) (\<lambda>xs. if xs = [] then Inr [] else Inl AttributeError)))"
| "extract_cpe_data_node _ = Inl AttributeError"

record cve_feed_entry =
  ce_cve_id :: pyval
  ce_impact :: "(string, pyval) dict"
  ce_cpe_list :: "cpe_entry list"

record cve_summary_entry =
  cs_cve_id :: pyval
  cs_summary :: string
  cs_impact :: "(string, pyval) dict"

definition impact_step :: "pyval \<Rightarrow> string \<times> string \<Rightarrow> (string, pyval) dict \<Rightarrow> (string, pyval) dict result" where
  "impact_step entry = (\<lambda>(metric_key, cvss_key) impact.
     bind_r (jmember metric_key entry) (\<lambda>m. if \<not> m then Inr impact else
       bind_r (jget entry metric_key) (\<lambda>metric.
       bind_r (jmember cvss_key metric) (\<lambda>c. if \<not> c then Inr impact else
         bind_r (jget metric cvss_key) (\<lambda>cvss.
         bind_r (jget cvss ''baseScore'') (\<lambda>score. Inr (dput cvss_key score impact)))))))"

definition extract_cve_impact :: "pyval \<Rightarrow> (string, pyval) dict result" where
  "extract_cve_impact entry = (if \<not> py_truthy entry then Inr []
     else foldM_r (impact_step entry) [(''baseMetricV2'', ''cvssV2''), (''baseMetricV3'', ''cvssV3'')] [])"

definition REJECTED :: string where
  "REJECTED = ''** REJECT **''"

text \<open>One item of a feed: an entry with CPEs, a summary without, or nothing for a rejected CVE.\<close>

definition feed_item :: "pyval \<Rightarrow> (cve_feed_entry list \<times> cve_summary_entry list) result" where
  "feed_item feed =
     bind_r (jget feed ''cve'') (\<lambda>cve.
     bind_r (jget cve ''CVE_data_meta'') (\<lambda>meta.
     bind_r (jget meta ''ID'') (\<lambda>cve_id.
     bind_r (jget cve ''description'') (\<lambda>description.
     bind_r (jget description ''description_data'') (\<lambda>data.
     bind_r (jfirst data) (\<lambda>first.
     bind_r (jget first ''value'') (\<lambda>summary.
     bind_r (jmember ''impact'' feed) (\<lambda>has.
     bind_r (if has then bind_r (jget feed ''impact'') extract_cve_impact else Inr []) (\<lambda>impact.
     bind_r (jget feed ''configurations'') (\<lambda>conf.
     bind_r (jget conf ''nodes'') (\<lambda>nodes.
       if py_truthy nodes then
         bind_r (jiter nodes) (\<lambda>ns.
         bind_r (extract_cpe_data_from_cve ns) (\<lambda>cpes.
           if \<forall>c \<in> set cpes. list_all hashable c
           then Inr ([\<lparr>ce_cve_id = cve_id, ce_impact = impact, ce_cpe_list = py_set cpes\<rparr>], [])
           else Inl TypeError))
       else (case summary of
           PStr s \<Rightarrow> Inr ([], if prefix REJECTED s then [] else [\<lparr>cs_cve_id = cve_id, cs_summary = s, cs_impact = impact\<rparr>])
         | _ \<Rightarrow> Inl AttributeError))))))))))))"

type_synonym feed_data = "cve_feed_entry list \<times> cve_summary_entry list"

definition extract_data_from_cve :: "pyval \<Rightarrow> feed_data result" where
  "extract_data_from_cve feed_root =
     bind_r (jget feed_root ''CVE_Items'') (\<lambda>items.
     bind_r (jiter items) (\<lambda>feeds.
     map_r (\<lambda>ps. (concat (map fst ps), concat (map snd ps))) (mapM_r feed_item feeds)))"

definition extract_cve :: "feed_file \<Rightarrow> feed_data result" where
  "extract_cve f = (case f of JsonFile j \<Rightarrow> extract_data_from_cve j | XmlFile _ \<Rightarrow> Inl ValueError)"

definition extract_cpe :: "feed_file \<Rightarrow> string list result" where
  "extract_cpe f = (case f of XmlFile (Some names) \<Rightarrow> Inr names | _ \<Rightarrow> Inl CveLookupException)"

section \<open>\<open>setup_repository.py\<close>: rows of the tables\<close>

definition CPE_SPLIT_REGEX :: regex where
  "CPE_SPLIT_REGEX = (let colon = (\<lambda>c. c = CHR '':'') in
     RAlt (seqs [RNotBehind (\<lambda>c. c \<in> {CHR 0x5C, CHR '':''}), RChar colon, RNotAhead colon])
          (RSeq (RBehind [colon, \<lambda>c. c = CHR 0x5C]) (RChar colon)))"

definition cpe_attributes :: "string \<Rightarrow> string list" where
  "cpe_attributes cpe = replace_characters_and_wildcards (drop 2 (re_split CPE_SPLIT_REGEX cpe))"

definition setup_cpe_table :: "string list \<Rightarrow> pyval list list" where
  "setup_cpe_table cpe_list = map (\<lambda>cpe. map PStr (cpe # cpe_attributes cpe)) cpe_list"

definition cve_year :: "pyval \<Rightarrow> string result" where
  "cve_year cve_id = (case cve_id of
      PStr s \<Rightarrow> (case split_on (CHR ''-'') s of _ # y # _ \<Rightarrow> Inr y | _ \<Rightarrow> Inl IndexError)
    | _ \<Rightarrow> Inl AttributeError)"

definition score_of :: "string \<Rightarrow> (string, pyval) dict \<Rightarrow> pyval" where
  "score_of k impact = (case map_of impact k of None \<Rightarrow> PStr ''N/A'' | Some v \<Rightarrow> v)"

definition cve_feed_row :: "cve_feed_entry \<Rightarrow> cpe_entry \<Rightarrow> pyval list result" where
  "cve_feed_row e cpe = (case cpe of
      u # bounds \<Rightarrow> bind_r (cve_year (ce_cve_id e)) (\<lambda>year. (case u of
          PStr s \<Rightarrow> Inr ([ce_cve_id e, PStr year, u, score_of ''cvssV2'' (ce_impact e), score_of ''cvssV3'' (ce_impact e)]
            @ map PStr (cpe_attributes s) @ bounds)
        | _ \<Rightarrow> Inl TypeError))
    | [] \<Rightarrow> Inl ValueError)"

definition setup_cve_feeds_table :: "cve_feed_entry list \<Rightarrow> pyval list list result" where
  "setup_cve_feeds_table cve_list =
     map_r concat (mapM_r (\<lambda>e. mapM_r (cve_feed_row e) (ce_cpe_list e)) cve_list)"

definition setup_cve_summary_table :: "cve_summary_entry list \<Rightarrow> pyval list list result" where
  "setup_cve_summary_table summary_list = mapM_r (\<lambda>e. bind_r (cve_year (cs_cve_id e)) (\<lambda>year.
     Inr [cs_cve_id e, PStr year, PStr (cs_summary e), score_of ''cvssV2'' (cs_impact e), score_of ''cvssV3'' (cs_impact e)]))
     summary_list"

section \<open>\<open>setup_repository.py\<close>: import and update\<close>

text \<open>The state: the tables, and the directory the archives are extracted to.\<close>

record repo =
  rp_db :: sqlite
  rp_dir :: "(string, feed_file) dict"

type_synonym repo_op = "repo \<Rightarrow> unit result \<times> repo"

definition and_then :: "repo_op \<Rightarrow> repo_op \<Rightarrow> repo_op" where
  "and_then f g s = (case f s of (Inl e, t) \<Rightarrow> (Inl e, t) | (Inr _, t) \<Rightarrow> g t)"

definition on_db :: "(sqlite \<Rightarrow> sqlite) \<Rightarrow> repo_op" where
  "on_db f s = (Inr (), s\<lparr>rp_db := f (rp_db s)\<rparr>)"

definition with_r :: "'a result \<Rightarrow> ('a \<Rightarrow> repo_op) \<Rightarrow> repo_op" where
  "with_r r f s = (case r of Inl e \<Rightarrow> (Inl e, s) | Inr x \<Rightarrow> f x s)"

definition with_dir :: "(string, feed_file) dict result \<Rightarrow> repo_op \<Rightarrow> repo_op" where
  "with_dir r f s = (case r of Inl e \<Rightarrow> (Inl e, s) | Inr d \<Rightarrow> f (s\<lparr>rp_dir := d\<rparr>))"

definition insert_into :: "(real \<Rightarrow> string) \<Rightarrow> (string \<times> sql_type) list \<Rightarrow> string \<Rightarrow> pyval list list \<Rightarrow> repo_op" where
  "insert_into num cols n rows s = (case insert_rows num cols n rows (rp_db s) of
      Inl e \<Rightarrow> (Inl e, s)
    | Inr db \<Rightarrow> (Inr (), s\<lparr>rp_db := db\<rparr>))"

definition files_like :: "string \<Rightarrow> string \<Rightarrow> (string, feed_file) dict \<Rightarrow> feed_file list" where
  "files_like pre suf dir = map snd (filter (\<lambda>(n, _). prefix pre n \<and> suffix suf n) dir)"

definition get_cve_json_files :: "(string, feed_file) dict \<Rightarrow> feed_file list" where
  "get_cve_json_files dir = files_like ''nvdcve'' ''.json'' dir"

definition get_cpe_content :: "feeds \<Rightarrow> (string list \<Rightarrow> repo_op) \<Rightarrow> repo_op" where
  "get_cpe_content feeds k s = with_dir (download_cpe feeds (rp_dir s)) (\<lambda>s1.
     (case files_like [] ''.xml'' (rp_dir s1) of
        [] \<Rightarrow> (Inl CveLookupException, s1)
      | f # _ \<Rightarrow> with_r (extract_cpe f) k s1)) s"

definition insert_cpes :: "(real \<Rightarrow> string) \<Rightarrow> feeds \<Rightarrow> repo_op" where
  "insert_cpes num feeds = and_then (on_db (create CPE_DB_FIELDS ''cpe_table''))
     (get_cpe_content feeds (\<lambda>cpes. insert_into num CPE_DB_FIELDS ''cpe_table'' (setup_cpe_table cpes)))"

definition update_cpe :: "(real \<Rightarrow> string) \<Rightarrow> feeds \<Rightarrow> repo_op" where
  "update_cpe num feeds s = (if \<not> table_exists ''cpe_table'' (rp_db s) then (Inl CveLookupException, s)
     else and_then (on_db (drop_table ''cpe_table'')) (insert_cpes num feeds) s)"

definition import_cpe :: "(real \<Rightarrow> string) \<Rightarrow> feeds \<Rightarrow> repo_op" where
  "import_cpe num feeds s = (if table_exists ''cpe_table'' (rp_db s) then (Inl CveLookupException, s)
     else insert_cpes num feeds s)"

definition init_cve_feeds_table :: "(real \<Rightarrow> string) \<Rightarrow> cve_feed_entry list \<Rightarrow> string \<Rightarrow> repo_op" where
  "init_cve_feeds_table num cve_list n = and_then (on_db (create CVE_DB_FIELDS n))
     (with_r (setup_cve_feeds_table cve_list) (insert_into num CVE_DB_FIELDS n))"

definition init_cve_summaries_table :: "(real \<Rightarrow> string) \<Rightarrow> cve_summary_entry list \<Rightarrow> string \<Rightarrow> repo_op" where
  "init_cve_summaries_table num summary_list n = and_then (on_db (create CVE_SUMMARY_DB_FIELDS n))
     (with_r (setup_cve_summary_table summary_list) (insert_into num CVE_SUMMARY_DB_FIELDS n))"

definition get_cve_import_content :: "feeds \<Rightarrow> int \<Rightarrow> int list \<Rightarrow> (feed_data \<Rightarrow> repo_op) \<Rightarrow> repo_op" where
  "get_cve_import_content feeds this_year years k s = with_dir (download_cve feeds this_year (Some years) False (rp_dir s))
     (\<lambda>s1. with_r (mapM_r extract_cve (get_cve_json_files (rp_dir s1)))
        (\<lambda>ps. k (concat (map fst ps), concat (map snd ps))) s1) s"

definition get_cve_update_content :: "feeds \<Rightarrow> int \<Rightarrow> (feed_data \<Rightarrow> repo_op) \<Rightarrow> repo_op" where
  "get_cve_update_content feeds this_year k s = with_dir (download_cve feeds this_year None True (rp_dir s))
     (\<lambda>s1. (case get_cve_json_files (rp_dir s1) of
        [] \<Rightarrow> (Inl CveLookupException, s1)
      | f # _ \<Rightarrow> with_r (extract_cve f) k s1)) s"

definition update_cve_feeds :: "(real \<Rightarrow> string) \<Rightarrow> repo_op" where
  "update_cve_feeds num s =
     (let feeds_to_be_updated = map row_values (extract_relevant_feeds ''temp_feeds'' ''cve_table'' (rp_db s)) in
      and_then (on_db (delete_outdated_feeds ''cve_table'' ''temp_feeds''))
        (insert_into num CVE_DB_FIELDS ''cve_table'' feeds_to_be_updated) s)"

definition update_cve_summaries :: "(real \<Rightarrow> string) \<Rightarrow> repo_op" where
  "update_cve_summaries num s =
     (let summaries_to_be_updated = map row_values (extract_relevant_feeds ''temp_sum'' ''cve_table'' (rp_db s)) in
      and_then (on_db (\<lambda>db. delete_outdated_feeds ''cve_table'' ''temp_sum''
          (if table_exists ''summary_table'' db
           then delete_outdated_feeds ''summary_table'' ''temp_feeds'' (delete_outdated_feeds ''summary_table'' ''temp_sum'' db)
           else create CVE_SUMMARY_DB_FIELDS ''summary_table'' db)))
        (insert_into num CVE_SUMMARY_DB_FIELDS ''summary_table'' summaries_to_be_updated) s)"

definition update_cve_repository :: "(real \<Rightarrow> string) \<Rightarrow> feeds \<Rightarrow> int \<Rightarrow> repo_op" where
  "update_cve_repository num feeds this_year s =
     (if \<not> table_exists ''cve_table'' (rp_db s) then (Inl CveLookupException, s)
      else with_dir (download_cve feeds this_year None True (rp_dir s))
        (get_cve_update_content feeds this_year (\<lambda>(cve_list, summary_list).
          and_then (init_cve_feeds_table num cve_list ''temp_feeds'')
         (and_then (update_cve_feeds num)
         (and_then (if summary_list = [] then on_db (\<lambda>db. db) else
            and_then (init_cve_summaries_table num summary_list ''temp_sum'')
           (and_then (update_cve_summaries num) (on_db (drop_table ''temp_sum''))))
          (on_db (drop_table ''temp_feeds'')))))) s)"

definition overlap :: "int \<Rightarrow> int \<Rightarrow> int list \<Rightarrow> int list" where
  "overlap start_year end_year in_database = filter (\<lambda>y. y \<notin> set in_database) [start_year..end_year]"

definition get_years_from_database :: "sqlite \<Rightarrow> int list" where
  "get_years_from_database db = (case dget db ''cve_table'' of
      None \<Rightarrow> []
    | Some t \<Rightarrow> concat (map (\<lambda>c. case c of Some (SInt y) \<Rightarrow> [y] | _ \<Rightarrow> []) (py_set (column_of ''year'' t))))"

definition year_selection :: "int \<Rightarrow> int \<Rightarrow> sqlite \<Rightarrow> int list" where
  "year_selection start_year end_year db =
     (let filtered = (if table_exists ''cve_table'' db then overlap start_year end_year (get_years_from_database db) else []) in
      if filtered \<noteq> [] then filtered else [start_year..end_year])"

definition import_cve :: "(real \<Rightarrow> string) \<Rightarrow> feeds \<Rightarrow> int \<Rightarrow> int \<Rightarrow> int \<Rightarrow> repo_op" where
  "import_cve num feeds this_year start_year end_year s =
     get_cve_import_content feeds this_year (year_selection start_year end_year (rp_db s)) (\<lambda>(cve_list, summary_list).
       and_then (init_cve_feeds_table num cve_list ''cve_table'')
         (if summary_list = [] then on_db (\<lambda>db. db) else init_cve_summaries_table num summary_list ''summary_table'')) s"

datatype choice = Cpe | Cve | Both

definition cpe_was_chosen :: "choice \<Rightarrow> bool" where
  "cpe_was_chosen c \<longleftrightarrow> c \<in> {Cpe, Both}"

definition cve_was_chosen :: "choice \<Rightarrow> bool" where
  "cve_was_chosen c \<longleftrightarrow> c \<in> {Cve, Both}"

definition update_repository :: "(real \<Rightarrow> string) \<Rightarrow> feeds \<Rightarrow> int \<Rightarrow> choice \<Rightarrow> repo_op" where
  "update_repository num feeds this_year c =
     and_then (if cpe_was_chosen c then update_cpe num feeds else on_db (\<lambda>db. db))
       (if cve_was_chosen c then update_cve_repository num feeds this_year else on_db (\<lambda>db. db))"

definition init_repository :: "(real \<Rightarrow> string) \<Rightarrow> feeds \<Rightarrow> int \<Rightarrow> choice \<Rightarrow> int \<Rightarrow> int \<Rightarrow> repo_op" where
  "init_repository num feeds this_year c start_year end_year =
     and_then (if cpe_was_chosen c then import_cpe num feeds else on_db (\<lambda>db. db))
       (if cve_was_chosen c then import_cve num feeds this_year start_year end_year else on_db (\<lambda>db. db))"

definition check_validity_of_arguments :: "int \<Rightarrow> int \<Rightarrow> int \<Rightarrow> unit result" where
  "check_validity_of_arguments this_year start_year end_year =
     (if start_year < 2002 \<or> start_year > this_year then Inl ValueError
      else if end_year < 2002 \<or> end_year > this_year then Inl ValueError
      else if start_year > end_year then Inl ValueError else Inr ())"

text \<open>\<open>main\<close>: a failed initialisation removes the database file; the extracted files are always removed.\<close>

definition setup_main :: "(real \<Rightarrow> string) \<Rightarrow> feeds \<Rightarrow> int \<Rightarrow> bool \<Rightarrow> choice \<Rightarrow> int \<Rightarrow> int \<Rightarrow> repo_op" where
  "setup_main num feeds this_year update c start_year end_year s =
     (case check_validity_of_arguments this_year start_year end_year of
        Inl e \<Rightarrow> (Inl e, s)
      | Inr _ \<Rightarrow>
          (let (r, t) = (if update then update_repository num feeds this_year c s
                         else init_repository num feeds this_year c start_year end_year s)
           in (r, t\<lparr>rp_db := (if r = Inl CveLookupException \<and> \<not> update then [] else rp_db t), rp_dir := []\<rparr>)))"

section \<open>Typed tables\<close>

text \<open>
  A row is typed if it has one cell per column, text in the text columns and in an integer
  column only what SQLite does not convert to an integer.
\<close>

fun cell_typed :: "sql_type \<Rightarrow> cell \<Rightarrow> bool" where
  "cell_typed TEXT c = (case c of SText _ \<Rightarrow> True | _ \<Rightarrow> False)"
| "cell_typed INTEGER c = (case c of SText s \<Rightarrow> int_text s = None | SInt _ \<Rightarrow> True | SReal x \<Rightarrow> x \<noteq> of_int \<lfloor>x\<rfloor>)"

definition row_typed :: "(string \<times> sql_type) list \<Rightarrow> cell list \<Rightarrow> bool" where
  "row_typed cols r \<longleftrightarrow> list_all2 (\<lambda>(_, ty) c. cell_typed ty c) cols r"

definition schema :: "string \<Rightarrow> (string \<times> sql_type) list option" where
  "schema = map_of [(''cpe_table'', CPE_DB_FIELDS), (''cve_table'', CVE_DB_FIELDS), (''temp_feeds'', CVE_DB_FIELDS),
     (''summary_table'', CVE_SUMMARY_DB_FIELDS), (''temp_sum'', CVE_SUMMARY_DB_FIELDS)]"

lemma schema_simps [simp]:
  "schema ''cpe_table'' = Some CPE_DB_FIELDS" "schema ''cve_table'' = Some CVE_DB_FIELDS"
  "schema ''temp_feeds'' = Some CVE_DB_FIELDS" "schema ''summary_table'' = Some CVE_SUMMARY_DB_FIELDS"
  "schema ''temp_sum'' = Some CVE_SUMMARY_DB_FIELDS"
  by (simp_all add: schema_def)

definition db_typed :: "sqlite \<Rightarrow> bool" where
  "db_typed db \<longleftrightarrow> (\<forall>n t. dget db n = Some t \<longrightarrow> schema n = Some (t_fields t) \<and> list_all (row_typed (t_fields t)) (t_rows t))"

lemma db_typedD:
  assumes "db_typed db" and "dget db n = Some t"
  shows "schema n = Some (t_fields t)" and "list_all (row_typed (t_fields t)) (t_rows t)"
  using assms by (simp_all add: db_typed_def)

lemma bind_cell_typed: "bind_cell num ty v = Some c \<Longrightarrow> cell_typed ty c"
  by (cases ty; cases v) (auto simp: bind_cell_def Let_def split: option.splits if_splits)

lemma bind_row_typed:
  assumes "bind_row num cols r = Some c" and "length r = length cols"
  shows "row_typed cols c"
proof -
  let ?cells = "map2 (\<lambda>(_, ty) v. bind_cell num ty v) cols r"
  have no: "None \<notin> set ?cells" and c: "c = map the ?cells"
    using assms(1) by (auto simp: bind_row_def Let_def split: if_splits)
  show ?thesis unfolding row_typed_def
  proof (rule list_all2_all_nthI)
    show "length cols = length c" using c assms(2) by simp
    fix i assume i: "i < length cols"
    then have "?cells ! i = bind_cell num (snd (cols ! i)) (r ! i)"
      using assms(2) by (simp add: case_prod_beta)
    moreover have "?cells ! i \<noteq> None" using no i assms(2) by (metis length_map map2_map_map map_fst_zip length_zip min.idem nth_mem)
    ultimately obtain x where "bind_cell num (snd (cols ! i)) (r ! i) = Some x" "c ! i = x"
      using c i assms(2) by (auto simp: case_prod_beta)
    then show "(\<lambda>(_, ty) c. cell_typed ty c) (cols ! i) (c ! i)"
      using bind_cell_typed by (auto simp: case_prod_beta)
  qed
qed

lemma bind_rows_typed: "\<forall>r \<in> set rs. length r = length cols \<Longrightarrow> list_all (row_typed cols) (bind_rows num cols rs)"
  by (induction rs) (auto split: option.splits intro: bind_row_typed)

text \<open>A typed row read from a table is stored unchanged.\<close>

lemma bind_cell_value: "cell_typed ty c \<Longrightarrow> bind_cell num ty (case c of SText s \<Rightarrow> PStr s | SInt i \<Rightarrow> PInt i | SReal x \<Rightarrow> PFloat x) = Some c"
  by (cases ty; cases c) (auto simp: bind_cell_def)

lemma bind_row_values: "row_typed cols r \<Longrightarrow> bind_row num cols (row_values r) = Some r"
  unfolding row_typed_def
  by (induction cols r rule: list_all2_induct)
    (auto simp: bind_row_def row_values_def bind_cell_value Let_def split: if_splits)

lemma bind_rows_values: "list_all (row_typed cols) rs \<Longrightarrow> bind_rows num cols (map row_values rs) = rs"
  by (induction rs) (simp_all add: bind_row_values)

lemma length_row_values [simp]: "length (row_values r) = length r"
  by (simp add: row_values_def)

lemma hashable_row_values: "list_all hashable (row_values r)"
  by (auto simp: row_values_def list_all_iff split: cell.splits)

lemma inj_row_values: "inj row_values"
proof -
  have "inj (\<lambda>c. case c of SText s \<Rightarrow> PStr s | SInt i \<Rightarrow> PInt i | SReal x \<Rightarrow> PFloat x)"
    by (auto simp: inj_def split: cell.splits)
  then show ?thesis by (auto simp: inj_def row_values_def intro: map_injective[unfolded inj_def])
qed

subsection \<open>Every operation keeps the types\<close>

named_theorems keeps_intros

definition keeps :: "repo_op \<Rightarrow> bool" where
  "keeps f \<longleftrightarrow> (\<forall>s. db_typed (rp_db s) \<longrightarrow> db_typed (rp_db (snd (f s))))"

lemma keepsI: "(\<And>s. db_typed (rp_db s) \<Longrightarrow> db_typed (rp_db (snd (f s)))) \<Longrightarrow> keeps f"
  by (simp add: keeps_def)

lemma keepsD: "keeps f \<Longrightarrow> db_typed (rp_db s) \<Longrightarrow> db_typed (rp_db (snd (f s)))"
  by (simp add: keeps_def)

lemma keeps_and_then [keeps_intros]: "keeps f \<Longrightarrow> keeps g \<Longrightarrow> keeps (and_then f g)"
  unfolding keeps_def and_then_def by (force split: prod.splits sum.splits)

lemma keeps_on_db [keeps_intros]: "(\<And>db. db_typed db \<Longrightarrow> db_typed (f db)) \<Longrightarrow> keeps (on_db f)"
  by (simp add: keeps_def on_db_def)

lemma keeps_with_r [keeps_intros]: "(\<And>x. r = Inr x \<Longrightarrow> keeps (f x)) \<Longrightarrow> keeps (with_r r f)"
  by (auto simp: keeps_def with_r_def split: sum.splits)

lemma keeps_if [keeps_intros]: "(b \<Longrightarrow> keeps f) \<Longrightarrow> (\<not> b \<Longrightarrow> keeps g) \<Longrightarrow> keeps (if b then f else g)"
  by simp

lemma typed_with_dir: "keeps f \<Longrightarrow> db_typed (rp_db s) \<Longrightarrow> db_typed (rp_db (snd (with_dir r f s)))"
  by (auto simp: with_dir_def keeps_def split: sum.splits)

lemma typed_update: "db_typed db \<Longrightarrow> schema n = Some (t_fields t) \<Longrightarrow> list_all (row_typed (t_fields t)) (t_rows t) \<Longrightarrow> db_typed (dput n t db)"
  by (simp add: db_typed_def)

lemma typed_create [keeps_intros]: "db_typed db \<Longrightarrow> schema n = Some cols \<Longrightarrow> db_typed (create cols n db)"
  by (simp add: create_def typed_update)

lemma typed_drop [keeps_intros]: "db_typed db \<Longrightarrow> db_typed (drop_table n db)"
  by (simp add: db_typed_def drop_table_def)

lemma typed_delete [keeps_intros]: "db_typed db \<Longrightarrow> db_typed (delete_outdated_feeds n m db)"
  by (auto simp: delete_outdated_feeds_def db_typed_def list_all_iff split: option.splits)

lemma keeps_insert_into [keeps_intros]: "schema n = Some cols \<Longrightarrow> keeps (insert_into num cols n rows)"
  by (rule keepsI)
    (auto simp: insert_into_def insert_rows_def db_typed_def intro!: bind_rows_typed split: option.splits sum.splits if_splits)

lemma keeps_with_dir [keeps_intros]: "keeps f \<Longrightarrow> keeps (\<lambda>s. with_dir (r s) f s)"
  by (rule keepsI) (rule typed_with_dir)

lemma keeps_id [keeps_intros]: "keeps (on_db (\<lambda>db. db))"
  by (simp add: keeps_def on_db_def)

lemma keeps_guard [keeps_intros]: "keeps f \<Longrightarrow> keeps (\<lambda>s. if b s then (Inl e, s) else f s)"
  by (simp add: keeps_def)

lemma keeps_first_file [keeps_intros]:
  "(\<And>f fs. keeps (k f)) \<Longrightarrow> keeps (\<lambda>s. case files s of [] \<Rightarrow> (Inl e, s) | f # fs \<Rightarrow> k f s)"
  by (auto simp: keeps_def split: list.splits)

lemma keeps_case_prod [keeps_intros]: "(\<And>a b. keeps (f a b)) \<Longrightarrow> keeps (case p of (a, b) \<Rightarrow> f a b)"
  by (cases p) simp

lemma keeps_get_cpe_content [keeps_intros]: "(\<And>x. keeps (k x)) \<Longrightarrow> keeps (get_cpe_content feeds k)"
  unfolding get_cpe_content_def by (intro keeps_intros)

lemma keeps_cpe [keeps_intros]: "keeps (insert_cpes num feeds)" "keeps (update_cpe num feeds)" "keeps (import_cpe num feeds)"
proof -
  show i: "keeps (insert_cpes num feeds)" unfolding insert_cpes_def by (intro keeps_intros) simp_all
  show "keeps (update_cpe num feeds)" unfolding update_cpe_def by (intro keeps_intros i)
  show "keeps (import_cpe num feeds)" unfolding import_cpe_def by (intro keeps_intros i)
qed

lemma keeps_init [keeps_intros]:
  "schema n = Some CVE_DB_FIELDS \<Longrightarrow> keeps (init_cve_feeds_table num cl n)"
  "schema n = Some CVE_SUMMARY_DB_FIELDS \<Longrightarrow> keeps (init_cve_summaries_table num sl n)"
  unfolding init_cve_feeds_table_def init_cve_summaries_table_def by (intro keeps_intros; simp)+

lemma keeps_update_feeds [keeps_intros]: "keeps (update_cve_feeds num)"
proof (rule keepsI)
  fix s :: repo assume s: "db_typed (rp_db s)"
  show "db_typed (rp_db (snd (update_cve_feeds num s)))"
    unfolding update_cve_feeds_def Let_def by (rule keepsD[OF _ s]) (intro keeps_intros; simp)
qed

lemma keeps_update_summaries [keeps_intros]: "keeps (update_cve_summaries num)"
proof (rule keepsI)
  fix s :: repo assume s: "db_typed (rp_db s)"
  show "db_typed (rp_db (snd (update_cve_summaries num s)))"
    unfolding update_cve_summaries_def Let_def
    by (rule keepsD[OF _ s], intro keeps_intros) (auto intro: keeps_intros)
qed

lemma keeps_content [keeps_intros]:
  "(\<And>x. keeps (k x)) \<Longrightarrow> keeps (get_cve_import_content feeds y ys k)"
  "(\<And>x. keeps (k x)) \<Longrightarrow> keeps (get_cve_update_content feeds y k)"
proof -
  assume k: "\<And>x. keeps (k x)"
  have dir: "keeps (\<lambda>s. with_r (h s) g s)" if "\<And>x. keeps (g x)" for h :: "repo \<Rightarrow> 'b result" and g
    using that by (auto simp: keeps_def with_r_def split: sum.splits)
  show "keeps (get_cve_import_content feeds y ys k)"
    unfolding get_cve_import_content_def by (intro keeps_intros dir k)
  show "keeps (get_cve_update_content feeds y k)"
    unfolding get_cve_update_content_def by (intro keeps_intros k)
qed

lemma keeps_cve [keeps_intros]:
  "keeps (update_cve_repository num feeds y)" "keeps (import_cve num feeds y a b)"
proof -
  show "keeps (update_cve_repository num feeds y)"
    unfolding update_cve_repository_def by (intro keeps_intros) simp_all
  show "keeps (import_cve num feeds y a b)"
    unfolding import_cve_def
    by (rule keepsI, rule keepsD) (intro keeps_intros; simp)+
qed

lemma keeps_setup_main: "keeps (setup_main num feeds y u c a b)"
proof -
  have "keeps (update_repository num feeds y c)" "keeps (init_repository num feeds y c a b)"
    unfolding update_repository_def init_repository_def by (intro keeps_intros)+
  then show ?thesis
    unfolding keeps_def setup_main_def
    by (auto simp: Let_def db_typed_def[of "[]"] case_prod_beta split: sum.splits)
qed

text \<open>One call of the script, and any number of them.\<close>

definition repo_call :: "(real \<Rightarrow> string) \<Rightarrow> feeds \<Rightarrow> int \<Rightarrow> bool \<times> choice \<times> int \<times> int \<Rightarrow> repo \<Rightarrow> repo" where
  "repo_call num feeds this_year = (\<lambda>(update, c, start_year, end_year) s. snd (setup_main num feeds this_year update c start_year end_year s))"

interpretation cve_repo: component "repo_call num feeds y" "\<lambda>_ _. True" "\<lambda>s. db_typed (rp_db s)" for num feeds y
  by unfold_locales (auto simp: repo_call_def intro: keepsD[OF keeps_setup_main])

lemma cve_repo_run_ok: "cve_repo.run_ok num feeds y es s"
  by (induction es arbitrary: s) auto

definition empty_repo :: repo where
  "empty_repo = \<lparr>rp_db = [], rp_dir = []\<rparr>"


section \<open>An update is exact\<close>

definition row_id :: "(string \<times> sql_type) list \<Rightarrow> cell list \<Rightarrow> cell option" where
  "row_id cols = cell_of cols ''cve_id''"

definition row_year :: "(string \<times> sql_type) list \<Rightarrow> cell list \<Rightarrow> cell option" where
  "row_year cols = cell_of cols ''year''"

text \<open>The rows that inserting \<open>rows\<close> into an empty table stores.\<close>

definition stored_rows :: "(real \<Rightarrow> string) \<Rightarrow> (string \<times> sql_type) list \<Rightarrow> pyval list list \<Rightarrow> cell list list" where
  "stored_rows num cols rows = bind_rows num cols (filter (\<lambda>r. length r = length cols) (py_set rows))"

lemma remdups_map_inj: "inj f \<Longrightarrow> remdups (map f xs) = map f (remdups xs)"
  by (induction xs) (auto dest: injD)

lemma py_set_map_inj: "inj f \<Longrightarrow> py_set (map f xs) = map f (py_set xs)"
  by (simp add: py_set_def rev_map remdups_map_inj)

lemma row_typed_length: "row_typed cols r \<Longrightarrow> length r = length cols"
  by (auto simp: row_typed_def dest: list_all2_lengthD)

lemma stored_rows_values:
  assumes "list_all (row_typed cols) rs"
  shows "stored_rows num cols (map row_values rs) = py_set rs"
proof -
  have ok: "list_all (row_typed cols) (py_set rs)" using assms by (simp add: list_all_iff)
  then have "filter (\<lambda>r. length r = length cols) (map row_values (py_set rs)) = map row_values (py_set rs)"
    by (auto simp: filter_id_conv list_all_iff dest: row_typed_length)
  then show ?thesis
    unfolding stored_rows_def using ok by (simp add: py_set_map_inj[OF inj_row_values] bind_rows_values)
qed

definition hashable_rows :: "pyval list list \<Rightarrow> bool" where
  "hashable_rows rows \<longleftrightarrow> (\<forall>r \<in> set rows. list_all hashable r)"

lemma insert_into_table:
  assumes "hashable_rows rows" and "dget (rp_db s) n = Some t"
  shows "insert_into num cols n rows s = (Inr (), s\<lparr>rp_db := dput n (t\<lparr>t_rows := t_rows t @ stored_rows num cols rows\<rparr>) (rp_db s)\<rparr>)"
  using assms by (simp add: insert_into_def insert_rows_def hashable_rows_def stored_rows_def)

lemma insert_cells_table:
  assumes "list_all (row_typed cols) rs" and "dget (rp_db s) n = Some t"
  shows "insert_into num cols n (map row_values rs) s =
    (Inr (), s\<lparr>rp_db := dput n (t\<lparr>t_rows := t_rows t @ py_set rs\<rparr>) (rp_db s)\<rparr>)"
  using assms
  by (subst insert_into_table) (auto simp: hashable_rows_def hashable_row_values stored_rows_values)

lemma and_then_Inr: "f s = (Inr x, t) \<Longrightarrow> and_then f g s = g t"
  by (simp add: and_then_def)

lemma on_db_simps [simp]: "and_then (on_db h) g s = g (s\<lparr>rp_db := h (rp_db s)\<rparr>)" "on_db h s = (Inr (), s\<lparr>rp_db := h (rp_db s)\<rparr>)"
  by (simp_all add: and_then_def on_db_def)

lemma init_feeds_fresh:
  assumes "setup_cve_feeds_table cl = Inr rows" "hashable_rows rows" "dget (rp_db s) n = None"
  shows "init_cve_feeds_table num cl n s = (Inr (), s\<lparr>rp_db :=
    dput n \<lparr>t_fields = CVE_DB_FIELDS, t_rows = stored_rows num CVE_DB_FIELDS rows\<rparr> (rp_db s)\<rparr>)"
  using assms by (simp add: init_cve_feeds_table_def with_r_def create_def dmem_def insert_into_table)

lemma init_summaries_fresh:
  assumes "setup_cve_summary_table sl = Inr rows" "hashable_rows rows" "dget (rp_db s) n = None"
  shows "init_cve_summaries_table num sl n s = (Inr (), s\<lparr>rp_db :=
    dput n \<lparr>t_fields = CVE_SUMMARY_DB_FIELDS, t_rows = stored_rows num CVE_SUMMARY_DB_FIELDS rows\<rparr> (rp_db s)\<rparr>)"
  using assms by (simp add: init_cve_summaries_table_def with_r_def create_def dmem_def insert_into_table)

text \<open>Rows of another table with the same column values: the outdated and the relevant rows.\<close>

definition without_ids :: "(string \<times> sql_type) list \<Rightarrow> cell list list \<Rightarrow> (string \<times> sql_type) list \<Rightarrow> cell list list \<Rightarrow> cell list list" where
  "without_ids cols' new cols rs = filter (\<lambda>r. row_id cols r \<notin> row_id cols' ` set new) rs"

definition of_years :: "(string \<times> sql_type) list \<Rightarrow> cell list list \<Rightarrow> (string \<times> sql_type) list \<Rightarrow> cell list list \<Rightarrow> cell list list" where
  "of_years cols' old cols rs = filter (\<lambda>r. row_year cols r \<in> row_year cols' ` set old) rs"

lemma delete_outdated_eq:
  assumes "dget db n = Some t" "dget db m = Some u"
  shows "delete_outdated_feeds n m db = dput n (t\<lparr>t_rows := without_ids (t_fields u) (t_rows u) (t_fields t) (t_rows t)\<rparr>) db"
  using assms by (simp add: delete_outdated_feeds_def without_ids_def row_id_def column_of_def)

lemma extract_relevant_eq:
  assumes "dget db n = Some t" "dget db m = Some u"
  shows "extract_relevant_feeds n m db = of_years (t_fields u) (t_rows u) (t_fields t) (t_rows t)"
  using assms by (simp add: extract_relevant_feeds_def of_years_def row_year_def column_of_def)

lemma of_years_typed: "list_all P rs \<Longrightarrow> list_all P (of_years c o' d rs)"
  by (simp add: of_years_def list_all_iff)

lemma stored_rows_typed: "list_all (row_typed cols) (stored_rows num cols rows)"
  unfolding stored_rows_def by (rule bind_rows_typed) simp

abbreviation feed_table :: "cell list list \<Rightarrow> table" where
  "feed_table rs \<equiv> \<lparr>t_fields = CVE_DB_FIELDS, t_rows = rs\<rparr>"

abbreviation summary_table :: "cell list list \<Rightarrow> table" where
  "summary_table rs \<equiv> \<lparr>t_fields = CVE_SUMMARY_DB_FIELDS, t_rows = rs\<rparr>"

lemma update_cve_feeds_eq:
  assumes "dget (rp_db s) ''cve_table'' = Some (feed_table old)" "dget (rp_db s) ''temp_feeds'' = Some (feed_table new)"
    and "list_all (row_typed CVE_DB_FIELDS) new"
  shows "update_cve_feeds num s = (Inr (), s\<lparr>rp_db := dput ''cve_table'' (feed_table
    (without_ids CVE_DB_FIELDS new CVE_DB_FIELDS old @ py_set (of_years CVE_DB_FIELDS old CVE_DB_FIELDS new))) (rp_db s)\<rparr>)"
  using assms
  by (simp add: update_cve_feeds_def delete_outdated_eq extract_relevant_eq insert_cells_table of_years_typed)

definition rows_of :: "string \<Rightarrow> sqlite \<Rightarrow> cell list list" where
  "rows_of n db = (case dget db n of None \<Rightarrow> [] | Some t \<Rightarrow> t_rows t)"

lemma update_cve_summaries_eq:
  fixes num :: "real \<Rightarrow> string" and s :: repo
  defines "u \<equiv> update_cve_summaries num s"
  assumes "db_typed (rp_db s)" "dget (rp_db s) ''cve_table'' = Some (feed_table feeds)"
    "dget (rp_db s) ''temp_feeds'' = Some (feed_table newf)" "dget (rp_db s) ''temp_sum'' = Some (summary_table news)"
  shows "fst u = Inr () \<and> rp_dir (snd u) = rp_dir s \<and> dget (rp_db (snd u)) = (dget (rp_db s))
      (''cve_table'' \<mapsto> feed_table (without_ids CVE_SUMMARY_DB_FIELDS news CVE_DB_FIELDS feeds),
       ''summary_table'' \<mapsto> summary_table (without_ids CVE_DB_FIELDS newf CVE_SUMMARY_DB_FIELDS
          (without_ids CVE_SUMMARY_DB_FIELDS news CVE_SUMMARY_DB_FIELDS (rows_of ''summary_table'' (rp_db s)))
        @ py_set (of_years CVE_DB_FIELDS feeds CVE_SUMMARY_DB_FIELDS news)))"
proof -
  have news: "list_all (row_typed CVE_SUMMARY_DB_FIELDS) news" using db_typedD(2)[OF assms(2,5)] by simp
  show ?thesis
  proof (cases "dget (rp_db s) ''summary_table''")
    case None
    then show ?thesis using assms(3-5) news
      by (simp add: u_def update_cve_summaries_def table_exists_def dmem_def create_def delete_outdated_eq extract_relevant_eq
          insert_cells_table of_years_typed rows_of_def without_ids_def[of _ _ _ "[]"] fun_eq_iff)
  next
    case (Some t)
    then have t: "t = summary_table (t_rows t)" using db_typedD(1)[OF assms(2) Some] by (cases t) simp
    show ?thesis using assms(3-5) news Some
      by (subst (asm) t) (simp add: u_def update_cve_summaries_def table_exists_def dmem_def delete_outdated_eq extract_relevant_eq
          insert_cells_table of_years_typed rows_of_def fun_eq_iff)
  qed
qed

lemma set_without_ids: "set (without_ids c' new c rs) = {r \<in> set rs. row_id c r \<notin> row_id c' ` set new}"
  by (auto simp: without_ids_def)

lemma set_of_years: "set (of_years c' old c rs) = {r \<in> set rs. row_year c r \<in> row_year c' ` set old}"
  by (auto simp: of_years_def)

text \<open>The rows of the table of feeds after \<open>update_cve_feeds\<close>.\<close>

definition fed_rows :: "cell list list \<Rightarrow> cell list list \<Rightarrow> cell list list" where
  "fed_rows old new = without_ids CVE_DB_FIELDS new CVE_DB_FIELDS old @ py_set (of_years CVE_DB_FIELDS old CVE_DB_FIELDS new)"

lemma update_reaches_tables:
  assumes "table_exists ''cve_table'' (rp_db s)" "feeds (CVE_URL ''modified'') = Some files"
    and "get_cve_json_files (dupdate (dupdate (rp_dir s) files) files) = f # fs" "extract_cve f = Inr (cl, sl)"
  shows "update_cve_repository num feeds y s =
    and_then (init_cve_feeds_table num cl ''temp_feeds'')
         (and_then (update_cve_feeds num)
         (and_then (if sl = [] then on_db (\<lambda>db. db) else
            and_then (init_cve_summaries_table num sl ''temp_sum'')
           (and_then (update_cve_summaries num) (on_db (drop_table ''temp_sum''))))
          (on_db (drop_table ''temp_feeds'')))) (s\<lparr>rp_dir := dupdate (dupdate (rp_dir s) files) files\<rparr>)"
  using assms
  by (simp add: update_cve_repository_def download_cve_def process_url_def with_dir_def get_cve_update_content_def with_r_def)

lemma update_feeds_step:
  fixes num :: "real \<Rightarrow> string"
  assumes "db_typed (rp_db s)" "dget (rp_db s) ''cve_table'' = Some t" "dget (rp_db s) ''temp_feeds'' = None"
    and "setup_cve_feeds_table cl = Inr rows" "hashable_rows rows"
  defines "new \<equiv> stored_rows num CVE_DB_FIELDS rows"
  shows "and_then (init_cve_feeds_table num cl ''temp_feeds'') (and_then (update_cve_feeds num) k) s =
    k (s\<lparr>rp_db := dput ''cve_table'' (feed_table (fed_rows (t_rows t) new)) (dput ''temp_feeds'' (feed_table new) (rp_db s))\<rparr>)"
proof -
  have t: "t = feed_table (t_rows t)" using db_typedD(1)[OF assms(1,2)] by (cases t) simp
  let ?s = "s\<lparr>rp_db := dput ''temp_feeds'' (feed_table new) (rp_db s)\<rparr>"
  have "update_cve_feeds num ?s = (Inr (), ?s\<lparr>rp_db := dput ''cve_table'' (feed_table (fed_rows (t_rows t) new)) (rp_db ?s)\<rparr>)"
    using update_cve_feeds_eq[of ?s "t_rows t" new num] assms(2) t
    by (simp add: fed_rows_def new_def stored_rows_typed)
  then show ?thesis
    using init_feeds_fresh[OF assms(4,5,3)] by (simp add: and_then_def new_def)
qed

text \<open>C28: An update of the vulnerability database is exact. Given a feed of modified entries that
  parses, it replaces the rows of every CVE of the feed by the rows of the feed, keeps those
  of all other CVEs, adds only entries of the years the database covers, moves entries without
  CPEs to the table of summaries, and drops its temporary tables. When the feed has no such
  entry the summaries are left as they are, even those of CVEs that now have CPEs.
\<close>

theorem cve_update_exact:
  assumes "db_typed (rp_db s)" "dget (rp_db s) ''cve_table'' = Some t"
    and "dget (rp_db s) ''temp_feeds'' = None" "dget (rp_db s) ''temp_sum'' = None"
    and "feeds (CVE_URL ''modified'') = Some files"
    and "get_cve_json_files (dupdate (dupdate (rp_dir s) files) files) = f # fs" "extract_cve f = Inr (cl, sl)"
    and "setup_cve_feeds_table cl = Inr rows" "hashable_rows rows"
    and "setup_cve_summary_table sl = Inr srows" "hashable_rows srows"
    and "new = stored_rows num CVE_DB_FIELDS rows" "news = stored_rows num CVE_SUMMARY_DB_FIELDS srows"
  shows "\<exists>s'. update_cve_repository num feeds this_year s = (Inr (), s')
    \<and> \<not> table_exists ''temp_feeds'' (rp_db s') \<and> \<not> table_exists ''temp_sum'' (rp_db s')
    \<and> set (rows_of ''cve_table'' (rp_db s')) =
        {r \<in> set (t_rows t). row_id CVE_DB_FIELDS r \<notin> row_id CVE_DB_FIELDS ` set new \<union> row_id CVE_SUMMARY_DB_FIELDS ` set news}
        \<union> {r \<in> set new. row_year CVE_DB_FIELDS r \<in> row_year CVE_DB_FIELDS ` set (t_rows t)
             \<and> row_id CVE_DB_FIELDS r \<notin> row_id CVE_SUMMARY_DB_FIELDS ` set news}
    \<and> (if sl = [] then rows_of ''summary_table'' (rp_db s') = rows_of ''summary_table'' (rp_db s)
       else set (rows_of ''summary_table'' (rp_db s')) =
        {r \<in> set (rows_of ''summary_table'' (rp_db s)).
           row_id CVE_SUMMARY_DB_FIELDS r \<notin> row_id CVE_DB_FIELDS ` set new \<union> row_id CVE_SUMMARY_DB_FIELDS ` set news}
        \<union> {r \<in> set news. row_year CVE_SUMMARY_DB_FIELDS r \<in> row_year CVE_DB_FIELDS ` set (fed_rows (t_rows t) new)})"
proof -
  let ?dir = "dupdate (dupdate (rp_dir s) files) files" and ?fed = "fed_rows (t_rows t) new"
  let ?s1 = "s\<lparr>rp_dir := ?dir, rp_db := dput ''cve_table'' (feed_table ?fed) (dput ''temp_feeds'' (feed_table new) (rp_db s))\<rparr>"
  have "update_cve_repository num feeds this_year s = and_then (if sl = [] then on_db (\<lambda>db. db) else
            and_then (init_cve_summaries_table num sl ''temp_sum'')
           (and_then (update_cve_summaries num) (on_db (drop_table ''temp_sum''))))
          (on_db (drop_table ''temp_feeds'')) ?s1"
    using update_feeds_step[of "s\<lparr>rp_dir := ?dir\<rparr>" t cl rows num] assms(1-3,8,9)
      update_reaches_tables[of s feeds files f fs cl sl num this_year] assms(5-7)
    by (simp add: table_exists_def dmem_def assms(12))
  note run = this
  show ?thesis
  proof (cases "sl = []")
    case True
    then have "news = []" using assms(10,13) by (auto simp: setup_cve_summary_table_def stored_rows_def)
    with True run assms(4) show ?thesis
      by (auto simp: table_exists_def dmem_def drop_table_def rows_of_def fed_rows_def set_without_ids set_of_years)
  next
    case False
    let ?s2 = "?s1\<lparr>rp_db := dput ''temp_sum'' (summary_table news) (rp_db ?s1)\<rparr>"
    have init: "init_cve_summaries_table num sl ''temp_sum'' ?s1 = (Inr (), ?s2)"
      using init_summaries_fresh[OF assms(10,11), of ?s1 "''temp_sum''" num] assms(4,13) by simp
    have typed: "db_typed (rp_db ?s2)"
      using assms(1,12,13) db_typedD(2)[OF assms(1,2)] db_typedD(1)[OF assms(1,2)]
      by (auto intro!: typed_update simp: stored_rows_typed fed_rows_def without_ids_def of_years_def)
         (auto simp: list_all_iff dest: stored_rows_typed[unfolded list_all_iff, rule_format])
    define u where "u = update_cve_summaries num ?s2"
    have get: "dget (rp_db ?s2) ''cve_table'' = Some (feed_table ?fed)" "dget (rp_db ?s2) ''temp_feeds'' = Some (feed_table new)"
      "dget (rp_db ?s2) ''temp_sum'' = Some (summary_table news)" by simp_all
    have u: "fst u = Inr ()" "dget (rp_db (snd u)) = (dget (rp_db ?s2))
      (''cve_table'' \<mapsto> feed_table (without_ids CVE_SUMMARY_DB_FIELDS news CVE_DB_FIELDS ?fed),
       ''summary_table'' \<mapsto> summary_table (without_ids CVE_DB_FIELDS new CVE_SUMMARY_DB_FIELDS
          (without_ids CVE_SUMMARY_DB_FIELDS news CVE_SUMMARY_DB_FIELDS (rows_of ''summary_table'' (rp_db ?s2)))
        @ py_set (of_years CVE_DB_FIELDS ?fed CVE_SUMMARY_DB_FIELDS news)))"
      using update_cve_summaries_eq[OF typed, of ?fed new news num] get unfolding u_def by blast+
    have "update_cve_repository num feeds this_year s =
      (Inr (), (snd u)\<lparr>rp_db := drop_table ''temp_feeds'' (drop_table ''temp_sum'' (rp_db (snd u)))\<rparr>)"
      using run False init u(1) by (cases u) (simp add: and_then_def[of "init_cve_summaries_table _ _ _"]
        and_then_def[of "update_cve_summaries _"] and_then_def[of "and_then _ _"] u_def)
    then show ?thesis using False u(2)
      by (auto simp: table_exists_def dmem_def drop_table_def rows_of_def fed_rows_def set_without_ids set_of_years)
  qed
qed

text \<open>A database with one row of a CVE, and a feed with a new row of the same CVE.\<close>

definition ex_uri :: string where
  "ex_uri = ''cpe:2.3:a:v:p:1.0:*:*:*:*:*:*:*''"

definition ex_feed :: pyval where
  "ex_feed = PDict [(''CVE_Items'', PList [PDict [
     (''cve'', PDict [(''CVE_data_meta'', PDict [(''ID'', PStr ''CVE-2020-1'')]),
        (''description'', PDict [(''description_data'', PList [PDict [(''value'', PStr ''x'')]])])]),
     (''configurations'', PDict [(''nodes'', PList [PDict [(''cpe_match'', PList [PDict
        [(''cpe23Uri'', PStr ex_uri), (''vulnerable'', PBool True), (''versionEndIncluding'', PStr ''2.0'')]])]])])]])]"

definition ex_row :: "string \<Rightarrow> string \<Rightarrow> cell list" where
  "ex_row v end_incl = [SText ''CVE-2020-1'', SInt 2020, SText ex_uri, SText ''N/A'', SText ''N/A'', SText ''a'',
     SText ''v'', SText ''p'', SText v] @ replicate 7 (SText ''ANY'') @ [SText [], SText [], SText end_incl, SText []]"

definition ex_repo :: repo where
  "ex_repo = \<lparr>rp_db = [(''cve_table'', feed_table [ex_row ''0.9'' []])], rp_dir = []\<rparr>"

definition ex_feeds :: feeds where
  "ex_feeds url = (if url = CVE_URL ''modified'' then Some [(''nvdcve-1.1-modified.json'', JsonFile ex_feed)] else None)"

lemma ex_extract: "extract_cve (JsonFile ex_feed) = Inr ([\<lparr>ce_cve_id = PStr ''CVE-2020-1'', ce_impact = [],
    ce_cpe_list = [[PStr ex_uri, PStr [], PStr [], PStr ''2.0'', PStr []]]\<rparr>], [])"
  by code_simp

lemma ex_attributes: "cpe_attributes ex_uri = [''a'', ''v'', ''p'', ''1'' @ [CHR 0x5C] @ ''.0''] @ replicate 7 ''ANY''"
  by code_simp

definition ex_new_row :: "cell list" where
  "ex_new_row = ex_row (''1'' @ [CHR 0x5C] @ ''.0'') ''2.0''"

lemma ex_setup: "setup_cve_feeds_table [\<lparr>ce_cve_id = PStr ''CVE-2020-1'', ce_impact = [],
    ce_cpe_list = [[PStr ex_uri, PStr [], PStr [], PStr ''2.0'', PStr []]]\<rparr>] = Inr [map PStr
    ([''CVE-2020-1'', ''2020'', ex_uri, ''N/A'', ''N/A''] @ cpe_attributes ex_uri @ [[], [], ''2.0'', []])]"
  by (simp add: setup_cve_feeds_table_def cve_feed_row_def cve_year_def score_of_def)

lemma ex_stored: "stored_rows num CVE_DB_FIELDS [map PStr
    ([''CVE-2020-1'', ''2020'', ex_uri, ''N/A'', ''N/A''] @ cpe_attributes ex_uri @ [[], [], ''2.0'', []])] = [ex_new_row]"
proof -
  have "int_text ''2020'' = Some 2020" by (simp add: int_text_def is_digit_def)
  then show ?thesis
    by (simp add: stored_rows_def bind_row_def bind_cell_def CVE_DB_FIELDS_def ex_attributes ex_new_row_def ex_row_def Let_def numeral_eq_Suc)
qed

theorem cve_update_exact_witness:
  "\<exists>s'. update_cve_repository (\<lambda>_. []) ex_feeds 2024 ex_repo = (Inr (), s') \<and>
     set (rows_of ''cve_table'' (rp_db s')) = {ex_new_row}"
proof -
  have typed: "db_typed (rp_db ex_repo)"
    by (simp add: ex_repo_def db_typed_def row_typed_def CVE_DB_FIELDS_def ex_row_def numeral_eq_Suc)
  have dirs: "get_cve_json_files (dupdate (dupdate (rp_dir ex_repo) [(''nvdcve-1.1-modified.json'', JsonFile ex_feed)])
      [(''nvdcve-1.1-modified.json'', JsonFile ex_feed)]) = JsonFile ex_feed # []"
    by (simp add: ex_repo_def dupdate_def get_cve_json_files_def files_like_def suffix_def)
  have ids: "row_id CVE_DB_FIELDS (ex_row v b) = Some (SText ''CVE-2020-1'')" "row_year CVE_DB_FIELDS (ex_row v b) = Some (SInt 2020)" for v b
    by (simp_all add: row_id_def row_year_def cell_of_def CVE_DB_FIELDS_def ex_row_def)
  have rep: "list_all hashable (replicate 7 (PStr ''ANY''))" by (simp add: list_all_length)
  have "\<exists>s'. update_cve_repository (\<lambda>_. []) ex_feeds 2024 ex_repo = (Inr (), s') \<and>
    set (rows_of ''cve_table'' (rp_db s')) =
        {r \<in> set [ex_row ''0.9'' []]. row_id CVE_DB_FIELDS r \<notin> row_id CVE_DB_FIELDS ` set [ex_new_row] \<union> row_id CVE_SUMMARY_DB_FIELDS ` set []}
        \<union> {r \<in> set [ex_new_row]. row_year CVE_DB_FIELDS r \<in> row_year CVE_DB_FIELDS ` set [ex_row ''0.9'' []]
             \<and> row_id CVE_DB_FIELDS r \<notin> row_id CVE_SUMMARY_DB_FIELDS ` set []}"
    using cve_update_exact[where s = ex_repo and feeds = ex_feeds and num = "\<lambda>_. []" and this_year = 2024
        and t = "feed_table [ex_row ''0.9'' []]" and news = "[]" and srows = "[]",
        OF typed _ _ _ _ dirs ex_extract ex_setup _ _ _ ex_stored[symmetric]]
    by (simp add: ex_repo_def ex_feeds_def hashable_rows_def setup_cve_summary_table_def stored_rows_def ex_attributes rep) blast
  then show ?thesis by (auto simp: ids ex_new_row_def)
qed

text \<open>Importing years the database already covers imports all of them once more.\<close>

lemma covered_years_are_imported_again:
  "set [start_year..end_year] \<subseteq> set (get_years_from_database db) \<Longrightarrow> year_selection start_year end_year db = [start_year..end_year]"
  by (auto simp: year_selection_def overlap_def Let_def filter_empty_conv filter_id_conv)

end
