(* ===== verification/CveLookup.thy ===== *)
theory CveLookup
  imports CveRepository AnalysisPlugin
begin

text \<open>
  The lookup of vulnerabilities (\<open>src/plugins/analysis/cve_lookup/code/cve_lookup.py\<close>): from
  the software components found in a file to the CVEs that match a product of the CPE
  dictionary, by the version bounds of the CVE or by the words of its summary.

  Parsing a version (\<open>packaging.version.parse\<close>) is the parameter \<open>parse\<close>: \<open>None\<close> where it
  raises \<open>InvalidVersion\<close>, and versions are totally ordered, as PEP 440 has it. The
  Levenshtein distance is not modelled: with \<open>MAX_LEVENSHTEIN_DISTANCE = 0\<close> terms are
  compared for equality.
\<close>

record cpe_product =
  vendor_name :: string
  product_name :: string
  version_number :: string

record cve_db_entry =
  e_cve_id :: string
  e_vendor :: string
  e_product_name :: string
  e_version :: string
  cvss_v2_score :: string
  cvss_v3_score :: string
  version_start_including :: string
  version_start_excluding :: string
  version_end_including :: string
  version_end_excluding :: string

definition MAX_TERM_SPREAD :: nat where
  "MAX_TERM_SPREAD = 3"

definition terms_match :: "string \<Rightarrow> string \<Rightarrow> bool" where
  "terms_match requested_term source_term \<longleftrightarrow> requested_term = source_term"

section \<open>Versions\<close>

definition DOTTED_VERSION_REGEX :: regex where
  "DOTTED_VERSION_REGEX = (let word = plus_re (RChar (\<lambda>c. is_alnum c \<or> c = CHR ''-'')) in
     seqs [word, plus_re (seqs [RChar (\<lambda>c. c = CHR 0x5C), RChar (\<lambda>c. c = CHR ''.''), word]), REnd])"

definition VALID_VERSION_REGEX :: regex where
  "VALID_VERSION_REGEX = (let ds = plus_re (RChar is_digit); l = lit in
     seqs [opt_re (l ''v''), opt_re (RSeq ds (l ''!'')), ds, RStar (RSeq (l ''.'') ds),
       opt_re (seqs [opt_re (RChar (\<lambda>c. c \<in> {CHR ''.'', CHR ''-''})),
         opt_re (alts [RSeq (l ''a'') (opt_re (l ''lpha'')), RSeq (l ''b'') (opt_re (l ''eta'')), l ''c'', l ''dev'', l ''post'',
           RSeq (l ''pre'') (opt_re (l ''view'')), l ''r'', l ''rc'']), ds])])"

fun replace_first :: "char \<Rightarrow> char \<Rightarrow> string \<Rightarrow> string" where
  "replace_first a b [] = []"
| "replace_first a b (c # cs) = (if c = a then b # cs else c # replace_first a b cs)"

definition fix_version :: "string \<Rightarrow> string" where
  "fix_version version = replace_char (CHR ''_'') ''-''
     (replace_first (CHR '':'') (CHR ''!'') (replace_char (CHR ''~'') ''-'' (lower version)))"

definition strip_separators :: "string \<Rightarrow> string" where
  "strip_separators s = dropWhile (\<lambda>c. c \<in> {CHR ''.'', CHR ''_'', CHR ''-''}) s"

definition coerce_version :: "(string \<Rightarrow> 'v option) \<Rightarrow> string \<Rightarrow> 'v option" where
  "coerce_version parse version = (case parse version of
      Some v \<Rightarrow> Some v
    | None \<Rightarrow> let fixed_version = fix_version version in
       (case parse fixed_version of
          Some v \<Rightarrow> Some v
        | None \<Rightarrow> (case re_match VALID_VERSION_REGEX fixed_version of
            Some m \<Rightarrow>
              let valid_version = matched fixed_version m;
                  rest = strip_separators (filter (\<lambda>c. is_word c \<or> c \<in> {CHR ''.'', CHR ''-''}) (drop (length valid_version) fixed_version))
              in parse (valid_version @ ''+'' @ rest)
          | None \<Rightarrow> parse (hd (re_split (RChar (\<lambda>c. \<not> (c \<in> {CHR ''v'', CHR ''.''} \<or> is_digit c))) fixed_version)))))"

definition compare_version :: "(string \<Rightarrow> 'v option) \<Rightarrow> string \<Rightarrow> string \<Rightarrow> ('v \<Rightarrow> 'v \<Rightarrow> bool) \<Rightarrow> bool" where
  "compare_version parse version1 version2 comp_operator =
     (case (coerce_version parse version1, coerce_version parse version2) of
        (Some v1, Some v2) \<Rightarrow> comp_operator v1 v2
      | _ \<Rightarrow> False)"

definition versions_match :: "(string \<Rightarrow> 'v::linorder option) \<Rightarrow> string \<Rightarrow> cve_db_entry \<Rightarrow> bool" where
  "versions_match parse cpe_version e =
     (list_all (\<lambda>(version_boundary, cmp). \<not> (version_boundary \<noteq> [] \<and> \<not> compare_version parse version_boundary cpe_version cmp))
        [(version_start_including e, (\<le>)), (version_start_excluding e, (<)),
         (version_end_including e, (\<ge>)), (version_end_excluding e, (>))] \<and>
      (let cve_version = unescape (e_version e) in
       \<not> (cve_version \<notin> {''ANY'', ''N/A''} \<and> \<not> compare_version parse cve_version cpe_version (=))))"

text \<open>The sign for "less or equal" in its UTF-8 encoding.\<close>

definition LE_SIGN :: string where
  "LE_SIGN = [CHR 0xE2, CHR 0x89, CHR 0xA4]"

definition build_version_string :: "cve_db_entry \<Rightarrow> string" where
  "build_version_string e =
     (if version_start_including e = [] \<and> version_start_excluding e = [] \<and> version_end_including e = [] \<and> version_end_excluding e = []
      then unescape (e_version e)
      else let r = (if version_start_including e \<noteq> [] then version_start_including e @ '' '' @ LE_SIGN @ '' version''
                    else if version_start_excluding e \<noteq> [] then version_start_excluding e @ '' < version''
                    else ''version'')
           in if version_end_including e \<noteq> [] then r @ '' '' @ LE_SIGN @ '' '' @ version_end_including e
              else if version_end_excluding e \<noteq> [] then r @ '' < '' @ version_end_excluding e
              else r)"

section \<open>The product that is looked up\<close>

definition is_digits :: "string \<Rightarrow> bool" where
  "is_digits s \<longleftrightarrow> s \<noteq> [] \<and> list_all is_digit s"

definition generate_search_terms :: "string \<Rightarrow> string list" where
  "generate_search_terms name =
     (let terms = split_on (CHR '' '') name; n = length terms;
          product_terms = concat (map (\<lambda>i. map (\<lambda>j. lower (join_with ''_'' (take (j - i) (drop i terms)))) [Suc i..<Suc n]) [0..<Suc n])
      in filter (\<lambda>t. length t > 1 \<and> \<not> is_digits t) product_terms)"

definition is_valid_dotted_version :: "string \<Rightarrow> bool" where
  "is_valid_dotted_version version \<longleftrightarrow> re_match DOTTED_VERSION_REGEX version \<noteq> None"

definition find_cpe_product_with_version :: "cpe_product list \<Rightarrow> string \<Rightarrow> cpe_product result" where
  "find_cpe_product_with_version cpe_matches v =
     (case filter (\<lambda>p. version_number p = v) cpe_matches of p # _ \<Rightarrow> Inr p | [] \<Rightarrow> Inl IndexError)"

fun index_of :: "'a \<Rightarrow> 'a list \<Rightarrow> nat result" where
  "index_of x [] = Inl ValueError"
| "index_of x (y # ys) = (if y = x then Inr 0 else map_r Suc (index_of x ys))"

definition find_next_closest_version :: "string list \<Rightarrow> string \<Rightarrow> string result" where
  "find_next_closest_version sorted_version_list requested_version =
     bind_r (index_of requested_version sorted_version_list) (\<lambda>i.
       if i = 0 then (if 1 < length sorted_version_list then Inr (sorted_version_list ! 1) else Inl IndexError)
       else Inr (sorted_version_list ! (i - 1)))"

text \<open>\<open>list.sort\<close> with a key that may raise \<open>InvalidVersion\<close>, a \<open>ValueError\<close>.\<close>

definition sort_versions :: "(string \<Rightarrow> 'v::linorder option) \<Rightarrow> string list \<Rightarrow> string list result" where
  "sort_versions parse vs =
     (if \<forall>v \<in> set vs. coerce_version parse (unescape v) \<noteq> None
      then Inr (sort_key (\<lambda>v. the (coerce_version parse (unescape v))) vs) else Inl ValueError)"

definition find_matching_cpe_product ::
  "(string \<Rightarrow> 'v::linorder option) \<Rightarrow> cpe_product list \<Rightarrow> string \<Rightarrow> cpe_product result" where
  "find_matching_cpe_product parse cpe_matches requested_version =
     (if is_digits requested_version \<or> is_valid_dotted_version requested_version then
        (let version_numbers = filter (\<lambda>v. v \<notin> {''N/A'', ''ANY''}) (map version_number cpe_matches) in
         if requested_version \<in> set version_numbers then find_cpe_product_with_version cpe_matches requested_version
         else bind_r (sort_versions parse (version_numbers @ [requested_version])) (\<lambda>sorted_versions.
              bind_r (find_next_closest_version sorted_versions requested_version) (\<lambda>v.
                find_cpe_product_with_version cpe_matches v)))
      else if requested_version = ''ANY'' then find_cpe_product_with_version cpe_matches ''ANY''
      else (case cpe_matches of p # _ \<Rightarrow> Inr p | [] \<Rightarrow> Inl IndexError))"

section \<open>Queries\<close>

definition text_cell :: "(string \<times> sql_type) list \<Rightarrow> string \<Rightarrow> cell list \<Rightarrow> string" where
  "text_cell cols f r = (case cell_of cols f r of Some (SText s) \<Rightarrow> s | _ \<Rightarrow> [])"

text \<open>\<open>QUERIES['cpe_lookup']\<close>, \<open>QUERIES['cve_lookup']\<close> and \<open>QUERIES['summary_lookup']\<close>.\<close>

definition cpe_lookup :: "sqlite \<Rightarrow> (string \<times> string \<times> string) list" where
  "cpe_lookup db = remdups (map (\<lambda>r. let c = (\<lambda>f. text_cell CPE_DB_FIELDS f r) in (c ''vendor'', c ''product'', c ''version''))
     (fetch_multiple ''cpe_table'' db))"

definition cve_entry_of_row :: "cell list \<Rightarrow> cve_db_entry" where
  "cve_entry_of_row r = (let c = (\<lambda>f. text_cell CVE_DB_FIELDS f r) in
     \<lparr>e_cve_id = c ''cve_id'', e_vendor = c ''vendor'', e_product_name = c ''product'', e_version = c ''version'',
      cvss_v2_score = c ''cvss_v2_score'', cvss_v3_score = c ''cvss_v3_score'',
      version_start_including = c ''version_start_including'', version_start_excluding = c ''version_start_excluding'',
      version_end_including = c ''version_end_including'', version_end_excluding = c ''version_end_excluding''\<rparr>)"

definition cve_lookup :: "sqlite \<Rightarrow> cve_db_entry list" where
  "cve_lookup db = map cve_entry_of_row (fetch_multiple ''cve_table'' db)"

definition summary_lookup :: "sqlite \<Rightarrow> (string \<times> string \<times> string \<times> string) list" where
  "summary_lookup db = map (\<lambda>r. let c = (\<lambda>f. text_cell CVE_SUMMARY_DB_FIELDS f r) in
     (c ''cve_id'', c ''summary'', c ''cvss_v2_score'', c ''cvss_v3_score'')) (fetch_multiple ''summary_table'' db)"

definition match_cpe :: "sqlite \<Rightarrow> string list \<Rightarrow> cpe_product list" where
  "match_cpe db product_search_terms = py_set (concat (map (\<lambda>(v, p, n).
     concat (map (\<lambda>t. if terms_match t p then [\<lparr>vendor_name = v, product_name = p, version_number = n\<rparr>] else [])
       product_search_terms)) (cpe_lookup db)))"

section \<open>Matching CVEs\<close>

type_synonym cve_scores = "(string, string) dict"

definition product_matches_cve :: "(string \<Rightarrow> 'v::linorder option) \<Rightarrow> cpe_product \<Rightarrow> cve_db_entry \<Rightarrow> bool" where
  "product_matches_cve parse p e \<longleftrightarrow>
     terms_match (vendor_name p) (e_vendor e) \<and> terms_match (product_name p) (e_product_name e)
     \<and> versions_match parse (unescape (version_number p)) e"

definition search_cve :: "(string \<Rightarrow> 'v::linorder option) \<Rightarrow> sqlite \<Rightarrow> cpe_product \<Rightarrow> (string, cve_scores) dict" where
  "search_cve parse db p = fold (\<lambda>e result. if product_matches_cve parse p e
     then dput (e_cve_id e) [(''score2'', cvss_v2_score e), (''score3'', cvss_v3_score e), (''cpe_version'', build_version_string e)] result
     else result) (cve_lookup db) []"

definition remaining_words_present :: "string list \<Rightarrow> string list \<Rightarrow> bool" where
  "remaining_words_present word_list words = list_all (\<lambda>(w1, w2). terms_match w1 w2) (zip (take (length words) word_list) words)"

fun find_sequence :: "nat list \<Rightarrow> string list \<Rightarrow> string \<Rightarrow> string list \<Rightarrow> bool" where
  "find_sequence [] word_list w ws = False"
| "find_sequence (i # is) word_list w ws =
     (if terms_match (word_list ! i) w then remaining_words_present (drop (Suc i) word_list) ws
      else find_sequence is word_list w ws)"

definition word_sequence_is_in_word_list :: "string list \<Rightarrow> string list \<Rightarrow> bool" where
  "word_sequence_is_in_word_list word_list word_sequence =
     (if length word_list < length word_sequence then False
      else (case word_sequence of
          [] \<Rightarrow> False
        | w # ws \<Rightarrow> find_sequence [0..<min MAX_TERM_SPREAD (length word_list + 1 - length word_sequence)] word_list w ws))"

definition product_is_mentioned_in_summary :: "cpe_product \<Rightarrow> string \<Rightarrow> bool" where
  "product_is_mentioned_in_summary p summary =
     (let word_list = split_on (CHR '' '') summary;
          vendor = hd (split_on (CHR ''_'') (vendor_name p));
          name_components = split_on (CHR ''_'') (product_name p)
      in list_ex (\<lambda>i. terms_match vendor (lower (word_list ! i)) \<and>
           word_sequence_is_in_word_list (drop (Suc i) word_list) name_components) [0..<length word_list])"

definition search_cve_summary :: "sqlite \<Rightarrow> cpe_product \<Rightarrow> (string, cve_scores) dict" where
  "search_cve_summary db p = fold (\<lambda>(cve_id, summary, s2, s3) result. if product_is_mentioned_in_summary p summary
     then dput cve_id [(''score2'', s2), (''score3'', s3)] result else result) (summary_lookup db) []"

definition look_up_vulnerabilities ::
  "(string \<Rightarrow> 'v::linorder option) \<Rightarrow> sqlite \<Rightarrow> string \<Rightarrow> string \<Rightarrow> (string, cve_scores) dict option result" where
  "look_up_vulnerabilities parse db name requested_version =
     (let product_terms = replace_characters_and_wildcards (generate_search_terms name);
          version = replace_attribute requested_version;
          matched_cpe = match_cpe db product_terms
      in if matched_cpe = [] then Inr None
         else (case find_matching_cpe_product parse matched_cpe version of
             Inl IndexError \<Rightarrow> Inr None
           | Inl e \<Rightarrow> Inl e
           | Inr p \<Rightarrow> Inr (Some (dupdate (search_cve parse db p) (search_cve_summary db p)))))"

section \<open>The analysis plugin\<close>

text \<open>\<open>str.split()\<close>: the maximal runs of characters that are no white space.\<close>

fun split_ws_aux :: "string \<Rightarrow> string \<Rightarrow> string list" where
  "split_ws_aux w [] = (if w = [] then [] else [rev w])"
| "split_ws_aux w (c # cs) = (if is_space c then (if w = [] then [] else [rev w]) @ split_ws_aux [] cs else split_ws_aux (c # w) cs)"

definition split_ws :: "string \<Rightarrow> string list" where
  "split_ws s = split_ws_aux [] s"

definition split_component :: "string \<Rightarrow> (string \<times> string) result" where
  "split_component software = (case split_ws software of
      [x] \<Rightarrow> Inr (x, ''ANY'')
    | [] \<Rightarrow> Inl IndexError
    | parts \<Rightarrow> Inr (join_with '' '' (butlast parts), last parts))"

text \<open>\<open>float\<close> of a score as it is written in the feeds.\<close>

definition py_decimal :: "string \<Rightarrow> real result" where
  "py_decimal s =
     (let num = (\<lambda>ds. foldl (\<lambda>n c. 10 * n + (of_char c - 48)) (0::real) ds) in
      case split_on (CHR ''.'') s of
        [a] \<Rightarrow> if is_digits a then Inr (num a) else Inl ValueError
      | [a, b] \<Rightarrow> if list_all is_digit (a @ b) \<and> a @ b \<noteq> [] then Inr (num (a @ b) / 10 ^ length b) else Inl ValueError
      | _ \<Rightarrow> Inl ValueError)"

fun rating_from :: "string list \<Rightarrow> cve_scores \<Rightarrow> bool result" where
  "rating_from [] entry = Inr False"
| "rating_from (k # ks) entry = bind_r (dlookup entry k) (\<lambda>s.
     if s = ''N/A'' then rating_from ks entry
     else bind_r (py_decimal s) (\<lambda>x. if x \<ge> 9 then Inr True else rating_from ks entry))"

definition entry_has_critical_rating :: "cve_scores \<Rightarrow> bool result" where
  "entry_has_critical_rating entry = rating_from [''score2'', ''score3''] entry"

definition software_has_critical_cve :: "(string, cve_scores) dict \<Rightarrow> bool result" where
  "software_has_critical_cve cve_dict = any_r entry_has_critical_rating (dvalues cve_dict)"

type_synonym cve_results = "(string, (string, cve_scores) dict) dict"

definition cve_create_summary :: "cve_results \<Rightarrow> string list result" where
  "cve_create_summary r = map_r py_set (mapM_r (\<lambda>(software, entry).
     map_r (\<lambda>critical. if critical then software @ '' (CRITICAL)'' else software) (software_has_critical_cve entry)) r)"

definition cve_add_tags :: "(bytes \<Rightarrow> string) \<Rightarrow> plugin \<Rightarrow> cve_results \<Rightarrow> file_object \<Rightarrow> file_object result" where
  "cve_add_tags sha pl r fo = bind_r (any_r software_has_critical_cve (dvalues r)) (\<lambda>critical.
     if critical then add_analysis_tag sha pl ''CVE'' (PStr ''critical CVE'') (tag_value RED) True fo else Inr fo)"

definition cve_results_val :: "cve_results \<Rightarrow> pyval" where
  "cve_results_val r = PDict (map (\<lambda>(c, es). (c, PDict (map (\<lambda>(i, e). (i, PDict (map (\<lambda>(k, v). (k, PStr v)) e))) es))) r)"

definition cve_component_step ::
  "(string \<Rightarrow> 'v::linorder option) \<Rightarrow> sqlite \<Rightarrow> pyval \<Rightarrow> cve_results \<Rightarrow> cve_results result" where
  "cve_component_step parse db software r = (case software of
      PStr c \<Rightarrow> bind_r (split_component c) (\<lambda>(p, version).
        if p \<noteq> [] \<and> version \<noteq> [] then
          map_r (\<lambda>v. case v of Some (x # xs) \<Rightarrow> dput c (x # xs) r | _ \<Rightarrow> r) (look_up_vulnerabilities parse db p version)
        else Inr r)
    | _ \<Rightarrow> Inl AttributeError)"

definition cve_process_object ::
  "(bytes \<Rightarrow> string) \<Rightarrow> plugin \<Rightarrow> (string \<Rightarrow> 'v::linorder option) \<Rightarrow> sqlite \<Rightarrow> file_object \<Rightarrow> file_object result" where
  "cve_process_object sha pl parse db fo =
     bind_r (dlookup (processed_analysis fo) ''software_components'') (\<lambda>sc.
     bind_r (dlookup sc ''summary'') (\<lambda>summary.
     bind_r (jiter summary) (\<lambda>components.
     bind_r (foldM_r (cve_component_step parse db) components []) (\<lambda>r.
     bind_r (cve_create_summary r) (\<lambda>s.
       cve_add_tags sha pl r (fo\<lparr>processed_analysis := dput (fstr (p_name pl))
         [(''cve_results'', cve_results_val r), (''summary'', PList (map PStr s))] (processed_analysis fo)\<rparr>))))))"

section \<open>The closest version\<close>

lemma insort_left: "k x \<le> k v \<Longrightarrow> insort_key k x (A @ v # B) = insort_key k x A @ v # B"
  by (induction A) auto

lemma insort_right: "\<forall>a \<in> set A. k a < k x \<Longrightarrow> k v < k x \<Longrightarrow> insort_key k x (A @ v # B) = A @ v # insort_key k x B"
  by (induction A) auto

text \<open>Sorting is stable: what equals the last element stays before it.\<close>

lemma sort_key_last:
  fixes k :: "'a \<Rightarrow> 'b::linorder"
  shows "sort_key k (xs @ [v]) = sort_key k (filter (\<lambda>x. k x \<le> k v) xs) @ v # sort_key k (filter (\<lambda>x. k v < k x) xs)"
proof (induction xs)
  case (Cons x xs)
  show ?case
  proof (cases "k x \<le> k v")
    case True
    then have "\<not> k v < k x" by simp
    then show ?thesis using Cons True by (simp add: insort_left)
  next
    case False
    then have "k v < k x" by simp
    moreover from this have "\<forall>a \<in> set (sort_key k (filter (\<lambda>x. k x \<le> k v) xs)). k a < k x" by auto
    ultimately show ?thesis using Cons False by (simp add: insort_right)
  qed
qed simp

lemma index_of_append: "v \<notin> set A \<Longrightarrow> index_of v (A @ v # B) = Inr (length A)"
  by (induction A) auto

definition neighbour :: "'a list \<Rightarrow> 'a list \<Rightarrow> 'a result" where
  "neighbour A B = (if A \<noteq> [] then Inr (last A) else if B \<noteq> [] then Inr (hd B) else Inl IndexError)"

lemma find_next_closest_append: "v \<notin> set A \<Longrightarrow> find_next_closest_version (A @ v # B) v = neighbour A B"
  by (cases B) (auto simp: find_next_closest_version_def index_of_append neighbour_def nth_append last_conv_nth)

lemma last_sorted_max: "sorted (map k A) \<Longrightarrow> x \<in> set A \<Longrightarrow> k x \<le> k (last A)"
  by (induction A) auto

lemma hd_sorted_min: "sorted (map k B) \<Longrightarrow> x \<in> set B \<Longrightarrow> k (hd B) \<le> k x"
  by (cases B) auto

lemma find_cpe_product_mem:
  assumes "w \<in> version_number ` set ms"
  shows "\<exists>p \<in> set ms. find_cpe_product_with_version ms w = Inr p \<and> version_number p = w"
proof (cases "filter (\<lambda>p. version_number p = w) ms")
  case Nil
  then show ?thesis using assms by (auto simp: filter_empty_conv)
next
  case (Cons p ps)
  have "p \<in> set ms \<and> version_number p = w" using filter_eq_ConsD[OF Cons] by auto
  then show ?thesis using Cons by (auto simp: find_cpe_product_with_version_def)
qed

definition real_versions :: "cpe_product list \<Rightarrow> string list" where
  "real_versions ms = filter (\<lambda>v. v \<notin> {''N/A'', ''ANY''}) (map version_number ms)"

definition version_key :: "(string \<Rightarrow> 'v option) \<Rightarrow> string \<Rightarrow> 'v" where
  "version_key parse v = the (coerce_version parse (unescape v))"

definition coercible :: "(string \<Rightarrow> 'v option) \<Rightarrow> string \<Rightarrow> bool" where
  "coercible parse v \<longleftrightarrow> coerce_version parse (unescape v) \<noteq> None"

lemma closest_of_sorted:
  fixes parse :: "string \<Rightarrow> 'v::linorder option"
  assumes "\<forall>w \<in> set (v # vs). coercible parse w" "v \<notin> set vs" "vs \<noteq> []"
  shows "\<exists>w \<in> set vs. bind_r (sort_versions parse (vs @ [v])) (\<lambda>s. find_next_closest_version s v) = Inr w
    \<and> (if \<exists>x \<in> set vs. version_key parse x \<le> version_key parse v
       then version_key parse w \<le> version_key parse v
         \<and> (\<forall>x \<in> set vs. version_key parse x \<le> version_key parse v \<longrightarrow> version_key parse x \<le> version_key parse w)
       else \<forall>x \<in> set vs. version_key parse w \<le> version_key parse x)"
proof -
  let ?k = "version_key parse"
  define A where "A = sort_key ?k (filter (\<lambda>x. ?k x \<le> ?k v) vs)"
  define B where "B = sort_key ?k (filter (\<lambda>x. ?k v < ?k x) vs)"
  have "sort_versions parse (vs @ [v]) = Inr (A @ v # B)"
    using assms(1) sort_key_last[of ?k vs v] by (simp add: sort_versions_def coercible_def A_def B_def version_key_def[abs_def])
  moreover have "v \<notin> set A" using assms(2) by (simp add: A_def)
  ultimately have r: "bind_r (sort_versions parse (vs @ [v])) (\<lambda>s. find_next_closest_version s v) = neighbour A B"
    by (simp add: find_next_closest_append)
  have sets: "set A = {x \<in> set vs. ?k x \<le> ?k v}" "set B = {x \<in> set vs. ?k v < ?k x}" by (auto simp: A_def B_def)
  have sorted: "sorted (map ?k A)" "sorted (map ?k B)" by (simp_all add: A_def B_def)
  show ?thesis
  proof (cases "A = []")
    case False
    then have "last A \<in> set A" by simp
    then show ?thesis using False r sets(1) last_sorted_max[OF sorted(1)]
      by (intro bexI[of _ "last A"]) (auto simp: neighbour_def)
  next
    case True
    then have none: "\<not> (\<exists>x \<in> set vs. ?k x \<le> ?k v)" using sets(1) by auto
    then have "set B = set vs" using sets(2) by auto
    then have "B \<noteq> []" "hd B \<in> set vs" using assms(3) by (cases B; auto)+
    then show ?thesis using True none r \<open>set B = set vs\<close> hd_sorted_min[OF sorted(2)]
      by (intro bexI[of _ "hd B"]) (auto simp: neighbour_def)
  qed
qed

text \<open>C30: The product that is looked up has the closest version. For a numeric or dotted version
  and comparable versions in the CPE dictionary the lookup takes a product with exactly the
  requested version if there is one, else one with the greatest version below it, else one
  with the smallest version; if the dictionary has no version of the product at all it ends
  with IndexError, for which no vulnerability is reported.
\<close>

theorem closest_version_is_looked_up:
  fixes parse :: "string \<Rightarrow> 'v::linorder option"
  assumes "is_digits v \<or> is_valid_dotted_version v" "\<forall>w \<in> set (v # real_versions ms). coercible parse w"
  shows "if real_versions ms = [] then find_matching_cpe_product parse ms v = Inl IndexError
    else \<exists>p \<in> set ms. find_matching_cpe_product parse ms v = Inr p \<and> version_number p \<in> set (real_versions ms) \<and>
      (if v \<in> set (real_versions ms) then version_number p = v
       else if \<exists>x \<in> set (real_versions ms). version_key parse x \<le> version_key parse v
       then version_key parse (version_number p) \<le> version_key parse v
         \<and> (\<forall>x \<in> set (real_versions ms). version_key parse x \<le> version_key parse v \<longrightarrow> version_key parse x \<le> version_key parse (version_number p))
       else \<forall>x \<in> set (real_versions ms). version_key parse (version_number p) \<le> version_key parse x)"
proof -
  let ?vs = "real_versions ms"
  have vs: "set ?vs \<subseteq> version_number ` set ms" by (auto simp: real_versions_def)
  have find: "find_matching_cpe_product parse ms v = (if v \<in> set ?vs then find_cpe_product_with_version ms v
      else bind_r (bind_r (sort_versions parse (?vs @ [v])) (\<lambda>s. find_next_closest_version s v)) (find_cpe_product_with_version ms))"
    using assms(1) unfolding find_matching_cpe_product_def Let_def real_versions_def[symmetric]
    by (cases "sort_versions parse (?vs @ [v])") auto
  consider (empty) "?vs = []" | (exact) "v \<in> set ?vs" | (other) "v \<notin> set ?vs" "?vs \<noteq> []" by blast
  then show ?thesis
  proof cases
    case empty
    then show ?thesis using find assms(2) by (simp add: sort_versions_def coercible_def find_next_closest_version_def)
  next
    case exact
    then show ?thesis using find find_cpe_product_mem[of v ms] vs by auto
  next
    case other
    from closest_of_sorted[OF assms(2) other] obtain w where w: "w \<in> set ?vs"
      "bind_r (sort_versions parse (?vs @ [v])) (\<lambda>s. find_next_closest_version s v) = Inr w"
      "if \<exists>x \<in> set ?vs. version_key parse x \<le> version_key parse v
       then version_key parse w \<le> version_key parse v
         \<and> (\<forall>x \<in> set ?vs. version_key parse x \<le> version_key parse v \<longrightarrow> version_key parse x \<le> version_key parse w)
       else \<forall>x \<in> set ?vs. version_key parse w \<le> version_key parse x" by blast
    from find_cpe_product_mem[of w ms] w(1) vs obtain p where "p \<in> set ms" "find_cpe_product_with_version ms w = Inr p" "version_number p = w"
      by blast
    then show ?thesis using find other w by auto
  qed
qed

definition ex_parse :: "string \<Rightarrow> nat option" where
  "ex_parse s = (if is_digits s then Some (foldl (\<lambda>n c. 10 * n + (of_char c - 48)) 0 s) else None)"

definition ex_product :: "string \<Rightarrow> cpe_product" where
  "ex_product v = \<lparr>vendor_name = ''v'', product_name = ''p'', version_number = v\<rparr>"

lemma version_ex_product [simp]: "version_number (ex_product v) = v"
  by (simp add: ex_product_def)

theorem closest_version_is_looked_up_witness:
  "find_matching_cpe_product ex_parse (map ex_product [''9'', ''3'', ''ANY'', ''1'']) ''5'' = Inr (ex_product ''3'')"
proof -
  let ?ms = "map ex_product [''9'', ''3'', ''ANY'', ''1'']"
  have vs: "real_versions ?ms = [''9'', ''3'', ''1'']" by (simp add: real_versions_def ex_product_def)
  have co: "coerce_version ex_parse ''9'' = Some 9" "coerce_version ex_parse ''3'' = Some 3" "coerce_version ex_parse ''1'' = Some 1"
    "coerce_version ex_parse ''5'' = Some 5" by code_simp+
  have un: "unescape ''9'' = ''9''" "unescape ''3'' = ''3''" "unescape ''1'' = ''1''" "unescape ''5'' = ''5''" by simp_all
  have "\<exists>p \<in> set ?ms. find_matching_cpe_product ex_parse ?ms ''5'' = Inr p \<and> version_key ex_parse (version_number p) \<le> 5
    \<and> version_number p \<in> {''9'', ''3'', ''1''} \<and> (3 \<le> version_key ex_parse (version_number p))"
    using closest_version_is_looked_up[of "''5''" ?ms ex_parse] unfolding vs
    by (simp add: is_digits_def is_digit_def coercible_def version_key_def co un)
  then show ?thesis by (auto simp: version_key_def co un)
qed

section \<open>The reported vulnerabilities\<close>

text \<open>The bounds of a CVE as a property of the version.\<close>

definition bound_holds :: "(string \<Rightarrow> 'v option) \<Rightarrow> string \<Rightarrow> ('v \<Rightarrow> bool) \<Rightarrow> bool" where
  "bound_holds parse b P \<longleftrightarrow> b = [] \<or> (case coerce_version parse b of Some x \<Rightarrow> P x | None \<Rightarrow> False)"

definition affected :: "(string \<Rightarrow> 'v::linorder option) \<Rightarrow> 'v \<Rightarrow> cve_db_entry \<Rightarrow> bool" where
  "affected parse w e \<longleftrightarrow>
     bound_holds parse (version_start_including e) (\<lambda>x. x \<le> w) \<and> bound_holds parse (version_start_excluding e) (\<lambda>x. x < w) \<and>
     bound_holds parse (version_end_including e) (\<lambda>x. w \<le> x) \<and> bound_holds parse (version_end_excluding e) (\<lambda>x. w < x) \<and>
     (unescape (e_version e) \<in> {''ANY'', ''N/A''} \<or> coerce_version parse (unescape (e_version e)) = Some w)"

lemma compare_version_iff: "coerce_version parse v = Some w \<Longrightarrow>
    compare_version parse b v cmp \<longleftrightarrow> (case coerce_version parse b of Some x \<Rightarrow> cmp x w | None \<Rightarrow> False)"
  by (auto simp: compare_version_def split: option.splits)

lemma versions_match_iff: "coerce_version parse v = Some w \<Longrightarrow> versions_match parse v e \<longleftrightarrow> affected parse w e"
  by (auto simp: versions_match_def affected_def bound_holds_def compare_version_iff Let_def split: option.splits)

lemma dkeys_fold_dput: "c \<in> set (dkeys (fold (\<lambda>x r. if P x then dput (k x) (v x) r else r) xs r0))
    \<longleftrightarrow> c \<in> set (dkeys r0) \<or> (\<exists>x \<in> set xs. P x \<and> c = k x)"
  by (induction xs arbitrary: r0) auto

lemma search_cve_keys: "set (dkeys (search_cve parse db p)) = {e_cve_id e | e. e \<in> set (cve_lookup db) \<and> product_matches_cve parse p e}"
  unfolding search_cve_def by (auto simp: dkeys_fold_dput)

lemma search_cve_summary_keys:
  "set (dkeys (search_cve_summary db p)) = {c | c s a b. (c, s, a, b) \<in> set (summary_lookup db) \<and> product_is_mentioned_in_summary p s}"
proof -
  have "search_cve_summary db p = fold (\<lambda>x r. if product_is_mentioned_in_summary p (fst (snd x))
      then dput (fst x) [(''score2'', fst (snd (snd x))), (''score3'', snd (snd (snd x)))] r else r) (summary_lookup db) []"
    unfolding search_cve_summary_def by (rule fold_cong) auto
  then show ?thesis by (force simp: dkeys_fold_dput)
qed

lemma dkeys_dupdate: "set (dkeys (dupdate d e)) = set (dkeys d) \<union> set (dkeys e)"
proof (induction e arbitrary: d)
  case (Cons kv e)
  then show ?case by (cases kv) (auto simp: dupdate_def)
qed (simp add: dupdate_def)

definition matched_products :: "sqlite \<Rightarrow> string \<Rightarrow> cpe_product list" where
  "matched_products db name = match_cpe db (replace_characters_and_wildcards (generate_search_terms name))"


text \<open>A database with one product and one vulnerability of its versions up to 3.\<close>

definition ex_cve_row :: "cell list" where
  "ex_cve_row = [SText ''CVE-2020-1'', SInt 2020, SText ex_uri, SText ''N/A'', SText ''N/A'', SText ''a'',
     SText ''v'', SText ''linux'', SText ''ANY''] @ replicate 7 (SText ''ANY'') @ [SText [], SText [], SText ''3'', SText []]"

definition ex_cve_db :: sqlite where
  "ex_cve_db = [(''cpe_table'', \<lparr>t_fields = CPE_DB_FIELDS,
       t_rows = [map SText ([ex_uri, ''a'', ''v'', ''linux'', ''2''] @ replicate 7 ''ANY'')]\<rparr>),
     (''cve_table'', feed_table [ex_cve_row])]"


text \<open>One version in the dictionary that cannot be compared stops the lookup of a component.\<close>

lemma odd_version_stops_lookup:
  assumes "is_digits v \<or> is_valid_dotted_version v" "v \<notin> set (real_versions ms)" "w \<in> set (real_versions ms)" "\<not> coercible parse w"
  shows "find_matching_cpe_product parse ms v = Inl ValueError"
proof -
  have "sort_versions parse (real_versions ms @ [v]) = Inl ValueError"
    using assms(3,4) by (auto simp: sort_versions_def coercible_def)
  then show ?thesis using assms(1,2) by (auto simp: find_matching_cpe_product_def real_versions_def Let_def)
qed

end
