(* ===== verification/Statistics.thy ===== *)
theory Statistics
  imports EntryConversion CommonDb
begin

text \<open>
  The statistics of the database: the aggregations of \<open>storage/db_interface_stats.py\<close>, the
  entries \<open>statistic/update.py\<close> and \<open>statistic/time_stats.py\<close> compute from them, and the
  pages and REST endpoints that read them.

  A query is the list of the rows it joins. A filter is a dict from columns of the
  firmware table to values, as the web interface passes it (\<open>device_class\<close> and \<open>vendor\<close>).
  Floats are reals; the regular expressions of PostgreSQL are the parameter \<open>regexp\<close>.
\<close>

type_synonym stats = "(pyval \<times> nat) list"

type_synonym q_filter = "(string, string) dict"

section \<open>Sorting and counting\<close>

text \<open>The order of Python on the values that occur in statistics.\<close>

fun pv_comparable :: "pyval \<Rightarrow> pyval \<Rightarrow> bool"
  and pvs_comparable :: "pyval list \<Rightarrow> pyval list \<Rightarrow> bool" where
  "pv_comparable (PStr _) (PStr _) = True"
| "pv_comparable (PInt _) (PInt _) = True"
| "pv_comparable (PInt _) (PFloat _) = True"
| "pv_comparable (PFloat _) (PInt _) = True"
| "pv_comparable (PFloat _) (PFloat _) = True"
| "pv_comparable (PList xs) (PList ys) = pvs_comparable xs ys"
| "pv_comparable _ _ = False"
| "pvs_comparable [] _ = True"
| "pvs_comparable _ [] = True"
| "pvs_comparable (x # xs) (y # ys) = (if x = y then pvs_comparable xs ys else pv_comparable x y)"

fun pv_le :: "pyval \<Rightarrow> pyval \<Rightarrow> bool"
  and pvs_le :: "pyval list \<Rightarrow> pyval list \<Rightarrow> bool" where
  "pv_le (PStr a) (PStr b) = (a \<le> b)"
| "pv_le (PInt a) (PInt b) = (a \<le> b)"
| "pv_le (PInt a) (PFloat b) = (of_int a \<le> b)"
| "pv_le (PFloat a) (PInt b) = (a \<le> of_int b)"
| "pv_le (PFloat a) (PFloat b) = (a \<le> b)"
| "pv_le (PList xs) (PList ys) = pvs_le xs ys"
| "pv_le _ _ = False"
| "pvs_le [] _ = True"
| "pvs_le (x # xs) [] = False"
| "pvs_le (x # xs) (y # ys) = (if x = y then pvs_le xs ys else pv_le x y)"

fun insort_by :: "('a \<Rightarrow> 'a \<Rightarrow> bool) \<Rightarrow> 'a \<Rightarrow> 'a list \<Rightarrow> 'a list" where
  "insort_by le x [] = [x]"
| "insort_by le x (y # ys) = (if le x y then x # y # ys else y # insort_by le x ys)"

definition count_le :: "pyval \<times> nat \<Rightarrow> pyval \<times> nat \<Rightarrow> bool" where
  "count_le a b \<longleftrightarrow> snd a < snd b \<or> (snd a = snd b \<and> pv_le (fst a) (fst b))"

text \<open>\<open>_sort_tuples\<close>: values with the same count are compared, which raises for mixed types.\<close>

definition sort_tuples :: "stats \<Rightarrow> stats result" where
  "sort_tuples xs =
     (if \<forall>a \<in> set xs. \<forall>b \<in> set xs. a \<noteq> b \<and> snd a = snd b \<longrightarrow> pv_comparable (fst a) (fst b)
      then Inr (foldr (insort_by count_le) xs []) else Inl TypeError)"

definition group_count :: "pyval list \<Rightarrow> stats" where
  "group_count xs = map (\<lambda>x. (x, count_list xs x)) (py_set xs)"

definition count_occurrences :: "pyval list \<Rightarrow> stats result" where
  "count_occurrences result_list = (if list_all hashable result_list then sort_tuples (group_count result_list) else Inl TypeError)"

definition stats_avg :: "real list \<Rightarrow> real" where
  "stats_avg values' = (if values' = [] then 0 else sum_list values' / of_nat (length values'))"

section \<open>\<open>StatsUpdateDbInterface\<close>\<close>

definition update_statistic :: "string \<Rightarrow> pyval \<Rightarrow> db \<Rightarrow> db" where
  "update_statistic identifier content d = d\<lparr>stats_tbl := dput identifier content (stats_tbl d)\<rparr>"

definition match_column :: "string \<Rightarrow> (fw_entry \<Rightarrow> string option) option" where
  "match_column = map_of [(''device_class'', we_device_class), (''vendor'', we_vendor),
     (''device_name'', we_device_name), (''version'', we_version)]"

definition fw_matches :: "q_filter \<Rightarrow> fw_entry \<Rightarrow> bool" where
  "fw_matches q w \<longleftrightarrow> list_all (\<lambda>(k, v). case match_column k of Some c \<Rightarrow> c w = Some v | None \<Rightarrow> False) q"

text \<open>The joins: all files with a firmware, and the firmware rows of one file.\<close>

definition fw_rows :: "db \<Rightarrow> bool \<Rightarrow> uid \<Rightarrow> fw_entry list" where
  "fw_rows d is_fw u = map snd (filter (\<lambda>(f, _). if is_fw then f = u else dmem u (file_tbl d) \<and> f \<in> set (root_firmware d u)) (firmware_tbl d))"

definition all_fw_rows :: "db \<Rightarrow> uid \<Rightarrow> fw_entry list" where
  "all_fw_rows d u = map snd (filter (\<lambda>(f, _). dmem u (file_tbl d) \<and> (f \<in> set (root_firmware d u) \<or> f = u)) (firmware_tbl d))"

definition file_rows :: "db \<Rightarrow> q_filter \<Rightarrow> bool \<Rightarrow> (uid \<times> fo_entry) list" where
  "file_rows d q is_fw = concat (map (\<lambda>(u, e). map (\<lambda>_. (u, e)) (filter (fw_matches q) (fw_rows d is_fw u))) (file_tbl d))"

definition get_count :: "db \<Rightarrow> q_filter \<Rightarrow> bool \<Rightarrow> nat" where
  "get_count d q is_fw = length (file_rows d q is_fw)"

definition row_sizes :: "db \<Rightarrow> q_filter \<Rightarrow> bool \<Rightarrow> int list" where
  "row_sizes d q is_fw = concat (map (\<lambda>(_, e). case fe_size e of None \<Rightarrow> [] | Some n \<Rightarrow> [n]) (file_rows d q is_fw))"

definition get_sum :: "db \<Rightarrow> q_filter \<Rightarrow> bool \<Rightarrow> int" where
  "get_sum d q is_fw = sum_list (row_sizes d q is_fw)"

definition get_avg :: "db \<Rightarrow> q_filter \<Rightarrow> bool \<Rightarrow> real" where
  "get_avg d q is_fw = stats_avg (map of_int (row_sizes d q is_fw))"

definition count_distinct_values :: "db \<Rightarrow> (fw_entry \<Rightarrow> string option) \<Rightarrow> q_filter \<Rightarrow> stats result" where
  "count_distinct_values d key q = sort_tuples (group_count (concat (map (\<lambda>(_, w).
     if fw_matches q w then (case key w of None \<Rightarrow> [] | Some v \<Rightarrow> [PStr v]) else []) (firmware_tbl d))))"

definition plugin_rows :: "db \<Rightarrow> string \<Rightarrow> (uid \<times> analysis_entry) list" where
  "plugin_rows d plugin = concat (map (\<lambda>((u, p), a). if p = plugin then [(u, a)] else []) (analysis_tbl d))"

text \<open>Analysis rows joined with firmware rows; one copy of the row for each.\<close>

definition joined_rows_by :: "(uid \<Rightarrow> fw_entry list) \<Rightarrow> q_filter \<Rightarrow> (uid \<times> analysis_entry) list \<Rightarrow> (uid \<times> analysis_entry) list" where
  "joined_rows_by ws q rs = concat (map (\<lambda>r. map (\<lambda>_. r) (filter (fw_matches q) (ws (fst r)))) rs)"

definition joined_if_filtered :: "(uid \<Rightarrow> fw_entry list) \<Rightarrow> q_filter \<Rightarrow> (uid \<times> analysis_entry) list \<Rightarrow> (uid \<times> analysis_entry) list" where
  "joined_if_filtered ws q rs = (if q = [] then rs else joined_rows_by ws q rs)"

definition result_values :: "string \<Rightarrow> (uid \<times> analysis_entry) list \<Rightarrow> pyval list" where
  "result_values key rs = concat (map (\<lambda>(_, a). case map_of (an_result a) key of None \<Rightarrow> [] | Some v \<Rightarrow> [v]) rs)"

definition count_distinct_in_analysis :: "db \<Rightarrow> string \<Rightarrow> string \<Rightarrow> bool \<Rightarrow> q_filter \<Rightarrow> stats result" where
  "count_distinct_in_analysis d key plugin is_fw q =
     sort_tuples (group_count (result_values key (joined_rows_by (fw_rows d is_fw) q (plugin_rows d plugin))))"

text \<open>\<open>jsonb_array_elements\<close> of a value that is no array is an error of the database.\<close>

definition array_elements :: "pyval list \<Rightarrow> pyval list result" where
  "array_elements vs = map_r concat (mapM_r (\<lambda>v. case v of PList xs \<Rightarrow> Inr xs | _ \<Rightarrow> Inl GenericException) vs)"

definition count_distinct_values_in_array :: "db \<Rightarrow> string \<Rightarrow> string \<Rightarrow> q_filter \<Rightarrow> stats result" where
  "count_distinct_values_in_array d key plugin q =
     bind_r (array_elements (result_values key (joined_if_filtered (fw_rows d False) q (plugin_rows d plugin))))
       (\<lambda>xs. sort_tuples (group_count xs))"

definition summary_values :: "analysis_entry \<Rightarrow> pyval list" where
  "summary_values a = (case an_summary a of PList xs \<Rightarrow> xs | _ \<Rightarrow> [])"

definition count_values_in_summary :: "db \<Rightarrow> string \<Rightarrow> q_filter \<Rightarrow> bool \<Rightarrow> stats result" where
  "count_values_in_summary d plugin q is_fw =
     count_occurrences (concat (map (\<lambda>(_, a). summary_values a) (joined_rows_by (fw_rows d is_fw) q (plugin_rows d plugin))))"

text \<open>Architectures per firmware: \<open>(arch, count, root uid)\<close>.\<close>

definition get_arch_stats :: "db \<Rightarrow> q_filter \<Rightarrow> (pyval \<times> nat \<times> uid) list" where
  "get_arch_stats d q = (let rs = concat (map (\<lambda>(u, a). concat (map (\<lambda>arch. map (\<lambda>(f, _). (arch, f))
       (filter (\<lambda>(f, w). fw_matches q w \<and> dmem u (file_tbl d) \<and> f \<in> set (root_firmware d u)) (firmware_tbl d))) (summary_values a)))
       (plugin_rows d ''cpu_architecture''))
     in map (\<lambda>(arch, f). (arch, count_list rs (arch, f), f)) (py_set rs))"

definition unpacker_rows :: "db \<Rightarrow> string \<Rightarrow> (uid \<times> analysis_entry) list" where
  "unpacker_rows d summary_key = filter (\<lambda>(_, a). PStr summary_key \<in> set (summary_values a)) (plugin_rows d ''unpacker'')"

text \<open>A group without a MIME type is counted as 0 and kept: \<open>count\<close> skips \<open>NULL\<close>.\<close>

definition get_unpacking_file_types :: "db \<Rightarrow> string \<Rightarrow> q_filter \<Rightarrow> stats result" where
  "get_unpacking_file_types d summary_key q =
     (let rs = joined_if_filtered (all_fw_rows d) q
            (filter (\<lambda>(u, _). u \<in> set (map fst (unpacker_rows d summary_key))) (plugin_rows d ''file_type''));
          mimes = map (\<lambda>(_, a). map_of (an_result a) ''mime'') rs
      in sort_tuples (group_count (concat (map (\<lambda>m. case m of None \<Rightarrow> [] | Some v \<Rightarrow> [v]) mimes))
           @ (if None \<in> set mimes then [(PNone, 0)] else [])))"

definition py_to_float :: "(string \<Rightarrow> real option) \<Rightarrow> pyval \<Rightarrow> real result" where
  "py_to_float fl v = (case v of
      PFloat x \<Rightarrow> Inr x | PInt i \<Rightarrow> Inr (of_int i) | PBool b \<Rightarrow> Inr (if b then 1 else 0)
    | PStr s \<Rightarrow> (case fl s of Some x \<Rightarrow> Inr x | None \<Rightarrow> Inl ValueError)
    | _ \<Rightarrow> Inl TypeError)"

text \<open>\<open>int\<close> of a stored count; only strings of digits are read.\<close>

definition py_to_int :: "pyval \<Rightarrow> int result" where
  "py_to_int v = (case v of
      PInt i \<Rightarrow> Inr i | PBool b \<Rightarrow> Inr (if b then 1 else 0)
    | PFloat x \<Rightarrow> Inr (if x < 0 then \<lceil>x\<rceil> else \<lfloor>x\<rfloor>)
    | PStr s \<Rightarrow> (if s \<noteq> [] \<and> list_all is_digit s then Inr (foldl (\<lambda>n c. 10 * n + (of_char c - 48)) 0 s) else Inl ValueError)
    | _ \<Rightarrow> Inl TypeError)"

definition or_none :: "pyval option \<Rightarrow> pyval" where
  "or_none v = (case v of None \<Rightarrow> PNone | Some x \<Rightarrow> x)"

definition get_unpacking_entropy :: "(string \<Rightarrow> real option) \<Rightarrow> db \<Rightarrow> string \<Rightarrow> q_filter \<Rightarrow> real result" where
  "get_unpacking_entropy fl d summary_key q =
     map_r stats_avg (mapM_r (\<lambda>(_, a). py_to_float fl (or_none (map_of (an_result a) ''entropy'')))
       (joined_if_filtered (all_fw_rows d) q (unpacker_rows d summary_key)))"

definition get_used_unpackers :: "db \<Rightarrow> q_filter \<Rightarrow> stats result" where
  "get_used_unpackers d q =
     bind_r (mapM_r (\<lambda>(_, a). map_r (\<lambda>n. (or_none (map_of (an_result a) ''plugin_used''), n))
         (py_to_int (or_none (map_of (an_result a) ''number_of_unpacked_files''))))
       (joined_if_filtered (all_fw_rows d) q (plugin_rows d ''unpacker'')))
     (\<lambda>rs. count_occurrences (map fst (filter (\<lambda>(_, n). n > 0) rs)))"

definition get_regex_mime_match_count :: "(string \<Rightarrow> pyval \<Rightarrow> bool) \<Rightarrow> db \<Rightarrow> string \<Rightarrow> q_filter \<Rightarrow> nat" where
  "get_regex_mime_match_count regexp d regex q =
     length (joined_if_filtered (fw_rows d False) q (filter (\<lambda>(_, a).
       (case map_of (an_result a) ''full'' of None \<Rightarrow> False | Some v \<Rightarrow> regexp regex v)) (plugin_rows d ''file_type'')))"

definition get_release_date_stats :: "db \<Rightarrow> q_filter \<Rightarrow> (nat \<times> nat \<times> nat) list" where
  "get_release_date_stats d q =
     (let ms = map (\<lambda>(_, w). case we_release_date w of (y, m, _) \<Rightarrow> (y, m)) (filter (\<lambda>(_, w). fw_matches q w) (firmware_tbl d))
      in map (\<lambda>(y, m). (y, m, count_list ms (y, m))) (py_set ms))"

definition get_software_components :: "db \<Rightarrow> q_filter \<Rightarrow> stats result" where
  "get_software_components d q = sort_tuples (group_count (concat (map (\<lambda>(_, a).
     map PStr (filter (\<lambda>k. k \<notin> {''system_version'', ''skipped''}) (dkeys (an_result a))))
     (joined_if_filtered (fw_rows d False) q (plugin_rows d ''software_components'')))))"

text \<open>\<open>StatsDbViewer\<close>: the entry with its name under \<open>_id\<close>; data that is no dict cannot be unpacked.\<close>

definition stats_entry_to_dict :: "string \<Rightarrow> pyval \<Rightarrow> (string, pyval) dict result" where
  "stats_entry_to_dict name data = (case data of
      PDict d \<Rightarrow> Inr (dupdate [(''_id'', PStr name)] d)
    | _ \<Rightarrow> Inl TypeError)"

definition get_statistic :: "db \<Rightarrow> string \<Rightarrow> (string, pyval) dict option result" where
  "get_statistic d identifier = (case dget (stats_tbl d) identifier of
      None \<Rightarrow> Inr None
    | Some data \<Rightarrow> map_r Some (stats_entry_to_dict identifier data))"

definition get_stats_list :: "db \<Rightarrow> string list \<Rightarrow> (string, pyval) dict list result" where
  "get_stats_list d identifiers = mapM_r (\<lambda>(n, data). stats_entry_to_dict n data)
     (filter (\<lambda>(n, _). n \<in> set identifiers) (stats_tbl d))"

section \<open>\<open>statistic/time_stats.py\<close>: the histogram of release dates\<close>

type_synonym time_dict = "(nat, (nat, nat) dict) dict"

definition set_month :: "nat \<Rightarrow> nat \<Rightarrow> nat \<Rightarrow> time_dict \<Rightarrow> time_dict" where
  "set_month year month n t = dput year (dput month n (case dget t year of None \<Rightarrow> [] | Some ms \<Rightarrow> ms)) t"

definition default_month :: "nat \<Rightarrow> nat \<Rightarrow> time_dict \<Rightarrow> time_dict" where
  "default_month year month t = (case dget t year of
      None \<Rightarrow> t
    | Some ms \<Rightarrow> if dmem month ms then t else dput year (dput month 0 ms) t)"

definition default_year :: "nat \<Rightarrow> time_dict \<Rightarrow> time_dict" where
  "default_year year t = (if dmem year t then t else dput year [] t)"

definition fill_year :: "nat \<times> nat \<Rightarrow> nat \<times> nat \<Rightarrow> nat \<Rightarrow> time_dict \<Rightarrow> time_dict" where
  "fill_year = (\<lambda>(start_year, start_month) (end_year, end_month) year t.
     let min_month = (if year = start_year then start_month else 1);
         max_month = (if year = end_year then end_month else 12)
     in fold (default_month year) [min_month..<Suc max_month] (default_year year t))"

text \<open>\<open>min\<close> and \<open>max\<close> of the keys; every year of the dict has a month.\<close>

definition months_of :: "time_dict \<Rightarrow> nat \<Rightarrow> nat list" where
  "months_of t year = (case dget t year of None \<Rightarrow> [] | Some ms \<Rightarrow> dkeys ms)"

definition fill_in_time_gaps :: "time_dict \<Rightarrow> time_dict" where
  "fill_in_time_gaps t = (if t = [] then t else
     (let start_year = Min (set (dkeys t)); start_month = Min (set (months_of t start_year));
          end_year = Max (set (dkeys t)); end_month = Max (set (months_of t end_year))
      in fold (fill_year (start_year, start_month) (end_year, end_month)) [start_year..<Suc end_year] t))"

definition build_time_dict :: "(nat \<times> nat \<times> nat) list \<Rightarrow> time_dict" where
  "build_time_dict rds = fill_in_time_gaps
     (fold (\<lambda>(year, month, n) t. if year > 1970 then set_month year month n t else t) rds [])"

definition MONTH_NAMES :: "string list" where
  "MONTH_NAMES = [''January'', ''February'', ''March'', ''April'', ''May'', ''June'', ''July'', ''August'',
     ''September'', ''October'', ''November'', ''December'']"

definition get_month_name :: "nat \<Rightarrow> string result" where
  "get_month_name m = (if 1 \<le> m \<and> m \<le> 12 then Inr (MONTH_NAMES ! (m - 1)) else Inl ValueError)"

definition time_entries :: "time_dict \<Rightarrow> (nat \<times> nat \<times> nat) list" where
  "time_entries t = concat (map (\<lambda>(year, ms). map (\<lambda>(month, n). (year, month, n)) (sort_key fst ms)) (sort_key fst t))"

definition build_stats_entry_from_date_query :: "(nat \<times> nat \<times> nat) list \<Rightarrow> stats result" where
  "build_stats_entry_from_date_query rds =
     mapM_r (\<lambda>(year, month, n). map_r (\<lambda>name. (PStr (name @ '' '' @ str_nat year), n)) (get_month_name month))
       (time_entries (build_time_dict rds))"

section \<open>\<open>statistic/update.py\<close>\<close>

definition stats_val :: "stats \<Rightarrow> pyval" where
  "stats_val xs = PList (map (\<lambda>(v, n). PList [v, PInt (int n)]) xs)"

text \<open>\<open>round(x, 5)\<close>, half to even.\<close>

definition round5 :: "real \<Rightarrow> real" where
  "round5 x = (let y = x * 100000; f = \<lfloor>y\<rfloor>; r = y - of_int f in
     of_int (if r < 1/2 then f else if r > 1/2 then f + 1 else if even f then f else f + 1) / 100000)"

type_synonym relative_stats = "(string \<times> nat \<times> real) list"

text \<open>
  The dict comprehension: for each keyword the count of the last summary item that
  contains it. A summary item that is no string has no \<open>lower\<close>.
\<close>

definition keyword_counts :: "string list \<Rightarrow> stats \<Rightarrow> (string, nat) dict result" where
  "keyword_counts keywords stats =
     foldM_r (\<lambda>keyword. foldM_r (\<lambda>(item, n) d. case item of
         PStr s \<Rightarrow> Inr (if substr_in (lower keyword) (lower s) then dput keyword n d else d)
       | _ \<Rightarrow> Inl AttributeError) stats) keywords []"

definition get_relative_stats :: "string list \<Rightarrow> stats \<Rightarrow> relative_stats result" where
  "get_relative_stats keywords stats = bind_r (keyword_counts keywords stats) (\<lambda>count_dict.
     let total = sum_list (dvalues count_dict) in
     mapM_r (\<lambda>(label, n). if total = 0 then Inl ZeroDivisionError else Inr (label, n, round5 (of_nat n / of_nat total))) count_dict)"

definition relative_val :: "relative_stats \<Rightarrow> pyval" where
  "relative_val xs = PList (map (\<lambda>(l, n, x). PList [PStr l, PInt (int n), PFloat x]) xs)"

record stats_env =
  se_regexp :: "string \<Rightarrow> pyval \<Rightarrow> bool"
  se_float :: "string \<Rightarrow> real option"

definition get_general_stats :: "db \<Rightarrow> q_filter \<Rightarrow> real \<Rightarrow> real \<Rightarrow> (string, pyval) dict" where
  "get_general_stats d q start_time now =
     [(''number_of_firmwares'', PInt (int (get_count d q True))),
      (''total_firmware_size'', PInt (get_sum d q True)),
      (''average_firmware_size'', PFloat (get_avg d q True)),
      (''number_of_unique_files'', PInt (int (get_count d q False))),
      (''total_file_size'', PInt (get_sum d q False)),
      (''average_file_size'', PFloat (get_avg d q False)),
      (''creation_time'', PFloat now), (''benchmark'', PFloat (now - start_time))]"

definition filter_results :: "stats \<Rightarrow> stats" where
  "filter_results stats = filter (\<lambda>(v, _). v \<notin> {PStr ''not available'', PStr ''clean''}) stats"

definition MITIGATIONS :: "string list list" where
  "MITIGATIONS = [[''NX enabled'', ''NX disabled''], [''Canary enabled'', ''Canary disabled''],
     [''RELRO fully enabled'', ''RELRO partially enabled'', ''RELRO disabled''],
     [''PIE enabled'', ''PIE/DSO present'', ''PIE disabled'', ''PIE - invalid ELF file''],
     [''FORTIFY_SOURCE enabled'', ''FORTIFY_SOURCE disabled'']]"

definition get_exploit_mitigations_stats :: "db \<Rightarrow> q_filter \<Rightarrow> (string, pyval) dict result" where
  "get_exploit_mitigations_stats d q = bind_r (count_values_in_summary d ''exploit_mitigations'' q False) (\<lambda>result.
     map_r (\<lambda>xs. [(''exploit_mitigations'', relative_val (concat xs))])
       (mapM_r (\<lambda>ks. get_relative_stats ks result) MITIGATIONS))"

definition get_known_vulnerabilities_stats :: "db \<Rightarrow> q_filter \<Rightarrow> (string, pyval) dict result" where
  "get_known_vulnerabilities_stats d q = map_r (\<lambda>s. [(''known_vulnerabilities'', stats_val (filter_results s))])
     (count_values_in_summary d ''known_vulnerabilities'' q False)"

definition get_crypto_material_stats :: "db \<Rightarrow> q_filter \<Rightarrow> (string, pyval) dict result" where
  "get_crypto_material_stats d q = map_r (\<lambda>s. [(''crypto_material'', stats_val s)])
     (count_values_in_summary d ''crypto_material'' q False)"

definition get_firmware_meta_stats :: "db \<Rightarrow> q_filter \<Rightarrow> (string, pyval) dict result" where
  "get_firmware_meta_stats d q =
     bind_r (count_distinct_values d we_vendor q) (\<lambda>v.
     bind_r (count_distinct_values d we_device_class q) (\<lambda>c.
       Inr [(''vendor'', stats_val v), (''device_class'', stats_val c)]))"

definition get_file_type_stats :: "db \<Rightarrow> q_filter \<Rightarrow> (string, pyval) dict result" where
  "get_file_type_stats d q = mapM_r (\<lambda>(label, is_fw).
     map_r (\<lambda>s. (label, stats_val s)) (count_distinct_in_analysis d ''mime'' ''file_type'' is_fw q))
     [(''file_types'', False), (''firmware_container'', True)]"

definition stat_get :: "string \<Rightarrow> stats \<Rightarrow> nat" where
  "stat_get k s = (case map_of s (PStr k) of None \<Rightarrow> 0 | Some n \<Rightarrow> n)"

definition get_ratio :: "stats \<Rightarrow> stats \<Rightarrow> string list \<Rightarrow> real" where
  "get_ratio fo_stats firmware_stats keywords =
     (let total = sum_list (concat (map (\<lambda>k. [stat_get k fo_stats, stat_get k firmware_stats]) keywords)) in
      if total = 0 then 0
      else of_nat (stat_get (hd keywords) fo_stats + stat_get (hd keywords) firmware_stats) / of_nat total)"

definition get_unpacking_stats :: "stats_env \<Rightarrow> db \<Rightarrow> q_filter \<Rightarrow> (string, pyval) dict result" where
  "get_unpacking_stats E d q =
     bind_r (count_values_in_summary d ''unpacker'' q False) (\<lambda>fo_packing_stats.
     bind_r (count_values_in_summary d ''unpacker'' q True) (\<lambda>firmware_packing_stats.
     bind_r (get_used_unpackers d q) (\<lambda>used.
     bind_r (get_unpacking_file_types d ''packed'' q) (\<lambda>packed.
     bind_r (get_unpacking_file_types d ''data lost'' q) (\<lambda>lost.
     bind_r (get_unpacking_entropy (se_float E) d ''packed'' q) (\<lambda>packed_entropy.
     bind_r (get_unpacking_entropy (se_float E) d ''unpacked'' q) (\<lambda>unpacked_entropy.
       Inr [(''used_unpackers'', stats_val used), (''packed_file_types'', stats_val packed),
         (''data_loss_file_types'', stats_val lost),
         (''overall_unpack_ratio'', PFloat (get_ratio fo_packing_stats firmware_packing_stats [''unpacked'', ''packed''])),
         (''overall_data_loss_ratio'', PFloat (get_ratio fo_packing_stats firmware_packing_stats [''data lost'', ''no data lost''])),
         (''average_packed_entropy'', PFloat packed_entropy), (''average_unpacked_entropy'', PFloat unpacked_entropy)])))))))"

definition find_most_frequent_architecture :: "(pyval \<times> nat) list \<Rightarrow> pyval" where
  "find_most_frequent_architecture arch_stats = fst (hd (py_sort_rev snd arch_stats))"

definition shorten_architecture_string :: "string \<Rightarrow> string" where
  "shorten_architecture_string arch =
     (let string_parts = take 2 (split_on (CHR '','') arch) in
      if length string_parts > 1 then join_with '','' string_parts else take (length arch - 4) arch)"

definition get_architecture_stats :: "db \<Rightarrow> q_filter \<Rightarrow> (string, pyval) dict result" where
  "get_architecture_stats d q =
     (let by_fw = fold (\<lambda>(arch, n, f). dappend f (arch, n)) (get_arch_stats d q) [] in
      bind_r (mapM_r (\<lambda>l. case find_most_frequent_architecture l of
          PStr s \<Rightarrow> Inr (PStr (shorten_architecture_string s)) | _ \<Rightarrow> Inl AttributeError) (dvalues by_fw)) (\<lambda>archs.
      map_r (\<lambda>s. [(''cpu_architecture'', stats_val s)]) (count_occurrences archs)))"

definition EXECUTABLE_QUERIES :: "(string \<times> string) list" where
  "EXECUTABLE_QUERIES = [(''big endian'', ''^ELF.*MSB.*executable''), (''little endian'', ''^ELF.*LSB.*executable''),
     (''stripped'', ''^ELF.*executable.*, stripped''), (''not stripped'', ''^ELF.*executable.*, not stripped''),
     (''32-bit'', ''^ELF 32-bit.*executable''), (''64-bit'', ''^ELF 64-bit.*executable''),
     (''dynamically linked'', ''^ELF.*executable.*dynamically linked''),
     (''statically linked'', ''^ELF.*executable.*statically linked''),
     (''section info missing'', ''^ELF.*executable.*section header'')]"

text \<open>The filter of the updater is not passed on here.\<close>

definition get_executable_stats :: "stats_env \<Rightarrow> db \<Rightarrow> (string, pyval) dict" where
  "get_executable_stats E d =
     (let total = get_regex_mime_match_count (se_regexp E) d ''^ELF.*executable'' [] in
      [(''executable_stats'', PList (map (\<lambda>(label, query_match).
         let n = get_regex_mime_match_count (se_regexp E) d query_match [] in
         PList [PStr label, PInt (int n), PFloat (of_nat n / of_nat (if total = 0 then 1 else total)), PStr query_match])
         EXECUTABLE_QUERIES))])"

definition remove_location_info :: "stats \<Rightarrow> stats result" where
  "remove_location_info s = mapM_r (\<lambda>(ip, n). case ip of
      PList [] \<Rightarrow> Inl IndexError | PList (x # _) \<Rightarrow> Inr (x, n) | _ \<Rightarrow> Inr (ip, n)) s"

definition get_ip_stats :: "db \<Rightarrow> q_filter \<Rightarrow> (string, pyval) dict result" where
  "get_ip_stats d q =
     bind_r (mapM_r (\<lambda>key. map_r (Pair key) (count_distinct_values_in_array d key ''ip_and_uri_finder'' q))
       [''ips_v4'', ''ips_v6'', ''uris'']) (mapM_r (\<lambda>(key, s).
         map_r (\<lambda>t. (key, stats_val t)) (if key = ''uris'' then Inr s else remove_location_info s)))"

definition get_time_stats :: "db \<Rightarrow> q_filter \<Rightarrow> (string, pyval) dict result" where
  "get_time_stats d q = map_r (\<lambda>s. [(''date_histogram_data'', stats_val s)])
     (build_stats_entry_from_date_query (get_release_date_stats d q))"

definition get_software_components_stats :: "db \<Rightarrow> q_filter \<Rightarrow> (string, pyval) dict result" where
  "get_software_components_stats d q = map_r (\<lambda>s. [(''software_components'', stats_val s)]) (get_software_components d q)"

definition STATS :: "stats_env \<Rightarrow> real \<Rightarrow> real \<Rightarrow> (string \<times> (db \<Rightarrow> q_filter \<Rightarrow> (string, pyval) dict result)) list" where
  "STATS E start_time now = [(''firmware_meta'', get_firmware_meta_stats), (''file_type'', get_file_type_stats),
     (''crypto_material'', get_crypto_material_stats), (''unpacking'', get_unpacking_stats E),
     (''architecture'', get_architecture_stats), (''ips_and_uris'', get_ip_stats), (''release_date'', get_time_stats),
     (''exploit_mitigations'', get_exploit_mitigations_stats), (''known_vulnerabilities'', get_known_vulnerabilities_stats),
     (''software_components'', get_software_components_stats),
     (''elf_executable'', \<lambda>d _. Inr (get_executable_stats E d)),
     (''general'', \<lambda>d q. Inr (get_general_stats d q start_time now))]"

text \<open>
  \<open>update_all_stats\<close>: each entry is stored when it has been computed, so an error leaves
  the later entries as they were.
\<close>

fun update_stats_from :: "(string \<times> (db \<Rightarrow> q_filter \<Rightarrow> (string, pyval) dict result)) list \<Rightarrow> q_filter \<Rightarrow> db \<Rightarrow> unit result \<times> db" where
  "update_stats_from [] q d = (Inr (), d)"
| "update_stats_from ((n, f) # fs) q d = (case f d q of
      Inl e \<Rightarrow> (Inl e, d)
    | Inr s \<Rightarrow> update_stats_from fs q (update_statistic n (PDict s) d))"

definition update_all_stats :: "stats_env \<Rightarrow> q_filter \<Rightarrow> real \<Rightarrow> real \<Rightarrow> db \<Rightarrow> unit result \<times> db" where
  "update_all_stats E q start_time now d = update_stats_from (STATS E start_time now) q d"

section \<open>The histogram has no gaps\<close>

definition look :: "time_dict \<Rightarrow> nat \<Rightarrow> nat \<Rightarrow> nat option" where
  "look t y m = (case dget t y of None \<Rightarrow> None | Some ms \<Rightarrow> dget ms m)"

definition time_ok :: "time_dict \<Rightarrow> bool" where
  "time_ok t \<longleftrightarrow> dict_ok t \<and> (\<forall>y ms. dget t y = Some ms \<longrightarrow> dict_ok ms)"

lemma time_okD: "time_ok t \<Longrightarrow> dget t y = Some ms \<Longrightarrow> dict_ok ms"
  by (simp add: time_ok_def)

lemma look_set_month: "look (set_month y m n t) y' m' = (if y' = y \<and> m' = m then Some n else look t y' m')"
  by (auto simp: look_def set_month_def split: option.splits)

lemma look_default_month:
  "look (default_month y m t) y' m' = (if y' = y \<and> m' = m \<and> dmem y t \<and> look t y m = None then Some 0 else look t y' m')"
  by (auto simp: look_def default_month_def dmem_def split: option.splits)

lemma look_default_year [simp]: "look (default_year y t) = look t"
  by (auto simp: look_def default_year_def dmem_def fun_eq_iff)

lemma dmem_defaults [simp]:
  "dmem y' (default_month y m t) = dmem y' t" "dmem y (default_year y t)"
  by (auto simp: default_month_def default_year_def dmem_def split: option.splits)

lemma dmem_fold_default_month [simp]: "dmem y' (fold (default_month y) ms t) = dmem y' t"
  by (induction ms arbitrary: t) simp_all

lemma look_fold_default_month: "dmem y t \<Longrightarrow> look (fold (default_month y) ms t) y' m' =
    (if y' = y \<and> m' \<in> set ms \<and> look t y m' = None then Some 0 else look t y' m')"
  by (induction ms arbitrary: t) (auto simp: look_default_month)

text \<open>The months between the first and the last one, both given by year and month.\<close>

definition in_span :: "nat \<times> nat \<Rightarrow> nat \<times> nat \<Rightarrow> nat \<Rightarrow> nat \<Rightarrow> bool" where
  "in_span = (\<lambda>(y0, m0) (y1, m1) y m. (if y = y0 then m0 else 1) \<le> m \<and> m \<le> (if y = y1 then m1 else 12))"

lemma look_fill_year: "look (fill_year a b y t) y' m' =
    (if y' = y \<and> in_span a b y m' \<and> look t y m' = None then Some 0 else look t y' m')"
  by (cases a; cases b) (auto simp: fill_year_def Let_def look_fold_default_month in_span_def)

lemma look_fold_fill_year: "look (fold (fill_year a b) ys t) y m =
    (if y \<in> set ys \<and> in_span a b y m \<and> look t y m = None then Some 0 else look t y m)"
  by (induction ys arbitrary: t) (auto simp: look_fill_year)

lemma time_ok_defaults [simp, intro]:
  "time_ok t \<Longrightarrow> time_ok (default_month y m t)" "time_ok t \<Longrightarrow> time_ok (default_year y t)"
  "time_ok t \<Longrightarrow> time_ok (set_month y m n t)"
  by (auto simp: time_ok_def default_month_def default_year_def set_month_def split: option.splits)

lemma time_ok_folds [simp, intro]:
  "time_ok t \<Longrightarrow> time_ok (fold (default_month y) ms t)" "time_ok t \<Longrightarrow> time_ok (fold (fill_year a b) ys t)"
proof -
  show d: "time_ok t \<Longrightarrow> time_ok (fold (default_month y) ms t)" for t y ms
    by (induction ms arbitrary: t) auto
  show "time_ok t \<Longrightarrow> time_ok (fold (fill_year a b) ys t)"
  proof (induction ys arbitrary: t)
    case (Cons y ys)
    have "time_ok (fill_year a b y t)"
      using Cons.prems by (cases a; cases b) (simp add: fill_year_def Let_def d del: upt_Suc)
    then show ?case using Cons.IH by simp
  qed simp
qed

lemma months_of_iff: "m \<in> set (months_of t y) \<longleftrightarrow> look t y m \<noteq> None"
  by (auto simp: look_def months_of_def dmem_iff[symmetric] dmem_def split: option.splits)

subsection \<open>The dict before filling\<close>

definition raw_time_dict :: "(nat \<times> nat \<times> nat) list \<Rightarrow> time_dict" where
  "raw_time_dict rds = fold (\<lambda>(y, m, n) t. if y > 1970 then set_month y m n t else t) rds []"

definition release_count :: "(nat \<times> nat \<times> nat) list \<Rightarrow> nat \<Rightarrow> nat \<Rightarrow> nat option" where
  "release_count rds y m = (if y > 1970 then map_of (map (\<lambda>(y, m, n). ((y, m), n)) (rev rds)) (y, m) else None)"

lemma fold_set_month: "look (fold (\<lambda>(y, m, n) t. if y > 1970 then set_month y m n t else t) rds t) y m =
    (case release_count rds y m of None \<Rightarrow> look t y m | Some n \<Rightarrow> Some n)"
  by (induction rds arbitrary: t) (auto simp: look_set_month release_count_def map_add_def split: option.splits prod.splits)

lemma look_raw: "look (raw_time_dict rds) y m = release_count rds y m"
  by (simp add: raw_time_dict_def fold_set_month look_def[of "[]"] split: option.splits)

definition years_have_months :: "time_dict \<Rightarrow> bool" where
  "years_have_months t \<longleftrightarrow> (\<forall>y. dmem y t \<longrightarrow> (\<exists>m. look t y m \<noteq> None))"

lemma raw_inv: "time_ok (raw_time_dict rds) \<and> years_have_months (raw_time_dict rds)"
proof -
  have "time_ok t \<and> years_have_months t \<Longrightarrow>
      time_ok (fold (\<lambda>(y, m, n) t. if y > 1970 then set_month y m n t else t) rds t) \<and>
      years_have_months (fold (\<lambda>(y, m, n) t. if y > 1970 then set_month y m n t else t) rds t)" for t
  proof (induction rds arbitrary: t)
    case (Cons r rds)
    obtain y m n where r: "r = (y, m, n)" by (cases r)
    have "years_have_months (set_month y m n t)" if "years_have_months t"
      using that by (auto simp: years_have_months_def look_set_month) (auto simp: set_month_def dmem_def split: if_splits)
    then show ?case using Cons r by auto
  qed simp
  from this[of "[]"] show ?thesis by (simp add: raw_time_dict_def time_ok_def years_have_months_def dmem_def)
qed

lemma set_dkeys_iff: "y \<in> set (dkeys t) \<longleftrightarrow> dmem y t"
  by (simp add: dmem_iff)

subsection \<open>The entries in order\<close>

definition month_index :: "nat \<Rightarrow> nat \<Rightarrow> nat" where
  "month_index y m = 12 * y + m - 1"

definition entry_index :: "nat \<times> nat \<times> nat \<Rightarrow> nat" where
  "entry_index = (\<lambda>(y, m, n). month_index y m)"

definition real_months :: "time_dict \<Rightarrow> bool" where
  "real_months t \<longleftrightarrow> (\<forall>y m. look t y m \<noteq> None \<longrightarrow> 1 \<le> m \<and> m \<le> 12)"

lemma month_index_less: "1 \<le> m \<Longrightarrow> m \<le> 12 \<Longrightarrow> 1 \<le> m' \<Longrightarrow> m' \<le> 12 \<Longrightarrow>
    month_index y m < month_index y' m' \<longleftrightarrow> y < y' \<or> (y = y' \<and> m < m')"
  by (auto simp: month_index_def)

lemma month_index_parts: "1 \<le> m \<Longrightarrow> m \<le> 12 \<Longrightarrow> month_index y m div 12 = y \<and> month_index y m mod 12 + 1 = m"
  by (cases m) (simp_all add: month_index_def)

lemma index_month_parts: "month_index (k div 12) (k mod 12 + 1) = k"
  by (simp add: month_index_def)

lemma set_time_entries:
  assumes "time_ok t"
  shows "(y, m, n) \<in> set (time_entries t) \<longleftrightarrow> look t y m = Some n"
proof -
  have "(y, m, n) \<in> set (time_entries t) \<longleftrightarrow> (\<exists>ms. (y, ms) \<in> set t \<and> (m, n) \<in> set ms)"
    by (auto simp: time_entries_def)
  also have "\<dots> \<longleftrightarrow> (\<exists>ms. dget t y = Some ms \<and> dget ms m = Some n)"
    using assms by (metis (no_types, opaque_lifting) dict_ok_def dkeys_def map_of_eq_Some_iff time_ok_def)
  finally show ?thesis by (auto simp: look_def split: option.splits)
qed

lemma sorted_wrt_sort_key_dict: "dict_ok d \<Longrightarrow> sorted_wrt (\<lambda>a b. fst a < fst b) (sort_key fst d)"
proof -
  assume "dict_ok d"
  then have "distinct (map fst (sort_key fst d))" by (simp add: dict_ok_def dkeys_def distinct_map)
  moreover have "sorted (map fst (sort_key fst d))" by simp
  ultimately have "sorted_wrt (<) (map fst (sort_key fst d))" unfolding strict_sorted_iff by simp
  then show ?thesis by (simp add: sorted_wrt_map)
qed

lemma sorted_wrt_concat_map:
  assumes "sorted_wrt R xs" and "\<And>x. x \<in> set xs \<Longrightarrow> sorted_wrt Q (f x)"
    and "\<And>x y a b. x \<in> set xs \<Longrightarrow> y \<in> set xs \<Longrightarrow> R x y \<Longrightarrow> a \<in> set (f x) \<Longrightarrow> b \<in> set (f y) \<Longrightarrow> Q a b"
  shows "sorted_wrt Q (concat (map f xs))"
  using assms by (induction xs) (fastforce simp: sorted_wrt_append)+

lemma time_dict_range:
  assumes "time_ok t" "real_months t" "(y, ms) \<in> set t" "(m, n) \<in> set ms"
  shows "1 \<le> m" "m \<le> 12"
proof -
  have "(y, m, n) \<in> set (time_entries t)" using assms(3,4) by (force simp: time_entries_def)
  then have "look t y m \<noteq> None" by (simp add: set_time_entries[OF assms(1)])
  then show "1 \<le> m" "m \<le> 12" using assms(2) unfolding real_months_def by blast+
qed

lemma sorted_time_entries:
  assumes "time_ok t" "real_months t"
  shows "sorted_wrt (\<lambda>a b. entry_index a < entry_index b) (time_entries t)"
  unfolding time_entries_def
proof (rule sorted_wrt_concat_map[where R = "\<lambda>a b. fst a < fst b"])
  show "sorted_wrt (\<lambda>a b. fst a < fst b) (sort_key fst t)"
    using assms(1) by (simp add: time_ok_def sorted_wrt_sort_key_dict)
next
  fix x assume mem: "x \<in> set (sort_key fst t)"
  obtain y ms where x: "x = (y, ms)" by (cases x)
  with mem have x2: "(y, ms) \<in> set t" by simp
  from this assms(1) have "dict_ok ms" by (auto simp: time_ok_def dict_ok_def dkeys_def)
  then have s: "sorted_wrt (\<lambda>a b. fst a < fst b) (sort_key fst ms)" by (rule sorted_wrt_sort_key_dict)
  show "sorted_wrt (\<lambda>a b. entry_index a < entry_index b) (case x of (y, ms) \<Rightarrow> map (\<lambda>(m, n). (y, m, n)) (sort_key fst ms))"
    unfolding x prod.case sorted_wrt_map
    by (rule sorted_wrt_mono_rel[OF _ s])
      (use time_dict_range[OF assms x2] in \<open>auto simp: entry_index_def month_index_less\<close>)
next
  fix x x' a b
  assume xs: "x \<in> set (sort_key fst t)" "x' \<in> set (sort_key fst t)" "fst x < fst x'"
    and ab: "a \<in> set (case x of (y, ms) \<Rightarrow> map (\<lambda>(m, n). (y, m, n)) (sort_key fst ms))"
    "b \<in> set (case x' of (y, ms) \<Rightarrow> map (\<lambda>(m, n). (y, m, n)) (sort_key fst ms))"
  obtain y ms y' ms' where x: "x = (y, ms)" "x' = (y', ms')" by (metis surj_pair)
  with xs have t: "(y, ms) \<in> set t" "(y', ms') \<in> set t" "y < y'" by simp_all
  from ab x obtain m n m' n' where "a = (y, m, n)" "(m, n) \<in> set ms" "b = (y', m', n')" "(m', n') \<in> set ms'" by auto
  then show "entry_index a < entry_index b"
    using time_dict_range[OF assms t(1)] time_dict_range[OF assms t(2)] t(3) by (simp add: entry_index_def month_index_less)
qed

text \<open>Two strictly ordered lists with the same elements are equal.\<close>

lemma strict_sorted_same_set:
  fixes f :: "'a \<Rightarrow> nat"
  assumes "sorted_wrt (\<lambda>a b. f a < f b) xs" "sorted_wrt (\<lambda>a b. f a < f b) ys" "set xs = set ys" "inj_on f (set xs)"
  shows "xs = ys"
proof -
  have s: "sorted (map f zs) \<and> distinct (map f zs)" if "sorted_wrt (\<lambda>a b. f a < f b) zs" for zs
    using that unfolding strict_sorted_iff[symmetric] by (simp add: sorted_wrt_map)
  have "map f xs = map f ys"
    using s[OF assms(1)] s[OF assms(2)] assms(3) by (intro sorted_distinct_set_unique) auto
  then show ?thesis using assms(3,4) by (simp add: inj_on_map_eq_map)
qed

subsection \<open>The filled dict\<close>

definition gap_count :: "(nat \<times> nat \<times> nat) list \<Rightarrow> nat \<Rightarrow> nat" where
  "gap_count rds k = (case release_count rds (k div 12) (k mod 12 + 1) of None \<Rightarrow> 0 | Some n \<Rightarrow> n)"

definition release_months :: "(nat \<times> nat \<times> nat) list \<Rightarrow> nat set" where
  "release_months rds = {month_index y m | y m n. (y, m, n) \<in> set rds \<and> y > 1970}"

lemma release_count_iff: "release_count rds y m \<noteq> None \<longleftrightarrow> y > 1970 \<and> (\<exists>n. (y, m, n) \<in> set rds)"
proof -
  let ?l = "map (\<lambda>(y, m, n). ((y, m), n)) (rev rds)"
  have "map_of ?l (y, m) \<noteq> None \<longleftrightarrow> (y, m) \<in> fst ` set ?l" by (simp only: map_of_eq_None_iff not_not)
  also have "\<dots> \<longleftrightarrow> (\<exists>n. (y, m, n) \<in> set rds)" by force
  finally show ?thesis by (auto simp: release_count_def)
qed

definition months_valid :: "(nat \<times> nat \<times> nat) list \<Rightarrow> bool" where
  "months_valid rds \<longleftrightarrow> (\<forall>(y, m, n) \<in> set rds. 1 \<le> m \<and> m \<le> 12)"

lemma release_count_month: "months_valid rds \<Longrightarrow> release_count rds y m = Some n \<Longrightarrow> 1 \<le> m \<and> m \<le> 12"
  using release_count_iff[of rds y m] by (auto simp: months_valid_def)

lemma release_months_eq: "release_months rds = {month_index y m | y m. release_count rds y m \<noteq> None}"
  unfolding release_months_def release_count_iff by blast

lemma finite_release_months: "finite (release_months rds)"
proof -
  have "release_months rds \<subseteq> (\<lambda>(y, m, n). month_index y m) ` set rds" by (force simp: release_months_def)
  then show ?thesis by (rule finite_subset) simp
qed

lemma raw_empty_iff: "raw_time_dict rds = [] \<longleftrightarrow> release_months rds = {}"
proof -
  let ?t = "raw_time_dict rds"
  have "?t = [] \<longleftrightarrow> (\<forall>y. \<not> dmem y ?t)" by (cases ?t) (auto simp: dmem_def)
  also have "\<dots> \<longleftrightarrow> (\<forall>y m. look ?t y m = None)"
  proof -
    have "dmem y ?t" if "look ?t y m \<noteq> None" for y m using that by (auto simp: look_def dmem_def split: option.splits)
    moreover have "\<exists>m. look ?t y m \<noteq> None" if "dmem y ?t" for y
      using that raw_inv[of rds] unfolding years_have_months_def by blast
    ultimately show ?thesis by metis
  qed
  also have "\<dots> \<longleftrightarrow> (\<forall>y m. release_count rds y m = None)" by (simp only: look_raw)
  also have "\<dots> \<longleftrightarrow> release_months rds = {}" unfolding release_months_eq by auto
  finally show ?thesis .
qed

text \<open>The first and the last month with a release.\<close>

definition first_release :: "(nat \<times> nat \<times> nat) list \<Rightarrow> nat \<times> nat" where
  "first_release rds = (let t = raw_time_dict rds; y = Min (set (dkeys t)) in (y, Min (set (months_of t y))))"

definition last_release :: "(nat \<times> nat \<times> nat) list \<Rightarrow> nat \<times> nat" where
  "last_release rds = (let t = raw_time_dict rds; y = Max (set (dkeys t)) in (y, Max (set (months_of t y))))"

lemma raw_years: "y \<in> set (dkeys (raw_time_dict rds)) \<longleftrightarrow> (\<exists>m. release_count rds y m \<noteq> None)"
  unfolding set_dkeys_iff
proof
  show "\<exists>m. release_count rds y m \<noteq> None" if "dmem y (raw_time_dict rds)"
    using that raw_inv[of rds] unfolding years_have_months_def look_raw by blast
  show "dmem y (raw_time_dict rds)" if "\<exists>m. release_count rds y m \<noteq> None"
    using that unfolding look_raw[symmetric] by (auto simp: look_def dmem_def split: option.splits)
qed

lemma raw_months: "m \<in> set (months_of (raw_time_dict rds) y) \<longleftrightarrow> release_count rds y m \<noteq> None"
  by (simp only: months_of_iff look_raw)

lemma raw_months_nonempty:
  assumes "y \<in> set (dkeys (raw_time_dict rds))"
  shows "set (months_of (raw_time_dict rds) y) \<noteq> {}"
proof -
  from assms obtain m where "release_count rds y m \<noteq> None" unfolding raw_years by blast
  then have "m \<in> set (months_of (raw_time_dict rds) y)" unfolding raw_months .
  then show ?thesis by (metis empty_iff)
qed

lemma first_last_release:
  assumes "release_months rds \<noteq> {}"
  shows "release_count rds (fst (first_release rds)) (snd (first_release rds)) \<noteq> None"
    and "release_count rds (fst (last_release rds)) (snd (last_release rds)) \<noteq> None"
proof -
  let ?t = "raw_time_dict rds"
  have ne: "set (dkeys ?t) \<noteq> {}" using assms raw_empty_iff[of rds] by (auto simp: dkeys_def)
  show "release_count rds (fst (first_release rds)) (snd (first_release rds)) \<noteq> None"
    unfolding raw_months[symmetric] first_release_def Let_def fst_conv snd_conv
    by (rule Min_in[OF finite_set raw_months_nonempty[OF Min_in[OF finite_set ne]]])
  show "release_count rds (fst (last_release rds)) (snd (last_release rds)) \<noteq> None"
    unfolding raw_months[symmetric] last_release_def Let_def fst_conv snd_conv
    by (rule Max_in[OF finite_set raw_months_nonempty[OF Max_in[OF finite_set ne]]])
qed

lemma release_in_span:
  assumes "months_valid rds" "release_count rds y m \<noteq> None"
  shows "fst (first_release rds) \<le> y \<and> y \<le> fst (last_release rds) \<and> in_span (first_release rds) (last_release rds) y m"
proof -
  have "y \<in> set (dkeys (raw_time_dict rds))" using assms(2) unfolding raw_years by blast
  moreover have "m \<in> set (months_of (raw_time_dict rds) y)" using assms(2) unfolding raw_months .
  moreover have "1 \<le> m \<and> m \<le> 12" using assms release_count_month by blast
  ultimately show ?thesis by (auto simp: in_span_def first_release_def last_release_def Let_def)
qed

definition pair_index :: "nat \<times> nat \<Rightarrow> nat" where
  "pair_index = (\<lambda>(y, m). month_index y m)"

lemma Min_Max_release_months:
  assumes "months_valid rds" "release_months rds \<noteq> {}"
  shows "Min (release_months rds) = pair_index (first_release rds)" "Max (release_months rds) = pair_index (last_release rds)"
proof -
  obtain y0 m0 y1 m1 where fl: "first_release rds = (y0, m0)" "last_release rds = (y1, m1)" by (metis surj_pair)
  note r = first_last_release[OF assms(2), unfolded fl fst_conv snd_conv]
  note rng = release_count_month[OF assms(1)]
  have between: "\<not> month_index y m < month_index y0 m0 \<and> \<not> month_index y1 m1 < month_index y m" if c: "release_count rds y m \<noteq> None" for y m
    using release_in_span[OF assms(1) c] rng[of y m] rng[of y0 m0] rng[of y1 m1] r c unfolding fl
    by (auto simp: month_index_less in_span_def)
  show "Min (release_months rds) = pair_index (first_release rds)"
    by (rule Min_eqI[OF finite_release_months])
      (use between r(1) in \<open>auto simp: release_months_eq pair_index_def fl linorder_not_less\<close>)
  show "Max (release_months rds) = pair_index (last_release rds)"
    by (rule Max_eqI[OF finite_release_months])
      (use between r(2) in \<open>auto simp: release_months_eq pair_index_def fl linorder_not_less\<close>)
qed

lemma filled_look:
  assumes "months_valid rds" "release_months rds \<noteq> {}"
  shows "look (build_time_dict rds) y m =
    (if 1 \<le> m \<and> m \<le> 12 \<and> Min (release_months rds) \<le> month_index y m \<and> month_index y m \<le> Max (release_months rds)
     then Some (gap_count rds (month_index y m)) else None)"
proof -
  obtain y0 m0 y1 m1 where fl: "first_release rds = (y0, m0)" "last_release rds = (y1, m1)" by (metis surj_pair)
  note r = first_last_release[OF assms(2), unfolded fl fst_conv snd_conv]
  note rng = release_count_month[OF assms(1)]
  note mm = Min_Max_release_months[OF assms, unfolded fl pair_index_def prod.case]
  have ne: "raw_time_dict rds \<noteq> []" using assms(2) raw_empty_iff by blast
  have "build_time_dict rds = fold (fill_year (first_release rds) (last_release rds)) [y0..<Suc y1] (raw_time_dict rds)"
    using ne fl unfolding build_time_dict_def fill_in_time_gaps_def raw_time_dict_def[symmetric] first_release_def last_release_def Let_def
    by simp
  then have fill: "look (build_time_dict rds) y m = (if y0 \<le> y \<and> y \<le> y1 \<and> in_span (y0, m0) (y1, m1) y m \<and> release_count rds y m = None
      then Some 0 else release_count rds y m)"
    by (simp add: look_fold_fill_year look_raw fl less_Suc_eq_le del: upt_Suc)
  have between: "(y0 \<le> y \<and> y \<le> y1 \<and> in_span (y0, m0) (y1, m1) y m) \<longleftrightarrow>
      (1 \<le> m \<and> m \<le> 12 \<and> \<not> month_index y m < month_index y0 m0 \<and> \<not> month_index y1 m1 < month_index y m)"
    using rng[of y0 m0] rng[of y1 m1] r by (auto simp: month_index_less in_span_def)
  show ?thesis
  proof (cases "y0 \<le> y \<and> y \<le> y1 \<and> in_span (y0, m0) (y1, m1) y m")
    case True
    then have "gap_count rds (month_index y m) = (case release_count rds y m of None \<Rightarrow> 0 | Some n \<Rightarrow> n)"
      using between month_index_parts[of m y] unfolding gap_count_def by auto
    then show ?thesis using True between mm fill by (auto split: option.splits)
  next
    case False
    then have "release_count rds y m = None" using release_in_span[OF assms(1), unfolded fl fst_conv] by blast
    then show ?thesis using False between mm fill by auto
  qed
qed

lemma build_time_dict_ok: "time_ok (build_time_dict rds)"
  unfolding build_time_dict_def fill_in_time_gaps_def raw_time_dict_def[symmetric] Let_def
  using raw_inv[of rds] by (simp add: time_ok_folds time_ok_def[of "[]"] del: upt_Suc)

lemma build_time_dict_empty: "release_months rds = {} \<Longrightarrow> build_time_dict rds = []"
  using raw_empty_iff[of rds] by (simp add: build_time_dict_def fill_in_time_gaps_def raw_time_dict_def[symmetric])

lemma time_entries_filled:
  assumes "months_valid rds" "release_months rds \<noteq> {}"
  shows "time_entries (build_time_dict rds) = map (\<lambda>k. (k div 12, k mod 12 + 1, gap_count rds k))
    [Min (release_months rds)..<Suc (Max (release_months rds))]" (is "?l = ?r")
proof (rule strict_sorted_same_set[where f = entry_index])
  note look = filled_look[OF assms]
  have "real_months (build_time_dict rds)" unfolding real_months_def look by auto
  then show s: "sorted_wrt (\<lambda>a b. entry_index a < entry_index b) ?l"
    by (rule sorted_time_entries[OF build_time_dict_ok])
  show "sorted_wrt (\<lambda>a b. entry_index a < entry_index b) ?r"
    by (simp add: sorted_wrt_map entry_index_def index_month_parts[simplified] del: upt_Suc)
  have "(y, m, n) \<in> set ?l \<longleftrightarrow> (y, m, n) \<in> set ?r" for y m n
  proof -
    have "(y, m, n) \<in> set ?l \<longleftrightarrow> 1 \<le> m \<and> m \<le> 12 \<and> month_index y m \<in> {Min (release_months rds)..Max (release_months rds)} \<and> n = gap_count rds (month_index y m)"
      unfolding set_time_entries[OF build_time_dict_ok] look by auto
    also have "\<dots> \<longleftrightarrow> (\<exists>k. k \<in> {Min (release_months rds)..Max (release_months rds)} \<and> (y, m, n) = (k div 12, k mod 12 + 1, gap_count rds k))"
      using month_index_parts[of m y] index_month_parts by (auto simp del: One_nat_def)
    also have "\<dots> \<longleftrightarrow> (y, m, n) \<in> set ?r" by (auto simp del: upt_Suc simp: less_Suc_eq_le)
    finally show ?thesis .
  qed
  then show "set ?l = set ?r" by auto
  have "distinct (map entry_index ?l)"
    using s unfolding sorted_wrt_map[symmetric, of "(<)" entry_index] strict_sorted_iff by blast
  then show "inj_on entry_index (set ?l)" by (simp add: distinct_map)
qed

text \<open>The histogram of release dates has no gaps. Whatever order the database returns the
  months in, the entries are all months from the first to the last release after 1970, in
  calendar order and each once, with the number of firmware released in the month and 0
  where there is none; without any release it is empty.
\<close>

theorem release_date_histogram_has_no_gaps:
  assumes "months_valid rds"
  shows "build_stats_entry_from_date_query rds = Inr (if release_months rds = {} then [] else
    map (\<lambda>k. (PStr (MONTH_NAMES ! (k mod 12) @ '' '' @ str_nat (k div 12)), gap_count rds k))
      [Min (release_months rds)..<Suc (Max (release_months rds))])"
proof (cases "release_months rds = {}")
  case True
  then show ?thesis by (simp add: build_stats_entry_from_date_query_def build_time_dict_empty time_entries_def)
next
  case False
  have "mapM_r (\<lambda>(y, m, n). map_r (\<lambda>name. (PStr (name @ '' '' @ str_nat y), n)) (get_month_name m))
      (map (\<lambda>k. (k div 12, k mod 12 + 1, gap_count rds k)) ks) =
    Inr (map (\<lambda>k. (PStr (MONTH_NAMES ! (k mod 12) @ '' '' @ str_nat (k div 12)), gap_count rds k)) ks)" for ks
  proof (induction ks)
    case (Cons k ks)
    have "k mod 12 < 12" by simp
    then show ?case using Cons by (simp add: get_month_name_def)
  qed simp
  then show ?thesis using False by (simp add: build_stats_entry_from_date_query_def time_entries_filled[OF assms False] del: upt_Suc)
qed

lemma release_months_set: "release_months rds = set (map (\<lambda>(y, m, n). month_index y m) (filter (\<lambda>(y, _). y > 1970) rds))"
  by (force simp: release_months_def)

theorem release_date_histogram_has_no_gaps_witness:
  "build_stats_entry_from_date_query [(2021, 1, 4), (2020, 11, 2), (1970, 1, 9)] =
    Inr [(PStr ''November 2020'', 2), (PStr ''December 2020'', 0), (PStr ''January 2021'', 4)]"
proof -
  let ?rds = "[(2021, 1, 4), (2020, 11, 2), (1970, 1, 9)] :: (nat \<times> nat \<times> nat) list"
  have v: "months_valid ?rds" by (simp add: months_valid_def)
  have m: "release_months ?rds = {24252, 24250}"
    by (simp add: release_months_set month_index_def)
  have c: "gap_count ?rds 24250 = 2" "gap_count ?rds 24251 = 0" "gap_count ?rds 24252 = 4"
    by (simp_all add: gap_count_def release_count_def)
  have u: "[Min {24252, 24250}..<Suc (Max {24252, 24250})] = [24250, 24251, 24252 :: nat]"
    by (simp add: upt_rec)
  have s: "str_nat 2020 = ''2020''" "str_nat 2021 = ''2021''" by code_simp+
  show ?thesis using release_date_histogram_has_no_gaps[OF v] unfolding m u by (simp add: c[unfolded One_nat_def] s MONTH_NAMES_def)
qed

end
