(* ===== verification/StatisticViews.thy ===== *)
theory StatisticViews
  imports Statistics RestApi
begin

text \<open>
  What the front end shows of the statistics: the page of \<open>web_interface/components/statistic_routes.py\<close>,
  with the stored entries or, when a filter is set, with live ones, and the endpoints of
  \<open>web_interface/rest/rest_statistics.py\<close>.
\<close>

section \<open>The page\<close>

text \<open>\<open>apply_filters_to_query\<close> on the empty query: the filters set in the request.\<close>

definition apply_filters_to_query :: "request_args \<Rightarrow> q_filter \<Rightarrow> q_filter" where
  "apply_filters_to_query args query = fold (\<lambda>key q. case dget args key of
      Some (c # cs) \<Rightarrow> dput key (c # cs) q | _ \<Rightarrow> q) [''device_class'', ''vendor''] query"

definition PAGE_STATS :: "(string \<times> string) list" where
  "PAGE_STATS = [(''general_stats'', ''general''), (''firmware_meta_stats'', ''firmware_meta''), (''file_type_stats'', ''file_type''),
     (''crypto_material_stats'', ''crypto_material''), (''unpacker_stats'', ''unpacking''), (''ip_and_uri_stats'', ''ips_and_uris''),
     (''architecture_stats'', ''architecture''), (''release_date_stats'', ''release_date''),
     (''exploit_mitigations_stats'', ''exploit_mitigations''), (''known_vulnerabilities_stats'', ''known_vulnerabilities''),
     (''software_stats'', ''software_components''), (''elf_executable_stats'', ''elf_executable'')]"

type_synonym page_stats = "(string, (string, pyval) dict option) dict"

definition get_stats_from_db :: "db \<Rightarrow> page_stats result" where
  "get_stats_from_db d = mapM_r (\<lambda>(label, n). map_r (Pair label) (get_statistic d n)) PAGE_STATS"

definition LIVE_STATS :: "stats_env \<Rightarrow> real \<Rightarrow> (string \<times> (db \<Rightarrow> q_filter \<Rightarrow> (string, pyval) dict result)) list" where
  "LIVE_STATS E now = [(''firmware_meta_stats'', get_firmware_meta_stats), (''file_type_stats'', get_file_type_stats),
     (''crypto_material_stats'', get_crypto_material_stats), (''unpacker_stats'', get_unpacking_stats E),
     (''ip_and_uri_stats'', get_ip_stats), (''architecture_stats'', get_architecture_stats), (''release_date_stats'', get_time_stats),
     (''general_stats'', \<lambda>d q. Inr (get_general_stats d q now now)),
     (''exploit_mitigations_stats'', get_exploit_mitigations_stats), (''known_vulnerabilities_stats'', get_known_vulnerabilities_stats),
     (''software_stats'', get_software_components_stats), (''elf_executable_stats'', \<lambda>d _. Inr (get_executable_stats E d))]"

definition get_live_stats :: "stats_env \<Rightarrow> real \<Rightarrow> db \<Rightarrow> q_filter \<Rightarrow> page_stats result" where
  "get_live_stats E now d q = mapM_r (\<lambda>(label, f). map_r (\<lambda>s. (label, Some s)) (f d q)) (LIVE_STATS E now)"

definition show_statistics :: "stats_env \<Rightarrow> real \<Rightarrow> db \<Rightarrow> request_args \<Rightarrow> page_stats result" where
  "show_statistics E now d args = (let filter_query = apply_filters_to_query args [] in
     if filter_query = [] then get_stats_from_db d else get_live_stats E now d filter_query)"

section \<open>The REST endpoints\<close>

definition STATISTICS :: "string list" where
  "STATISTICS = [''architecture'', ''crypto_material'', ''elf_executable'', ''exploit_mitigations'', ''file_type'', ''firmware_meta'',
     ''general'', ''ips_and_uris'', ''known_vulnerabilities'', ''release_date'', ''software_components'', ''unpacking'']"

definition delete_id_and_check_empty_stat :: "(string, (string, pyval) dict option) dict \<Rightarrow> (string, pyval) dict result" where
  "delete_id_and_check_empty_stat = mapM_r (\<lambda>(stat, v). case v of
      None \<Rightarrow> Inr (stat, PDict [])
    | Some s \<Rightarrow> if dmem ''_id'' s then Inr (stat, PDict (ddel ''_id'' s)) else Inl KeyError)"

definition rest_statistics :: "db \<Rightarrow> (string, pyval) dict result" where
  "rest_statistics d = bind_r (mapM_r (\<lambda>stat. map_r (Pair stat) (get_statistic d stat)) STATISTICS) delete_id_and_check_empty_stat"

definition rest_statistic :: "rest_env \<Rightarrow> db \<Rightarrow> string \<Rightarrow> rest_response result" where
  "rest_statistic R d stat_name =
     bind_r (get_statistic d stat_name) (\<lambda>s.
     bind_r (delete_id_and_check_empty_stat [(stat_name, s)]) (\<lambda>statistic_dict.
       if stat_name \<notin> set STATISTICS
       then Inr (error_message R (''A statistic with the ID '' @ stat_name @ '' does not exist'') ''/rest/statistics''
              (Some [(''stat_name'', PStr stat_name)]) 400)
       else Inr (statistic_dict, 200)))"

section \<open>Properties\<close>

text \<open>The statistics do not read the table they are stored in.\<close>

named_theorems stats_frame

lemma frame_rows [stats_frame]:
  "fw_rows (update_statistic n v d) = fw_rows d" "all_fw_rows (update_statistic n v d) = all_fw_rows d"
  "plugin_rows (update_statistic n v d) = plugin_rows d" "firmware_tbl (update_statistic n v d) = firmware_tbl d"
  "file_tbl (update_statistic n v d) = file_tbl d" "root_firmware (update_statistic n v d) = root_firmware d"
  by (simp_all add: fw_rows_def all_fw_rows_def plugin_rows_def root_firmware_def update_statistic_def fun_eq_iff cong: if_cong)

lemma frame_queries [stats_frame]:
  "count_distinct_values (update_statistic n v d) = count_distinct_values d"
  "count_distinct_in_analysis (update_statistic n v d) = count_distinct_in_analysis d"
  "count_distinct_values_in_array (update_statistic n v d) = count_distinct_values_in_array d"
  "count_values_in_summary (update_statistic n v d) = count_values_in_summary d"
  "get_arch_stats (update_statistic n v d) = get_arch_stats d"
  "unpacker_rows (update_statistic n v d) = unpacker_rows d"
  "file_rows (update_statistic n v d) = file_rows d"
  "get_release_date_stats (update_statistic n v d) = get_release_date_stats d"
  "get_software_components (update_statistic n v d) = get_software_components d"
  "get_used_unpackers (update_statistic n v d) = get_used_unpackers d"
  "get_regex_mime_match_count r (update_statistic n v d) = get_regex_mime_match_count r d"
  by (simp_all add: fun_eq_iff stats_frame count_distinct_values_def count_distinct_in_analysis_def count_distinct_values_in_array_def
      count_values_in_summary_def get_arch_stats_def unpacker_rows_def file_rows_def get_release_date_stats_def
      get_software_components_def get_used_unpackers_def get_regex_mime_match_count_def)

lemma frame_unpacking [stats_frame]:
  "get_unpacking_file_types (update_statistic n v d) = get_unpacking_file_types d"
  "get_unpacking_entropy fl (update_statistic n v d) = get_unpacking_entropy fl d"
  by (simp_all add: fun_eq_iff stats_frame get_unpacking_file_types_def get_unpacking_entropy_def)

lemma frame_stats:
  assumes "(m, f) \<in> set (STATS E t0 t)"
  shows "f (update_statistic n v d) q = f d q"
  using assms
  by (auto simp: STATS_def stats_frame get_firmware_meta_stats_def get_file_type_stats_def get_crypto_material_stats_def
      get_unpacking_stats_def get_architecture_stats_def get_ip_stats_def get_time_stats_def get_exploit_mitigations_stats_def
      get_known_vulnerabilities_stats_def get_software_components_stats_def get_executable_stats_def get_general_stats_def
      get_count_def get_sum_def get_avg_def row_sizes_def)

lemmas stats_defs = get_firmware_meta_stats_def get_file_type_stats_def get_crypto_material_stats_def
  get_unpacking_stats_def get_architecture_stats_def get_ip_stats_def get_time_stats_def get_exploit_mitigations_stats_def
  get_known_vulnerabilities_stats_def get_software_components_stats_def get_executable_stats_def get_general_stats_def

lemma update_stats_stored:
  assumes "update_stats_from fs q d = (Inr (), d')" "distinct (map fst fs)"
    and "\<And>m f n v e. (m, f) \<in> set fs \<Longrightarrow> f (update_statistic n v e) q = f e q"
  shows "(\<forall>(n, f) \<in> set fs. \<exists>s. f d q = Inr s \<and> dget (stats_tbl d') n = Some (PDict s))
    \<and> (\<forall>n. n \<notin> fst ` set fs \<longrightarrow> dget (stats_tbl d') n = dget (stats_tbl d) n)"
  using assms
proof (induction fs arbitrary: d)
  case (Cons p fs)
  obtain n f where p: "p = (n, f)" by (cases p)
  with Cons.prems(1) obtain s where s: "f d q = Inr s" "update_stats_from fs q (update_statistic n (PDict s) d) = (Inr (), d')"
    by (auto split: sum.splits)
  have frame: "\<And>m f n v e. (m, f) \<in> set fs \<Longrightarrow> f (update_statistic n v e) q = f e q"
    using Cons.prems(3) by (meson list.set_intros(2))
  have IH: "(\<forall>(n', f) \<in> set fs. \<exists>s'. f d q = Inr s' \<and> dget (stats_tbl d') n' = Some (PDict s'))
    \<and> (\<forall>m. m \<notin> fst ` set fs \<longrightarrow> dget (stats_tbl d') m = dget (stats_tbl (update_statistic n (PDict s) d)) m)"
  proof -
    have "distinct (map fst fs)" using Cons.prems(2) by simp
    from Cons.IH[OF s(2) this] frame show ?thesis by (fastforce simp: frame)
  qed
  have "n \<notin> fst ` set fs" using Cons.prems(2) p by simp
  then have "dget (stats_tbl d') n = Some (PDict s)" using IH by (simp add: update_statistic_def)
  then show ?case using IH s(1) p by (auto simp: update_statistic_def)
qed simp

lemma STATS_names: "map fst (STATS E t0 t) = [''firmware_meta'', ''file_type'', ''crypto_material'', ''unpacking'', ''architecture'',
    ''ips_and_uris'', ''release_date'', ''exploit_mitigations'', ''known_vulnerabilities'', ''software_components'', ''elf_executable'', ''general'']"
  by (simp add: STATS_def)

lemma STATISTICS_computed: "set STATISTICS = fst ` set (STATS E t0 t)"
proof -
  have "set STATISTICS = set (map fst (STATS E t0 t))" unfolding STATS_names by (auto simp: STATISTICS_def)
  then show ?thesis by simp
qed

lemma dupdate_disjoint: "dict_ok e \<Longrightarrow> set (dkeys d) \<inter> set (dkeys e) = {} \<Longrightarrow> dupdate d e = d @ e"
proof (induction e arbitrary: d)
  case (Cons kv e)
  obtain k v where kv: "kv = (k, v)" by (cases kv)
  have "dupdate d (kv # e) = dupdate (d @ [(k, v)]) e" using Cons.prems by (simp add: dupdate_def kv dput_new)
  also have "\<dots> = (d @ [(k, v)]) @ e"
    by (rule Cons.IH) (use Cons.prems in \<open>auto simp: kv dict_ok_def dkeys_def\<close>)
  finally show ?case by (simp add: kv)
qed (simp add: dupdate_def)

lemma id_stripped: "dict_ok s \<Longrightarrow> ''_id'' \<notin> set (dkeys s) \<Longrightarrow> ddel ''_id'' (dupdate [(''_id'', x)] s) = s"
  by (subst dupdate_disjoint) (auto simp: dkeys_def delete_conv' dest: map_of_SomeD)

lemma stats_keys:
  assumes "(n, f) \<in> set (STATS E t0 t)" "f d q = Inr s"
  shows "dict_ok s \<and> ''_id'' \<notin> set (dkeys s)"
  using assms
  by (auto simp: STATS_def result_simps get_firmware_meta_stats_def get_file_type_stats_def get_crypto_material_stats_def
      get_unpacking_stats_def get_architecture_stats_def get_ip_stats_def get_time_stats_def get_exploit_mitigations_stats_def
      get_known_vulnerabilities_stats_def get_software_components_stats_def get_executable_stats_def get_general_stats_def
      Let_def dict_ok_def dkeys_def split: prod.splits)

text \<open>The statistics are served as computed. After a successful update of all statistics the
  REST interface returns exactly the known statistics, each with the values computed from the
  database before the update and without the identifier it is stored under.
\<close>

theorem statistics_are_served:
  assumes "update_all_stats E q t0 t1 d = (Inr (), d')"
  shows "\<exists>r. rest_statistics d' = Inr r \<and> dkeys r = STATISTICS \<and>
    (\<forall>(n, f) \<in> set (STATS E t0 t1). \<exists>s. f d q = Inr s \<and> dget r n = Some (PDict s))"
proof -
  let ?fs = "STATS E t0 t1"
  have names: "distinct (map fst ?fs)" unfolding STATS_names by simp
  have stored: "\<forall>(n, f) \<in> set ?fs. \<exists>s. f d q = Inr s \<and> dget (stats_tbl d') n = Some (PDict s)"
    using update_stats_stored[of ?fs q d d'] assms names frame_stats unfolding update_all_stats_def by blast
  define served where "served = (\<lambda>n. case dget (stats_tbl d') n of Some (PDict s) \<Rightarrow> PDict s | _ \<Rightarrow> PNone)"
  have one: "\<exists>s. dget (stats_tbl d') n = Some (PDict s) \<and> get_statistic d' n = Inr (Some (dupdate [(''_id'', PStr n)] s))
      \<and> dict_ok s \<and> ''_id'' \<notin> set (dkeys s)" if "n \<in> set STATISTICS" for n
  proof -
    from that obtain f where f: "(n, f) \<in> set ?fs" unfolding STATISTICS_computed[of E t0 t1] by auto
    with stored obtain s where "f d q = Inr s" "dget (stats_tbl d') n = Some (PDict s)" by blast
    then show ?thesis using stats_keys[OF f] by (auto simp: get_statistic_def stats_entry_to_dict_def)
  qed
  have "bind_r (mapM_r (\<lambda>stat. map_r (Pair stat) (get_statistic d' stat)) ns) delete_id_and_check_empty_stat
      = Inr (map (\<lambda>n. (n, served n)) ns)" if "set ns \<subseteq> set STATISTICS" for ns
    using that
  proof (induction ns)
    case (Cons n ns)
    from Cons.prems one[of n] obtain s where s: "dget (stats_tbl d') n = Some (PDict s)"
      "get_statistic d' n = Inr (Some (dupdate [(''_id'', PStr n)] s))" "dict_ok s" "''_id'' \<notin> set (dkeys s)" by auto
    have "dmem ''_id'' (dupdate [(''_id'', PStr n)] s)" by (subst dupdate_disjoint) (use s(3,4) in \<open>auto simp: dmem_def\<close>)
    then have "delete_id_and_check_empty_stat [(n, Some (dupdate [(''_id'', PStr n)] s))] = Inr [(n, served n)]"
      using s(1) by (simp add: delete_id_and_check_empty_stat_def id_stripped[OF s(3,4)] served_def)
    with Cons s(2) show ?case
      by (auto simp: delete_id_and_check_empty_stat_def result_simps split: sum.splits)
  qed (simp add: delete_id_and_check_empty_stat_def)
  from this[of STATISTICS] have r: "rest_statistics d' = Inr (map (\<lambda>n. (n, served n)) STATISTICS)"
    by (simp add: rest_statistics_def)
  have "\<exists>s. f d q = Inr s \<and> dget (map (\<lambda>n. (n, served n)) STATISTICS) n = Some (PDict s)" if f: "(n, f) \<in> set ?fs" for n f
  proof -
    from stored f obtain s where s: "f d q = Inr s" "dget (stats_tbl d') n = Some (PDict s)" by blast
    have "n \<in> set STATISTICS" using f unfolding STATISTICS_computed[of E t0 t1] by force
    then show ?thesis using s by (simp add: map_of_map_restrict restrict_map_def served_def)
  qed
  then show ?thesis using r by (auto simp: dkeys_def comp_def)
qed


lemma update_stats_total:
  assumes "\<And>m f n v e. (m, f) \<in> set fs \<Longrightarrow> f (update_statistic n v e) q = f e q" "\<And>m f. (m, f) \<in> set fs \<Longrightarrow> \<exists>s. f d q = Inr s"
  shows "fst (update_stats_from fs q d) = Inr ()"
  using assms
proof (induction fs arbitrary: d)
  case (Cons p fs)
  obtain n f where p: "p = (n, f)" by (cases p)
  obtain s where s: "f d q = Inr s" using Cons.prems(2)[of n f] p by auto
  have "fst (update_stats_from fs q (update_statistic n (PDict s) d)) = Inr ()"
  proof (rule Cons.IH)
    show fr: "g (update_statistic k v e) q = g e q" if "(m, g) \<in> set fs" for m g k v e
      using that Cons.prems(1)[of m g] by simp
    show "\<exists>t. g (update_statistic n (PDict s) d) q = Inr t" if "(m, g) \<in> set fs" for m g
      using that Cons.prems(2)[of m g] fr[OF that] by simp
  qed
  then show ?case by (simp add: p s)
qed simp

lemma empty_db_queries:
  "plugin_rows empty_db p = []" "firmware_tbl empty_db = []" "file_tbl empty_db = []"
  by (simp_all add: empty_db_def plugin_rows_def)

definition ex_stats_env :: stats_env where
  "ex_stats_env = \<lparr>se_regexp = (\<lambda>_ _. False), se_float = (\<lambda>_. None)\<rparr>"

theorem statistics_are_served_witness:
  "\<exists>d' r. update_all_stats ex_stats_env [] 0 1 empty_db = (Inr (), d') \<and> rest_statistics d' = Inr r \<and> dkeys r = STATISTICS"
proof -
  have sorted: "sort_tuples [] = Inr []" "count_occurrences [] = Inr []"
    by (simp_all add: sort_tuples_def count_occurrences_def group_count_def)
  have empty: "count_values_in_summary empty_db p [] b = Inr []" "count_distinct_in_analysis empty_db k p b [] = Inr []"
    "count_distinct_values empty_db c [] = Inr []" "count_distinct_values_in_array empty_db k p [] = Inr []"
    "get_unpacking_file_types empty_db k [] = Inr []" "get_unpacking_entropy fl empty_db k [] = Inr 0"
    "get_used_unpackers empty_db [] = Inr []" "get_software_components empty_db [] = Inr []" "get_arch_stats empty_db [] = []"
    "get_release_date_stats empty_db [] = []" for p b k c fl
    by (simp_all add: count_values_in_summary_def count_distinct_in_analysis_def count_distinct_values_def joined_rows_by_def
      count_distinct_values_in_array_def get_unpacking_file_types_def get_unpacking_entropy_def get_used_unpackers_def
      get_software_components_def get_arch_stats_def get_release_date_stats_def joined_if_filtered_def unpacker_rows_def
      empty_db_queries sorted result_values_def array_elements_def group_count_def stats_avg_def Let_def)
  have rel: "get_relative_stats ks [] = Inr []" for ks
  proof -
    have "keyword_counts ks [] = Inr []" unfolding keyword_counts_def by (induction ks) auto
    then show ?thesis by (simp add: get_relative_stats_def)
  qed
  have "\<exists>s. f empty_db [] = Inr s" if "(n, f) \<in> set (STATS ex_stats_env 0 1)" for n f
    using that
    by (auto simp: STATS_def stats_defs empty rel sorted Let_def dvalues_def remove_location_info_def MITIGATIONS_def
      build_stats_entry_from_date_query_def build_time_dict_def fill_in_time_gaps_def time_entries_def)
  then have "fst (update_all_stats ex_stats_env [] 0 1 empty_db) = Inr ()"
    unfolding update_all_stats_def by (intro update_stats_total frame_stats) blast+
  then obtain d' where "update_all_stats ex_stats_env [] 0 1 empty_db = (Inr (), d')" by (cases "update_all_stats ex_stats_env [] 0 1 empty_db") auto
  from statistics_are_served[OF this] this show ?thesis by blast
qed

end
