(* ===== verification/SearchRoutes.thy ===== *)
theory SearchRoutes
  imports RestApi
begin

text \<open>
  The search pages of the web interface: \<open>web_interface/components/database_routes.py\<close>,
  \<open>web_interface/pagination.py\<close> and the search cache of
  \<open>storage/db_interface_frontend_editing.py\<close>. JSON, \<open>repr\<close> and SQL comparisons are those of
  \<open>rest_env\<close>; templates are pages with the data given to them. The decoder of YARA rules
  (\<open>bytes.decode\<close> with replacement) and the escaping of file names are parameters.
\<close>

section \<open>Paging\<close>

record search_cfg =
  sc_results_per_page :: int
  sc_file_hashes :: string
  sc_decode :: "bytes \<Rightarrow> string"
  sc_escape :: "string \<Rightarrow> string"

definition int_arg :: "request_args \<Rightarrow> string \<Rightarrow> int \<Rightarrow> int result" where
  "int_arg args k def = (case dget args k of None \<Rightarrow> Inr def | Some s \<Rightarrow> py_int s)"

text \<open>An empty number of results per page is the configured one; \<open>int('')\<close> raises for the page.\<close>

definition extract_pagination_from_request :: "search_cfg \<Rightarrow> request_args \<Rightarrow> (int \<times> int \<times> int) result" where
  "extract_pagination_from_request C args =
     bind_r (int_arg args ''page'' 1) (\<lambda>page.
     bind_r (if dget args ''per_page'' = Some [] then Inr (sc_results_per_page C)
             else int_arg args ''per_page'' (sc_results_per_page C)) (\<lambda>per_page.
       Inr (page, per_page, (page - 1) * per_page)))"

section \<open>The cache of searches\<close>

text \<open>\<open>add_to_search_query_cache\<close>: the key is the hash of the title only.\<close>

definition add_to_search_query_cache ::
  "(bytes \<Rightarrow> string) \<Rightarrow> string \<Rightarrow> string \<Rightarrow> db \<Rightarrow> (string \<times> db) result" where
  "add_to_search_query_cache sha search_query query_title d =
     map_r (\<lambda>query_uid. (query_uid, d\<lparr>search_cache_tbl :=
         ddel query_uid (search_cache_tbl d) @ [(query_uid, \<lparr>sc_query = search_query, sc_yara_rule = query_title\<rparr>)]\<rparr>))
       (create_uid sha (RBytes (utf8_encode query_title)))"

section \<open>Search parameters\<close>

text \<open>
  \<open>apply_filters_to_query\<close> on JSON text. A query that is no dict is returned as it is, unless
  a filter is to be added.
\<close>

definition filter_step :: "request_args \<Rightarrow> string \<Rightarrow> pyval \<Rightarrow> pyval result" where
  "filter_step args key q = (case dget args key of
      Some (c # cs) \<Rightarrow> (case q of PDict d \<Rightarrow> Inr (PDict (dput key (PStr (c # cs)) d)) | _ \<Rightarrow> Inl AttributeError)
    | _ \<Rightarrow> Inr q)"

definition apply_filters_to_json :: "rest_env \<Rightarrow> request_args \<Rightarrow> string \<Rightarrow> pyval result" where
  "apply_filters_to_json R args query = (case re_json R query of
      None \<Rightarrow> Inl ValueError
    | Some q \<Rightarrow> foldM_r (filter_step args) [''device_class'', ''vendor''] q)"

definition DATE_MONTHS :: "string list" where
  "DATE_MONTHS = [''january'', ''february'', ''march'', ''april'', ''may'', ''june'', ''july'', ''august'',
     ''september'', ''october'', ''november'', ''december'']"

text \<open>\<open>strptime(s, '%B %Y')\<close>: a month in any case, blanks, four digits and nothing else.\<close>

definition parse_month_year :: "string \<Rightarrow> (nat \<times> nat) option" where
  "parse_month_year s = (case filter (\<lambda>i. startswith (lower s) (DATE_MONTHS ! i)) [0..<12] of
      [] \<Rightarrow> None
    | i # _ \<Rightarrow>
        let r = drop (length (DATE_MONTHS ! i)) s; y = dropWhile is_space r in
        if r \<noteq> y \<and> length y = 4 \<and> list_all is_digit y \<and> y \<noteq> ''0000''
        then Some (foldl (\<lambda>n c. 10 * n + digit_value c) 0 y, Suc i) else None)"

definition add_date_to_query :: "pyval \<Rightarrow> string \<Rightarrow> pyval" where
  "add_date_to_query query date =
     (case parse_month_year (filter (\<lambda>c. c \<noteq> CHR 0x27) date) of
        None \<Rightarrow> query
      | Some (y, m) \<Rightarrow>
          let v = PDict [(''$regex'', PStr (str_nat y @ ''-'' @ pad_to 2 (str_nat m)))] in
          (case query of PDict d \<Rightarrow> PDict (dput ''release_date'' v d) | _ \<Rightarrow> query))"

text \<open>
  The title is the query itself (the same object, so it shows what the search makes of it)
  unless it is the rule of a cached search, or the query \<open>{}\<close> that a date replaces.
\<close>

record search_parameters =
  sp_query :: pyval
  sp_title :: "pyval option"
  sp_only_firmware :: bool
  sp_inverted :: bool

definition flag_arg :: "request_args \<Rightarrow> string \<Rightarrow> bool" where
  "flag_arg args k = (dget args k = Some ''True'')"

definition get_search_parameters :: "rest_env \<Rightarrow> db \<Rightarrow> request_args \<Rightarrow> search_parameters result" where
  "get_search_parameters R d args =
     bind_r (case dget args ''query'' of
        Some (c # cs) \<Rightarrow>
          if is_uid (PStr (c # cs)) then
            (case get_query_from_cache d (c # cs) of
               None \<Rightarrow> Inl AttributeError
             | Some (q, rule) \<Rightarrow> Inr (q, Some (PStr rule)))
          else Inr (c # cs, None)
      | _ \<Rightarrow> Inr (''{}'', None)) (\<lambda>(query, title).
     bind_r (apply_filters_to_json R args query) (\<lambda>q.
       Inr (case dget args ''date'' of
           Some (c # cs) \<Rightarrow>
             \<lparr>sp_query = add_date_to_query q (c # cs),
              sp_title = (if title = None \<and> q = PDict [] then Some q else title),
              sp_only_firmware = flag_arg args ''only_firmwares'', sp_inverted = flag_arg args ''inverted''\<rparr>
         | _ \<Rightarrow> \<lparr>sp_query = q, sp_title = title,
              sp_only_firmware = flag_arg args ''only_firmwares'', sp_inverted = flag_arg args ''inverted''\<rparr>)))"

section \<open>Browsing\<close>

text \<open>
  A query that is no dict has no \<open>items\<close>. A negative offset or limit is an error of the
  database, after the query has been built.
\<close>

definition search_dict_of :: "pyval \<Rightarrow> search result" where
  "search_dict_of q = (case q of PDict d \<Rightarrow> Inr d | _ \<Rightarrow> Inl TypeError)"

definition search_database ::
  "rest_env \<Rightarrow> db \<Rightarrow> pyval \<Rightarrow> int \<Rightarrow> int \<Rightarrow> bool \<Rightarrow> bool \<Rightarrow> (meta_entry list \<times> search) result" where
  "search_database R d query skip limit only_firmwares inverted =
     bind_r (search_dict_of query) (\<lambda>q.
       case generic_search_meta (re_sql R) d q (Some (nat skip)) (Some (nat limit)) only_firmwares inverted of
         Inl QueryConversionException \<Rightarrow> Inl QueryConversionException
       | r \<Rightarrow> if skip < 0 \<or> limit < 0 then Inl GenericException
              else map_r (\<lambda>(ms, q'). (sort_key (\<lambda>m. lower (me_hid m)) ms, q')) r)"

datatype search_page =
    BrowsePage "meta_entry list" int int nat "string list" "string list" pyval
  | ToAnalysis uid
  | QueryErrorPage
  | DatabaseErrorPage

text \<open>
  \<open>_query_has_only_one_result\<close> compares the query, by then a dict, with the text \<open>'{}'\<close>.
\<close>

definition query_has_only_one_result :: "'a list \<Rightarrow> pyval \<Rightarrow> bool" where
  "query_has_only_one_result result_list query = (length result_list = 1 \<and> query \<noteq> PStr ''{}'')"

definition browse_database :: "rest_env \<Rightarrow> search_cfg \<Rightarrow> db \<Rightarrow> request_args \<Rightarrow> search_page result" where
  "browse_database R C d args =
     bind_r (extract_pagination_from_request C args) (\<lambda>(page, per_page, _).
     bind_r (get_search_parameters R d args) (\<lambda>sp.
       case search_database R d (sp_query sp) (per_page * (page - 1)) per_page (sp_only_firmware sp) (sp_inverted sp) of
         Inl e \<Rightarrow> Inr (if e = QueryConversionException then QueryErrorPage else DatabaseErrorPage)
       | Inr (firmware_list, q) \<Rightarrow>
           if query_has_only_one_result firmware_list (PDict q) then Inr (ToAnalysis (me_uid (hd firmware_list)))
           else map_r (\<lambda>total. BrowsePage firmware_list page per_page total (get_device_class_list d) (get_vendor_list d)
                 (case sp_title sp of None \<Rightarrow> PDict q | Some t \<Rightarrow> t))
               (get_number_of_total_matches (re_sql R) d q (sp_only_firmware sp) (sp_inverted sp))))"

text \<open>The history of binary searches; \<open>rule_names\<close> reads the names from the text of the rules.\<close>

definition browse_searches ::
  "(string \<Rightarrow> string list) \<Rightarrow> search_cfg \<Rightarrow> db \<Rightarrow> request_args \<Rightarrow> ((string \<times> string \<times> string list) list \<times> int \<times> int \<times> nat) option result" where
  "browse_searches rule_names C d args =
     map_r (\<lambda>(page, per_page, offset).
        if offset < 0 \<or> per_page < 0 then None
        else Some (search_query_cache rule_names d (nat offset) (nat per_page), page, per_page, get_total_cached_query_count d))
       (extract_pagination_from_request C args)"

section \<open>Search forms\<close>

text \<open>
  A form has a list of values per field; \<open>form[key]\<close> is the first one, and raises if the
  field is missing.
\<close>

type_synonym form = "(string, string list) dict"

definition form_first :: "form \<Rightarrow> string \<Rightarrow> string result" where
  "form_first form key = (case dget form key of Some (x # _) \<Rightarrow> Inr x | _ \<Rightarrow> Inl KeyError)"

definition form_set :: "form \<Rightarrow> string \<Rightarrow> bool" where
  "form_set form key = (case dget form key of Some ((c # cs) # _) \<Rightarrow> True | _ \<Rightarrow> False)"

definition strs_val :: "string list \<Rightarrow> pyval" where
  "strs_val xs = PList (map PStr xs)"

definition parse_comma_separated_list :: "string \<Rightarrow> string list" where
  "parse_comma_separated_list s = map strip_spaces (filter (\<lambda>item. item \<noteq> []) (split_on (CHR '','') s))"

definition add_hash_query_to_query :: "search_cfg \<Rightarrow> string \<Rightarrow> search \<Rightarrow> search" where
  "add_hash_query_to_query C v query =
     dput ''$or'' (PDict (dupdate [] (map (\<lambda>hash_type. (''processed_analysis.file_hashes.'' @ hash_type, PStr v))
       (parse_comma_separated_list (sc_file_hashes C))))) query"

definition build_search_query :: "search_cfg \<Rightarrow> form \<Rightarrow> search result" where
  "build_search_query C form =
     (let q1 = fold (\<lambda>key q. if form_set form key
            then dput key (PDict [(''$in'', strs_val (the (dget form key)))]) q else q) [''device_class'', ''vendor''] [] in
      bind_r (foldM_r (\<lambda>key q. map_r (\<lambda>x. if x \<noteq> [] then dput key (PDict [(''$like'', PStr x)]) q else q)
          (form_first form key)) [''file_name'', ''device_name'', ''version'', ''release_date''] q1) (\<lambda>q2.
      bind_r (form_first form ''hash_value'') (\<lambda>h.
        let q3 = (if h \<noteq> [] then add_hash_query_to_query C h q2 else q2) in
        Inr (if form_set form ''tags''
             then dput ''firmware_tags'' (PDict [(''$overlap'', strs_val (the (dget form ''tags'')))]) q3 else q3))))"

text \<open>A redirection to the browse page is the arguments of the request that follows.\<close>

definition start_basic_search :: "rest_env \<Rightarrow> search_cfg \<Rightarrow> form \<Rightarrow> request_args result" where
  "start_basic_search R C form = map_r (\<lambda>q. [(''query'', sql_dumps (re_sql R) (PDict q))]) (build_search_query C form)"

definition bool_text :: "bool \<Rightarrow> string" where
  "bool_text b = (if b then ''True'' else ''False'')"

text \<open>The redirection, or the page of the advanced search with an error.\<close>

definition start_advanced_search :: "rest_env \<Rightarrow> form \<Rightarrow> request_args option" where
  "start_advanced_search R form = (case form_first form ''advanced_search'' of
      Inl _ \<Rightarrow> None
    | Inr s \<Rightarrow> (case re_json R s of
          Some (PDict q) \<Rightarrow> Some [(''query'', sql_dumps (re_sql R) (PDict q)),
            (''only_firmwares'', bool_text (dmem ''only_firmwares'' form)), (''inverted'', bool_text (dmem ''inverted'' form))]
        | _ \<Rightarrow> None))"

text \<open>\<open>[^\w SPECIAL_CHARACTERS!.-]\<close>: the special characters below 256 are letters.\<close>

definition word_char :: "char \<Rightarrow> bool" where
  "word_char c = (let n = (of_char c :: nat) in
     is_digit c \<or> (65 \<le> n \<and> n \<le> 90) \<or> n = 95 \<or> (97 \<le> n \<and> n \<le> 122)
     \<or> n \<in> {170, 178, 179, 181, 185, 186, 188, 189, 190} \<or> (192 \<le> n \<and> n \<noteq> 215 \<and> n \<noteq> 247))"

definition filter_out_illegal_characters :: "string option \<Rightarrow> string option" where
  "filter_out_illegal_characters s = map_option (filter (\<lambda>c. word_char c \<or> c \<in> set '' !.-'')) s"

definition start_quick_search :: "rest_env \<Rightarrow> request_args \<Rightarrow> request_args option" where
  "start_quick_search R args = map_option (\<lambda>search_term.
     let like = PDict [(''$like'', PStr search_term)] in
     [(''query'', sql_dumps (re_sql R) (PDict [(''$or'', PDict [(''device_name'', like), (''vendor'', like), (''file_name'', like),
        (''sha256'', PStr search_term), (''firmware_tags'', PStr search_term)])]))])
     (filter_out_illegal_characters (dget args ''search_term''))"

section \<open>Binary searches\<close>

definition get_items_from_binary_search_request ::
  "search_cfg \<Rightarrow> upload_request \<Rightarrow> (bytes option \<times> string option \<times> bool) result" where
  "get_items_from_binary_search_request C r =
     bind_r (if fst (rq_file r) \<noteq> [] then Inr (snd (get_file_name_and_binary_from_request (sc_escape C) r))
             else map_r (\<lambda>t. if t \<noteq> [] then Some (utf8_encode t) else None) (dlookup (rq_form r) ''textarea''))
       (\<lambda>yara_rule_file. Inr (yara_rule_file,
          (case dget (rq_form r) ''firmware_uid'' of Some (c # cs) \<Rightarrow> Some (c # cs) | _ \<Rightarrow> None),
          dmem ''only_firmware'' (rq_form r)))"

datatype binary_search_page = SearchForm string | ToResults string bool

definition start_binary_search ::
  "net \<Rightarrow> (bytes \<Rightarrow> string) \<Rightarrow> (bytes \<Rightarrow> string option result) \<Rightarrow> search_cfg \<Rightarrow> db \<Rightarrow> real \<Rightarrow> bytes \<Rightarrow> upload_request \<Rightarrow> redis_state \<Rightarrow>
   (binary_search_page \<times> redis_state) result option" where
  "start_binary_search N sha compile_rules C d now serialized r st =
     (case get_items_from_binary_search_request C r of
        Inl e \<Rightarrow> Some (Inl e)
      | Inr (yara_rule_file, firmware_uid, only_firmware) \<Rightarrow>
          if firmware_uid \<noteq> None \<and> \<not> is_firmware_uid d firmware_uid
          then Some (Inr (SearchForm ''Error: Firmware not found in database'', st))
          else (case yara_rule_file of
              None \<Rightarrow> Some (Inr (SearchForm ''please select a file or enter rules in the text area'', st))
            | Some rules \<Rightarrow>
                if is_valid_yara_rule_file compile_rules rules
                then map_option (\<lambda>(request_id, st1). Inr (ToResults request_id only_firmware, st1))
                       (add_binary_search_request N sha now rules firmware_uid serialized st)
                else Some (Inr (SearchForm ''Error in YARA rules'', st))))"

definition join_results :: "(string, string list) dict \<Rightarrow> string list" where
  "join_results result_dict = py_set (concat (dvalues result_dict))"

text \<open>The text of the query: the \<open>repr\<close> of the list with double quotes for the single ones.\<close>

definition binary_search_query :: "rest_env \<Rightarrow> string list \<Rightarrow> string" where
  "binary_search_query R uids = ''{\"_id\": {\"$in\": '' @ replace_char (CHR 0x27) ''\"'' (re_repr R (strs_val uids)) @ ''}}''"

definition store_binary_search_query ::
  "rest_env \<Rightarrow> (bytes \<Rightarrow> string) \<Rightarrow> string list \<Rightarrow> string \<Rightarrow> db \<Rightarrow> (string \<times> db) result" where
  "store_binary_search_query R sha uids yara_rules d = add_to_search_query_cache sha (binary_search_query R uids) yara_rules d"

text \<open>\<open>ResultsPending\<close> also stands for the page that polls again, \<open>ResultsError\<close> for an error of the search.\<close>

datatype results_page = ResultsPending | ResultsError string | ToBrowse request_args

definition show_binary_search_results ::
  "rest_env \<Rightarrow> (bytes \<Rightarrow> string) \<Rightarrow> search_cfg \<Rightarrow> request_args \<Rightarrow> message option \<Rightarrow> db \<Rightarrow> (results_page \<times> db) result" where
  "show_binary_search_results R sha C args answer d = (case answer of
      Some (MResponse (RespSearch (Inl result) (TSearch rules firmware_uid))) \<Rightarrow>
        map_r (\<lambda>(query_uid, d1). (ToBrowse ([(''query'', query_uid)] @
            (case dget args ''only_firmware'' of None \<Rightarrow> [] | Some b \<Rightarrow> [(''only_firmwares'', b)])), d1))
          (store_binary_search_query R sha (join_results result) (sc_decode C rules) d)
    | Some (MResponse (RespSearch (Inr err) _)) \<Rightarrow> Inr (ResultsError err, d)
    | None \<Rightarrow> Inr (ResultsPending, d)
    | _ \<Rightarrow> Inl TypeError)"

definition get_binary_search_results ::
  "rest_env \<Rightarrow> net \<Rightarrow> (nat \<Rightarrow> real) \<Rightarrow> (nat \<Rightarrow> redis \<Rightarrow> redis) \<Rightarrow> (bytes \<Rightarrow> string) \<Rightarrow> search_cfg \<Rightarrow> real \<Rightarrow> request_args \<Rightarrow> db \<Rightarrow> redis \<Rightarrow>
   (results_page \<times> db \<times> redis) result option" where
  "get_binary_search_results R N clock other sha C now args d st =
     (case dget args ''request_id'' of
        Some (c # cs) \<Rightarrow> map_option (\<lambda>(r, st1). bind_r r (\<lambda>answer.
            map_r (\<lambda>(p, d1). (p, d1, st1)) (show_binary_search_results R sha C args answer d)))
          (poll_binary_search_result N clock other now (c # cs) st)
      | _ \<Rightarrow> Some (Inr (ResultsError ''No request ID found'', d, st)))"

section \<open>A binary search browses its matches\<close>

text \<open>What \<open>repr\<close> and JSON make of a list of UIDs.\<close>

definition py_list_repr :: "string list \<Rightarrow> string" where
  "py_list_repr us = ''['' @ join_with '', '' (map (\<lambda>u. [CHR 0x27] @ u @ [CHR 0x27]) us) @ '']''"

definition uid_query_json :: "string list \<Rightarrow> string" where
  "uid_query_json us = ''{\"_id\": {\"$in\": ['' @ join_with '', '' (map (\<lambda>u. ''\"'' @ u @ ''\"'') us) @ '']}}''"

lemma replace_char_append: "replace_char c new (s @ t) = replace_char c new s @ replace_char c new t"
  by (simp add: replace_char_def)

lemma is_uid_no_quote: "is_uid (PStr u) \<Longrightarrow> CHR 0x27 \<notin> set u"
proof -
  assume u: "is_uid (PStr u)"
  have "\<not> is_hex (CHR 0x27)" "\<not> is_digit (CHR 0x27)" by code_simp+
  with u show ?thesis by (auto simp: is_uid_iff)
qed

lemma replace_quotes:
  assumes "\<forall>u \<in> set us. CHR 0x27 \<notin> set u"
  shows "replace_char (CHR 0x27) ''\"'' (join_with '', '' (map (\<lambda>u. [CHR 0x27] @ u @ [CHR 0x27]) us))
       = join_with '', '' (map (\<lambda>u. ''\"'' @ u @ ''\"'') us)"
  using assms
proof (induction us)
  case (Cons u us)
  then show ?case by (cases us) (auto simp: replace_char_append replace_char_notin)
qed simp

lemma binary_search_query_json:
  assumes "\<forall>u \<in> set us. is_uid (PStr u)" "re_repr R (strs_val us) = py_list_repr us"
  shows "binary_search_query R us = uid_query_json us"
proof -
  have "\<forall>u \<in> set us. CHR 0x27 \<notin> set u" using assms(1) is_uid_no_quote by blast
  from replace_quotes[OF this] show ?thesis
    by (simp add: binary_search_query_def uid_query_json_def assms(2) py_list_repr_def replace_char_append)
qed

text \<open>Selecting by UID, with the key a binary search uses and the one a search leaves behind.\<close>

definition uid_select :: "pyval \<Rightarrow> select" where
  "uid_select v = (select_from SelFo)\<lparr>s_where := [Cmp (FoCol ''uid'') OpIn v]\<rparr>"

lemma build_uid_query:
  assumes "k \<in> {''_id'', ''uid''}"
  shows "build_query_from_dict S [(k, PDict [(''$in'', v)])] (select_from SelFo) False False
       = Inr (uid_select v, [(''uid'', PDict [(''$in'', v)])])"
proof -
  let ?d = "[(k, PDict [(''$in'', v)])]"
  have flat: "build_query_from_dict S ?d (select_from SelFo) False False = build_flat_query S ?d (select_from SelFo) False False"
    by (subst build_query_from_dict.simps) (use assms in auto)
  have dict: "(case map_of ?d ''_id'' of Some x \<Rightarrow> dput ''uid'' x (ddel ''_id'' ?d) | None \<Rightarrow> ?d) = [(''uid'', PDict [(''$in'', v)])]"
    using assms by auto
  have keys: "get_search_keys_from_dict [(''uid'', x)] FW_COLUMNS [''uid''] = []"
    "get_search_keys_from_dict [(''uid'', x)] FO_COLUMNS [] = [(''uid'', x)]" for x
    by (simp_all add: get_search_keys_from_dict_def FO_COLUMNS_def)
  have cond: "dict_key_to_filter S c ''uid'' (PDict [(''$in'', v)]) = Inr (Cmp c OpIn v)" for c
    by (simp add: dict_key_to_filter_def dmem_def dlookup_def)
  show ?thesis
    unfolding flat build_flat_query_def dict Let_def keys
    by (simp add: firmware_filters_def file_filters_def cond uid_select_def select_from_def)
qed

lemma uid_select_uids:
  assumes "\<And>x vs. sql_holds S OpIn x (PList vs) \<longleftrightarrow> x \<in> set vs"
  shows "set (select_uids S d (uid_select (strs_val us))) = Some ` set us \<inter> set (dkeys (file_tbl d))"
proof -
  have t: "s_target (uid_select v) = SelFo" "joined_rows d (uid_select v) r = [r]" "where_holds S r (uid_select v) = cond_holds S r (Cmp (FoCol ''uid'') OpIn v)"
    for v r by (simp_all add: uid_select_def select_from_def joined_rows_def where_holds_def)
  have c: "cond_holds S (fo_row f p) (Cmp (FoCol ''uid'') OpIn (strs_val us)) \<longleftrightarrow> fst f \<in> Some ` set us"
    and row: "row_uid (fo_row f p) = fst f" for f p
    using assms by (cases f, auto simp: fo_row_def fo_column_def opt_str_def row_uid_def strs_val_def split: option.splits prod.splits)
  have "select_rows S d (uid_select v) = filter (\<lambda>r. cond_holds S r (Cmp (FoCol ''uid'') OpIn v)) (map (\<lambda>f. fo_row f None) (file_tbl d))" for v
    unfolding select_rows_def t by (simp only: base_rows_def target.case concat_map_singleton list.map_ident)
  then have "set (select_uids S d (uid_select (strs_val us)))
      = row_uid ` {r \<in> (\<lambda>f. fo_row f None) ` set (file_tbl d). cond_holds S r (Cmp (FoCol ''uid'') OpIn (strs_val us))}"
    unfolding select_uids_def t by (simp only: target.distinct if_False set_remdups set_map set_filter)
  also have "\<dots> = (\<lambda>f. row_uid (fo_row f None)) ` {f \<in> set (file_tbl d). cond_holds S (fo_row f None) (Cmp (FoCol ''uid'') OpIn (strs_val us))}"
    by blast
  also have "\<dots> = fst ` {f \<in> set (file_tbl d). fst f \<in> Some ` set us}" unfolding c row ..
  finally show ?thesis by (force simp: dkeys_def)
qed


text \<open>A match in the database and one that has been deleted since.\<close>

definition ex_match :: "char \<Rightarrow> string" where
  "ex_match c = replicate 64 c @ ''_1''"

definition ex_matches :: "(string, string list) dict" where
  "ex_matches = [(''rule1'', [ex_match CHR ''a'', ex_match CHR ''b'']), (''rule2'', [ex_match CHR ''a''])]"

definition ex_search_env :: rest_env where
  "ex_search_env = \<lparr>re_time = 0, re_json = (\<lambda>s. if s = uid_query_json [ex_match CHR ''a'', ex_match CHR ''b'']
       then Some (PDict [(''_id'', PDict [(''$in'', strs_val [ex_match CHR ''a'', ex_match CHR ''b''])])]) else None),
     re_b64 = (\<lambda>_. []), re_unb64 = (\<lambda>_. None),
     re_sql = query_ex_sql\<lparr>sql_holds := \<lambda>oper x v. case v of PList vs \<Rightarrow> x \<in> set vs | _ \<Rightarrow> x = v\<rparr>,
     re_error = (\<lambda>_. []), re_yara_ok = (\<lambda>_. True), re_repr = (\<lambda>_. py_list_repr [ex_match CHR ''a'', ex_match CHR ''b''])\<rparr>"

definition ex_search_cfg :: search_cfg where
  "ex_search_cfg = \<lparr>sc_results_per_page = 10, sc_file_hashes = ''md5,sha256'', sc_decode = (\<lambda>_. ''rule''), sc_escape = (\<lambda>s. s)\<rparr>"

definition ex_match_db :: db where
  "ex_match_db = empty_db\<lparr>file_tbl := [(Some (ex_match CHR ''a''), query_ex_file False)]\<rparr>"


text \<open>
  The cache has one entry for all searches with the same rules: after a second search, of another
  firmware say, the page of the first one shows the matches of the second.
\<close>

lemma later_search_replaces_earlier:
  assumes "store_binary_search_query R sha us rules d = Inr (u, d1)" "store_binary_search_query R sha vs rules d1 = Inr (v, d2)"
  shows "u = v" "get_query_from_cache d2 u = Some (binary_search_query R vs, rules)"
  using assms
  by (auto simp: store_binary_search_query_def add_to_search_query_cache_def result_simps get_query_from_cache_def map_add_def)

text \<open>A single firmware in the database is shown even when no query was given.\<close>

lemma only_result_is_always_shown: "query_has_only_one_result ms (PDict q) \<longleftrightarrow> length ms = 1"
  by (simp add: query_has_only_one_result_def)

end
