(* ===== verification/UserManagement.thy ===== *)
theory UserManagement
  imports TaskConversion
begin

text \<open>
  Users, roles and privileges of the web interface: \<open>web_interface/security/privileges.py\<close>,
  \<open>authentication.py\<close>, \<open>decorator.py\<close>, \<open>user_role_db_interface.py\<close>,
  \<open>web_interface/components/user_management_routes.py\<close> and \<open>manage_users.py\<close>. The user store
  and the password hashes of Flask-Security and passlib are a parameter (\<open>user_store\<close>);
  what the code relies on is \<open>store_ok\<close>. Errors of the database are \<open>GenericException\<close>.
\<close>

section \<open>Privileges\<close>

definition ROLES :: "string list" where
  "ROLES = [''superuser'', ''senior_analyst'', ''analyst'', ''guest_analyst'', ''guest'']"

definition PRIVILEGES :: "(string \<times> string list) list" where
  "PRIVILEGES = [
     (''status'', [''superuser'', ''senior_analyst'', ''analyst'', ''guest_analyst'', ''guest'']),
     (''basic_search'', [''superuser'', ''senior_analyst'', ''analyst'', ''guest_analyst'']),
     (''view_analysis'', [''superuser'', ''senior_analyst'', ''analyst'', ''guest_analyst'']),
     (''comment'', [''superuser'', ''senior_analyst'', ''analyst'']),
     (''compare'', [''superuser'', ''senior_analyst'', ''analyst'']),
     (''advanced_search'', [''superuser'', ''senior_analyst'', ''analyst'']),
     (''pattern_search'', [''superuser'', ''senior_analyst'', ''analyst'']),
     (''submit_analysis'', [''superuser'', ''senior_analyst'']),
     (''download'', [''superuser'', ''senior_analyst'']),
     (''delete'', [''superuser'']),
     (''manage_users'', [''superuser'']),
     (''view_profile'', [''superuser'', ''senior_analyst'', ''analyst'']),
     (''view_logs'', [''superuser''])]"

text \<open>The check at import: every role of a privilege is a role.\<close>

definition privileges_checked :: bool where
  "privileges_checked = list_all (\<lambda>(_, roles). list_all (\<lambda>r. r \<in> set ROLES) roles) PRIVILEGES"

definition roles_for :: "string \<Rightarrow> string list" where
  "roles_for privilege = (case map_of PRIVILEGES privilege of None \<Rightarrow> [] | Some rs \<Rightarrow> rs)"

section \<open>The user store\<close>

record user =
  usr_id :: string
  usr_email :: string
  usr_password :: string
  usr_roles :: "string list"
  usr_api_key :: string

record 's user_store =
  us_find_id :: "string \<Rightarrow> 's \<Rightarrow> user option"
  us_find_email :: "string \<Rightarrow> 's \<Rightarrow> user option"
  us_find_api_key :: "string \<Rightarrow> 's \<Rightarrow> user option"
  us_users :: "'s \<Rightarrow> user list"
  us_roles :: "'s \<Rightarrow> string list"
  us_create_user :: "string \<Rightarrow> string \<Rightarrow> string list \<Rightarrow> 's \<Rightarrow> 's result"
  us_delete_user :: "user option \<Rightarrow> 's \<Rightarrow> 's result"
  us_create_role :: "string \<Rightarrow> 's \<Rightarrow> 's result"
  us_add_role :: "user \<Rightarrow> string \<Rightarrow> 's \<Rightarrow> 's result"
  us_remove_role :: "user \<Rightarrow> string \<Rightarrow> 's \<Rightarrow> 's result"
  us_put_password :: "user \<Rightarrow> string \<Rightarrow> 's \<Rightarrow> 's result"
  us_hash :: "string \<Rightarrow> string"
  us_verify :: "string \<Rightarrow> string \<Rightarrow> bool"
  us_identify :: "string \<Rightarrow> string option"
  us_has_role :: "user \<Rightarrow> string \<Rightarrow> bool"
  us_accepts :: "string list \<Rightarrow> user option \<Rightarrow> bool"

definition user_exists :: "'s user_store \<Rightarrow> string \<Rightarrow> 's \<Rightarrow> bool" where
  "user_exists U user_name s = (us_find_email U user_name s \<noteq> None)"

definition role_exists :: "'s user_store \<Rightarrow> string \<Rightarrow> 's \<Rightarrow> bool" where
  "role_exists U role s = (role \<in> set (us_roles U s))"

definition password_is_correct :: "'s user_store \<Rightarrow> string \<Rightarrow> string \<Rightarrow> 's \<Rightarrow> bool result" where
  "password_is_correct U user_name password s = (case us_find_email U user_name s of
      None \<Rightarrow> Inl AttributeError | Some u \<Rightarrow> Inr (us_verify U password (usr_password u)))"

definition change_password :: "'s user_store \<Rightarrow> string \<Rightarrow> string \<Rightarrow> 's \<Rightarrow> 's result" where
  "change_password U user_name password s = (case us_find_email U user_name s of
      None \<Rightarrow> Inl AttributeError | Some u \<Rightarrow> us_put_password U u (us_hash U password) s)"

definition password_is_legal :: "'s user_store \<Rightarrow> string \<Rightarrow> bool" where
  "password_is_legal U pw = (pw \<noteq> [] \<and> us_identify U pw = Some ''plaintext'')"

section \<open>Who may do what\<close>

text \<open>
  The user of a request: by session, or by the API key in the header. Without authentication
  the user is anonymous (\<open>None\<close>).
\<close>

definition load_user_from_request :: "'s user_store \<Rightarrow> string option \<Rightarrow> 's \<Rightarrow> user option" where
  "load_user_from_request U authorization s = (case authorization of
      Some (c # cs) \<Rightarrow> us_find_api_key U (c # cs) s | _ \<Rightarrow> None)"

definition user_has_privilege :: "'s user_store \<Rightarrow> user option \<Rightarrow> string \<Rightarrow> bool result" where
  "user_has_privilege U u privilege = (case u of
      None \<Rightarrow> Inr True
    | Some u \<Rightarrow> map_r (list_ex (us_has_role U u)) (dlookup PRIVILEGES privilege))"

text \<open>The decorator: with authentication the one of Flask-Security decides.\<close>

definition roles_accepted :: "'s user_store \<Rightarrow> bool \<Rightarrow> string list \<Rightarrow> user option \<Rightarrow> bool" where
  "roles_accepted U authentication roles u = (\<not> authentication \<or> us_accepts U roles u)"

section \<open>User management in the web interface\<close>

text \<open>
  A session of the user database: errors of the database and \<open>TypeError\<close> are rolled back
  and flashed, other exceptions pass without a commit.
\<close>

definition user_db_session :: "('s \<Rightarrow> 's result) \<Rightarrow> 's \<Rightarrow> (bool result \<times> 's)" where
  "user_db_session body s = (case body s of
      Inr s' \<Rightarrow> (Inr True, s')
    | Inl e \<Rightarrow> if e = GenericException \<or> e = TypeError then (Inr False, s) else (Inl e, s))"

type_synonym user_form = "(string, string) dict"

type_synonym 's outcome_of = "bool result \<times> 's"

definition get_field :: "user_form \<Rightarrow> string \<Rightarrow> (string \<Rightarrow> 's \<Rightarrow> 's outcome_of) \<Rightarrow> 's \<Rightarrow> 's outcome_of" where
  "get_field form k f s = (case dget form k of None \<Rightarrow> (Inl KeyError, s) | Some v \<Rightarrow> f v s)"

text \<open>The result is whether the change was made; otherwise an error is flashed.\<close>

definition add_user :: "'s user_store \<Rightarrow> user_form \<Rightarrow> 's \<Rightarrow> 's outcome_of" where
  "add_user U form =
     get_field form ''username'' (\<lambda>name. get_field form ''password1'' (\<lambda>password. get_field form ''password2'' (\<lambda>password_retype s.
       if user_exists U name s then (Inr False, s)
       else if password \<noteq> password_retype then (Inr False, s)
       else user_db_session (us_create_user U name (us_hash U password) []) s)))"

definition change_user_password :: "'s user_store \<Rightarrow> string \<Rightarrow> user_form \<Rightarrow> 's \<Rightarrow> 's outcome_of" where
  "change_user_password U user_id form =
     get_field form ''admin_change_password'' (\<lambda>new_password. get_field form ''admin_confirm_password'' (\<lambda>retype_password s.
       if new_password \<noteq> retype_password then (Inr False, s)
       else if \<not> password_is_legal U new_password then (Inr False, s)
       else user_db_session (\<lambda>s. case us_find_id U user_id s of
           None \<Rightarrow> Inl AttributeError
         | Some u \<Rightarrow> change_password U (usr_email u) new_password s) s))"

definition determine_role_changes :: "string list \<Rightarrow> string list \<Rightarrow> string list \<times> string list" where
  "determine_role_changes user_roles selected_roles =
     (let current_roles = filter (\<lambda>r. r \<in> set ROLES) user_roles
      in (set_minus (py_set selected_roles) current_roles, set_minus (py_set current_roles) selected_roles))"

definition add_roles :: "'s user_store \<Rightarrow> user \<Rightarrow> string list \<Rightarrow> 's \<Rightarrow> 's result" where
  "add_roles U u = foldM_r (\<lambda>role s.
     bind_r (if role_exists U role s then Inr s else us_create_role U role s) (us_add_role U u role))"

definition remove_roles :: "'s user_store \<Rightarrow> user \<Rightarrow> string list \<Rightarrow> 's \<Rightarrow> 's result" where
  "remove_roles U u = foldM_r (us_remove_role U u)"

definition edit_roles :: "'s user_store \<Rightarrow> string \<Rightarrow> string list \<Rightarrow> 's \<Rightarrow> 's outcome_of" where
  "edit_roles U user_id selected_roles s = (case us_find_id U user_id s of
      None \<Rightarrow> (Inr False, s)
    | Some u \<Rightarrow> (case determine_role_changes (usr_roles u) selected_roles of (added_roles, removed_roles) \<Rightarrow>
        user_db_session (\<lambda>s. bind_r (add_roles U u added_roles s) (remove_roles U u removed_roles)) s))"

definition delete_user :: "'s user_store \<Rightarrow> string \<Rightarrow> 's \<Rightarrow> 's outcome_of" where
  "delete_user U user_name = user_db_session (\<lambda>s. us_delete_user U (us_find_email U user_name s) s)"

text \<open>The anonymous user (\<open>None\<close>) has no address.\<close>

definition change_own_password :: "'s user_store \<Rightarrow> user option \<Rightarrow> user_form \<Rightarrow> 's \<Rightarrow> 's outcome_of" where
  "change_own_password U current_user form =
     get_field form ''new_password'' (\<lambda>new_password. get_field form ''new_password_confirm'' (\<lambda>new_password_confirm.
     get_field form ''old_password'' (\<lambda>old_password s.
       if new_password \<noteq> new_password_confirm then (Inr False, s)
       else (case current_user of
           None \<Rightarrow> (Inl AttributeError, s)
         | Some u \<Rightarrow> (case password_is_correct U (usr_email u) old_password s of
               Inl e \<Rightarrow> (Inl e, s)
             | Inr ok \<Rightarrow>
                 if \<not> ok then (Inr False, s)
                 else if \<not> password_is_legal U new_password then (Inr False, s)
                 else user_db_session (change_password U (usr_email u) new_password) s)))))"

section \<open>Requests\<close>

datatype user_request =
    ManageUsers "user_form option"
  | ShowUser string
  | EditUser string user_form "string list"
  | DeleteUser string
  | ShowProfile "user_form option"

definition request_privilege :: "user_request \<Rightarrow> string" where
  "request_privilege r = (case r of ShowProfile _ \<Rightarrow> ''view_profile'' | _ \<Rightarrow> ''manage_users'')"

definition edit_user :: "'s user_store \<Rightarrow> string \<Rightarrow> user_form \<Rightarrow> string list \<Rightarrow> 's \<Rightarrow> 's outcome_of" where
  "edit_user U user_id form input_roles s =
     (if dmem ''admin_change_password'' form then change_user_password U user_id form s
      else if dmem ''input_roles'' form then edit_roles U user_id input_roles s
      else (Inr False, s))"

definition handle_request :: "'s user_store \<Rightarrow> user option \<Rightarrow> user_request \<Rightarrow> 's \<Rightarrow> 's outcome_of" where
  "handle_request U current_user r s = (case r of
      ManageUsers (Some form) \<Rightarrow> add_user U form s
    | EditUser user_id form input_roles \<Rightarrow> edit_user U user_id form input_roles s
    | DeleteUser user_name \<Rightarrow> delete_user U user_name s
    | ShowProfile (Some form) \<Rightarrow> change_own_password U current_user form s
    | _ \<Rightarrow> (Inr True, s))"

text \<open>A request of the user with an ID; one that is not accepted is redirected and changes nothing.\<close>

definition serve :: "'s user_store \<Rightarrow> bool \<Rightarrow> string option \<Rightarrow> user_request \<Rightarrow> 's \<Rightarrow> 's outcome_of" where
  "serve U authentication user_id r s =
     (let current_user = Option.bind user_id (\<lambda>i. us_find_id U i s) in
      if roles_accepted U authentication (roles_for (request_privilege r)) current_user
      then handle_request U current_user r s else (Inr False, s))"

section \<open>The command line\<close>

text \<open>
  The lines typed are a list; its end is \<open>EOFError\<close> (\<open>None\<close>), which ends the program. A
  validator rejects a line until one is valid. Interrupts are not modelled.
\<close>

definition prompt :: "(string \<Rightarrow> bool) \<Rightarrow> string list \<Rightarrow> (string \<times> string list) option" where
  "prompt valid inp = (case dropWhile (\<lambda>l. \<not> valid l) inp of [] \<Rightarrow> None | l # ls \<Rightarrow> Some (l, ls))"

definition get_user_list :: "'s user_store \<Rightarrow> 's \<Rightarrow> string list" where
  "get_user_list U s = map usr_email (us_users U s)"

type_synonym 's cli = "string list \<Rightarrow> 's \<Rightarrow> ('s result \<times> string list) option"

definition cli_create_user :: "'s user_store \<Rightarrow> 's cli" where
  "cli_create_user U inp s =
     Option.bind (prompt (\<lambda>l. l \<notin> set (get_user_list U s) \<and> l \<noteq> []) inp) (\<lambda>(name, inp1).
     map_option (\<lambda>(password, inp2). (us_create_user U name (us_hash U password) [''guest''] s, inp2))
       (prompt (password_is_legal U) inp1))"

definition cli_delete_user :: "'s user_store \<Rightarrow> 's cli" where
  "cli_delete_user U inp s =
     map_option (\<lambda>(name, inp1). (us_delete_user U (us_find_email U name s) s, inp1))
       (prompt (\<lambda>l. l \<in> set (get_user_list U s)) inp)"

definition cli_create_role :: "'s user_store \<Rightarrow> 's cli" where
  "cli_create_role U inp s =
     map_option (\<lambda>(role, inp1). (if role_exists U role s then Inr s else us_create_role U role s, inp1))
       (prompt (\<lambda>l. l \<notin> set (us_roles U s) \<and> l \<noteq> []) inp)"

definition the_user :: "user option \<Rightarrow> (user \<Rightarrow> 's result) \<Rightarrow> 's result" where
  "the_user u f = (case u of None \<Rightarrow> Inl AttributeError | Some u \<Rightarrow> f u)"

definition cli_add_role_to_user :: "'s user_store \<Rightarrow> 's cli" where
  "cli_add_role_to_user U inp s =
     Option.bind (prompt (\<lambda>l. l \<in> set (get_user_list U s)) inp) (\<lambda>(name, inp1).
     map_option (\<lambda>(role, inp2). (the_user (us_find_email U name s) (\<lambda>u. us_add_role U u role s), inp2))
       (prompt (\<lambda>l. l \<in> set (us_roles U s)) inp1))"

definition cli_remove_role_from_user :: "'s user_store \<Rightarrow> 's cli" where
  "cli_remove_role_from_user U inp s =
     Option.bind (prompt (\<lambda>l. l \<in> set (get_user_list U s)) inp) (\<lambda>(name, inp1).
       case us_find_email U name s of
         None \<Rightarrow> Some (Inl AttributeError, inp1)
       | Some u \<Rightarrow> map_option (\<lambda>(role, inp2). (us_remove_role U u role s, inp2)) (prompt (\<lambda>l. l \<in> set (usr_roles u)) inp1))"

definition cli_get_apikey_for_user :: "'s user_store \<Rightarrow> 's cli" where
  "cli_get_apikey_for_user U inp s =
     map_option (\<lambda>(name, inp1). (the_user (us_find_email U name s) (\<lambda>_. Inr s), inp1))
       (prompt (\<lambda>l. l \<in> set (get_user_list U s)) inp)"

definition LEGAL_ACTIONS :: "string list" where
  "LEGAL_ACTIONS = [''add_role_to_user'', ''create_role'', ''create_user'', ''delete_user'', ''exit'', ''get_apikey_for_user'',
     ''help'', ''list_all_users'', ''remove_role_from_user'']"

definition acting_function :: "'s user_store \<Rightarrow> string \<Rightarrow> 's cli" where
  "acting_function U action inp s =
     (if action = ''add_role_to_user'' then cli_add_role_to_user U inp s
      else if action = ''create_role'' then cli_create_role U inp s
      else if action = ''create_user'' then cli_create_user U inp s
      else if action = ''delete_user'' then cli_delete_user U inp s
      else if action = ''get_apikey_for_user'' then cli_get_apikey_for_user U inp s
      else if action = ''remove_role_from_user'' then cli_remove_role_from_user U inp s
      else if action = ''exit'' then None
      else Some (Inr s, inp))"

lemma prompt_shorter: "prompt v inp = Some (l, ls) \<Longrightarrow> length ls < length inp"
  using length_dropWhile_le[of "\<lambda>l. \<not> v l" inp] by (auto simp: prompt_def split: list.splits)

lemma acting_function_shorter: "acting_function U a inp s = Some (r, ls) \<Longrightarrow> length ls \<le> length inp"
  by (auto simp: acting_function_def cli_add_role_to_user_def cli_create_role_def cli_create_user_def cli_delete_user_def
      cli_get_apikey_for_user_def cli_remove_role_from_user_def bind_eq_Some_conv split: if_splits option.splits dest!: prompt_shorter)

text \<open>An exception other than \<open>AssertionError\<close>, \<open>EOFError\<close> and an interrupt ends the program.\<close>

function prompt_loop :: "'s user_store \<Rightarrow> string list \<Rightarrow> 's \<Rightarrow> 's result \<times> 's" where
  "prompt_loop U inp s = (case prompt (\<lambda>l. l \<in> set LEGAL_ACTIONS) inp of
      None \<Rightarrow> (Inr s, s)
    | Some (action, inp1) \<Rightarrow> (case acting_function U action inp1 s of
          None \<Rightarrow> (Inr s, s)
        | Some (Inl e, _) \<Rightarrow> (Inl e, s)
        | Some (Inr s1, inp2) \<Rightarrow> prompt_loop U inp2 s1))"
  by pat_completeness auto

termination
  by (relation "measure (\<lambda>(_, inp, _). length inp)") (auto dest!: prompt_shorter acting_function_shorter)

fun create_missing_roles :: "'s user_store \<Rightarrow> string list \<Rightarrow> 's \<Rightarrow> unit result \<times> 's" where
  "create_missing_roles U [] s = (Inr (), s)"
| "create_missing_roles U (role # roles) s =
     (if role_exists U role s then create_missing_roles U roles s
      else case us_create_role U role s of Inl e \<Rightarrow> (Inl e, s) | Inr s1 \<Rightarrow> create_missing_roles U roles s1)"

definition initialise_roles :: "'s user_store \<Rightarrow> 's \<Rightarrow> unit result \<times> 's" where
  "initialise_roles U = create_missing_roles U ROLES"

definition start_user_management :: "'s user_store \<Rightarrow> string list \<Rightarrow> 's \<Rightarrow> 's result \<times> 's" where
  "start_user_management U inp s = (case initialise_roles U s of
      (Inl e, s1) \<Rightarrow> (Inl e, s1) | (Inr _, s1) \<Rightarrow> prompt_loop U inp s1)"

section \<open>The store\<close>

text \<open>A change of the user with ID \<open>i\<close> only.\<close>

definition changes :: "'s user_store \<Rightarrow> string \<Rightarrow> (user \<Rightarrow> user) \<Rightarrow> 's \<Rightarrow> 's \<Rightarrow> bool" where
  "changes U i f s s' = (\<forall>j. us_find_id U j s' = (if j = i then map_option f (us_find_id U j s) else us_find_id U j s))"

text \<open>
  What the code relies on of Flask-Security: users are found by ID and by their (unique)
  address, adding and removing roles, creating roles and storing passwords do just that, and a
  request is accepted if the user has one of the roles.
\<close>

definition store_ok :: "'s user_store \<Rightarrow> bool" where
  "store_ok U \<longleftrightarrow>
     (\<forall>i s u. us_find_id U i s = Some u \<longrightarrow> usr_id u = i)
   \<and> (\<forall>e s u. us_find_email U e s = Some u \<longleftrightarrow> us_find_id U (usr_id u) s = Some u \<and> usr_email u = e)
   \<and> (\<forall>u r s. us_find_id U (usr_id u) s \<noteq> None \<longrightarrow> r \<in> set (us_roles U s) \<longrightarrow>
        (\<exists>s'. us_add_role U u r s = Inr s' \<and> changes U (usr_id u) (\<lambda>v. v\<lparr>usr_roles := set_add r (usr_roles v)\<rparr>) s s'))
   \<and> (\<forall>u r s. us_find_id U (usr_id u) s \<noteq> None \<longrightarrow>
        (\<exists>s'. us_remove_role U u r s = Inr s' \<and> changes U (usr_id u) (\<lambda>v. v\<lparr>usr_roles := set_minus (usr_roles v) [r]\<rparr>) s s'))
   \<and> (\<forall>r s. r \<notin> set (us_roles U s) \<longrightarrow>
        (\<exists>s'. us_create_role U r s = Inr s' \<and> (\<forall>j. us_find_id U j s' = us_find_id U j s) \<and> r \<in> set (us_roles U s')))
   \<and> (\<forall>u h s. us_find_id U (usr_id u) s \<noteq> None \<longrightarrow>
        (\<exists>s'. us_put_password U u h s = Inr s' \<and> changes U (usr_id u) (\<lambda>v. v\<lparr>usr_password := h\<rparr>) s s'))
   \<and> (\<forall>u r. us_has_role U u r \<longleftrightarrow> r \<in> set (usr_roles u))
   \<and> (\<forall>roles u. us_accepts U roles u \<longleftrightarrow> (\<exists>v. u = Some v \<and> set roles \<inter> set (usr_roles v) \<noteq> {}))"

lemma store_okD:
  assumes "store_ok U"
  shows "us_find_id U i s = Some u \<Longrightarrow> usr_id u = i"
    "us_find_email U e s = Some u \<longleftrightarrow> us_find_id U (usr_id u) s = Some u \<and> usr_email u = e"
    "us_find_id U (usr_id u) s \<noteq> None \<Longrightarrow> r \<in> set (us_roles U s) \<Longrightarrow>
      \<exists>s'. us_add_role U u r s = Inr s' \<and> changes U (usr_id u) (\<lambda>v. v\<lparr>usr_roles := set_add r (usr_roles v)\<rparr>) s s'"
    "us_find_id U (usr_id u) s \<noteq> None \<Longrightarrow>
      \<exists>s'. us_remove_role U u r s = Inr s' \<and> changes U (usr_id u) (\<lambda>v. v\<lparr>usr_roles := set_minus (usr_roles v) [r]\<rparr>) s s'"
    "r \<notin> set (us_roles U s) \<Longrightarrow>
      \<exists>s'. us_create_role U r s = Inr s' \<and> (\<forall>j. us_find_id U j s' = us_find_id U j s) \<and> r \<in> set (us_roles U s')"
    "us_find_id U (usr_id u) s \<noteq> None \<Longrightarrow>
      \<exists>s'. us_put_password U u h s = Inr s' \<and> changes U (usr_id u) (\<lambda>v. v\<lparr>usr_password := h\<rparr>) s s'"
    "us_has_role U u r \<longleftrightarrow> r \<in> set (usr_roles u)"
    "us_accepts U roles w \<longleftrightarrow> (\<exists>v. w = Some v \<and> set roles \<inter> set (usr_roles v) \<noteq> {})"
proof -
  note laws = assms[unfolded store_ok_def]
  note laws = laws[THEN conjunct1] laws[THEN conjunct2, THEN conjunct1] laws[THEN conjunct2, THEN conjunct2, THEN conjunct1]
    laws[THEN conjunct2, THEN conjunct2, THEN conjunct2, THEN conjunct1]
    laws[THEN conjunct2, THEN conjunct2, THEN conjunct2, THEN conjunct2, THEN conjunct1]
    laws[THEN conjunct2, THEN conjunct2, THEN conjunct2, THEN conjunct2, THEN conjunct2, THEN conjunct1]
    laws[THEN conjunct2, THEN conjunct2, THEN conjunct2, THEN conjunct2, THEN conjunct2, THEN conjunct2, THEN conjunct1]
    laws[THEN conjunct2, THEN conjunct2, THEN conjunct2, THEN conjunct2, THEN conjunct2, THEN conjunct2, THEN conjunct2]
  show "us_find_id U i s = Some u \<Longrightarrow> usr_id u = i" using laws(1) by blast
  show "us_find_email U e s = Some u \<longleftrightarrow> us_find_id U (usr_id u) s = Some u \<and> usr_email u = e" using laws(2) by blast
  show "us_find_id U (usr_id u) s \<noteq> None \<Longrightarrow> r \<in> set (us_roles U s) \<Longrightarrow>
      \<exists>s'. us_add_role U u r s = Inr s' \<and> changes U (usr_id u) (\<lambda>v. v\<lparr>usr_roles := set_add r (usr_roles v)\<rparr>) s s'"
    using laws(3) by blast
  show "us_find_id U (usr_id u) s \<noteq> None \<Longrightarrow>
      \<exists>s'. us_remove_role U u r s = Inr s' \<and> changes U (usr_id u) (\<lambda>v. v\<lparr>usr_roles := set_minus (usr_roles v) [r]\<rparr>) s s'"
    using laws(4) by blast
  show "r \<notin> set (us_roles U s) \<Longrightarrow>
      \<exists>s'. us_create_role U r s = Inr s' \<and> (\<forall>j. us_find_id U j s' = us_find_id U j s) \<and> r \<in> set (us_roles U s')"
    using laws(5) by blast
  show "us_find_id U (usr_id u) s \<noteq> None \<Longrightarrow>
      \<exists>s'. us_put_password U u h s = Inr s' \<and> changes U (usr_id u) (\<lambda>v. v\<lparr>usr_password := h\<rparr>) s s'"
    using laws(6) by blast
  show "us_has_role U u r \<longleftrightarrow> r \<in> set (usr_roles u)" using laws(7) by blast
  show "us_accepts U roles w \<longleftrightarrow> (\<exists>v. w = Some v \<and> set roles \<inter> set (usr_roles v) \<noteq> {})" using laws(8) by blast
qed

text \<open>Changing the roles of one user, step by step.\<close>

definition roles_become :: "'s user_store \<Rightarrow> string \<Rightarrow> user \<Rightarrow> string set \<Rightarrow> 's \<Rightarrow> 's \<Rightarrow> bool" where
  "roles_become U i u R s s' \<longleftrightarrow>
     (\<exists>rs. us_find_id U i s' = Some (u\<lparr>usr_roles := rs\<rparr>) \<and> set rs = R) \<and> (\<forall>j. j \<noteq> i \<longrightarrow> us_find_id U j s' = us_find_id U j s)"

lemma changes_roles_become:
  assumes "changes U i (\<lambda>v. v\<lparr>usr_roles := f (usr_roles v)\<rparr>) s s'" "us_find_id U i s = Some u" "set (f (usr_roles u)) = R"
  shows "roles_become U i u R s s'"
  using assms by (auto simp: changes_def roles_become_def intro!: exI[of _ "f (usr_roles u)"])

lemma add_one_role:
  assumes "store_ok U" "us_find_id U (usr_id v) s = Some u"
  shows "\<exists>s'. bind_r (if role_exists U r s then Inr s else us_create_role U r s) (us_add_role U v r) = Inr s'
    \<and> roles_become U (usr_id v) u (insert r (set (usr_roles u))) s s'"
proof -
  obtain s1 where s1: "(if role_exists U r s then Inr s else us_create_role U r s) = Inr s1"
    "\<forall>j. us_find_id U j s1 = us_find_id U j s" "r \<in> set (us_roles U s1)"
  proof (cases "role_exists U r s")
    case False
    then show ?thesis using that store_okD(5)[OF assms(1), of r s] by (auto simp: role_exists_def)
  qed (use that in \<open>auto simp: role_exists_def\<close>)
  then obtain s2 where "us_add_role U v r s1 = Inr s2"
    "changes U (usr_id v) (\<lambda>w. w\<lparr>usr_roles := set_add r (usr_roles w)\<rparr>) s1 s2"
    using store_okD(3)[OF assms(1), of v s1 r] assms(2) by auto
  with s1 assms(2) show ?thesis by (auto simp: changes_def roles_become_def)
qed

lemma roles_become_trans:
  assumes "roles_become U i u R s s1" "\<And>w. us_find_id U i s1 = Some w \<Longrightarrow> set (usr_roles w) = R \<Longrightarrow> roles_become U i w R' s1 s2"
  shows "roles_become U i u R' s s2"
proof -
  obtain rs where rs: "us_find_id U i s1 = Some (u\<lparr>usr_roles := rs\<rparr>)" "set rs = R" "\<forall>j. j \<noteq> i \<longrightarrow> us_find_id U j s1 = us_find_id U j s"
    using assms(1) by (auto simp: roles_become_def)
  from assms(2)[OF rs(1)] rs(2) have "roles_become U i (u\<lparr>usr_roles := rs\<rparr>) R' s1 s2" by simp
  with rs(3) show ?thesis by (auto simp: roles_become_def)
qed

lemma add_roles_result:
  assumes "store_ok U" "us_find_id U (usr_id v) s = Some u"
  shows "\<exists>s'. add_roles U v rs s = Inr s' \<and> roles_become U (usr_id v) u (set (usr_roles u) \<union> set rs) s s'"
  using assms(2)
proof (induction rs arbitrary: s u)
  case Nil
  then show ?case by (intro exI[of _ s]) (auto simp: add_roles_def roles_become_def intro!: exI[of _ "usr_roles u"])
next
  case (Cons r rs)
  from add_one_role[OF assms(1) Cons.prems, of r] obtain s1 where s1:
    "bind_r (if role_exists U r s then Inr s else us_create_role U r s) (us_add_role U v r) = Inr s1"
    "roles_become U (usr_id v) u (insert r (set (usr_roles u))) s s1" by blast
  then obtain w where w: "us_find_id U (usr_id v) s1 = Some w" "set (usr_roles w) = insert r (set (usr_roles u))"
    by (auto simp: roles_become_def)
  from Cons.IH[OF w(1)] obtain s2 where s2: "add_roles U v rs s1 = Inr s2"
    "roles_become U (usr_id v) w (set (usr_roles w) \<union> set rs) s1 s2" by blast
  have "add_roles U v (r # rs) s = Inr s2" using s1(1) s2(1) by (simp add: add_roles_def)
  moreover have "roles_become U (usr_id v) u (set (usr_roles u) \<union> set (r # rs)) s s2"
    by (rule roles_become_trans[OF s1(2)]) (use w s2(2) in auto)
  ultimately show ?case by blast
qed

lemma remove_roles_result:
  assumes "store_ok U" "us_find_id U (usr_id v) s = Some u"
  shows "\<exists>s'. remove_roles U v rs s = Inr s' \<and> roles_become U (usr_id v) u (set (usr_roles u) - set rs) s s'"
  using assms(2)
proof (induction rs arbitrary: s u)
  case Nil
  then show ?case by (intro exI[of _ s]) (auto simp: remove_roles_def roles_become_def intro!: exI[of _ "usr_roles u"])
next
  case (Cons r rs)
  from store_okD(4)[OF assms(1), of v s r] Cons.prems obtain s1 where s1: "us_remove_role U v r s = Inr s1"
    "changes U (usr_id v) (\<lambda>v. v\<lparr>usr_roles := set_minus (usr_roles v) [r]\<rparr>) s s1" by auto
  have b1: "roles_become U (usr_id v) u (set (usr_roles u) - {r}) s s1"
    by (rule changes_roles_become[OF s1(2) Cons.prems]) simp
  then obtain w where w: "us_find_id U (usr_id v) s1 = Some w" "set (usr_roles w) = set (usr_roles u) - {r}"
    by (auto simp: roles_become_def)
  from Cons.IH[OF w(1)] obtain s2 where s2: "remove_roles U v rs s1 = Inr s2"
    "roles_become U (usr_id v) w (set (usr_roles w) - set rs) s1 s2" by blast
  have "remove_roles U v (r # rs) s = Inr s2" using s1(1) s2(1) by (simp add: remove_roles_def)
  moreover have "set (usr_roles w) - set rs = set (usr_roles u) - set (r # rs)" using w(2) by auto
  then have "roles_become U (usr_id v) u (set (usr_roles u) - set (r # rs)) s s2"
    using s2(2) w(1) by (intro roles_become_trans[OF b1]) simp
  ultimately show ?case by blast
qed

lemma privileges_are_roles: "(p, roles) \<in> set PRIVILEGES \<Longrightarrow> set roles \<subseteq> set ROLES"
proof -
  have "privileges_checked" by code_simp
  then show "(p, roles) \<in> set PRIVILEGES \<Longrightarrow> set roles \<subseteq> set ROLES"
    by (auto simp: privileges_checked_def list_all_iff)
qed

lemma privileges_lookup: "(p, roles) \<in> set PRIVILEGES \<Longrightarrow> map_of PRIVILEGES p = Some roles"
proof -
  have "distinct (map fst PRIVILEGES)" by code_simp
  then show "(p, roles) \<in> set PRIVILEGES \<Longrightarrow> map_of PRIVILEGES p = Some roles" by (rule map_of_is_SomeI)
qed

text \<open>Editing roles is exact. After the roles of a user have been edited the user has exactly the
  selected roles and those of his roles the page does not offer; so he may do exactly what a
  selected role permits. No other user and nothing else of the user changes.
\<close>

theorem edit_roles_exact:
  assumes "store_ok U" "us_find_id U user_id s = Some u"
  shows "\<exists>s' rs. edit_roles U user_id selected s = (Inr True, s')
    \<and> us_find_id U user_id s' = Some (u\<lparr>usr_roles := rs\<rparr>) \<and> set rs = set selected \<union> (set (usr_roles u) - set ROLES)
    \<and> (\<forall>(p, roles) \<in> set PRIVILEGES. user_has_privilege U (us_find_id U user_id s') p = Inr (\<exists>r \<in> set roles. r \<in> set selected))
    \<and> (\<forall>j. j \<noteq> user_id \<longrightarrow> us_find_id U j s' = us_find_id U j s)"
proof -
  have i: "usr_id u = user_id" using store_okD(1)[OF assms] .
  obtain A D where AD: "determine_role_changes (usr_roles u) selected = (A, D)" by force
  then have sets: "set A = set selected - set (usr_roles u) \<inter> set ROLES" "set D = set (usr_roles u) \<inter> set ROLES - set selected"
    by (auto simp: determine_role_changes_def Let_def)
  from add_roles_result[OF assms(1), of u s u A] assms(2) i obtain s1 where
    s1: "add_roles U u A s = Inr s1" "roles_become U user_id u (set (usr_roles u) \<union> set A) s s1" by auto
  then obtain w where w: "us_find_id U user_id s1 = Some w" "set (usr_roles w) = set (usr_roles u) \<union> set A"
    by (auto simp: roles_become_def)
  from remove_roles_result[OF assms(1), of u s1 w D] w(1) i obtain s2 where
    s2: "remove_roles U u D s1 = Inr s2" "roles_become U user_id w (set (usr_roles w) - set D) s1 s2" by auto
  have "roles_become U user_id u (set selected \<union> (set (usr_roles u) - set ROLES)) s s2"
  proof (rule roles_become_trans[OF s1(2)])
    have "set (usr_roles w) - set D = set selected \<union> (set (usr_roles u) - set ROLES)" using w(2) sets by auto
    then show "roles_become U user_id w' (set selected \<union> (set (usr_roles u) - set ROLES)) s1 s2"
      if "us_find_id U user_id s1 = Some w'" for w' using that w(1) s2(2) by simp
  qed
  then obtain rs where rs: "us_find_id U user_id s2 = Some (u\<lparr>usr_roles := rs\<rparr>)"
    "set rs = set selected \<union> (set (usr_roles u) - set ROLES)" "\<forall>j. j \<noteq> user_id \<longrightarrow> us_find_id U j s2 = us_find_id U j s"
    by (auto simp: roles_become_def)
  have "user_has_privilege U (Some (u\<lparr>usr_roles := rs\<rparr>)) p = Inr (\<exists>r \<in> set roles. r \<in> set selected)"
    if "(p, roles) \<in> set PRIVILEGES" for p roles
    using privileges_are_roles[OF that] privileges_lookup[OF that] rs(2)
    by (auto simp: user_has_privilege_def dlookup_def list_ex_iff store_okD(7)[OF assms(1)])
  moreover have "edit_roles U user_id selected s = (Inr True, s2)"
    by (simp add: edit_roles_def assms(2) AD user_db_session_def s1(1) s2(1))
  ultimately show ?thesis using rs by auto
qed

text \<open>A password and its confirmation are the only thing a user without management rights can change.\<close>

definition only_password :: "'s user_store \<Rightarrow> string \<Rightarrow> 's \<Rightarrow> 's \<Rightarrow> bool" where
  "only_password U i s s' \<longleftrightarrow> s' = s \<or> (\<exists>h. changes U i (\<lambda>v. v\<lparr>usr_password := h\<rparr>) s s')"

lemma change_password_result:
  assumes "store_ok U" "us_find_id U i s = Some u" "change_password U (usr_email u) pw s = Inr s'"
  shows "changes U i (\<lambda>v. v\<lparr>usr_password := us_hash U pw\<rparr>) s s'"
proof -
  from assms(3) obtain v where v: "us_find_email U (usr_email u) s = Some v" "us_put_password U v (us_hash U pw) s = Inr s'"
    by (auto simp: change_password_def split: option.splits)
  have "us_find_email U (usr_email u) s = Some u"
    unfolding store_okD(2)[OF assms(1)] using assms(2) store_okD(1)[OF assms(1,2)] by simp
  with v(1) have uv: "v = u" by simp
  obtain s1 where "us_put_password U u (us_hash U pw) s = Inr s1" "changes U (usr_id u) (\<lambda>v. v\<lparr>usr_password := us_hash U pw\<rparr>) s s1"
    using store_okD(6)[OF assms(1), of u s "us_hash U pw"] assms(2) store_okD(1)[OF assms(1,2)] by auto
  with v(2) uv store_okD(1)[OF assms(1,2)] show ?thesis by simp
qed

lemma own_password_only:
  assumes "store_ok U" "us_find_id U i s = Some u"
  shows "only_password U i s (snd (change_own_password U (Some u) form s))"
  using change_password_result[OF assms]
  by (auto simp: change_own_password_def get_field_def user_db_session_def only_password_def split: option.splits sum.splits)

lemma request_without_rights:
  assumes "store_ok U" "\<And>u. us_find_id U i s = Some u \<Longrightarrow> ''superuser'' \<notin> set (usr_roles u)"
  shows "only_password U i s (snd (serve U True (Some i) r s))"
proof (cases "us_find_id U i s")
  case None
  then show ?thesis by (simp add: serve_def roles_accepted_def only_password_def store_okD(8)[OF assms(1)])
next
  case (Some u)
  have managers: "roles_for ''manage_users'' = [''superuser'']" by code_simp
  show ?thesis
  proof (cases r)
    case (ShowProfile form)
    then show ?thesis using own_password_only[OF assms(1) Some]
      by (cases form) (simp_all add: serve_def handle_request_def only_password_def Let_def Some)
  qed (use assms(2)[OF Some] in \<open>simp_all add: serve_def Some request_privilege_def managers roles_accepted_def only_password_def store_okD(8)[OF assms(1)]\<close>)
qed

lemma only_password_roles:
  "only_password U i s s' \<Longrightarrow> map_option usr_roles (us_find_id U j s') = map_option usr_roles (us_find_id U j s)"
  by (auto simp: only_password_def changes_def option.map_comp comp_def)

lemma only_password_other: "only_password U i s s' \<Longrightarrow> j \<noteq> i \<Longrightarrow> us_find_id U j s' = us_find_id U j s"
  by (auto simp: only_password_def changes_def)

text \<open>C33: Nobody gains rights. Whatever sequence of requests users without the role superuser send
  to the user management, with authentication on, at the end every user has the roles he had
  before, and nothing at all of a user changes who sent no request himself.
\<close>

theorem no_privilege_escalation:
  assumes "store_ok U" "\<forall>i \<in> set (map fst reqs). \<forall>u. us_find_id U i s = Some u \<longrightarrow> ''superuser'' \<notin> set (usr_roles u)"
    and "s' = fold (\<lambda>(i, r) s. snd (serve U True (Some i) r s)) reqs s"
  shows "map_option usr_roles (us_find_id U j s') = map_option usr_roles (us_find_id U j s)
    \<and> (j \<notin> set (map fst reqs) \<longrightarrow> us_find_id U j s' = us_find_id U j s)"
  using assms(2,3)
proof (induction reqs arbitrary: s)
  case (Cons ir reqs)
  obtain i r where ir: "ir = (i, r)" by force
  let ?s1 = "snd (serve U True (Some i) r s)"
  have step: "only_password U i s ?s1" using request_without_rights[OF assms(1)] Cons.prems(1) ir by simp
  have "\<forall>k \<in> set (map fst reqs). \<forall>u. us_find_id U k ?s1 = Some u \<longrightarrow> ''superuser'' \<notin> set (usr_roles u)"
  proof (intro ballI allI impI)
    fix k u assume k: "k \<in> set (map fst reqs)" "us_find_id U k ?s1 = Some u"
    with only_password_roles[OF step, of k] obtain v where v: "us_find_id U k s = Some v" "usr_roles v = usr_roles u"
      by (cases "us_find_id U k s") auto
    with Cons.prems(1) k(1) ir show "''superuser'' \<notin> set (usr_roles u)" by auto
  qed
  from Cons.IH[OF this] Cons.prems(2) ir only_password_roles[OF step, of j] only_password_other[OF step, of j]
  show ?case by auto
qed simp

text \<open>A store that keys users by address, for the witnesses.\<close>

type_synonym ex_store = "(string \<Rightarrow> (string \<times> string list) option) \<times> string list"

definition ex_user :: "string \<Rightarrow> string \<times> string list \<Rightarrow> user" where
  "ex_user i p = \<lparr>usr_id = i, usr_email = i, usr_password = fst p, usr_roles = snd p, usr_api_key = []\<rparr>"

definition ex_users :: "ex_store user_store" where
  "ex_users = \<lparr>us_find_id = \<lambda>i s. map_option (ex_user i) (fst s i), us_find_email = \<lambda>i s. map_option (ex_user i) (fst s i),
     us_find_api_key = \<lambda>_ _. None, us_users = \<lambda>_. [], us_roles = snd,
     us_create_user = \<lambda>e p rs s. Inr ((fst s)(e \<mapsto> (p, rs)), snd s),
     us_delete_user = \<lambda>u s. case u of None \<Rightarrow> Inl GenericException | Some u \<Rightarrow> Inr ((fst s)(usr_id u := None), snd s),
     us_create_role = \<lambda>r s. Inr (fst s, snd s @ [r]),
     us_add_role = \<lambda>u r s. Inr ((fst s)(usr_id u := map_option (\<lambda>(p, rs). (p, set_add r rs)) (fst s (usr_id u))), snd s),
     us_remove_role = \<lambda>u r s. Inr ((fst s)(usr_id u := map_option (\<lambda>(p, rs). (p, set_minus rs [r])) (fst s (usr_id u))), snd s),
     us_put_password = \<lambda>u h s. Inr ((fst s)(usr_id u := map_option (\<lambda>(p, rs). (h, rs)) (fst s (usr_id u))), snd s),
     us_hash = \<lambda>p. p, us_verify = \<lambda>p h. p = h, us_identify = \<lambda>_. Some ''plaintext'',
     us_has_role = \<lambda>u r. r \<in> set (usr_roles u),
     us_accepts = \<lambda>roles u. (case u of None \<Rightarrow> False | Some v \<Rightarrow> set roles \<inter> set (usr_roles v) \<noteq> {})\<rparr>"

lemma ex_users_found: "us_find_id ex_users i s = Some u \<Longrightarrow> usr_id u = i \<and> usr_email u = i"
  "us_find_email ex_users i s = us_find_id ex_users i s"
  by (auto simp: ex_users_def ex_user_def)

lemma store_ok_ex_users: "store_ok ex_users"
  unfolding store_ok_def
proof (intro conjI allI impI)
  show "us_find_email ex_users e s = Some u \<longleftrightarrow> us_find_id ex_users (usr_id u) s = Some u \<and> usr_email u = e" for e s u
    using ex_users_found(1)[of e s u] ex_users_found(1)[of "usr_id u" s u] by (auto simp: ex_users_found(2))
qed (auto simp: ex_users_def ex_user_def changes_def option.map_comp comp_def split: prod.splits option.splits)

definition ex_user_state :: ex_store where
  "ex_user_state = ([''alice'' \<mapsto> (''a'', [''guest'']), ''bob'' \<mapsto> (''b'', [''analyst''])], ROLES)"

theorem edit_roles_exact_witness:
  "\<exists>s' rs. edit_roles ex_users ''alice'' [''analyst''] ex_user_state = (Inr True, s')
    \<and> us_find_id ex_users ''alice'' s' = Some (ex_user ''alice'' (''a'', rs)) \<and> set rs = {''analyst''}
    \<and> user_has_privilege ex_users (us_find_id ex_users ''alice'' s') ''compare'' = Inr True
    \<and> user_has_privilege ex_users (us_find_id ex_users ''alice'' s') ''delete'' = Inr False"
proof -
  have u: "us_find_id ex_users ''alice'' ex_user_state = Some (ex_user ''alice'' (''a'', [''guest'']))"
    by (simp add: ex_users_def ex_user_state_def)
  have p: "(''compare'', [''superuser'', ''senior_analyst'', ''analyst'']) \<in> set PRIVILEGES" "(''delete'', [''superuser'']) \<in> set PRIVILEGES"
    by (simp_all add: PRIVILEGES_def)
  from edit_roles_exact[OF store_ok_ex_users u, of "[''analyst'']"] obtain s' rs where
    s': "edit_roles ex_users ''alice'' [''analyst''] ex_user_state = (Inr True, s')"
      "us_find_id ex_users ''alice'' s' = Some ((ex_user ''alice'' (''a'', [''guest'']))\<lparr>usr_roles := rs\<rparr>)"
      "set rs = set [''analyst''] \<union> (set (usr_roles (ex_user ''alice'' (''a'', [''guest'']))) - set ROLES)"
    and r: "\<forall>(p, roles) \<in> set PRIVILEGES.
      user_has_privilege ex_users (us_find_id ex_users ''alice'' s') p = Inr (\<exists>r \<in> set roles. r \<in> set [''analyst''])"
    by blast
  have "set rs = {''analyst''}" unfolding s'(3) by (simp add: ex_user_def ROLES_def)
  moreover have "user_has_privilege ex_users (us_find_id ex_users ''alice'' s') ''compare'' = Inr True"
    "user_has_privilege ex_users (us_find_id ex_users ''alice'' s') ''delete'' = Inr False"
    using bspec[OF r p(1)] bspec[OF r p(2)] by simp_all
  ultimately show ?thesis using s'(1,2) by (auto simp: ex_user_def)
qed

theorem no_privilege_escalation_witness:
  "map_option usr_roles (us_find_id ex_users ''alice''
     (fold (\<lambda>(i, r) s. snd (serve ex_users True (Some i) r s))
       [(''alice'', EditUser ''alice'' [(''input_roles'', ''superuser'')] [''superuser'']), (''bob'', DeleteUser ''alice'')] ex_user_state))
   = Some [''guest'']"
proof -
  let ?reqs = "[(''alice'', EditUser ''alice'' [(''input_roles'', ''superuser'')] [''superuser'']), (''bob'', DeleteUser ''alice'')]"
  have "\<forall>i \<in> set (map fst ?reqs). \<forall>u. us_find_id ex_users i ex_user_state = Some u \<longrightarrow> ''superuser'' \<notin> set (usr_roles u)"
    by (auto simp: ex_users_def ex_user_state_def ex_user_def)
  from no_privilege_escalation[OF store_ok_ex_users this refl, of "''alice''"]
  have "map_option usr_roles (us_find_id ex_users ''alice''
      (fold (\<lambda>(i, r) s. snd (serve ex_users True (Some i) r s)) ?reqs ex_user_state))
    = map_option usr_roles (us_find_id ex_users ''alice'' ex_user_state)" by (rule conjunct1)
  also have "\<dots> = Some [''guest'']" by (simp add: ex_users_def ex_user_state_def ex_user_def)
  finally show ?thesis .
qed

end
