(* ===== verification/FileSystemMetadata.thy ===== *)
theory FileSystemMetadata
  imports RestApi
begin

text \<open>
  The plugin \<open>src/plugins/analysis/file_system_metadata\<close>: the script that lists a mounted image
  (\<open>docker/mount.py\<close>), the plugin (\<open>code/file_system_metadata.py\<close>) and the page and REST resource
  that show a file the metadata its parents recorded for it (\<open>routes/routes.py\<close>). What mounting an
  image and reading a tar archive yield are parameters.
\<close>

section \<open>Number bases and base64\<close>

text \<open>\<open>oct(n)[2:]\<close> and \<open>f'{n:b}'\<close>.\<close>

fun base_digits :: "nat \<Rightarrow> nat \<Rightarrow> string" where
  "base_digits b n = (if b < 2 \<or> n < b then [char_of (48 + n)]
     else base_digits b (n div b) @ [char_of (48 + n mod b)])"

declare base_digits.simps [simp del]

definition oct_str :: "nat \<Rightarrow> string" where
  "oct_str n = base_digits 8 n"

definition bin3 :: "nat \<Rightarrow> string" where
  "bin3 n = (let s = base_digits 2 n in replicate (3 - length s) (CHR ''0'') @ s)"

definition b64_alphabet :: string where
  "b64_alphabet = ''ABCDEFGHIJKLMNOPQRSTUVWXYZabcdefghijklmnopqrstuvwxyz0123456789+/''"

definition b64_char :: "nat \<Rightarrow> char" where
  "b64_char n = b64_alphabet ! n"

fun b64encode :: "bytes \<Rightarrow> string" where
  "b64encode [] = []"
| "b64encode [a] = [b64_char (a div 4), b64_char (a mod 4 * 16), CHR ''='', CHR ''='']"
| "b64encode [a, b] = [b64_char (a div 4), b64_char (a mod 4 * 16 + b div 16), b64_char (b mod 16 * 4), CHR ''='']"
| "b64encode (a # b # c # rest) =
     [b64_char (a div 4), b64_char (a mod 4 * 16 + b div 16), b64_char (b mod 16 * 4 + c div 64), b64_char (c mod 64)]
     @ b64encode rest"

text \<open>The key of a file in the result: \<open>b64encode(name.encode()).decode()\<close>.\<close>

definition file_key :: "string \<Rightarrow> string" where
  "file_key name = b64encode (utf8_encode name)"

section \<open>Listing a mounted image\<close>

record stat_result =
  st_uid :: nat
  st_gid :: nat
  st_mode :: nat
  st_atime :: py_float
  st_ctime :: py_float
  st_mtime :: py_float

text \<open>An entry below the mount point: its relative path and what \<open>lstat\<close> answers (a
  \<open>PermissionError\<close> is \<open>None\<close>).\<close>

record fs_entry =
  fe_path :: string
  fe_symlink :: bool
  fe_file :: bool
  fe_stat :: "stat_result option"

type_synonym file_stats = "string \<times> string \<times> stat_result"

definition get_mounted_file_stats :: "fs_entry list \<Rightarrow> file_stats list" where
  "get_mounted_file_stats entries =
     concat (map (\<lambda>e. case fe_stat e of
         None \<Rightarrow> []
       | Some st \<Rightarrow> if \<not> fe_symlink e \<and> fe_file e then [(path_name (fe_path e), fe_path e, st)] else []) entries)"

text \<open>The container: mounting may fail, and then it writes no output file.\<close>

definition mount_main :: "(bytes \<Rightarrow> fs_entry list option) \<Rightarrow> bytes \<Rightarrow> file_stats list option" where
  "mount_main mount_image img = map_option get_mounted_file_stats (mount_image img)"

section \<open>The plugin\<close>

definition ARCHIVE_MIME_TYPES :: "string list" where
  "ARCHIVE_MIME_TYPES = [''application/gzip'', ''application/x-bzip2'', ''application/x-tar'']"

definition FS_MIME_TYPES :: "string list" where
  "FS_MIME_TYPES = [''filesystem/btrfs'', ''filesystem/cramfs'', ''filesystem/dosmbr'', ''filesystem/ext2'',
     ''filesystem/ext3'', ''filesystem/ext4'', ''filesystem/hfs'', ''filesystem/jfs'', ''filesystem/minix'',
     ''filesystem/reiserfs'', ''filesystem/romfs'', ''filesystem/udf'', ''filesystem/xfs'', ''filesystem/squashfs'']"

record tar_info =
  ti_name :: string
  ti_isfile :: bool
  ti_mode :: nat
  ti_uname :: string
  ti_gname :: string
  ti_uid :: nat
  ti_gid :: nat
  ti_mtime :: pyval

datatype tar_end = TarComplete | TarBroken | TarRaises py_error

text \<open>The environment: mounting an image, the members of an archive up to its end or to an
  error (\<open>TarBroken\<close> is one of the errors the plugin catches), and reading a file.\<close>

record fsm_env =
  fs_mount :: "bytes \<Rightarrow> fs_entry list option"
  fs_stdout :: "bytes \<Rightarrow> string"
  fs_tar :: "string option \<Rightarrow> tar_info list \<times> tar_end"
  fs_read :: "string option \<Rightarrow> bytes result"

type_synonym fs_files = "(string, pyval) dict"

definition get_extended_file_permissions :: "string \<Rightarrow> bool list result" where
  "get_extended_file_permissions file_mode =
     (if 3 < length file_mode then
        let c = file_mode ! (length file_mode - 4) in
        if is_digit c then Inr (map (\<lambda>b. b = CHR ''1'') (bin3 (digit_value c))) else Inl ValueError
      else Inr (map (\<lambda>b. b = CHR ''1'') ''000''))"

definition S_IMODE :: "nat \<Rightarrow> nat" where
  "S_IMODE mode = mode mod 4096"

text \<open>\<open>stat.filemode\<close>: the kind of the file and three times three flags.\<close>

definition filemode_type :: "nat \<Rightarrow> char" where
  "filemode_type mode = (case map_of [(8, CHR ''-''), (4, CHR ''d''), (10, CHR ''l''), (6, CHR ''b''), (2, CHR ''c''),
      (1, CHR ''p''), (12, CHR ''s'')] (mode div 4096 mod 16) of None \<Rightarrow> CHR ''?'' | Some c \<Rightarrow> c)"

definition filemode_triple :: "nat \<Rightarrow> nat \<Rightarrow> char \<Rightarrow> char \<Rightarrow> nat \<Rightarrow> string" where
  "filemode_triple mode shift s S special =
     [(if bit mode (shift + 2) then CHR ''r'' else CHR ''-''), (if bit mode (shift + 1) then CHR ''w'' else CHR ''-''),
      (if bit mode special then (if bit mode shift then s else S)
       else if bit mode shift then CHR ''x'' else CHR ''-'')]"

definition filemode :: "nat \<Rightarrow> string" where
  "filemode mode = filemode_type mode # filemode_triple mode 6 (CHR ''s'') (CHR ''S'') 11
     @ filemode_triple mode 3 (CHR ''s'') (CHR ''S'') 10 @ filemode_triple mode 0 (CHR ''t'') (CHR ''T'') 9"

definition get_mounted_file_mode :: "stat_result \<Rightarrow> string" where
  "get_mounted_file_mode st = oct_str (S_IMODE (st_mode st))"

definition get_tar_file_mode_str :: "tar_info \<Rightarrow> string" where
  "get_tar_file_mode_str info = oct_str (ti_mode info)"

text \<open>\<open>a, b, c = flags\<close>, then the three assignments.\<close>

definition set_flags :: "string \<Rightarrow> (string, pyval) dict \<Rightarrow> (string, pyval) dict result" where
  "set_flags mode res = bind_r (get_extended_file_permissions mode) (\<lambda>flags. case flags of
      [suid, sgid, sticky] \<Rightarrow> Inr (dput ''sticky flag'' (PBool sticky) (dput ''setgid flag'' (PBool sgid)
         (dput ''setuid flag'' (PBool suid) res)))
    | _ \<Rightarrow> Inl ValueError)"

definition mounted_file_entry :: "file_stats \<Rightarrow> (string, pyval) dict result" where
  "mounted_file_entry x = (case x of (name, path, st) \<Rightarrow>
     set_flags (get_mounted_file_mode st)
       [(''file mode octal'', PStr (get_mounted_file_mode st)), (''file mode'', PStr (filemode (st_mode st))),
        (''file name'', PStr name), (''file path'', PStr path), (''owner user id'', PInt (int (st_uid st))),
        (''owner group id'', PInt (int (st_gid st))), (''owner'', PStr (if st_uid st = 0 then ''root'' else '''')),
        (''owner group'', PStr (if st_gid st = 0 then ''root'' else '''')),
        (''modification time'', PFloat (st_mtime st)), (''access time'', PFloat (st_atime st)),
        (''creation time'', PFloat (st_ctime st))])"

definition enter_results_for_mounted_file :: "file_stats \<Rightarrow> fs_files \<Rightarrow> fs_files result" where
  "enter_results_for_mounted_file x files =
     map_r (\<lambda>e. dput (file_key (fst x)) (PDict e) files) (mounted_file_entry x)"

definition analyze_metadata_of_mounted_dir :: "file_stats list \<Rightarrow> fs_files \<Rightarrow> fs_files result" where
  "analyze_metadata_of_mounted_dir docker_results files =
     foldM_r enter_results_for_mounted_file docker_results files"

definition tar_path :: "tar_info \<Rightarrow> string" where
  "tar_path info = (if startswith (ti_name info) ''./'' then drop 2 (ti_name info) else ti_name info)"

definition tar_file_entry :: "tar_info \<Rightarrow> (string, pyval) dict result" where
  "tar_file_entry info = set_flags (get_tar_file_mode_str info)
     [(''file mode octal'', PStr (get_tar_file_mode_str info)), (''file name'', PStr (path_name (tar_path info))),
      (''file path'', PStr (tar_path info)), (''owner'', PStr (ti_uname info)), (''owner group'', PStr (ti_gname info)),
      (''owner user id'', PInt (int (ti_uid info))), (''owner group id'', PInt (int (ti_gid info))),
      (''modification time'', ti_mtime info)]"

definition enter_results_for_tar_file :: "tar_info \<Rightarrow> fs_files \<Rightarrow> fs_files result" where
  "enter_results_for_tar_file info files =
     map_r (\<lambda>e. dput (file_key (tar_path info)) (PDict e) files) (tar_file_entry info)"

definition extract_metadata_from_tar :: "fsm_env \<Rightarrow> file_object \<Rightarrow> fs_files \<Rightarrow> fs_files result" where
  "extract_metadata_from_tar V fo files = (case fs_tar V (file_path fo) of (members, tar_stop) \<Rightarrow>
     bind_r (foldM_r (\<lambda>info r. if ti_isfile info then enter_results_for_tar_file info r else Inr r) members files)
       (\<lambda>r. case tar_stop of TarRaises e \<Rightarrow> Inl e | _ \<Rightarrow> Inr r))"

text \<open>A failed mount is recorded in the result of the plugin, which the plugin base class has
  created.\<close>

definition set_result_key :: "string \<Rightarrow> string \<Rightarrow> pyval \<Rightarrow> file_object \<Rightarrow> file_object result" where
  "set_result_key name k v fo =
     map_r (\<lambda>res. fo\<lparr>processed_analysis := dput name (dput k v res) (processed_analysis fo)\<rparr>)
       (dlookup (processed_analysis fo) name)"

definition extract_metadata_from_file_system ::
  "fsm_env \<Rightarrow> file_object \<Rightarrow> fs_files \<Rightarrow> (file_object \<times> fs_files) result" where
  "extract_metadata_from_file_system V fo files =
     bind_r (case binary fo of Some (x # xs) \<Rightarrow> Inr (x # xs) | _ \<Rightarrow> fs_read V (file_path fo)) (\<lambda>img.
       case mount_main (fs_mount V) img of
         Some docker_results \<Rightarrow> map_r (Pair fo) (analyze_metadata_of_mounted_dir docker_results files)
       | None \<Rightarrow> map_r (\<lambda>fo'. (fo', files))
           (set_result_key ''file_system_metadata'' ''failed'' (PStr (''mount failed:'' @ [char_of (10::nat)] @ fs_stdout V img)) fo))"

definition entry_has_root_suid :: "pyval \<Rightarrow> bool result" where
  "entry_has_root_suid e = (case e of
      PDict r \<Rightarrow>
        if dmem ''owner'' r then
          if dget r ''owner'' \<noteq> Some (PStr ''root'') then Inr False
          else bind_r (dlookup r ''setuid flag'') (\<lambda>suid. if suid = PBool True then Inr True
                 else bind_r (dlookup r ''setgid flag'') (\<lambda>sgid. Inr (sgid = PBool True)))
        else Inr False
    | _ \<Rightarrow> Inl TypeError)"

definition tag_should_be_set :: "fs_files \<Rightarrow> bool result" where
  "tag_should_be_set results = any_r entry_has_root_suid (dvalues results)"

definition fsm_add_tag :: "(bytes \<Rightarrow> string) \<Rightarrow> plugin \<Rightarrow> fs_files \<Rightarrow> file_object \<Rightarrow> file_object result" where
  "fsm_add_tag sha p results fo =
     bind_r (tag_should_be_set results) (\<lambda>hit.
       if hit then add_analysis_tag sha p ''SUID/GUID + root'' (PStr ''SUID/GUID + root'') (tag_value BLUE) False fo
       else Inr fo)"

definition result_mime :: "analysis_result \<Rightarrow> pyval result" where
  "result_mime res = dlookup res ''mime''"

definition extract_metadata :: "(bytes \<Rightarrow> string) \<Rightarrow> fsm_env \<Rightarrow> plugin \<Rightarrow> file_object \<Rightarrow> file_object result" where
  "extract_metadata sha V p fo =
     bind_r (dlookup (processed_analysis fo) ''file_type'') (\<lambda>ft. bind_r (result_mime ft) (\<lambda>mime.
     bind_r (if mime \<in> PStr ` set FS_MIME_TYPES then extract_metadata_from_file_system V fo []
             else if mime \<in> PStr ` set ARCHIVE_MIME_TYPES then map_r (Pair fo) (extract_metadata_from_tar V fo [])
             else Inr (fo, []))
       (\<lambda>(fo', files). if files = [] then Inr fo'
          else fsm_add_tag sha p files (fo'\<lparr>processed_analysis :=
                 dput ''file_system_metadata'' [(''files'', PDict files)] (processed_analysis fo')\<rparr>))))"

definition has_correct_type :: "pyval \<Rightarrow> bool" where
  "has_correct_type mime = (mime \<in> PStr ` set (ARCHIVE_MIME_TYPES @ FS_MIME_TYPES))"

definition parent_fo_has_fs_metadata_analysis_results :: "db \<Rightarrow> file_object \<Rightarrow> bool result" where
  "parent_fo_has_fs_metadata_analysis_results d fo =
     any_r (\<lambda>parent_uid. case get_analysis d (Some parent_uid) ''file_type'' of
         None \<Rightarrow> Inr False
       | Some entry \<Rightarrow> map_r has_correct_type (result_mime entry))
       (get_parent_uids_from_virtual_path (virtual_file_path fo))"

definition parent_has_file_system_metadata :: "db \<Rightarrow> file_object \<Rightarrow> bool result" where
  "parent_has_file_system_metadata d fo = (case dget (temporary_data fo) ''parent_fo_type'' of
      Some mime \<Rightarrow> Inr (has_correct_type mime)
    | None \<Rightarrow> parent_fo_has_fs_metadata_analysis_results d fo)"

definition set_result_propagation_flag :: "db \<Rightarrow> file_object \<Rightarrow> file_object result" where
  "set_result_propagation_flag d fo =
     (let fo1 = (if dmem ''file_system_metadata'' (processed_analysis fo) then fo
                 else fo\<lparr>processed_analysis := dput ''file_system_metadata'' [] (processed_analysis fo)\<rparr>)
      in bind_r (parent_has_file_system_metadata d fo1) (\<lambda>b.
           set_result_key ''file_system_metadata'' ''contained_in_file_system'' (PBool b) fo1))"

definition fsm_process_object ::
  "(bytes \<Rightarrow> string) \<Rightarrow> fsm_env \<Rightarrow> plugin \<Rightarrow> db \<Rightarrow> file_object \<Rightarrow> file_object result" where
  "fsm_process_object sha V p d fo = bind_r (extract_metadata sha V p fo) (set_result_propagation_flag d)"

section \<open>Showing the metadata of a file\<close>

text \<open>The paths of the file below the parent: the last component of a virtual path that
  mentions the parent, without its leading slash.\<close>

definition get_parent_file_names :: "uid \<Rightarrow> file_object \<Rightarrow> string list result" where
  "get_parent_file_names parent_uid this_fo =
     (let paths = concat (dvalues (virtual_file_path this_fo)) in
      case parent_uid of
        None \<Rightarrow> if paths = [] then Inr [] else Inl TypeError
      | Some pu \<Rightarrow> Inr (map (\<lambda>vp. tl (last (split_on (CHR ''|'') vp))) (filter (substr_in pu) paths)))"

definition add_parent_uid :: "uid \<Rightarrow> pyval \<Rightarrow> pyval result" where
  "add_parent_uid parent_uid e = (case e of
      PDict r \<Rightarrow> Inr (PDict (dput ''parent_uid'' (pstr_opt parent_uid) r)) | _ \<Rightarrow> Inl TypeError)"

definition get_results_from_parent_fo ::
  "analysis_result option \<Rightarrow> uid \<Rightarrow> file_object \<Rightarrow> (string, pyval) dict result" where
  "get_results_from_parent_fo parent_results parent_uid this_fo =
     (case parent_results of
        None \<Rightarrow> Inr []
      | Some res \<Rightarrow> (case dget res ''files'' of
            None \<Rightarrow> Inr []
          | Some (PDict files) \<Rightarrow>
              bind_r (get_parent_file_names parent_uid this_fo) (\<lambda>names.
                foldM_r (\<lambda>name results. case dget files (file_key name) of
                    None \<Rightarrow> Inr results
                  | Some e \<Rightarrow> map_r (\<lambda>e'. dput name e' results) (add_parent_uid parent_uid e)) names [])
          | Some _ \<Rightarrow> Inl TypeError))"

definition get_analysis_results_for_included_uid :: "db \<Rightarrow> uid \<Rightarrow> (string, pyval) dict result" where
  "get_analysis_results_for_included_uid d u =
     bind_r (get_object d u None) (\<lambda>obj. case obj of
        None \<Rightarrow> Inr []
      | Some this_fo \<Rightarrow> foldM_r (\<lambda>parent_uid results. map_r (dupdate results)
          (get_results_from_parent_fo (get_analysis d parent_uid ''file_system_metadata'') parent_uid this_fo))
        (parents this_fo) [])"

text \<open>The REST resource: the message for a missing result is built, but not returned.\<close>

definition fsm_rest_get :: "rest_env \<Rightarrow> db \<Rightarrow> string \<Rightarrow> rest_response result" where
  "fsm_rest_get R d u =
     map_r (\<lambda>results. success_message R [(''file_system_metadata'', PDict results)]
         ''/plugins/file_system_metadata/rest/<uid>'' (Some [(''uid'', PStr u)]) 200)
       (get_analysis_results_for_included_uid d (Some u))"

section \<open>Digits, flags and keys\<close>

lemma base_digits_from_end:
  assumes "2 \<le> b"
  shows "(k < length (base_digits b n) \<longleftrightarrow> k = 0 \<or> b ^ k \<le> n) \<and>
    (k < length (base_digits b n) \<longrightarrow> rev (base_digits b n) ! k = char_of (48 + n div b ^ k mod b))"
  using assms
proof (induction b n arbitrary: k rule: base_digits.induct)
  case (1 b n)
  show ?case
  proof (cases "n < b")
    case True
    have "k = 0" if "b ^ k \<le> n"
    proof (rule ccontr)
      assume "k \<noteq> 0"
      then have "b \<le> b ^ k" using 1(2) power_increasing[of 1 k b] by simp
      with that True show False by simp
    qed
    with True 1(2) show ?thesis by (auto simp: base_digits.simps[of b n])
  next
    case False
    have IH: "(j < length (base_digits b (n div b)) \<longleftrightarrow> j = 0 \<or> b ^ j \<le> n div b) \<and>
      (j < length (base_digits b (n div b)) \<longrightarrow>
        rev (base_digits b (n div b)) ! j = char_of (48 + n div b div b ^ j mod b))" for j
      using 1(1)[OF _ 1(2), of j] False 1(2) by simp
    have split: "base_digits b n = base_digits b (n div b) @ [char_of (48 + n mod b)]"
      using False 1(2) by (subst base_digits.simps) simp
    show ?thesis
    proof (cases k)
      case 0
      then show ?thesis by (simp add: split)
    next
      case (Suc j)
      have "b ^ j \<le> n div b \<longleftrightarrow> b * b ^ j \<le> n"
        using 1(2) by (simp add: less_eq_div_iff_mult_less_eq mult.commute)
      moreover have "b \<le> n" using False by simp
      ultimately show ?thesis
        using IH[of j] 1(2) by (auto simp: split Suc div_mult2_eq nth_append)
    qed
  qed
qed

lemma length_oct_str: "3 < length (oct_str m) \<longleftrightarrow> 512 \<le> m"
  using base_digits_from_end[of 8 3 m] by (simp add: oct_str_def)

lemma oct_str_special:
  assumes "512 \<le> m"
  shows "oct_str m ! (length (oct_str m) - 4) = char_of (48 + m div 512 mod 8)"
proof -
  have "3 < length (oct_str m)" using assms by (simp add: length_oct_str)
  then have "rev (oct_str m) ! 3 = oct_str m ! (length (oct_str m) - 4)"
    by (simp add: rev_nth)
  then show ?thesis
    using base_digits_from_end[of 8 3 m] \<open>3 < length (oct_str m)\<close> by (simp add: oct_str_def)
qed

lemma octal_digits: "list_all (\<lambda>n. is_digit (char_of (48 + n)) \<and>
    map (\<lambda>b. b = CHR ''1'') (bin3 (digit_value (char_of (48 + n)))) = [odd (n div 4), odd (n div 2), odd n])
  [0, 1, 2, 3, 4, 5, 6, 7 :: nat]"
  by code_simp

lemma bits_of_octal_digit:
  assumes "n < (8::nat)"
  shows "is_digit (char_of (48 + n))"
    and "map (\<lambda>b. b = CHR ''1'') (bin3 (digit_value (char_of (48 + n)))) = [odd (n div 4), odd (n div 2), odd n]"
proof -
  have "n \<in> set [0, 1, 2, 3, 4, 5, 6, 7]" using assms by auto
  with octal_digits show "is_digit (char_of (48 + n))"
    and "map (\<lambda>b. b = CHR ''1'') (bin3 (digit_value (char_of (48 + n)))) = [odd (n div 4), odd (n div 2), odd n]"
    unfolding list_all_iff by blast+
qed

lemma mod_8_odd: "odd (m mod 8 div 4) = odd (m div 4)" "odd (m mod 8 div 2) = odd (m div 2)"
  "odd (m mod 8) = odd (m :: nat)"
proof -
  have m: "m = m div 8 * 8 + m mod 8" by simp
  show "odd (m mod 8 div 4) = odd (m div 4)" by presburger
  show "odd (m mod 8 div 2) = odd (m div 2)" by presburger
  show "odd (m mod 8) = odd m" by presburger
qed

lemma extended_permissions_of_mode:
  "get_extended_file_permissions (oct_str m) = Inr [bit m 11, bit m 10, bit m 9]"
proof (cases "512 \<le> m")
  case True
  have "m div 512 mod 8 < 8" by simp
  from bits_of_octal_digit[OF this] True show ?thesis
    by (simp add: get_extended_file_permissions_def length_oct_str oct_str_special bit_iff_odd mod_8_odd
        div_mult2_eq[symmetric])
next
  case False
  then have "m div 2 ^ 11 = 0" "m div 2 ^ 10 = 0" "m div 2 ^ 9 = 0" by auto
  with False show ?thesis
    by (simp add: get_extended_file_permissions_def length_oct_str bit_iff_odd)
qed

lemma set_flags_of_mode:
  "set_flags (oct_str m) res = Inr (dput ''sticky flag'' (PBool (bit m 9)) (dput ''setgid flag'' (PBool (bit m 10))
     (dput ''setuid flag'' (PBool (bit m 11)) res)))"
  by (simp add: set_flags_def extended_permissions_of_mode)

text \<open>Different names have different keys.\<close>

lemma utf8_char_range: "x \<in> set (utf8_char c) \<Longrightarrow> x < 256"
  using less_mult_imp_div_less[of "of_char c" 4 64] nat_of_char_less_256[of c]
  by (auto simp: utf8_char_def Let_def split: if_splits)

lemma utf8_encode_range: "x \<in> set (utf8_encode s) \<Longrightarrow> x < 256"
  by (auto simp: utf8_encode_def dest: utf8_char_range)

lemma utf8_char_prefix: "utf8_char c @ s = utf8_char c' @ s' \<Longrightarrow> c = c' \<and> s = s'"
proof -
  assume eq: "utf8_char c @ s = utf8_char c' @ s'"
  let ?n = "of_char c :: nat" and ?m = "of_char c' :: nat"
  have n: "?n = ?n div 64 * 64 + ?n mod 64" and m: "?m = ?m div 64 * 64 + ?m mod 64" by simp_all
  have "?n = ?m \<and> s = s'"
  proof (cases "?n < 128 \<or> ?m < 128")
    case True
    with eq show ?thesis by (auto simp: utf8_char_def Let_def split: if_splits)
  next
    case False
    with eq have "?n div 64 = ?m div 64" "?n mod 64 = ?m mod 64" "s = s'"
      by (auto simp: utf8_char_def Let_def)
    then show ?thesis by (metis n m)
  qed
  then show ?thesis by simp
qed

lemma utf8_char_nonempty: "utf8_char c \<noteq> []"
  by (simp add: utf8_char_def Let_def)

lemma utf8_encode_inject: "utf8_encode s = utf8_encode t \<Longrightarrow> s = t"
proof (induction s arbitrary: t)
  case Nil
  then show ?case by (cases t) (auto simp: utf8_encode_def utf8_char_nonempty)
next
  case (Cons c s)
  then obtain c' t' where t: "t = c' # t'"
    by (cases t) (auto simp: utf8_encode_def utf8_char_nonempty)
  with Cons.prems have "c = c'" "utf8_encode s = utf8_encode t'"
    using utf8_char_prefix[of c "utf8_encode s" c' "utf8_encode t'"] by (auto simp: utf8_encode_def)
  with Cons.IH t show ?case by simp
qed

lemma b64_char_inject: "i < 64 \<Longrightarrow> j < 64 \<Longrightarrow> b64_char i = b64_char j \<longleftrightarrow> i = j"
  unfolding b64_char_def by (rule nth_eq_iff_index_eq) (simp_all add: b64_alphabet_def)

lemma b64_char_not_pad: "i < 64 \<Longrightarrow> b64_char i \<noteq> CHR ''=''"
proof -
  assume "i < 64"
  then have "b64_char i \<in> set b64_alphabet"
    unfolding b64_char_def by (intro nth_mem) (simp add: b64_alphabet_def)
  then show ?thesis by (auto simp: b64_alphabet_def)
qed

lemma sextets:
  assumes "(a::nat) < 256" "b < 256" "c < 256"
  shows "a div 4 < 64" "a mod 4 * 16 + b div 16 < 64" "b mod 16 * 4 + c div 64 < 64" "c mod 64 < 64"
    "a mod 4 * 16 < 64" "b mod 16 * 4 < 64"
proof -
  have *: "a div 4 < 64" "b div 16 < 16" "c div 64 < 4" using assms by (simp_all add: less_mult_imp_div_less)
  have "a mod 4 < 4" "b mod 16 < 16" "c mod 64 < 64" by simp_all
  with * show "a div 4 < 64" "a mod 4 * 16 + b div 16 < 64" "b mod 16 * 4 + c div 64 < 64" "c mod 64 < 64"
    "a mod 4 * 16 < 64" "b mod 16 * 4 < 64" by linarith+
qed

lemma digit_pair: "(p::nat) * k + q = p' * k + q' \<Longrightarrow> q < k \<Longrightarrow> q' < k \<Longrightarrow> p = p' \<and> q = q'"
  by (metis add.commute div_less div_mult_self1 less_nat_zero_code mod_less mod_mult_self1 add_0 mult.commute)

lemma sextets_inject:
  assumes "(a::nat) < 256" "b < 256" "c < 256" "a' < 256" "b' < 256" "c' < 256"
    and "a div 4 = a' div 4" "a mod 4 * 16 + b div 16 = a' mod 4 * 16 + b' div 16"
    and "b mod 16 * 4 + c div 64 = b' mod 16 * 4 + c' div 64" "c mod 64 = c' mod 64"
  shows "a = a'" "b = b'" "c = c'"
proof -
  have "b div 16 < 16" "b' div 16 < 16" "c div 64 < 4" "c' div 64 < 4"
    using assms(1-6) by (simp_all add: less_mult_imp_div_less)
  with digit_pair[OF assms(8)] digit_pair[OF assms(9)]
  have *: "a mod 4 = a' mod 4" "b div 16 = b' div 16" "b mod 16 = b' mod 16" "c div 64 = c' div 64" by simp_all
  show "a = a'" by (metis *(1) assms(7) div_mult_mod_eq)
  show "b = b'" by (metis *(2,3) div_mult_mod_eq)
  show "c = c'" by (metis *(4) assms(10) div_mult_mod_eq)
qed

lemmas b64_simps = b64_char_inject b64_char_not_pad b64_char_not_pad[symmetric]
  sextets sextets(1,2,5,6)[where c = 0, simplified] sextets(3)[where a = 0, simplified] sextets(4)[where a = 0 and b = 0, simplified] sextets(1,5)[where b = 0 and c = 0, simplified]

lemma b64encode_inject:
  "list_all (\<lambda>x. x < 256) xs \<Longrightarrow> list_all (\<lambda>x. x < 256) ys \<Longrightarrow> b64encode xs = b64encode ys \<Longrightarrow> xs = ys"
proof (induction xs arbitrary: ys rule: b64encode.induct)
  case 1
  then show ?case by (cases ys rule: b64encode.cases) auto
next
  case (2 a)
  then show ?case
    by (cases ys rule: b64encode.cases) (auto simp: b64_simps intro: sextets_inject(1)[where b = 0 and b' = 0 and c = 0 and c' = 0])
next
  case (3 a b)
  show ?case
  proof (cases ys rule: b64encode.cases)
    case (3 a' b')
    with "3.prems" have "a div 4 = a' div 4" "a mod 4 * 16 + b div 16 = a' mod 4 * 16 + b' div 16"
      "b mod 16 * 4 = b' mod 16 * 4"
      by (simp_all add: b64_simps)
    with "3.prems" 3 sextets_inject[of a b 0 a' b' 0] show ?thesis by simp
  qed (use "3.prems" in \<open>auto simp: b64_simps\<close>)
next
  case (4 a b c xs)
  show ?case
  proof (cases ys rule: b64encode.cases)
    case (4 a' b' c' zs)
    with "4.prems" have "a div 4 = a' div 4" "a mod 4 * 16 + b div 16 = a' mod 4 * 16 + b' div 16"
      "b mod 16 * 4 + c div 64 = b' mod 16 * 4 + c' div 64" "c mod 64 = c' mod 64" "b64encode xs = b64encode zs"
      by (simp_all add: b64_simps)
    with "4.prems" "4.IH"[of zs] 4 sextets_inject[of a b c a' b' c'] show ?thesis by simp
  qed (use "4.prems" in \<open>auto simp: b64_simps\<close>)
qed

lemma file_key_inject: "file_key s = file_key t \<longleftrightarrow> s = t"
  unfolding file_key_def
  by (auto simp: list_all_iff dest: utf8_encode_range intro!: utf8_encode_inject b64encode_inject)

section \<open>The recorded entries\<close>

definition mounted_fields :: "file_stats \<Rightarrow> (string, pyval) dict" where
  "mounted_fields x = (case x of (name, path, st) \<Rightarrow>
     [(''file mode octal'', PStr (get_mounted_file_mode st)), (''file mode'', PStr (filemode (st_mode st))),
      (''file name'', PStr name), (''file path'', PStr path), (''owner user id'', PInt (int (st_uid st))),
      (''owner group id'', PInt (int (st_gid st))), (''owner'', PStr (if st_uid st = 0 then ''root'' else '''')),
      (''owner group'', PStr (if st_gid st = 0 then ''root'' else '''')),
      (''modification time'', PFloat (st_mtime st)), (''access time'', PFloat (st_atime st)),
      (''creation time'', PFloat (st_ctime st)), (''setuid flag'', PBool (bit (st_mode st mod 4096) 11)),
      (''setgid flag'', PBool (bit (st_mode st mod 4096) 10)), (''sticky flag'', PBool (bit (st_mode st mod 4096) 9))])"

definition tar_fields :: "tar_info \<Rightarrow> (string, pyval) dict" where
  "tar_fields info =
     [(''file mode octal'', PStr (oct_str (ti_mode info))), (''file name'', PStr (path_name (tar_path info))),
      (''file path'', PStr (tar_path info)), (''owner'', PStr (ti_uname info)), (''owner group'', PStr (ti_gname info)),
      (''owner user id'', PInt (int (ti_uid info))), (''owner group id'', PInt (int (ti_gid info))),
      (''modification time'', ti_mtime info), (''setuid flag'', PBool (bit (ti_mode info) 11)),
      (''setgid flag'', PBool (bit (ti_mode info) 10)), (''sticky flag'', PBool (bit (ti_mode info) 9))]"

lemma mounted_file_entry_fields: "mounted_file_entry x = Inr (mounted_fields x)"
  by (simp add: mounted_file_entry_def mounted_fields_def get_mounted_file_mode_def S_IMODE_def set_flags_of_mode split: prod.split)

lemma tar_file_entry_fields: "tar_file_entry info = Inr (tar_fields info)"
  by (simp add: tar_file_entry_def tar_fields_def get_tar_file_mode_str_def set_flags_of_mode)

lemma map_of_fold_dput:
  "map_of (fold (\<lambda>x. AList.update (key x) (val x)) xs d) k =
    (case find (\<lambda>x. key x = k) (rev xs) of Some x \<Rightarrow> Some (val x) | None \<Rightarrow> map_of d k)"
  by (induction xs rule: rev_induct) auto

lemma dict_ok_fold_dput: "dict_ok d \<Longrightarrow> dict_ok (fold (\<lambda>x. AList.update (key x) (val x)) xs d)"
  by (induction xs arbitrary: d) auto

text \<open>The member of the archive that stays on disk under a path: the last one.\<close>

definition effective_member :: "tar_info list \<Rightarrow> string \<Rightarrow> tar_info option" where
  "effective_member members path = find (\<lambda>i. tar_path i = path) (rev (filter ti_isfile members))"

definition tar_files :: "tar_info list \<Rightarrow> fs_files" where
  "tar_files members =
     fold (\<lambda>i. dput (file_key (tar_path i)) (PDict (tar_fields i))) (filter ti_isfile members) []"

lemma fold_filter_if: "fold (\<lambda>x s. if P x then f x s else s) xs s = fold f (filter P xs) s"
  by (induction xs arbitrary: s) auto

lemma extract_metadata_from_tar_files:
  assumes "fs_tar V (file_path fo) = (members, tar_stop)" and "tar_stop \<in> {TarComplete, TarBroken}"
  shows "extract_metadata_from_tar V fo [] = Inr (tar_files members)"
proof -
  have "foldM_r (\<lambda>info r. if ti_isfile info then enter_results_for_tar_file info r else Inr r) members [] =
    Inr (fold (\<lambda>i s. if ti_isfile i then dput (file_key (tar_path i)) (PDict (tar_fields i)) s else s) members [])"
    by (rule foldM_r_pure) (simp add: enter_results_for_tar_file_def tar_file_entry_fields)
  with assms show ?thesis
    by (auto simp: extract_metadata_from_tar_def tar_files_def fold_filter_if)
qed

lemma tar_files_get:
  "map_of (tar_files members) (file_key path) =
    map_option (\<lambda>i. PDict (tar_fields i)) (effective_member members path)"
  by (simp add: tar_files_def map_of_fold_dput file_key_inject effective_member_def split: option.split)

lemma dict_ok_tar_files: "dict_ok (tar_files members)"
  by (simp add: tar_files_def dict_ok_fold_dput)

lemma find_SomeD: "find P xs = Some x \<Longrightarrow> x \<in> set xs \<and> P x"
  by (induction xs) (auto split: if_splits)

lemma tar_files_values:
  "v \<in> set (dvalues (tar_files members)) \<longleftrightarrow>
    (\<exists>path i. effective_member members path = Some i \<and> v = PDict (tar_fields i))"
proof
  assume "v \<in> set (dvalues (tar_files members))"
  from dvalues_dget[OF dict_ok_tar_files this] obtain k where k: "map_of (tar_files members) k = Some v" by blast
  then obtain i where i: "find (\<lambda>x. file_key (tar_path x) = k) (rev (filter ti_isfile members)) = Some i"
    and v: "v = PDict (tar_fields i)"
    by (auto simp: tar_files_def map_of_fold_dput split: option.splits)
  with find_SomeD[OF i] have "effective_member members (tar_path i) = Some i"
    by (auto simp: effective_member_def file_key_inject)
  with v show "\<exists>path i. effective_member members path = Some i \<and> v = PDict (tar_fields i)" by blast
next
  assume "\<exists>path i. effective_member members path = Some i \<and> v = PDict (tar_fields i)"
  then obtain path i where "effective_member members path = Some i" "v = PDict (tar_fields i)" by blast
  then have "map_of (tar_files members) (file_key path) = Some v" by (simp add: tar_files_get)
  then show "v \<in> set (dvalues (tar_files members))" by (rule dget_in_dvalues)
qed

section \<open>The tag of a setuid file owned by root\<close>

definition root_suid :: "tar_info \<Rightarrow> bool" where
  "root_suid i \<longleftrightarrow> ti_uname i = ''root'' \<and> (bit (ti_mode i) 11 \<or> bit (ti_mode i) 10)"

lemma entry_has_root_suid_tar: "entry_has_root_suid (PDict (tar_fields i)) = Inr (root_suid i)"
  by (simp add: entry_has_root_suid_def tar_fields_def root_suid_def dmem_def dlookup_def)

lemma tag_of_tar_files:
  "tag_should_be_set (tar_files members) = Inr (\<exists>path i. effective_member members path = Some i \<and> root_suid i)"
proof -
  have "tag_should_be_set (tar_files members) =
      Inr (\<exists>v \<in> set (dvalues (tar_files members)). entry_has_root_suid v = Inr True)"
    unfolding tag_should_be_set_def
    by (rule any_r_pure) (auto simp: tar_files_values entry_has_root_suid_tar)
  also have "(\<exists>v \<in> set (dvalues (tar_files members)). entry_has_root_suid v = Inr True) \<longleftrightarrow>
      (\<exists>path i. effective_member members path = Some i \<and> root_suid i)"
    unfolding Bex_def tar_files_values using entry_has_root_suid_tar by (metis sum.inject(2))
  finally show ?thesis .
qed

lemma ARCHIVE_not_FS: "m \<in> set ARCHIVE_MIME_TYPES \<Longrightarrow> m \<notin> set FS_MIME_TYPES"
  by (auto simp: ARCHIVE_MIME_TYPES_def FS_MIME_TYPES_def)

lemma tar_files_Nil_iff: "tar_files members = [] \<longleftrightarrow> (\<forall>path. effective_member members path = None)"
proof
  assume "tar_files members = []"
  then have "map_option (\<lambda>i. PDict (tar_fields i)) (effective_member members path) = None" for path
    by (simp flip: tar_files_get)
  then show "\<forall>path. effective_member members path = None" by simp
next
  assume "\<forall>path. effective_member members path = None"
  then have "dvalues (tar_files members) = []"
    using tar_files_values[of _ members] by (auto simp: ex_in_conv[symmetric] simp del: ex_in_conv) (metis last_in_set)
  then show "tar_files members = []" by (simp add: dvalues_def)
qed

text \<open>What the plugin stores for an archive: the files, the flag of its own parent, and the
  tag.\<close>

lemma set_result_key_other:
  "set_result_key name k v fo = Inr fo' \<Longrightarrow> \<exists>res. map_of (processed_analysis fo) name = Some res \<and>
     map_of (processed_analysis fo') name = Some (dput k v res)"
  by (auto simp: set_result_key_def result_simps)

lemma processed_archive:
  assumes "fsm_process_object sha V p d fo = Inr fo'"
    and "map_of (processed_analysis fo) ''file_type'' = Some ft" "map_of ft ''mime'' = Some (PStr m)"
    and "m \<in> set ARCHIVE_MIME_TYPES"
    and "fs_tar V (file_path fo) = (members, tar_stop)" "tar_stop \<in> {TarComplete, TarBroken}"
    and "p_name p = Some ''file_system_metadata''"
    and "map_of (processed_analysis fo) ''file_system_metadata'' = Some []"
  obtains res tags where "map_of (processed_analysis fo') ''file_system_metadata'' = Some res"
    and "map_of res ''files'' = (if tar_files members = [] then None else Some (PDict (tar_files members)))"
    and "map_of res ''tags'' = (if \<exists>path i. effective_member members path = Some i \<and> root_suid i
      then Some (PDict tags) else None)"
    and "dmem ''SUID/GUID + root'' tags"
proof -
  define hit where "hit = (\<exists>path i. effective_member members path = Some i \<and> root_suid i)"
  let ?tags = "\<lambda>u. [(''SUID/GUID + root'', PDict [(''value'', PStr ''SUID/GUID + root''),
    (''color'', PStr (tag_value BLUE)), (''propagate'', PBool False)]), (''root_uid'', pstr_opt u)]"
  let ?fo = "fo\<lparr>processed_analysis := dput ''file_system_metadata'' [(''files'', PDict (tar_files members))] (processed_analysis fo)\<rparr>"
  have "extract_metadata sha V p fo =
      (if tar_files members = [] then Inr fo else fsm_add_tag sha p (tar_files members) ?fo)"
    using assms(2-4) ARCHIVE_not_FS[OF assms(4)] extract_metadata_from_tar_files[OF assms(5,6)]
    by (auto simp: extract_metadata_def dlookup_def result_mime_def)
  with assms(1) obtain fo1 where fo1: "(if tar_files members = [] then Inr fo
      else fsm_add_tag sha p (tar_files members) ?fo) = Inr fo1" "set_result_propagation_flag d fo1 = Inr fo'"
    by (auto simp: fsm_process_object_def result_simps)
  have "tar_files members = [] \<Longrightarrow> \<not> hit" by (simp add: tar_files_Nil_iff hit_def)
  with fo1(1) assms(7,8) obtain u where res1: "map_of (processed_analysis fo1) ''file_system_metadata'' =
      Some ((if tar_files members = [] then [] else [(''files'', PDict (tar_files members))]) @
        (if hit then [(''tags'', PDict (?tags u))] else []))"
    by (auto simp: fsm_add_tag_def tag_of_tar_files add_analysis_tag_def Let_def dlookup_def simp flip: hit_def
        split: if_splits)
  from fo1(2) res1 obtain b where
    "set_result_key ''file_system_metadata'' ''contained_in_file_system'' (PBool b) fo1 = Inr fo'"
    by (auto simp: set_result_propagation_flag_def result_simps Let_def dmem_def)
  from set_result_key_other[OF this] res1 show ?thesis
    using that[of _ "?tags u"] by (auto simp: dmem_def simp flip: hit_def)
qed

text \<open>C34: The plugin warns of an archive (tag \<open>SUID/GUID + root\<close>) exactly when it contains a regular
  file that belongs to root and has the setuid or the setgid bit, where of several members with
  one path the last one counts.\<close>

theorem setuid_root_tag_exact:
  assumes processed: "fsm_process_object sha V p d fo = Inr fo'"
    and mime: "map_of (processed_analysis fo) ''file_type'' = Some ft" "map_of ft ''mime'' = Some (PStr m)"
      "m \<in> set ARCHIVE_MIME_TYPES"
    and archive: "fs_tar V (file_path fo) = (members, tar_stop)" "tar_stop \<in> {TarComplete, TarBroken}"
    and plugin: "p_name p = Some ''file_system_metadata''"
      "map_of (processed_analysis fo) ''file_system_metadata'' = Some []"
  shows "(\<exists>res tags. map_of (processed_analysis fo') ''file_system_metadata'' = Some res \<and>
       map_of res ''tags'' = Some (PDict tags) \<and> dmem ''SUID/GUID + root'' tags) \<longleftrightarrow>
     (\<exists>path i. effective_member members path = Some i \<and> ti_uname i = ''root'' \<and>
       (bit (ti_mode i) 11 \<or> bit (ti_mode i) 10))"
  by (rule processed_archive[OF processed mime archive plugin]) (auto simp: root_suid_def)

section \<open>Showing what was recorded\<close>

lemma last_split_path:
  assumes "CHR ''|'' \<notin> set path"
  shows "tl (last (split_on (CHR ''|'') (base @ ''|/'' @ path))) = path"
proof -
  have "split_on (CHR ''|'') (CHR ''/'' # path) = [CHR ''/'' # path]"
    using assms by (intro split_on_notin) simp
  then show ?thesis using split_on_sep[of "CHR ''|''" base "CHR ''/'' # path"] by simp
qed

lemma fold_shown:
  assumes "\<And>name. name \<in> set names \<Longrightarrow> map_of files (file_key name) = map_option PDict (g name)" and "dict_ok start"
  shows "\<exists>shown. dict_ok shown \<and> foldM_r (\<lambda>name results. case dget files (file_key name) of
             None \<Rightarrow> Inr results
           | Some e \<Rightarrow> map_r (\<lambda>e'. dput name e' results) (add_parent_uid pu e)) names start = Inr shown \<and>
     (\<forall>name. map_of shown name = (if name \<in> set names \<and> g name \<noteq> None
        then Some (PDict (dput ''parent_uid'' (pstr_opt pu) (the (g name)))) else map_of start name))"
  using assms
proof (induction names arbitrary: start)
  case Nil
  then show ?case by simp
next
  case (Cons n names)
  show ?case
  proof (cases "g n")
    case None
    with Cons.prems(1)[of n] Cons.IH[of start] Cons.prems show ?thesis by auto
  next
    case (Some e)
    with Cons.prems(1)[of n] have "map_of files (file_key n) = Some (PDict e)" by simp
    with Cons.IH[of "dput n (PDict (dput ''parent_uid'' (pstr_opt pu) e)) start"] Cons.prems Some
    show ?thesis by (auto simp: add_parent_uid_def)
  qed
qed


text \<open>A mounted image records its files under their bare names, but the pages look for their
  paths: no file of a subdirectory is ever found, and of several files with one name only the
  last is recorded.\<close>

lemma path_name_no_slash: "CHR ''/'' \<notin> set (path_name path)"
  using split_on_elems[of _ "CHR ''/''" path]
  last_in_set[of "filter (\<lambda>e. e \<noteq> [] \<and> e \<noteq> ''.'') (split_on (CHR ''/'') path)"]
  by (auto simp: path_name_def Let_def)

lemma mounted_files_get:
  "\<exists>files. analyze_metadata_of_mounted_dir xs [] = Inr files \<and>
    (\<forall>name. map_of files (file_key name) = map_option (\<lambda>x. PDict (mounted_fields x)) (find (\<lambda>x. fst x = name) (rev xs)))"
proof -
  have "analyze_metadata_of_mounted_dir xs [] =
      Inr (fold (\<lambda>x. dput (file_key (fst x)) (PDict (mounted_fields x))) xs [])"
    unfolding analyze_metadata_of_mounted_dir_def
    by (rule foldM_r_pure) (simp add: enter_results_for_mounted_file_def mounted_file_entry_fields)
  then show ?thesis by (auto simp: map_of_fold_dput file_key_inject split: option.split)
qed

theorem mounted_subdirectories_not_shown:
  assumes "analyze_metadata_of_mounted_dir (get_mounted_file_stats entries) [] = Inr files"
    and "get_results_from_parent_fo (Some [(''files'', PDict files)]) (Some pu) child = Inr shown"
    and "CHR ''/'' \<in> set path"
  shows "map_of shown path = None"
proof -
  let ?g = "\<lambda>name. map_option mounted_fields (find (\<lambda>x. fst x = name) (rev (get_mounted_file_stats entries)))"
  have g: "\<And>name. map_of files (file_key name) = map_option PDict (?g name)"
    using mounted_files_get[of "get_mounted_file_stats entries"] assms(1) by (auto simp: option.map_comp comp_def)
  have "fst x \<noteq> path" if "x \<in> set (get_mounted_file_stats entries)" for x
    using that assms(3) path_name_no_slash
    by (auto simp: get_mounted_file_stats_def split: option.splits if_splits)
  then have "?g path = None" by (force simp: find_None_iff)
  moreover obtain names where "get_parent_file_names (Some pu) child = Inr names"
    by (simp add: get_parent_file_names_def Let_def)
  ultimately show ?thesis
    using fold_shown[of names files ?g "[]" "Some pu", OF g dict_ok_Nil] assms(2)
    by (auto simp: get_results_from_parent_fo_def)
qed

section \<open>Witnesses\<close>

definition ex_members :: "tar_info list" where
  "ex_members =
    [\<lparr>ti_name = ''./b'', ti_isfile = True, ti_mode = 420, ti_uname = ''user'', ti_gname = ''user'', ti_uid = 1, ti_gid = 1,
       ti_mtime = PInt 5\<rparr>,
     \<lparr>ti_name = ''./b'', ti_isfile = True, ti_mode = 2541, ti_uname = ''root'', ti_gname = ''root'', ti_uid = 0, ti_gid = 0,
       ti_mtime = PInt 6\<rparr>]"

definition ex_fsm_env :: fsm_env where
  "ex_fsm_env = \<lparr>fs_mount = (\<lambda>_. None), fs_stdout = (\<lambda>_. []), fs_tar = (\<lambda>_. (ex_members, TarComplete)), fs_read = (\<lambda>_. Inr [])\<rparr>"

definition ex_archive :: file_object where
  "ex_archive = (blank_fo None)\<lparr>fo_uid := Some ''A'',
     processed_analysis := [(''file_type'', [(''mime'', PStr ''application/x-tar'')]), (''file_system_metadata'', [])]\<rparr>"

definition ex_fsm_plugin :: plugin where
  "ex_fsm_plugin = (ex_plugin [''file_type''])\<lparr>p_name := Some ''file_system_metadata''\<rparr>"

definition ex_fsm_result :: analysis_result where
  "ex_fsm_result = [(''files'', PDict (tar_files ex_members)),
     (''tags'', PDict [(''SUID/GUID + root'', PDict [(''value'', PStr ''SUID/GUID + root''), (''color'', PStr (tag_value BLUE)),
        (''propagate'', PBool False)]), (''root_uid'', pstr_opt (get_root_uid (\<lambda>_. []) ex_archive))]),
     (''contained_in_file_system'', PBool False)]"

definition ex_shown_db :: db where
  "ex_shown_db = ex_db\<lparr>analysis_tbl := [((Some ''A'', ''file_system_metadata''),
     \<lparr>an_plugin_version = PStr ''0.2.1'', an_system_version = PNone, an_date = PInt 1, an_summary = PNone,
      an_tags = PNone, an_result = ex_fsm_result\<rparr>)]\<rparr>"

lemma ex_member: "effective_member ex_members ''b'' = Some (ex_members ! 1)" "ti_uname (ex_members ! 1) = ''root''"
    "ti_mode (ex_members ! 1) = 2541" "bit (2541::nat) 11" "root_suid (ex_members ! 1)"
  by (simp_all add: effective_member_def ex_members_def tar_path_def root_suid_def bit_iff_odd)

lemma ex_archive_inputs:
  "map_of (processed_analysis ex_archive) ''file_type'' = Some [(''mime'', PStr ''application/x-tar'')]"
  "map_of [(''mime'', PStr ''application/x-tar'')] ''mime'' = Some (PStr ''application/x-tar'')"
  "''application/x-tar'' \<in> set ARCHIVE_MIME_TYPES"
  "fs_tar ex_fsm_env (file_path ex_archive) = (ex_members, TarComplete)" "TarComplete \<in> {TarComplete, TarBroken}"
  "p_name ex_fsm_plugin = Some ''file_system_metadata''"
  "map_of (processed_analysis ex_archive) ''file_system_metadata'' = Some []"
  by (simp_all add: ex_archive_def ARCHIVE_MIME_TYPES_def ex_fsm_env_def ex_fsm_plugin_def)

lemma ex_archive_processed:
  obtains fo' where "fsm_process_object (\<lambda>_. []) ex_fsm_env ex_fsm_plugin empty_db ex_archive = Inr fo'"
    and "map_of (processed_analysis fo') ''file_system_metadata'' = Some ex_fsm_result"
proof -
  have "tag_should_be_set (tar_files ex_members) = Inr True" "tar_files ex_members \<noteq> []"
    unfolding tag_of_tar_files tar_files_Nil_iff using ex_member(1,5) by auto
  moreover have "PStr ''application/x-tar'' \<notin> PStr ` set FS_MIME_TYPES" "PStr ''application/x-tar'' \<in> PStr ` set ARCHIVE_MIME_TYPES"
    using ARCHIVE_not_FS[OF ex_archive_inputs(3)] ex_archive_inputs(3) by auto
  moreover have "temporary_data ex_archive = []" "virtual_file_path ex_archive = []" "get_root_uid (\<lambda>_. []) (ex_archive\<lparr>processed_analysis := x\<rparr>) = get_root_uid (\<lambda>_. []) ex_archive" for x
    by (simp_all add: ex_archive_def blank_fo_def get_root_uid_def get_virtual_file_paths_def get_uid_def)
  ultimately have "case fsm_process_object (\<lambda>_. []) ex_fsm_env ex_fsm_plugin empty_db ex_archive of Inl _ \<Rightarrow> False
      | Inr fo' \<Rightarrow> map_of (processed_analysis fo') ''file_system_metadata'' = Some ex_fsm_result"
    using extract_metadata_from_tar_files[OF ex_archive_inputs(4,5)]
    by (simp add: fsm_process_object_def extract_metadata_def ex_archive_inputs dlookup_def result_mime_def
        fsm_add_tag_def add_analysis_tag_def set_result_propagation_flag_def dmem_def parent_has_file_system_metadata_def
        parent_fo_has_fs_metadata_analysis_results_def get_parent_uids_from_virtual_path_def dvalues_def
        set_result_key_def ex_fsm_result_def)
  then show ?thesis using that by (auto split: sum.splits)
qed

theorem setuid_root_tag_exact_witness:
  "\<exists>fo' res tags. fsm_process_object (\<lambda>_. []) ex_fsm_env ex_fsm_plugin empty_db ex_archive = Inr fo' \<and>
     map_of (processed_analysis fo') ''file_system_metadata'' = Some res \<and> map_of res ''tags'' = Some (PDict tags)"
proof (rule ex_archive_processed)
  fix fo'
  assume fo': "fsm_process_object (\<lambda>_. []) ex_fsm_env ex_fsm_plugin empty_db ex_archive = Inr fo'"
  from ex_member
  have "\<exists>path i. effective_member ex_members path = Some i \<and> ti_uname i = ''root'' \<and>
      (bit (ti_mode i) 11 \<or> bit (ti_mode i) 10)" by metis
  with setuid_root_tag_exact[OF fo' ex_archive_inputs] fo' show ?thesis by blast
qed


end
