(* ===== verification/QemuExec.thy ===== *)
theory QemuExec
  imports FileSystemMetadata
begin

text \<open>
  The plugin \<open>src/plugins/analysis/qemu_exec\<close>: the script that runs a program in the emulator
  (\<open>docker/start_binary.py\<close>) and the plugin that runs it for every program of a container, for
  every architecture that may fit, in a pool of threads (\<open>code/qemu_exec.py\<close>). The threads share
  one dictionary of results; their interleaving is a schedule. Docker, the unpacker's container,
  the decoding of base64 output and the compression are parameters.
\<close>

section \<open>The script in the container\<close>

definition TIMEOUT_ERROR_EXIT_CODES :: "int list" where
  "TIMEOUT_ERROR_EXIT_CODES = [124, 128 + 9]"

text \<open>A command yields its output, its error output and its return code.\<close>

definition get_output :: "(string \<Rightarrow> bytes \<times> bytes \<times> int) \<Rightarrow> string \<Rightarrow> (string, pyval) dict" where
  "get_output run command = (case run command of (std_out, std_err, return_code) \<Rightarrow>
     if return_code \<in> set TIMEOUT_ERROR_EXIT_CODES then [(''error'', PStr ''timeout'')]
     else [(''stdout'', PStr (b64encode std_out)), (''stderr'', PStr (b64encode std_err)),
           (''return_code'', PInt return_code)])"

definition qemu_main :: "(string \<Rightarrow> bytes \<times> bytes \<times> int) \<Rightarrow> string \<Rightarrow> string \<Rightarrow> (string, pyval) dict" where
  "qemu_main run arch path =
     map (\<lambda>parameter. (parameter, PDict (get_output run
            (''timeout -s SIGKILL 1 qemu-'' @ arch @ '' '' @ path @ '' '' @ parameter))))
       [''-h'', ''--help'', ''-help'', ''--version'', '' '']
     @ [(''strace'', PDict (get_output run (''timeout -s SIGKILL 2 qemu-'' @ arch @ '' -strace '' @ path)))]"

section \<open>The answer of one run\<close>

datatype qemu_reply = QemuTimeout | QemuProcessError | QemuNoJson | QemuReply "(string, pyval) dict"

type_synonym qemu_result = "(string, pyval) dict"

text \<open>What the unpacker leaves in its directory: the path of each entry, whether it is a regular
  file, its type (MIME type and description) and its content.\<close>

record unpacked_file =
  uf_path :: string
  uf_regular :: bool
  uf_type :: "(string \<times> string) option"
  uf_content :: bytes

record unpacked_dir =
  ud_exists :: bool
  ud_fact_extracted :: bool
  ud_entries :: "unpacked_file list"

text \<open>Running the emulator, decoding and compressing its output, \<open>str\<close>, and what is on disk and
  in the directory of the unpacker.\<close>

record qemu_env =
  q_run :: "string \<Rightarrow> string \<Rightarrow> qemu_reply"
  q_decode :: "string \<Rightarrow> string option"
  q_compress :: "string \<Rightarrow> string"
  q_str :: "pyval \<Rightarrow> string"
  q_is_file :: "string \<Rightarrow> bool"
  q_unpack :: "string \<Rightarrow> unpacked_dir result"

definition QEMU_ERRORS :: "string list" where
  "QEMU_ERRORS = [''Unsupported syscall'', ''Invalid ELF'', ''uncaught target signal'']"

definition EMPTY :: string where
  "EMPTY = ''(no parameter)''"

definition get_docker_output :: "qemu_env \<Rightarrow> string \<Rightarrow> string \<Rightarrow> qemu_result" where
  "get_docker_output Q arch_suffix path = (case q_run Q arch_suffix path of
      QemuReply r \<Rightarrow> r
    | QemuTimeout \<Rightarrow> [(''error'', PStr ''timeout'')]
    | QemuProcessError \<Rightarrow> [(''error'', PStr ''process error'')]
    | QemuNoJson \<Rightarrow> [(''error'', PStr ''could not decode result'')])"

definition decode_value :: "qemu_env \<Rightarrow> string \<Rightarrow> pyval \<Rightarrow> string" where
  "decode_value Q key v = (case v of
      PStr s \<Rightarrow> if key = ''error'' then q_str Q v
         else (case q_decode Q s of Some t \<Rightarrow> t | None \<Rightarrow> ''decoding error: '' @ s)
    | _ \<Rightarrow> q_str Q v)"

text \<open>A parameter without any value gets no entry.\<close>

definition decode_output_values :: "qemu_env \<Rightarrow> qemu_result \<Rightarrow> (string, (string, string) dict) dict result" where
  "decode_output_values Q result_dict =
     foldM_r (\<lambda>(parameter, v) res. case v of
         PDict [] \<Rightarrow> Inr res
       | PDict d \<Rightarrow> Inr (dput parameter (fold (\<lambda>(key, x). dput key (decode_value Q key x)) d []) res)
       | _ \<Rightarrow> Inl AttributeError) result_dict []"

definition contains_docker_error :: "string \<Rightarrow> bool" where
  "contains_docker_error docker_output = (\<exists>err \<in> set QEMU_ERRORS. substr_in err docker_output)"

definition result_contains_qemu_errors :: "(string, (string, string) dict) dict \<Rightarrow> bool" where
  "result_contains_qemu_errors docker_output =
     (\<exists>d \<in> set (dvalues docker_output). \<exists>v \<in> set (dvalues d). contains_docker_error v)"

definition output_value :: "(string, string) dict \<Rightarrow> pyval" where
  "output_value d = PDict (map (\<lambda>(k, v). (k, PStr v)) d)"

definition process_strace_output ::
  "qemu_env \<Rightarrow> (string, (string, string) dict) dict \<Rightarrow> qemu_result" where
  "process_strace_output Q docker_output =
     dput ''strace''
       (case dget docker_output ''strace'' of
          Some d \<Rightarrow> (case dget d ''stdout'' of
              Some (c # cs) \<Rightarrow> PStr (q_compress Q (c # cs)) | _ \<Rightarrow> PDict [])
        | None \<Rightarrow> PDict [])
       (map (\<lambda>(p, d). (p, output_value d)) docker_output)"

definition replace_empty_strings :: "qemu_result \<Rightarrow> qemu_result" where
  "replace_empty_strings docker_output = (case dget docker_output '' '' of
      None \<Rightarrow> docker_output
    | Some v \<Rightarrow> dput EMPTY v (ddel '' '' docker_output))"

text \<open>\<open>itertools.combinations(xs, 2)\<close>. The compared dicts are written by one function, with their keys
  in one order, so that two are equal exactly when their lists are.\<close>

fun combinations2 :: "'a list \<Rightarrow> ('a \<times> 'a) list" where
  "combinations2 [] = []"
| "combinations2 (x # xs) = map (Pair x) xs @ combinations2 xs"

lemma combinations2_mem: "(a, b) \<in> set (combinations2 xs) \<Longrightarrow> a \<in> set xs \<and> b \<in> set xs"
  by (induction xs) auto

lemma combinations2_neq: "(a, b) \<in> set (combinations2 xs) \<Longrightarrow> distinct xs \<Longrightarrow> a \<noteq> b"
  by (induction xs) (auto dest: combinations2_mem)

definition equal_pair :: "(string, 'v) dict \<Rightarrow> (string \<times> string) option" where
  "equal_pair results = find (\<lambda>(a, b). dget results a = dget results b) (combinations2 (dkeys results))"

definition merge_pair :: "string \<times> string \<Rightarrow> (string, 'v) dict \<Rightarrow> (string, 'v) dict" where
  "merge_pair ab results = (case ab of (a, b) \<Rightarrow> (case dget results a of
      None \<Rightarrow> results
    | Some v \<Rightarrow> ddel b (ddel a (dput (a @ '', '' @ b) v results))))"

text \<open>Each call removes an entry, so the recursion is bounded by the number of entries.\<close>

fun merge_fuel :: "nat \<Rightarrow> (string, 'v) dict \<Rightarrow> (string, 'v) dict" where
  "merge_fuel 0 results = results"
| "merge_fuel (Suc n) results = (case equal_pair results of
      None \<Rightarrow> results
    | Some ab \<Rightarrow> merge_fuel n (merge_pair ab results))"

definition merge_identical_results :: "(string, 'v) dict \<Rightarrow> (string, 'v) dict" where
  "merge_identical_results results = merge_fuel (length results) results"

definition process_docker_output ::
  "qemu_env \<Rightarrow> (string, (string, string) dict) dict \<Rightarrow> qemu_result" where
  "process_docker_output Q docker_output =
     merge_identical_results (replace_empty_strings (process_strace_output Q docker_output))"

definition check_qemu_executability :: "qemu_env \<Rightarrow> string \<Rightarrow> string \<Rightarrow> qemu_result result" where
  "check_qemu_executability Q path arch_suffix =
     (let res = get_docker_output Q arch_suffix path in
      if res \<noteq> [] \<and> \<not> dmem ''error'' res then
        map_r (\<lambda>r. if result_contains_qemu_errors r then [] else process_docker_output Q r)
          (decode_output_values Q res)
      else Inr res)"

section \<open>The pool of jobs\<close>

record qemu_job =
  qj_path :: string
  qj_arch :: string
  qj_uid :: string

record qemu_entry =
  qe_path :: string
  qe_results :: "(string, qemu_result) dict"

type_synonym results_dict = "(string, qemu_entry) dict"

text \<open>
  A job runs the emulator, reads the results of its file from the shared dictionary, adds its
  own result to the copy and writes the copy back. Only the read and the write touch the
  shared dictionary; other jobs may act between them. (The test for the key and the read of its
  value are one step: no key is ever removed, so the pair has the effect of a read at one moment.)
\<close>

datatype job_phase = JobStart | JobRead "(string, qemu_result) dict" | JobDone

definition read_results :: "string \<Rightarrow> results_dict \<Rightarrow> (string, qemu_result) dict" where
  "read_results u d = (case dget d u of None \<Rightarrow> [] | Some e \<Rightarrow> qe_results e)"

definition job_step ::
  "(qemu_job \<Rightarrow> qemu_result) \<Rightarrow> qemu_job \<Rightarrow> job_phase \<times> results_dict \<Rightarrow> job_phase \<times> results_dict" where
  "job_step result_of j st = (case st of
      (JobStart, d) \<Rightarrow> if result_of j = [] then (JobDone, d) else (JobRead (read_results (qj_uid j) d), d)
    | (JobRead tmp, d) \<Rightarrow>
        (JobDone, dput (qj_uid j) \<lparr>qe_path = qj_path j, qe_results = dput (qj_arch j) (result_of j) tmp\<rparr> d)
    | (JobDone, d) \<Rightarrow> (JobDone, d))"

definition process_qemu_job :: "(qemu_job \<Rightarrow> qemu_result) \<Rightarrow> qemu_job \<Rightarrow> results_dict \<Rightarrow> results_dict" where
  "process_qemu_job result_of j d = snd (job_step result_of j (job_step result_of j (JobStart, d)))"

text \<open>A schedule names the job that acts next.\<close>

definition pool_step ::
  "(qemu_job \<Rightarrow> qemu_result) \<Rightarrow> qemu_job list \<Rightarrow> nat \<Rightarrow> job_phase list \<times> results_dict \<Rightarrow> job_phase list \<times> results_dict" where
  "pool_step result_of jobs i st = (case st of (phases, d) \<Rightarrow>
     if i < length jobs then
       (case job_step result_of (jobs ! i) (phases ! i, d) of (ph, d') \<Rightarrow> (phases[i := ph], d'))
     else (phases, d))"

definition run_pool ::
  "(qemu_job \<Rightarrow> qemu_result) \<Rightarrow> qemu_job list \<Rightarrow> nat list \<Rightarrow> job_phase list \<times> results_dict" where
  "run_pool result_of jobs schedule =
     fold (pool_step result_of jobs) schedule (map (\<lambda>_. JobStart) jobs, [])"

text \<open>\<open>future.result()\<close> of every job: all of them have finished.\<close>

definition all_done :: "job_phase list \<Rightarrow> bool" where
  "all_done phases = (\<forall>ph \<in> set phases. ph = JobDone)"

section \<open>The plugin\<close>

definition QEMU_FILE_TYPES :: "string list" where
  "QEMU_FILE_TYPES = [''application/x-executable'', ''application/x-pie-executable'', ''application/x-sharedlib'']"

definition arch_to_bin_dict :: "(string, string list) dict" where
  "arch_to_bin_dict =
     [(''aarch64'', [''aarch64'']), (''ARM'', [''aarch64'', ''arm'', ''armeb'']),
      (''MIPS32'', [''mipsel'', ''mips'', ''mipsn32'', ''mipsn32el'']), (''MIPS64'', [''mips64'', ''mips64el'']),
      (''MIPS'', [''mipsel'', ''mips'', ''mips64'', ''mips64el'', ''mipsn32'', ''mipsn32el'']),
      (''80386'', [''i386'']), (''80486'', [''x86_64'', ''i386'']), (''x86'', [''x86_64'', ''i386'']),
      (''PowerPC'', [''ppc'', ''ppc64'', ''ppc64le'']), (''PPC'', [''ppc'', ''ppc64'', ''ppc64le'']),
      (''Renesas SH'', [''sh4'', ''sh4eb''])]"

definition find_arch_suffixes :: "string \<Rightarrow> string list" where
  "find_arch_suffixes full_type = (case find (\<lambda>(arch_string, _). substr_in arch_string full_type) arch_to_bin_dict of
      None \<Rightarrow> [] | Some (_, archs) \<Rightarrow> archs)"

definition FACT_EXTRACTION_FOLDER_NAME :: string where
  "FACT_EXTRACTION_FOLDER_NAME = ''fact_extracted''"

definition has_relevant_type :: "(string \<times> string) option \<Rightarrow> bool" where
  "has_relevant_type ft = (case ft of None \<Rightarrow> False | Some (mime, _) \<Rightarrow> mime \<in> set QEMU_FILE_TYPES)"

text \<open>\<open>path.relative_to(root_path)\<close>: a \<open>ValueError\<close> for a path outside of the root.\<close>

definition relative_to_root :: "unpacked_dir \<Rightarrow> string \<Rightarrow> string result" where
  "relative_to_root D path =
     (if ud_fact_extracted D then
        if startswith path (FACT_EXTRACTION_FOLDER_NAME @ ''/'')
        then Inr (drop (length FACT_EXTRACTION_FOLDER_NAME + 1) path) else Inl ValueError
      else Inr path)"

definition find_relevant_files :: "unpacked_dir \<Rightarrow> (unpacked_file \<times> string) list result" where
  "find_relevant_files D =
     map_r concat (mapM_r (\<lambda>f. if uf_regular f \<and> has_relevant_type (uf_type f)
         then map_r (\<lambda>p. [(f, ''/'' @ p)]) (relative_to_root D (uf_path f)) else Inr []) (ud_entries D))"

text \<open>The jobs of a container. No file is skipped: the results under \<open>'files'\<close>, where completed
  analyses are looked up, are entered after the last job.\<close>

definition analysis_not_already_completed :: "analysis_result \<Rightarrow> string \<Rightarrow> bool" where
  "analysis_not_already_completed res u = (case dget res ''files'' of
      Some (PDict files) \<Rightarrow> \<not> dmem u files | _ \<Rightarrow> True)"

definition qemu_jobs ::
  "(bytes \<Rightarrow> string) \<Rightarrow> analysis_result \<Rightarrow> (unpacked_file \<times> string) list \<Rightarrow> qemu_job list" where
  "qemu_jobs sha res file_list =
     concat (map (\<lambda>(f, path). let u = bytes_uid sha (uf_content f) in
        if analysis_not_already_completed res u then
          map (\<lambda>arch. \<lparr>qj_path = path, qj_arch = arch, qj_uid = u\<rparr>)
            (case uf_type f of None \<Rightarrow> [] | Some (_, full_type) \<Rightarrow> find_arch_suffixes full_type)
        else []) file_list)"

definition output_without_error_exists :: "pyval \<Rightarrow> bool" where
  "output_without_error_exists docker_output = (case docker_output of
      PDict d \<Rightarrow> (case (dget d ''stdout'', dget d ''return_code'', dget d ''stderr'') of
          (Some (PStr out), rc, err) \<Rightarrow> out \<noteq> [] \<and> (case rc of
              None \<Rightarrow> False
            | Some r \<Rightarrow> r = PStr ''0'' \<or> (case err of None \<Rightarrow> False | Some e \<Rightarrow> e = PStr []))
        | _ \<Rightarrow> False)
    | _ \<Rightarrow> False)"

definition valid_execution_in_results :: "(string, qemu_result) dict \<Rightarrow> bool" where
  "valid_execution_in_results results =
     (\<exists>r \<in> set (dvalues results). \<not> dmem ''error'' r \<and>
        (\<exists>(opt, v) \<in> set r. opt \<notin> {''strace'', ''error''} \<and> output_without_error_exists v))"

definition entry_value :: "qemu_entry \<Rightarrow> pyval" where
  "entry_value e = PDict [(''path'', PStr (qe_path e)),
     (''results'', PDict (map (\<lambda>(a, r). (a, PDict r)) (qe_results e))),
     (''executable'', PBool (valid_execution_in_results (qe_results e)))]"

definition any_executable :: "results_dict \<Rightarrow> bool" where
  "any_executable results = (\<exists>e \<in> set (dvalues results). valid_execution_in_results (qe_results e))"

definition qemu_get_summary :: "results_dict \<Rightarrow> pyval" where
  "qemu_get_summary results = PList (if any_executable results then [PStr ''executable''] else [])"

definition enter_results :: "results_dict \<Rightarrow> file_object \<Rightarrow> file_object result" where
  "enter_results results fo =
     bind_r (set_result_key ''qemu_exec'' ''files'' (PDict (map (\<lambda>(u, e). (u, entry_value e)) results)) fo)
       (set_result_key ''qemu_exec'' ''summary'' (qemu_get_summary results))"

definition qemu_add_tag :: "(bytes \<Rightarrow> string) \<Rightarrow> plugin \<Rightarrow> results_dict \<Rightarrow> file_object \<Rightarrow> file_object result" where
  "qemu_add_tag sha p results fo =
     (if any_executable results
      then add_analysis_tag sha p ''qemu_exec'' (PStr ''QEMU executable'') (tag_value BLUE) True fo else Inr fo)"

text \<open>An exception in a job is raised by its \<open>future.result()\<close>.\<close>

definition job_result :: "qemu_env \<Rightarrow> qemu_job \<Rightarrow> qemu_result" where
  "job_result Q j = (case check_qemu_executability Q (qj_path j) (qj_arch j) of Inl _ \<Rightarrow> [] | Inr r \<Rightarrow> r)"

definition job_errors :: "qemu_env \<Rightarrow> qemu_job list \<Rightarrow> unit result" where
  "job_errors Q jobs = foldM_r (\<lambda>j _. map_r (\<lambda>_. ()) (check_qemu_executability Q (qj_path j) (qj_arch j))) jobs ()"

definition process_included_files ::
  "(bytes \<Rightarrow> string) \<Rightarrow> qemu_env \<Rightarrow> plugin \<Rightarrow> nat list \<Rightarrow> (unpacked_file \<times> string) list \<Rightarrow> file_object \<Rightarrow> file_object result" where
  "process_included_files sha Q p schedule file_list fo =
     bind_r (dlookup (processed_analysis fo) ''qemu_exec'') (\<lambda>res.
       let jobs = qemu_jobs sha res file_list in
       bind_r (job_errors Q jobs) (\<lambda>_.
         let results = snd (run_pool (job_result Q) jobs schedule) in
         bind_r (enter_results results fo) (qemu_add_tag sha p results)))"

text \<open>\<open>unpack_fo\<close> returns \<open>None\<close> for a file that is not on disk, and \<open>tmp_dir.name\<close> then raises.\<close>

definition qemu_unpack_fo :: "env \<Rightarrow> qemu_env \<Rightarrow> file_object \<Rightarrow> unpacked_dir option result" where
  "qemu_unpack_fo E Q fo =
     bind_r (if truthy_str (file_path fo) then Inr (fstr (file_path fo)) else generate_path E fo) (\<lambda>path.
       if path = [] \<or> \<not> q_is_file Q path then Inr None else map_r Some (q_unpack Q path))"

definition process_container ::
  "env \<Rightarrow> qemu_env \<Rightarrow> plugin \<Rightarrow> nat list \<Rightarrow> file_object \<Rightarrow> file_object result" where
  "process_container E Q p schedule fo =
     (if files_included fo = [] then Inr fo
      else bind_r (qemu_unpack_fo E Q fo) (\<lambda>tmp_dir. case tmp_dir of
         None \<Rightarrow> Inl AttributeError
       | Some D \<Rightarrow>
           if ud_exists D then
             bind_r (find_relevant_files D) (\<lambda>file_list.
               if file_list = [] then Inr fo
               else bind_r (set_result_key ''qemu_exec'' ''files'' (PDict []) fo)
                      (process_included_files (e_sha E) Q p schedule file_list))
           else Inr fo))"

definition qemu_process_object ::
  "env \<Rightarrow> qemu_env \<Rightarrow> plugin \<Rightarrow> nat list \<Rightarrow> file_object \<Rightarrow> file_object result" where
  "qemu_process_object E Q p schedule fo =
     (let fo1 = (if dmem ''qemu_exec'' (processed_analysis fo) then fo
                 else fo\<lparr>processed_analysis := dput ''qemu_exec'' [] (processed_analysis fo)\<rparr>) in
      bind_r (set_result_key ''qemu_exec'' ''summary'' (PList []) fo1) (\<lambda>fo2.
        bind_r (dlookup (processed_analysis fo2) ''file_type'') (\<lambda>ft. bind_r (result_mime ft) (\<lambda>mime.
          if mime \<in> PStr ` set QEMU_FILE_TYPES
          then set_result_key ''qemu_exec'' ''parent_flag'' (PBool True) fo2
          else process_container E Q p schedule fo2))))"

section \<open>Merging identical results\<close>

text \<open>A group of parameters with one result is printed as one key.\<close>

definition grouped :: "(string list \<times> 'v) list \<Rightarrow> (string, 'v) dict" where
  "grouped gs = map (\<lambda>(ns, v). (join_with '', '' ns, v)) gs"

text \<open>The groups made of the entries of \<open>results\<close>, each parameter in one group.\<close>

definition groups_of :: "(string, 'v) dict \<Rightarrow> (string list \<times> 'v) list \<Rightarrow> bool" where
  "groups_of results gs \<longleftrightarrow> distinct (concat (map fst gs)) \<and> set (concat (map fst gs)) = set (dkeys results) \<and>
     (\<forall>(ns, v) \<in> set gs. ns \<noteq> [] \<and> (\<forall>n \<in> set ns. CHR '','' \<notin> set n \<and> map_of results n = Some v))"

lemma join_with_append:
  "xs \<noteq> [] \<Longrightarrow> ys \<noteq> [] \<Longrightarrow> join_with sep (xs @ ys) = join_with sep xs @ sep @ join_with sep ys"
  by (induction xs rule: induct_list012) (auto simp: join_with_Cons)

lemma first_of_joined:
  "ns \<noteq> [] \<Longrightarrow> CHR '','' \<notin> set (hd ns) \<Longrightarrow> takeWhile (\<lambda>c. c \<noteq> CHR '','') (join_with '', '' ns) = hd ns"
  by (induction ns rule: induct_list012) (auto simp: takeWhile_append takeWhile_eq_all_conv)

lemma combinations2_split: "(a, b) \<in> set (combinations2 xs) \<Longrightarrow> \<exists>pre mid post. xs = pre @ a # mid @ b # post"
proof (induction xs)
  case Nil
  then show ?case by simp
next
  case (Cons x xs)
  then consider "a = x" "b \<in> set xs" | "(a, b) \<in> set (combinations2 xs)" by auto
  then show ?case
  proof cases
    case 1
    then obtain mid post where "xs = mid @ b # post" by (meson split_list)
    with 1 have "x # xs = [] @ a # mid @ b # post" by simp
    then show ?thesis by blast
  next
    case 2
    with Cons.IH obtain pre mid post where "xs = pre @ a # mid @ b # post" by blast
    then have "x # xs = (x # pre) @ a # mid @ b # post" by simp
    then show ?thesis by blast
  qed
qed

lemma combinations2_complete: "(\<forall>(a, b) \<in> set (combinations2 xs). f a \<noteq> f b) \<Longrightarrow> distinct (map f xs)"
  by (induction xs) auto

lemma dkeys_grouped: "dkeys (grouped gs) = map (join_with '', '') (map fst gs)"
  by (auto simp: grouped_def dkeys_def)

lemma groups_hd: "groups_of results gs \<Longrightarrow> (ns, v) \<in> set gs \<Longrightarrow>
  takeWhile (\<lambda>c. c \<noteq> CHR '','') (join_with '', '' ns) = hd ns \<and> hd ns \<in> set ns"
  by (auto simp: groups_of_def intro!: first_of_joined)

lemma distinct_hds: "distinct (concat xss) \<Longrightarrow> [] \<notin> set xss \<Longrightarrow> distinct (map hd xss)"
proof (induction xss)
  case Nil
  then show ?case by simp
next
  case (Cons xs xss)
  have "hd xs \<noteq> hd ys" if "ys \<in> set xss" for ys
  proof -
    have "hd xs \<in> set xs" "hd ys \<in> set ys" using Cons.prems(2) that by (auto intro!: hd_in_set)
    with Cons.prems(1) that show ?thesis by auto
  qed
  then show ?case using Cons by auto
qed

lemma ddel_append: "ddel k (xs @ ys) = ddel k xs @ ddel k ys"
  by (simp add: AList.delete_eq)

lemma ddel_notin: "k \<notin> set (dkeys d) \<Longrightarrow> ddel k d = d"
  by (induction d) auto

lemma groups_keys_distinct:
  assumes "groups_of results gs"
  shows "distinct (map (join_with '', '') (map fst gs))"
proof -
  have "distinct (map hd (map fst gs))"
    using assms by (intro distinct_hds) (auto simp: groups_of_def)
  moreover have "map hd (map fst gs) = map (takeWhile (\<lambda>c. c \<noteq> CHR '','')) (map (join_with '', '') (map fst gs))"
    using groups_hd[OF assms] by (auto simp: comp_def)
  ultimately show ?thesis by (metis distinct_map)
qed

lemma dget_grouped:
  assumes "groups_of results gs" "(ns, v) \<in> set gs"
  shows "map_of (grouped gs) (join_with '', '' ns) = Some v"
  using groups_keys_distinct[OF assms(1)] assms(2)
  by (intro map_of_is_SomeI) (force simp: grouped_def comp_def split_def)+

lemma grouped_append: "grouped (xs @ ys) = grouped xs @ grouped ys"
  by (simp add: grouped_def)

lemma dkeys_append: "dkeys (xs @ ys) = dkeys xs @ dkeys ys"
  by (simp add: dkeys_def)

lemma map_split2:
  "map f xs = pre @ a # mid @ b # post \<Longrightarrow> \<exists>p x m y q. xs = p @ x # m @ y # q \<and> f x = a \<and> f y = b"
  by (auto simp: map_eq_append_conv map_eq_Cons_conv append_eq_map_conv Cons_eq_map_conv) metis

text \<open>One merge joins two groups.\<close>

lemma merge_pair_grouped:
  assumes g: "groups_of results gs" and p: "equal_pair (grouped gs) = Some (a, b)"
  shows "\<exists>gs'. merge_pair (a, b) (grouped gs) = grouped gs' \<and> groups_of results gs' \<and> length gs' < length gs"
proof -
  from p have comb: "(a, b) \<in> set (combinations2 (dkeys (grouped gs)))" and eq: "map_of (grouped gs) a = map_of (grouped gs) b"
    unfolding equal_pair_def by (auto dest!: find_SomeD)
  from combinations2_split[OF comb] obtain preK midK postK where
    "map (\<lambda>g. join_with '', '' (fst g)) gs = preK @ a # midK @ b # postK"
    by (auto simp: dkeys_grouped comp_def)
  from map_split2[OF this] obtain pre x mid y post where xy: "gs = pre @ x # mid @ y # post"
    "join_with '', '' (fst x) = a" "join_with '', '' (fst y) = b" by blast
  obtain ns v ms w where "x = (ns, v)" "y = (ms, w)" by fastforce
  with xy have gs: "gs = pre @ (ns, v) # mid @ (ms, w) # post"
    and a: "a = join_with '', '' ns" and b: "b = join_with '', '' ms" by auto
  have in_gs: "(ns, v) \<in> set gs" "(ms, w) \<in> set gs" by (auto simp: gs)
  have vw: "v = w" using eq dget_grouped[OF g in_gs(1)] dget_grouped[OF g in_gs(2)] by (simp add: a b)
  let ?gs = "pre @ mid @ post @ [(ns @ ms, v)]"
  have ne: "ns \<noteq> []" "ms \<noteq> []" using g in_gs by (auto simp: groups_of_def)
  have joined: "join_with '', '' (ns @ ms) = a @ '', '' @ b" using ne by (simp add: a b join_with_append)
  have groups: "groups_of results ?gs" using g vw by (auto simp: groups_of_def gs)
  have keys: "a \<notin> set (dkeys (grouped (pre @ mid @ post)))" "b \<notin> set (dkeys (grouped (pre @ mid @ post)))" "a \<noteq> b"
    using groups_keys_distinct[OF g] by (auto simp: gs a b dkeys_grouped)
  have new: "a @ '', '' @ b \<notin> set (dkeys (grouped gs))"
    using groups_keys_distinct[OF groups] joined by (auto simp: gs a b dkeys_grouped)
  have split: "grouped gs = grouped pre @ [(a, v)] @ grouped mid @ [(b, v)] @ grouped post"
    by (simp add: gs grouped_def a b vw)
  have other: "a \<notin> set (dkeys (grouped pre))" "a \<notin> set (dkeys (grouped mid))" "a \<notin> set (dkeys (grouped post))"
    "b \<notin> set (dkeys (grouped pre))" "b \<notin> set (dkeys (grouped mid))" "b \<notin> set (dkeys (grouped post))"
    using keys(1,2) by (simp_all add: grouped_append dkeys_append)
  have longer: "a @ '', '' @ b \<noteq> a" "a @ '', '' @ b \<noteq> b" by (simp, metis append_self_conv2 append_assoc append_is_Nil_conv list.discI)
  have "merge_pair (a, b) (grouped gs) = ddel b (ddel a (grouped gs @ [(a @ '', '' @ b, v)]))"
    using dget_grouped[OF g in_gs(1)] unfolding merge_pair_def a[symmetric] by (simp add: dput_new[OF new, simplified])
  also have "\<dots> = grouped pre @ grouped mid @ grouped post @ [(a @ '', '' @ b, v)]"
    unfolding split ddel_append using other keys(3) longer by (simp only: ddel_notin AList.delete_simps fst_conv if_True if_False append_Nil ddel_append) (simp add: ddel_notin)
  also have "\<dots> = grouped ?gs" by (simp add: grouped_def joined)
  finally show ?thesis using groups by (intro exI[of _ ?gs]) (simp add: gs)
qed

lemma merge_fuel_grouped:
  "length gs \<le> n \<Longrightarrow> groups_of results gs \<Longrightarrow>
   \<exists>gs'. merge_fuel n (grouped gs) = grouped gs' \<and> groups_of results gs' \<and> equal_pair (grouped gs') = None"
proof (induction n arbitrary: gs)
  case 0
  then have "gs = []" by simp
  with 0 show ?case by (intro exI[of _ "[]"]) (simp add: equal_pair_def grouped_def)
next
  case (Suc n)
  show ?case
  proof (cases "equal_pair (grouped gs)")
    case None
    with Suc.prems show ?thesis by auto
  next
    case (Some ab)
    obtain a b where ab: "ab = (a, b)" by force
    from merge_pair_grouped[OF Suc.prems(2), of a b] Some ab obtain gs' where
      "merge_pair (a, b) (grouped gs) = grouped gs'" "groups_of results gs'" "length gs' < length gs" by auto
    with Suc.IH[of gs'] Suc.prems(1) Some ab show ?thesis by auto
  qed
qed

lemma distinct_values:
  assumes "groups_of results gs" "equal_pair (grouped gs) = None"
  shows "distinct (map snd gs)"
proof -
  have "\<forall>(a, b) \<in> set (combinations2 (dkeys (grouped gs))). map_of (grouped gs) a \<noteq> map_of (grouped gs) b"
    using assms(2) by (auto simp: equal_pair_def find_None_iff)
  then have "distinct (map (map_of (grouped gs)) (dkeys (grouped gs)))" by (rule combinations2_complete)
  moreover have "map (map_of (grouped gs)) (dkeys (grouped gs)) = map Some (map snd gs)"
    using dget_grouped[OF assms(1)] by (auto simp: dkeys_grouped)
  ultimately have "distinct (map Some (map snd gs))" by simp
  then show ?thesis by (simp only: distinct_map)
qed

text \<open>C37: Merging the results of the parameters ends, and afterwards there is exactly one entry for
  each different result: its key lists, separated by commas, exactly the parameters with that
  result, each once.\<close>

theorem merge_identical_results_exact:
  assumes "dict_ok results" and "\<forall>k \<in> set (dkeys results). CHR '','' \<notin> set k"
  shows "\<exists>gs. merge_identical_results results = map (\<lambda>(ns, v). (join_with '', '' ns, v)) gs \<and>
     distinct (map snd gs) \<and> snd ` set gs = set (dvalues results) \<and>
     (\<forall>(ns, v) \<in> set gs. distinct ns \<and> ns \<noteq> [] \<and> set ns = {k. map_of results k = Some v})"
proof -
  let ?gs = "map (\<lambda>(k, v). ([k], v)) results"
  have "grouped ?gs = results" by (simp add: grouped_def comp_def split_def)
  moreover have "groups_of results ?gs"
    using assms by (auto simp: groups_of_def dict_ok_def dkeys_def comp_def split_def concat_map_singleton[of fst results])
  ultimately obtain gs where gs: "merge_identical_results results = grouped gs" "groups_of results gs"
      "equal_pair (grouped gs) = None"
    using merge_fuel_grouped[of ?gs "length results" results] by (auto simp: merge_identical_results_def)
  have dist: "distinct (map snd gs)" by (rule distinct_values[OF gs(2,3)])
  have holds: "map_of results k = Some v" if "(ns, v) \<in> set gs" "k \<in> set ns" for ns v k
    using gs(2) that by (auto simp: groups_of_def)
  have all_names: "set (concat (map fst gs)) = set (dkeys results)" using gs(2) by (simp add: groups_of_def)
  have cover: "\<exists>(ns, w) \<in> set gs. k \<in> set ns \<and> w = v" if "map_of results k = Some v" for k v
  proof -
    have "k \<in> set (dkeys results)" using that by (simp flip: dmem_iff add: dmem_def)
    then obtain ns w where ns: "(ns, w) \<in> set gs" "k \<in> set ns" unfolding all_names[symmetric] by auto
    with holds[OF ns] that show ?thesis by (intro bexI[of _ "(ns, w)"]) auto
  qed
  have same: "ns' = ns" if "(ns', v) \<in> set gs" "(ns, v) \<in> set gs" for ns ns' v
    using inj_onD[of snd "set gs" "(ns', v)" "(ns, v)"] dist that by (simp add: distinct_map)
  have names: "set ns = {k. map_of results k = Some v}" if "(ns, v) \<in> set gs" for ns v
    using cover same[OF _ that] holds[OF that] by fastforce
  have ne: "distinct ns" "ns \<noteq> []" if "(ns, v) \<in> set gs" for ns v
    using gs(2) that by (auto simp: groups_of_def distinct_concat_iff)
  have "snd ` set gs = set (dvalues results)"
  proof (intro equalityI subsetI)
    fix v assume "v \<in> snd ` set gs"
    then obtain ns where ns: "(ns, v) \<in> set gs" by auto
    with ne(2)[OF ns] holds[OF ns] have "map_of results (hd ns) = Some v" by simp
    then show "v \<in> set (dvalues results)" by (rule dget_in_dvalues)
  next
    fix v assume "v \<in> set (dvalues results)"
    with dvalues_dget[OF assms(1)] cover show "v \<in> snd ` set gs" by force
  qed
  with gs(1) dist names ne show ?thesis by (intro exI[of _ gs]) (auto simp: grouped_def, blast)
qed

theorem merge_identical_results_exact_witness:
  "\<exists>gs. merge_identical_results [(''-h'', PInt 1), (''-v'', PInt 2), (''--help'', PInt 1)]
      = map (\<lambda>(ns, v). (join_with '', '' ns, v)) gs \<and> distinct (map snd gs)"
  using merge_identical_results_exact[of "[(''-h'', PInt 1), (''-v'', PInt 2), (''--help'', PInt 1)]"]
  by (auto simp: dict_ok_def dkeys_def)

section \<open>Every interleaving of the jobs\<close>

text \<open>Every recorded result is the result of a job of that file, a job about to write has read
  recorded results, and a finished job with a result has left an entry for its file.\<close>

definition genuine :: "(qemu_job \<Rightarrow> qemu_result) \<Rightarrow> qemu_job list \<Rightarrow> string \<Rightarrow> (string, qemu_result) dict \<Rightarrow> bool" where
  "genuine R jobs u res \<longleftrightarrow>
     (\<forall>a r. map_of res a = Some r \<longrightarrow> (\<exists>j \<in> set jobs. qj_uid j = u \<and> qj_arch j = a \<and> R j = r \<and> r \<noteq> []))"

definition pool_inv :: "(qemu_job \<Rightarrow> qemu_result) \<Rightarrow> qemu_job list \<Rightarrow> job_phase list \<times> results_dict \<Rightarrow> bool" where
  "pool_inv R jobs st \<longleftrightarrow> (case st of (phases, d) \<Rightarrow>
     length phases = length jobs \<and>
     (\<forall>u e. map_of d u = Some e \<longrightarrow> qe_results e \<noteq> [] \<and> genuine R jobs u (qe_results e) \<and>
        (\<exists>j \<in> set jobs. qj_uid j = u \<and> qj_path j = qe_path e)) \<and>
     (\<forall>i < length jobs. (case phases ! i of
          JobStart \<Rightarrow> True
        | JobRead tmp \<Rightarrow> R (jobs ! i) \<noteq> [] \<and> genuine R jobs (qj_uid (jobs ! i)) tmp
        | JobDone \<Rightarrow> R (jobs ! i) = [] \<or> map_of d (qj_uid (jobs ! i)) \<noteq> None)))"

lemma genuine_read:
  "(\<And>u e. map_of d u = Some e \<Longrightarrow> genuine R jobs u (qe_results e)) \<Longrightarrow> genuine R jobs u (read_results u d)"
  by (auto simp: read_results_def genuine_def split: option.splits)

lemma genuine_add:
  "genuine R jobs (qj_uid j) tmp \<Longrightarrow> j \<in> set jobs \<Longrightarrow> R j \<noteq> [] \<Longrightarrow>
   genuine R jobs (qj_uid j) (dput (qj_arch j) (R j) tmp)"
  by (auto simp: genuine_def)

lemma update_not_Nil: "dput k v d \<noteq> []"
  by (cases d) auto

lemma pool_inv_step:
  assumes "pool_inv R jobs st"
  shows "pool_inv R jobs (pool_step R jobs i st)"
proof (cases "i < length jobs")
  case False
  with assms show ?thesis by (simp add: pool_step_def split: prod.split)
next
  case True
  obtain phases d where st: "st = (phases, d)" by force
  let ?j = "jobs ! i"
  have job: "?j \<in> set jobs" using True by simp
  note inv = assms[unfolded pool_inv_def st prod.case]
  have len: "length phases = length jobs" using inv by blast
  have entries: "\<And>u e. map_of d u = Some e \<Longrightarrow> qe_results e \<noteq> [] \<and> genuine R jobs u (qe_results e) \<and>
      (\<exists>j \<in> set jobs. qj_uid j = u \<and> qj_path j = qe_path e)" using inv by blast
  have phase: "\<And>k. k < length jobs \<Longrightarrow> (case phases ! k of
          JobStart \<Rightarrow> True
        | JobRead tmp \<Rightarrow> R (jobs ! k) \<noteq> [] \<and> genuine R jobs (qj_uid (jobs ! k)) tmp
        | JobDone \<Rightarrow> R (jobs ! k) = [] \<or> map_of d (qj_uid (jobs ! k)) \<noteq> None)" using inv by blast
  show ?thesis
  proof (cases "phases ! i")
    case JobStart
    have "genuine R jobs (qj_uid ?j) (read_results (qj_uid ?j) d)" using entries by (intro genuine_read) blast
    with JobStart True len entries phase show ?thesis
      by (auto simp: pool_inv_def pool_step_def st job_step_def nth_list_update)
  next
    case (JobRead tmp)
    with phase[OF True] have R: "R ?j \<noteq> []" "genuine R jobs (qj_uid ?j) (dput (qj_arch ?j) (R ?j) tmp)"
      using genuine_add[OF _ job] by simp_all
    let ?d = "dput (qj_uid ?j) \<lparr>qe_path = qj_path ?j, qe_results = dput (qj_arch ?j) (R ?j) tmp\<rparr> d"
    have step: "pool_step R jobs i st = (phases[i := JobDone], ?d)"
      using True JobRead by (simp add: pool_step_def st job_step_def)
    have "\<forall>u e. map_of ?d u = Some e \<longrightarrow> qe_results e \<noteq> [] \<and> genuine R jobs u (qe_results e) \<and>
        (\<exists>j \<in> set jobs. qj_uid j = u \<and> qj_path j = qe_path e)"
      using entries R(2) job update_not_Nil by auto
    moreover have "\<forall>k < length jobs. (case phases[i := JobDone] ! k of
          JobStart \<Rightarrow> True
        | JobRead tmp \<Rightarrow> R (jobs ! k) \<noteq> [] \<and> genuine R jobs (qj_uid (jobs ! k)) tmp
        | JobDone \<Rightarrow> R (jobs ! k) = [] \<or> map_of ?d (qj_uid (jobs ! k)) \<noteq> None)"
    proof (intro allI impI)
      fix k assume "k < length jobs"
      with phase[of k] len show "case phases[i := JobDone] ! k of
          JobStart \<Rightarrow> True
        | JobRead tmp \<Rightarrow> R (jobs ! k) \<noteq> [] \<and> genuine R jobs (qj_uid (jobs ! k)) tmp
        | JobDone \<Rightarrow> R (jobs ! k) = [] \<or> map_of ?d (qj_uid (jobs ! k)) \<noteq> None"
        by (cases "k = i") (auto split: job_phase.splits)
    qed
    ultimately show ?thesis using len by (simp add: pool_inv_def step)
  next
    case JobDone
    then have "phases[i := JobDone] = phases" using list_update_id[of phases i] by simp
    with JobDone have "pool_step R jobs i st = st" by (simp add: pool_step_def st job_step_def)
    with assms show ?thesis by simp
  qed
qed

interpretation qemu_pool: component "pool_step R jobs" "\<lambda>_ _. True" "pool_inv R jobs" for R jobs
  by unfold_locales (rule pool_inv_step)

lemma run_pool_inv: "pool_inv R jobs (run_pool R jobs schedule)"
proof -
  have "pool_inv R jobs (map (\<lambda>_. JobStart) jobs, [])" by (simp add: pool_inv_def)
  moreover have "qemu_pool.run_ok R jobs schedule s" for s by (induction schedule arbitrary: s) simp_all
  ultimately show ?thesis
    unfolding run_pool_def qemu_pool.run_fold[symmetric] by (rule qemu_pool.run_inv)
qed

text \<open>C36: However the threads interleave: when all jobs have finished, a file has an entry exactly when
  one of its jobs had a result, the entry holds at least one result, and every recorded result
  is the result of a job of that file and that architecture.\<close>

theorem qemu_results_genuine:
  assumes "run_pool R jobs schedule = (phases, d)" and "all_done phases"
  shows "(map_of d u \<noteq> None \<longleftrightarrow> (\<exists>j \<in> set jobs. qj_uid j = u \<and> R j \<noteq> [])) \<and>
     (\<forall>e. map_of d u = Some e \<longrightarrow> qe_results e \<noteq> [] \<and>
        (\<forall>a r. map_of (qe_results e) a = Some r \<longrightarrow>
           (\<exists>j \<in> set jobs. qj_uid j = u \<and> qj_arch j = a \<and> R j = r \<and> r \<noteq> [])))"
proof -
  have inv: "pool_inv R jobs (phases, d)" using run_pool_inv[of R jobs schedule] assms(1) by simp
  have done_all: "\<And>i. i < length jobs \<Longrightarrow> phases ! i = JobDone"
    using inv assms(2) by (auto simp: pool_inv_def all_done_def)
  have "map_of d (qj_uid j) \<noteq> None" if "j \<in> set jobs" "R j \<noteq> []" for j
  proof -
    from that obtain i where "i < length jobs" "jobs ! i = j" by (auto simp: in_set_conv_nth)
    with inv done_all[of i] that(2) show ?thesis by (auto simp: pool_inv_def split: job_phase.splits)
  qed
  moreover have entry: "qe_results e \<noteq> [] \<and> genuine R jobs u (qe_results e)" if "map_of d u = Some e" for e
    using inv that by (auto simp: pool_inv_def)
  moreover have "\<exists>j \<in> set jobs. qj_uid j = u \<and> R j \<noteq> []" if e: "map_of d u = Some e" for e
  proof -
    from entry[OF e] obtain a r xs where "qe_results e = (a, r) # xs" by (cases "qe_results e") auto
    then have "map_of (qe_results e) a = Some r" by simp
    with entry[OF e] show ?thesis by (auto simp: genuine_def)
  qed
  ultimately show ?thesis by (auto simp: genuine_def)
qed

definition ex_jobs :: "qemu_job list" where
  "ex_jobs = [\<lparr>qj_path = ''/bin/a'', qj_arch = ''arm'', qj_uid = ''u''\<rparr>, \<lparr>qj_path = ''/bin/a'', qj_arch = ''armeb'', qj_uid = ''u''\<rparr>]"

definition ex_qemu_result :: "qemu_job \<Rightarrow> qemu_result" where
  "ex_qemu_result j = (if qj_arch j = ''arm''
     then [(''-h'', PDict [(''stdout'', PStr ''usage''), (''stderr'', PStr ''''), (''return_code'', PStr ''0'')])]
     else [(''-h'', PDict [(''error'', PStr ''timeout'')])])"

theorem qemu_results_genuine_witness:
  "\<exists>e. map_of (snd (run_pool ex_qemu_result ex_jobs [0, 1, 0, 1])) ''u'' = Some e \<and> qe_results e \<noteq> []"
proof -
  obtain phases d where run: "run_pool ex_qemu_result ex_jobs [0, 1, 0, 1] = (phases, d)" by force
  have "all_done (fst (run_pool ex_qemu_result ex_jobs [0, 1, 0, 1]))" by code_simp
  with run have "all_done phases" by simp
  from qemu_results_genuine[OF run this, of "''u''"] run show ?thesis
    by (auto simp: ex_jobs_def ex_qemu_result_def)
qed

text \<open>One job after the other loses nothing; but two jobs of one file that both read before either
  writes lose a result, and with it the mark of an executable file.\<close>

theorem lost_update:
  "any_executable (snd (run_pool ex_qemu_result ex_jobs [0, 0, 1, 1]))"
  "all_done (fst (run_pool ex_qemu_result ex_jobs [0, 1, 0, 1]))"
  "\<not> any_executable (snd (run_pool ex_qemu_result ex_jobs [0, 1, 0, 1]))"
  by code_simp+

text \<open>No file is skipped for being complete: the entry \<open>files\<close> is empty while the jobs are made.\<close>

lemma jobs_of_all_copies:
  "qemu_jobs sha (dput ''files'' (PDict []) res) file_list =
     concat (map (\<lambda>(f, path). map (\<lambda>arch. \<lparr>qj_path = path, qj_arch = arch, qj_uid = bytes_uid sha (uf_content f)\<rparr>)
        (case uf_type f of None \<Rightarrow> [] | Some (_, full_type) \<Rightarrow> find_arch_suffixes full_type)) file_list)"
  by (simp add: qemu_jobs_def analysis_not_already_completed_def dmem_def)

end
