(* ===== verification/YaraPlugins.thy ===== *)
theory YaraPlugins
  imports FileSystemMetadata CveLookup
begin

text \<open>
  The plugins that rest on YARA signatures: the base class (\<open>analysis/YaraPluginBase.py\<close>), the
  detection of software and its versions (\<open>src/plugins/analysis/software_components\<close>) and of known
  vulnerabilities (\<open>src/plugins/analysis/known_vulnerabilities\<close>, with its rules). The output of the
  program \<open>yara\<close>, the answers of the Ghidra containers, the regular expressions written in
  signature files and the generated list of operating systems are parameters.
\<close>

section \<open>The output of YARA\<close>

definition is_newline :: "char \<Rightarrow> bool" where
  "is_newline c = (c = CHR 0x0A)"

definition dot_re :: regex where
  "dot_re = RChar (\<lambda>c. \<not> is_newline c)"

definition is_hex_lower :: "char \<Rightarrow> bool" where
  "is_hex_lower c \<longleftrightarrow> is_digit c \<or> (CHR ''a'' \<le> c \<and> c \<le> CHR ''f'')"

text \<open>\<open>\n*.*\[.*\]\s/.+\n*\<close>\<close>

definition SPLIT_REGEX :: regex where
  "SPLIT_REGEX = seqs [RStar (RChar is_newline), RStar dot_re, lit ''['', RStar dot_re, lit '']'', RChar PyRegex.is_space,
     lit ''/'', plus_re dot_re, RStar (RChar is_newline)]"

text \<open>\<open>(\w*)\s\[(.*)\]\s([.]{0,2}/)(.+)\<close>\<close>

definition RULE_REGEX :: regex where
  "RULE_REGEX = seqs [RGroup 1 (RStar (RChar is_word)), RChar PyRegex.is_space, lit ''['', RGroup 2 (RStar dot_re), lit '']'',
     RChar PyRegex.is_space, RGroup 3 (RSeq (alts [lit ''..'', lit ''.'', REmpty]) (lit ''/'')), RGroup 4 (plus_re dot_re)]"

text \<open>\<open>((0x[a-f0-9]*):(\$[a-zA-Z0-9_]+):\s(.+))+\<close>\<close>

definition MATCHES_REGEX :: regex where
  "MATCHES_REGEX = plus_re (RGroup 1 (seqs [RGroup 2 (RSeq (lit ''0x'') (RStar (RChar is_hex_lower))), lit '':'',
     RGroup 3 (RSeq (lit ''$'') (plus_re (RChar is_word))), lit '':'', RChar PyRegex.is_space, RGroup 4 (plus_re dot_re)]))"

definition group_text :: "re_groups \<Rightarrow> nat \<Rightarrow> string" where
  "group_text g n = (case map_of g n of None \<Rightarrow> [] | Some (_, t) \<Rightarrow> t)"

definition findall_groups :: "regex \<Rightarrow> string \<Rightarrow> re_groups list" where
  "findall_groups r s = concat (map (\<lambda>t. case t of Skipped _ \<Rightarrow> [] | Found _ g \<Rightarrow> [g]) (re_tokens r s))"

definition split_output_in_rules_and_matches :: "string \<Rightarrow> (string list \<times> re_groups list) result" where
  "split_output_in_rules_and_matches output =
     (let match_blocks = filter (\<lambda>b. b \<noteq> []) (re_split SPLIT_REGEX output);
          found_rules = findall_groups RULE_REGEX output
      in if length match_blocks \<noteq> length found_rules then Inl ValueError else Inr (match_blocks, found_rules))"

text \<open>\<open>s.strip('"')\<close>.\<close>

definition strip_quotes :: "string \<Rightarrow> string" where
  "strip_quotes s = rev (lstrip (CHR 0x22) (rev (lstrip (CHR 0x22) s)))"

definition parse_meta_data :: "string \<Rightarrow> (string, pyval) dict" where
  "parse_meta_data meta_data_string =
     fold (\<lambda>item meta_data.
        if CHR ''='' \<in> set item then
          (let key = takeWhile (\<lambda>c. c \<noteq> CHR ''='') item; v = tl (dropWhile (\<lambda>c. c \<noteq> CHR ''='') item) in
           dput key (if v = ''true'' then PBool True else if v = ''false'' then PBool False else PStr (strip_quotes v)) meta_data)
        else meta_data) (split_on (CHR '','') meta_data_string) []"

text \<open>\<open>int(offset, 16)\<close> of a text that starts with \<open>0x\<close>.\<close>

definition hex_value :: "char \<Rightarrow> int" where
  "hex_value c = (if is_digit c then of_char c - 48 else of_char c - 87)"

definition hex_int :: "string \<Rightarrow> int result" where
  "hex_int s = (if drop 2 s = [] then Inl ValueError else Inr (foldl (\<lambda>n c. 16 * n + hex_value c) 0 (drop 2 s)))"

text \<open>The result of one rule; a matched string is an offset, a tag and a text.\<close>

record yara_match =
  ym_strings :: "(int \<times> string \<times> string) list"
  ym_meta :: "(string, pyval) dict"

type_synonym yara_results = "(string, yara_match) dict"

definition append_match_to_result :: "re_groups \<Rightarrow> re_groups \<Rightarrow> yara_results \<Rightarrow> yara_results result" where
  "append_match_to_result rule match resulting_matches =
     (let name = group_text rule 1;
          entry = (case map_of resulting_matches name of
              None \<Rightarrow> \<lparr>ym_strings = [], ym_meta = parse_meta_data (group_text rule 2)\<rparr> | Some e \<Rightarrow> e)
      in map_r (\<lambda>off. dput name (entry\<lparr>ym_strings := ym_strings entry @ [(off, group_text match 3, group_text match 4)]\<rparr>)
              resulting_matches) (hex_int (group_text match 2)))"

definition parse_yara_output :: "string \<Rightarrow> yara_results result" where
  "parse_yara_output output =
     bind_r (split_output_in_rules_and_matches output) (\<lambda>(match_blocks, found_rules).
       foldM_r (\<lambda>(rule, block). foldM_r (append_match_to_result rule) (findall_groups MATCHES_REGEX block))
         (zip found_rules match_blocks) [])"

definition match_value :: "string \<Rightarrow> yara_match \<Rightarrow> pyval" where
  "match_value rule m = PDict [(''rule'', PStr rule), (''matches'', PBool True),
     (''strings'', PList (map (\<lambda>(off, tag, text). PList [PInt off, PStr tag, PStr text]) (ym_strings m))),
     (''meta'', PDict (ym_meta m))]"

definition yara_result_value :: "yara_results \<Rightarrow> analysis_result" where
  "yara_result_value r =
     dput ''summary'' (PList (map PStr (dkeys r))) (map (\<lambda>(rule, m). (rule, match_value rule m)) r)"

text \<open>\<open>process_object\<close> of the base class: \<open>output\<close> is what YARA prints for the file, or there is
  no signature file.\<close>

definition yara_process_object :: "string \<Rightarrow> string option \<Rightarrow> file_object \<Rightarrow> file_object" where
  "yara_process_object name output fo =
     (let res = (case output of
          None \<Rightarrow> [(''failed'', PStr ''Signature path not set'')]
        | Some out \<Rightarrow> (case parse_yara_output out of
              Inr r \<Rightarrow> yara_result_value r
            | Inl _ \<Rightarrow> [(''failed'', PStr ''Processing corrupted. Likely bad call to yara.'')]))
      in fo\<lparr>processed_analysis := dput name res (processed_analysis fo)\<rparr>)"

section \<open>Software components\<close>

text \<open>The environment: the search with a regular expression of a signature file, the strings the
  format string resolver finds, and the generated list of operating systems.\<close>

record software_env =
  sw_search :: "string \<Rightarrow> string \<Rightarrow> string option result"
  sw_ghidra :: "bytes option \<Rightarrow> string list \<Rightarrow> string list option"
  sw_os_list :: "string list"

text \<open>\<open>\d+.\d+(.\d+)?(\w)?\<close>\<close>

definition VERSION_REGEX :: regex where
  "VERSION_REGEX = seqs [plus_re (RChar is_digit), dot_re, plus_re (RChar is_digit),
     opt_re (RSeq dot_re (plus_re (RChar is_digit))), opt_re (RChar is_word)]"

definition re_search :: "regex \<Rightarrow> string \<Rightarrow> string option" where
  "re_search r s = (case findall r s of [] \<Rightarrow> None | m # _ \<Rightarrow> Some m)"

definition strip_zeroes :: "string \<Rightarrow> string" where
  "strip_zeroes version_string =
     join_with ''.'' (map (\<lambda>e. let t = lstrip (CHR ''0'') e in if t = [] then ''0'' else t) (split_on (CHR ''.'') version_string))"

text \<open>\<open>meta_dict['version_regex'].replace('\\\\', '\\')\<close>: doubled backslashes become single.\<close>

definition get_version :: "software_env \<Rightarrow> string \<Rightarrow> (string, pyval) dict \<Rightarrow> string result" where
  "get_version W input_string meta_dict =
     bind_r (case dget meta_dict ''version_regex'' of
         None \<Rightarrow> Inr (re_search VERSION_REGEX input_string)
       | Some (PStr r) \<Rightarrow> sw_search W (replace_str [CHR 0x5C, CHR 0x5C] [CHR 0x5C] r) input_string
       | Some _ \<Rightarrow> Inl AttributeError)
       (\<lambda>found. Inr (case found of None \<Rightarrow> [] | Some v \<Rightarrow> strip_zeroes v))"

text \<open>\<open>\d\.\d\<close>\<close>

definition PLAUSIBLE_REGEX :: regex where
  "PLAUSIBLE_REGEX = seqs [RChar is_digit, lit ''.'', RChar is_digit]"

definition filter_implausible_results :: "string list \<Rightarrow> string list" where
  "filter_implausible_results version_list = filter (\<lambda>v. findall PLAUSIBLE_REGEX v \<noteq> []) version_list"

definition extract_data_from_ghidra :: "software_env \<Rightarrow> bytes option \<Rightarrow> string list \<Rightarrow> string list" where
  "extract_data_from_ghidra W input_data key_strings = (case sw_ghidra W input_data key_strings of
      None \<Rightarrow> [] | Some found \<Rightarrow> filter_implausible_results found)"

text \<open>The truth value of \<open>meta.get('format_string')\<close>: a flag or a text.\<close>

definition truthy_meta :: "pyval option \<Rightarrow> bool" where
  "truthy_meta v = (case v of None \<Rightarrow> False | Some (PBool b) \<Rightarrow> b | Some (PStr s) \<Rightarrow> s \<noteq> [] | Some _ \<Rightarrow> True)"

definition get_version_for_component :: "software_env \<Rightarrow> file_object \<Rightarrow> yara_match \<Rightarrow> yara_match result" where
  "get_version_for_component W fo res =
     bind_r (mapM_r (\<lambda>(_, _, text). get_version W text (ym_meta res)) (ym_strings res)) (\<lambda>found.
       let versions = py_set found;
           key_strings = filter (substr_in ''%s'') (map (\<lambda>(_, _, text). text) (ym_strings res));
           versions1 = (if truthy_meta (dget (ym_meta res) ''format_string'') \<and> key_strings \<noteq> []
                        then set_union versions (extract_data_from_ghidra W (binary fo) key_strings) else versions);
           versions2 = (if [] \<in> set versions1 \<and> 1 < length versions1 then filter (\<lambda>v. v \<noteq> []) versions1 else versions1)
       in Inr (res\<lparr>ym_meta := dput ''version'' (PList (map PStr versions2)) (ym_meta res)\<rparr>))"

definition add_version_information :: "software_env \<Rightarrow> file_object \<Rightarrow> yara_results \<Rightarrow> yara_results result" where
  "add_version_information W fo results =
     mapM_r (\<lambda>(rule, m). map_r (Pair rule) (get_version_for_component W fo m)) results"

text \<open>\<open>f'{software}'\<close> of a text; a flag is printed as \<open>True\<close> or \<open>False\<close>.\<close>

definition meta_text :: "pyval \<Rightarrow> string" where
  "meta_text v = (case v of PStr s \<Rightarrow> s | PBool True \<Rightarrow> ''True'' | PBool False \<Rightarrow> ''False'' | _ \<Rightarrow> [])"

definition component_entries :: "yara_match \<Rightarrow> string list result" where
  "component_entries m =
     bind_r (dlookup (ym_meta m) ''software_name'') (\<lambda>software.
     bind_r (dlookup (ym_meta m) ''version'') (\<lambda>vs. case vs of
         PList xs \<Rightarrow> Inr (map (\<lambda>v. meta_text software @ '' '' @ meta_text v) xs) | _ \<Rightarrow> Inl TypeError))"

definition software_get_summary :: "yara_results \<Rightarrow> string list result" where
  "software_get_summary results = map_r (\<lambda>es. sort (remdups (concat es))) (mapM_r (\<lambda>(_, m). component_entries m) results)"

text \<open>\<open>os_.strip() == entry.strip()\<close>.\<close>

definition py_strip :: "string \<Rightarrow> string" where
  "py_strip s = rev (dropWhile PyRegex.is_space (rev (dropWhile PyRegex.is_space s)))"

definition entry_has_no_trailing_version :: "string \<Rightarrow> string \<Rightarrow> bool" where
  "entry_has_no_trailing_version entry os_string = (py_strip os_string = py_strip entry)"

definition os_tags :: "(bytes \<Rightarrow> string) \<Rightarrow> plugin \<Rightarrow> string \<times> string \<Rightarrow> file_object \<Rightarrow> file_object result" where
  "os_tags sha p eo fo = (case eo of (entry, os) \<Rightarrow>
     if \<not> substr_in os entry then Inr fo
     else if entry_has_no_trailing_version entry os
       then add_analysis_tag sha p ''OS'' (PStr entry) (tag_value GREEN) True fo
       else bind_r (add_analysis_tag sha p ''OS'' (PStr os) (tag_value GREEN) False fo)
              (add_analysis_tag sha p ''OS Version'' (PStr entry) (tag_value GREEN) True))"

definition add_os_key :: "(bytes \<Rightarrow> string) \<Rightarrow> plugin \<Rightarrow> software_env \<Rightarrow> string list \<Rightarrow> file_object \<Rightarrow> file_object result" where
  "add_os_key sha p W summary fo =
     foldM_r (os_tags sha p) (concat (map (\<lambda>entry. map (Pair entry) (sw_os_list W)) summary)) fo"

text \<open>The plugin. No signature is named \<open>summary\<close>. The condition \<open>len(analysis) > 1\<close> holds when at least one rule matched: the
  result of a failure has one key, and so has a result without a match.\<close>

definition software_process_object ::
  "(bytes \<Rightarrow> string) \<Rightarrow> plugin \<Rightarrow> software_env \<Rightarrow> string option \<Rightarrow> file_object \<Rightarrow> file_object result" where
  "software_process_object sha p W output fo =
     (let name = ''software_components''; fo1 = yara_process_object name output fo in
      case (case output of None \<Rightarrow> Inl ValueError | Some out \<Rightarrow> parse_yara_output out) of
        Inl _ \<Rightarrow> Inr fo1
      | Inr [] \<Rightarrow> Inr fo1
      | Inr results \<Rightarrow>
          bind_r (add_version_information W fo1 results) (\<lambda>results'.
          bind_r (software_get_summary results') (\<lambda>summary.
            add_os_key sha p W summary (fo1\<lparr>processed_analysis := dput name
              (dput ''summary'' (PList (map PStr summary)) (yara_result_value results')) (processed_analysis fo1)\<rparr>))))"

section \<open>Rules over analysis results\<close>

text \<open>Equality of Python values, where numbers and booleans of one value are equal.\<close>

definition num_of :: "pyval \<Rightarrow> real option" where
  "num_of v = (case v of PInt i \<Rightarrow> Some (real_of_int i) | PFloat x \<Rightarrow> Some x | PBool b \<Rightarrow> Some (if b then 1 else 0) | _ \<Rightarrow> None)"

definition py_eq :: "pyval \<Rightarrow> pyval \<Rightarrow> bool" where
  "py_eq x y = (case (num_of x, num_of y) of (Some a, Some b) \<Rightarrow> a = b | _ \<Rightarrow> x = y)"

text \<open>\<open>x < y\<close>.\<close>

fun py_less :: "pyval \<Rightarrow> pyval \<Rightarrow> bool result" where
  "py_less (PStr a) (PStr b) = Inr (a < b)"
| "py_less (PBytes a) (PBytes b) = Inr (a < b)"
| "py_less (PSet a) (PSet b) = Inr (set a \<subset> set b)"
| "py_less (PList []) (PList ys) = Inr (ys \<noteq> [])"
| "py_less (PList (x # xs)) (PList []) = Inr False"
| "py_less (PList (x # xs)) (PList (y # ys)) = (if py_eq x y then py_less (PList xs) (PList ys) else py_less x y)"
| "py_less x y = (case (num_of x, num_of y) of (Some a, Some b) \<Rightarrow> Inr (a < b) | _ \<Rightarrow> Inl TypeError)"

text \<open>\<open>x in y\<close>.\<close>

definition py_in :: "pyval \<Rightarrow> pyval \<Rightarrow> bool result" where
  "py_in x y = (case y of
      PList ys \<Rightarrow> Inr (\<exists>z \<in> set ys. py_eq x z)
    | PSet ys \<Rightarrow> if hashable x then Inr (\<exists>z \<in> set ys. py_eq x z) else Inl TypeError
    | PDict d \<Rightarrow> if hashable x then Inr (\<exists>k \<in> set (dkeys d). x = PStr k) else Inl TypeError
    | PStr s \<Rightarrow> (case x of PStr t \<Rightarrow> Inr (substr_in t s) | _ \<Rightarrow> Inl TypeError)
    | PBytes b \<Rightarrow> (case x of
          PBytes c \<Rightarrow> Inr (sublist c b)
        | PInt i \<Rightarrow> if 0 \<le> i \<and> i < 256 then Inr (nat i \<in> set b) else Inl ValueError
        | _ \<Rightarrow> Inl TypeError)
    | _ \<Rightarrow> Inl TypeError)"

text \<open>The elements of \<open>set(x)\<close>.\<close>

definition set_elems :: "pyval \<Rightarrow> pyval list result" where
  "set_elems x = (case x of
      PList xs \<Rightarrow> if list_all hashable xs then Inr xs else Inl TypeError
    | PSet xs \<Rightarrow> Inr xs
    | PDict d \<Rightarrow> Inr (map PStr (dkeys d))
    | PStr s \<Rightarrow> Inr (map (\<lambda>c. PStr [c]) s)
    | PBytes b \<Rightarrow> Inr (map (\<lambda>n. PInt (int n)) b)
    | _ \<Rightarrow> Inl TypeError)"

datatype relation = RExists | REquals | RIs | RGt | RLt | RIn | RReverseIn | RIntersection

text \<open>\<open>RELATIONS\<close>; the identity of two objects is a parameter.\<close>

definition apply_relation :: "(pyval \<Rightarrow> pyval \<Rightarrow> bool) \<Rightarrow> relation \<Rightarrow> pyval \<Rightarrow> pyval \<Rightarrow> bool result" where
  "apply_relation same rel x y = (case rel of
      RExists \<Rightarrow> Inr True
    | REquals \<Rightarrow> Inr (py_eq x y)
    | RIs \<Rightarrow> Inr (same x y)
    | RGt \<Rightarrow> py_less y x
    | RLt \<Rightarrow> py_less x y
    | RIn \<Rightarrow> py_in x y
    | RReverseIn \<Rightarrow> py_in y x
    | RIntersection \<Rightarrow> bind_r (set_elems x) (\<lambda>xs. bind_r (set_elems y) (\<lambda>ys.
        Inr (\<exists>a \<in> set xs. \<exists>b \<in> set ys. py_eq a b))))"

record single_rule =
  sr_value_path :: "string list"
  sr_relation :: relation
  sr_comparison :: pyval

datatype quantifier = AnyOf | AllOf

record meta_rule =
  mr_rules :: "single_rule list"
  mr_relation :: quantifier

record sub_path_rule =
  sp_base_path :: "string list"
  sp_meta_rule :: meta_rule

datatype rule = SingleRule single_rule | MetaRule meta_rule | SubPathRule sub_path_rule

fun dotted_value :: "pyval \<Rightarrow> string list \<Rightarrow> pyval result" where
  "dotted_value v [] = Inr v"
| "dotted_value v (k # ks) = (case v of
      PDict d \<Rightarrow> bind_r (dlookup d k) (\<lambda>x. if ks = [] then Inr x else dotted_value x ks)
    | _ \<Rightarrow> Inl ValueError)"

definition get_dotted_path_from_dictionary :: "pyval \<Rightarrow> string \<Rightarrow> pyval result" where
  "get_dotted_path_from_dictionary dictionary dotted_path = dotted_value dictionary (split_on (CHR ''.'') dotted_path)"

fun rule_get_value :: "pyval \<Rightarrow> string list \<Rightarrow> pyval result" where
  "rule_get_value analysis [] = Inl IndexError"
| "rule_get_value analysis (p # path) =
     bind_r (get_dotted_path_from_dictionary analysis p) (\<lambda>v. case v of
        PList xs \<Rightarrow> if path \<noteq> [] then map_r PList (mapM_r (\<lambda>item. rule_get_value item path) xs) else Inr v
      | _ \<Rightarrow> Inr v)"

definition is_list :: "pyval \<Rightarrow> bool" where
  "is_list v = (case v of PList _ \<Rightarrow> True | _ \<Rightarrow> False)"

definition evaluate_single_rule :: "(pyval \<Rightarrow> pyval \<Rightarrow> bool) \<Rightarrow> pyval \<Rightarrow> single_rule \<Rightarrow> bool result" where
  "evaluate_single_rule same analysis r =
     bind_r (rule_get_value analysis (sr_value_path r)) (\<lambda>v. case v of
        PList xs \<Rightarrow> if is_list (sr_comparison r) then apply_relation same (sr_relation r) v (sr_comparison r)
                   else any_r (\<lambda>x. apply_relation same (sr_relation r) x (sr_comparison r)) xs
      | _ \<Rightarrow> apply_relation same (sr_relation r) v (sr_comparison r))"

text \<open>A missing key means that the rule does not apply.\<close>

definition no_key_error :: "bool result \<Rightarrow> bool result" where
  "no_key_error r = (if r = Inl KeyError then Inr False else r)"

fun all_r :: "('a \<Rightarrow> bool result) \<Rightarrow> 'a list \<Rightarrow> bool result" where
  "all_r P [] = Inr True"
| "all_r P (x # xs) = bind_r (P x) (\<lambda>b. if b then all_r P xs else Inr False)"

definition evaluate_meta_rule :: "(pyval \<Rightarrow> pyval \<Rightarrow> bool) \<Rightarrow> pyval \<Rightarrow> meta_rule \<Rightarrow> bool result" where
  "evaluate_meta_rule same analysis r =
     (case mr_relation r of AnyOf \<Rightarrow> any_r | AllOf \<Rightarrow> all_r)
       (\<lambda>partial_rule. no_key_error (evaluate_single_rule same analysis partial_rule)) (mr_rules r)"

definition evaluate_sub_path_rule :: "(pyval \<Rightarrow> pyval \<Rightarrow> bool) \<Rightarrow> pyval \<Rightarrow> sub_path_rule \<Rightarrow> bool result" where
  "evaluate_sub_path_rule same analysis r =
     bind_r (rule_get_value analysis (sp_base_path r)) (\<lambda>v. case v of
        PList xs \<Rightarrow> any_r (\<lambda>x. evaluate_meta_rule same x (sp_meta_rule r)) xs
      | _ \<Rightarrow> evaluate_meta_rule same v (sp_meta_rule r))"

definition evaluate :: "(pyval \<Rightarrow> pyval \<Rightarrow> bool) \<Rightarrow> pyval \<Rightarrow> rule \<Rightarrow> bool result" where
  "evaluate same analysis r = no_key_error (case r of
      SingleRule s \<Rightarrow> evaluate_single_rule same analysis s
    | MetaRule m \<Rightarrow> evaluate_meta_rule same analysis m
    | SubPathRule s \<Rightarrow> evaluate_sub_path_rule same analysis s)"

section \<open>Known vulnerabilities\<close>

record vulnerability =
  vu_rule :: rule
  vu_short_name :: string
  vu_description :: string
  vu_score :: string
  vu_reliability :: string
  vu_link :: string

text \<open>The checks of the constructor (\<open>BadRuleError\<close> is a \<open>ValueError\<close>).\<close>

definition vulnerability_init :: "vulnerability \<Rightarrow> vulnerability result" where
  "vulnerability_init v = bind_r (py_int (vu_reliability v)) (\<lambda>i.
     if \<not> (0 \<le> i \<and> i \<le> 100) then Inl ValueError
     else if vu_score v \<notin> {''low'', ''medium'', ''high''} then Inl ValueError
     else Inr (v\<lparr>vu_reliability := str_int i\<rparr>))"

definition vulnerability_dict :: "vulnerability \<Rightarrow> (string, pyval) dict" where
  "vulnerability_dict v = [(''description'', PStr (vu_description v)), (''score'', PStr (vu_score v)),
     (''reliability'', PStr (vu_reliability v)), (''link'', PStr (vu_link v))]"

definition heartbleed_rule :: single_rule where
  "heartbleed_rule = \<lparr>sr_value_path = [''software_components.OpenSSL.meta.version''], sr_relation = RIntersection,
     sr_comparison = PList (map (\<lambda>minor. PStr (''1.0.1'' @ [minor])) ''abcde'')\<rparr>"

definition netgear_cgi_rule :: single_rule where
  "netgear_cgi_rule = \<lparr>sr_value_path = [''file_hashes.sha256''], sr_relation = REquals,
     sr_comparison = PStr ''7579d10e812905e134cf91ad8eef7b08f87f6f8c8e004ebefa441781fea0ec4a''\<rparr>"

definition vulnerabilities :: "vulnerability list" where
  "vulnerabilities =
     [\<lparr>vu_rule = SingleRule heartbleed_rule, vu_short_name = ''Heartbleed'',
       vu_description = ''The SSL Heartbleed bug allowing buffer over-read'', vu_score = ''high'', vu_reliability = ''90'',
       vu_link = ''https://nvd.nist.gov/vuln/detail/CVE-2014-0160''\<rparr>,
      \<lparr>vu_rule = SingleRule netgear_cgi_rule, vu_short_name = ''Netgear_CGI'',
       vu_description = ''Netgear httpd vulnerable to '' @ [CHR 0x22] @ ''/cgi-bin/<shell command>'' @ [CHR 0x22] @ '' bug'',
       vu_score = ''medium'', vu_reliability = ''100'', vu_link = ''https://nvd.nist.gov/vuln/detail/CVE-2016-6277''\<rparr>]"

definition analysis_value :: "(string, analysis_result) dict \<Rightarrow> pyval" where
  "analysis_value pa = PDict (map (\<lambda>(k, r). (k, PDict r)) pa)"

type_synonym found_vulnerabilities = "(string \<times> (string, pyval) dict) list"

definition check_vulnerabilities ::
  "(pyval \<Rightarrow> pyval \<Rightarrow> bool) \<Rightarrow> (string, analysis_result) dict \<Rightarrow> found_vulnerabilities result" where
  "check_vulnerabilities same pa =
     map_r concat (mapM_r (\<lambda>v. map_r (\<lambda>b. if b then [(vu_short_name v, vulnerability_dict v)] else [])
        (evaluate same (analysis_value pa) (vu_rule v))) vulnerabilities)"

text \<open>The result of the base class must have a summary, which a failed run of YARA has not.\<close>

definition yara_meta :: "string \<times> pyval \<Rightarrow> (string \<times> (string, pyval) dict) result" where
  "yara_meta x = (case x of (name, v) \<Rightarrow> (case v of
      PDict d \<Rightarrow> bind_r (dlookup d ''meta'') (\<lambda>m. case m of PDict e \<Rightarrow> Inr (name, e) | _ \<Rightarrow> Inl TypeError)
    | _ \<Rightarrow> Inl TypeError))"

definition post_process_yara_results :: "analysis_result \<Rightarrow> found_vulnerabilities result" where
  "post_process_yara_results yara_results =
     bind_r (dlookup yara_results ''summary'') (\<lambda>_. mapM_r yara_meta (ddel ''summary'' yara_results))"

text \<open>The container that looks for the vulnerable function of NetUSB writes a report, or nothing.\<close>

definition check_netusb_vulnerability ::
  "(bytes option \<Rightarrow> (string, pyval) dict option) \<Rightarrow> bytes option \<Rightarrow> found_vulnerabilities result" where
  "check_netusb_vulnerability ghidra input_file_data = (case ghidra input_file_data of
      None \<Rightarrow> Inr []
    | Some report \<Rightarrow> map_r (\<lambda>vulnerable.
        [(''CVE-2021-45608'',
          [(''description'', PStr ''CVE-2021-45608: vulnerability in KCodes NetUSB kernel module''),
           (''score'', PStr (if vulnerable = PBool True then ''high'' else ''none'')), (''reliability'', PInt 90),
           (''link'', PStr ''https://nvd.nist.gov/vuln/detail/CVE-2021-45608''), (''short_name'', PStr ''CVE-2021-45608''),
           (''additional_data'', PDict report)])]) (dlookup report ''is_vulnerable''))"

definition vulnerability_tag ::
  "(bytes \<Rightarrow> string) \<Rightarrow> plugin \<Rightarrow> string \<times> (string, pyval) dict \<Rightarrow> file_object \<Rightarrow> file_object result" where
  "vulnerability_tag sha p x fo = (case x of (name, details) \<Rightarrow>
     bind_r (dlookup details ''score'') (\<lambda>score.
       if score = PStr ''none'' then Inr fo
       else add_analysis_tag sha p name (PStr (replace_char (CHR ''_'') '' '' name))
              (if score = PStr ''high'' then tag_value RED else tag_value ORANGE) (score = PStr ''high'') fo))"

definition known_vulnerabilities_process_object ::
  "(bytes \<Rightarrow> string) \<Rightarrow> plugin \<Rightarrow> (pyval \<Rightarrow> pyval \<Rightarrow> bool) \<Rightarrow> (bytes option \<Rightarrow> (string, pyval) dict option) \<Rightarrow>
   string option \<Rightarrow> file_object \<Rightarrow> file_object result" where
  "known_vulnerabilities_process_object sha p same ghidra output fo =
     (let name = ''known_vulnerabilities''; fo1 = yara_process_object name output fo in
      bind_r (dlookup (processed_analysis fo1) name) (\<lambda>yara_results.
        let pa = dput name [] (ddel name (processed_analysis fo1)) in
        bind_r (post_process_yara_results yara_results) (\<lambda>binary_vulnerabilities.
        bind_r (check_vulnerabilities same pa) (\<lambda>matched_vulnerabilities.
        bind_r (if (case dget pa ''software_components'' of None \<Rightarrow> False | Some sc \<Rightarrow> dmem ''NetUSB'' sc)
                then check_netusb_vulnerability ghidra (binary fo) else Inr []) (\<lambda>netusb.
          let found = binary_vulnerabilities @ matched_vulnerabilities @ netusb;
              res = dput ''summary'' (PList (map (\<lambda>(n, _). PStr n) found)) (fold (\<lambda>(n, v). dput n (PDict v)) found [])
          in foldM_r (vulnerability_tag sha p) found (fo1\<lparr>processed_analysis := dput name res pa\<rparr>))))))"

section \<open>Tags do not touch the rest of a result\<close>

definition result_item :: "file_object \<Rightarrow> string \<Rightarrow> string \<Rightarrow> pyval option" where
  "result_item fo n k = (case map_of (processed_analysis fo) n of None \<Rightarrow> None | Some r \<Rightarrow> map_of r k)"

definition only_tags :: "file_object \<Rightarrow> file_object \<Rightarrow> bool" where
  "only_tags fo fo' \<longleftrightarrow> (\<forall>n k. k \<noteq> ''tags'' \<longrightarrow> result_item fo' n k = result_item fo n k) \<and>
     (\<forall>n. map_of (processed_analysis fo') n = None \<longleftrightarrow> map_of (processed_analysis fo) n = None) \<and> binary fo' = binary fo"

lemma only_tags_refl: "only_tags fo fo"
  by (simp add: only_tags_def)

lemma only_tags_trans: "only_tags a b \<Longrightarrow> only_tags b c \<Longrightarrow> only_tags a c"
  by (simp add: only_tags_def)

lemma only_tags_add: "add_analysis_tag sha p t v c b fo = Inr fo' \<Longrightarrow> only_tags fo fo'"
proof -
  assume added: "add_analysis_tag sha p t v c b fo = Inr fo'"
  then obtain res where res: "map_of (processed_analysis fo) (fstr (p_name p)) = Some res"
    by (auto simp: add_analysis_tag_def Let_def bind_r_Inr_iff)
  have "\<exists>x. fo' = fo\<lparr>processed_analysis := dput (fstr (p_name p)) (dput ''tags'' x res) (processed_analysis fo)\<rparr>"
    using added res by (cases "map_of res ''tags''") (auto simp: add_analysis_tag_def Let_def dlookup_def split: pyval.splits)
  with res show ?thesis by (auto simp: only_tags_def result_item_def split: if_splits)
qed

lemma only_tags_fold:
  assumes "foldM_r f xs fo = Inr fo'" and "\<And>x fo fo'. f x fo = Inr fo' \<Longrightarrow> only_tags fo fo'"
  shows "only_tags fo fo'"
  by (rule foldM_r_inv[OF assms(1), where P = "only_tags fo"]) (auto intro: only_tags_refl only_tags_trans assms(2))

lemma only_tags_os: "os_tags sha p eo fo = Inr fo' \<Longrightarrow> only_tags fo fo'"
  by (auto simp: os_tags_def result_simps split: prod.splits if_splits intro: only_tags_refl only_tags_trans dest!: only_tags_add)

lemma only_tags_vulnerability: "vulnerability_tag sha p x fo = Inr fo' \<Longrightarrow> only_tags fo fo'"
  by (auto simp: vulnerability_tag_def result_simps split: prod.splits if_splits intro: only_tags_refl dest!: only_tags_add)

section \<open>What the detection of software stores\<close>

lemma mapM_r_pairs:
  "mapM_r (\<lambda>(k, x). map_r (Pair k) (f x)) d = Inr d' \<Longrightarrow>
   (map_of d' k = Some y \<longleftrightarrow> (\<exists>x. map_of d k = Some x \<and> f x = Inr y)) \<and> dkeys d' = dkeys d"
  by (induction d arbitrary: d') (auto simp: result_simps)

lemma yara_value_get:
  "k \<noteq> ''summary'' \<Longrightarrow> map_of (yara_result_value r) k = map_option (match_value k) (map_of r k)"
  unfolding yara_result_value_def by (induction r) auto

lemma yara_value_summary: "map_of (yara_result_value r) ''summary'' = Some (PList (map PStr (dkeys r)))"
  by (simp add: yara_result_value_def)

lemma software_stored:
  assumes "software_process_object sha p W (Some out) fo = Inr fo'"
    and "parse_yara_output out = Inr results" "results \<noteq> []"
  obtains fo1 results' summary where "add_version_information W fo1 results = Inr results'"
    and "binary fo1 = binary fo" and "software_get_summary results' = Inr summary"
    and "result_item fo' ''software_components'' ''summary'' = Some (PList (map PStr summary))"
    and "\<And>k. k \<notin> {''summary'', ''tags''} \<Longrightarrow> result_item fo' ''software_components'' k = map_option (match_value k) (map_of results' k)"
    and "map_of (processed_analysis fo') ''software_components'' \<noteq> None"
proof -
  let ?fo1 = "yara_process_object ''software_components'' (Some out) fo"
  obtain r0 rs where rs: "results = r0 # rs" using assms(3) by (cases results) auto
  from assms(1,2) obtain results' summary where *: "add_version_information W ?fo1 results = Inr results'"
      "software_get_summary results' = Inr summary"
      "add_os_key sha p W summary (?fo1\<lparr>processed_analysis := dput ''software_components''
              (dput ''summary'' (PList (map PStr summary)) (yara_result_value results')) (processed_analysis ?fo1)\<rparr>) = Inr fo'"
    by (auto simp: software_process_object_def Let_def rs result_simps)
  have tags: "only_tags (?fo1\<lparr>processed_analysis := dput ''software_components''
              (dput ''summary'' (PList (map PStr summary)) (yara_result_value results')) (processed_analysis ?fo1)\<rparr>) fo'"
    using *(3) unfolding add_os_key_def by (rule only_tags_fold) (rule only_tags_os)
  show ?thesis
    by (rule that[OF *(1) _ *(2)]) (use tags in \<open>auto simp: only_tags_def result_item_def yara_value_get yara_process_object_def Let_def\<close>)
qed

text \<open>The versions of a component without a format string are those of its matched strings; the
  empty one only counts when it is the only one.\<close>

lemma component_versions:
  assumes "get_version_for_component W fo m = Inr m'" and "\<not> truthy_meta (dget (ym_meta m) ''format_string'')"
  obtains vs where "dget (ym_meta m') ''version'' = Some (PList (map PStr vs))"
    and "\<And>v. v \<noteq> [] \<Longrightarrow> v \<in> set vs \<longleftrightarrow> (\<exists>off tag text. (off, tag, text) \<in> set (ym_strings m) \<and> get_version W text (ym_meta m) = Inr v)"
    and "\<And>k. k \<noteq> ''version'' \<Longrightarrow> dget (ym_meta m') k = dget (ym_meta m) k"
proof -
  from assms obtain found where found: "mapM_r (\<lambda>(_, _, text). get_version W text (ym_meta m)) (ym_strings m) = Inr found"
    and m': "m' = m\<lparr>ym_meta := dput ''version'' (PList (map PStr (if [] \<in> set (py_set found) \<and> 1 < length (py_set found)
        then filter (\<lambda>v. v \<noteq> []) (py_set found) else py_set found))) (ym_meta m)\<rparr>"
    by (auto simp: get_version_for_component_def result_simps Let_def)
  have "set found = {v. \<exists>off tag text. (off, tag, text) \<in> set (ym_strings m) \<and> get_version W text (ym_meta m) = Inr v}"
    using found unfolding mapM_r_Inr_list_all2
    by (induction rule: list_all2_induct) auto
  moreover define vs where "vs = (if [] \<in> set (py_set found) \<and> 1 < length (py_set found)
        then filter (\<lambda>v. v \<noteq> []) (py_set found) else py_set found)"
  ultimately have *: "v \<in> set vs \<longleftrightarrow> (\<exists>off tag text. (off, tag, text) \<in> set (ym_strings m) \<and> get_version W text (ym_meta m) = Inr v)"
    if "v \<noteq> []" for v using that by simp
  from m' have A: "dget (ym_meta m') ''version'' = Some (PList (map PStr vs))" by (simp add: vs_def)
  from m' have C: "dget (ym_meta m') k = dget (ym_meta m) k" if "k \<noteq> ''version''" for k using that by simp
  show ?thesis by (rule that[of vs, OF A * C])
qed

text \<open>The words of a component and its version are put together and taken apart again.\<close>

lemma split_ws_aux_word:
  "list_all (\<lambda>c. \<not> PyRegex.is_space c) w \<Longrightarrow> split_ws_aux acc (w @ s) = split_ws_aux (rev w @ acc) s"
  by (induction w arbitrary: acc) auto

lemma split_ws_words:
  "list_all (\<lambda>w. w \<noteq> [] \<and> list_all (\<lambda>c. \<not> PyRegex.is_space c) w) ws \<Longrightarrow> split_ws (join_with '' '' ws) = ws"
proof (induction ws rule: induct_list012)
  case 1
  then show ?case by (simp add: split_ws_def)
next
  case (2 w)
  then show ?case using split_ws_aux_word[of w "[]" "[]"] by (simp add: split_ws_def)
next
  case (3 w w' ws)
  have blank: "PyRegex.is_space CHR '' ''" by (simp add: PyRegex.is_space_def)
  from 3 show ?case
    using split_ws_aux_word[of w "[]" "'' '' @ join_with '' '' (w' # ws)"] by (simp add: split_ws_def blank)
qed

definition words :: "string list \<Rightarrow> bool" where
  "words ws \<longleftrightarrow> ws \<noteq> [] \<and> list_all (\<lambda>w. w \<noteq> [] \<and> list_all (\<lambda>c. \<not> PyRegex.is_space c) w) ws"

lemma split_component_words:
  assumes "words ws" "words [v]"
  shows "split_component (join_with '' '' ws @ '' '' @ v) = Inr (join_with '' '' ws, v)"
proof -
  have "join_with '' '' (ws @ [v]) = join_with '' '' ws @ '' '' @ v"
    using assms by (induction ws rule: induct_list012) (auto simp: words_def)
  then have "split_ws (join_with '' '' ws @ '' '' @ v) = ws @ [v]"
    using split_ws_words[of "ws @ [v]"] assms by (simp add: words_def)
  moreover obtain x y zs where "ws @ [v] = x # y # zs" using assms(1) by (cases ws) (auto simp: words_def, metis append_is_Nil_conv list.exhaust not_Cons_self2)
  ultimately show ?thesis unfolding split_component_def by (metis (no_types, lifting) butlast_snoc last_snoc list.simps(5))
qed

lemma mapM_r_mem: "mapM_r f xs = Inr ys \<Longrightarrow> x \<in> set xs \<Longrightarrow> \<exists>y \<in> set ys. f x = Inr y"
  by (induction xs arbitrary: ys) (auto simp: result_simps)

lemma software_component_stored:
  assumes "software_process_object sha p W (Some out) fo = Inr fo'"
    and "parse_yara_output out = Inr results" "map_of results rule = Some m"
  obtains m' results' summary fo1 where "get_version_for_component W fo1 m = Inr m'" "map_of results' rule = Some m'"
    and "add_version_information W fo1 results = Inr results'" "software_get_summary results' = Inr summary"
    and "result_item fo' ''software_components'' ''summary'' = Some (PList (map PStr summary))"
proof -
  have ne: "results \<noteq> []" using assms(3) by auto
  obtain fo1 results' summary where *: "add_version_information W fo1 results = Inr results'"
    "software_get_summary results' = Inr summary"
    "result_item fo' ''software_components'' ''summary'' = Some (PList (map PStr summary))"
    using software_stored[OF assms(1,2) ne] by metis
  have "(rule, m) \<in> set results" using assms(3) by (rule map_of_SomeD)
  from mapM_r_mem[OF *(1)[unfolded add_version_information_def] this]
  obtain m' where m': "get_version_for_component W fo1 m = Inr m'" by (auto simp: map_r_Inr_iff)
  with mapM_r_pairs[OF *(1)[unfolded add_version_information_def], of rule m'] assms(3) have "map_of results' rule = Some m'" by auto
  with m' * show ?thesis by (intro that) auto
qed


text \<open>A component whose name has two words and of which no version is found is looked up as the
  first word in a version that is the second word.\<close>

lemma unversioned_component_misread:
  assumes "words [a]" "words [b]"
  shows "split_component (join_with '' '' [a, b] @ '' '' @ []) = Inr (a, b)"
proof -
  have blank: "PyRegex.is_space CHR '' ''" by (simp add: PyRegex.is_space_def)
  have "split_ws (a @ '' '' @ b @ '' '') = [a, b]"
    using assms split_ws_aux_word[of a "[]" "'' '' @ b @ '' ''"] split_ws_aux_word[of b "[]" "'' ''"]
    by (simp add: split_ws_def words_def blank)
  then show ?thesis by (simp add: split_component_def)
qed

section \<open>When a known vulnerability is reported\<close>

text \<open>The OpenSSL entry of the software components, and the versions the rule compares.\<close>

lemma heartbleed_path: "split_on (CHR ''.'') ''software_components.OpenSSL.meta.version'' =
    [''software_components'', ''OpenSSL'', ''meta'', ''version'']"
  by code_simp

lemma evaluate_heartbleed:
  assumes "result_item fo ''software_components'' ''OpenSSL'' = map_option (match_value ''OpenSSL'') entry"
    and "\<forall>m. entry = Some m \<longrightarrow> dget (ym_meta m) ''version'' = Some (PList (map PStr (vs m)))"
    and "map_of pa ''software_components'' = map_of (processed_analysis fo) ''software_components''"
  shows "evaluate same (analysis_value pa) (SingleRule heartbleed_rule) =
    Inr (\<exists>m v. entry = Some m \<and> v \<in> set (vs m) \<and> v \<in> {''1.0.1a'', ''1.0.1b'', ''1.0.1c'', ''1.0.1d'', ''1.0.1e''})"
proof -
  let ?found = "get_dotted_path_from_dictionary (analysis_value pa) ''software_components.OpenSSL.meta.version''"
  have found_entry: "?found = (case entry of None \<Rightarrow> Inl KeyError | Some m \<Rightarrow> Inr (PList (map PStr (vs m))))"
    using assms by (auto simp: get_dotted_path_from_dictionary_def heartbleed_path analysis_value_def map_of_map dlookup_def
        result_item_def match_value_def split: option.splits)
  have strings: "py_eq (PStr a) (PStr b) \<longleftrightarrow> a = b" for a b by (simp add: py_eq_def num_of_def)
  show ?thesis
  proof (cases entry)
    case None
    with found_entry show ?thesis
      by (simp add: evaluate_def evaluate_single_rule_def heartbleed_rule_def no_key_error_def)
  next
    case (Some m)
    with found_entry show ?thesis
      by (auto simp: evaluate_def evaluate_single_rule_def heartbleed_rule_def no_key_error_def is_list_def
          apply_relation_def set_elems_def list_all_iff strings)
  qed
qed

text \<open>OpenSSL 1.0.1 and 1.0.1f are not reported.\<close>

lemma heartbleed_versions:
  assumes "result_item fo ''software_components'' ''OpenSSL'' = Some (match_value ''OpenSSL'' m)"
    and "dget (ym_meta m) ''version'' = Some (PList (map PStr vs))" "set vs \<subseteq> {''1.0.1'', ''1.0.1f''}"
    and "map_of pa ''software_components'' = map_of (processed_analysis fo) ''software_components''"
  shows "evaluate same (analysis_value pa) (SingleRule heartbleed_rule) = Inr False"
proof -
  have "evaluate same (analysis_value pa) (SingleRule heartbleed_rule) =
      Inr (\<exists>m' v. Some m = Some m' \<and> v \<in> set vs \<and> v \<in> {''1.0.1a'', ''1.0.1b'', ''1.0.1c'', ''1.0.1d'', ''1.0.1e''})"
    by (rule evaluate_heartbleed[where vs = "\<lambda>_. vs"]) (use assms in auto)
  with assms(3) show ?thesis by auto
qed

lemma mapM_r_names:
  "mapM_r f xs = Inr ys \<Longrightarrow> (\<And>x y. f x = Inr y \<Longrightarrow> fst y = fst x) \<Longrightarrow> map fst ys = map fst xs"
  by (induction xs arbitrary: ys) (auto simp: result_simps)

lemma yara_meta_name: "yara_meta x = Inr y \<Longrightarrow> fst y = fst x"
  by (auto simp: yara_meta_def bind_r_def split: prod.splits pyval.splits sum.splits)

lemma known_vulnerabilities_stored:
  assumes "known_vulnerabilities_process_object sha q same ghidra (Some vout) fo = Inr fo'"
    and "parse_yara_output vout = Inr rv"
  obtains pa binary_found mvs netusb where "check_vulnerabilities same pa = Inr mvs"
    and "\<forall>n. n \<noteq> ''known_vulnerabilities'' \<longrightarrow> map_of pa n = map_of (processed_analysis fo) n"
    and "set (map fst binary_found) \<subseteq> set (dkeys rv)" and "set (map fst netusb) \<subseteq> {''CVE-2021-45608''}"
    and "result_item fo' ''known_vulnerabilities'' ''summary'' = Some (PList (map (PStr \<circ> fst) (binary_found @ mvs @ netusb)))"
proof -
  let ?n = "''known_vulnerabilities''"
  let ?fo1 = "yara_process_object ?n (Some vout) fo"
  let ?pa = "dput ?n [] (ddel ?n (processed_analysis ?fo1))"
  from assms obtain bv mv nv where *: "post_process_yara_results (yara_result_value rv) = Inr bv"
    "check_vulnerabilities same ?pa = Inr mv"
    "(if (case dget ?pa ''software_components'' of None \<Rightarrow> False | Some sc \<Rightarrow> dmem ''NetUSB'' sc)
      then check_netusb_vulnerability ghidra (binary fo) else Inr []) = Inr nv"
    "foldM_r (vulnerability_tag sha q) (bv @ mv @ nv) (?fo1\<lparr>processed_analysis := dput ?n
        (dput ''summary'' (PList (map (\<lambda>(n, _). PStr n) (bv @ mv @ nv))) (fold (\<lambda>(n, v). dput n (PDict v)) (bv @ mv @ nv) [])) ?pa\<rparr>) = Inr fo'"
    by (auto simp: known_vulnerabilities_process_object_def Let_def result_simps yara_process_object_def)
  have names: "map fst bv = map fst (ddel ''summary'' (yara_result_value rv))"
  proof (rule mapM_r_names)
    show "mapM_r yara_meta (ddel ''summary'' (yara_result_value rv)) = Inr bv"
      using *(1) by (auto simp: post_process_yara_results_def result_simps)
    show "fst y = fst x" if "yara_meta x = Inr y" for x y
      by (rule yara_meta_name[OF that])
  qed
  have "set (map fst (ddel ''summary'' (yara_result_value rv))) = set (dkeys (yara_result_value rv)) - {''summary''}"
    by (metis dkeys_def set_dkeys_ddel)
  also have "\<dots> \<subseteq> set (dkeys rv)"
    by (auto simp: yara_result_value_def) (force simp: dkeys_def)
  finally have "set (map fst bv) \<subseteq> set (dkeys rv)" by (simp add: names)
  moreover have "set (map fst nv) \<subseteq> {''CVE-2021-45608''}"
    using *(3) by (auto simp: check_netusb_vulnerability_def result_simps split: if_splits option.splits)
  moreover have "result_item fo' ?n ''summary'' = Some (PList (map (PStr \<circ> fst) (bv @ mv @ nv)))"
    using only_tags_fold[OF *(4) only_tags_vulnerability]
    by (auto simp: only_tags_def result_item_def comp_def split_def)
  moreover have "\<forall>n. n \<noteq> ?n \<longrightarrow> map_of ?pa n = map_of (processed_analysis fo) n"
    by (simp add: yara_process_object_def Let_def)
  ultimately show ?thesis using *(2) by (intro that)
qed

lemma Heartbleed_matched:
  assumes "check_vulnerabilities same pa = Inr mvs"
    and "evaluate same (analysis_value pa) (SingleRule heartbleed_rule) = Inr b"
  shows "''Heartbleed'' \<in> fst ` set mvs \<longleftrightarrow> b"
  using assms by (auto simp: check_vulnerabilities_def vulnerabilities_def result_simps split: if_splits)

lemma openssl_entry:
  assumes "software_process_object sha p W (Some out) fo = Inr fo1" "parse_yara_output out = Inr results"
    and "\<forall>m. map_of results ''OpenSSL'' = Some m \<longrightarrow> \<not> truthy_meta (dget (ym_meta m) ''format_string'')"
  shows "\<exists>entry vs. result_item fo1 ''software_components'' ''OpenSSL'' = map_option (match_value ''OpenSSL'') entry \<and>
     (\<forall>m. entry = Some m \<longrightarrow> dget (ym_meta m) ''version'' = Some (PList (map PStr (vs m)))) \<and>
     (\<forall>P. P [] \<longrightarrow> (\<exists>m v. entry = Some m \<and> v \<in> set (vs m) \<and> \<not> P v) \<longleftrightarrow>
        (\<exists>m off tag text v. map_of results ''OpenSSL'' = Some m \<and> (off, tag, text) \<in> set (ym_strings m) \<and>
          get_version W text (ym_meta m) = Inr v \<and> \<not> P v))"
proof (cases "results = []")
  case True
  with assms(1,2) have "fo1 = yara_process_object ''software_components'' (Some out) fo"
    by (simp add: software_process_object_def Let_def)
  with assms(2) True show ?thesis
    by (intro exI[of _ None]) (auto simp: result_item_def yara_process_object_def yara_result_value_def)
next
  case False
  obtain fa results' where *: "add_version_information W fa results = Inr results'"
    "\<And>k. k \<notin> {''summary'', ''tags''} \<Longrightarrow> result_item fo1 ''software_components'' k = map_option (match_value k) (map_of results' k)"
    using software_stored[OF assms(1,2) False] by metis
  have item: "map_of results' ''OpenSSL'' = Some m' \<longleftrightarrow>
      (\<exists>m. map_of results ''OpenSSL'' = Some m \<and> get_version_for_component W fa m = Inr m')" for m'
    using mapM_r_pairs[OF *(1)[unfolded add_version_information_def], of "''OpenSSL''" m'] by simp
  show ?thesis
  proof (cases "map_of results' ''OpenSSL''")
    case None
    have "map_of results ''OpenSSL'' = None"
      using mapM_r_pairs[OF *(1)[unfolded add_version_information_def]] None by (metis dkeys_def list.set_map map_of_eq_None_iff)
    with None *(2)[of "''OpenSSL''"] show ?thesis by (intro exI[of _ None]) auto
  next
    case (Some m')
    with item obtain m where m: "map_of results ''OpenSSL'' = Some m" "get_version_for_component W fa m = Inr m'" by blast
    obtain ws where ws: "dget (ym_meta m') ''version'' = Some (PList (map PStr ws))"
      "\<And>v. v \<noteq> [] \<Longrightarrow> v \<in> set ws \<longleftrightarrow> (\<exists>off tag text. (off, tag, text) \<in> set (ym_strings m) \<and> get_version W text (ym_meta m) = Inr v)"
      using component_versions[OF m(2) assms(3)[rule_format, OF m(1)]] by metis
    have "(\<exists>v \<in> set ws. \<not> P v) \<longleftrightarrow> (\<exists>off tag text v. (off, tag, text) \<in> set (ym_strings m) \<and>
        get_version W text (ym_meta m) = Inr v \<and> \<not> P v)" (is "?L \<longleftrightarrow> ?R") if "P []" for P
    proof
      assume ?L
      then obtain v where v: "v \<in> set ws" "\<not> P v" by blast
      with that have "v \<noteq> []" by auto
      with ws(2) v show ?R by blast
    next
      assume ?R
      then obtain off tag t v where v: "(off, tag, t) \<in> set (ym_strings m)" "get_version W t (ym_meta m) = Inr v" "\<not> P v"
        by blast
      with that have "v \<noteq> []" by auto
      with ws(2) v show ?L by blast
    qed
    with *(2)[of "''OpenSSL''"] Some ws(1) m(1) show ?thesis
      by (intro exI[of _ "Some m'"] exI[of _ "\<lambda>_. ws"]) (simp add: Bex_def)
  qed
qed

lemma summary_names:
  assumes "result_item fo n ''summary'' = Some (PList (map (PStr \<circ> fst) vs))"
  shows "(\<exists>kv xs. map_of (processed_analysis fo) n = Some kv \<and> map_of kv ''summary'' = Some (PList xs) \<and> PStr k \<in> set xs) \<longleftrightarrow>
    k \<in> fst ` set vs"
proof -
  obtain kv where "map_of (processed_analysis fo) n = Some kv" "map_of kv ''summary'' = Some (PList (map (PStr \<circ> fst) vs))"
    using assms by (auto simp: result_item_def split: option.splits)
  then show ?thesis by (auto simp: image_iff)
qed

text \<open>C38: The chain from the signatures to a warning is exact: for a file in which software was
  detected, the known vulnerabilities name Heartbleed exactly when a text matched by the OpenSSL
  signature contains one of the versions 1.0.1a to 1.0.1e (and no signature of that name of the
  vulnerabilities themselves matched).\<close>

theorem heartbleed_reported_iff:
  assumes detected: "software_process_object sha p W (Some out) fo = Inr fo1" "parse_yara_output out = Inr results"
    and no_format_string: "\<forall>m. map_of results ''OpenSSL'' = Some m \<longrightarrow> \<not> truthy_meta (dget (ym_meta m) ''format_string'')"
    and known: "known_vulnerabilities_process_object sha q same ghidra (Some vout) fo1 = Inr fo2" "parse_yara_output vout = Inr rv"
    and signatures: "''Heartbleed'' \<notin> set (dkeys rv)"
  shows "(\<exists>kv xs. map_of (processed_analysis fo2) ''known_vulnerabilities'' = Some kv \<and>
        map_of kv ''summary'' = Some (PList xs) \<and> PStr ''Heartbleed'' \<in> set xs) \<longleftrightarrow>
     (\<exists>m off tag text v. map_of results ''OpenSSL'' = Some m \<and> (off, tag, text) \<in> set (ym_strings m) \<and>
        get_version W text (ym_meta m) = Inr v \<and> v \<in> {''1.0.1a'', ''1.0.1b'', ''1.0.1c'', ''1.0.1d'', ''1.0.1e''})"
    (is "?reported \<longleftrightarrow> ?vulnerable")
proof -
  obtain entry vs where entry: "result_item fo1 ''software_components'' ''OpenSSL'' = map_option (match_value ''OpenSSL'') entry"
    and vs: "\<forall>m. entry = Some m \<longrightarrow> dget (ym_meta m) ''version'' = Some (PList (map PStr (vs m)))"
    and vuln: "(\<exists>m v. entry = Some m \<and> v \<in> set (vs m) \<and> v \<in> {''1.0.1a'', ''1.0.1b'', ''1.0.1c'', ''1.0.1d'', ''1.0.1e''}) \<longleftrightarrow> ?vulnerable"
  proof -
    from openssl_entry[OF detected no_format_string] obtain entry vs where
      *: "result_item fo1 ''software_components'' ''OpenSSL'' = map_option (match_value ''OpenSSL'') entry"
        "\<forall>m. entry = Some m \<longrightarrow> dget (ym_meta m) ''version'' = Some (PList (map PStr (vs m)))"
      and all: "\<forall>P. P [] \<longrightarrow> (\<exists>m v. entry = Some m \<and> v \<in> set (vs m) \<and> \<not> P v) \<longleftrightarrow>
        (\<exists>m off tag text v. map_of results ''OpenSSL'' = Some m \<and> (off, tag, text) \<in> set (ym_strings m) \<and>
          get_version W text (ym_meta m) = Inr v \<and> \<not> P v)"
      by (elim exE conjE) (rule that, assumption+)
    define HB where "HB = {''1.0.1a'', ''1.0.1b'', ''1.0.1c'', ''1.0.1d'', ''1.0.1e''}"
    have "[] \<notin> HB" by (simp add: HB_def)
    with all[rule_format, of "\<lambda>v. v \<notin> HB"] have
      "(\<exists>m v. entry = Some m \<and> v \<in> set (vs m) \<and> v \<in> HB) \<longleftrightarrow>
        (\<exists>m off tag text v. map_of results ''OpenSSL'' = Some m \<and> (off, tag, text) \<in> set (ym_strings m) \<and>
          get_version W text (ym_meta m) = Inr v \<and> v \<in> HB)" by simp
    then have "(\<exists>m v. entry = Some m \<and> v \<in> set (vs m) \<and> v \<in> {''1.0.1a'', ''1.0.1b'', ''1.0.1c'', ''1.0.1d'', ''1.0.1e''}) \<longleftrightarrow> ?vulnerable"
      unfolding HB_def .
    then show ?thesis by (rule that[OF *(1) *(2)])
  qed
  obtain pa bv mv nv where mv: "check_vulnerabilities same pa = Inr mv"
    and pa: "\<forall>n. n \<noteq> ''known_vulnerabilities'' \<longrightarrow> map_of pa n = map_of (processed_analysis fo1) n"
    and bv: "set (map fst bv) \<subseteq> set (dkeys rv)" and nv: "set (map fst nv) \<subseteq> {''CVE-2021-45608''}"
    and stored: "result_item fo2 ''known_vulnerabilities'' ''summary'' = Some (PList (map (PStr \<circ> fst) (bv @ mv @ nv)))"
    by (rule known_vulnerabilities_stored[OF known])
  have pa_sc: "map_of pa ''software_components'' = map_of (processed_analysis fo1) ''software_components''" using pa by simp
  have monitored: "''Heartbleed'' \<in> fst ` set mv \<longleftrightarrow> ?vulnerable"
    unfolding Heartbleed_matched[OF mv evaluate_heartbleed[OF entry vs pa_sc]] by (rule vuln)
  have summary: "?reported \<longleftrightarrow> ''Heartbleed'' \<in> fst ` set (bv @ mv @ nv)"
    by (rule summary_names[OF stored])
  have others: "''Heartbleed'' \<notin> fst ` set bv" "''Heartbleed'' \<notin> fst ` set nv" using bv nv signatures by auto
  show ?thesis unfolding summary monitored[symmetric] using others by (simp add: image_Un)
qed

section \<open>Examples\<close>

text \<open>An example: YARA finds OpenSSL 1.0.1e in a file.\<close>

definition ex_openssl_out :: string where
  "ex_openssl_out = ''OpenSSL [software_name='' @ [CHR 0x22] @ ''OpenSSL'' @ [CHR 0x22] @ '',open_source=true] /tmp/x'' @
     [CHR 0x0A] @ ''0x1f:$a: OpenSSL 1.0.1e'' @ [CHR 0x0A]"

definition ex_openssl_match :: yara_match where
  "ex_openssl_match = \<lparr>ym_strings = [(31, ''$a'', ''OpenSSL 1.0.1e'')],
     ym_meta = [(''software_name'', PStr ''OpenSSL''), (''open_source'', PBool True)]\<rparr>"

definition ex_software_env :: software_env where
  "ex_software_env = \<lparr>sw_search = (\<lambda>_ _. Inr None), sw_ghidra = (\<lambda>_ _. None), sw_os_list = [''Linux'']\<rparr>"

definition ex_yara_plugin :: "string \<Rightarrow> plugin" where
  "ex_yara_plugin n = (ex_plugin [])\<lparr>p_name := Some n\<rparr>"

lemma ex_openssl_parsed: "parse_yara_output ex_openssl_out = Inr [(''OpenSSL'', ex_openssl_match)]"
  by code_simp

lemma ex_openssl_version: "get_version ex_software_env ''OpenSSL 1.0.1e'' (ym_meta ex_openssl_match) = Inr ''1.0.1e''"
  by code_simp

definition ex_versioned :: yara_match where
  "ex_versioned = ex_openssl_match\<lparr>ym_meta := ym_meta ex_openssl_match @ [(''version'', PList [PStr ''1.0.1e''])]\<rparr>"

definition ex_software_result :: analysis_result where
  "ex_software_result = dput ''summary'' (PList [PStr ''OpenSSL 1.0.1e'']) (yara_result_value [(''OpenSSL'', ex_versioned)])"

definition ex_detected :: file_object where
  "ex_detected = (blank_fo None)\<lparr>processed_analysis := [(''software_components'', ex_software_result)]\<rparr>"

lemma ex_version_added: "get_version_for_component ex_software_env fo ex_openssl_match = Inr ex_versioned"
proof -
  have "\<not> truthy_meta (dget (ym_meta ex_openssl_match) ''format_string'')" by (simp add: truthy_meta_def ex_openssl_match_def)
  moreover have "ym_strings ex_openssl_match = [(31, ''$a'', ''OpenSSL 1.0.1e'')]" by (simp add: ex_openssl_match_def)
  moreover have "py_set [''1.0.1e''] = [''1.0.1e'']" by code_simp
  ultimately show ?thesis using ex_openssl_version
    by (simp add: get_version_for_component_def ex_versioned_def) (simp add: ex_openssl_match_def)
qed

lemma ex_summary: "software_get_summary [(''OpenSSL'', ex_versioned)] = Inr [''OpenSSL 1.0.1e'']"
  by (simp add: software_get_summary_def component_entries_def dlookup_def ex_versioned_def ex_openssl_match_def meta_text_def)

lemma ex_os_key: "add_os_key sha p ex_software_env [''OpenSSL 1.0.1e''] fo = Inr fo"
proof -
  have "\<not> substr_in ''Linux'' ''OpenSSL 1.0.1e''" by code_simp
  then show ?thesis by (simp add: add_os_key_def ex_software_env_def os_tags_def)
qed

lemma ex_software_processed:
  "software_process_object (\<lambda>_. []) (ex_yara_plugin ''software_components'') ex_software_env (Some ex_openssl_out) (blank_fo None) =
     Inr ex_detected"
  by (simp add: software_process_object_def ex_openssl_parsed Let_def add_version_information_def ex_version_added
     ex_summary ex_os_key ex_detected_def ex_software_result_def yara_process_object_def blank_fo_def)


lemma ex_nothing_parsed: "parse_yara_output [] = Inr []"
  by code_simp

definition ex_known :: file_object where
  "ex_known = (case known_vulnerabilities_process_object (\<lambda>_. []) (ex_yara_plugin ''known_vulnerabilities'') (=) (\<lambda>_. None) (Some [])
     ex_detected of Inr fo \<Rightarrow> fo | Inl _ \<Rightarrow> ex_detected)"

lemma ex_known_processed:
  "known_vulnerabilities_process_object (\<lambda>_. []) (ex_yara_plugin ''known_vulnerabilities'') (=) (\<lambda>_. None) (Some []) ex_detected =
     Inr ex_known"
proof -
  let ?pa = "[(''software_components'', ex_software_result), (''known_vulnerabilities'', [])]"
  have stored: "map_of ex_software_result ''OpenSSL'' = Some (match_value ''OpenSSL'' ex_versioned)" "map_of ex_software_result ''NetUSB'' = None"
    by (simp_all add: ex_software_result_def yara_result_value_def)
  have version: "dget (ym_meta ex_versioned) ''version'' = Some (PList (map PStr [''1.0.1e'']))"
    by (simp add: ex_versioned_def ex_openssl_match_def)
  have heartbleed: "evaluate (=) (analysis_value ?pa) (SingleRule heartbleed_rule) = Inr True"
    by (subst evaluate_heartbleed[of ex_detected "Some ex_versioned" "\<lambda>_. [''1.0.1e'']"])
      (simp_all add: result_item_def ex_detected_def stored version)
  have netgear: "evaluate (=) (analysis_value ?pa) (SingleRule netgear_cgi_rule) = Inr False"
  proof -
    have "split_on (CHR ''.'') ''file_hashes.sha256'' = [''file_hashes'', ''sha256'']" by code_simp
    then show ?thesis by (simp add: evaluate_def evaluate_single_rule_def netgear_cgi_rule_def no_key_error_def
        get_dotted_path_from_dictionary_def analysis_value_def dlookup_def)
  qed
  have "case known_vulnerabilities_process_object (\<lambda>_. []) (ex_yara_plugin ''known_vulnerabilities'') (=) (\<lambda>_. None) (Some []) ex_detected
      of Inl _ \<Rightarrow> False | Inr _ \<Rightarrow> True"
    using heartbleed netgear stored(2)
    by (simp add: known_vulnerabilities_process_object_def Let_def yara_process_object_def ex_nothing_parsed yara_result_value_def
        ex_detected_def blank_fo_def dlookup_def post_process_yara_results_def check_vulnerabilities_def vulnerabilities_def
        vulnerability_dict_def vulnerability_tag_def add_analysis_tag_def ex_yara_plugin_def dmem_def)
  then show ?thesis by (auto simp: ex_known_def split: sum.splits)
qed

theorem heartbleed_reported_iff_witness:
  "\<exists>kv xs. map_of (processed_analysis ex_known) ''known_vulnerabilities'' = Some kv \<and>
     map_of kv ''summary'' = Some (PList xs) \<and> PStr ''Heartbleed'' \<in> set xs"
proof -
  have "\<forall>m. map_of [(''OpenSSL'', ex_openssl_match)] ''OpenSSL'' = Some m \<longrightarrow> \<not> truthy_meta (dget (ym_meta m) ''format_string'')"
    by (simp add: ex_openssl_match_def truthy_meta_def)
  from heartbleed_reported_iff[OF ex_software_processed ex_openssl_parsed this ex_known_processed ex_nothing_parsed]
    ex_openssl_version
  show ?thesis by (simp add: ex_openssl_match_def)
qed

end
