(* ===== verification/PageRoutes.thy ===== *)
theory PageRoutes
  imports SearchRoutes
begin

text \<open>
  The pages of an analysis and of comparisons: \<open>web_interface/components/analysis_routes.py\<close>,
  \<open>compare_routes.py\<close>, \<open>dependency_graph.py\<close> and \<open>miscellaneous_routes.py\<close>, the comments of
  \<open>storage/db_interface_frontend_editing.py\<close> and the views of plugins
  (\<open>storage/db_interface_view_sync.py\<close>). A handler maps the session of the browser, the database
  and the queues of Redis to the data of the page it renders and to their new values. What a
  template makes of the data is not modelled.
\<close>

section \<open>The comparison basket\<close>

text \<open>
  \<open>session['uids_for_comparison']\<close>: a dict from UIDs to root UIDs, or (\<open>None\<close>) missing or no dict.
  Reading it replaces the latter by an empty dict.
\<close>

type_synonym basket = "(string, string option) dict option"

definition get_comparison_uid_dict_from_session :: "basket \<Rightarrow> (string, string option) dict" where
  "get_comparison_uid_dict_from_session session = (case session of None \<Rightarrow> [] | Some d \<Rightarrow> d)"

text \<open>The pages that are shown after a change of the basket are those of an analysis.\<close>

definition add_to_compare_basket :: "string \<Rightarrow> string option \<Rightarrow> basket \<Rightarrow> basket" where
  "add_to_compare_basket u rt session = Some (dput u rt (get_comparison_uid_dict_from_session session))"

definition remove_from_compare_basket :: "string \<Rightarrow> basket \<Rightarrow> basket" where
  "remove_from_compare_basket compare_uid session =
     (let compare_uid_list = get_comparison_uid_dict_from_session session in
      if dmem compare_uid compare_uid_list then Some (ddel compare_uid compare_uid_list) else Some compare_uid_list)"

definition remove_all_from_compare_basket :: "basket \<Rightarrow> basket" where
  "remove_all_from_compare_basket session = Some []"

section \<open>Comparisons\<close>

datatype compare_page =
    CompareError string
  | CompareWait string
  | ToComparison string
  | ToTextComparison string string "string option" "string option"

text \<open>
  \<open>start_compare\<close>: the page, the basket and the queue (the outer option is a Redis loop that
  does not end). \<open>force_recompare\<close> is any nonempty argument.
\<close>

definition start_compare ::
  "net \<Rightarrow> db \<Rightarrow> request_args \<Rightarrow> basket \<Rightarrow> redis_state \<Rightarrow> (compare_page \<times> basket \<times> redis_state) option" where
  "start_compare N d args session st =
     (let uid_dict = get_comparison_uid_dict_from_session session in
      if length uid_dict < 2 then Some (CompareError ''No UIDs found for comparison'', Some uid_dict, st)
      else let comparison_id = convert_uid_list_to_compare_id (dkeys uid_dict);
               redo = (case dget args ''force_recompare'' of None \<Rightarrow> False | Some s \<Rightarrow> s \<noteq> [])
           in if \<not> objects_exist d comparison_id then Some (CompareError ''Not all UIDs found in the DB'', None, st)
              else if \<not> redo \<and> comparison_exists d comparison_id then Some (ToComparison comparison_id, None, st)
              else map_option (\<lambda>st1. (CompareWait comparison_id, None, st1)) (add_compare_task N comparison_id redo st))"

text \<open>\<open>_fill_in_empty_fields\<close>: a UID without a value gets the empty text.\<close>

definition fill_in_feature :: "string list \<Rightarrow> string \<times> pyval \<Rightarrow> (string \<times> pyval) result" where
  "fill_in_feature uids kv = (case kv of
      (key, PDict content) \<Rightarrow>
        Inr (key, PDict (fold (\<lambda>u content. if dmem u content then content else dput u (PStr []) content) uids content))
    | _ \<Rightarrow> Inl TypeError)"

definition fill_in_empty_fields :: "(string, pyval) dict \<Rightarrow> string \<Rightarrow> (string, pyval) dict result" where
  "fill_in_empty_fields res compare_id =
     bind_r (dlookup res ''general'') (\<lambda>general. case general of
       PDict g \<Rightarrow> map_r (\<lambda>g'. dput ''general'' (PDict g') res) (mapM_r (fill_in_feature (split_on (CHR '';'') compare_id)) g)
     | _ \<Rightarrow> Inl TypeError)"

text \<open>The stored views of the plugins (\<open>ViewUpdater\<close>, \<open>ViewReader\<close>).\<close>

definition update_view :: "string \<Rightarrow> bytes \<Rightarrow> (string, bytes) dict \<Rightarrow> (string, bytes) dict" where
  "update_view plugin_name content templates = dput plugin_name content templates"

definition get_view :: "(string, bytes) dict \<Rightarrow> string \<Rightarrow> bytes option" where
  "get_view templates plugin_name = dget templates plugin_name"

text \<open>A result without plugins has no views; an empty view counts as none.\<close>

definition get_compare_plugin_views ::
  "(string, bytes) dict \<Rightarrow> (string, pyval) dict \<Rightarrow> ((string \<times> bytes) list \<times> string list) result" where
  "get_compare_plugin_views templates compare_result = (case dget compare_result ''plugins'' of
      None \<Rightarrow> Inr ([], [])
    | Some (PDict ps) \<Rightarrow> Inr (fold (\<lambda>plugin (views, plugins_without_view). case get_view templates plugin of
          Some (b # bs) \<Rightarrow> (views @ [(plugin, b # bs)], plugins_without_view)
        | _ \<Rightarrow> (views, plugins_without_view @ [plugin])) (dkeys ps) ([], []))
    | Some _ \<Rightarrow> Inl AttributeError)"

text \<open>\<open>str.find\<close>.\<close>

fun find_str :: "string \<Rightarrow> string \<Rightarrow> nat option" where
  "find_str key [] = (if key = [] then Some 0 else None)"
| "find_str key (c # cs) = (if prefix key (c # cs) then Some 0 else map_option Suc (find_str key cs))"

definition INSERTION_KEY :: string where
  "INSERTION_KEY = ''{# individual plugin views #}''"

definition insert_plugin_into_view_at_index :: "string \<Rightarrow> string \<Rightarrow> nat \<Rightarrow> string" where
  "insert_plugin_into_view_at_index plugin view index = take index view @ plugin @ drop index view"

definition plugin_case :: "(bytes \<Rightarrow> string) \<Rightarrow> string \<times> bytes \<Rightarrow> string" where
  "plugin_case dec pv = (case pv of (plugin, view) \<Rightarrow>
     ''{% elif plugin == '' @ [CHR 0x27] @ plugin @ [CHR 0x27] @ '' %}'' @ [CHR 0x0A] @ dec view)"

definition add_plugin_views_to_compare_view :: "(bytes \<Rightarrow> string) \<Rightarrow> string \<Rightarrow> (string \<times> bytes) list \<Rightarrow> string" where
  "add_plugin_views_to_compare_view dec compare_view plugin_views = (case find_str INSERTION_KEY compare_view of
      None \<Rightarrow> compare_view
    | Some i \<Rightarrow> fold (\<lambda>pv view. insert_plugin_into_view_at_index (plugin_case dec pv) view (i + length INSERTION_KEY))
        plugin_views compare_view)"

definition create_ida_download_if_existing :: "(string, pyval) dict \<Rightarrow> string \<Rightarrow> string option result" where
  "create_ida_download_if_existing res compare_id =
     (case dget res ''plugins'' of
        None \<Rightarrow> Inr None
      | Some (PDict ps) \<Rightarrow> (case dget ps ''Ida_Diff_Highlighting'' of
            None \<Rightarrow> Inr None
          | Some (PDict ida) \<Rightarrow> Inr (case dget ida ''idb_binary'' of
                Some v \<Rightarrow> if py_truthy v then Some (''/ida-download/'' @ compare_id) else None | None \<Rightarrow> None)
          | Some _ \<Rightarrow> Inl AttributeError)
      | Some _ \<Rightarrow> Inl AttributeError)"

record comparison_view =
  cv_template :: string
  cv_result :: "(string, pyval) dict"
  cv_uid_list :: "string list"
  cv_download_link :: "string option"
  cv_plugins_without_view :: "string list"

definition show_compare_result ::
  "(bytes \<Rightarrow> string) \<Rightarrow> string \<Rightarrow> (string, bytes) dict \<Rightarrow> db \<Rightarrow> string \<Rightarrow> (compare_page + comparison_view) result" where
  "show_compare_result dec compare_html templates d compare_id0 =
     (let compare_id = normalize_compare_id compare_id0 in
      if \<not> objects_exist d compare_id then Inr (Inl (CompareError ''Not all UIDs found in the DB''))
      else bind_r (get_comparison_result d compare_id) (\<lambda>r. case r of
          None \<Rightarrow> Inr (Inl (CompareWait compare_id))
        | Some res \<Rightarrow>
            if res = [] then Inr (Inl (CompareWait compare_id))
            else bind_r (create_ida_download_if_existing res compare_id) (\<lambda>link.
              bind_r (get_compare_plugin_views templates res) (\<lambda>(views, plugins_without_view).
              bind_r (fill_in_empty_fields res compare_id) (\<lambda>res1.
                Inr (Inr \<lparr>cv_template = add_plugin_views_to_compare_view dec compare_html views, cv_result = res1,
                  cv_uid_list = convert_compare_id_to_list compare_id, cv_download_link = link,
                  cv_plugins_without_view = plugins_without_view\<rparr>))))))"

text \<open>
  \<open>browse_comparisons\<close>: the page of results (\<open>None\<close> for an error of the database, which refuses a
  negative offset or limit) and their number.
\<close>

definition browse_comparisons ::
  "search_cfg \<Rightarrow> db \<Rightarrow> request_args \<Rightarrow> ((string \<times> pyval \<times> real) list \<times> int \<times> int \<times> nat) option result" where
  "browse_comparisons C d args =
     map_r (\<lambda>(page, per_page, _).
        if per_page * (page - 1) < 0 \<or> per_page < 0 then None
        else (case page_comparison_results d (nat (per_page * (page - 1))) (nat per_page) of
            Inl _ \<Rightarrow> None
          | Inr compare_list \<Rightarrow> Some (compare_list, page, per_page, get_total_number_of_results d)))
       (extract_pagination_from_request C args)"

section \<open>Text files\<close>

definition start_text_file_comparison :: "basket \<Rightarrow> compare_page \<times> basket" where
  "start_text_file_comparison session =
     (let uids_dict = get_comparison_uid_dict_from_session session in
      case uids_dict of
        [(uid_1, root_uid_1), (uid_2, root_uid_2)] \<Rightarrow> (ToTextComparison uid_1 uid_2 root_uid_1 root_uid_2, Some [])
      | _ \<Rightarrow> (CompareError (''Can'' @ [CHR 0x27] @ ''t compare '' @ str_nat (length uids_dict) @
                 '' files. You must select exactly 2 files.''), Some uids_dict))"

record file_diff_data =
  fd_uid :: string
  fd_mime :: pyval
  fd_fw_hid :: string

text \<open>An unknown object is \<open>None\<close>, which has no attributes.\<close>

definition get_data_for_file_diff :: "(bytes \<Rightarrow> string) \<Rightarrow> db \<Rightarrow> string \<Rightarrow> string option \<Rightarrow> file_diff_data result" where
  "get_data_for_file_diff sha d u rt =
     bind_r (get_object d (Some u) None) (\<lambda>fo_opt.
     bind_r (if rt \<in> {None, Some ''None''} then (case fo_opt of None \<Rightarrow> Inl AttributeError | Some fo \<Rightarrow> Inr (get_root_uid sha fo))
             else Inr rt) (\<lambda>r.
     bind_r (get_object d r None) (\<lambda>root_opt.
     bind_r (case root_opt of None \<Rightarrow> Inl AttributeError | Some f \<Rightarrow> get_hid sha None f) (\<lambda>fw_hid.
       case fo_opt of None \<Rightarrow> Inl AttributeError
       | Some fo \<Rightarrow> Inr \<lparr>fd_uid = u, fd_mime = (case dget (processed_analysis fo) ''file_type'' of
             None \<Rightarrow> PNone | Some ft \<Rightarrow> py_get ft ''mime'' PNone), fd_fw_hid = fw_hid\<rparr>))))"

datatype text_page =
    TextError string
  | MissingFileType "string list"
  | NoText pyval pyval
  | TextDiff string string string

definition is_text_mime :: "pyval \<Rightarrow> bool result" where
  "is_text_mime m = (case m of PStr s \<Rightarrow> Inr (startswith s ''text'') | _ \<Rightarrow> Inl AttributeError)"

text \<open>\<open>ask\<close> is the answer of the back end to the request for the difference.\<close>

definition compare_text_files ::
  "(bytes \<Rightarrow> string) \<Rightarrow> db \<Rightarrow> (string \<Rightarrow> string \<Rightarrow> string option) \<Rightarrow> string \<Rightarrow> string \<Rightarrow> string option \<Rightarrow> string option \<Rightarrow> text_page result" where
  "compare_text_files sha d ask uid_1 uid_2 root_uid_1 root_uid_2 =
     bind_r (get_data_for_file_diff sha d uid_1 root_uid_1) (\<lambda>f1.
     bind_r (get_data_for_file_diff sha d uid_2 root_uid_2) (\<lambda>f2.
       let missing_uids = filter (\<lambda>f. fd_mime f = PNone) [f1, f2] in
       if join_with '', '' (map fd_uid missing_uids) \<noteq> [] then Inr (MissingFileType (map fd_uid missing_uids))
       else bind_r (any_r (\<lambda>f. map_r Not (is_text_mime (fd_mime f))) [f1, f2]) (\<lambda>no_text.
         if no_text then Inr (NoText (fd_mime f1) (fd_mime f2))
         else (case ask uid_1 uid_2 of
             None \<Rightarrow> Inr (TextError ''File(s) not found.'')
           | Some diff_str \<Rightarrow> Inr (TextDiff diff_str (fd_fw_hid f1) (fd_fw_hid f2))))))"

section \<open>The page of an analysis\<close>

datatype analysis_template = FailTemplate | UnpackerTemplate | PluginTemplate bytes | GenericTemplate | OverviewTemplate

definition get_analysis_view :: "(string, bytes) dict \<Rightarrow> string \<Rightarrow> analysis_template" where
  "get_analysis_view templates selected_analysis =
     (if selected_analysis = ''unpacker'' then UnpackerTemplate
      else (case get_view templates selected_analysis of Some (b # bs) \<Rightarrow> PluginTemplate (b # bs) | _ \<Rightarrow> GenericTemplate))"

definition get_correct_template :: "(string, bytes) dict \<Rightarrow> string option \<Rightarrow> file_object \<Rightarrow> analysis_template result" where
  "get_correct_template templates selected_analysis fw_object = (case selected_analysis of
      Some (c # cs) \<Rightarrow> bind_r (dlookup (processed_analysis fw_object) (c # cs)) (\<lambda>res.
        Inr (if dmem ''failed'' res then FailTemplate else get_analysis_view templates (c # cs)))
    | _ \<Rightarrow> Inr OverviewTemplate)"

definition get_used_and_unused_plugins :: "(string, analysis_result) dict \<Rightarrow> string list \<Rightarrow> string list \<times> string list" where
  "get_used_and_unused_plugins pa all_plugins =
     (filter (\<lambda>x. \<not> dmem x pa) all_plugins, filter (\<lambda>x. dmem x pa) all_plugins)"

record analysis_page =
  ap_template :: analysis_template
  ap_firmware :: file_object
  ap_selected_analysis :: "string option"
  ap_all_analyzed_flag :: bool
  ap_root_uid :: "string option"
  ap_plugin_dict :: "(string, plugin_dict_entry) dict"
  ap_other_versions :: "(uid \<times> string option) list option"
  ap_uids_for_comparison :: "(string, string option) dict"
  ap_known_comparisons :: "(string \<times> pyval \<times> real) list"
  ap_unused_plugins :: "string list"
  ap_used_plugins :: "string list"

datatype object_page = UidNotFound | NotRunYet string | AnalysisPage analysis_page

text \<open>\<open>analysis_plugins\<close> is the published dict of plugins, or the exception of reading it.\<close>

definition show_analysis ::
  "sql \<Rightarrow> (string, bytes) dict \<Rightarrow> (string, plugin_dict_entry) dict result \<Rightarrow> db \<Rightarrow> basket \<Rightarrow>
   string \<Rightarrow> string option \<Rightarrow> string option \<Rightarrow> object_page result" where
  "show_analysis S templates analysis_plugins d session u selected_analysis rt =
     bind_r (page_comparison_results d 0 0) (\<lambda>all_comparisons.
     let known_comparisons = filter (\<lambda>(cid, _). substr_in u cid) all_comparisons in
     bind_r (get_object d (Some u) None) (\<lambda>fo_opt. case fo_opt of
         None \<Rightarrow> Inr UidNotFound
       | Some file_obj \<Rightarrow>
           (case (case selected_analysis of None \<Rightarrow> None
                  | Some a \<Rightarrow> if dmem a (processed_analysis file_obj) then None else Some a) of
              Some a \<Rightarrow> Inr (NotRunYet a)
            | None \<Rightarrow>
                bind_r analysis_plugins (\<lambda>plugin_dict.
                bind_r (get_correct_template templates selected_analysis file_obj) (\<lambda>template.
                  let plugins = get_used_and_unused_plugins (processed_analysis file_obj)
                        (filter (\<lambda>x. x \<noteq> ''unpacker'') (dkeys plugin_dict))
                  in Inr (AnalysisPage \<lparr>ap_template = template, ap_firmware = file_obj, ap_selected_analysis = selected_analysis,
                    ap_all_analyzed_flag = \<not> all_uids_found_in_database d (files_included file_obj),
                    ap_root_uid = none_to_none (if is_firmware file_obj then fo_uid file_obj else rt),
                    ap_plugin_dict = plugin_dict,
                    ap_other_versions = (if is_firmware file_obj then Some (get_other_versions_of_firmware S d file_obj) else None),
                    ap_uids_for_comparison = get_comparison_uid_dict_from_session session,
                    ap_known_comparisons = known_comparisons,
                    ap_unused_plugins = fst plugins, ap_used_plugins = snd plugins\<rparr>))))))"

definition start_single_file_analysis ::
  "net \<Rightarrow> (bytes \<Rightarrow> string) \<Rightarrow> db \<Rightarrow> string list \<Rightarrow> request_args \<Rightarrow> string \<Rightarrow> redis_state \<Rightarrow> redis_state result option" where
  "start_single_file_analysis N sha d analysis_systems form u st = (case get_object d (Some u) None of
      Inl e \<Rightarrow> Some (Inl e)
    | Inr None \<Rightarrow> Some (Inl AttributeError)
    | Inr (Some file_object) \<Rightarrow>
        map_option Inr (add_single_file_task N sha
          (file_object\<lparr>scheduled_analysis := Some analysis_systems, force_update := dget form ''force_update'' = Some ''true''\<rparr>) st))"

section \<open>Updating and repeating an analysis\<close>

text \<open>
  \<open>_add_preset_from_firmware\<close>. A plugin without an entry is a \<open>KeyError\<close>, like a missing entry of
  the unpacker; an entry without sets (that of the unpacker) has no assignment.
\<close>

definition tick_plugin :: "string \<Rightarrow> string \<Rightarrow> (string, plugin_dict_entry) dict \<Rightarrow> (string, plugin_dict_entry) dict result" where
  "tick_plugin preset_name plugin plugin_dict =
     bind_r (dlookup plugin_dict plugin) (\<lambda>e. case e of
        AnalysisInfo i \<Rightarrow> Inr (dput plugin (AnalysisInfo (i\<lparr>pi_sets := dput preset_name True (pi_sets i)\<rparr>)) plugin_dict)
      | UnpackerInfo _ _ _ \<Rightarrow> Inl TypeError)"

definition add_preset_from_firmware ::
  "(string, plugin_dict_entry) dict \<Rightarrow> file_object \<Rightarrow> (string, plugin_dict_entry) dict result" where
  "add_preset_from_firmware plugin_dict f =
     bind_r (dlookup plugin_dict ''unpacker'') (\<lambda>_.
       foldM_r (tick_plugin (fstr (fo_uid f))) (remove1 ''unpacker'' (dkeys (processed_analysis f))) (ddel ''unpacker'' plugin_dict))"

record update_page =
  up_device_classes :: "string list"
  up_vendors :: "string list"
  up_error :: "(string, string) dict"
  up_device_names :: device_dict
  up_firmware :: file_object
  up_plugin_dict :: "(string, plugin_dict_entry) dict"
  up_presets :: "string list"
  up_title :: string

definition get_update_analysis ::
  "(string, plugin_dict_entry) dict result \<Rightarrow> string list \<Rightarrow> db \<Rightarrow> string \<Rightarrow> bool \<Rightarrow> (string, string) dict \<Rightarrow> update_page option result" where
  "get_update_analysis analysis_plugins default_presets d u re_do error =
     bind_r (get_object d (Some u) None) (\<lambda>fo_opt. case fo_opt of
       None \<Rightarrow> Inr None
     | Some old_firmware \<Rightarrow>
         bind_r analysis_plugins (\<lambda>plugin_dict0. bind_r (add_preset_from_firmware plugin_dict0 old_firmware) (\<lambda>plugin_dict.
           Inr (Some \<lparr>up_device_classes = get_device_class_list d, up_vendors = get_vendor_list d, up_error = error,
             up_device_names = get_device_name_dict d, up_firmware = old_firmware, up_plugin_dict = plugin_dict,
             up_presets = fstr (fo_uid old_firmware) # default_presets,
             up_title = (if re_do then ''re-do analysis'' else ''update analysis'')\<rparr>))))"

text \<open>
  \<open>_schedule_re_analysis_task\<close>: a repeated analysis deletes the firmware but not its file, which
  also sends the files to delete to the back end; an update keeps the object. The result is the
  database and the queue; the option is a loop that does not end.
\<close>

definition schedule_re_analysis_task ::
  "net \<Rightarrow> (bytes \<Rightarrow> string) \<Rightarrow> (bytes \<Rightarrow> string) \<Rightarrow> string \<Rightarrow> analysis_task \<Rightarrow> bool \<Rightarrow> bool \<Rightarrow> db \<Rightarrow> redis_state \<Rightarrow> (db \<times> redis_state) result option" where
  "schedule_re_analysis_task N sha md u task re_do force_reanalysis d st =
     (if re_do then
        Option.bind (delete_firmware (Some u) False d) (\<lambda>(_, _, del, d1).
        Option.bind (case del of None \<Rightarrow> Some st | Some uids \<Rightarrow> delete_file_request N (map fstr uids) st) (\<lambda>st1.
          case convert_analysis_task_to_fw_obj sha md task None of
            Inl e \<Rightarrow> Some (Inl e)
          | Inr f \<Rightarrow> map_option (\<lambda>st2. Inr (d1, st2)) (add_re_analyze_task N sha f True st1)))
      else (case get_object d (Some u) None of
          Inl e \<Rightarrow> Some (Inl e)
        | Inr None \<Rightarrow> Some (Inl AttributeError)
        | Inr (Some base_fw) \<Rightarrow> (case convert_analysis_task_to_fw_obj sha md task (Some (base_fw\<lparr>force_update := force_reanalysis\<rparr>)) of
              Inl e \<Rightarrow> Some (Inl e)
            | Inr f \<Rightarrow> map_option (\<lambda>st1. Inr (d, st1)) (add_re_analyze_task N sha f False st))))"

datatype post_update = UpdateErrors "(string, string) dict" | UploadSuccessful string

text \<open>The page is shown again with the errors, or the task is scheduled.\<close>

definition post_update_analysis ::
  "net \<Rightarrow> (bytes \<Rightarrow> string) \<Rightarrow> (bytes \<Rightarrow> string) \<Rightarrow> (string \<Rightarrow> string) \<Rightarrow> upload_request \<Rightarrow> string \<Rightarrow> bool \<Rightarrow> db \<Rightarrow> redis_state \<Rightarrow>
   (post_update \<times> db \<times> redis_state) result option" where
  "post_update_analysis N sha md escape r u re_do d st = (case create_re_analyze_task escape r u of
      Inl e \<Rightarrow> Some (Inl e)
    | Inr task \<Rightarrow>
        if check_for_errors task \<noteq> [] then Some (Inr (UpdateErrors (check_for_errors task), d, st))
        else map_option (map_r (\<lambda>(d1, st1). (UploadSuccessful u, d1, st1)))
          (schedule_re_analysis_task N sha md u task re_do (dget (rq_form r) ''force_reanalysis'' = Some ''true'') d st))"

section \<open>The dependency graph\<close>

record graph_node =
  gn_label :: string
  gn_id :: string
  gn_entity :: uid
  gn_group :: pyval
  gn_full_file_type :: pyval
  gn_linked_libraries :: pyval
  gn_elf_analysis_missing :: bool

record graph_edge =
  ge_from :: string
  ge_to :: string
  ge_id :: nat

text \<open>The nodes of an entry: its paths below the chosen object, which is the last container of the path.\<close>

definition nodes_of_entry :: "string \<Rightarrow> uid \<Rightarrow> dep_graph_data \<Rightarrow> graph_node list" where
  "nodes_of_entry parent_uid rt entry =
     concat (map (\<lambda>vpath.
        let path_components = split_virtual_path vpath in
        if length path_components < 2 \<or> path_components ! (length path_components - 2) \<noteq> parent_uid then []
        else [\<lparr>gn_label = last path_components, gn_id = vpath, gn_entity = dg_uid entry, gn_group = dg_mime entry,
               gn_full_file_type = dg_full_type entry,
               gn_linked_libraries = (case dg_libraries entry of Some l \<Rightarrow> if py_truthy l then l else PList [] | None \<Rightarrow> PList []),
               gn_elf_analysis_missing = (dg_libraries entry = None)\<rparr>])
       (case dget (dg_virtual_file_paths entry) rt of None \<Rightarrow> [] | Some virtual_paths \<Rightarrow> virtual_paths))"

definition create_data_graph_nodes_and_groups ::
  "dep_graph_data list \<Rightarrow> string \<Rightarrow> uid \<Rightarrow> string list \<Rightarrow> graph_node list \<times> string list" where
  "create_data_graph_nodes_and_groups dependency_data parent_uid rt whitelist =
     (let shown = filter (\<lambda>entry. dg_mime entry \<in> PStr ` set whitelist \<and> dmem rt (dg_virtual_file_paths entry)) dependency_data
      in (concat (map (nodes_of_entry parent_uid rt) shown),
          sort (py_set (map (\<lambda>entry. fstr (as_str (dg_mime entry))) shown))))"

text \<open>\<open>os.path.normpath\<close>: two leading slashes are kept, three are one.\<close>

definition normpath_step :: "bool \<Rightarrow> string \<Rightarrow> string list \<Rightarrow> string list" where
  "normpath_step absolute c new_comps =
     (if c \<in> {[], ''.''} then new_comps
      else if c \<noteq> ''..'' \<or> (\<not> absolute \<and> new_comps = []) \<or> (new_comps \<noteq> [] \<and> last new_comps = ''..'')
        then new_comps @ [c]
      else butlast new_comps)"

definition normpath :: "string \<Rightarrow> string" where
  "normpath path =
     (let initial_slashes = (if \<not> startswith path ''/'' then 0
            else if startswith path ''//'' \<and> \<not> startswith path ''///'' then 2 else 1);
          p = replicate initial_slashes (CHR ''/'') @
            join_with ''/'' (fold (normpath_step (0 < initial_slashes)) (split_on (CHR ''/'') path) [])
      in if p = [] then ''.'' else p)"

definition parent_parts :: "string list \<Rightarrow> string list" where
  "parent_parts ps = (if ps = [''/''] \<or> ps = [] then ps else butlast ps)"

text \<open>The target of a symbolic link, which the description of the file type quotes.\<close>

definition link_target :: "graph_node \<Rightarrow> string result" where
  "link_target node = (case gn_full_file_type node of
      PStr s \<Rightarrow> (case split_on (CHR 0x27) s of
          _ # target # _ \<Rightarrow>
            (let link_to = path_parts target in
             Inr (if is_absolute link_to then path_str link_to
                  else normpath (path_str (parent_parts (path_parts (gn_label node)) @ link_to))))
        | _ \<Rightarrow> Inl IndexError)
    | _ \<Rightarrow> Inl AttributeError)"

definition add_edge :: "graph_node \<Rightarrow> graph_node \<Rightarrow> graph_edge list \<Rightarrow> graph_edge list" where
  "add_edge node target edges = edges @ [\<lparr>ge_from = gn_id node, ge_to = gn_id target, ge_id = length edges\<rparr>]"

definition create_symbolic_link_edges :: "graph_node list \<Rightarrow> graph_edge list \<Rightarrow> graph_edge list result" where
  "create_symbolic_link_edges nodes =
     foldM_r (\<lambda>node edges. if gn_group node = PStr ''inode/symlink'' then
         map_r (\<lambda>link_to. fold (add_edge node) (filter (\<lambda>m. gn_label m = link_to) nodes) edges) (link_target node)
       else Inr edges) nodes"

text \<open>Only the first object of the name is linked.\<close>

definition find_edges :: "graph_node list \<Rightarrow> graph_node \<Rightarrow> pyval \<Rightarrow> graph_edge list \<Rightarrow> graph_edge list" where
  "find_edges nodes node linked_lib_name edges =
     (case find (\<lambda>lib. linked_lib_name = PStr (path_name (gn_label lib))) nodes of
        None \<Rightarrow> edges | Some lib \<Rightarrow> add_edge node lib edges)"

definition iter_libraries :: "pyval \<Rightarrow> pyval list result" where
  "iter_libraries v = (case v of
      PList xs \<Rightarrow> Inr xs | PSet xs \<Rightarrow> Inr xs | PDict d \<Rightarrow> Inr (map PStr (dkeys d))
    | PStr s \<Rightarrow> Inr (map (\<lambda>c. PStr [c]) s) | PBytes b \<Rightarrow> Inr (map (\<lambda>n. PInt (int n)) b) | _ \<Rightarrow> Inl TypeError)"

definition create_data_graph_edges :: "graph_node list \<Rightarrow> (graph_edge list \<times> nat) result" where
  "create_data_graph_edges nodes =
     bind_r (create_symbolic_link_edges nodes []) (\<lambda>edges0.
       foldM_r (\<lambda>node (edges, elf_analysis_missing).
           if gn_elf_analysis_missing node then Inr (edges, Suc elf_analysis_missing)
           else map_r (\<lambda>libs. (fold (find_edges nodes node) libs edges, elf_analysis_missing))
                  (iter_libraries (gn_linked_libraries node)))
         nodes (edges0, 0))"

text \<open>
  \<open>get_color_list\<close> with as many colours as groups; \<open>rgb\<close> is the colour map. A step of 0 is a
  \<open>ValueError\<close>.
\<close>

definition get_graph_colors :: "(nat \<Rightarrow> string) \<Rightarrow> nat \<Rightarrow> string list result" where
  "get_graph_colors rgb quantity =
     (if quantity = 0 then Inr []
      else let step = (256 - 32) div quantity in
        if step = 0 then Inl ValueError
        else Inr (take quantity (map (\<lambda>i. rgb (32 + i * step)) [0..<(256 - 32 + step - 1) div step])))"

definition GRAPH_WHITELIST :: "string list" where
  "GRAPH_WHITELIST = [''application/x-executable'', ''application/x-pie-executable'', ''application/x-sharedlib'', ''inode/symlink'']"

datatype graph_page =
    NoGraph
  | GraphPage "graph_node list" "graph_edge list" "string list" "string list" nat

definition show_elf_dependency_graph :: "(bytes \<Rightarrow> string) \<Rightarrow> (nat \<Rightarrow> string) \<Rightarrow> db \<Rightarrow> string \<Rightarrow> string option \<Rightarrow> graph_page result" where
  "show_elf_dependency_graph sha rgb d u rt =
     bind_r (if rt \<in> {None, Some ''None''} then bind_r (get_object d (Some u) None) (\<lambda>fo. case fo of
           None \<Rightarrow> Inl AttributeError | Some f \<Rightarrow> Inr (get_root_uid sha f)) else Inr rt) (\<lambda>r.
     bind_r (get_data_for_dependency_graph d (Some u)) (\<lambda>graph_data.
     case create_data_graph_nodes_and_groups graph_data u r GRAPH_WHITELIST of (nodes, groups) \<Rightarrow>
     bind_r (get_graph_colors rgb (length groups)) (\<lambda>colors.
       if nodes = [] then Inr NoGraph
       else map_r (\<lambda>(edges, elf_analysis_missing). GraphPage nodes edges groups (sort colors) elf_analysis_missing)
              (create_data_graph_edges nodes))))"

section \<open>Comments and deletion\<close>

definition add_comment_to_object :: "string \<Rightarrow> string \<Rightarrow> string \<Rightarrow> int \<Rightarrow> db \<Rightarrow> db result" where
  "add_comment_to_object u comment author time d = (case dget (file_tbl d) (Some u) of
      None \<Rightarrow> Inl AttributeError
    | Some fo_entry \<Rightarrow> Inr (d\<lparr>file_tbl := dput (Some u) (fo_entry\<lparr>fe_comments := fe_comments fo_entry @
        [PDict [(''author'', PStr author), (''comment'', PStr comment), (''time'', PStr (str_int time))]]\<rparr>) (file_tbl d)\<rparr>))"

fun comment_time :: "pyval \<Rightarrow> pyval result" where
  "comment_time (PDict c) = dlookup c ''time''"
| "comment_time _ = Inl TypeError"

text \<open>All comments of that second are removed.\<close>

definition delete_comment :: "string \<Rightarrow> string \<Rightarrow> db \<Rightarrow> db result" where
  "delete_comment u timestamp d = (case dget (file_tbl d) (Some u) of
      None \<Rightarrow> Inl AttributeError
    | Some fo_entry \<Rightarrow> map_r (\<lambda>times. d\<lparr>file_tbl := dput (Some u) (fo_entry\<lparr>fe_comments :=
          map snd (filter (\<lambda>(t, _). t \<noteq> PStr timestamp) (zip times (fe_comments fo_entry)))\<rparr>) (file_tbl d)\<rparr>)
        (mapM_r comment_time (fe_comments fo_entry)))"

text \<open>\<open>round\<close>: a half is rounded to the even neighbour.\<close>

definition py_round :: "real \<Rightarrow> int" where
  "py_round x = (let f = \<lfloor>x\<rfloor>; r = x - of_int f in
     if r < 1/2 then f else if r > 1/2 then f + 1 else if even f then f else f + 1)"

text \<open>A field that is missing in the form is a bad request.\<close>

definition post_comment :: "real \<Rightarrow> request_args \<Rightarrow> string \<Rightarrow> db \<Rightarrow> db result" where
  "post_comment now form u d =
     bind_r (dlookup form ''comment'') (\<lambda>comment. bind_r (dlookup form ''author'') (\<lambda>author.
       add_comment_to_object u comment author (py_round now) d))"

text \<open>The route that deletes a firmware: \<open>None\<close> for an object that is none, else the numbers shown.\<close>

definition delete_firmware_route ::
  "net \<Rightarrow> string \<Rightarrow> db \<Rightarrow> redis_state \<Rightarrow> ((nat \<times> nat) option \<times> db \<times> redis_state) option" where
  "delete_firmware_route N u d st =
     (if \<not> is_firmware_uid d (Some u) then Some (None, d, st)
      else Option.bind (delete_firmware (Some u) True d) (\<lambda>(deleted_paths, deleted_files, del, d1).
        map_option (\<lambda>st1. (Some (deleted_paths, deleted_files), d1, st1))
          (case del of None \<Rightarrow> Some st | Some uids \<Rightarrow> delete_file_request N (map fstr uids) st)))"

definition count_values :: "('k, 'v list) dict \<Rightarrow> nat" where
  "count_values dictionary = sum_list (map length (dvalues dictionary))"

section \<open>A repeated analysis\<close>

text \<open>The walk of a deletion that keeps the root file does the same to the database, and never
  lists the firmware itself.\<close>

lemma delete_keeping_root:
  assumes "db_ok d" "acyclic (included_rel d)" "is_fw_row d u" "delete_firmware u False d = Some (k, n, Some del, d')"
  shows "\<exists>n'. delete_firmware u True d = Some (k, n', Some (set_add u del), d')" "u \<notin> set del"
proof -
  from assms(3) obtain ue where ue: "map_of (file_tbl d) u = Some ue" "fe_is_firmware ue" by (auto simp: is_fw_row_def)
  let ?cs = "get_included_uids d u"
  from remove_virtual_path_entries_spec[OF assms(2,1), of u ?cs] obtain k1 del1 d1 S where
    w: "remove_virtual_path_entries u ?cs d = Some (k1, del1, d1)" and
    S: "S = {f. dmem f (file_tbl d) \<and> (\<exists>g \<in> set ?cs. (g, f) \<in> (included_rel d)\<^sup>*)}" and
    del: "set del1 = to_delete u S d" by blast
  have eq: "del = del1" "k = k1" "d' = delete_object u d1" using assms(4) ue w by (simp_all add: delete_firmware_def Let_def)
  show "\<exists>n'. delete_firmware u True d = Some (k, n', Some (set_add u del), d')"
    using ue w eq by (simp add: delete_firmware_def Let_def)
  have "(u, g) \<in> included_rel d" if "g \<in> set ?cs" for g using that by auto
  then have "u \<notin> S" using assms(2) unfolding S by (auto simp: acyclic_def dest: rtrancl_into_trancl2)
  then show "u \<notin> set del" by (simp add: eq del to_delete_def)
qed

lemma queue_put_other:
  assumes "queue_put csize rnd dumps key v (n, st) = Some (n1, st1)" "key' \<noteq> key"
  shows "queue_items key' st1 = queue_items key' st"
proof -
  from assms(1) obtain b st0 where "split_if_necessary csize rnd (dumps v) n st = Some (b, n1, st0)" "st1 = redis_rpush key b st0"
    by (auto simp: queue_put_def Option.bind_eq_Some_conv)
  then show ?thesis using split_if_necessary_other(2)[of csize rnd "dumps v" n st b n1 st0] assms(2)
    by (simp add: queue_items_def redis_rpush_def dget_dappend)
qed

text \<open>The firmware of a task without a binary.\<close>

lemma re_analyze_firmware:
  assumes "create_re_analyze_task escape r u = Inr task" "convert_analysis_task_to_fw_obj sha md task None = Inr f"
  shows "fo_uid f = Some u" "binary f = None" "scheduled_analysis f = Some (rq_systems r)"
proof -
  obtain m where m: "get_meta_from_request escape r = Inr m" "default_date (dput ''uid'' (PStr u) m) = Inr task"
    using assms(1) by (auto simp: create_re_analyze_task_def result_simps)
  note g = get_meta_fields[OF m(1)] and t = default_date_keeps(1)[OF m(2)]
  have "map_of task ''binary'' = None" "map_of task ''uid'' = Some (PStr u)"
      "map_of task ''requested_analysis_systems'' = Some (PList (map PStr (rq_systems r)))"
    using g(2,3) by (simp_all add: t)
  then show "fo_uid f = Some u" "binary f = None" "scheduled_analysis f = Some (rq_systems r)"
    using assms(2) firmware_init_blank(1)[of sha md "\<lambda>_. []"]
    by (auto simp: convert_analysis_task_to_fw_obj_def set_task_file_def as_str_def dlookup_def set_task_meta_def
        result_simps set_uid_def Let_def split: option.splits)
qed

lemma re_analysis_served:
  assumes "queue_items ''re_analyze_task'' st = []" "file_ops_ok (b_ops B)"
    and "net_ok (b_net B) (MTask (TFirmware f) (get_uid (e_sha (b_env B)) f))"
    and "add_re_analyze_task (b_net B) (e_sha (b_env B)) f True (k, st) = Some (k1, bk_redis s)"
    and "fo_uid f = Some u" "binary f = None"
    and "bk_files s (generate_path_from_uid (e_storage (b_env B)) u) = Some b" "bytes_uid (e_sha (b_env B)) b = u"
  shows "\<exists>s' g. backend_worker B rnd now ReAnalyzeTask s = Done s' \<and> bk_unpack_queue s' = bk_unpack_queue s @ [g] \<and>
    fo_uid g = Some u \<and> binary g = Some b \<and> scheduled_analysis g = scheduled_analysis f"
proof -
  have ok: "queue_ok ''re_analyze_task'' st" using assms(1) by (simp add: queue_ok_def)
  from queued_task_is_next[OF assms(3) ok assms(1) assms(4)[unfolded add_re_analyze_task_def, simplified]] obtain st' where
    q: "queue_get (n_loads (b_net B)) (connection_type ReAnalyzeTask) (bk_redis s)
      = (Inr (Some (MTask (TFirmware f) (get_uid (e_sha (b_env B)) f))), st')"
    by (cases "queue_get (n_loads (b_net B)) ''re_analyze_task'' (bk_redis s)") auto
  let ?p = "generate_path_from_uid (e_storage (b_env B)) u"
  have path: "generate_path (b_env B) f = Inr ?p" using assms(5) by (simp add: generate_path_def get_uid_simps)
  have read: "get_binary_from_file (b_ops B) ?p (bk_files s) = b" using assms(2,7) by (simp add: file_ops_okD)
  let ?g = "create_binary_from_path (e_sha (b_env B)) (e_md5 (b_env B)) (\<lambda>q. get_binary_from_file (b_ops B) q (bk_files s))
      (f\<lparr>file_path := Some ?p\<rparr>)"
  have g: "fo_uid ?g = Some u \<and> binary ?g = Some b \<and> scheduled_analysis ?g = scheduled_analysis f"
    using assms(6,8) read
    by (auto simp: create_binary_from_path_def Let_def set_binary_def set_binary_fo_def update_root_id_and_virtual_path_def
        split: option.split)
  have "backend_worker B rnd now ReAnalyzeTask s = Done (s\<lparr>bk_redis := st', bk_unpack_queue := bk_unpack_queue s @ [?g]\<rparr>)"
    using q path by (simp add: backend_worker_def get_next_task_def post_processing_def do_after_def re_analyze_post_processing_def)
  with g show ?thesis by auto
qed

text \<open>What an accepted repetition has done: the deletion, the request to the back end, the new task.\<close>

lemma repetition_parts:
  assumes "post_update_analysis N sha md escape r u True d st = Some (Inr (UploadSuccessful u, d', st'))"
  obtains t f i n dl st1 where "delete_firmware (Some u) False d = Some (i, n, dl, d')"
    and "(case dl of None \<Rightarrow> Some st | Some uids \<Rightarrow> delete_file_request N (map fstr uids) st) = Some st1"
    and "create_re_analyze_task escape r u = Inr t" "convert_analysis_task_to_fw_obj sha md t None = Inr f"
    and "add_re_analyze_task N sha f True st1 = Some st'"
proof -
  from assms obtain t fr where t: "create_re_analyze_task escape r u = Inr t"
    and sch: "schedule_re_analysis_task N sha md u t True fr d st = Some (Inr (d', st'))"
    by (auto simp: post_update_analysis_def result_simps split: sum.splits if_splits)
  let ?send = "\<lambda>dl. case dl of None \<Rightarrow> Some st | Some uids \<Rightarrow> delete_file_request N (map fstr uids) st"
  let ?queue = "\<lambda>d1 st1. case convert_analysis_task_to_fw_obj sha md t None of
      Inl e \<Rightarrow> Some (Inl e)
    | Inr f \<Rightarrow> map_option (\<lambda>st2. Inr (d1, st2)) (add_re_analyze_task N sha f True st1)"
  from sch obtain i n dl d1 where x: "delete_firmware (Some u) False d = Some (i, n, dl, d1)"
    and rest: "Option.bind (?send dl) (?queue d1) = Some (Inr (d', st'))"
    by (cases "delete_firmware (Some u) False d") (auto simp: schedule_re_analysis_task_def)
  from rest obtain st1 where st1: "?send dl = Some st1" and conv: "?queue d1 st1 = Some (Inr (d', st'))"
    unfolding Option.bind_eq_Some_conv by blast
  from conv obtain f where "convert_analysis_task_to_fw_obj sha md t None = Inr f"
    "add_re_analyze_task N sha f True st1 = Some st'" "d1 = d'"
    by (cases "convert_analysis_task_to_fw_obj sha md t None") auto
  with that x st1 t show ?thesis by blast
qed

text \<open>C40: A repeated analysis does not lose the firmware. When the page that repeats the analysis of
  a firmware accepts its form, the firmware and the files only it contains are gone from the
  database, but its own file survives every deletion request the page sent, and the back end puts
  a firmware with the same UID, the stored content and the chosen analyses into the unpacking queue.\<close>

theorem repeated_analysis_reaches_unpacker:
  assumes "post_update_analysis (b_net B) (e_sha (b_env B)) md escape r u True d (k, st) = Some (Inr (UploadSuccessful u, d', k1, bk_redis s))"
    and "db_ok d" "acyclic (included_rel d)" "paths_ok d" "is_fw_row d (Some u)" "\<forall>p. (p, Some u) \<notin> included_rel d"
    and "\<forall>f. dmem f (file_tbl d) \<longrightarrow> f \<noteq> None"
    and "bk_files s (generate_path_from_uid (e_storage (b_env B)) u) = Some b" "bytes_uid (e_sha (b_env B)) b = u"
    and "file_ops_ok (b_ops B)" "queue_items ''re_analyze_task'' st = []"
    and "\<forall>t f. create_re_analyze_task escape r u = Inr t \<and> convert_analysis_task_to_fw_obj (e_sha (b_env B)) md t None = Inr f \<longrightarrow>
          net_ok (b_net B) (MTask (TFirmware f) (get_uid (e_sha (b_env B)) f))"
  shows "\<exists>i n del s' g. delete_firmware (Some u) False d = Some (i, n, Some del, d')
    \<and> (\<forall>f. dmem f (file_tbl d') \<longleftrightarrow> (\<exists>rt \<in> roots_of d f. rt \<noteq> Some u))
    \<and> (\<forall>d2 locks files. delete_file_task (b_env B) (b_ops B) d2 locks (map fstr del) files (generate_path_from_uid (e_storage (b_env B)) u)
          = files (generate_path_from_uid (e_storage (b_env B)) u))
    \<and> backend_worker B rnd now ReAnalyzeTask s = Done s' \<and> bk_unpack_queue s' = bk_unpack_queue s @ [g]
    \<and> fo_uid g = Some u \<and> binary g = Some b \<and> scheduled_analysis g = Some (rq_systems r)"
proof -
  let ?sha = "e_sha (b_env B)"
  obtain t f i n dl st1 where x: "delete_firmware (Some u) False d = Some (i, n, dl, d')"
    and st1: "(case dl of None \<Rightarrow> Some (k, st) | Some uids \<Rightarrow> delete_file_request (b_net B) (map fstr uids) (k, st)) = Some st1"
    and t: "create_re_analyze_task escape r u = Inr t" "convert_analysis_task_to_fw_obj ?sha md t None = Inr f"
    and f: "add_re_analyze_task (b_net B) ?sha f True st1 = Some (k1, bk_redis s)"
    by (rule repetition_parts[OF assms(1)])
  from assms(5) x obtain uids where dl: "dl = Some uids"
    by (auto simp: delete_firmware_def is_fw_row_def Let_def)
  note df = x[unfolded dl]
  note kept = delete_keeping_root[OF assms(2,3,5) df]
  obtain k0 st0 where st0: "delete_file_request (b_net B) (map fstr uids) (k, st) = Some (k0, st0)"
    "add_re_analyze_task (b_net B) ?sha f True (k0, st0) = Some (k1, bk_redis s)" using st1 f dl by (cases st1) auto
  have "queue_items ''re_analyze_task'' st0 = []"
    using queue_put_other[OF st0(1)[unfolded delete_file_request_def add_to_redis_queue_def], of "''re_analyze_task''"] assms(11) by simp
  note served = re_analysis_served[OF this assms(10) _ st0(2) re_analyze_firmware(1,2)[OF t] assms(8,9)]
  have "net_ok (b_net B) (MTask (TFirmware f) (get_uid ?sha f))" using assms(12) t by blast
  from served[OF this, of rnd now] re_analyze_firmware(3)[OF t] obtain s' g where
    s': "backend_worker B rnd now ReAnalyzeTask s = Done s'" "bk_unpack_queue s' = bk_unpack_queue s @ [g]"
    "fo_uid g = Some u" "binary g = Some b" "scheduled_analysis g = Some (rq_systems r)" by auto
  from delete_firmware_effect[OF assms(2-6)] obtain i2 n2 del2 d2 where
    e: "delete_firmware (Some u) True d = Some (i2, n2, Some del2, d2)" "\<forall>f. dmem f (file_tbl d2) \<longleftrightarrow> (\<exists>rt \<in> roots_of d f. rt \<noteq> Some u)"
      "set del2 = {f. dmem f (file_tbl d) \<and> \<not> dmem f (file_tbl d2)}" by blast
  with kept(1) have same: "del2 = set_add (Some u) uids" "d2 = d'" by auto
  note rem = e(2)[unfolded same] and set_del = e(3)[unfolded same]
  have "u \<notin> set (map fstr uids)"
  proof
    assume "u \<in> set (map fstr uids)"
    then obtain v where v: "v \<in> set uids" "fstr v = u" by auto
    then have "v \<in> set (set_add (Some u) uids)" by simp
    with set_del assms(7) have "v \<noteq> None" by blast
    with v kept(2) show False by (cases v) auto
  qed
  then have "delete_file_task (b_env B) (b_ops B) d2 locks (map fstr uids) files (generate_path_from_uid (e_storage (b_env B)) u)
      = files (generate_path_from_uid (e_storage (b_env B)) u)" for d2 locks files
    using delete_file_task_result[OF assms(10)] by simp
  with df rem s' show ?thesis by blast
qed

definition ex_repeat_uid :: string where
  "ex_repeat_uid = [CHR 0x01] @ ''_1''"

definition ex_repeat_db :: db where
  "ex_repeat_db = ex_insert [ex_fwo ex_repeat_uid]"

lemma ex_repeat_tables:
  "included_tbl ex_repeat_db = []" "orphans ex_repeat_db = []"
  "map (\<lambda>(u, e). (u, fe_is_firmware e, dkeys (fe_virtual_file_paths e))) (file_tbl ex_repeat_db) =
     [(Some ex_repeat_uid, True, [Some ex_repeat_uid])]"
  by code_simp+

lemma ex_repeat_rows:
  assumes "map_of (file_tbl ex_repeat_db) f = Some e"
  shows "f = Some ex_repeat_uid \<and> fe_is_firmware e \<and> dkeys (fe_virtual_file_paths e) = [Some ex_repeat_uid]"
proof -
  have "(f, fe_is_firmware e, dkeys (fe_virtual_file_paths e)) \<in>
      set (map (\<lambda>(u, e). (u, fe_is_firmware e, dkeys (fe_virtual_file_paths e))) (file_tbl ex_repeat_db))"
    using map_of_SomeD[OF assms] by (force simp del: set_map simp: set_map)
  then show ?thesis unfolding ex_repeat_tables(3) by simp
qed

lemma ex_repeat_ok: "db_ok ex_repeat_db" "acyclic (included_rel ex_repeat_db)" "is_fw_row ex_repeat_db (Some ex_repeat_uid)"
  "paths_ok ex_repeat_db" "\<forall>p. (p, Some ex_repeat_uid) \<notin> included_rel ex_repeat_db" "\<forall>f. dmem f (file_tbl ex_repeat_db) \<longrightarrow> f \<noteq> None"
proof -
  show "db_ok ex_repeat_db" unfolding ex_repeat_db_def by (rule db_ok_ex_insert)
  have rel: "included_rel ex_repeat_db = {}" by (simp add: ex_repeat_tables)
  show "acyclic (included_rel ex_repeat_db)" by (simp add: rel acyclic_def)
  show "\<forall>p. (p, Some ex_repeat_uid) \<notin> included_rel ex_repeat_db" by (simp add: rel)
  have row: "map_option fe_is_firmware (map_of (file_tbl ex_repeat_db) (Some ex_repeat_uid)) = Some True" by code_simp
  then show fw: "is_fw_row ex_repeat_db (Some ex_repeat_uid)" by (simp add: is_fw_row_iff)
  have only: "is_fw_row ex_repeat_db r \<Longrightarrow> r = Some ex_repeat_uid" for r by (auto simp: is_fw_row_def dest: ex_repeat_rows)
  show "paths_ok ex_repeat_db"
    unfolding paths_ok_def
  proof (intro conjI allI impI)
    show "orphans ex_repeat_db = []" by (rule ex_repeat_tables)
    fix f e assume "map_of (file_tbl ex_repeat_db) f = Some e"
    from ex_repeat_rows[OF this] have f: "f = Some ex_repeat_uid" "set (dkeys (fe_virtual_file_paths e)) = {Some ex_repeat_uid}" by simp_all
    have "roots_of ex_repeat_db f = {Some ex_repeat_uid}" unfolding roots_of_def rel f(1) using fw only by blast
    with f(2) show "set (dkeys (fe_virtual_file_paths e)) = roots_of ex_repeat_db f" by simp
  qed
  show "\<forall>f. dmem f (file_tbl ex_repeat_db) \<longrightarrow> f \<noteq> None" by (auto simp: dmem_def dest: ex_repeat_rows)
qed

definition ex_repeat_task :: analysis_task where
  "ex_repeat_task =
     [(''device_name'', PStr ''dev''), (''device_part'', PStr []), (''device_class'', PStr ''router''), (''vendor'', PStr ''acme''),
      (''version'', PStr ''1''), (''release_date'', PStr ''1970-01-01''),
      (''requested_analysis_systems'', PList [PStr ''strings'']), (''tags'', PStr ''a,b''), (''uid'', PStr ex_repeat_uid)]"

lemma ex_repeat_task: "create_re_analyze_task (\<lambda>s. s) ex_upload ex_repeat_uid = Inr ex_repeat_task"
  by (simp add: create_re_analyze_task_def ex_upload_def get_meta_from_request_def META_FIELDS_def form_field_def dlookup_def
      get_meta_from_dropdowns_def dropdown_step_def DROPDOWN_FIELDS_def Let_def default_date_def ex_repeat_task_def)

lemma ex_repeat_task_ok: "check_for_errors ex_repeat_task = []"
  "\<exists>f. convert_analysis_task_to_fw_obj sha md ex_repeat_task None = Inr f"
  by (simp_all add: check_for_errors_def OPTIONAL_FIELDS_def ex_repeat_uid_def ex_repeat_task_def
      convert_analysis_task_to_fw_obj_def set_task_file_def set_task_meta_def dlookup_def Let_def)

lemma ex_repeat_content: "bytes_uid (e_sha ex_store_env) [1] = ex_repeat_uid"
  by code_simp

theorem repeated_analysis_reaches_unpacker_witness:
  "\<exists>B s s' g. backend_worker B (\<lambda>_ _. 0) 0 ReAnalyzeTask s = Done s' \<and> bk_unpack_queue s' = bk_unpack_queue s @ [g] \<and>
     fo_uid g = Some ex_repeat_uid \<and> binary g = Some [1] \<and> scheduled_analysis g = Some [''strings'']"
proof -
  let ?sha = "e_sha ex_store_env" and ?u = ex_repeat_uid
  obtain f where f: "convert_analysis_task_to_fw_obj ?sha (\<lambda>_. []) ex_repeat_task None = Inr f" using ex_repeat_task_ok(2) by blast
  from delete_firmware_effect[OF ex_repeat_ok(1,2,4,3,5)] obtain i n dl d' where
    "delete_firmware (Some ?u) True ex_repeat_db = Some (i, n, Some dl, d')" by blast
  then obtain j uids where del: "delete_firmware (Some ?u) False ex_repeat_db = Some (i, j, Some uids, d')"
    by (auto simp: delete_firmware_def Let_def split: option.splits if_splits)
  let ?m = "MTask (TFirmware f) (get_uid ?sha f)"
  let ?B = "ex_binding ?m"
  let ?st1 = "redis_rpush ''file_delete_task'' [1] ex_empty_redis"
  let ?s = "ex_backend (redis_rpush ''re_analyze_task'' [1] ?st1) d'"
  have env: "b_env ?B = ex_store_env" "b_net ?B = ex_net ?m" "b_ops ?B = ex_ops" by (simp_all add: ex_binding_def)
  have post: "post_update_analysis (b_net ?B) (e_sha (b_env ?B)) (\<lambda>_. []) (\<lambda>s. s) ex_upload ?u True ex_repeat_db (0, ex_empty_redis) =
      Some (Inr (UploadSuccessful ?u, d', 0, bk_redis ?s))"
    using f unfolding env
    by (simp add: post_update_analysis_def ex_repeat_task ex_repeat_task_ok(1) schedule_re_analysis_task_def del ex_request add_re_analyze_task_def
        add_to_redis_queue_def queue_put_def split_if_necessary_def ex_net_def ex_backend_def)
       (simp add: delete_file_request_def add_to_redis_queue_def queue_put_def split_if_necessary_def)
  have nets: "\<forall>t g. create_re_analyze_task (\<lambda>s. s) ex_upload ?u = Inr t \<and>
      convert_analysis_task_to_fw_obj (e_sha (b_env ?B)) (\<lambda>_. []) t None = Inr g \<longrightarrow>
      net_ok (b_net ?B) (MTask (TFirmware g) (get_uid (e_sha (b_env ?B)) g))"
    using f ex_repeat_task unfolding env by (auto simp: net_ok_ex)
  have stored: "bk_files ?s (generate_path_from_uid (e_storage (b_env ?B)) ?u) = Some [1]" "bytes_uid (e_sha (b_env ?B)) [1] = ?u"
    unfolding env by (simp_all add: ex_backend_def ex_repeat_content[simplified])
  have "file_ops_ok (b_ops ?B)" "queue_items ''re_analyze_task'' ex_empty_redis = []"
    by (simp_all add: env file_ops_ok_ex_ops queue_items_def ex_empty_redis_def)
  from repeated_analysis_reaches_unpacker[OF post ex_repeat_ok(1,2,4,3,5,6) stored this nets, of "\<lambda>_ _. 0" 0] obtain s' g where
    "backend_worker ?B (\<lambda>_ _. 0) 0 ReAnalyzeTask ?s = Done s'" "bk_unpack_queue s' = bk_unpack_queue ?s @ [g]"
    "fo_uid g = Some ?u" "binary g = Some [1]" "scheduled_analysis g = Some (rq_systems ex_upload)" by blast
  moreover have "rq_systems ex_upload = [''strings'']" by (simp add: ex_upload_def)
  ultimately show ?thesis by metis
qed

section \<open>What the pages show\<close>

text \<open>The order in which files were put into the basket does not matter.\<close>

lemma start_compare_order:
  assumes "dict_ok a" "dict_ok b" "set (dkeys a) = set (dkeys b)"
  shows "map_option (\<lambda>(p, _, st'). (p, st')) (start_compare N d args (Some a) st) =
    map_option (\<lambda>(p, _, st'). (p, st')) (start_compare N d args (Some b) st)"
proof -
  have "distinct (dkeys a)" "distinct (dkeys b)" using assms(1,2) by (simp_all add: dict_ok_def dkeys_def)
  then have "sort (dkeys a) = sort (dkeys b)" "length (dkeys a) = length (dkeys b)"
    using sort_distinct_eq assms(3) by (auto simp: distinct_card[symmetric])
  then show ?thesis
    by (auto simp: start_compare_def get_comparison_uid_dict_from_session_def convert_uid_list_to_compare_id_def Let_def
        dkeys_def option.map_comp comp_def split_beta)
qed

text \<open>The views are inserted behind the key, the last one first.\<close>

lemma inserted_views:
  "fold (\<lambda>pv view. insert_plugin_into_view_at_index (f pv) view n) pvs view = take n view @ concat (map f (rev pvs)) @ drop n view"
  if "n \<le> length view"
  using that
proof (induction pvs arbitrary: view)
  case (Cons pv pvs)
  let ?v = "insert_plugin_into_view_at_index (f pv) view n"
  have v: "take n ?v = take n view" "drop n ?v = f pv @ drop n view" "n \<le> length ?v"
    using Cons.prems by (simp_all add: insert_plugin_into_view_at_index_def)
  from Cons.IH[OF v(3)] show ?case by (simp add: v(1,2))
qed simp

lemma find_str_Some: "find_str key s = Some i \<Longrightarrow> \<exists>t. drop i s = key @ t"
proof (induction key s arbitrary: i rule: find_str.induct)
  case (2 key c cs)
  then show ?case by (auto simp: prefix_def split: if_splits)
qed (auto split: if_splits)

lemma compare_view_exact:
  assumes "find_str INSERTION_KEY html = Some i"
  shows "\<exists>t. html = take i html @ INSERTION_KEY @ t \<and> add_plugin_views_to_compare_view dec html views =
    take i html @ INSERTION_KEY @ concat (map (plugin_case dec) (rev views)) @ t"
proof -
  from find_str_Some[OF assms] obtain t where t: "drop i html = INSERTION_KEY @ t" by blast
  let ?n = "i + length INSERTION_KEY"
  have html: "html = take i html @ INSERTION_KEY @ t" by (metis append_take_drop_id t)
  have "length html - i = length INSERTION_KEY + length t" using arg_cong[OF t, of length] by simp
  moreover have "0 < length INSERTION_KEY" by (simp add: INSERTION_KEY_def)
  ultimately have len: "i \<le> length html" "?n \<le> length html" by linarith+
  have "take ?n html = take i html @ INSERTION_KEY" "drop ?n html = t"
    using t len(1) by (simp_all add: take_add) (metis drop_drop add.commute append_eq_conv_conj)
  with inserted_views[OF len(2), of "plugin_case dec" views] html assms show ?thesis
    by (auto simp: add_plugin_views_to_compare_view_def)
qed

text \<open>
  The page to update an analysis cannot be shown for an object with a result of a plugin that is
  no longer loaded.
\<close>

lemma foldM_r_fails:
  assumes "x \<in> set xs" "\<And>y s s'. P s \<Longrightarrow> f y s = Inr s' \<Longrightarrow> P s'" "\<And>s. P s \<Longrightarrow> \<exists>e. f x s = Inl e" "P s"
  shows "\<exists>e. foldM_r f xs s = Inl e"
  using assms(1,4)
proof (induction xs arbitrary: s)
  case (Cons y ys)
  show ?case
  proof (cases "f y s")
    case (Inr s1)
    then have "x \<in> set ys" using Cons.prems assms(3)[of s] by auto
    with Cons.IH[OF _ assms(2)[OF Cons.prems(2) Inr]] Inr show ?thesis by simp
  qed simp
qed simp

lemma update_page_needs_all_plugins:
  assumes "get_object d (Some u) None = Inr (Some f)" "p \<in> set (dkeys (processed_analysis f))" "p \<noteq> ''unpacker''"
    and "\<not> dmem p plugin_dict"
  shows "\<exists>e. get_update_analysis (Inr plugin_dict) presets d u re_do error = Inl e"
proof (cases "map_of plugin_dict ''unpacker''")
  case (Some x)
  have "p \<in> set (remove1 ''unpacker'' (dkeys (processed_analysis f)))" using assms(2,3) by (simp add: in_set_remove1)
  moreover have "\<not> dmem p (ddel ''unpacker'' plugin_dict)" using assms(3,4) by (simp add: dmem_def)
  ultimately have "\<exists>e. foldM_r (tick_plugin (fstr (fo_uid f))) (remove1 ''unpacker'' (dkeys (processed_analysis f)))
      (ddel ''unpacker'' plugin_dict) = Inl e"
    by (intro foldM_r_fails[where x = p and P = "\<lambda>s. \<not> dmem p s"])
      (auto simp: tick_plugin_def result_simps dmem_def dlookup_def split: option.splits plugin_dict_entry.splits)
  with Some assms(1) show ?thesis
    by (auto simp: get_update_analysis_def add_preset_from_firmware_def dlookup_def)
qed (use assms(1) in \<open>simp add: get_update_analysis_def add_preset_from_firmware_def dlookup_def\<close>)

text \<open>The edges of the dependency graph join nodes of the graph and are numbered from 0.\<close>

definition edges_ok :: "graph_node list \<Rightarrow> graph_edge list \<Rightarrow> bool" where
  "edges_ok nodes edges \<longleftrightarrow> map ge_id edges = [0..<length edges] \<and>
     (\<forall>e \<in> set edges. ge_from e \<in> gn_id ` set nodes \<and> ge_to e \<in> gn_id ` set nodes)"

lemma edges_ok_add: "edges_ok nodes es \<Longrightarrow> n \<in> set nodes \<Longrightarrow> m \<in> set nodes \<Longrightarrow> edges_ok nodes (add_edge n m es)"
  by (auto simp: edges_ok_def add_edge_def)

lemma edges_ok_fold_add:
  "edges_ok nodes es \<Longrightarrow> n \<in> set nodes \<Longrightarrow> set ms \<subseteq> set nodes \<Longrightarrow> edges_ok nodes (fold (add_edge n) ms es)"
  by (induction ms arbitrary: es) (auto simp: edges_ok_add)

lemma edges_ok_find: "edges_ok nodes es \<Longrightarrow> n \<in> set nodes \<Longrightarrow> edges_ok nodes (find_edges nodes n lib es)"
  by (auto simp: find_edges_def find_Some_iff intro!: edges_ok_add split: option.split)

lemma edges_ok_fold_find: "edges_ok nodes es \<Longrightarrow> n \<in> set nodes \<Longrightarrow> edges_ok nodes (fold (find_edges nodes n) libs es)"
  by (induction libs arbitrary: es) (auto simp: edges_ok_find)

lemma graph_edges_ok:
  assumes "create_data_graph_edges nodes = Inr (edges, missing)"
  shows "edges_ok nodes edges" "missing = length (filter gn_elf_analysis_missing nodes)"
proof -
  from assms obtain es where es: "create_symbolic_link_edges nodes [] = Inr es"
    and rest: "foldM_r (\<lambda>node (edges, elf_analysis_missing).
           if gn_elf_analysis_missing node then Inr (edges, Suc elf_analysis_missing)
           else map_r (\<lambda>libs. (fold (find_edges nodes node) libs edges, elf_analysis_missing))
                  (iter_libraries (gn_linked_libraries node))) nodes (es, 0) = Inr (edges, missing)"
    by (auto simp: create_data_graph_edges_def result_simps)
  have "edges_ok nodes es"
    using es unfolding create_symbolic_link_edges_def
    by (rule foldM_r_inv) (auto simp: edges_ok_def[of nodes "[]"] result_simps intro!: edges_ok_fold_add split: if_splits)
  have step: "edges_ok nodes (fst s') \<and> snd s' = snd s + length (filter gn_elf_analysis_missing ns)"
    if "foldM_r (\<lambda>node (edges, elf_analysis_missing).
           if gn_elf_analysis_missing node then Inr (edges, Suc elf_analysis_missing)
           else map_r (\<lambda>libs. (fold (find_edges nodes node) libs edges, elf_analysis_missing))
                  (iter_libraries (gn_linked_libraries node))) ns s = Inr s'" "set ns \<subseteq> set nodes" "edges_ok nodes (fst s)" for ns s s'
    using that
    by (induction ns arbitrary: s) (auto simp: result_simps edges_ok_fold_find split: if_splits prod.splits)
  from step[OF rest] \<open>edges_ok nodes es\<close> show "edges_ok nodes edges" "missing = length (filter gn_elf_analysis_missing nodes)" by simp_all
qed

end
