(* ===== verification/PageFilters.thy ===== *)
theory PageFilters
  imports YaraPlugins UserManagement PageRoutes
begin

text \<open>
  The functions the templates apply to values (\<open>web_interface/filter.py\<close>). A value a function
  returns unchanged stays a Python value, text it builds is a string value. What Jinja renders,
  the text Python prints for a value, number formats of floats, the local time and the colour
  map are parameters.
\<close>

text \<open>
  \<open>tv_str\<close> prints a value, \<open>tv_float\<close> a float with two digits and separators, \<open>tv_size\<close> a size,
  \<open>tv_bytes\<close> decodes bytes, \<open>tv_time\<close> formats a time stamp, \<open>tv_left\<close> is the order a sort that
  raises leaves behind, \<open>tv_repr\<close> is \<open>repr\<close> of a text, \<open>tv_json\<close> prints JSON.
\<close>

record view_env =
  tv_str :: "pyval \<Rightarrow> string"
  tv_float :: "real \<Rightarrow> string"
  tv_size :: "pyval \<Rightarrow> string"
  tv_bytes :: "bytes \<Rightarrow> string"
  tv_time :: "pyval \<Rightarrow> string"
  tv_left :: "pyval list \<Rightarrow> pyval list"
  tv_repr :: "string \<Rightarrow> string"
  tv_json :: "pyval \<Rightarrow> string"

section \<open>Sorting\<close>

text \<open>
  A stable sort with Python's \<open><\<close>, which raises if two of the keys cannot be compared; with
  \<open>reverse\<close> the order of equal keys is kept.
\<close>

fun key_insert :: "pyval \<times> 'a \<Rightarrow> (pyval \<times> 'a) list \<Rightarrow> (pyval \<times> 'a) list result" where
  "key_insert x [] = Inr [x]"
| "key_insert x (y # ys) = bind_r (py_less (fst x) (fst y)) (\<lambda>less.
     if less then Inr (x # y # ys) else map_r ((#) y) (key_insert x ys))"

definition key_sort :: "(pyval \<times> 'a) list \<Rightarrow> (pyval \<times> 'a) list result" where
  "key_sort xs = foldM_r key_insert xs []"

definition key_sort_rev :: "(pyval \<times> 'a) list \<Rightarrow> (pyval \<times> 'a) list result" where
  "key_sort_rev xs = map_r rev (key_sort (rev xs))"

definition get_sorted_list :: "view_env \<Rightarrow> pyval \<Rightarrow> pyval" where
  "get_sorted_list V input_data =
     (let sorted_list = (\<lambda>xs. PList (case key_sort (map (\<lambda>x. (x, x)) xs) of Inr ys \<Rightarrow> map snd ys | Inl _ \<Rightarrow> tv_left V xs))
      in case input_data of PList xs \<Rightarrow> sorted_list xs | PSet xs \<Rightarrow> sorted_list xs | _ \<Rightarrow> input_data)"

text \<open>The charts and comments: a list that cannot be sorted is shown empty, as is a value that is none.\<close>

definition sort_or_empty :: "('a list \<Rightarrow> 'b list result) \<Rightarrow> 'a list \<Rightarrow> 'b list" where
  "sort_or_empty f xs = (case f xs of Inr ys \<Rightarrow> ys | Inl _ \<Rightarrow> [])"

definition item_at :: "nat \<Rightarrow> pyval \<Rightarrow> pyval result" where
  "item_at i row = (case row of
      PList xs \<Rightarrow> if i < length xs then Inr (xs ! i) else Inl IndexError
    | PStr s \<Rightarrow> if i < length s then Inr (PStr [s ! i]) else Inl IndexError
    | PDict _ \<Rightarrow> Inl KeyError
    | _ \<Rightarrow> Inl TypeError)"

definition sort_by :: "(pyval \<Rightarrow> pyval result) \<Rightarrow> bool \<Rightarrow> pyval list \<Rightarrow> pyval list result" where
  "sort_by key rev_order rows = bind_r (mapM_r (\<lambda>row. map_r (\<lambda>k. (k, row)) (key row)) rows) (\<lambda>keyed.
     map_r (map snd) (if rev_order then key_sort_rev keyed else key_sort keyed))"

definition sort_chart_list_by_name :: "pyval list \<Rightarrow> pyval list" where
  "sort_chart_list_by_name input_data = sort_or_empty (sort_by (item_at 0) False) input_data"

definition sort_chart_list_by_value :: "pyval list \<Rightarrow> pyval list" where
  "sort_chart_list_by_value input_data = sort_or_empty (sort_by (item_at 1) True) input_data"

definition item_of :: "string \<Rightarrow> pyval \<Rightarrow> pyval result" where
  "item_of k row = (case row of PDict d \<Rightarrow> dlookup d k | _ \<Rightarrow> Inl TypeError)"

definition sort_comments :: "pyval list \<Rightarrow> pyval list" where
  "sort_comments comment_list = sort_or_empty (sort_by (item_of ''time'') True) comment_list"

text \<open>The CVEs of a component by their score, which is a text; here an exception is not caught.\<close>

definition sort_cve_results :: "(string, pyval) dict \<Rightarrow> (string \<times> pyval) list result" where
  "sort_cve_results cve_result =
     bind_r (mapM_r (\<lambda>(cve, e). map_r (\<lambda>score. (score, (cve, e))) (item_of ''score2'' e)) cve_result)
       (\<lambda>keyed. map_r (map snd) (key_sort_rev keyed))"

section \<open>Values\<close>

text \<open>\<open>f'{i:,}'\<close>: a comma before every group of three digits.\<close>

fun group_digits :: "string \<Rightarrow> string" where
  "group_digits (a # b # c # d # ds) = a # b # c # CHR '','' # group_digits (d # ds)"
| "group_digits ds = ds"

definition int_commas :: "int \<Rightarrow> string" where
  "int_commas i = (if i < 0 then ''-'' else []) @ rev (group_digits (rev (str_int \<bar>i\<bar>)))"

definition nice_number_filter :: "view_env \<Rightarrow> pyval \<Rightarrow> pyval" where
  "nice_number_filter V v = (case v of
      PInt i \<Rightarrow> PStr (int_commas i)
    | PBool b \<Rightarrow> PStr (if b then ''1'' else ''0'')
    | PFloat x \<Rightarrow> PStr (tv_float V x)
    | PNone \<Rightarrow> PStr ''not available''
    | _ \<Rightarrow> v)"

text \<open>\<open>{i:,d}\<close> of a float is a \<open>ValueError\<close>.\<close>

definition byte_number_filter :: "view_env \<Rightarrow> pyval \<Rightarrow> bool \<Rightarrow> string result" where
  "byte_number_filter V v verbose = (case v of
      PInt i \<Rightarrow> Inr (if verbose then tv_size V v @ '' ('' @ int_commas i @ '' bytes)'' else tv_size V v)
    | PBool b \<Rightarrow> Inr (if verbose then tv_size V v @ '' ('' @ (if b then ''1'' else ''0'') @ '' bytes)'' else tv_size V v)
    | PFloat _ \<Rightarrow> if verbose then Inl ValueError else Inr (tv_size V v)
    | _ \<Rightarrow> Inr ''not available'')"

definition replace_underscore_filter :: "string \<Rightarrow> string" where
  "replace_underscore_filter s = replace_char (CHR ''_'') '' '' s"

definition nice_dict :: "view_env \<Rightarrow> pyval \<Rightarrow> pyval" where
  "nice_dict V input_data = (case input_data of
      PDict d \<Rightarrow> PStr (concat (map (\<lambda>item. item @ '': '' @ (case dget d item of Some v \<Rightarrow> tv_str V v | None \<Rightarrow> []) @ ''<br />'')
        (sort (dkeys d))))
    | _ \<Rightarrow> input_data)"

definition handle_generic_data :: "view_env \<Rightarrow> pyval \<Rightarrow> pyval" where
  "handle_generic_data V input_data = (case input_data of PDict _ \<Rightarrow> nice_dict V input_data | _ \<Rightarrow> input_data)"

definition newline_text :: string where
  "newline_text = [CHR 0x0A]"

definition list_group :: "view_env \<Rightarrow> pyval \<Rightarrow> pyval" where
  "list_group V input_data = (case get_sorted_list V input_data of
      PList xs \<Rightarrow> PStr (''<ul class='' @ [CHR 0x22] @ ''list-group list-group-flush'' @ [CHR 0x22] @ ''>'' @ newline_text @
        concat (map (\<lambda>item. [CHR 0x09] @ ''<li class='' @ [CHR 0x22] @ ''list-group-item'' @ [CHR 0x22] @ ''>'' @
          tv_str V (handle_generic_data V item) @ ''</li>'' @ newline_text) xs) @ ''</ul>'' @ newline_text)
    | v \<Rightarrow> v)"

text \<open>A value of a result is no \<open>struct_time\<close>.\<close>

definition generic_nice_representation :: "view_env \<Rightarrow> pyval \<Rightarrow> pyval" where
  "generic_nice_representation V v = (case v of
      PList _ \<Rightarrow> list_group V v
    | PDict _ \<Rightarrow> nice_dict V v
    | PFloat _ \<Rightarrow> nice_number_filter V v
    | PInt _ \<Rightarrow> nice_number_filter V v
    | PBool _ \<Rightarrow> nice_number_filter V v
    | PStr s \<Rightarrow> PStr (replace_underscore_filter s)
    | PBytes b \<Rightarrow> PStr (tv_bytes V b)
    | _ \<Rightarrow> v)"

text \<open>The collapsed list shows its first item and hides the others.\<close>

definition list_group_collapse :: "view_env \<Rightarrow> pyval \<Rightarrow> (pyval \<times> pyval list) option result" where
  "list_group_collapse V input_data = map_r (\<lambda>items. case map (handle_generic_data V) items of
      [] \<Rightarrow> None | first_item # rest \<Rightarrow> Some (first_item, rest)) (iter_libraries (get_sorted_list V input_data))"

definition list_to_line_break_string_no_sort :: "pyval \<Rightarrow> pyval result" where
  "list_to_line_break_string_no_sort input_data = (case input_data of
      PList xs \<Rightarrow> map_r (\<lambda>texts. PStr (join_with newline_text texts @ newline_text))
        (mapM_r (\<lambda>x. case x of PStr s \<Rightarrow> Inr s | _ \<Rightarrow> Inl TypeError) xs)
    | _ \<Rightarrow> Inr input_data)"

definition list_to_line_break_string :: "view_env \<Rightarrow> pyval \<Rightarrow> pyval result" where
  "list_to_line_break_string V input_data = list_to_line_break_string_no_sort (get_sorted_list V input_data)"

definition nice_unix_time :: "view_env \<Rightarrow> pyval \<Rightarrow> pyval" where
  "nice_unix_time V v = (case v of PInt _ \<Rightarrow> PStr (tv_time V v) | PFloat _ \<Rightarrow> PStr (tv_time V v)
    | PBool _ \<Rightarrow> PStr (tv_time V v) | _ \<Rightarrow> v)"

section \<open>Links\<close>

text \<open>\<open>[a-f0-9]{64}_[0-9]+\<close>\<close>

definition UID_REGEX :: regex where
  "UID_REGEX = seqs [times_re 64 (RChar is_hex_lower), lit ''_'', plus_re (RChar is_digit)]"

definition get_all_uids_in_string :: "string \<Rightarrow> string list" where
  "get_all_uids_in_string s = sort (remdups (findall UID_REGEX s))"

definition html_link :: "string \<Rightarrow> string \<Rightarrow> string" where
  "html_link target label = ''<a href='' @ [CHR 0x22] @ target @ [CHR 0x22] @ ''>'' @ label @ ''</a>''"

text \<open>Each UID is replaced in the whole text, one after the other.\<close>

definition uids_to_link :: "view_env \<Rightarrow> pyval \<Rightarrow> string option \<Rightarrow> string" where
  "uids_to_link V input_data rt =
     (let tmp = tv_str V input_data in
      fold (\<lambda>m tmp. replace_str m (html_link (''/analysis/'' @ m @ ''/ro/'' @ (case rt of None \<Rightarrow> ''None'' | Some r \<Rightarrow> r)) m) tmp)
        (get_all_uids_in_string tmp) tmp)"

definition create_firmware_version_links :: "(string \<times> string) list \<Rightarrow> string option \<Rightarrow> string list" where
  "create_firmware_version_links firmware_list selected_analysis =
     map (\<lambda>(u, version). html_link (''/analysis/'' @ u @ (case selected_analysis of
         Some (c # cs) \<Rightarrow> ''/'' @ c # cs | _ \<Rightarrow> [])) version) firmware_list"

text \<open>\<open>CVE-\d+-\d+\<close> and \<open>CWE-(\d+)\<close>\<close>

definition CVE_REGEX :: regex where
  "CVE_REGEX = seqs [lit ''CVE-'', plus_re (RChar is_digit), lit ''-'', plus_re (RChar is_digit)]"

definition link_to_cve :: "string \<Rightarrow> string" where
  "link_to_cve m = html_link (''https://nvd.nist.gov/vuln/detail/'' @ m) m"

definition replace_cve_with_link :: "string \<Rightarrow> string" where
  "replace_cve_with_link s = re_sub CVE_REGEX (\<lambda>m _. link_to_cve m) s"

definition CWE_REGEX :: regex where
  "CWE_REGEX = RSeq (lit ''CWE-'') (RGroup 1 (plus_re (RChar is_digit)))"

definition link_to_cwe :: "string \<Rightarrow> re_groups \<Rightarrow> string" where
  "link_to_cwe m g = html_link (''https://cwe.mitre.org/data/definitions/'' @ group_text g 1 @ ''.html'') m"

definition replace_cwe_with_link :: "string \<Rightarrow> string" where
  "replace_cwe_with_link s = re_sub CWE_REGEX link_to_cwe s"

section \<open>Colours and tags\<close>

definition coloured :: "string \<Rightarrow> string \<Rightarrow> pyval" where
  "coloured color content = PStr (''<span style='' @ [CHR 0x22] @ ''color:'' @ color @ '';'' @ [CHR 0x22] @ ''>'' @ content @ ''</span>'')"

definition text_highlighter :: "view_env \<Rightarrow> pyval \<Rightarrow> pyval list option \<Rightarrow> pyval list option \<Rightarrow> pyval" where
  "text_highlighter V input_data green0 red0 =
     (let red = (case red0 of None \<Rightarrow> [PStr ''offline''] | Some l \<Rightarrow> l);
          green = (case green0 of None \<Rightarrow> [PStr ''clean'', PStr ''online'', PInt 0] | Some l \<Rightarrow> l);
          mem = (\<lambda>x l. \<exists>y \<in> set l. py_eq x y); content = tv_str V input_data
      in if mem input_data green then coloured ''green'' content
         else if mem input_data red then coloured ''red'' content
         else if mem (PStr ''*'') green then coloured ''green'' content
         else if mem (PStr ''*'') red then coloured ''red'' content
         else input_data)"

definition infection_color :: "view_env \<Rightarrow> pyval \<Rightarrow> pyval" where
  "infection_color V input_data = text_highlighter V input_data (Some [PStr ''clean'', PInt 0]) (Some [PStr ''*''])"

text \<open>A tag as it is rendered: colour, value, tooltip and size.\<close>

record shown_tag =
  st_color :: pyval
  st_value :: pyval
  st_tooltip :: "string option"
  st_size :: int

definition render_fw_tags :: "(shown_tag \<Rightarrow> string) \<Rightarrow> (string, string) dict \<Rightarrow> int \<Rightarrow> string" where
  "render_fw_tags render tag_dict size_px =
     concat (map (\<lambda>(tag, color). render \<lparr>st_color = PStr color, st_value = PStr tag, st_tooltip = None, st_size = size_px\<rparr>)
       (sort_key fst tag_dict))"

text \<open>The entry \<open>root_uid\<close> of a plugin is no tag; a colour that is none becomes blue.\<close>

definition analysis_tag_entry :: "string \<Rightarrow> int \<Rightarrow> string \<times> pyval \<Rightarrow> shown_tag list result" where
  "analysis_tag_entry plugin_name size_px kv = (case kv of (key, tag) \<Rightarrow>
     if key = ''root_uid'' then Inr []
     else bind_r (item_of ''color'' tag) (\<lambda>color0. bind_r (item_of ''value'' tag) (\<lambda>v.
       Inr [\<lparr>st_color = (if color0 \<in> PStr ` set all_tag_colors then color0 else PStr (tag_value BLUE)), st_value = v,
             st_tooltip = Some (plugin_name @ '': '' @ key), st_size = size_px\<rparr>])))"

definition render_analysis_tags :: "(shown_tag \<Rightarrow> string) \<Rightarrow> (string, (string, pyval) dict) dict \<Rightarrow> int \<Rightarrow> string result" where
  "render_analysis_tags render tags size_px =
     map_r (\<lambda>shown. concat (map render (concat (concat shown))))
       (mapM_r (\<lambda>(plugin_name, entries). mapM_r (analysis_tag_entry plugin_name size_px) entries) tags)"

definition vulnerability_class :: "pyval \<Rightarrow> string option" where
  "vulnerability_class score =
     (if score = PStr ''high'' then Some ''danger'' else if score = PStr ''medium'' then Some ''warning''
      else if score = PStr ''low'' then Some ''active'' else if score = PStr ''none'' then Some ''success'' else None)"

section \<open>Charts\<close>

text \<open>Sums of numbers.\<close>

definition py_add :: "pyval \<Rightarrow> pyval \<Rightarrow> pyval result" where
  "py_add x y = (case (x, y) of
      (PInt a, PInt b) \<Rightarrow> Inr (PInt (a + b))
    | _ \<Rightarrow> (case (num_of x, num_of y) of (Some a, Some b) \<Rightarrow> Inr (PFloat (a + b)) | _ \<Rightarrow> Inl TypeError))"

definition py_sum :: "pyval list \<Rightarrow> pyval result" where
  "py_sum xs = foldM_r (\<lambda>x acc. py_add acc x) xs (PInt 0)"

definition set_limit_for_data_to_chart :: "pyval list \<Rightarrow> nat \<Rightarrow> pyval list \<Rightarrow> (pyval list \<times> pyval list) result" where
  "set_limit_for_data_to_chart label_list limit value_list =
     (if limit \<noteq> 0 \<and> limit < length label_list
      then map_r (\<lambda>rest_sum. (take limit label_list @ [PStr ''rest''], take limit value_list @ [rest_sum]))
             (py_sum (drop limit value_list))
      else Inr (label_list, value_list))"

text \<open>\<open>zip(*data)\<close> stops at the shortest row; fewer than three columns cannot be unpacked.\<close>

definition data_to_chart_with_value_percentage_pairs ::
  "(nat \<Rightarrow> nat \<Rightarrow> string list) \<Rightarrow> pyval list list \<Rightarrow> nat \<Rightarrow> (string, pyval) dict option result" where
  "data_to_chart_with_value_percentage_pairs colors data limit =
     (let width = (case data of [] \<Rightarrow> 0 | r # rs \<Rightarrow> fold (\<lambda>row n. min n (length row)) rs (length r));
          column = (\<lambda>i. map (\<lambda>row. row ! i) data)
      in if width < 3 then Inr None
         else bind_r (set_limit_for_data_to_chart (column 0) limit (column 1)) (\<lambda>(label_list, value_list).
           Inr (Some [(''labels'', PList label_list), (''datasets'', PList [PDict
             [(''data'', PList value_list), (''percentage'', PList (column 2)),
              (''backgroundColor'', PList (map PStr (colors (length value_list) limit))), (''borderWidth'', PInt 0),
              (''links'', if 3 < width then PList (column 3) else PStr ''null'')]])])))"

definition get_canvas_height :: "'a list \<Rightarrow> nat \<Rightarrow> nat \<Rightarrow> nat" where
  "get_canvas_height dataset maximum bar_height = min (length dataset) maximum * bar_height + 4"

section \<open>Texts\<close>

definition META_CHARS :: string where
  "META_CHARS = ''^$.[]|()?*+{}''"

definition comment_out_regex_meta_chars :: "string \<Rightarrow> string" where
  "comment_out_regex_meta_chars input_data =
     fold (\<lambda>c s. if c \<in> set s then replace_str [c] [CHR 0x5C, c] s else s) META_CHARS input_data"

definition fix_cwe :: "string \<Rightarrow> string" where
  "fix_cwe s = (if substr_in ''CWE'' s then last (split_on (CHR ''E'') (hd (split_on (CHR '']'') s))) else [])"

text \<open>\<open>f'{offset: >{n}}'\<close>.\<close>

definition rjust :: "nat \<Rightarrow> string \<Rightarrow> string" where
  "rjust n s = replicate (n - length s) (CHR '' '') @ s"

definition filter_format_string_list_with_offset :: "view_env \<Rightarrow> (int \<times> string) list \<Rightarrow> string" where
  "filter_format_string_list_with_offset V offset_tuples =
     (let max_offset_len = (if offset_tuples = [] then 0 else length (str_int (Max (set (map fst offset_tuples)))))
      in join_with newline_text (map (\<lambda>(offset, s). rjust max_offset_len (str_int offset) @ '': '' @ butlast (tl (tv_repr V s)))
           (sort_key fst (sort_key snd offset_tuples))))"

definition get_unique_keys_from_list_of_dicts :: "(string, 'v) dict list \<Rightarrow> string list" where
  "get_unique_keys_from_list_of_dicts list_of_dicts = py_set (concat (map dkeys list_of_dicts))"

definition is_not_mandatory_analysis_entry :: "string \<Rightarrow> string list option \<Rightarrow> bool" where
  "is_not_mandatory_analysis_entry item additional_entries \<longleftrightarrow>
     item \<notin> {''analysis_date'', ''plugin_version'', ''skipped'', ''summary'', ''system_version'', ''tags''} \<and>
     (case additional_entries of None \<Rightarrow> True | Some l \<Rightarrow> item \<notin> set l)"

definition elapsed_time :: "real \<Rightarrow> real \<Rightarrow> int" where
  "elapsed_time now started = py_round (now - started)"

definition render_query_title :: "view_env \<Rightarrow> pyval \<Rightarrow> pyval" where
  "render_query_title V query_title = (case query_title of PDict _ \<Rightarrow> PStr (tv_json V query_title) | _ \<Rightarrow> query_title)"

definition linter_reformat_issues :: "pyval list \<Rightarrow> (pyval, pyval list) dict result" where
  "linter_reformat_issues issues = foldM_r (\<lambda>issue reformatted.
     bind_r (item_of ''symbol'' issue) (\<lambda>symbol. bind_r (item_of ''line'' issue) (\<lambda>line.
     bind_r (item_of ''column'' issue) (\<lambda>col. bind_r (item_of ''message'' issue) (\<lambda>message.
       if hashable symbol
       then Inr (dappend symbol (PDict [(''line'', line), (''column'', col), (''message'', message)]) reformatted)
       else Inl TypeError))))) issues []"

text \<open>\<open>\[[0-9a-f ]{32,}]\<close> and \<open><(0x[0-9a-f]+ ?){10,}>\<close>\<close>

definition DTS_BYTES_REGEX :: regex where
  "DTS_BYTES_REGEX = seqs [lit ''['', at_least_re 32 (RChar (\<lambda>c. is_hex_lower c \<or> c = CHR '' '')), lit '']'']"

definition DTS_CELLS_REGEX :: regex where
  "DTS_CELLS_REGEX = seqs [lit ''<'', at_least_re 10 (RGroup 1 (seqs [lit ''0x'', plus_re (RChar is_hex_lower), opt_re (lit '' '')])), lit ''>'']"

definition hide_dts_binary_data :: "string \<Rightarrow> string" where
  "hide_dts_binary_data device_tree =
     re_sub DTS_CELLS_REGEX (\<lambda>_ _. ''(BINARY DATA ...)'') (re_sub DTS_BYTES_REGEX (\<lambda>_ _. ''(BINARY DATA ...)'') device_tree)"

text \<open>The first of the longest blocks.\<close>

definition get_searchable_crypto_block :: "string \<Rightarrow> string" where
  "get_searchable_crypto_block crypto_material =
     hd (py_sort_rev length (split_on (CHR 0x0A) (replace_char (CHR '' '') [] crypto_material)))"

section \<open>Users\<close>

definition sort_users_by_name :: "user list \<Rightarrow> user list" where
  "sort_users_by_name user_list = sort_key usr_email user_list"

text \<open>A role without privileges is a \<open>KeyError\<close>.\<close>

definition invert_privileges :: "(string, string list) dict \<Rightarrow> (string, string list) dict" where
  "invert_privileges privileges = fold (\<lambda>(key, value_list) inv. fold (\<lambda>v inv. dappend v key inv) value_list inv) privileges []"

definition sort_roles_by_number_of_privileges :: "string list \<Rightarrow> (string, string list) dict option \<Rightarrow> string list result" where
  "sort_roles_by_number_of_privileges roles privileges =
     (let inverted_privileges = invert_privileges (case privileges of None \<Rightarrow> PRIVILEGES | Some p \<Rightarrow> p) in
      map_r (\<lambda>keyed. map snd (sort_key fst keyed))
        (mapM_r (\<lambda>role. map_r (\<lambda>ps. (length ps, role)) (dlookup inverted_privileges role)) roles))"

definition user_has_role :: "'s user_store \<Rightarrow> bool \<Rightarrow> user option \<Rightarrow> string \<Rightarrow> bool result" where
  "user_has_role U is_authenticated current_user role = (if is_authenticated then user_has_privilege U current_user role else Inr False)"

section \<open>What the functions show\<close>

text \<open>
  Replacing one metacharacter after the other is the same as escaping every character once: the
  backslash they insert is no metacharacter. For this reason a backslash of the text itself is
  not escaped.
\<close>

lemma fold_escape:
  assumes "distinct cs" "CHR 0x5C \<notin> set cs"
  shows "fold (\<lambda>c s. if c \<in> set s then replace_str [c] [CHR 0x5C, c] s else s) cs s =
    concat (map (\<lambda>c. if c \<in> set cs then [CHR 0x5C, c] else [c]) s)"
  using assms
proof (induction cs arbitrary: s)
  case Nil
  show ?case by (induction s) simp_all
next
  case (Cons c cs)
  have step: "(if c \<in> set s then replace_str [c] [CHR 0x5C, c] s else s) = replace_char c [CHR 0x5C, c] s"
    by (simp add: replace_str_single replace_char_notin)
  have "concat (map (\<lambda>c. if c \<in> set cs then [CHR 0x5C, c] else [c]) (replace_char c [CHR 0x5C, c] s)) =
      concat (map (\<lambda>d. if d \<in> set (c # cs) then [CHR 0x5C, d] else [d]) s)"
    using Cons.prems by (induction s) auto
  with Cons show ?case by (simp only: fold_Cons o_apply step) simp
qed

lemma comment_out_regex_meta_chars_eq:
  "comment_out_regex_meta_chars s = concat (map (\<lambda>c. if c \<in> set META_CHARS then [CHR 0x5C, c] else [c]) s)"
  unfolding comment_out_regex_meta_chars_def by (rule fold_escape) (simp_all add: META_CHARS_def)

text \<open>Without the commas a number is printed as usual.\<close>

lemma filter_group_digits: "filter (\<lambda>c. c \<noteq> CHR '','') (group_digits s) = filter (\<lambda>c. c \<noteq> CHR '','') s"
  by (induction s rule: group_digits.induct) auto

lemma digits_no_comma: "filter (\<lambda>c. c \<noteq> CHR '','') (digits_of n) = digits_of n"
proof -
  have "c \<noteq> CHR '',''" if "c \<in> set (digits_of n)" for c using that digits_of_digits[of n] by (auto simp: is_digit_def)
  then show ?thesis by (simp add: filter_id_conv)
qed

lemma int_commas_digits: "filter (\<lambda>c. c \<noteq> CHR '','') (int_commas i) = str_int i"
  by (simp add: int_commas_def rev_filter[symmetric] filter_group_digits)
    (simp add: rev_filter digits_no_comma str_int_def)

text \<open>Cutting off a chart keeps the sum of its values.\<close>

lemma py_sum_ints: "py_sum (map PInt is) = Inr (PInt (sum_list is))"
proof -
  have "foldM_r (\<lambda>x acc. py_add acc x) (map PInt is) (PInt a) = Inr (PInt (a + sum_list is))" for a
    by (induction "is" arbitrary: a) (simp_all add: py_add_def)
  then show ?thesis by (simp add: py_sum_def)
qed

lemma chart_limit_keeps_sum:
  assumes "length label_list = length is"
  shows "\<exists>ls js. set_limit_for_data_to_chart label_list limit (map PInt is) = Inr (ls, map PInt js) \<and>
    length ls = length js \<and> sum_list js = sum_list is \<and> (limit \<noteq> 0 \<longrightarrow> length js \<le> Suc limit)"
proof (cases "limit \<noteq> 0 \<and> limit < length label_list")
  case True
  have "sum_list (take limit is) + sum_list (drop limit is) = sum_list is"
    by (metis append_take_drop_id sum_list_append)
  with True assms show ?thesis
    by (intro exI[of _ "take limit label_list @ [PStr ''rest'']"] exI[of _ "take limit is @ [sum_list (drop limit is)]"])
      (auto simp: set_limit_for_data_to_chart_def py_sum_ints drop_map take_map)
next
  case False
  with assms show ?thesis
    by (intro exI[of _ label_list] exI[of _ "is"]) (auto simp: set_limit_for_data_to_chart_def)
qed

text \<open>The scores are texts, so the highest score of all is sorted below a 9.\<close>

lemma highest_score_not_first:
  "sort_cve_results [(''CVE-1'', PDict [(''score2'', PStr ''10.0'')]), (''CVE-2'', PDict [(''score2'', PStr ''9.8'')])] =
     Inr [(''CVE-2'', PDict [(''score2'', PStr ''9.8'')]), (''CVE-1'', PDict [(''score2'', PStr ''10.0'')])]"
proof -
  have "\<not> ''9.8'' < ''10.0''" "''10.0'' < ''9.8''" by code_simp+
  then show ?thesis by (simp add: sort_cve_results_def item_of_def dlookup_def key_sort_rev_def key_sort_def)
qed

text \<open>Every role of the system has privileges, so the list of roles can always be shown.\<close>

lemma all_roles_sortable: "\<exists>rs. sort_roles_by_number_of_privileges ROLES None = Inr rs \<and> set rs = set ROLES"
proof -
  have "mapM_r (\<lambda>role. map_r (\<lambda>ps. (length ps, role)) (dlookup (invert_privileges PRIVILEGES) role)) ROLES \<noteq> Inl KeyError \<and>
    map_r (map snd) (mapM_r (\<lambda>role. map_r (\<lambda>ps. (length ps, role)) (dlookup (invert_privileges PRIVILEGES) role)) ROLES) = Inr ROLES"
    by code_simp
  then obtain keyed where keyed: "mapM_r (\<lambda>role. map_r (\<lambda>ps. (length ps, role)) (dlookup (invert_privileges PRIVILEGES) role)) ROLES = Inr keyed"
    "ROLES = map snd keyed" by (auto simp: map_r_Inr_iff)
  have "set (map snd (sort_key fst keyed)) = set ROLES"
    using arg_cong[OF keyed(2), of set] by (simp only: set_map set_sort)
  with keyed(1) show ?thesis by (simp add: sort_roles_by_number_of_privileges_def)
qed

text \<open>The block that is searched for is a longest one, and has no blanks.\<close>

lemma crypto_block:
  assumes "b = get_searchable_crypto_block s" "bs = split_on (CHR 0x0A) (filter (\<lambda>c. c \<noteq> CHR '' '') s)"
  shows "b \<in> set bs" "c \<in> set bs \<Longrightarrow> length c \<le> length b"
proof -
  have bs: "split_on (CHR 0x0A) (replace_char (CHR '' '') [] s) = bs"
    unfolding assms(2) by (rule arg_cong[where f = "split_on _"]) (induction s; simp)
  let ?l = "py_sort_rev length bs"
  have l: "set ?l = set bs" "sorted_wrt (\<lambda>x y. length y \<le> length x) ?l"
    by (simp_all add: py_sort_rev_def sorted_wrt_rev sorted_sort_key[unfolded sorted_map])
  have "bs \<noteq> []" by (simp add: assms(2))
  then have ne: "?l \<noteq> []" by (metis l(1) set_empty)
  have b: "b = hd ?l" by (simp add: assms(1) get_searchable_crypto_block_def bs)
  show "b \<in> set bs" using hd_in_set[OF ne] by (simp only: l(1) b)
  show "length c \<le> length b" if "c \<in> set bs"
  proof -
    have "c \<in> set ?l" using that by (simp only: l(1))
    with ne l(2) show ?thesis unfolding b by (cases ?l) auto
  qed
qed

end
