(* ===== verification/Spec2Isabelle.thy ===== *)
theory Spec2Isabelle
  imports TaskScheduler AnalysisStatus AdminDb AnalysisPipeline AnalysisDecision Redis WorkerProcesses Intercom
    ComparePlugins FileTree QueryConversion FrontendDb TaskConversion RestApi CveLookup StatisticViews SearchRoutes UserManagement QemuExec
    YaraPlugins PageRoutes PageFilters
begin

text \<open>
  A verification library of FACT core, the Firmware Analysis and Comparison Tool. Paths are
  relative to \<open>src/\<close> of the repository.

  The program. A firmware image is uploaded through the web interface or the REST interface
  (\<open>web_interface\<close>), sent to the back end through Redis (\<open>intercom\<close>, \<open>storage/redis_interface.py\<close>),
  unpacked recursively (\<open>unpacker\<close>, \<open>scheduler/unpacking_scheduler.py\<close>), and every file in it is
  analysed by plugins in an order that respects their dependencies (\<open>scheduler/task_scheduler.py\<close>,
  \<open>scheduler/analysis.py\<close>, \<open>analysis/PluginBase.py\<close>, \<open>plugins/analysis\<close>). Objects and results are
  kept in PostgreSQL (\<open>storage/db_interface_*.py\<close>), binaries on disk (\<open>storage/fsorganizer.py\<close>).
  The front end searches, browses, compares and deletes what is stored.

  Conventions. A dict is an association list in insertion order, a set a list without duplicates,
  a class a record, an exception the left side of \<open>py_error + 'a\<close>; an operation with effects maps
  a state to a result and the new state. Text ranges over the code points below 256, a float is a
  real, integers are unbounded. Code that is not in the repository is an argument of the
  definitions that use it: SHA-256, the clock, random draws, the file system, containers and
  processes, PostgreSQL's operators and its refusals beyond the schema, pickle, JSON, YARA,
  networkx, ssdeep, packaging's version order, the user store of Flask-Security. What a property
  relies on of such code is a named premise (\<open>store_ok\<close>, \<open>bin_ok\<close>, \<open>run_ok\<close>, hypotheses on the hash),
  and its witness instantiates it with a concrete function.

  Foundations.
  \<^item> Prelude: results, dicts, sets, strings, loops that may raise, their lemma collections, and two
    interfaces as locales. \<open>kv_store\<close> (a store read after writes and deletions) is interpreted on
    the dicts. \<open>component\<close> (steps that keep an invariant) is interpreted on the database
    (\<open>db_runs\<close>), the analysis status (\<open>status_runs\<close>), the vulnerability database (\<open>cve_repo\<close>) and
    the thread pool of the QEMU plugin (\<open>qemu_pool\<close>), whose properties about arbitrary sequences of
    operations rest on it.
  \<^item> PyRegex: the part of Python's \<open>re\<close> the modelled code needs, an executable matcher with the
    priorities of backtracking and an inductive semantics it is proved to agree with.

  Data model.
  \<^item> Conversion (\<open>helperFunctions/data_conversion.py\<close>, \<open>uid.py\<close>, \<open>compare_sets.py\<close>, \<open>merge_generators.py\<close>,
    \<open>tag.py\<close>): UIDs, comparison IDs, duplicates, shuffling.
  \<^item> VirtualPath (\<open>helperFunctions/virtual_file_path.py\<close>): where a file lies in its containers.
  \<^item> FileObj (\<open>objects/file.py\<close>, \<open>objects/firmware.py\<close>): file objects and firmware as one record.

  Storage.
  \<^item> DbSchema (\<open>storage/schema.py\<close>): tables, associations, cascades, transactions; \<open>db_ok\<close> is the
    referential integrity every operation keeps.
  \<^item> EntryConversion (\<open>storage/entry_conversion.py\<close>): objects and analyses to rows and back, the
    removal of NUL characters.
  \<^item> CommonDb, BackendDb, AdminDb, FrontendDb (\<open>storage/db_interface_common.py\<close>, \<open>_backend\<close>, \<open>_admin\<close>,
    \<open>_frontend\<close>): reading, storing, deleting, the queries of the pages. Shown: what is stored is
    read back, a repeated file keeps its parents and paths, an update of one analysis leaves the
    others, a deletion removes exactly the files no other firmware contains, and the integrity holds
    in every run.
  \<^item> QueryConversion (\<open>storage/query_conversion.py\<close>): search dicts to select statements, which are
    executed on the tables. Shown: searches for firmware, for files and for the parents of files agree.
  \<^item> Statistics (\<open>storage/db_interface_stats.py\<close>, \<open>statistic/\<close>) and StatisticViews
    (\<open>web_interface/components/statistic_routes.py\<close>, \<open>web_interface/rest/rest_statistics.py\<close>).
  \<^item> FileStore (\<open>storage/fsorganizer.py\<close>, \<open>storage/binary_service.py\<close>,
    \<open>helperFunctions/yara_binary_search.py\<close>): stored binaries and the YARA search in them.
  \<^item> Redis (\<open>storage/redis_interface.py\<close>): values in chunks, queues; values are read back once.

  The back end.
  \<^item> Unpacking (\<open>unpacker/unpack.py\<close>, \<open>unpack_base.py\<close>, \<open>storage/unpacking_locks.py\<close>,
    \<open>scheduler/unpacking_scheduler.py\<close>): what a container extracts is stored, locked, linked and
    queued; unpacking ends.
  \<^item> AnalysisPlugin (\<open>analysis/PluginBase.py\<close>, \<open>statistic/analysis_stats.py\<close>): the plugin contract, tags,
    the worker's turn with its outcomes success, timeout and exception.
  \<^item> TaskScheduler (\<open>scheduler/task_scheduler.py\<close>): the closure and the order of a file's analyses.
  \<^item> AnalysisStatus (\<open>scheduler/analysis_status.py\<close>): which firmware is still running.
  \<^item> AnalysisScheduler (\<open>scheduler/analysis.py\<close>), with AnalysisDecision (when a task runs) and
    AnalysisPipeline (all interleavings of runner, workers and collector as an inductive step
    relation): every run ends, no task is lost, dependencies come first.
  \<^item> Comparison (\<open>compare/\<close>, \<open>storage/db_interface_comparison.py\<close>, \<open>scheduler/comparison_scheduler.py\<close>)
    and ComparePlugins (\<open>plugins/compare/\<close>): each comparison is computed once and found again; the
    coverage plugin partitions the files.
  \<^item> WorkerProcesses (\<open>helperFunctions/process.py\<close>): the restart of failed workers.
  \<^item> Intercom (\<open>intercom/\<close>): requests, responses and listeners; a deletion works through all layers.

  The front end.
  \<^item> FileTree (\<open>web_interface/file_tree/\<close>): the tree shows exactly the paths of the files.
  \<^item> TaskConversion (\<open>helperFunctions/task_conversion.py\<close>, \<open>web_interface/components/io_routes.py\<close>): from
    the upload form to a firmware that reaches the unpacker.
  \<^item> RestApi (\<open>web_interface/rest/\<close>, \<open>helperFunctions/object_conversion.py\<close>).
  \<^item> SearchRoutes (\<open>web_interface/components/database_routes.py\<close>, \<open>web_interface/pagination.py\<close>,
    \<open>storage/db_interface_frontend_editing.py\<close>): a binary search shows its matches.
  \<^item> UserManagement (\<open>web_interface/security/\<close>, \<open>user_management_routes.py\<close>, \<open>manage_users.py\<close>): role
    changes are exact, and nobody gains rights.
  \<^item> PageRoutes (\<open>web_interface/components/analysis_routes.py\<close>, \<open>compare_routes.py\<close>,
    \<open>dependency_graph.py\<close>, \<open>miscellaneous_routes.py\<close>): the comparison basket, the page of an analysis,
    the dependency graph, and a repeated analysis, which never loses the firmware.
  \<^item> PageFilters (\<open>web_interface/filter.py\<close>): the functions the templates apply to values.

  Plugins (\<open>plugins/analysis/\<close>).
  \<^item> CveRepository and CveLookup (\<open>cve_lookup\<close>): the vulnerability database, its update, and the way
    from a software component to its CVEs. Shown: rows are typed, updates exact, the closest version
    is chosen and exactly the affecting CVEs are reported.
  \<^item> FileSystemMetadata (\<open>file_system_metadata\<close>): the warning of setuid files is exact, and the
    metadata of a file is found again from the file itself.
  \<^item> QemuExec (\<open>qemu_exec\<close>): the results of the threads are genuine under every interleaving.
  \<^item> YaraPlugins (\<open>analysis/YaraPluginBase.py\<close>, \<open>software_components\<close>, \<open>known_vulnerabilities\<close>): a
    detected version reaches the lookup of vulnerabilities, and Heartbleed is reported exactly for
    the versions of its rule.

  Loops. Recursion over data is structural or has a measure. The loops without a bound in the code
  are partial functions into \<open>option\<close>, where \<open>None\<close> is a run that does not end:
  \<open>CommonDb.get_files_in_files\<close> and \<open>AdminDb.remove_virtual_path_entries\<close> (end when no file contains
  itself, which is proved), \<open>Intercom.response_listener\<close> (a clock decides), \<open>Redis.get_new_chunk_key\<close>
  (random keys). \<open>QemuExec.merge_fuel\<close> has the number of entries as fuel: each round merges two
  entries into one, so that many rounds are enough, which \<open>merge_identical_results_exact\<close> proves.

  Not modelled. Starting, stopping and signalling processes, logging, configuration files, the
  installer, database set-up and migration scripts (they start external programs or run SQL text);
  the templates; PDF reports and the docker helpers. The remaining analysis plugins copy the
  output of an external tool into their result (Ghidra, cwe_checker, binwalk, checksec, linters,
  lief, tlsh, dtc) or scan a file with fixed patterns: they are called through the plugin interface,
  where the plugin's function is a parameter. Concurrency is modelled where processes or threads
  share state (the pipeline, the locks, the status, the QEMU pool) as steps in any order; the
  memory model below a step, network failures and the crash of a server are not.

  Lemmas that are not properties of the code's intention show where it deviates from it, for
  instance \<open>QemuExec.lost_update\<close>, \<open>FileSystemMetadata.mounted_subdirectories_not_shown\<close>,
  \<open>Intercom.falsy_response_lost\<close>, \<open>SearchRoutes.later_search_replaces_earlier\<close> and
  \<open>QueryConversion.or_drops_other_conditions\<close>.
\<close>

end
